(* ===== verification/Prelude.thy ===== *)
theory Prelude
  imports Complex_Main "HOL-Library.AList" "HOL-Library.Multiset"
begin

text \<open>
  What every component of the model shares: the Python built-ins the backend leans on
  (ASCII case folding, \<open>strip\<close>, decimal rendering of integers, insertion-ordered
  dictionaries, \<open>max\<close>/\<open>min\<close> clamping, stable sorting by a key), the error type of a
  fallible call, and the theorem collections that the component proofs feed to the
  simplifier.
\<close>

named_theorems py_eval \<open>equations that evaluate a closed call of the model\<close>
named_theorems py_split \<open>case splits for the sum and option results of the model\<close>

declare sum.splits [py_split] option.splits [py_split] prod.splits [py_split]

section \<open>Names used throughout\<close>

text \<open>A UUID is its canonical text, an instant is microseconds since the epoch (UTC), a
  calendar date is its ordinal day number. Python keeps all three exact.\<close>

type_synonym uuid = string
type_synonym instant = int
type_synonym day = int

abbreviation (input) second :: int where "second \<equiv> 1000000"
abbreviation (input) minute :: int where "minute \<equiv> 60 * 1000000"
abbreviation (input) hour :: int where "hour \<equiv> 3600 * 1000000"

section \<open>Strings\<close>

definition lower_letters :: string where "lower_letters = ''abcdefghijklmnopqrstuvwxyz''"
definition upper_letters :: string where "upper_letters = ''ABCDEFGHIJKLMNOPQRSTUVWXYZ''"

definition char_upper :: "char \<Rightarrow> char" where
  "char_upper c = (case map_of (zip lower_letters upper_letters) c of Some d \<Rightarrow> d | None \<Rightarrow> c)"

definition char_lower :: "char \<Rightarrow> char" where
  "char_lower c = (case map_of (zip upper_letters lower_letters) c of Some d \<Rightarrow> d | None \<Rightarrow> c)"

definition str_upper :: "string \<Rightarrow> string" where "str_upper = map char_upper"
definition str_lower :: "string \<Rightarrow> string" where "str_lower = map char_lower"

lemmas str_case_eval [py_eval] =
  str_upper_def str_lower_def char_upper_def char_lower_def lower_letters_def upper_letters_def

lemma char_upper_upper: "list_all (\<lambda>d. char_upper d = d) upper_letters"
  by code_simp

lemma char_upper_idem [simp]: "char_upper (char_upper c) = char_upper c"
proof (cases "map_of (zip lower_letters upper_letters) c")
  case (Some d)
  then have "(c, d) \<in> set (zip lower_letters upper_letters)" by (rule map_of_SomeD)
  then have "d \<in> set upper_letters" by (rule set_zip_rightD)
  then have "char_upper d = d" using char_upper_upper by (simp add: list_all_iff)
  with Some show ?thesis by (simp add: char_upper_def)
qed (simp add: char_upper_def)

lemma str_upper_idem [simp]: "str_upper (str_upper s) = str_upper s"
  by (simp add: str_upper_def)

lemma str_upper_Nil_iff [simp]: "str_upper s = [] \<longleftrightarrow> s = []"
  by (simp add: str_upper_def)

text \<open>The characters \<open>str.strip\<close> removes, in the ASCII range.\<close>

definition is_space :: "char \<Rightarrow> bool" where
  "is_space c \<longleftrightarrow> of_char c \<in> {9, 10, 11, 12, 13, 28, 29, 30, 31, 32 :: nat}"

definition str_strip :: "string \<Rightarrow> string" where
  "str_strip s = rev (dropWhile is_space (rev (dropWhile is_space s)))"

lemmas str_strip_eval [py_eval] = str_strip_def is_space_def

lemma dropWhile_idem [simp]: "dropWhile P (dropWhile P xs) = dropWhile P xs"
  by (induction xs) auto

lemma str_strip_idem [simp]: "str_strip (str_strip s) = str_strip s"
proof -
  let ?d = "\<lambda>xs. dropWhile is_space xs"
  have "?d (rev (?d (rev (?d s)))) = rev (?d (rev (?d s)))"
  proof (cases "rev (?d (rev (?d s)))")
    case (Cons c cs)
    have "\<exists>ys. ?d s = rev (?d (rev (?d s))) @ ys"
      by (metis rev_append rev_rev_ident takeWhile_dropWhile_id)
    then obtain ys where "?d s = (c # cs) @ ys" using Cons by auto
    then have "\<not> is_space c" by (metis append_Cons dropWhile_eq_Cons_conv)
    with Cons show ?thesis by simp
  next
    case Nil
    then show ?thesis by (simp only: dropWhile.simps)
  qed
  then show ?thesis by (simp add: str_strip_def)
qed

text \<open>Folding the case does not touch white space.\<close>

lemma no_space_letters: "list_all (\<lambda>(c, d). \<not> is_space c \<and> \<not> is_space d) (zip lower_letters upper_letters)"
  by code_simp

lemma is_space_upper [simp]: "is_space (char_upper c) = is_space c"
proof (cases "map_of (zip lower_letters upper_letters) c")
  case (Some d)
  then have "(c, d) \<in> set (zip lower_letters upper_letters)" by (rule map_of_SomeD)
  then show ?thesis using Some no_space_letters by (auto simp: list_all_iff char_upper_def)
qed (simp add: char_upper_def)

lemma str_strip_upper: "str_strip (str_upper s) = str_upper (str_strip s)"
proof -
  have "dropWhile is_space (map char_upper xs) = map char_upper (dropWhile is_space xs)" for xs
    by (simp add: dropWhile_map o_def)
  then show ?thesis by (simp add: str_strip_def str_upper_def rev_map)
qed

text \<open>\<open>str(n)\<close> of a natural number and of an integer.\<close>

fun nat_str :: "nat \<Rightarrow> string" where
  "nat_str n = (if n < 10 then [''0123456789'' ! n]
                else nat_str (n div 10) @ [''0123456789'' ! (n mod 10)])"

declare nat_str.simps [simp del, py_eval]

definition int_str :: "int \<Rightarrow> string" where
  "int_str n = (if n < 0 then CHR ''-'' # nat_str (nat (- n)) else nat_str (nat n))"

declare int_str_def [py_eval]

lemma replicate_numeral_eval [py_eval]:
  "replicate (numeral k) x = x # replicate (pred_numeral k) x"
  by (simp add: numeral_eq_Suc)

section \<open>Insertion-ordered dictionaries\<close>

text \<open>A Python \<open>dict\<close> iterates in insertion order and keeps a key's place on update; that is
  an association list with \<^const>\<open>AList.update\<close>.\<close>

type_synonym ('k, 'v) dict = "('k \<times> 'v) list"

definition dict_get :: "('k, 'v) dict \<Rightarrow> 'k \<Rightarrow> 'v \<Rightarrow> 'v" where
  "dict_get d k v0 = (case map_of d k of Some v \<Rightarrow> v | None \<Rightarrow> v0)"

definition dict_set :: "'k \<Rightarrow> 'v \<Rightarrow> ('k, 'v) dict \<Rightarrow> ('k, 'v) dict" where
  "dict_set k v d = AList.update k v d"

lemma dict_set_lookup [simp]: "map_of (dict_set k v d) k' = (if k' = k then Some v else map_of d k')"
  by (simp add: dict_set_def update_conv')

lemma dict_set_keys: "fst ` set (dict_set k v d) = insert k (fst ` set d)"
  by (simp add: dict_set_def dom_update)

lemma dict_set_distinct: "distinct (map fst d) \<Longrightarrow> distinct (map fst (dict_set k v d))"
  by (simp add: dict_set_def distinct_update)

section \<open>Clamping\<close>

text \<open>Python writes \<open>max(lo, min(hi, x))\<close>.\<close>

definition clamp :: "'a::linorder \<Rightarrow> 'a \<Rightarrow> 'a \<Rightarrow> 'a" where
  "clamp lo hi x = max lo (min hi x)"

lemma clamp_bounds:
  "lo \<le> clamp lo hi x" "lo \<le> hi \<Longrightarrow> clamp lo hi x \<le> hi"
  by (auto simp: clamp_def)

lemma clamp_id [simp]: "lo \<le> x \<Longrightarrow> x \<le> hi \<Longrightarrow> clamp lo hi x = x"
  by (auto simp: clamp_def)

lemma clamp_mono: "x \<le> y \<Longrightarrow> clamp lo hi x \<le> clamp lo hi y"
  by (auto simp: clamp_def max_def min_def)

section \<open>Sorting\<close>

text \<open>\<open>sorted(xs, key=f, reverse=True)\<close> and \<open>sorted(xs, key=lambda x: -f(x))\<close> are the same
  stable descending sort.\<close>

definition sort_desc :: "('a \<Rightarrow> rat) \<Rightarrow> 'a list \<Rightarrow> 'a list" where
  "sort_desc f xs = sort_key (\<lambda>x. - f x) xs"

lemma set_sort_desc [simp]: "set (sort_desc f xs) = set xs"
  by (simp add: sort_desc_def)

lemma length_sort_desc [simp]: "length (sort_desc f xs) = length xs"
  by (simp add: sort_desc_def)

lemma mset_sort_desc [simp]: "mset (sort_desc f xs) = mset xs"
  by (simp add: sort_desc_def)

lemma sort_desc_Nil [simp]: "sort_desc f xs = [] \<longleftrightarrow> xs = []"
  using length_sort_desc[of f xs] by (metis length_0_conv)

lemma sort_desc_empty [simp]: "sort_desc f [] = []"
  by (simp add: sort_desc_def)

lemma sort_desc_sorted: "sorted_wrt (\<lambda>x y. f y \<le> f x) (sort_desc f xs)"
proof -
  have "sorted (map (\<lambda>x. - f x) (sort_key (\<lambda>x. - f x) xs))" by (rule sorted_sort_key)
  then show ?thesis by (simp add: sort_desc_def sorted_wrt_map)
qed

lemma filter_sort_desc: "filter P (sort_desc f xs) = sort_desc f (filter P xs)"
  by (simp add: sort_desc_def filter_sort)

section \<open>Fallible calls\<close>

text \<open>A call that may raise returns \<open>Inl error\<close> or \<open>Inr value\<close>.\<close>

definition bind_res :: "'e + 'a \<Rightarrow> ('a \<Rightarrow> 'e + 'b) \<Rightarrow> 'e + 'b" where
  "bind_res r f = (case r of Inl e \<Rightarrow> Inl e | Inr a \<Rightarrow> f a)"

lemma bind_res_simps [simp]:
  "bind_res (Inl e) f = Inl e" "bind_res (Inr a) f = f a"
  by (simp_all add: bind_res_def)

lemma bind_res_Inr_iff: "bind_res r f = Inr b \<longleftrightarrow> (\<exists>a. r = Inr a \<and> f a = Inr b)"
  by (cases r) auto

end
