(* ===== verification/PyNum.thy ===== *)
theory PyNum
  imports Prelude
begin

text \<open>
  Python's two inexact number types, kept at their width. A \<open>float\<close> is an IEEE binary64
  value and a \<open>Decimal\<close> a value of the default decimal context (28 significant digits);
  both round every operation half to even. A number is modelled by its exact rational
  value, and each arithmetic operation of the source by the exact operation followed by
  \<open>f64\<close> or \<open>d28\<close>. Left out: infinities, NaN and overflow (the code guards its divisions
  and handles amounts far below 1e308) and the sign of zero.
  The locale \<open>rounding\<close> states what the component proofs need of a rounding function;
  both roundings interpret it.
\<close>

section \<open>Rounding to a number of significant digits\<close>

definition round_half_even :: "rat \<Rightarrow> int" where
  "round_half_even x =
     (let f = \<lfloor>x\<rfloor>; d = x - of_int f
      in if d < 1 / 2 then f else if d > 1 / 2 then f + 1 else if even f then f else f + 1)"

lemma round_half_even_of_int [simp]: "round_half_even (of_int n) = n"
  by (simp add: round_half_even_def)

lemma round_half_even_floor:
  "\<lfloor>x\<rfloor> \<le> round_half_even x" "round_half_even x \<le> \<lfloor>x\<rfloor> + 1"
  by (auto simp: round_half_even_def Let_def)

lemma round_half_even_mono:
  assumes "x \<le> y" shows "round_half_even x \<le> round_half_even y"
proof (cases "\<lfloor>x\<rfloor> = \<lfloor>y\<rfloor>")
  case True
  with assms show ?thesis by (simp add: round_half_even_def Let_def)
next
  case False
  then have "\<lfloor>x\<rfloor> + 1 \<le> \<lfloor>y\<rfloor>" using floor_mono[OF assms] by linarith
  then show ?thesis using round_half_even_floor[of x] round_half_even_floor[of y] by linarith
qed

lemma round_half_even_uminus: "round_half_even (- x) = - round_half_even x"
proof (cases "x = of_int \<lfloor>x\<rfloor>")
  case True
  then show ?thesis by (metis of_int_minus round_half_even_of_int)
next
  case False
  then have f: "\<lfloor>- x\<rfloor> = - \<lfloor>x\<rfloor> - 1"
    by (metis ceiling_altdef ceiling_def diff_minus_eq_add minus_diff_eq minus_minus uminus_add_conv_diff add.commute)
  then show ?thesis by (auto simp: round_half_even_def Let_def f)
qed

function ilog :: "int \<Rightarrow> int \<Rightarrow> nat" where
  "ilog b n = (if b \<le> 1 \<or> n < b then 0 else Suc (ilog b (n div b)))"
  by pat_completeness auto
termination
  by (relation "measure (\<lambda>(b, n). nat n)") (auto simp: int_div_less_self)

declare ilog.simps [simp del]

lemma ilog_bounds:
  assumes "2 \<le> b" "1 \<le> n"
  shows "b ^ ilog b n \<le> n \<and> n < b ^ Suc (ilog b n)"
  using assms
proof (induction b n rule: ilog.induct)
  case (1 b n)
  show ?case
  proof (cases "n < b")
    case True
    with "1.prems" show ?thesis by (simp add: ilog.simps[of b n])
  next
    case False
    have d: "1 \<le> n div b" using False "1.prems"
      by (metis linorder_not_less pos_imp_zdiv_pos_iff zero_less_one int_one_le_iff_zero_less less_le_trans zero_less_numeral)
    have IH: "b ^ ilog b (n div b) \<le> n div b" "n div b < b ^ Suc (ilog b (n div b))"
      using "1.IH" False "1.prems" d by auto
    have "b * b ^ ilog b (n div b) \<le> b * (n div b)"
      using IH(1) "1.prems" by (intro mult_left_mono) auto
    also have "\<dots> \<le> n" using "1.prems" by (metis mult.commute add_increasing2 order_refl div_mult_mod_eq pos_mod_sign zero_less_numeral less_le_trans)
    finally have lo: "b ^ Suc (ilog b (n div b)) \<le> n" by simp
    have "n < b * (n div b + 1)"
      using "1.prems" by (metis mult.commute div_mult_mod_eq distrib_left mult.right_neutral add_strict_left_mono pos_mod_bound zero_less_numeral less_le_trans)
    also have "\<dots> \<le> b * b ^ Suc (ilog b (n div b))"
      using IH(2) "1.prems" by (intro mult_left_mono) auto
    finally have "n < b ^ Suc (Suc (ilog b (n div b)))" by simp
    with lo False "1.prems" show ?thesis by (simp add: ilog.simps[of b n])
  qed
qed

definition mag :: "int \<Rightarrow> rat \<Rightarrow> int" where
  "mag b x =
     (let (n, d) = quotient_of x; k = int (ilog b \<bar>n\<bar>) - int (ilog b d)
      in if power_int (of_int b) k \<le> \<bar>x\<bar> then k else k - 1)"

lemma mag_bounds:
  assumes b: "2 \<le> b" and x: "x \<noteq> 0"
  shows "power_int (of_int b) (mag b x) \<le> \<bar>x\<bar>" "\<bar>x\<bar> < power_int (of_int b) (mag b x + 1)"
proof -
  let ?B = "of_int b :: rat"
  obtain n d where q: "quotient_of x = (n, d)" by fastforce
  have d: "1 \<le> d" using quotient_of_denom_pos[OF q] by simp
  have xe: "\<bar>x\<bar> = of_int \<bar>n\<bar> / of_int d" using quotient_of_div[OF q] d by simp
  have n: "1 \<le> \<bar>n\<bar>" using x quotient_of_div[OF q] by (cases "n = 0") auto
  define i j where "i = ilog b \<bar>n\<bar>" and "j = ilog b d"
  have ni: "?B ^ i \<le> of_int \<bar>n\<bar>" "of_int \<bar>n\<bar> < ?B ^ Suc i"
    using ilog_bounds[OF b n] unfolding i_def
    by (metis of_int_le_iff of_int_power, metis of_int_less_iff of_int_power)
  have dj: "?B ^ j \<le> of_int d" "of_int d < ?B ^ Suc j"
    using ilog_bounds[OF b d] unfolding j_def
    by (metis of_int_le_iff of_int_power, metis of_int_less_iff of_int_power)
  have B: "0 < ?B" "1 < ?B" using b by auto
  have pd: "(0::rat) < of_int d" using d by simp
  have hi: "\<bar>x\<bar> < power_int ?B (int i - int j + 1)"
  proof -
    have "of_int \<bar>n\<bar> / of_int d < ?B ^ Suc i / ?B ^ j"
      using ni dj B pd by (intro frac_less) auto
    also have "\<dots> = power_int ?B (int i - int j + 1)"
      using B by (simp add: power_int_diff power_int_add)
    finally show ?thesis by (simp add: xe)
  qed
  have lo: "power_int ?B (int i - int j - 1) \<le> \<bar>x\<bar>"
  proof -
    have e: "int i - int j - 1 = int i - int (Suc j)" by simp
    have "power_int ?B (int i - int j - 1) = ?B ^ i / ?B ^ Suc j"
      unfolding e using B power_int_diff[of ?B "int i" "int (Suc j)"] by (simp only: power_int_of_nat) simp
    also have "\<dots> \<le> of_int \<bar>n\<bar> / of_int d"
      using ni dj B pd by (intro frac_le) auto
    finally show ?thesis by (simp add: xe)
  qed
  have m: "mag b x = (if power_int ?B (int i - int j) \<le> \<bar>x\<bar> then int i - int j else int i - int j - 1)"
    by (simp add: mag_def q i_def j_def Let_def)
  show "power_int ?B (mag b x) \<le> \<bar>x\<bar>" "\<bar>x\<bar> < power_int ?B (mag b x + 1)"
    using hi lo by (auto simp: m)
qed

definition sig_round :: "int \<Rightarrow> nat \<Rightarrow> int \<Rightarrow> rat \<Rightarrow> rat" where
  "sig_round b p emin x =
     (if x = 0 then 0
      else let u = power_int (of_int b) (max (mag b x - int p + 1) emin)
           in of_int (round_half_even (x / u)) * u)"

lemma sig_round_0 [simp]: "sig_round b p emin 0 = 0"
  by (simp add: sig_round_def)

lemma mag_uminus: "mag b (- x) = mag b x"
  by (cases "quotient_of x") (simp add: mag_def rat_uminus_code)

lemma sig_round_uminus: "sig_round b p emin (- x) = - sig_round b p emin x"
  by (simp add: sig_round_def mag_uminus Let_def round_half_even_uminus)

definition sig_exp :: "int \<Rightarrow> nat \<Rightarrow> int \<Rightarrow> rat \<Rightarrow> int" where
  "sig_exp b p emin x = max (mag b x - int p + 1) emin"

lemma sig_round_alt:
  "x \<noteq> 0 \<Longrightarrow> sig_round b p emin x =
     of_int (round_half_even (x / power_int (of_int b) (sig_exp b p emin x)))
       * power_int (of_int b) (sig_exp b p emin x)"
  by (simp add: sig_round_def sig_exp_def Let_def)

lemma power_int_quotient_int:
  assumes "2 \<le> b" "q \<le> k"
  shows "power_int (of_int b :: rat) k / power_int (of_int b) q = of_int (b ^ nat (k - q))"
proof -
  have "power_int (of_int b :: rat) k / power_int (of_int b) q = power_int (of_int b) (k - q)"
    using assms by (simp add: power_int_diff)
  also have "\<dots> = of_int (b ^ nat (k - q))"
    using assms by (simp add: power_int_def)
  finally show ?thesis .
qed

lemma sig_round_exact_aux:
  assumes b: "2 \<le> b" and k: "sig_exp b p emin x \<le> k"
    and x: "x = of_int m * power_int (of_int b) k"
  shows "sig_round b p emin x = x"
proof (cases "x = 0")
  case True then show ?thesis by simp
next
  case False
  let ?u = "power_int (of_int b :: rat) (sig_exp b p emin x)"
  have u: "?u \<noteq> 0" using b by simp
  have "x / ?u = of_int m * (power_int (of_int b) k / ?u)"
    using x by (metis times_divide_eq_right)
  also have "\<dots> = of_int (m * b ^ nat (k - sig_exp b p emin x))"
    using power_int_quotient_int[OF b k] by simp
  finally have "x / ?u = of_int (m * b ^ nat (k - sig_exp b p emin x))" .
  then have "of_int (round_half_even (x / ?u)) = x / ?u" by (metis round_half_even_of_int)
  then show ?thesis using u by (simp add: sig_round_alt[OF False])
qed

lemma mag_le:
  assumes b: "2 \<le> b" and x: "x \<noteq> 0" "\<bar>x\<bar> < power_int (of_int b) k"
  shows "mag b x < k"
proof (rule ccontr)
  assume "\<not> mag b x < k"
  then have "power_int (of_int b :: rat) k \<le> power_int (of_int b) (mag b x)"
    using b by (intro power_int_increasing) auto
  then show False using mag_bounds(1)[OF b x(1)] x(2) by linarith
qed

lemma mag_ge:
  assumes b: "2 \<le> b" and x: "power_int (of_int b) k \<le> \<bar>x\<bar>"
  shows "k \<le> mag b x"
proof (rule ccontr)
  assume "\<not> k \<le> mag b x"
  then have "power_int (of_int b :: rat) (mag b x + 1) \<le> power_int (of_int b) k"
    using b by (intro power_int_increasing) auto
  moreover have "0 < power_int (of_int b :: rat) k" using b by (simp add: zero_less_power_int)
  then have "x \<noteq> 0" using x by auto
  ultimately show False using mag_bounds(2)[OF b, of x] x by linarith
qed

lemma sig_round_exact:
  assumes b: "2 \<le> b" and p: "1 \<le> p" and k: "emin \<le> k" and m: "\<bar>m\<bar> \<le> b ^ p"
    and x: "x = of_int m * power_int (of_int b) k"
  shows "sig_round b p emin x = x"
proof (cases "x = 0 \<or> \<bar>m\<bar> = b ^ p")
  case False
  let ?B = "of_int b :: rat"
  have "\<bar>x\<bar> = of_int \<bar>m\<bar> * power_int ?B k" using x b by (simp add: abs_mult)
  also have "\<bar>m\<bar> < b ^ p" using False m by linarith
  then have "of_int \<bar>m\<bar> * power_int ?B k < of_int (b ^ p) * power_int ?B k"
    using b by (intro mult_strict_right_mono) (simp_all only: of_int_less_iff, simp add: zero_less_power_int)
  also have "\<dots> = power_int ?B (int p + k)" using b by (simp add: power_int_add)
  finally have "mag b x < int p + k" using mag_le[OF b] False by blast
  then have "sig_exp b p emin x \<le> k" using k by (simp add: sig_exp_def)
  then show ?thesis using sig_round_exact_aux[OF b _ x] by blast
next
  case True
  show ?thesis
  proof (cases "x = 0")
    case True then show ?thesis by simp
  next
    case False
    let ?B = "of_int b :: rat"
    have e: "\<bar>m\<bar> = b ^ p" using True False by blast
    have "\<bar>x\<bar> = of_int \<bar>m\<bar> * power_int ?B k" using x b by (simp add: abs_mult)
    also have "\<dots> = power_int ?B (int p + k)" using b by (simp add: power_int_add e)
    also have "\<dots> < power_int ?B (int p + k + 1)" using b by (simp add: power_int_add)
    finally have "mag b x < int p + k + 1" using mag_le[OF b] False by blast
    then have q: "sig_exp b p emin x \<le> k + 1" using k by (simp add: sig_exp_def)
    have "m = sgn m * (b ^ (p - 1) * b)" using e p
      by (metis Suc_diff_le diff_Suc_1 mult.commute mult_sgn_abs power_Suc One_nat_def)
    then have "of_int m = (of_int (sgn m * b ^ (p - 1)) * ?B :: rat)"
      by (metis mult.assoc of_int_mult)
    then have "x = of_int (sgn m * b ^ (p - 1)) * power_int ?B (k + 1)"
      using b by (simp add: x power_int_add_1 mult_ac)
    then show ?thesis using sig_round_exact_aux[OF b q] by blast
  qed
qed

lemma sig_round_repr:
  assumes b: "2 \<le> b" and p: "1 \<le> p"
  shows "\<exists>m k. emin \<le> k \<and> \<bar>m\<bar> \<le> b ^ p \<and> sig_round b p emin x = of_int m * power_int (of_int b) k"
proof (cases "x = 0")
  case True
  then show ?thesis using b by (intro exI[of _ 0] exI[of _ emin]) auto
next
  case False
  let ?B = "of_int b :: rat" and ?q = "sig_exp b p emin x"
  let ?u = "power_int ?B ?q"
  have u: "0 < ?u" using b by (simp add: zero_less_power_int)
  have "\<bar>x\<bar> < power_int ?B (mag b x + 1)" using mag_bounds(2)[OF b False] .
  also have "\<dots> \<le> power_int ?B (?q + int p)"
    using b by (intro power_int_increasing) (auto simp: sig_exp_def)
  also have "\<dots> = of_int (b ^ p) * ?u" using b by (simp add: power_int_add)
  finally have "\<bar>x\<bar> \<le> of_int (b ^ p) * ?u" by simp
  then have "x \<le> of_int (b ^ p) * ?u" "of_int (- (b ^ p)) * ?u \<le> x" by (simp_all add: abs_le_iff)
  then have "x / ?u \<le> of_int (b ^ p)" "of_int (- (b ^ p)) \<le> x / ?u"
    by (simp_all only: pos_divide_le_eq[OF u] pos_le_divide_eq[OF u])
  then have "round_half_even (x / ?u) \<le> b ^ p" "- (b ^ p) \<le> round_half_even (x / ?u)"
    by (metis round_half_even_mono round_half_even_of_int)+
  then have "\<bar>round_half_even (x / ?u)\<bar> \<le> b ^ p" by (simp add: abs_le_iff)
  moreover have "emin \<le> ?q" by (simp add: sig_exp_def)
  ultimately show ?thesis using sig_round_alt[OF False] by blast
qed

lemma sig_round_idem:
  assumes "2 \<le> b" "1 \<le> p"
  shows "sig_round b p emin (sig_round b p emin x) = sig_round b p emin x"
  using sig_round_repr[OF assms, of emin x] sig_round_exact[OF assms] by metis

lemma sig_round_nonneg: "2 \<le> b \<Longrightarrow> 0 \<le> x \<Longrightarrow> 0 \<le> sig_round b p emin x"
proof (cases "x = 0")
  case False
  assume b: "2 \<le> b" and x: "0 \<le> x"
  have "0 < power_int (of_int b :: rat) (sig_exp b p emin x)" using b by (simp add: zero_less_power_int)
  moreover from this have "0 \<le> round_half_even (x / power_int (of_int b) (sig_exp b p emin x))"
    using round_half_even_mono[of 0] round_half_even_of_int[of 0] x by auto
  ultimately show ?thesis by (simp add: sig_round_alt[OF False])
qed auto

lemma sig_round_mono_pos:
  assumes b: "2 \<le> b" and p: "1 \<le> p" and x: "0 < x" "x \<le> y"
  shows "sig_round b p emin x \<le> sig_round b p emin y"
proof -
  let ?B = "of_int b :: rat" and ?qx = "sig_exp b p emin x" and ?qy = "sig_exp b p emin y"
  let ?ux = "power_int ?B ?qx" and ?uy = "power_int ?B ?qy"
  have nz: "x \<noteq> 0" "y \<noteq> 0" using x by auto
  have u: "0 < ?ux" "0 < ?uy" using b by (simp_all add: zero_less_power_int)
  have xm: "power_int ?B (mag b x) \<le> \<bar>y\<bar>" using mag_bounds(1)[OF b nz(1)] x by linarith
  then have mm: "mag b x \<le> mag b y" by (rule mag_ge[OF b])
  show ?thesis
  proof (cases "?qx = ?qy")
    case True
    have "x / ?ux \<le> y / ?ux" using x u by (simp add: divide_right_mono)
    then show ?thesis
      using u True by (simp add: sig_round_alt nz round_half_even_mono mult_right_mono)
  next
    case False
    let ?k = "mag b y"
    have q: "?qx \<le> ?k" "?qy \<le> ?k" "mag b x + 1 \<le> ?k"
      using False mm p by (auto simp: sig_exp_def)
    have yk: "power_int ?B ?k \<le> y" using mag_bounds(1)[OF b nz(2)] x by simp
    have "power_int ?B (mag b x + 1) \<le> power_int ?B ?k"
      using q b by (intro power_int_increasing) auto
    then have xk: "x \<le> power_int ?B ?k" using mag_bounds(2)[OF b nz(1)] x by linarith
    have "x / ?ux \<le> of_int (b ^ nat (?k - ?qx))"
      using divide_right_mono[OF xk, of ?ux] u power_int_quotient_int[OF b q(1)] by simp
    then have "round_half_even (x / ?ux) \<le> b ^ nat (?k - ?qx)"
      by (metis round_half_even_mono round_half_even_of_int)
    then have "sig_round b p emin x \<le> of_int (b ^ nat (?k - ?qx)) * ?ux"
      using u by (simp only: sig_round_alt nz not_False_eq_True) (intro mult_right_mono, auto simp del: of_int_power)
    also have "\<dots> = power_int ?B ?k"
      unfolding power_int_quotient_int[OF b q(1), symmetric] using u b by simp
    also have "\<dots> = of_int (b ^ nat (?k - ?qy)) * ?uy"
      unfolding power_int_quotient_int[OF b q(2), symmetric] using u b by simp
    also have "\<dots> \<le> sig_round b p emin y"
    proof -
      have "of_int (b ^ nat (?k - ?qy)) \<le> y / ?uy"
        using divide_right_mono[OF yk, of ?uy] u power_int_quotient_int[OF b q(2)] by simp
      then have "b ^ nat (?k - ?qy) \<le> round_half_even (y / ?uy)"
        by (metis round_half_even_mono round_half_even_of_int)
      then show ?thesis
        using u by (simp only: sig_round_alt nz not_False_eq_True) (intro mult_right_mono, auto simp del: of_int_power)
    qed
    finally show ?thesis .
  qed
qed

lemma sig_round_mono:
  assumes b: "2 \<le> b" and p: "1 \<le> p" and xy: "x \<le> y"
  shows "sig_round b p emin x \<le> sig_round b p emin y"
proof -
  consider "0 < x" | "x \<le> 0" "0 \<le> y" | "y < 0" by linarith
  then show ?thesis
  proof cases
    case 1 then show ?thesis using sig_round_mono_pos[OF b p _ xy] by blast
  next
    case 2
    then have "0 \<le> sig_round b p emin (- x)" "0 \<le> sig_round b p emin y"
      using sig_round_nonneg[OF b] by auto
    then show ?thesis by (simp add: sig_round_uminus)
  next
    case 3
    then have "sig_round b p emin (- y) \<le> sig_round b p emin (- x)"
      using sig_round_mono_pos[OF b p, of "- y" "- x"] xy by auto
    then show ?thesis by (simp add: sig_round_uminus)
  qed
qed


lemma round_half_even_error: "\<bar>of_int (round_half_even x) - x\<bar> \<le> 1 / 2"
proof -
  have "of_int \<lfloor>x\<rfloor> \<le> x" "x < of_int \<lfloor>x\<rfloor> + 1" by linarith+
  then show ?thesis
    unfolding round_half_even_def Let_def by (auto simp: abs_le_iff split: if_splits)
qed

text \<open>Above the subnormal range the relative error is half a unit in the last place.\<close>

lemma sig_round_rel_error:
  assumes b: "2 \<le> b" and x: "power_int (of_int b) (emin + int p - 1) \<le> \<bar>x\<bar>"
  shows "\<bar>sig_round b p emin x - x\<bar> \<le> \<bar>x\<bar> * power_int (of_int b) (1 - int p) / 2"
proof -
  let ?B = "of_int b :: rat"
  have B: "0 < ?B" using b by simp
  have "0 < power_int ?B (emin + int p - 1)" using b by (simp add: zero_less_power_int)
  then have nz: "x \<noteq> 0" using x by auto
  have "emin + int p - 1 \<le> mag b x" by (rule mag_ge[OF b x])
  then have q: "sig_exp b p emin x = mag b x + (1 - int p)" by (simp add: sig_exp_def)
  let ?u = "power_int ?B (sig_exp b p emin x)"
  have u: "0 < ?u" using b by (simp add: zero_less_power_int)
  have "sig_round b p emin x - x = (of_int (round_half_even (x / ?u)) - x / ?u) * ?u"
  proof -
    have "x / ?u * ?u = x" using u by (simp only: nonzero_divide_eq_eq times_divide_eq_left
      less_imp_neq[OF u, symmetric] nonzero_mult_div_cancel_right not_False_eq_True)
    then show ?thesis by (simp only: sig_round_alt[OF nz] left_diff_distrib)
  qed
  then have "\<bar>sig_round b p emin x - x\<bar> = \<bar>of_int (round_half_even (x / ?u)) - x / ?u\<bar> * ?u"
    using u by (simp only: abs_mult abs_of_pos)
  also have "\<dots> \<le> 1 / 2 * ?u"
    using u by (intro mult_right_mono round_half_even_error) simp
  also have "?u = power_int ?B (mag b x) * power_int ?B (1 - int p)"
    using B power_int_add[of ?B "mag b x" "1 - int p"] by (simp only: q) auto
  also have "1 / 2 * (power_int ?B (mag b x) * power_int ?B (1 - int p))
      \<le> 1 / 2 * (\<bar>x\<bar> * power_int ?B (1 - int p))"
    using mag_bounds(1)[OF b nz] B by (intro mult_left_mono mult_right_mono) auto
  finally show ?thesis by simp
qed

section \<open>What a rounding function promises\<close>

locale rounding =
  fixes rnd :: "rat \<Rightarrow> rat" and lim :: int
  assumes rnd_mono: "x \<le> y \<Longrightarrow> rnd x \<le> rnd y"
    and rnd_of_int: "\<bar>n\<bar> \<le> lim \<Longrightarrow> rnd (of_int n) = of_int n"
    and rnd_uminus: "rnd (- x) = - rnd x"
    and rnd_idem [simp]: "rnd (rnd x) = rnd x"
    and lim_large: "1000000000 \<le> lim"
begin

lemma rnd_0 [simp]: "rnd 0 = 0"
  using rnd_of_int[of 0] lim_large by simp

lemma rnd_1 [simp]: "rnd 1 = 1"
  using rnd_of_int[of 1] lim_large by simp

lemma rnd_numeral: "numeral n \<le> (1000000000 :: int) \<Longrightarrow> rnd (numeral n) = numeral n"
proof -
  assume "numeral n \<le> (1000000000 :: int)"
  then have "\<bar>numeral n :: int\<bar> \<le> lim" using lim_large by (metis abs_numeral order_trans)
  from rnd_of_int[OF this] show ?thesis by simp
qed

lemma rnd_100 [simp]: "rnd 100 = 100"
  by (rule rnd_numeral) simp

lemma rnd_nonneg: "0 \<le> x \<Longrightarrow> 0 \<le> rnd x"
  using rnd_mono[of 0 x] by simp

lemma rnd_nonpos: "x \<le> 0 \<Longrightarrow> rnd x \<le> 0"
  using rnd_mono[of x 0] by simp

lemma rnd_le: "x \<le> c \<Longrightarrow> rnd c = c \<Longrightarrow> rnd x \<le> c"
  using rnd_mono[of x c] by simp

lemma rnd_ge: "c \<le> x \<Longrightarrow> rnd c = c \<Longrightarrow> c \<le> rnd x"
  using rnd_mono[of c x] by simp

lemma rnd_le_1: "x \<le> 1 \<Longrightarrow> rnd x \<le> 1"
  by (rule rnd_le) simp_all

lemma rnd_ge_1: "1 \<le> x \<Longrightarrow> 1 \<le> rnd x"
  by (rule rnd_ge) simp_all

text \<open>A ratio of a part to the whole stays a fraction between 0 and 1 after rounding.\<close>

lemma rnd_fraction:
  assumes "0 \<le> x" "x \<le> y"
  shows "0 \<le> rnd (x / y)" "rnd (x / y) \<le> 1"
  using assms by (auto intro!: rnd_nonneg rnd_le_1 simp: divide_le_eq_1)

text \<open>A difference that is exactly positive cannot round below a smaller difference.\<close>

lemma rnd_diff_mono: "a \<le> b \<Longrightarrow> rnd (a - c) \<le> rnd (b - c)"
  by (rule rnd_mono) simp

lemma rnd_scale:
  assumes "0 \<le> t" "t \<le> 1" "0 \<le> c" "rnd c = c"
  shows "0 \<le> rnd (t * c)" "rnd (t * c) \<le> c"
  using assms by (auto intro!: rnd_nonneg rnd_le mult_left_le_one_le)

end

definition f64 :: "rat \<Rightarrow> rat" where "f64 = sig_round 2 53 (-1074)"
definition d28 :: "rat \<Rightarrow> rat" where "d28 = sig_round 10 28 (-1000026)"

lemma sig_round_of_int:
  assumes "2 \<le> b" "1 \<le> p" "emin \<le> 0" "\<bar>n\<bar> \<le> b ^ p"
  shows "sig_round b p emin (of_int n) = of_int n"
  by (rule sig_round_exact[OF assms(1-4)]) simp

interpretation fl: rounding f64 "2 ^ 53"
proof unfold_locales
  show "f64 x \<le> f64 y" if "x \<le> y" for x y using that by (simp add: f64_def sig_round_mono)
  show "f64 (of_int n) = of_int n" if "\<bar>n\<bar> \<le> 2 ^ 53" for n
    using that unfolding f64_def by (intro sig_round_of_int) auto
qed (simp_all add: f64_def sig_round_uminus sig_round_idem)

interpretation dc: rounding d28 "10 ^ 28"
proof unfold_locales
  show "d28 x \<le> d28 y" if "x \<le> y" for x y using that by (simp add: d28_def sig_round_mono)
  show "d28 (of_int n) = of_int n" if "\<bar>n\<bar> \<le> 10 ^ 28" for n
    using that unfolding d28_def by (intro sig_round_of_int) auto
qed (simp_all add: d28_def sig_round_uminus sig_round_idem)

text \<open>A decimal of at most 28 digits is exact.\<close>

lemma d28_decimal:
  assumes "\<bar>m\<bar> \<le> 10 ^ 28" "k \<le> 1000000"
  shows "d28 (of_int m / 10 ^ k) = of_int m / 10 ^ k"
proof -
  have "of_int m / 10 ^ k = of_int m * power_int (of_int 10 :: rat) (- int k)"
    by (simp only: power_int_minus power_int_of_nat of_int_numeral divide_inverse)
  then show ?thesis
    unfolding d28_def using assms by (intro sig_round_exact[where k = "- int k" and m = m]) simp_all
qed

lemma d28_error:
  assumes "1 / 10 ^ 100 \<le> x"
  shows "d28 x \<le> x * (1 + 1 / 10 ^ 27)" "x * (1 - 1 / 10 ^ 27) \<le> d28 x"
proof -
  define e :: rat where "e = 1 / 10 ^ 27"
  have p: "power_int (10 :: rat) (1 - int 28) = e"
  proof -
    have "1 - int 28 = - int 27" by simp
    then show ?thesis
      by (simp only: e_def power_int_minus power_int_of_nat) (simp only: inverse_eq_divide)
  qed
  have "power_int (10 :: rat) (- 1000026 + int 28 - 1) \<le> power_int 10 (- int 100)"
    by (rule power_int_increasing) simp_all
  also have "\<dots> = 1 / 10 ^ 100"
    by (simp only: power_int_minus power_int_of_nat inverse_eq_divide)
  finally have low: "power_int (10 :: rat) (- 1000026 + int 28 - 1) \<le> x"
    using assms by (rule order_trans)
  have "(0 :: rat) < 1 / 10 ^ 100" by (intro divide_pos_pos zero_less_power) simp_all
  then have x: "0 < x" using assms by (rule less_le_trans)
  have "\<bar>d28 x - x\<bar> \<le> \<bar>x\<bar> * power_int (of_int 10) (1 - int 28) / 2"
    unfolding d28_def
    by (rule sig_round_rel_error) (simp, use low x in \<open>simp only: of_int_numeral abs_of_pos\<close>)
  then have "\<bar>d28 x - x\<bar> \<le> x * e / 2" using x by (simp only: of_int_numeral p abs_of_pos)
  moreover have "0 < e" unfolding e_def by (intro divide_pos_pos zero_less_power) simp_all
  then have "0 < x * e" using x by simp
  ultimately have "\<bar>d28 x - x\<bar> \<le> x * e" by linarith
  then have "d28 x \<le> x + x * e" "x - x * e \<le> d28 x" by linarith+
  then show "d28 x \<le> x * (1 + 1 / 10 ^ 27)" "x * (1 - 1 / 10 ^ 27) \<le> d28 x"
    unfolding e_def[symmetric] by (simp_all only: distrib_left right_diff_distrib mult_1_right)
qed

lemma d28_pos:
  assumes "1 / 10 ^ 100 \<le> x"
  shows "0 < x" "0 < d28 x"
proof -
  have "(0 :: rat) < 1 / 10 ^ 100" by (intro divide_pos_pos zero_less_power) simp_all
  then show x: "0 < x" using assms by (rule less_le_trans)
  have "(0 :: rat) < 1 - 1 / 10 ^ 27" by simp
  then have "0 < x * (1 - 1 / 10 ^ 27)" using x by (rule mult_pos_pos[rotated])
  then show "0 < d28 x" using d28_error(2)[OF assms] by (rule less_le_trans)
qed

text \<open>For any value the error is a unit in the 27th digit, or negligible.\<close>

lemma d28_abs_error: "\<bar>d28 x - x\<bar> \<le> \<bar>x\<bar> / 10 ^ 27 + 1 / 10 ^ 99"
proof -
  have pos: "\<bar>d28 y - y\<bar> \<le> y / 10 ^ 27 + 1 / 10 ^ 99" if "0 \<le> y" for y
  proof (cases "1 / 10 ^ 100 \<le> y")
    case True
    define e :: rat where "e = 1 / 10 ^ 27"
    have "d28 y \<le> y * (1 + e)" "y * (1 - e) \<le> d28 y" unfolding e_def by (rule d28_error[OF True])+
    then have "\<bar>d28 y - y\<bar> \<le> y * e" by (simp add: abs_le_iff algebra_simps)
    also have "y * e = y / 10 ^ 27" by (simp only: e_def times_divide_eq_right mult_1_right)
    finally show ?thesis by (rule order_trans) simp
  next
    case False
    define t :: rat where "t = 1 / 10 ^ 100"
    have t: "0 < t" "t / 10 ^ 27 \<le> t" "10 * t = 1 / 10 ^ 99" unfolding t_def by simp_all
    have "d28 y \<le> d28 t" using False by (intro dc.rnd_mono) (simp add: t_def)
    also have "\<dots> \<le> t * (1 + 1 / 10 ^ 27)" unfolding t_def by (rule d28_error) simp
    also have "\<dots> \<le> 2 * t" using t(2) by (simp add: distrib_left)
    finally have "d28 y \<le> 2 * t" .
    moreover have "0 \<le> d28 y" "y \<le> t" using that False by (simp_all add: dc.rnd_nonneg t_def)
    ultimately have "\<bar>d28 y - y\<bar> \<le> 10 * t" using that t(1) by linarith
    then have "\<bar>d28 y - y\<bar> \<le> 1 / 10 ^ 99" unfolding t(3) .
    then show ?thesis by (rule order_trans) (use that in simp)
  qed
  show ?thesis
  proof (cases "0 \<le> x")
    case True
    then show ?thesis using pos[of x] by simp
  next
    case False
    then show ?thesis using pos[of "- x"] by (simp add: dc.rnd_uminus abs_minus_commute)
  qed
qed

section \<open>Float operations\<close>

definition fadd :: "rat \<Rightarrow> rat \<Rightarrow> rat" where "fadd x y = f64 (x + y)"
definition fsub :: "rat \<Rightarrow> rat \<Rightarrow> rat" where "fsub x y = f64 (x - y)"
definition fmul :: "rat \<Rightarrow> rat \<Rightarrow> rat" where "fmul x y = f64 (x * y)"
definition fdiv :: "rat \<Rightarrow> rat \<Rightarrow> rat" where "fdiv x y = f64 (x / y)"

lemmas float_ops = fadd_def fsub_def fmul_def fdiv_def

text \<open>\<open>repr\<close> of a float is the shortest decimal that reads back as the float; \<open>float_repr\<close> is
  its value, which is what \<open>Decimal(str(x))\<close> holds.\<close>

definition float_repr :: "rat \<Rightarrow> rat" where
  "float_repr x =
     (case find (\<lambda>n. f64 (sig_round 10 n (-400) x) = x) [1, 2, 3, 4, 5, 6, 7, 8, 9, 10, 11, 12, 13, 14, 15, 16, 17] of
        Some n \<Rightarrow> sig_round 10 n (-400) x | None \<Rightarrow> x)"

lemma f64_float_repr: "f64 x = x \<Longrightarrow> f64 (float_repr x) = x"
  by (auto simp: float_repr_def find_Some_iff split: option.split)

text \<open>\<open>sum()\<close> over floats in CPython 3.12: Neumaier's compensated summation, whose running
  correction is added at the end. The start value is the int 0, so the first item starts
  the float loop.\<close>

fun fsum_loop :: "rat \<Rightarrow> rat \<Rightarrow> rat list \<Rightarrow> rat" where
  "fsum_loop s c [] = (if c = 0 then s else fadd s c)"
| "fsum_loop s c (x # xs) =
     (let t = fadd s x
      in fsum_loop t
           (fadd c (if \<bar>x\<bar> \<le> \<bar>s\<bar> then fadd (fsub s t) x else fadd (fsub x t) s)) xs)"

fun py_fsum :: "rat list \<Rightarrow> rat" where
  "py_fsum [] = 0"
| "py_fsum (x # xs) = fsum_loop x 0 xs"

text \<open>\<open>round(x, n)\<close> on a float rounds the exact binary value half to even at the n-th
  decimal and returns the nearest float; \<open>round(x)\<close> returns an int.\<close>

definition py_round :: "nat \<Rightarrow> rat \<Rightarrow> rat" where
  "py_round n x = f64 (of_int (round_half_even (x * 10 ^ n)) / 10 ^ n)"

lemma py_round_mono: "x \<le> y \<Longrightarrow> py_round n x \<le> py_round n y"
  unfolding py_round_def
  by (intro fl.rnd_mono divide_right_mono) (auto intro!: round_half_even_mono mult_right_mono)

lemma py_round_of_int: "\<bar>k\<bar> \<le> 2 ^ 53 \<Longrightarrow> py_round n (of_int k) = of_int k"
proof -
  assume k: "\<bar>k\<bar> \<le> 2 ^ 53"
  have "of_int k * 10 ^ n = (of_int (k * 10 ^ n) :: rat)" by simp
  then have "round_half_even (of_int k * 10 ^ n) = k * 10 ^ n" by (metis round_half_even_of_int)
  then show ?thesis using fl.rnd_of_int[OF k] by (simp add: py_round_def)
qed

lemma py_round_0 [simp]: "py_round n 0 = 0"
  using py_round_of_int[of 0] by simp

lemma py_round_100 [simp]: "py_round n 100 = 100"
  using py_round_of_int[of 100] by simp

lemma py_round_percent:
  assumes "0 \<le> x" "x \<le> 100"
  shows "0 \<le> py_round n x" "py_round n x \<le> 100"
  using py_round_mono[OF assms(1), of n] py_round_mono[OF assms(2), of n] by simp_all

section \<open>Decimal operations\<close>

definition dadd :: "rat \<Rightarrow> rat \<Rightarrow> rat" where "dadd x y = d28 (x + y)"
definition dsub :: "rat \<Rightarrow> rat \<Rightarrow> rat" where "dsub x y = d28 (x - y)"
definition dmul :: "rat \<Rightarrow> rat \<Rightarrow> rat" where "dmul x y = d28 (x * y)"
definition ddiv :: "rat \<Rightarrow> rat \<Rightarrow> rat" where "ddiv x y = d28 (x / y)"

lemmas decimal_ops = dadd_def dsub_def dmul_def ddiv_def

text \<open>\<open>sum(xs, Decimal("0"))\<close> folds the context addition from the left.\<close>

definition dsum :: "rat list \<Rightarrow> rat" where "dsum xs = foldl dadd 0 xs"

lemma dsum_nonneg_aux:
  "0 \<le> a \<Longrightarrow> \<forall>x \<in> set xs. 0 \<le> x \<Longrightarrow> 0 \<le> foldl dadd a xs"
proof (induction xs arbitrary: a)
  case (Cons x xs)
  then have "0 \<le> dadd a x" by (simp add: dadd_def dc.rnd_nonneg)
  with Cons show ?case by simp
qed simp

lemma dsum_nonneg: "\<forall>x \<in> set xs. 0 \<le> x \<Longrightarrow> 0 \<le> dsum xs"
  by (simp add: dsum_def dsum_nonneg_aux)

lemma dsum_Nil [simp]: "dsum [] = 0"
  by (simp add: dsum_def)

lemma dsum_snoc [simp]: "dsum (xs @ [x]) = dadd (dsum xs) x"
  by (simp add: dsum_def)

lemma dsum_fixed [simp]: "d28 (dsum xs) = dsum xs"
  by (induction xs rule: rev_induct) (simp_all add: dadd_def)

lemma dsum_zeros: "\<forall>x \<in> set xs. x = 0 \<Longrightarrow> dsum xs = 0"
  by (induction xs rule: rev_induct) (simp_all add: dadd_def)

text \<open>Dropping summands that are not negative does not raise a rounded sum.\<close>

lemma dsum_filter_le:
  "\<forall>x \<in> set xs. 0 \<le> f x \<Longrightarrow> dsum (map f (filter P xs)) \<le> dsum (map f xs)"
proof (induction xs rule: rev_induct)
  case (snoc x xs)
  have IH: "dsum (map f (filter P xs)) \<le> dsum (map f xs)" using snoc by simp
  show ?case
  proof (cases "P x")
    case True
    then show ?thesis using IH by (simp add: dadd_def dc.rnd_mono)
  next
    case False
    have "dsum (map f (filter P xs)) \<le> d28 (dsum (map f xs) + 0)" using IH by simp
    also have "\<dots> \<le> d28 (dsum (map f xs) + f x)" using snoc.prems by (intro dc.rnd_mono) simp
    finally show ?thesis using False by (simp add: dadd_def)
  qed
qed simp

text \<open>\<open>x.quantize(Decimal("0.1"))\<close> (half to even) and \<open>x.quantize(q, rounding=ROUND_DOWN)\<close>
  at n decimals; \<open>None\<close> is the \<open>InvalidOperation\<close> of a coefficient over 28 digits.\<close>

definition round_down :: "rat \<Rightarrow> int" where
  "round_down x = (if 0 \<le> x then \<lfloor>x\<rfloor> else - \<lfloor>- x\<rfloor>)"

definition quantize_with :: "(rat \<Rightarrow> int) \<Rightarrow> nat \<Rightarrow> rat \<Rightarrow> rat option" where
  "quantize_with r n x =
     (let c = r (x * 10 ^ n) in if \<bar>c\<bar> < 10 ^ 28 then Some (of_int c / 10 ^ n) else None)"

lemma quantize_down_le:
  "quantize_with round_down n x = Some q \<Longrightarrow> 0 \<le> x \<Longrightarrow> 0 \<le> q \<and> q \<le> x"
  by (auto simp: quantize_with_def round_down_def Let_def divide_le_eq split: if_splits)

text \<open>The text of a \<open>Decimal\<close> depends on its exponent, so where it is printed the model keeps
  coefficient and exponent: \<open>Decimal("1.0")\<close> is \<open>Dec 10 (-1)\<close>.\<close>

datatype decimal = Dec (dec_coef: int) (dec_exp: int)

definition dec_val :: "decimal \<Rightarrow> rat" where
  "dec_val d = of_int (dec_coef d) * power_int 10 (dec_exp d)"

definition dec_str :: "decimal \<Rightarrow> string" where
  "dec_str d =
     (let ds = nat_str (nat \<bar>dec_coef d\<bar>);
          left = dec_exp d + int (length ds);
          dot = (if dec_exp d \<le> 0 \<and> left > -6 then left else 1);
          body = (if dot \<le> 0 then ''0.'' @ replicate (nat (- dot)) CHR ''0'' @ ds
                  else if dot \<ge> int (length ds) then ds @ replicate (nat dot - length ds) CHR ''0''
                  else take (nat dot) ds @ ''.'' @ drop (nat dot) ds);
          ex = (if left = dot then []
                else ''E'' @ (if left - dot < 0 then int_str (left - dot)
                              else ''+'' @ int_str (left - dot)))
      in (if dec_coef d < 0 then ''-'' else []) @ body @ ex)"

declare dec_str_def [py_eval] dec_val_def [py_eval]

section \<open>Formatting\<close>

text \<open>\<open>f"{x:.nf}"\<close> renders the exact value of a float or Decimal rounded half to even at n
  decimals; \<open>f"{x:.2%}"\<close> is the same for a hundred times the value.\<close>

definition fixed_str :: "nat \<Rightarrow> rat \<Rightarrow> string" where
  "fixed_str n x =
     (let ds = nat_str (nat \<bar>round_half_even (x * 10 ^ n)\<bar>);
          pad = replicate (n + 1 - length ds) CHR ''0'' @ ds;
          k = length pad - n
      in (if x < 0 then ''-'' else []) @ take k pad @ (if n = 0 then [] else ''.'' @ drop k pad))"

definition pct_str :: "rat \<Rightarrow> string" where
  "pct_str x = fixed_str 2 (x * 100) @ ''%''"

declare fixed_str_def [py_eval] pct_str_def [py_eval] round_half_even_def [py_eval]

section \<open>JSON-like values\<close>

text \<open>The values the code puts into audit details, payloads and task arguments.\<close>

datatype json = JNull | JBool bool | JInt int | JFloat rat | JStr string
  | JArr "json list" | JObj "(string \<times> json) list"

definition j_opt :: "('a \<Rightarrow> json) \<Rightarrow> 'a option \<Rightarrow> json" where
  "j_opt f x = (case x of None \<Rightarrow> JNull | Some a \<Rightarrow> f a)"

end
