(* ===== verification/Audit_Log.thy ===== *)
theory Audit_Log
  imports PyNum
begin

text \<open>
  The append-only audit log (\<open>services/audit.py\<close>): \<open>AuditService.record\<close> adds one row to
  the \<open>audit_log\<close> table and flushes. The table is the list of its rows in insertion order.
  The locale \<open>append_only\<close> is the contract every service that writes the log shares; the
  services of the safety layer and of the portfolio sync interpret it.
\<close>

record audit_row =
  au_user :: "uuid option"
  au_event :: string
  au_data :: "(string \<times> json) list option"
  au_ip :: "string option"
  au_agent :: "string option"

type_synonym audit_log = "audit_row list"

definition EVENT_PORTFOLIO_SYNC :: string where
  "EVENT_PORTFOLIO_SYNC = ''portfolio.sync''"

definition audit_record ::
  "string \<Rightarrow> uuid option \<Rightarrow> (string \<times> json) list option \<Rightarrow> string option \<Rightarrow> string option \<Rightarrow>
   audit_log \<Rightarrow> audit_row \<times> audit_log" where
  "audit_record event_type user_id event_data ip_address user_agent lg =
     (let entry = \<lparr>au_user = user_id, au_event = event_type, au_data = event_data,
                   au_ip = ip_address, au_agent = user_agent\<rparr>
      in (entry, lg @ [entry]))"

text \<open>The services of the model pass no address and no user agent.\<close>

definition audit_event ::
  "string \<Rightarrow> uuid option \<Rightarrow> (string \<times> json) list \<Rightarrow> audit_log \<Rightarrow> audit_log" where
  "audit_event event_type user_id event_data lg =
     snd (audit_record event_type user_id (Some event_data) None None lg)"

definition audit_entry :: "string \<Rightarrow> uuid option \<Rightarrow> (string \<times> json) list \<Rightarrow> audit_row" where
  "audit_entry e u d = \<lparr>au_user = u, au_event = e, au_data = Some d, au_ip = None, au_agent = None\<rparr>"

lemma audit_event_append: "audit_event e u d lg = lg @ [audit_entry e u d]"
  by (simp add: audit_event_def audit_record_def audit_entry_def Let_def)

lemma audit_entry_simps [simp]:
  "au_user (audit_entry e u d) = u" "au_event (audit_entry e u d) = e"
  "au_data (audit_entry e u d) = Some d"
  by (simp_all add: audit_entry_def)

section \<open>The contract of a service that writes the log\<close>

locale append_only =
  fixes step :: "'a \<Rightarrow> 's \<Rightarrow> 's" and rows :: "'s \<Rightarrow> audit_log"
  assumes step_appends: "\<exists>new. rows (step a s) = rows s @ new"
begin

fun run :: "'a list \<Rightarrow> 's \<Rightarrow> 's" where
  "run [] s = s"
| "run (a # as) s = run as (step a s)"

lemma run_appends: "\<exists>new. rows (run as s) = rows s @ new"
proof (induction as arbitrary: s)
  case Nil
  show ?case by simp
next
  case (Cons a as)
  obtain n1 where "rows (step a s) = rows s @ n1" using step_appends by blast
  moreover obtain n2 where "rows (run as (step a s)) = rows (step a s) @ n2" using Cons.IH by blast
  ultimately show ?case by simp
qed

text \<open>A row once written keeps its place and its contents whatever runs afterwards.\<close>

lemma run_keeps_row: "i < length (rows s) \<Longrightarrow> rows (run as s) ! i = rows s ! i"
  using run_appends[of as s] by (auto simp: nth_append)

lemma run_length: "length (rows s) \<le> length (rows (run as s))"
  using run_appends[of as s] by auto

end

end
