(* ===== verification/PyText.thy ===== *)
theory PyText
  imports PyNum
begin

text \<open>
  Reading text back: \<open>int(s)\<close>, \<open>UUID(s)\<close> and \<open>json.loads\<close>, with \<open>json.dumps\<close> of the flat
  objects the services store. Text is bytes; the JSON reader follows the grammar of Python's
  \<open>json\<close> module except that surrogate escapes are refused and \<open>NaN\<close>, \<open>Infinity\<close> are not read.
\<close>

section \<open>Integers\<close>

definition digit_val :: "char \<Rightarrow> int option" where
  "digit_val c = map_of (zip ''0123456789'' [0, 1, 2, 3, 4, 5, 6, 7, 8, 9]) c"

fun parse_digits :: "int \<Rightarrow> string \<Rightarrow> int option" where
  "parse_digits acc [] = Some acc"
| "parse_digits acc (c # cs) =
     (case digit_val c of None \<Rightarrow> None | Some d \<Rightarrow> parse_digits (10 * acc + d) cs)"

definition py_int :: "string \<Rightarrow> int option" where
  "py_int s =
     (case str_strip s of [] \<Rightarrow> None
      | c # cs \<Rightarrow>
          if c = CHR ''-'' then (if cs = [] then None else map_option uminus (parse_digits 0 cs))
          else if c = CHR ''+'' then (if cs = [] then None else parse_digits 0 cs)
          else parse_digits 0 (c # cs))"

definition is_digit :: "char \<Rightarrow> bool" where "is_digit c \<longleftrightarrow> digit_val c \<noteq> None"

lemma digit_char:
  "m < 10 \<Longrightarrow> digit_val (''0123456789'' ! m) = Some (int m)"
proof -
  assume "m < 10"
  then have "m \<in> {0, 1, 2, 3, 4, 5, 6, 7, 8, 9}" by auto
  then show ?thesis by (auto simp: digit_val_def)
qed

lemma parse_digits_append:
  "parse_digits a (xs @ ys) = (case parse_digits a xs of None \<Rightarrow> None | Some b \<Rightarrow> parse_digits b ys)"
  by (induction xs arbitrary: a) (auto split: option.splits)

lemma nat_str_nonempty [simp]: "nat_str n \<noteq> []"
  by (subst nat_str.simps) simp

lemma nat_str_digits: "\<forall>c \<in> set (nat_str n). is_digit c"
proof (induction n rule: nat_str.induct)
  case (1 n)
  show ?case
  proof (cases "n < 10")
    case True
    then show ?thesis by (subst nat_str.simps) (simp add: is_digit_def digit_char)
  next
    case False
    then show ?thesis using 1 by (subst nat_str.simps) (auto simp: is_digit_def digit_char)
  qed
qed

lemma nat_str_ends: "is_digit (hd (nat_str n))" "is_digit (last (nat_str n))"
  using nat_str_digits hd_in_set last_in_set nat_str_nonempty by blast+

lemma parse_nat_str: "parse_digits 0 (nat_str n) = Some (int n)"
proof (induction n rule: nat_str.induct)
  case (1 n)
  show ?case
  proof (cases "n < 10")
    case True
    then show ?thesis by (subst nat_str.simps) (simp add: digit_char)
  next
    case False
    then have IH: "parse_digits 0 (nat_str (n div 10)) = Some (int (n div 10))" using 1 by simp
    have "10 * int (n div 10) + int (n mod 10) = int n"
      by (metis mult_div_mod_eq of_nat_add of_nat_mult of_nat_numeral)
    then show ?thesis
      using False IH by (subst nat_str.simps) (simp add: parse_digits_append digit_char)
  qed
qed

lemma nat_str_hd_zero: "hd (nat_str n) = CHR ''0'' \<longleftrightarrow> n = 0"
proof (induction n rule: nat_str.induct)
  case (1 n)
  show ?case
  proof (cases "n < 10")
    case True
    then have "n \<in> {0, 1, 2, 3, 4, 5, 6, 7, 8, 9}" by auto
    then show ?thesis by (subst nat_str.simps) auto
  next
    case False
    then show ?thesis using 1 by (subst nat_str.simps) auto
  qed
qed

lemma str_strip_id: "xs \<noteq> [] \<Longrightarrow> \<not> is_space (hd xs) \<Longrightarrow> \<not> is_space (last xs) \<Longrightarrow> str_strip xs = xs"
proof -
  assume a: "xs \<noteq> []" "\<not> is_space (hd xs)" "\<not> is_space (last xs)"
  then have "dropWhile is_space xs = xs" by (cases xs) simp_all
  moreover have "dropWhile is_space (rev xs) = rev xs"
  proof (cases "rev xs")
    case (Cons y ys)
    then have "y = last xs" by (metis hd_rev list.sel(1))
    then show ?thesis unfolding Cons using a by simp
  qed simp
  ultimately show ?thesis by (simp add: str_strip_def)
qed

lemma digit_not_space: "is_digit c \<Longrightarrow> \<not> is_space c"
  by (auto simp: is_digit_def digit_val_def is_space_def split: if_splits)

lemma py_int_nat_str [simp]: "py_int (nat_str n) = Some (int n)"
proof -
  note d = nat_str_ends[of n]
  then have s: "str_strip (nat_str n) = nat_str n" by (simp add: str_strip_id digit_not_space)
  obtain c cs where c: "nat_str n = c # cs" by (cases "nat_str n") auto
  have "c \<noteq> CHR ''-''" "c \<noteq> CHR ''+''" using d(1) c by (auto simp: is_digit_def digit_val_def)
  then show ?thesis using s c parse_nat_str[of n] by (simp add: py_int_def)
qed

lemma py_int_int_str [simp]: "py_int (int_str n) = Some n"
proof (cases "n < 0")
  case False
  then show ?thesis by (simp add: int_str_def)
next
  case True
  let ?s = "nat_str (nat (- n))"
  have "is_digit (last ?s)" by (rule nat_str_ends)
  then have "str_strip (CHR ''-'' # ?s) = CHR ''-'' # ?s"
    using digit_not_space by (intro str_strip_id) (simp_all, simp add: is_space_def)
  then show ?thesis using True by (simp add: int_str_def py_int_def parse_nat_str)
qed

section \<open>Quoted text\<close>

text \<open>\<open>repr(s)\<close>: in single quotes unless the text has one and no double quote. The bytes of a character beyond
  ASCII are kept, as \<open>repr\<close> keeps the printable ones.\<close>

definition repr_char :: "char \<Rightarrow> char \<Rightarrow> string" where
  "repr_char q c =
     (if c = q \<or> c = CHR 0x5C then [CHR 0x5C, c]
      else if c = CHR 0x09 then [CHR 0x5C, CHR ''t''] else if c = CHR 0x0A then [CHR 0x5C, CHR ''n'']
      else if c = CHR 0x0D then [CHR 0x5C, CHR ''r'']
      else if of_char c < (32 :: nat) \<or> of_char c = (127 :: nat)
      then [CHR 0x5C, CHR ''x'', ''0123456789abcdef'' ! (of_char c div 16), ''0123456789abcdef'' ! (of_char c mod 16)]
      else [c])"

definition py_repr :: "string \<Rightarrow> string" where
  "py_repr s =
     (let q = (if CHR 0x27 \<in> set s \<and> CHR 0x22 \<notin> set s then CHR 0x22 else CHR 0x27)
      in q # concat (map (repr_char q) s) @ [q])"

section \<open>UUIDs\<close>

text \<open>\<open>UUID(s)\<close> drops \<open>urn:\<close>, \<open>uuid:\<close>, braces at the ends and hyphens, needs 32 hexadecimal
  digits and prints them in lower case, grouped 8-4-4-4-12.\<close>

definition hex_digit :: "char \<Rightarrow> bool" where
  "hex_digit c \<longleftrightarrow> c \<in> set ''0123456789abcdef''"

fun drop_all :: "string \<Rightarrow> string \<Rightarrow> string" where
  "drop_all pat [] = []"
| "drop_all pat (c # cs) =
     (if pat \<noteq> [] \<and> take (length pat) (c # cs) = pat then drop_all pat (drop (length pat - 1) cs)
      else c # drop_all pat cs)"

definition strip_chars :: "char list \<Rightarrow> string \<Rightarrow> string" where
  "strip_chars cs s = rev (dropWhile (\<lambda>c. c \<in> set cs) (rev (dropWhile (\<lambda>c. c \<in> set cs) s)))"

definition py_uuid :: "string \<Rightarrow> uuid option" where
  "py_uuid s =
     (let h = str_lower (filter (\<lambda>c. c \<noteq> CHR ''-'')
            (strip_chars ''{}'' (drop_all ''uuid:'' (drop_all ''urn:'' s))))
      in if length h = 32 \<and> list_all hex_digit h
         then Some (take 8 h @ ''-'' @ take 4 (drop 8 h) @ ''-'' @ take 4 (drop 12 h) @ ''-'' @
                    take 4 (drop 16 h) @ ''-'' @ drop 20 h)
         else None)"

section \<open>JSON text\<close>

definition json_escapes :: "(char \<times> char) list" where
  "json_escapes = [(CHR 0x22, CHR 0x22), (CHR 0x5C, CHR 0x5C), (CHR ''/'', CHR ''/''),
     (CHR ''b'', CHR 0x08), (CHR ''f'', CHR 0x0C), (CHR ''n'', CHR 0x0A), (CHR ''r'', CHR 0x0D),
     (CHR ''t'', CHR 0x09)]"

definition hex_val :: "char \<Rightarrow> nat option" where
  "hex_val c = map_of (zip ''0123456789abcdefABCDEF''
     [0, 1, 2, 3, 4, 5, 6, 7, 8, 9, 10, 11, 12, 13, 14, 15, 10, 11, 12, 13, 14, 15]) c"

definition hex4 :: "char \<Rightarrow> char \<Rightarrow> char \<Rightarrow> char \<Rightarrow> nat option" where
  "hex4 a b c d =
     (case (hex_val a, hex_val b, hex_val c, hex_val d) of
        (Some w, Some x, Some y, Some z) \<Rightarrow> Some (4096 * w + 256 * x + 16 * y + z)
      | _ \<Rightarrow> None)"

definition utf8 :: "nat \<Rightarrow> string option" where
  "utf8 n =
     (if n < 128 then Some [char_of n]
      else if n < 2048 then Some [char_of (192 + n div 64), char_of (128 + n mod 64)]
      else if 55296 \<le> n \<and> n < 57344 then None
      else Some [char_of (224 + n div 4096), char_of (128 + n div 64 mod 64), char_of (128 + n mod 64)])"

fun json_string :: "string \<Rightarrow> (string \<times> string) option" where
  "json_string [] = None"
| "json_string (c # cs) =
     (if c = CHR 0x22 then Some ([], cs)
      else if c = CHR 0x5C then
        (case cs of
           [] \<Rightarrow> None
         | e # cs1 \<Rightarrow>
             (case map_of json_escapes e of
                Some d \<Rightarrow> map_option (\<lambda>(s, r). (d # s, r)) (json_string cs1)
              | None \<Rightarrow>
                  (case cs1 of
                     h1 # h2 # h3 # h4 # cs2 \<Rightarrow>
                       (case (if e = CHR ''u'' then Option.bind (hex4 h1 h2 h3 h4) utf8 else None) of
                          None \<Rightarrow> None
                        | Some u \<Rightarrow> map_option (\<lambda>(s, r). (u @ s, r)) (json_string cs2))
                   | _ \<Rightarrow> None)))
      else if of_char c < (32 :: nat) then None
      else map_option (\<lambda>(s, r). (c # s, r)) (json_string cs))"

definition skip_ws :: "string \<Rightarrow> string" where
  "skip_ws = dropWhile (\<lambda>c. c \<in> {CHR '' '', CHR 0x09, CHR 0x0A, CHR 0x0D})"

text \<open>A number is an integer part without leading zeros, then optionally a fraction and an
  exponent, in which case it is a float.\<close>

definition json_fraction :: "string \<Rightarrow> string \<times> string" where
  "json_fraction cs =
     (case cs of
        d # cs1 \<Rightarrow> (let ds = takeWhile is_digit cs1
                     in if d = CHR ''.'' \<and> ds \<noteq> [] then (ds, dropWhile is_digit cs1) else ([], cs))
      | [] \<Rightarrow> ([], []))"

definition json_exponent :: "string \<Rightarrow> int option \<times> string" where
  "json_exponent cs =
     (case cs of
        e # cs1 \<Rightarrow>
          if e \<in> {CHR ''e'', CHR ''E''} then
            (let (sg, cs2) = (case cs1 of
                   s # r \<Rightarrow> if s = CHR ''-'' then (- 1, r) else if s = CHR ''+'' then (1, r) else (1, cs1)
                 | [] \<Rightarrow> (1 :: int, []));
                 ds = takeWhile is_digit cs2
             in if ds = [] then (None, cs)
                else (map_option (\<lambda>n. sg * n) (parse_digits 0 ds), dropWhile is_digit cs2))
          else (None, cs)
      | [] \<Rightarrow> (None, []))"

definition json_number :: "string \<Rightarrow> (json \<times> string) option" where
  "json_number s =
     (let (neg, cs) = (case s of c # r \<Rightarrow> if c = CHR ''-'' then (True, r) else (False, s) | [] \<Rightarrow> (False, []));
          ds = (case cs of c # r \<Rightarrow> if c = CHR ''0'' then ''0'' else takeWhile is_digit cs | [] \<Rightarrow> []);
          rest = drop (length ds) cs;
          (fr, rest1) = json_fraction rest;
          (ex, rest2) = json_exponent rest1
      in case parse_digits 0 (ds @ fr) of
           None \<Rightarrow> None
         | Some n \<Rightarrow>
             if ds = [] then None
             else if fr = [] \<and> ex = None then Some (JInt (if neg then - n else n), rest2)
             else Some (JFloat (f64 (of_int (if neg then - n else n) *
                    power_int 10 ((case ex of None \<Rightarrow> 0 | Some e \<Rightarrow> e) - int (length fr)))), rest2))"

fun starts_with :: "string \<Rightarrow> string \<Rightarrow> string option" where
  "starts_with [] cs = Some cs"
| "starts_with (p # ps) [] = None"
| "starts_with (p # ps) (c # cs) = (if c = p then starts_with ps cs else None)"

text \<open>The fuel of the reader is the length of the text: every nested value starts at a later
  character.\<close>

fun json_value :: "nat \<Rightarrow> string \<Rightarrow> (json \<times> string) option"
  and json_items :: "nat \<Rightarrow> string \<Rightarrow> (json list \<times> string) option"
  and json_fields :: "nat \<Rightarrow> (string \<times> json) list \<Rightarrow> string \<Rightarrow> ((string \<times> json) list \<times> string) option" where
  "json_value 0 s = None"
| "json_value (Suc n) s =
     (case s of
        [] \<Rightarrow> None
      | c # cs \<Rightarrow>
          if c = CHR 0x22 then map_option (\<lambda>(t, r). (JStr t, r)) (json_string cs)
          else if c = CHR ''{'' then
            (case skip_ws cs of
               [] \<Rightarrow> None
             | d # r \<Rightarrow> if d = CHR ''}'' then Some (JObj [], r)
                 else map_option (\<lambda>(fs, r). (JObj fs, r)) (json_fields n [] (d # r)))
          else if c = CHR ''['' then
            (case skip_ws cs of
               [] \<Rightarrow> None
             | d # r \<Rightarrow> if d = CHR '']'' then Some (JArr [], r)
                 else map_option (\<lambda>(xs, r). (JArr xs, r)) (json_items n (d # r)))
          else
            (case (starts_with ''null'' s, starts_with ''true'' s, starts_with ''false'' s) of
               (Some r, _, _) \<Rightarrow> Some (JNull, r)
             | (_, Some r, _) \<Rightarrow> Some (JBool True, r)
             | (_, _, Some r) \<Rightarrow> Some (JBool False, r)
             | _ \<Rightarrow> json_number s))"
| "json_items 0 s = None"
| "json_items (Suc n) s =
     (case json_value n (skip_ws s) of
        None \<Rightarrow> None
      | Some (v, r) \<Rightarrow>
          (case skip_ws r of
             [] \<Rightarrow> None
           | d # r1 \<Rightarrow> if d = CHR '']'' then Some ([v], r1)
               else if d = CHR '','' then map_option (\<lambda>(vs, r2). (v # vs, r2)) (json_items n r1)
               else None))"
| "json_fields 0 acc s = None"
| "json_fields (Suc n) acc s =
     (case skip_ws s of
        [] \<Rightarrow> None
      | q # r \<Rightarrow>
          if q \<noteq> CHR 0x22 then None
          else (case json_string r of
             None \<Rightarrow> None
           | Some (k, r1) \<Rightarrow>
               (case skip_ws r1 of
                  [] \<Rightarrow> None
                | d # r2 \<Rightarrow>
                    if d \<noteq> CHR '':'' then None
                    else (case json_value n (skip_ws r2) of
                       None \<Rightarrow> None
                     | Some (v, r3) \<Rightarrow>
                         (case skip_ws r3 of
                            [] \<Rightarrow> None
                          | e # r4 \<Rightarrow>
                              if e = CHR ''}'' then Some (dict_set k v acc, r4)
                              else if e = CHR '','' then json_fields n (dict_set k v acc) r4
                              else None)))))"

definition json_loads :: "string \<Rightarrow> json option" where
  "json_loads s =
     (case json_value (length s + 1) (skip_ws s) of
        Some (v, r) \<Rightarrow> if skip_ws r = [] then Some v else None
      | None \<Rightarrow> None)"

text \<open>\<open>json.dumps\<close> of a flat object of texts and integers.\<close>

definition json_esc :: "char \<Rightarrow> string" where
  "json_esc c =
     (case map_of (map (\<lambda>(a, b). (b, a)) (filter (\<lambda>(a, b). a \<noteq> CHR ''/'') json_escapes)) c of
        Some e \<Rightarrow> [CHR 0x5C, e]
      | None \<Rightarrow>
          if of_char c < (32 :: nat)
          then CHR 0x5C # ''u00'' @ [''0123456789abcdef'' ! (of_char c div 16),
                                     ''0123456789abcdef'' ! (of_char c mod 16)]
          else [c])"

definition json_quote :: "string \<Rightarrow> string" where
  "json_quote s = CHR 0x22 # concat (map json_esc s) @ [CHR 0x22]"

fun json_atom :: "string + int \<Rightarrow> string" where
  "json_atom (Inl s) = json_quote s"
| "json_atom (Inr n) = int_str n"

fun json_pairs :: "(string \<times> (string + int)) list \<Rightarrow> string" where
  "json_pairs [] = []"
| "json_pairs [(k, v)] = json_quote k @ '': '' @ json_atom v"
| "json_pairs ((k, v) # ps) = json_quote k @ '': '' @ json_atom v @ '', '' @ json_pairs ps"

definition json_dumps :: "(string \<times> (string + int)) list \<Rightarrow> string" where
  "json_dumps ps = ''{'' @ json_pairs ps @ ''}''"

subsection \<open>Reading back what was written\<close>

definition plain_char :: "char \<Rightarrow> bool" where
  "plain_char c \<longleftrightarrow> c \<noteq> CHR 0x22 \<and> c \<noteq> CHR 0x5C \<and> \<not> of_char c < (32 :: nat)"

lemma json_esc_plain: "plain_char c \<Longrightarrow> json_esc c = [c]"
  by (auto simp: plain_char_def json_esc_def json_escapes_def)

lemma json_quote_plain: "list_all plain_char s \<Longrightarrow> json_quote s = CHR 0x22 # s @ [CHR 0x22]"
proof -
  assume "list_all plain_char s"
  then have "concat (map json_esc s) = s"
    by (induction s) (simp_all add: json_esc_plain)
  then show ?thesis by (simp add: json_quote_def)
qed

lemma json_string_plain:
  "list_all plain_char s \<Longrightarrow> json_string (s @ CHR 0x22 # r) = Some (s, r)"
  by (induction s) (simp_all add: plain_char_def)

lemma takeWhile_digits:
  "\<forall>c \<in> set ds. is_digit c \<Longrightarrow> \<not> is_digit d \<Longrightarrow> takeWhile is_digit (ds @ d # r) = ds"
  by (induction ds) auto

lemma json_number_nat_aux:
  fixes k :: nat and r :: string
  assumes d: "d \<in> {CHR '','', CHR ''}''}"
  defines "s \<equiv> nat_str k @ d # r"
  shows "(case s of c # r' \<Rightarrow> if c = CHR ''0'' then ''0'' else takeWhile is_digit s | [] \<Rightarrow> []) = nat_str k"
proof -
  obtain c cs where c: "nat_str k = c # cs" by (cases "nat_str k") auto
  have nd: "\<not> is_digit d" using d by (auto simp: is_digit_def digit_val_def)
  have t: "takeWhile is_digit s = nat_str k"
    unfolding s_def by (rule takeWhile_digits[OF nat_str_digits nd])
  show ?thesis
  proof (cases "k = 0")
    case True
    then show ?thesis by (simp add: s_def nat_str.simps)
  next
    case False
    then have "c \<noteq> CHR ''0''" using nat_str_hd_zero[of k] c by simp
    then show ?thesis using t by (simp add: s_def c)
  qed
qed

lemma json_number_int:
  assumes d: "d \<in> {CHR '','', CHR ''}''}"
  shows "json_number (int_str n @ d # r) = Some (JInt n, d # r)"
proof -
  have f: "json_fraction (d # r) = ([], d # r)" and e: "json_exponent (d # r) = (None, d # r)"
    using d by (auto simp: json_fraction_def json_exponent_def)
  show ?thesis
  proof (cases "n < 0")
    case True
    then show ?thesis
      using json_number_nat_aux[OF d, of "nat (- n)" r]
      by (simp add: json_number_def int_str_def Let_def parse_nat_str f e)
  next
    case False
    obtain c cs where c: "nat_str (nat n) = c # cs" by (cases "nat_str (nat n)") auto
    have "is_digit c" using nat_str_ends(1)[of "nat n"] c by simp
    then have "c \<noteq> CHR ''-''" by (auto simp: is_digit_def digit_val_def)
    then have sg: "(case nat_str (nat n) @ d # r of c # r' \<Rightarrow> if c = CHR ''-'' then (True, r')
        else (False, nat_str (nat n) @ d # r) | [] \<Rightarrow> (False, [])) = (False, nat_str (nat n) @ d # r)"
      by (simp add: c)
    show ?thesis
      using False json_number_nat_aux[OF d, of "nat n" r] sg
      by (simp add: json_number_def int_str_def Let_def parse_nat_str f e)
  qed
qed

lemma json_value_int:
  assumes d: "d \<in> {CHR '','', CHR ''}''}"
  shows "json_value (Suc m) (int_str n @ d # r) = Some (JInt n, d # r)"
proof -
  obtain c cs where c: "int_str n = c # cs" by (cases "int_str n") (auto simp: int_str_def split: if_splits)
  have "is_digit c \<or> c = CHR ''-''"
    using nat_str_ends(1)[of "nat n"] c by (auto simp: int_str_def split: if_splits)
  then have "c \<notin> {CHR 0x22, CHR ''{'', CHR ''['', CHR ''n'', CHR ''t'', CHR ''f''}"
    by (auto simp: is_digit_def digit_val_def)
  then show ?thesis using json_number_int[OF d, of n r] c by simp
qed

lemma json_loads_payload:
  assumes "list_all plain_char u"
  shows "json_loads (json_dumps [(''user_id'', Inl u), (''pw_v'', Inr n)]) =
      Some (JObj [(''user_id'', JStr u), (''pw_v'', JInt n)])"
    and "json_loads (json_dumps [(''user_id'', Inl u)]) = Some (JObj [(''user_id'', JStr u)])"
proof -
  have pk: "json_quote ''user_id'' = CHR 0x22 # ''user_id'' @ [CHR 0x22]"
    "json_quote ''pw_v'' = CHR 0x22 # ''pw_v'' @ [CHR 0x22]" by code_simp+
  have sw: "skip_ws (c # cs) = (if c \<in> {CHR '' '', CHR 0x09, CHR 0x0A, CHR 0x0D} then skip_ws cs else c # cs)"
    "skip_ws [] = []" for c cs
    by (simp_all add: skip_ws_def)
  have ws: "skip_ws (int_str n @ s) = int_str n @ s" for s
  proof -
    obtain c cs where c: "int_str n = c # cs" by (cases "int_str n") (auto simp: int_str_def split: if_splits)
    have "is_digit c \<or> c = CHR ''-''"
      using nat_str_ends(1)[of "nat n"] c by (auto simp: int_str_def split: if_splits)
    then show ?thesis by (auto simp: c skip_ws_def is_digit_def digit_val_def)
  qed
  have ks: "json_string (CHR ''u'' # CHR ''s'' # CHR ''e'' # CHR ''r'' # CHR ''_'' # CHR ''i'' # CHR ''d'' # CHR 0x22 # r)
      = Some (''user_id'', r)" "json_string (CHR ''p'' # CHR ''w'' # CHR ''_'' # CHR ''v'' # CHR 0x22 # r) = Some (''pw_v'', r)" for r
    by simp_all
  have vs: "json_value (Suc m) (CHR 0x22 # u @ CHR 0x22 # r) = Some (JStr u, r)"
    "json_value (Suc m) (CHR ''{'' # CHR 0x22 # r) =
       map_option (\<lambda>(fs, r). (JObj fs, r)) (json_fields m [] (CHR 0x22 # r))" for m r
    using assms by (simp_all add: json_string_plain sw)
  note steps = vs json_dumps_def json_quote_plain pk assms json_string_plain ks ws sw json_value_int dict_set_def
  let ?s = "json_dumps [(''user_id'', Inl u), (''pw_v'', Inr n)]"
  obtain m where m: "length ?s + 1 = Suc (Suc (Suc (Suc (Suc m))))"
    by (simp add: json_dumps_def json_quote_plain pk assms)
  show "json_loads ?s = Some (JObj [(''user_id'', JStr u), (''pw_v'', JInt n)])"
    unfolding json_loads_def m by (simp add: steps del: json_string.simps json_value.simps)
  let ?s = "json_dumps [(''user_id'', Inl u)]"
  obtain m where m: "length ?s + 1 = Suc (Suc (Suc (Suc (Suc m))))"
    by (simp add: json_dumps_def json_quote_plain pk assms)
  show "json_loads ?s = Some (JObj [(''user_id'', JStr u)])"
    unfolding json_loads_def m by (simp add: steps del: json_string.simps json_value.simps)
qed

text \<open>Whether a JSON value counts as true in Python.\<close>

fun truthy :: "json \<Rightarrow> bool" where
  "truthy JNull = False"
| "truthy (JBool b) = b"
| "truthy (JInt i) = (i \<noteq> 0)"
| "truthy (JFloat x) = (x \<noteq> 0)"
| "truthy (JStr s) = (s \<noteq> [])"
| "truthy (JArr xs) = (xs \<noteq> [])"
| "truthy (JObj kvs) = (kvs \<noteq> [])"

end
