(* ===== verification/Redis.thy ===== *)
theory Redis
  imports PyText
begin

text \<open>
  The Redis commands the backend issues. Redis is a service outside the repository, so its
  operations are a parameter: a record of functions over an abstract store \<open>'r\<close> that
  every definition using Redis takes as an argument. What the code relies on is stated by
  \<open>redis_kv\<close> (GET, SET, SET NX, GETDEL, DEL, INCR, EXPIRE) and \<open>redis_zset\<close>
  (ZADD, ZADD NX, ZREMRANGEBYSCORE, ZCARD, ZSCORE, ZRANGE 0 0). A time to live only ever
  removes a key later, so at the moment it is set EXPIRE leaves what can be read unchanged;
  \<open>rd_expired\<close> is the removal itself. Where a property depends on when keys go away, the time
  that passes is a step of its own under the laws \<open>redis_time\<close>. \<open>mem_redis\<close> is an in-memory
  store that satisfies the laws, \<open>with_ttl mem_redis\<close> the same with times to live; they
  serve to evaluate the model on concrete inputs.
\<close>

section \<open>The commands\<close>

record 'r redis =
  rd_get :: "'r \<Rightarrow> string \<Rightarrow> string option"
  rd_set :: "'r \<Rightarrow> string \<Rightarrow> string \<Rightarrow> int option \<Rightarrow> 'r"
  rd_set_nx :: "'r \<Rightarrow> string \<Rightarrow> string \<Rightarrow> int \<Rightarrow> bool \<times> 'r"
  rd_getdel :: "'r \<Rightarrow> string \<Rightarrow> string option \<times> 'r"
  rd_delete :: "'r \<Rightarrow> string \<Rightarrow> int \<times> 'r"
  rd_incr :: "'r \<Rightarrow> string \<Rightarrow> int option \<times> 'r"
  rd_expire :: "'r \<Rightarrow> string \<Rightarrow> int \<Rightarrow> bool \<Rightarrow> 'r"
  rd_expired :: "'r \<Rightarrow> string \<Rightarrow> 'r"
  rd_zremrangebyscore :: "'r \<Rightarrow> string \<Rightarrow> rat option \<Rightarrow> rat \<Rightarrow> 'r"
  rd_zadd :: "'r \<Rightarrow> string \<Rightarrow> string \<Rightarrow> rat \<Rightarrow> 'r"
  rd_zadd_nx :: "'r \<Rightarrow> string \<Rightarrow> string \<Rightarrow> rat \<Rightarrow> int \<times> 'r"
  rd_zcard :: "'r \<Rightarrow> string \<Rightarrow> int"
  rd_zscore :: "'r \<Rightarrow> string \<Rightarrow> string \<Rightarrow> rat option"
  rd_zfirst :: "'r \<Rightarrow> string \<Rightarrow> (string \<times> rat) option"

text \<open>The third argument of \<^const>\<open>rd_set\<close> beside key and value is the EX option; the flag of
  \<^const>\<open>rd_expire\<close> is NX. \<^const>\<open>rd_zremrangebyscore\<close> takes \<^const>\<open>None\<close> for the
  lower bound \<open>-inf\<close>.\<close>

section \<open>The laws\<close>

text \<open>INCR counts from an absent key as from 0; on a value that is no integer it fails, which
  the first component \<^const>\<open>None\<close> stands for.\<close>

definition counter_value :: "string option \<Rightarrow> int option" where
  "counter_value v = (case v of None \<Rightarrow> Some 0 | Some s \<Rightarrow> py_int s)"

definition redis_kv :: "'r redis \<Rightarrow> bool" where
  "redis_kv R \<longleftrightarrow>
     (\<forall>r k v ex k'. rd_get R (rd_set R r k v ex) k' = (if k' = k then Some v else rd_get R r k')) \<and>
     (\<forall>r k v t. fst (rd_set_nx R r k v t) = (rd_get R r k = None)) \<and>
     (\<forall>r k v t k'. rd_get R (snd (rd_set_nx R r k v t)) k' =
        (if k' = k \<and> rd_get R r k = None then Some v else rd_get R r k')) \<and>
     (\<forall>r k. fst (rd_getdel R r k) = rd_get R r k) \<and>
     (\<forall>r k k'. rd_get R (snd (rd_getdel R r k)) k' = (if k' = k then None else rd_get R r k')) \<and>
     (\<forall>r k k'. rd_get R (snd (rd_delete R r k)) k' = (if k' = k then None else rd_get R r k')) \<and>
     (\<forall>r k. fst (rd_incr R r k) = map_option (\<lambda>n. n + 1) (counter_value (rd_get R r k))) \<and>
     (\<forall>r k k'. rd_get R (snd (rd_incr R r k)) k' =
        (case counter_value (rd_get R r k) of
           None \<Rightarrow> rd_get R r k'
         | Some n \<Rightarrow> if k' = k then Some (int_str (n + 1)) else rd_get R r k')) \<and>
     (\<forall>r k t nx. rd_get R (rd_expire R r k t nx) = rd_get R r) \<and>
     (\<forall>r k k'. rd_get R (rd_expired R r k) k' = (if k' = k then None else rd_get R r k'))"

lemma redis_kvD:
  assumes "redis_kv R"
  shows redis_get_set: "rd_get R (rd_set R r k v ex) k' = (if k' = k then Some v else rd_get R r k')"
    and redis_set_nx_won: "fst (rd_set_nx R r k v t) = (rd_get R r k = None)"
    and redis_get_set_nx: "rd_get R (snd (rd_set_nx R r k v t)) k' =
        (if k' = k \<and> rd_get R r k = None then Some v else rd_get R r k')"
    and redis_getdel_val: "fst (rd_getdel R r k) = rd_get R r k"
    and redis_get_getdel: "rd_get R (snd (rd_getdel R r k)) k' = (if k' = k then None else rd_get R r k')"
    and redis_get_delete: "rd_get R (snd (rd_delete R r k)) k' = (if k' = k then None else rd_get R r k')"
    and redis_incr_val: "fst (rd_incr R r k) = map_option (\<lambda>n. n + 1) (counter_value (rd_get R r k))"
    and redis_get_incr: "rd_get R (snd (rd_incr R r k)) k' =
        (case counter_value (rd_get R r k) of
           None \<Rightarrow> rd_get R r k'
         | Some n \<Rightarrow> if k' = k then Some (int_str (n + 1)) else rd_get R r k')"
    and redis_get_expire: "rd_get R (rd_expire R r k t nx) = rd_get R r"
    and redis_get_expired: "rd_get R (rd_expired R r k) k' = (if k' = k then None else rd_get R r k')"
  using assms unfolding redis_kv_def by simp_all

lemmas redis_kv_simps = redis_get_set redis_set_nx_won redis_get_set_nx redis_getdel_val
  redis_get_getdel redis_get_delete redis_incr_val redis_get_incr redis_get_expire redis_get_expired

definition zset_members :: "'r redis \<Rightarrow> 'r \<Rightarrow> string \<Rightarrow> string set" where
  "zset_members R r k = {m. rd_zscore R r k m \<noteq> None}"

definition in_score_range :: "rat option \<Rightarrow> rat \<Rightarrow> rat \<Rightarrow> bool" where
  "in_score_range lo hi s \<longleftrightarrow> (case lo of None \<Rightarrow> True | Some l \<Rightarrow> l \<le> s) \<and> s \<le> hi"

definition redis_zset :: "'r redis \<Rightarrow> bool" where
  "redis_zset R \<longleftrightarrow>
     (\<forall>r k lo hi k' m. rd_zscore R (rd_zremrangebyscore R r k lo hi) k' m =
        (case rd_zscore R r k' m of None \<Rightarrow> None
         | Some s \<Rightarrow> if k' = k \<and> in_score_range lo hi s then None else Some s)) \<and>
     (\<forall>r k m s k' m'. rd_zscore R (rd_zadd R r k m s) k' m' =
        (if k' = k \<and> m' = m then Some s else rd_zscore R r k' m')) \<and>
     (\<forall>r k m s. fst (rd_zadd_nx R r k m s) = (if rd_zscore R r k m = None then 1 else 0)) \<and>
     (\<forall>r k m s k' m'. rd_zscore R (snd (rd_zadd_nx R r k m s)) k' m' =
        (if k' = k \<and> m' = m \<and> rd_zscore R r k m = None then Some s else rd_zscore R r k' m')) \<and>
     (\<forall>r k. finite (zset_members R r k) \<and> rd_zcard R r k = int (card (zset_members R r k))) \<and>
     (\<forall>r k. (case rd_zfirst R r k of
         None \<Rightarrow> zset_members R r k = {}
       | Some (m, s) \<Rightarrow> rd_zscore R r k m = Some s \<and>
           (\<forall>m' s'. rd_zscore R r k m' = Some s' \<longrightarrow> s \<le> s'))) \<and>
     (\<forall>r k t nx. rd_zscore R (rd_expire R r k t nx) = rd_zscore R r)"

lemma redis_zsetD:
  assumes "redis_zset R"
  shows redis_zscore_zrem: "rd_zscore R (rd_zremrangebyscore R r k lo hi) k' m =
        (case rd_zscore R r k' m of None \<Rightarrow> None
         | Some s \<Rightarrow> if k' = k \<and> in_score_range lo hi s then None else Some s)"
    and redis_zscore_zadd: "rd_zscore R (rd_zadd R r k m s) k' m' =
        (if k' = k \<and> m' = m then Some s else rd_zscore R r k' m')"
    and redis_zadd_nx_won: "fst (rd_zadd_nx R r k m s) = (if rd_zscore R r k m = None then 1 else 0)"
    and redis_zscore_zadd_nx: "rd_zscore R (snd (rd_zadd_nx R r k m s)) k' m' =
        (if k' = k \<and> m' = m \<and> rd_zscore R r k m = None then Some s else rd_zscore R r k' m')"
    and redis_zset_finite: "finite (zset_members R r k)"
    and redis_zcard: "rd_zcard R r k = int (card (zset_members R r k))"
    and redis_zscore_expire: "rd_zscore R (rd_expire R r k t nx) = rd_zscore R r"
  using assms unfolding redis_zset_def by simp_all

lemma redis_zfirst:
  assumes "redis_zset R"
  shows "(case rd_zfirst R r k of
         None \<Rightarrow> zset_members R r k = {}
       | Some (m, s) \<Rightarrow> rd_zscore R r k m = Some s \<and>
           (\<forall>m' s'. rd_zscore R r k m' = Some s' \<longrightarrow> s \<le> s'))"
  using assms unfolding redis_zset_def by blast

lemmas redis_zset_simps = redis_zscore_zrem redis_zscore_zadd redis_zadd_nx_won
  redis_zscore_zadd_nx redis_zscore_expire

text \<open>Neither family of commands touches the other's keys.\<close>

definition redis_disjoint :: "'r redis \<Rightarrow> bool" where
  "redis_disjoint R \<longleftrightarrow>
     (\<forall>r k lo hi k'. k' \<noteq> k \<longrightarrow> rd_get R (rd_zremrangebyscore R r k lo hi) k' = rd_get R r k') \<and>
     (\<forall>r k m s k'. k' \<noteq> k \<longrightarrow> rd_get R (rd_zadd R r k m s) k' = rd_get R r k') \<and>
     (\<forall>r k m s k'. k' \<noteq> k \<longrightarrow> rd_get R (snd (rd_zadd_nx R r k m s)) k' = rd_get R r k') \<and>
     (\<forall>r k v ex k'. k' \<noteq> k \<longrightarrow> rd_zscore R (rd_set R r k v ex) k' = rd_zscore R r k') \<and>
     (\<forall>r k k'. k' \<noteq> k \<longrightarrow> rd_zscore R (snd (rd_delete R r k)) k' = rd_zscore R r k')"

lemma redis_disjointD:
  assumes "redis_disjoint R" "k' \<noteq> k"
  shows "rd_get R (rd_zremrangebyscore R r k lo hi) k' = rd_get R r k'"
    and "rd_get R (rd_zadd R r k m s) k' = rd_get R r k'"
    and "rd_get R (snd (rd_zadd_nx R r k m s)) k' = rd_get R r k'"
    and "rd_zscore R (rd_set R r k v ex) k' = rd_zscore R r k'"
    and "rd_zscore R (snd (rd_delete R r k)) k' = rd_zscore R r k'"
  using assms unfolding redis_disjoint_def by simp_all

section \<open>Keys that expire\<close>

text \<open>\<open>ttl r k\<close> is what is left of the time to live of a key, \<open>pass d r\<close> the store when nothing but
  time, \<open>d\<close> seconds, has gone by. EXPIRE with a positive time sets the time to live of a key that
  exists; no command on one key changes the time to live of another. A key whose time is up
  is gone with all its members.\<close>

definition redis_time :: "'r redis \<Rightarrow> ('r \<Rightarrow> string \<Rightarrow> rat option) \<Rightarrow> (rat \<Rightarrow> 'r \<Rightarrow> 'r) \<Rightarrow> bool" where
  "redis_time R ttl pass \<longleftrightarrow>
     (\<forall>r d k m. 0 \<le> d \<longrightarrow> rd_zscore R (pass d r) k m =
        (case ttl r k of None \<Rightarrow> rd_zscore R r k m | Some t \<Rightarrow> if t \<le> d then None else rd_zscore R r k m)) \<and>
     (\<forall>r d k. 0 \<le> d \<longrightarrow> ttl (pass d r) k =
        (case ttl r k of None \<Rightarrow> None | Some t \<Rightarrow> if t \<le> d then None else Some (t - d))) \<and>
     (\<forall>r k t. 0 < t \<longrightarrow> zset_members R r k \<noteq> {} \<longrightarrow> ttl (rd_expire R r k t False) k = Some (of_int t)) \<and>
     (\<forall>r k t nx k'. k' \<noteq> k \<longrightarrow> ttl (rd_expire R r k t nx) k' = ttl r k') \<and>
     (\<forall>r k lo hi k'. k' \<noteq> k \<longrightarrow> ttl (rd_zremrangebyscore R r k lo hi) k' = ttl r k') \<and>
     (\<forall>r k m s k'. k' \<noteq> k \<longrightarrow> ttl (rd_zadd R r k m s) k' = ttl r k') \<and>
     (\<forall>r k m s k'. k' \<noteq> k \<longrightarrow> ttl (snd (rd_zadd_nx R r k m s)) k' = ttl r k') \<and>
     (\<forall>r k v ex k'. k' \<noteq> k \<longrightarrow> ttl (rd_set R r k v ex) k' = ttl r k') \<and>
     (\<forall>r k k'. k' \<noteq> k \<longrightarrow> ttl (snd (rd_delete R r k)) k' = ttl r k')"

lemma redis_timeD:
  assumes "redis_time R ttl pass"
  shows redis_pass_zscore: "0 \<le> d \<Longrightarrow> rd_zscore R (pass d r) k m =
        (case ttl r k of None \<Rightarrow> rd_zscore R r k m | Some t \<Rightarrow> if t \<le> d then None else rd_zscore R r k m)"
    and redis_pass_ttl: "0 \<le> d \<Longrightarrow> ttl (pass d r) k =
        (case ttl r k of None \<Rightarrow> None | Some t \<Rightarrow> if t \<le> d then None else Some (t - d))"
    and redis_ttl_members: "0 < t \<Longrightarrow> zset_members R r k \<noteq> {} \<Longrightarrow> ttl (rd_expire R r k t False) k = Some (of_int t)"
    and redis_ttl_other: "k' \<noteq> k \<Longrightarrow> ttl (rd_expire R r k t nx) k' = ttl r k'"
      "k' \<noteq> k \<Longrightarrow> ttl (rd_zremrangebyscore R r k lo hi) k' = ttl r k'"
      "k' \<noteq> k \<Longrightarrow> ttl (rd_zadd R r k m s) k' = ttl r k'"
      "k' \<noteq> k \<Longrightarrow> ttl (snd (rd_zadd_nx R r k m s)) k' = ttl r k'"
      "k' \<noteq> k \<Longrightarrow> ttl (rd_set R r k v ex) k' = ttl r k'"
      "k' \<noteq> k \<Longrightarrow> ttl (snd (rd_delete R r k)) k' = ttl r k'"
  using assms unfolding redis_time_def by (elim conjE, simp)+

lemma redis_ttl_expire:
  assumes "redis_time R ttl pass" "0 < t" "rd_zscore R r k m \<noteq> None"
  shows "ttl (rd_expire R r k t False) k = Some (of_int t)"
proof -
  have "m \<in> zset_members R r k" using assms(3) by (simp add: zset_members_def)
  then show ?thesis by (intro redis_ttl_members[OF assms(1,2)]) blast
qed

section \<open>An in-memory store\<close>

record mem =
  mem_kv :: "string \<Rightarrow> string option"
  mem_zs :: "string \<Rightarrow> (string \<times> rat) list"

definition mem_empty :: mem where
  "mem_empty = \<lparr>mem_kv = (\<lambda>_. None), mem_zs = (\<lambda>_. [])\<rparr>"

definition mem_set :: "mem \<Rightarrow> string \<Rightarrow> string \<Rightarrow> mem" where
  "mem_set r k v = r\<lparr>mem_kv := (mem_kv r)(k := Some v)\<rparr>"

definition mem_del :: "mem \<Rightarrow> string \<Rightarrow> mem" where
  "mem_del r k = r\<lparr>mem_kv := (mem_kv r)(k := None)\<rparr>"

definition mem_incr :: "mem \<Rightarrow> string \<Rightarrow> int option \<times> mem" where
  "mem_incr r k =
     (case counter_value (mem_kv r k) of
        None \<Rightarrow> (None, r) | Some n \<Rightarrow> (Some (n + 1), mem_set r k (int_str (n + 1))))"

definition mem_zput :: "mem \<Rightarrow> string \<Rightarrow> string \<Rightarrow> rat \<Rightarrow> mem" where
  "mem_zput r k m s = r\<lparr>mem_zs := (mem_zs r)(k := (m, s) # mem_zs r k)\<rparr>"

definition mem_names :: "mem \<Rightarrow> string \<Rightarrow> string list" where
  "mem_names r k = remdups (map fst (mem_zs r k))"

definition mem_zrem :: "mem \<Rightarrow> string \<Rightarrow> rat option \<Rightarrow> rat \<Rightarrow> mem" where
  "mem_zrem r k lo hi =
     r\<lparr>mem_zs := (mem_zs r)(k :=
         filter (\<lambda>(m, s). \<not> in_score_range lo hi s)
           (map (\<lambda>m. (m, the (map_of (mem_zs r k) m))) (mem_names r k)))\<rparr>"

definition mem_redis :: "mem redis" where
  "mem_redis = \<lparr>
     rd_get = mem_kv,
     rd_set = (\<lambda>r k v t. mem_set r k v),
     rd_set_nx = (\<lambda>r k v t. if mem_kv r k = None then (True, mem_set r k v) else (False, r)),
     rd_getdel = (\<lambda>r k. (mem_kv r k, mem_del r k)),
     rd_delete = (\<lambda>r k. (if mem_kv r k = None then 0 else 1, mem_del r k)),
     rd_incr = mem_incr,
     rd_expire = (\<lambda>r k t nx. r),
     rd_expired = mem_del,
     rd_zremrangebyscore = mem_zrem,
     rd_zadd = mem_zput,
     rd_zadd_nx = (\<lambda>r k m s. if map_of (mem_zs r k) m = None then (1, mem_zput r k m s) else (0, r)),
     rd_zcard = (\<lambda>r k. int (length (mem_names r k))),
     rd_zscore = (\<lambda>r k m. map_of (mem_zs r k) m),
     rd_zfirst = (\<lambda>r k. case sort_key (\<lambda>m. the (map_of (mem_zs r k) m)) (mem_names r k) of
         [] \<Rightarrow> None | m # _ \<Rightarrow> Some (m, the (map_of (mem_zs r k) m)))\<rparr>"

lemmas mem_redis_eval [py_eval] = mem_redis_def mem_set_def mem_del_def mem_incr_def mem_zput_def
  mem_names_def mem_zrem_def mem_empty_def in_score_range_def counter_value_def

lemma mem_redis_kv: "redis_kv mem_redis"
  by (simp add: redis_kv_def mem_redis_def mem_set_def mem_del_def mem_incr_def split: option.split)

lemma map_of_filter_scores:
  "distinct ns \<Longrightarrow> map_of (filter (\<lambda>(m, s). P s) (map (\<lambda>m. (m, f m)) ns)) m =
     (if m \<in> set ns \<and> P (f m) then Some (f m) else None)"
  by (induction ns) auto

lemma mem_zscore_zrem:
  "map_of (mem_zs (mem_zrem r k lo hi) k') m =
     (case map_of (mem_zs r k') m of None \<Rightarrow> None
      | Some s \<Rightarrow> if k' = k \<and> in_score_range lo hi s then None else Some s)"
proof (cases "k' = k")
  case True
  have "m \<in> set (mem_names r k) \<longleftrightarrow> map_of (mem_zs r k) m \<noteq> None"
    by (simp add: mem_names_def map_of_eq_None_iff)
  then show ?thesis
    using True by (auto simp: mem_zrem_def map_of_filter_scores mem_names_def split: option.splits)
qed (auto simp: mem_zrem_def split: option.splits)

lemma mem_members: "zset_members mem_redis r k = set (mem_names r k)"
  by (auto simp: zset_members_def mem_redis_def mem_names_def map_of_eq_None_iff)

lemma mem_zfirst:
  "case rd_zfirst mem_redis r k of
     None \<Rightarrow> zset_members mem_redis r k = {}
   | Some (m, s) \<Rightarrow> rd_zscore mem_redis r k m = Some s \<and>
       (\<forall>m' s'. rd_zscore mem_redis r k m' = Some s' \<longrightarrow> s \<le> s')"
proof (cases "sort_key (\<lambda>m. the (map_of (mem_zs r k) m)) (mem_names r k)")
  case Nil
  then show ?thesis
    using mem_members[of r k] set_sort[of "\<lambda>m. the (map_of (mem_zs r k) m)" "mem_names r k"]
    by (simp add: mem_redis_def)
next
  case (Cons m ms)
  let ?f = "\<lambda>m. the (map_of (mem_zs r k) m)"
  have set: "set (mem_names r k) = insert m (set ms)"
    using set_sort[of ?f "mem_names r k"] Cons by simp
  have "sorted (map ?f (m # ms))" using sorted_sort_key[of ?f "mem_names r k"] Cons by simp
  then have least: "\<forall>m' \<in> set (mem_names r k). ?f m \<le> ?f m'" by (auto simp: set)
  have name: "m' \<in> set (mem_names r k) \<longleftrightarrow> map_of (mem_zs r k) m' \<noteq> None" for m'
    by (simp add: mem_names_def map_of_eq_None_iff)
  have "m \<in> set (mem_names r k)" using set by simp
  then have "map_of (mem_zs r k) m = Some (?f m)" using name by auto
  moreover have "?f m \<le> s'" if "map_of (mem_zs r k) m' = Some s'" for m' s'
  proof -
    have "m' \<in> set (mem_names r k)" using that name by simp
    then have "?f m \<le> ?f m'" using least by blast
    then show ?thesis using that by simp
  qed
  ultimately show ?thesis using Cons by (simp add: mem_redis_def)
qed

lemma mem_zset_ops:
  "rd_zscore mem_redis r k m = map_of (mem_zs r k) m"
  "rd_zremrangebyscore mem_redis = mem_zrem"
  "rd_zadd mem_redis = mem_zput"
  "rd_zadd_nx mem_redis r k m x =
     (if map_of (mem_zs r k) m = None then (1, mem_zput r k m x) else (0, r))"
  "rd_zcard mem_redis r k = int (length (mem_names r k))"
  "rd_expire mem_redis r k t nx = r"
  by (simp_all add: mem_redis_def)

lemma mem_redis_zset: "redis_zset mem_redis"
proof (unfold redis_zset_def, intro conjI allI, goal_cases)
  case (1 r k lo hi k' m)
  show ?case unfolding mem_zset_ops by (rule mem_zscore_zrem)
next
  case (6 r k)
  show ?case
    by (simp only: mem_members mem_zset_ops) (simp add: mem_names_def length_remdups_card_conv)
next
  case (7 r k)
  show ?case by (rule mem_zfirst)
qed (simp_all add: mem_zset_ops mem_zput_def mem_members)

lemma mem_redis_disjoint: "redis_disjoint mem_redis"
  by (simp add: redis_disjoint_def mem_redis_def mem_zrem_def mem_zput_def mem_set_def mem_del_def)

section \<open>The in-memory store with times to live\<close>

type_synonym 'r timed = "'r \<times> (string \<Rightarrow> rat option)"

definition with_ttl :: "'r redis \<Rightarrow> 'r timed redis" where
  "with_ttl R = \<lparr>
     rd_get = (\<lambda>r. rd_get R (fst r)),
     rd_set = (\<lambda>r k v ex. (rd_set R (fst r) k v ex, (snd r)(k := map_option of_int ex))),
     rd_set_nx = (\<lambda>r k v t. case rd_set_nx R (fst r) k v t of
        (won, r') \<Rightarrow> (won, r', if won then (snd r)(k := Some (of_int t)) else snd r)),
     rd_getdel = (\<lambda>r k. case rd_getdel R (fst r) k of (v, r') \<Rightarrow> (v, r', (snd r)(k := None))),
     rd_delete = (\<lambda>r k. case rd_delete R (fst r) k of (n, r') \<Rightarrow> (n, r', (snd r)(k := None))),
     rd_incr = (\<lambda>r k. case rd_incr R (fst r) k of (n, r') \<Rightarrow> (n, r', snd r)),
     rd_expire = (\<lambda>r k t nx. (rd_expire R (fst r) k t nx,
        if nx \<and> snd r k \<noteq> None then snd r else (snd r)(k := Some (of_int t)))),
     rd_expired = (\<lambda>r k. (rd_expired R (fst r) k, (snd r)(k := None))),
     rd_zremrangebyscore = (\<lambda>r k lo hi. (rd_zremrangebyscore R (fst r) k lo hi, snd r)),
     rd_zadd = (\<lambda>r k m x. (rd_zadd R (fst r) k m x, snd r)),
     rd_zadd_nx = (\<lambda>r k m x. case rd_zadd_nx R (fst r) k m x of (n, r') \<Rightarrow> (n, r', snd r)),
     rd_zcard = (\<lambda>r. rd_zcard R (fst r)),
     rd_zscore = (\<lambda>r. rd_zscore R (fst r)),
     rd_zfirst = (\<lambda>r. rd_zfirst R (fst r))\<rparr>"

lemma with_ttl_ops:
  "rd_zscore (with_ttl R) r = rd_zscore R (fst r)"
  "rd_zremrangebyscore (with_ttl R) r k lo hi = (rd_zremrangebyscore R (fst r) k lo hi, snd r)"
  "rd_zadd (with_ttl R) r k m x = (rd_zadd R (fst r) k m x, snd r)"
  "fst (rd_zadd_nx (with_ttl R) r k m x) = fst (rd_zadd_nx R (fst r) k m x)"
  "snd (rd_zadd_nx (with_ttl R) r k m x) = (snd (rd_zadd_nx R (fst r) k m x), snd r)"
  "rd_zcard (with_ttl R) r k = rd_zcard R (fst r) k"
  "rd_zfirst (with_ttl R) r k = rd_zfirst R (fst r) k"
  "rd_expire (with_ttl R) r k t nx = (rd_expire R (fst r) k t nx,
     if nx \<and> snd r k \<noteq> None then snd r else (snd r)(k := Some (of_int t)))"
  "rd_get (with_ttl R) r = rd_get R (fst r)"
  "rd_set (with_ttl R) r k v ex = (rd_set R (fst r) k v ex, (snd r)(k := map_option of_int ex))"
  "snd (rd_delete (with_ttl R) r k) = (snd (rd_delete R (fst r) k), (snd r)(k := None))"
  by (simp_all add: with_ttl_def split: prod.split)

lemma with_ttl_members [simp]: "zset_members (with_ttl R) r k = zset_members R (fst r) k"
  by (simp add: zset_members_def with_ttl_ops)

lemma with_ttl_zset: "redis_zset R \<Longrightarrow> redis_zset (with_ttl R)"
  unfolding redis_zset_def[of "with_ttl R"] with_ttl_ops with_ttl_members fst_conv
  by (simp add: redis_zset_simps redis_zset_finite redis_zcard redis_zfirst)

lemma with_ttl_disjoint: "redis_disjoint R \<Longrightarrow> redis_disjoint (with_ttl R)"
  by (simp add: redis_disjoint_def[of "with_ttl R"] with_ttl_ops redis_disjointD)

definition mem_pass :: "rat \<Rightarrow> mem timed \<Rightarrow> mem timed" where
  "mem_pass d r =
     (case r of (m, ttl) \<Rightarrow>
        let gone = (\<lambda>k. case ttl k of None \<Rightarrow> False | Some t \<Rightarrow> t \<le> d)
        in (\<lparr>mem_kv = (\<lambda>k. if gone k then None else mem_kv m k),
             mem_zs = (\<lambda>k. if gone k then [] else mem_zs m k)\<rparr>,
            \<lambda>k. if gone k then None else map_option (\<lambda>t. t - d) (ttl k)))"

lemma mem_pass_ops:
  "mem_zs (fst (mem_pass d r)) k =
     (case snd r k of None \<Rightarrow> mem_zs (fst r) k | Some t \<Rightarrow> if t \<le> d then [] else mem_zs (fst r) k)"
  "snd (mem_pass d r) k = (case snd r k of None \<Rightarrow> None | Some t \<Rightarrow> if t \<le> d then None else Some (t - d))"
  by (auto simp: mem_pass_def Let_def split: prod.split option.split)

lemma mem_redis_time: "redis_time (with_ttl mem_redis) snd mem_pass"
  unfolding redis_time_def with_ttl_ops mem_zset_ops mem_pass_ops
  by (auto split: option.split)

end
