(* ===== verification/Safety.thy ===== *)
theory Safety
  imports Audit_Log Redis
begin

text \<open>
  The pre-trade safety layer: \<open>safety/kill_switch.py\<close>, \<open>safety/position_sizer.py\<close>,
  \<open>safety/guardian.py\<close> and the limits of \<open>schemas/safety.py\<close>. The state an operation
  works on is the Redis store and the audit log (\<open>world\<close>); the clock is an argument.
  Monetary amounts are the exact values of the \<open>Decimal\<close>s, with the context rounding at
  each operation; the quantity of an order keeps its exponent because the code prints it.
\<close>

record 'r world =
  w_redis :: 'r
  w_audit :: audit_log

text \<open>Strings are UTF-8 bytes; this is the dash of the kill-switch reason.\<close>

definition em_dash :: string where "em_dash = [CHR 0xE2, CHR 0x80, CHR 0x94]"

section \<open>The safety decision and the codes\<close>

record decision =
  allowed :: bool
  reason :: "string option"
  code :: "string option"
  details :: "(string \<times> json) list option"

definition allow :: decision where
  "allow = \<lparr>allowed = True, reason = None, code = None, details = None\<rparr>"

definition EVENT_SAFETY_VIOLATION :: string where "EVENT_SAFETY_VIOLATION = ''safety.violation''"
definition CODE_POSITION_SIZE :: string where "CODE_POSITION_SIZE = ''position_size_exceeded''"
definition CODE_DAILY_LOSS :: string where "CODE_DAILY_LOSS = ''daily_loss_exceeded''"
definition CODE_MAX_DRAWDOWN :: string where "CODE_MAX_DRAWDOWN = ''max_drawdown_exceeded''"
definition CODE_DUPLICATE_ORDER :: string where "CODE_DUPLICATE_ORDER = ''duplicate_order''"
definition CODE_KILL_SWITCH :: string where "CODE_KILL_SWITCH = ''kill_switch_active''"

lemmas safety_codes [py_eval] = EVENT_SAFETY_VIOLATION_def CODE_POSITION_SIZE_def
  CODE_DAILY_LOSS_def CODE_MAX_DRAWDOWN_def CODE_DUPLICATE_ORDER_def CODE_KILL_SWITCH_def

definition dec_float :: "rat \<Rightarrow> json" where
  "dec_float value = JFloat (f64 value)"

definition record_violation ::
  "uuid \<Rightarrow> string \<Rightarrow> string \<Rightarrow> (string \<times> json) list \<Rightarrow> 'r world \<Rightarrow> 'r world" where
  "record_violation user_id cd rsn dts w =
     w\<lparr>w_audit := audit_event EVENT_SAFETY_VIOLATION (Some user_id)
         ([(''code'', JStr cd), (''reason'', JStr rsn)] @ dts) (w_audit w)\<rparr>"

text \<open>Every rejecting branch records the violation and returns the matching decision.\<close>

definition reject ::
  "uuid \<Rightarrow> string \<Rightarrow> string \<Rightarrow> (string \<times> json) list \<Rightarrow> 'r world \<Rightarrow> decision \<times> 'r world" where
  "reject user_id cd rsn dts w =
     (\<lparr>allowed = False, reason = Some rsn, code = Some cd, details = Some dts\<rparr>,
      record_violation user_id cd rsn dts w)"

lemma reject_simps [simp]:
  "allowed (fst (reject u c rs d w)) = False"
  "code (fst (reject u c rs d w)) = Some c"
  "w_redis (snd (reject u c rs d w)) = w_redis w"
  "w_audit (snd (reject u c rs d w)) = w_audit w @
     [audit_entry EVENT_SAFETY_VIOLATION (Some u) ([(''code'', JStr c), (''reason'', JStr rs)] @ d)]"
  by (simp_all add: reject_def record_violation_def audit_event_append)

lemma allow_simps [simp]: "allowed allow" "code allow = None"
  by (simp_all add: allow_def)

section \<open>Kill switch\<close>

definition KILL_SWITCH_KEY_PREFIX :: string where "KILL_SWITCH_KEY_PREFIX = ''safety:kill_switch:''"
definition EVENT_KILL_SWITCH_ACTIVATED :: string where
  "EVENT_KILL_SWITCH_ACTIVATED = ''safety.kill_switch_activated''"
definition EVENT_KILL_SWITCH_DEACTIVATED :: string where
  "EVENT_KILL_SWITCH_DEACTIVATED = ''safety.kill_switch_deactivated''"

definition kill_switch_key :: "uuid \<Rightarrow> string" where
  "kill_switch_key user_id = KILL_SWITCH_KEY_PREFIX @ user_id"

definition kill_switch_activate ::
  "'r redis \<Rightarrow> uuid \<Rightarrow> 'r world \<Rightarrow> (string \<times> json) list \<times> 'r world" where
  "kill_switch_activate R user_id w =
     ([(''active'', JBool True)],
      w\<lparr>w_redis := rd_set R (w_redis w) (kill_switch_key user_id) ''1'' None,
       w_audit := audit_event EVENT_KILL_SWITCH_ACTIVATED (Some user_id)
         [(''active'', JBool True)] (w_audit w)\<rparr>)"

definition kill_switch_deactivate :: "'r redis \<Rightarrow> uuid \<Rightarrow> 'r world \<Rightarrow> 'r world" where
  "kill_switch_deactivate R user_id w =
     w\<lparr>w_redis := snd (rd_delete R (w_redis w) (kill_switch_key user_id)),
       w_audit := audit_event EVENT_KILL_SWITCH_DEACTIVATED (Some user_id)
         [(''active'', JBool False)] (w_audit w)\<rparr>"

definition kill_switch_is_active :: "'r redis \<Rightarrow> uuid \<Rightarrow> 'r world \<Rightarrow> bool" where
  "kill_switch_is_active R user_id w = (rd_get R (w_redis w) (kill_switch_key user_id) \<noteq> None)"

lemmas kill_switch_defs = kill_switch_key_def kill_switch_activate_def kill_switch_deactivate_def
  kill_switch_is_active_def

lemma kill_switch_flags:
  assumes "redis_kv R"
  shows "kill_switch_is_active R v (snd (kill_switch_activate R u w)) \<longleftrightarrow>
           v = u \<or> kill_switch_is_active R v w"
    and "kill_switch_is_active R v (kill_switch_deactivate R u w) \<longleftrightarrow>
           v \<noteq> u \<and> kill_switch_is_active R v w"
  using assms by (auto simp: kill_switch_defs redis_kv_simps)

section \<open>Position sizing\<close>

definition max_allowed_qty :: "rat \<Rightarrow> rat \<Rightarrow> rat \<Rightarrow> rat option" where
  "max_allowed_qty portfolio_value price max_position_pct =
     (if price \<le> 0 then Some 0
      else quantize_with round_down 8 (ddiv (dmul portfolio_value max_position_pct) price))"

definition is_within_limit :: "rat \<Rightarrow> rat \<Rightarrow> rat \<Rightarrow> bool" where
  "is_within_limit proposed_value portfolio_value max_pct =
     (if portfolio_value \<le> 0 then False else proposed_value \<le> dmul portfolio_value max_pct)"

section \<open>The four checks\<close>

definition validate_position_size ::
  "uuid \<Rightarrow> uuid \<Rightarrow> rat \<Rightarrow> rat \<Rightarrow> rat \<Rightarrow> 'r world \<Rightarrow> decision \<times> 'r world" where
  "validate_position_size user_id instrument_id proposed_value portfolio_value max_pct w =
     (let common = [(''instrument_id'', JStr instrument_id),
                    (''proposed_value'', dec_float proposed_value),
                    (''portfolio_value'', dec_float portfolio_value),
                    (''max_pct'', dec_float max_pct)]
      in if portfolio_value \<le> 0
         then reject user_id CODE_POSITION_SIZE
                ''Portfolio value is zero; cannot evaluate position size.'' common w
         else let limit_value = dmul portfolio_value max_pct in
              if proposed_value > limit_value
              then let pct_of_portfolio = ddiv proposed_value portfolio_value
                   in reject user_id CODE_POSITION_SIZE
                        (''Proposed position ('' @ pct_str pct_of_portfolio @
                         '') exceeds max allowed ('' @ pct_str max_pct @ '').'')
                        (common @ [(''pct_of_portfolio'', dec_float pct_of_portfolio)]) w
              else (allow, w))"

definition check_daily_loss ::
  "uuid \<Rightarrow> rat \<Rightarrow> rat \<Rightarrow> rat \<Rightarrow> 'r world \<Rightarrow> decision \<times> 'r world" where
  "check_daily_loss user_id current_value start_of_day_value limit_pct w =
     (if start_of_day_value \<le> 0 then (allow, w)
      else let loss = dsub start_of_day_value current_value in
           if loss \<le> 0 then (allow, w)
           else let loss_pct = ddiv loss start_of_day_value in
                if loss_pct \<ge> limit_pct
                then reject user_id CODE_DAILY_LOSS
                       (''Daily loss ('' @ pct_str loss_pct @ '') has breached limit ('' @
                        pct_str limit_pct @ '').'')
                       [(''current_value'', dec_float current_value),
                        (''start_of_day_value'', dec_float start_of_day_value),
                        (''loss_pct'', dec_float loss_pct),
                        (''limit_pct'', dec_float limit_pct)] w
                else (allow, w))"

definition check_max_drawdown ::
  "uuid \<Rightarrow> rat \<Rightarrow> rat \<Rightarrow> rat \<Rightarrow> 'r world \<Rightarrow> decision \<times> 'r world" where
  "check_max_drawdown user_id current_value peak_value limit_pct w =
     (if peak_value \<le> 0 then (allow, w)
      else let drawdown = dsub peak_value current_value in
           if drawdown \<le> 0 then (allow, w)
           else let drawdown_pct = ddiv drawdown peak_value in
                if drawdown_pct \<ge> limit_pct
                then reject user_id CODE_MAX_DRAWDOWN
                       (''Drawdown ('' @ pct_str drawdown_pct @ '') has breached limit ('' @
                        pct_str limit_pct @ '').'')
                       [(''current_value'', dec_float current_value),
                        (''peak_value'', dec_float peak_value),
                        (''drawdown_pct'', dec_float drawdown_pct),
                        (''limit_pct'', dec_float limit_pct)] w
                else (allow, w))"

definition RECENT_ORDERS_KEY_PREFIX :: string where
  "RECENT_ORDERS_KEY_PREFIX = ''safety:recent_orders:''"

definition orders_key :: "uuid \<Rightarrow> string" where
  "orders_key user_id = RECENT_ORDERS_KEY_PREFIX @ user_id"

definition order_member :: "string \<Rightarrow> string \<Rightarrow> decimal \<Rightarrow> string" where
  "order_member symbol side qty = symbol @ ''|'' @ side @ ''|'' @ dec_str qty"

definition check_duplicate_order ::
  "'r redis \<Rightarrow> rat \<Rightarrow> uuid \<Rightarrow> string \<Rightarrow> string \<Rightarrow> decimal \<Rightarrow> int \<Rightarrow> 'r world \<Rightarrow> decision \<times> 'r world" where
  "check_duplicate_order R now user_id symbol side qty window_seconds w =
     (let key = orders_key user_id;
          member = order_member symbol side qty;
          cutoff = fsub now (of_int window_seconds);
          r1 = rd_zremrangebyscore R (w_redis w) key None cutoff;
          (added, r2) = rd_zadd_nx R r1 key member now;
          r3 = rd_expire R r2 key (window_seconds * 2) False;
          w3 = w\<lparr>w_redis := r3\<rparr>
      in if added = 0
         then let existing_score = rd_zscore R r3 key member
              in reject user_id CODE_DUPLICATE_ORDER
                   (''Duplicate order for '' @ symbol @ '' '' @ side @ '' '' @ dec_str qty @
                    '' within '' @ int_str window_seconds @ ''s window.'')
                   [(''symbol'', JStr symbol), (''side'', JStr side),
                    (''qty'', dec_float (dec_val qty)),
                    (''window_seconds'', JInt window_seconds),
                    (''last_seen_ts'', JFloat (case existing_score of Some s \<Rightarrow> s | None \<Rightarrow> now))] w3
         else (allow, w3))"

definition record_order ::
  "'r redis \<Rightarrow> rat \<Rightarrow> uuid \<Rightarrow> string \<Rightarrow> string \<Rightarrow> decimal \<Rightarrow> int \<Rightarrow> 'r world \<Rightarrow> 'r world" where
  "record_order R now user_id symbol side qty window_seconds w =
     (let key = orders_key user_id;
          r1 = rd_zadd R (w_redis w) key (order_member symbol side qty) now
      in w\<lparr>w_redis := rd_expire R r1 key (window_seconds * 2) False\<rparr>)"

section \<open>The aggregate\<close>

record order_request =
  rq_user :: uuid
  rq_instrument :: uuid
  rq_symbol :: string
  rq_side :: string
  rq_qty :: decimal
  rq_proposed_value :: rat
  rq_portfolio_value :: rat
  rq_start_of_day_value :: rat
  rq_peak_value :: rat
  rq_max_position_pct :: rat
  rq_daily_loss_pct :: rat
  rq_max_drawdown_pct :: rat
  rq_window_seconds :: int

definition validate_action ::
  "'r redis \<Rightarrow> rat \<Rightarrow> bool \<Rightarrow> order_request \<Rightarrow> 'r world \<Rightarrow> decision \<times> 'r world" where
  "validate_action R now with_kill_switch q w =
     (if with_kill_switch \<and> kill_switch_is_active R (rq_user q) w
      then reject (rq_user q) CODE_KILL_SWITCH
             (''Kill switch is active '' @ em_dash @ '' all automation blocked.'') [] w
      else case validate_position_size (rq_user q) (rq_instrument q) (rq_proposed_value q)
                  (rq_portfolio_value q) (rq_max_position_pct q) w of
        (position_decision, w1) \<Rightarrow>
          if \<not> allowed position_decision then (position_decision, w1)
          else case check_daily_loss (rq_user q) (rq_portfolio_value q)
                      (rq_start_of_day_value q) (rq_daily_loss_pct q) w1 of
            (daily_decision, w2) \<Rightarrow>
              if \<not> allowed daily_decision then (daily_decision, w2)
              else case check_max_drawdown (rq_user q) (rq_portfolio_value q)
                          (rq_peak_value q) (rq_max_drawdown_pct q) w2 of
                (drawdown_decision, w3) \<Rightarrow>
                  if \<not> allowed drawdown_decision then (drawdown_decision, w3)
                  else case check_duplicate_order R now (rq_user q) (rq_symbol q) (rq_side q)
                              (rq_qty q) (rq_window_seconds q) w3 of
                    (duplicate_decision, w4) \<Rightarrow>
                      if \<not> allowed duplicate_decision then (duplicate_decision, w4)
                      else (allow, w4))"

section \<open>Limits\<close>

record safety_limits =
  daily_loss_pct :: rat
  max_drawdown_pct :: rat
  max_position_size_pct :: rat

definition default_limits :: safety_limits where
  "default_limits = \<lparr>daily_loss_pct = 2 / 100, max_drawdown_pct = 10 / 100,
     max_position_size_pct = 10 / 100\<rparr>"

text \<open>The three field validators; \<open>Inl\<close> is the message of the \<open>ValueError\<close>.\<close>

definition validate_daily_loss :: "rat \<Rightarrow> string + rat" where
  "validate_daily_loss v = (if v < 1 / 100 then Inl ''daily_loss_pct must be >= 0.01'' else Inr v)"

definition validate_drawdown :: "rat \<Rightarrow> string + rat" where
  "validate_drawdown v = (if v < 5 / 100 then Inl ''max_drawdown_pct must be >= 0.05'' else Inr v)"

definition validate_limit_size :: "rat \<Rightarrow> string + rat" where
  "validate_limit_size v =
     (if v > 25 / 100 then Inl ''max_position_size_pct must be <= 0.25'' else Inr v)"

definition safety_limits_of :: "rat \<Rightarrow> rat \<Rightarrow> rat \<Rightarrow> string + safety_limits" where
  "safety_limits_of dl dd mp =
     bind_res (validate_daily_loss dl) (\<lambda>dl.
     bind_res (validate_drawdown dd) (\<lambda>dd.
     bind_res (validate_limit_size mp) (\<lambda>mp.
       Inr \<lparr>daily_loss_pct = dl, max_drawdown_pct = dd, max_position_size_pct = mp\<rparr>)))"

lemma safety_limits_of_Inr:
  "safety_limits_of dl dd mp = Inr c \<longleftrightarrow> 1 / 100 \<le> dl \<and> 5 / 100 \<le> dd \<and> mp \<le> 25 / 100 \<and>
     c = \<lparr>daily_loss_pct = dl, max_drawdown_pct = dd, max_position_size_pct = mp\<rparr>"
  by (auto simp: safety_limits_of_def validate_daily_loss_def validate_drawdown_def
      validate_limit_size_def bind_res_def)

section \<open>What each check decides\<close>

text \<open>The two loss checks share one threshold: the fall from a reference value, as a
  fraction of it.\<close>

definition within_loss :: "rat \<Rightarrow> rat \<Rightarrow> rat \<Rightarrow> bool" where
  "within_loss current reference limit_pct \<longleftrightarrow>
     reference \<le> 0 \<or> dsub reference current \<le> 0 \<or>
     ddiv (dsub reference current) reference < limit_pct"

lemma validate_position_size_allowed:
  "allowed (fst (validate_position_size u i pv v pct w)) \<longleftrightarrow> is_within_limit pv v pct"
  by (auto simp: validate_position_size_def is_within_limit_def Let_def)

lemma check_daily_loss_allowed:
  "allowed (fst (check_daily_loss u cur sod lp w)) \<longleftrightarrow> within_loss cur sod lp"
  by (auto simp: check_daily_loss_def within_loss_def Let_def)

lemma check_max_drawdown_allowed:
  "allowed (fst (check_max_drawdown u cur peak lp w)) \<longleftrightarrow> within_loss cur peak lp"
  by (auto simp: check_max_drawdown_def within_loss_def Let_def)

text \<open>What a call may do to the world: an allowed call of the first three checks leaves it
  alone, a rejected call appends the one row that carries its decision.\<close>

definition logs_rejection :: "uuid \<Rightarrow> decision \<Rightarrow> 'r world \<Rightarrow> 'r world \<Rightarrow> bool" where
  "logs_rejection u d w w' \<longleftrightarrow>
     (\<exists>c rs dts. d = \<lparr>allowed = False, reason = Some rs, code = Some c, details = Some dts\<rparr> \<and>
        w_audit w' = w_audit w @ [audit_entry EVENT_SAFETY_VIOLATION (Some u)
          ([(''code'', JStr c), (''reason'', JStr rs)] @ dts)])"

lemma reject_logs:
  "logs_rejection u (fst (reject u c rs d w)) w (snd (reject u c rs d w))"
  by (simp add: logs_rejection_def reject_def record_violation_def audit_event_append)

lemmas reject_rules = reject_logs reject_simps(1-3)

lemma pure_checks:
  "validate_position_size u i pv v pct w = (d, w') \<Longrightarrow>
     if allowed d then d = allow \<and> w' = w
     else code d = Some CODE_POSITION_SIZE \<and> w_redis w' = w_redis w \<and> logs_rejection u d w w'"
  "check_daily_loss u cur sod lp w = (d, w') \<Longrightarrow>
     if allowed d then d = allow \<and> w' = w
     else code d = Some CODE_DAILY_LOSS \<and> w_redis w' = w_redis w \<and> logs_rejection u d w w'"
  "check_max_drawdown u cur peak lp w = (d, w') \<Longrightarrow>
     if allowed d then d = allow \<and> w' = w
     else code d = Some CODE_MAX_DRAWDOWN \<and> w_redis w' = w_redis w \<and> logs_rejection u d w w'"
  by (auto simp: validate_position_size_def check_daily_loss_def check_max_drawdown_def Let_def
      split: if_splits) (metis fst_conv snd_conv reject_rules reject_simps(2))+

lemma check_duplicate_order_spec:
  assumes "redis_zset R" and c: "check_duplicate_order R now u sb side qty win w = (d, w')"
  defines "key \<equiv> orders_key u" and "m \<equiv> order_member sb side qty"
  shows "allowed d \<longleftrightarrow> (\<forall>s. rd_zscore R (w_redis w) key m = Some s \<longrightarrow> s \<le> fsub now (of_int win))"
    and "rd_zscore R (w_redis w') k' m' =
      (if k' = key \<and> m' = m \<and> allowed d then Some now
       else case rd_zscore R (w_redis w) k' m' of None \<Rightarrow> None
         | Some s \<Rightarrow> if k' = key \<and> s \<le> fsub now (of_int win) then None else Some s)"
    and "if allowed d then d = allow \<and> w_audit w' = w_audit w
         else code d = Some CODE_DUPLICATE_ORDER \<and> logs_rejection u d w w'"
proof -
  let ?cut = "fsub now (of_int win)"
  define r1 where "r1 = rd_zremrangebyscore R (w_redis w) key None ?cut"
  define r2 where "r2 = snd (rd_zadd_nx R r1 key m now)"
  define r3 where "r3 = rd_expire R r2 key (win * 2) False"
  have z1: "rd_zscore R r1 k x = (case rd_zscore R (w_redis w) k x of None \<Rightarrow> None
      | Some s \<Rightarrow> if k = key \<and> s \<le> ?cut then None else Some s)" for k x
    unfolding r1_def by (simp add: redis_zscore_zrem[OF assms(1)] in_score_range_def cong: option.case_cong)
  have z3: "rd_zscore R r3 k x = (if k = key \<and> x = m \<and> rd_zscore R r1 key m = None
      then Some now else rd_zscore R r1 k x)" for k x
    unfolding r3_def r2_def by (simp add: redis_zset_simps(4,5)[OF assms(1)])
  obtain added r2' where nx: "rd_zadd_nx R r1 key m now = (added, r2')" by fastforce
  have r2': "r2' = r2" using nx by (simp add: r2_def)
  have added: "added = (if rd_zscore R r1 key m = None then 1 else 0)"
    using redis_zadd_nx_won[OF assms(1), of r1 key m now] nx by simp
  note c' = c[unfolded check_duplicate_order_def Let_def, folded key_def m_def, folded r1_def,
      unfolded nx prod.case r2', folded r3_def]
  have both: "w_redis w' = r3 \<and>
      (if rd_zscore R r1 key m = None then d = allow \<and> w_audit w' = w_audit w
       else \<not> allowed d \<and> code d = Some CODE_DUPLICATE_ORDER \<and> logs_rejection u d w w')"
  proof (cases "rd_zscore R r1 key m = None")
    case True
    then show ?thesis using c' by (auto simp: added)
  next
    case False
    have "logs_rejection u d w w'" "\<not> allowed d" "code d = Some CODE_DUPLICATE_ORDER"
      "w_redis w' = r3"
      using c' False by (auto simp: added logs_rejection_def reject_def record_violation_def audit_event_append)
    then show ?thesis using False by auto
  qed
  show al: "allowed d \<longleftrightarrow> (\<forall>s. rd_zscore R (w_redis w) key m = Some s \<longrightarrow> s \<le> ?cut)"
    using both by (auto simp: z1 split: option.splits if_splits)
  show "rd_zscore R (w_redis w') k' m' =
      (if k' = key \<and> m' = m \<and> allowed d then Some now
       else case rd_zscore R (w_redis w) k' m' of None \<Rightarrow> None
         | Some s \<Rightarrow> if k' = key \<and> s \<le> ?cut then None else Some s)"
    using both by (auto simp: z3 z1 split: option.splits if_splits)
  show "if allowed d then d = allow \<and> w_audit w' = w_audit w
        else code d = Some CODE_DUPLICATE_ORDER \<and> logs_rejection u d w w'"
    using both by (auto split: if_splits)
qed

end
