(* ===== verification/Guardian.thy ===== *)
theory Guardian
  imports Safety
begin

text \<open>
  What the safety layer promises. A single call of \<open>validate_action\<close> is characterised
  against the abstract condition \<open>admissible\<close>; the service as a whole is a run of events
  (validations, order records, kill-switch flips) on one world, over which the deduplication
  window and the kill switch are invariants. For the window the run goes against the clock: between
  events time passes in the store too, and keys whose time to live is up are gone. The run is an
  instance of the append-only log.
\<close>

section \<open>One call\<close>

definition admissible :: "'r redis \<Rightarrow> rat \<Rightarrow> bool \<Rightarrow> order_request \<Rightarrow> 'r world \<Rightarrow> bool" where
  "admissible R now ks q w \<longleftrightarrow>
     \<not> (ks \<and> kill_switch_is_active R (rq_user q) w) \<and>
     is_within_limit (rq_proposed_value q) (rq_portfolio_value q) (rq_max_position_pct q) \<and>
     within_loss (rq_portfolio_value q) (rq_start_of_day_value q) (rq_daily_loss_pct q) \<and>
     within_loss (rq_portfolio_value q) (rq_peak_value q) (rq_max_drawdown_pct q) \<and>
     (\<forall>s. rd_zscore R (w_redis w) (orders_key (rq_user q))
            (order_member (rq_symbol q) (rq_side q) (rq_qty q)) = Some s \<longrightarrow>
          s \<le> fsub now (of_int (rq_window_seconds q)))"

definition request_member :: "order_request \<Rightarrow> string" where
  "request_member q = order_member (rq_symbol q) (rq_side q) (rq_qty q)"

text \<open>A call either stops before the store is touched, or is decided by the duplicate check
  on the world it was given.\<close>

lemma validate_action_cases:
  assumes "validate_action R now ks q w = (d, w')"
  obtains (early) "\<not> allowed d" "code d \<noteq> Some CODE_DUPLICATE_ORDER" "w_redis w' = w_redis w"
      "logs_rejection (rq_user q) d w w'" "\<not> admissible R now ks q w"
      "(code d = Some CODE_KILL_SWITCH) = (ks \<and> kill_switch_is_active R (rq_user q) w)"
  | (dup) "check_duplicate_order R now (rq_user q) (rq_symbol q) (rq_side q) (rq_qty q)
        (rq_window_seconds q) w = (d, w')"
      "\<not> (ks \<and> kill_switch_is_active R (rq_user q) w)"
      "is_within_limit (rq_proposed_value q) (rq_portfolio_value q) (rq_max_position_pct q)"
      "within_loss (rq_portfolio_value q) (rq_start_of_day_value q) (rq_daily_loss_pct q)"
      "within_loss (rq_portfolio_value q) (rq_peak_value q) (rq_max_drawdown_pct q)"
proof (cases "ks \<and> kill_switch_is_active R (rq_user q) w")
  case True
  let ?r = "reject (rq_user q) CODE_KILL_SWITCH
             (''Kill switch is active '' @ em_dash @ '' all automation blocked.'') [] w"
  have "?r = (d, w')" using assms True by (simp add: validate_action_def)
  then have "d = fst ?r" "w' = snd ?r" by auto
  then show ?thesis
    using True reject_logs by (intro early) (auto simp: admissible_def safety_codes)
next
  case ks: False
  obtain d1 w1 where 1: "validate_position_size (rq_user q) (rq_instrument q) (rq_proposed_value q)
      (rq_portfolio_value q) (rq_max_position_pct q) w = (d1, w1)" by fastforce
  obtain d2 w2 where 2: "check_daily_loss (rq_user q) (rq_portfolio_value q)
      (rq_start_of_day_value q) (rq_daily_loss_pct q) w1 = (d2, w2)" by fastforce
  obtain d3 w3 where 3: "check_max_drawdown (rq_user q) (rq_portfolio_value q)
      (rq_peak_value q) (rq_max_drawdown_pct q) w2 = (d3, w3)" by fastforce
  note p = pure_checks(1)[OF 1] pure_checks(2)[OF 2] pure_checks(3)[OF 3]
  have al: "allowed d1 = is_within_limit (rq_proposed_value q) (rq_portfolio_value q) (rq_max_position_pct q)"
    "allowed d2 = within_loss (rq_portfolio_value q) (rq_start_of_day_value q) (rq_daily_loss_pct q)"
    "allowed d3 = within_loss (rq_portfolio_value q) (rq_peak_value q) (rq_max_drawdown_pct q)"
    using 1 2 3 by (metis fst_conv validate_position_size_allowed check_daily_loss_allowed
        check_max_drawdown_allowed)+
  obtain d4 w4 where 4: "check_duplicate_order R now (rq_user q) (rq_symbol q) (rq_side q)
      (rq_qty q) (rq_window_seconds q) w3 = (d4, w4)" by fastforce
  have d: "(d, w') = (if \<not> allowed d1 then (d1, w1) else if \<not> allowed d2 then (d2, w2)
      else if \<not> allowed d3 then (d3, w3) else if \<not> allowed d4 then (d4, w4) else (allow, w4))"
    using assms ks unfolding validate_action_def 1 prod.case 2 3 4 by (auto split: if_splits)
  show ?thesis
  proof (cases "allowed d1 \<and> allowed d2 \<and> allowed d3")
    case True
    then have w3: "w3 = w" using p by auto
    have "allowed d4 \<longrightarrow> d4 = allow"
      using 4 by (auto simp: check_duplicate_order_def Let_def reject_def split: if_splits prod.splits)
    then have "(d, w') = (d4, w4)" using d True by auto
    then show ?thesis using 4 ks True al unfolding w3 by (intro dup) auto
  next
    case False
    then have "\<not> allowed d \<and> code d \<in> {Some CODE_POSITION_SIZE, Some CODE_DAILY_LOSS, Some CODE_MAX_DRAWDOWN} \<and>
        w_redis w' = w_redis w \<and> logs_rejection (rq_user q) d w w'"
      using d p by (auto split: if_splits)
    moreover have "\<not> admissible R now ks q w" using False al by (auto simp: admissible_def)
    ultimately show ?thesis using ks by (intro early) (auto simp: safety_codes)
  qed
qed

lemma admissible_iff_allowed:
  assumes "redis_zset R"
  shows "allowed (fst (validate_action R now ks q w)) \<longleftrightarrow> admissible R now ks q w"
proof -
  obtain d w' where v: "validate_action R now ks q w = (d, w')" by fastforce
  then show ?thesis
  proof (cases rule: validate_action_cases)
    case early
    then show ?thesis using v by simp
  next
    case dup
    then show ?thesis
      using v check_duplicate_order_spec(1)[OF assms dup(1)] by (auto simp: admissible_def)
  qed
qed

lemma validate_action_scores:
  assumes "redis_zset R" and v: "validate_action R now ks q w = (d, w')"
  obtains "rd_zscore R (w_redis w') = rd_zscore R (w_redis w)" "\<not> allowed d"
  | "\<And>k m. rd_zscore R (w_redis w') k m =
      (if k = orders_key (rq_user q) \<and> m = request_member q \<and> allowed d then Some now
       else case rd_zscore R (w_redis w) k m of None \<Rightarrow> None
         | Some s \<Rightarrow> if k = orders_key (rq_user q) \<and> s \<le> fsub now (of_int (rq_window_seconds q))
                     then None else Some s)"
  using v
proof (cases rule: validate_action_cases)
  case early
  then show ?thesis by (intro that(1)) simp_all
next
  case dup
  then show ?thesis
    using check_duplicate_order_spec(2)[OF assms(1) dup(1)] unfolding request_member_def[symmetric]
    by (intro that(2))
qed

lemma validate_action_logs:
  assumes "redis_zset R" and v: "validate_action R now ks q w = (d, w')"
  shows "if allowed d then d = allow \<and> w_audit w' = w_audit w
         else logs_rejection (rq_user q) d w w'"
  using v
proof (cases rule: validate_action_cases)
  case early
  then show ?thesis by simp
next
  case dup
  then show ?thesis using check_duplicate_order_spec(3)[OF assms(1) dup(1)] by (auto split: if_splits)
qed

section \<open>Runs of the service\<close>

datatype safety_event =
    Validate rat bool order_request
  | Record_order rat uuid string string decimal int
  | Activate uuid
  | Deactivate uuid

fun safety_step :: "'r redis \<Rightarrow> safety_event \<Rightarrow> 'r world \<Rightarrow> decision option \<times> 'r world" where
  "safety_step R (Validate now ks q) w = (case validate_action R now ks q w of (d, w') \<Rightarrow> (Some d, w'))"
| "safety_step R (Record_order now u sb side qty win) w = (None, record_order R now u sb side qty win w)"
| "safety_step R (Activate u) w = (None, snd (kill_switch_activate R u w))"
| "safety_step R (Deactivate u) w = (None, kill_switch_deactivate R u w)"

fun safety_run :: "'r redis \<Rightarrow> safety_event list \<Rightarrow> 'r world \<Rightarrow> decision option list \<times> 'r world" where
  "safety_run R [] w = ([], w)"
| "safety_run R (e # es) w =
     (case safety_step R e w of (d, w1) \<Rightarrow>
      case safety_run R es w1 of (ds, w2) \<Rightarrow> (d # ds, w2))"

lemma safety_run_append:
  "safety_run R (es @ fs) w =
     (case safety_run R es w of (ds, w1) \<Rightarrow>
      case safety_run R fs w1 of (ds', w2) \<Rightarrow> (ds @ ds', w2))"
  by (induction es arbitrary: w) (auto split: prod.splits)

lemma safety_run_length [simp]: "length (fst (safety_run R es w)) = length es"
  by (induction es arbitrary: w) (simp_all add: case_prod_beta)

lemma safety_run_snoc_last:
  "last (fst (safety_run R (es @ [e]) w)) = fst (safety_step R e (snd (safety_run R es w)))"
  by (simp add: safety_run_append case_prod_beta)

subsection \<open>The audit log only grows\<close>

lemma check_duplicate_order_log:
  "\<exists>new. w_audit (snd (check_duplicate_order R now u sb side qty win w)) = w_audit w @ new"
  by (auto simp: check_duplicate_order_def Let_def case_prod_beta)

lemma logs_rejection_appends: "logs_rejection u d w w' \<Longrightarrow> \<exists>new. w_audit w' = w_audit w @ new"
  by (auto simp: logs_rejection_def)

lemma validate_action_log: "\<exists>new. w_audit (snd (validate_action R now ks q w)) = w_audit w @ new"
proof -
  obtain d w' where v: "validate_action R now ks q w = (d, w')" by fastforce
  then show ?thesis
  proof (cases rule: validate_action_cases)
    case early
    then show ?thesis using v logs_rejection_appends by simp
  next
    case dup
    then show ?thesis using v check_duplicate_order_log by (metis snd_conv)
  qed
qed

lemma safety_step_log: "\<exists>new. w_audit (snd (safety_step R e w)) = w_audit w @ new"
  using validate_action_log
  by (cases e) (auto simp: case_prod_beta record_order_def Let_def kill_switch_activate_def
      kill_switch_deactivate_def audit_event_append)

interpretation safety_log: append_only "\<lambda>e w. snd (safety_step R e w)" w_audit for R
  by unfold_locales (rule safety_step_log)

lemma safety_run_world: "snd (safety_run R es w) = safety_log.run R es w"
  by (induction es arbitrary: w) (simp_all add: case_prod_beta)

subsection \<open>The deduplication window\<close>

fun event_time :: "safety_event \<Rightarrow> rat option" where
  "event_time (Validate now ks q) = Some now"
| "event_time (Record_order now u sb side qty win) = Some now"
| "event_time _ = None"

definition event_times :: "safety_event list \<Rightarrow> rat list" where
  "event_times es = concat (map (\<lambda>e. case event_time e of None \<Rightarrow> [] | Some x \<Rightarrow> [x]) es)"

text \<open>The run against the clock: before each event the time since the previous one goes by in the
  store too, so keys expire.\<close>

fun timed_run ::
  "'r redis \<Rightarrow> (rat \<Rightarrow> 'r \<Rightarrow> 'r) \<Rightarrow> rat \<Rightarrow> safety_event list \<Rightarrow> 'r world \<Rightarrow> decision option list \<times> 'r world" where
  "timed_run R pass clock [] w = ([], w)"
| "timed_run R pass clock (e # es) w =
     (let now = (case event_time e of None \<Rightarrow> clock | Some x \<Rightarrow> x) in
      case safety_step R e (w\<lparr>w_redis := pass (now - clock) (w_redis w)\<rparr>) of (d, w1) \<Rightarrow>
      case timed_run R pass now es w1 of (ds, w2) \<Rightarrow> (d # ds, w2))"

text \<open>No call of the user has a shorter window.\<close>

definition covers :: "uuid \<Rightarrow> int \<Rightarrow> safety_event \<Rightarrow> bool" where
  "covers u W e \<longleftrightarrow>
     (case e of Validate now ks q \<Rightarrow> rq_user q = u \<longrightarrow> W \<le> rq_window_seconds q
      | Record_order now v sb side qty win \<Rightarrow> v = u \<longrightarrow> W \<le> win | _ \<Rightarrow> True)"

text \<open>A claim made at \<open>s\<close> or later is in the set, and the set lives on until two windows after \<open>s\<close>.\<close>

definition claim_held ::
  "'r redis \<Rightarrow> ('r \<Rightarrow> string \<Rightarrow> rat option) \<Rightarrow> uuid \<Rightarrow> string \<Rightarrow> rat \<Rightarrow> int \<Rightarrow> rat \<Rightarrow> 'r world \<Rightarrow> bool" where
  "claim_held R ttl u m s W clock w \<longleftrightarrow>
     (\<exists>x. rd_zscore R (w_redis w) (orders_key u) m = Some x \<and> s \<le> x) \<and>
     (\<forall>left. ttl (w_redis w) (orders_key u) = Some left \<longrightarrow> s + of_int (2 * W) \<le> clock + left)"

lemma orders_key_inj [simp]: "orders_key u = orders_key v \<longleftrightarrow> u = v"
  by (simp add: orders_key_def)

lemma orders_key_kill_switch [simp]: "orders_key u \<noteq> kill_switch_key v"
  by (simp add: orders_key_def kill_switch_key_def RECENT_ORDERS_KEY_PREFIX_def KILL_SWITCH_KEY_PREFIX_def)

lemma fsub_mono: "a \<le> b \<Longrightarrow> fsub a c \<le> fsub b c"
  by (simp add: fsub_def fl.rnd_diff_mono)

lemma fsub_window: "w \<le> v \<Longrightarrow> fsub a (of_int v) \<le> fsub a (of_int w)"
  unfolding fsub_def by (intro fl.rnd_mono) simp

text \<open>Inside the window by the code's float subtraction is inside it exactly.\<close>

lemma within_window:
  assumes "\<not> s \<le> fsub t (of_int W)" "f64 s = s"
  shows "t < s + of_int W"
proof (rule ccontr)
  assume "\<not> t < s + of_int W"
  then have "s \<le> fsub t (of_int W)" unfolding fsub_def by (intro fl.rnd_ge assms(2)) simp
  then show False using assms(1) by simp
qed

lemma check_duplicate_order_ttl:
  assumes T: "redis_time R ttl pass" and R: "redis_zset R"
    and c: "check_duplicate_order R now u sb side qty win w = (d, w')"
  shows "k \<noteq> orders_key u \<Longrightarrow> ttl (w_redis w') k = ttl (w_redis w) k"
    and "0 < win \<Longrightarrow> rd_zscore R (w_redis w') (orders_key u) m \<noteq> None \<Longrightarrow>
      ttl (w_redis w') (orders_key u) = Some (of_int (win * 2))"
proof -
  define r where "r = snd (rd_zadd_nx R (rd_zremrangebyscore R (w_redis w) (orders_key u) None
    (fsub now (of_int win))) (orders_key u) (order_member sb side qty) now)"
  have w': "w_redis w' = rd_expire R r (orders_key u) (win * 2) False"
    using arg_cong[OF c, of "w_redis \<circ> snd"] by (simp add: check_duplicate_order_def Let_def r_def case_prod_beta split: if_splits)
  show "ttl (w_redis w') k = ttl (w_redis w) k" if "k \<noteq> orders_key u"
    using that by (simp add: w' r_def redis_ttl_other[OF T])
  show "ttl (w_redis w') (orders_key u) = Some (of_int (win * 2))"
    if "0 < win" "rd_zscore R (w_redis w') (orders_key u) m \<noteq> None"
    unfolding w' by (rule redis_ttl_expire[OF T]) (use that in \<open>simp_all add: w' redis_zscore_expire[OF R]\<close>)
qed

lemma record_order_claim:
  assumes T: "redis_time R ttl pass" and R: "redis_zset R" and o: "record_order R now u sb side qty win w = w'"
  shows "k \<noteq> orders_key u \<Longrightarrow> ttl (w_redis w') k = ttl (w_redis w) k"
    and "0 < win \<Longrightarrow> ttl (w_redis w') (orders_key u) = Some (of_int (win * 2))"
    and "rd_zscore R (w_redis w') k m =
      (if k = orders_key u \<and> m = order_member sb side qty then Some now else rd_zscore R (w_redis w) k m)"
proof -
  define r where "r = rd_zadd R (w_redis w) (orders_key u) (order_member sb side qty) now"
  have w': "w_redis w' = rd_expire R r (orders_key u) (win * 2) False"
    using o by (auto simp: record_order_def r_def Let_def)
  show "ttl (w_redis w') k = ttl (w_redis w) k" if "k \<noteq> orders_key u"
    using that by (simp add: w' r_def redis_ttl_other[OF T])
  show "ttl (w_redis w') (orders_key u) = Some (of_int (win * 2))" if "0 < win"
    unfolding w' by (rule redis_ttl_expire[OF T, where m = "order_member sb side qty"])
      (use that in \<open>simp_all add: r_def redis_zset_simps[OF R]\<close>)
  show "rd_zscore R (w_redis w') k m =
      (if k = orders_key u \<and> m = order_member sb side qty then Some now else rd_zscore R (w_redis w) k m)"
    by (simp add: w' r_def redis_zset_simps[OF R])
qed

lemma pass_claim:
  assumes T: "redis_time R ttl pass" and c: "claim_held R ttl u m s W clock w" and "clock \<le> now" "now < s + of_int W" "0 < W"
  shows "claim_held R ttl u m s W now (w\<lparr>w_redis := pass (now - clock) (w_redis w)\<rparr>)"
proof -
  have d: "0 \<le> now - clock" using assms(3) by simp
  have "now - clock < left" if "ttl (w_redis w) (orders_key u) = Some left" for left
  proof -
    have "s + of_int (2 * W) \<le> clock + left" using c that by (auto simp: claim_held_def)
    moreover have "0 < (of_int W :: rat)" using assms(5) by simp
    ultimately show ?thesis using assms(4) by simp
  qed
  then show ?thesis
    using c by (fastforce simp: claim_held_def redis_pass_zscore[OF T d] redis_pass_ttl[OF T d] split: option.splits)
qed

lemma check_claim:
  assumes T: "redis_time R ttl pass" and R: "redis_zset R" and W: "0 < W"
    and c: "claim_held R ttl u m s W now w" and now: "s \<le> now" "\<not> s \<le> fsub now (of_int W)"
    and win: "v = u \<Longrightarrow> W \<le> win"
    and chk: "check_duplicate_order R now v sb side qty win w = (d, w')"
  shows "claim_held R ttl u m s W now w'"
proof (cases "v = u")
  case False
  then have k: "orders_key u \<noteq> orders_key v" by simp
  have "rd_zscore R (w_redis w') (orders_key u) m = rd_zscore R (w_redis w) (orders_key u) m"
    using False by (simp add: check_duplicate_order_spec(2)[OF R chk] split: option.split)
  then show ?thesis
    using c by (simp add: claim_held_def check_duplicate_order_ttl(1)[OF T R chk k])
next
  case True
  have W2: "W \<le> win" "0 < win" using win[OF True] W by auto
  obtain x where x: "rd_zscore R (w_redis w) (orders_key u) m = Some x" "s \<le> x"
    using c by (auto simp: claim_held_def)
  have "fsub now (of_int win) \<le> fsub now (of_int W)" by (rule fsub_window[OF W2(1)])
  then have "\<not> x \<le> fsub now (of_int win)" using now(2) x(2) by linarith
  then obtain y where y: "rd_zscore R (w_redis w') (orders_key u) m = Some y" "s \<le> y"
    using x now(1) by (cases "m = order_member sb side qty \<and> allowed d")
      (auto simp: check_duplicate_order_spec(2)[OF R chk] True)
  have "ttl (w_redis w') (orders_key u) = Some (of_int (win * 2))"
    using check_duplicate_order_ttl(2)[OF T R chk W2(2), of m] y(1) by (simp add: True)
  moreover have "(of_int W :: rat) \<le> of_int win" using W2(1) by simp
  ultimately show ?thesis using y now(1) by (auto simp: claim_held_def)
qed

lemma safety_step_claim:
  assumes T: "redis_time R ttl pass" and R: "redis_zset R" "redis_disjoint R" and W: "0 < W"
    and c: "claim_held R ttl u m s W now w" and now: "s \<le> now" "\<not> s \<le> fsub now (of_int W)"
    and e: "event_time e \<in> {None, Some now}" "covers u W e"
  shows "claim_held R ttl u m s W now (snd (safety_step R e w))"
proof (cases e)
  case (Validate x ks q)
  obtain d w' where v: "validate_action R x ks q w = (d, w')" by fastforce
  have x: "x = now" using e(1) by (simp add: Validate)
  have "claim_held R ttl u m s W now w'" using v[unfolded x]
  proof (cases rule: validate_action_cases)
    case early
    then show ?thesis using c by (simp add: claim_held_def)
  next
    case dup
    then show ?thesis using e(2) by (intro check_claim[OF T R(1) W c now _ dup(1)]) (auto simp: covers_def Validate)
  qed
  then show ?thesis by (simp add: Validate v)
next
  case (Record_order x v sb side qty win)
  have x: "x = now" using e(1) by (simp add: Record_order)
  note r = record_order_claim[OF T R(1) refl, where u = v and now = now and sb = sb and side = side and qty = qty and win = win and w = w]
  show ?thesis
  proof (cases "v = u")
    case True
    have W2: "W \<le> win" "0 < win" using e(2) W by (auto simp: covers_def Record_order True)
    have "(of_int W :: rat) \<le> of_int win" using W2(1) by simp
    then show ?thesis using c now(1) r(2)[OF W2(2)] r(3)[where k = "orders_key u"]
      by (auto simp: claim_held_def Record_order True x)
  next
    case False
    then show ?thesis using c r(1)[where k = "orders_key u"] r(3)[where k = "orders_key u"]
      by (simp add: claim_held_def Record_order x)
  qed
next
  case (Activate v)
  then show ?thesis
    using c by (simp add: claim_held_def kill_switch_activate_def redis_disjointD(4)[OF R(2)] redis_ttl_other(5)[OF T])
next
  case (Deactivate v)
  then show ?thesis
    using c by (simp add: claim_held_def kill_switch_deactivate_def redis_disjointD(5)[OF R(2)] redis_ttl_other(6)[OF T])
qed

lemma timed_run_length [simp]: "length (fst (timed_run R pass clock es w)) = length es"
  by (induction es arbitrary: clock w) (simp_all add: case_prod_beta Let_def)

lemma timed_run_rejects:
  assumes T: "redis_time R ttl pass" and R: "redis_zset R" "redis_disjoint R"
    and W: "0 < rq_window_seconds q" and s: "f64 s = s" and t: "\<not> s \<le> fsub t (of_int (rq_window_seconds q))"
  shows "claim_held R ttl (rq_user q) (request_member q) s (rq_window_seconds q) clock w \<Longrightarrow> s \<le> clock \<Longrightarrow>
    sorted (clock # event_times (es @ [Validate t k q])) \<Longrightarrow>
    \<forall>e \<in> set es. covers (rq_user q) (rq_window_seconds q) e \<Longrightarrow>
    last (fst (timed_run R pass clock (es @ [Validate t k q]) w)) = Some d \<Longrightarrow> \<not> allowed d"
proof (induction es arbitrary: clock w)
  case Nil
  let ?w = "w\<lparr>w_redis := pass (t - clock) (w_redis w)\<rparr>"
  have t': "clock \<le> t" "t < s + of_int (rq_window_seconds q)"
    using Nil.prems(3) within_window[OF t s] by (auto simp: event_times_def)
  have "claim_held R ttl (rq_user q) (request_member q) s (rq_window_seconds q) t ?w"
    by (rule pass_claim[OF T Nil.prems(1) t' W])
  then have "\<not> admissible R t k q ?w" using t by (force simp: claim_held_def admissible_def request_member_def)
  moreover have "d = fst (validate_action R t k q ?w)" using Nil.prems(5) by (simp add: case_prod_beta)
  ultimately show ?case using admissible_iff_allowed[OF R(1)] by blast
next
  case (Cons e es)
  let ?W = "rq_window_seconds q"
  define now where "now = (case event_time e of None \<Rightarrow> clock | Some x \<Rightarrow> x)"
  let ?w = "w\<lparr>w_redis := pass (now - clock) (w_redis w)\<rparr>"
  have now: "clock \<le> now" "event_time e \<in> {None, Some now}" "sorted (now # event_times (es @ [Validate t k q]))"
    using Cons.prems(3) by (auto simp: now_def event_times_def split: option.splits)
  have "now \<le> t" using now(3) by (auto simp: event_times_def)
  then have "fsub now (of_int ?W) \<le> fsub t (of_int ?W)" and "now < s + of_int ?W"
    using fsub_mono within_window[OF t s] by auto
  then have late: "\<not> s \<le> fsub now (of_int ?W)" "now < s + of_int ?W" using t by linarith+
  have sn: "s \<le> now" using Cons.prems(2) now(1) by linarith
  have "claim_held R ttl (rq_user q) (request_member q) s ?W now ?w"
    by (rule pass_claim[OF T Cons.prems(1) now(1) late(2) W])
  then have "claim_held R ttl (rq_user q) (request_member q) s ?W now (snd (safety_step R e ?w))"
    using Cons.prems(4) by (intro safety_step_claim[OF T R W _ sn late(1) now(2)]) auto
  moreover have "fst (timed_run R pass now (es @ [Validate t k q]) z) \<noteq> []" for z
    using timed_run_length[of R pass now "es @ [Validate t k q]" z] by (cases "fst (timed_run R pass now (es @ [Validate t k q]) z)") simp_all
  ultimately show ?case
    using Cons.prems(4,5) by (intro Cons.IH[OF _ sn now(3)]) (auto simp: Let_def case_prod_beta simp flip: now_def)
qed

subsection \<open>The kill switch across a run\<close>

lemma kill_switch_key_inj [simp]: "kill_switch_key u = kill_switch_key v \<longleftrightarrow> u = v"
  by (simp add: kill_switch_key_def)

lemma check_duplicate_order_get:
  assumes "redis_kv R" "redis_disjoint R" "k \<noteq> orders_key u"
  shows "rd_get R (w_redis (snd (check_duplicate_order R now u sb side qty win w))) k
       = rd_get R (w_redis w) k"
  using redis_disjointD[OF assms(2,3)]
  by (simp add: check_duplicate_order_def Let_def case_prod_beta redis_get_expire[OF assms(1)])

lemma validate_action_switch:
  assumes "redis_kv R" "redis_disjoint R"
  shows "kill_switch_is_active R v (snd (validate_action R now ks q w)) = kill_switch_is_active R v w"
proof -
  obtain d w' where a: "validate_action R now ks q w = (d, w')" by fastforce
  then show ?thesis
  proof (cases rule: validate_action_cases)
    case early
    then show ?thesis by (simp add: a kill_switch_is_active_def)
  next
    case dup
    have k: "kill_switch_key v \<noteq> orders_key (rq_user q)" by (metis orders_key_kill_switch)
    show ?thesis using check_duplicate_order_get[OF assms k, where w = w] dup(1) a
      by (simp add: kill_switch_is_active_def) (metis snd_conv)
  qed
qed

lemma safety_step_switch:
  assumes "redis_kv R" "redis_disjoint R" "e \<noteq> Deactivate u" "kill_switch_is_active R u w"
  shows "kill_switch_is_active R u (snd (safety_step R e w))"
proof (cases e)
  case (Validate now ks q)
  then show ?thesis
    using validate_action_switch[OF assms(1,2)] assms(4) by (simp add: case_prod_beta)
next
  case (Record_order now v sb side qty win)
  have k: "kill_switch_key u \<noteq> orders_key v" by (metis orders_key_kill_switch)
  show ?thesis using assms(4) redis_disjointD(2)[OF assms(2) k]
    by (simp add: Record_order record_order_def Let_def kill_switch_is_active_def
        redis_get_expire[OF assms(1)])
qed (use assms(3,4) in \<open>simp_all add: kill_switch_flags[OF assms(1)]\<close>)

lemma safety_run_switch:
  assumes "redis_kv R" "redis_disjoint R" "Deactivate u \<notin> set es" "kill_switch_is_active R u w"
  shows "kill_switch_is_active R u (snd (safety_run R es w))"
  using assms(3,4)
proof (induction es arbitrary: w)
  case (Cons e es)
  have "kill_switch_is_active R u (snd (safety_step R e w))"
    using Cons.prems by (intro safety_step_switch[OF assms(1,2)]) auto
  then have "kill_switch_is_active R u (snd (safety_run R es (snd (safety_step R e w))))"
    using Cons.prems by (intro Cons.IH) auto
  then show ?case by (simp add: case_prod_beta)
qed simp

section \<open>Properties\<close>

text \<open>C1. \<open>validate_action\<close> allows an order exactly when it is admissible: no active kill
  switch, position value within the limit, daily loss and drawdown below their limits and no
  claim of the same order younger than the deduplication window; an allowed decision has no
  code, and the kill switch takes precedence over every other rejection.\<close>

theorem validate_action_decides:
  assumes "redis_zset R"
  shows "(allowed (fst (validate_action R now ks q w)) \<longleftrightarrow> admissible R now ks q w) \<and>
    (admissible R now ks q w \<longrightarrow> fst (validate_action R now ks q w) = allow) \<and>
    (code (fst (validate_action R now ks q w)) = Some CODE_KILL_SWITCH \<longleftrightarrow>
       ks \<and> kill_switch_is_active R (rq_user q) w)"
proof -
  obtain d w' where v: "validate_action R now ks q w = (d, w')" by fastforce
  have "code d = Some CODE_KILL_SWITCH \<longleftrightarrow> ks \<and> kill_switch_is_active R (rq_user q) w"
    using v
  proof (cases rule: validate_action_cases)
    case dup
    then show ?thesis
      using check_duplicate_order_spec(3)[OF assms dup(1)] by (auto simp: safety_codes split: if_splits)
  qed simp
  then show ?thesis
    using admissible_iff_allowed[OF assms, of now ks q w] validate_action_logs[OF assms v] v by auto
qed

text \<open>The effect of a call: a rejected order appends exactly one audit row, which carries
  the user, the event type, the code and the reason of the returned decision, and unless it
  is a duplicate leaves the Redis store untouched; an allowed order writes no row and leaves
  its claim scored with the current time.\<close>

theorem validate_action_effect:
  assumes "redis_zset R" and v: "validate_action R now ks q w = (d, w')"
  shows "if allowed d
    then w_audit w' = w_audit w \<and>
         rd_zscore R (w_redis w') (orders_key (rq_user q)) (request_member q) = Some now
    else logs_rejection (rq_user q) d w w' \<and>
         (code d \<noteq> Some CODE_DUPLICATE_ORDER \<longrightarrow> w_redis w' = w_redis w)"
  using v
proof (cases rule: validate_action_cases)
  case dup
  then show ?thesis
    using check_duplicate_order_spec(2,3)[OF assms(1) dup(1)] unfolding request_member_def
    by (auto split: if_splits)
qed simp

text \<open>C2. Deduplication window. In a run against the clock, in which Redis drops a user's set when
  its time to live is up, two equal orders of a user are both allowed only if the later
  call finds the earlier claim outside its window: as long as no call of the user in between, the
  first one included, comes with a shorter window, neither trimming nor the expiry of the key,
  which every call puts two of its windows ahead, loses a claim early. Times are floats.\<close>

theorem no_duplicate_within_window:
  assumes "redis_zset R" "redis_disjoint R" "redis_time R ttl pass"
    and same: "rq_user q = rq_user p" "rq_symbol q = rq_symbol p" "rq_side q = rq_side p"
      "rq_qty q = rq_qty p"
    and order: "sorted (clock # event_times (Validate s k1 p # es @ [Validate t k2 q]))"
    and windows: "\<forall>e \<in> set (Validate s k1 p # es). covers (rq_user q) (rq_window_seconds q) e"
    and "f64 s = s"
    and run: "fst (timed_run R pass clock (Validate s k1 p # es @ [Validate t k2 q]) w) = ds"
    and first: "hd ds = Some d1" "allowed d1" and last: "last ds = Some d2" "allowed d2"
  shows "s \<le> fsub t (of_int (rq_window_seconds q))"
proof (rule ccontr)
  let ?W = "rq_window_seconds q" and ?u = "rq_user q" and ?m = "request_member q"
  let ?w = "w\<lparr>w_redis := pass (s - clock) (w_redis w)\<rparr>"
  assume t: "\<not> s \<le> fsub t (of_int ?W)"
  have st: "sorted (s # event_times (es @ [Validate t k2 q]))" "s \<le> t"
    using order by (auto simp: event_times_def)
  have W: "0 < ?W" using within_window[OF t assms(10)] st(2) by (simp flip: of_int_0_less_iff)
  have Wp: "?W \<le> rq_window_seconds p" using windows same(1) by (simp add: covers_def)
  obtain w1 where 1: "validate_action R s k1 p ?w = (d1, w1)"
    using run first by (cases "validate_action R s k1 p ?w") (auto simp: case_prod_beta Let_def)
  have m: "request_member p = ?m" using same by (simp add: request_member_def)
  have z: "rd_zscore R (w_redis w1) (orders_key ?u) ?m = Some s"
    using validate_action_effect[OF assms(1) 1] first same m by auto
  have "ttl (w_redis w1) (orders_key ?u) = Some (of_int (rq_window_seconds p * 2))" using 1
  proof (cases rule: validate_action_cases)
    case early
    then show ?thesis using first by simp
  next
    case dup
    show ?thesis
      using check_duplicate_order_ttl(2)[OF assms(3,1) dup(1), of ?m] z W Wp same by simp
  qed
  moreover have "(of_int ?W :: rat) \<le> of_int (rq_window_seconds p)" using Wp by simp
  ultimately have "claim_held R ttl ?u ?m s ?W s w1" using z by (simp add: claim_held_def)
  moreover have "last (fst (timed_run R pass s (es @ [Validate t k2 q]) w1)) = Some d2"
  proof -
    have "fst (timed_run R pass s (es @ [Validate t k2 q]) w1) \<noteq> []"
      using timed_run_length[of R pass s "es @ [Validate t k2 q]" w1]
      by (cases "fst (timed_run R pass s (es @ [Validate t k2 q]) w1)") simp_all
    then show ?thesis using run last(1) 1 by (auto simp: Let_def case_prod_beta)
  qed
  ultimately have "\<not> allowed d2"
    using windows by (intro timed_run_rejects[OF assms(3,1,2) W assms(10) t _ order_refl st(1)]) auto
  then show False using last by simp
qed

text \<open>C3. Once a user's kill switch is on, every guarded validation of that user is rejected
  with the kill-switch code and leaves the store untouched, until the switch is turned off,
  whatever other events run in between.\<close>

theorem kill_switch_blocks:
  assumes "redis_kv R" "redis_disjoint R" and u: "rq_user q = u"
    and off: "Deactivate u \<notin> set es" and w': "w' = snd (safety_run R (Activate u # es) w)"
  shows "code (fst (validate_action R now True q w')) = Some CODE_KILL_SWITCH \<and>
    \<not> allowed (fst (validate_action R now True q w')) \<and>
    w_redis (snd (validate_action R now True q w')) = w_redis w'"
proof -
  have "kill_switch_is_active R u (snd (kill_switch_activate R u w))"
    by (simp add: kill_switch_flags[OF assms(1)])
  then have "kill_switch_is_active R u w'"
    using safety_run_switch[OF assms(1,2) off] by (simp add: w' case_prod_beta)
  then show ?thesis by (simp add: validate_action_def u)
qed

text \<open>The audit log is append-only under every run of the service: a row keeps its
  position and content.\<close>

theorem safety_audit_immutable:
  assumes "i < length (w_audit w)"
  shows "w_audit (snd (safety_run R es w)) ! i = w_audit w ! i"
  using safety_log.run_keeps_row[OF assms] by (simp add: safety_run_world)

subsection \<open>Sizes and limits\<close>

lemma quantize_down_greatest:
  assumes "quantize_with round_down n x = Some q" "0 \<le> x" "of_int k / 10 ^ n \<le> x"
  shows "of_int k / 10 ^ n \<le> q"
proof -
  have "of_int k \<le> x * 10 ^ n" using assms(3) by (simp add: divide_le_eq)
  then have "k \<le> \<lfloor>x * 10 ^ n\<rfloor>" by (simp add: le_floor_iff)
  moreover have "q = of_int \<lfloor>x * 10 ^ n\<rfloor> / 10 ^ n"
    using assms(1,2) by (auto simp: quantize_with_def round_down_def Let_def split: if_splits)
  ultimately show ?thesis by (simp add: divide_right_mono)
qed

lemma raw_quantity_bounds:
  assumes "1 / 10 ^ 20 \<le> L" "0 < price" "price \<le> 10 ^ 20"
  defines "e \<equiv> 1 / 10 ^ 27 :: rat"
  shows "ddiv (d28 L) price * price \<le> L * (1 + 3 * e)"
    and "L * (1 - 2 * e) \<le> ddiv (d28 L) price * price"
proof -
  have e: "0 < e" "e < 1 / 2" by (simp_all add: e_def)
  have "(1 :: rat) / 10 ^ 100 \<le> 1 / 10 ^ 20" by (intro divide_left_mono power_increasing) simp_all
  then have L: "1 / 10 ^ 100 \<le> L" using assms(1) by (rule order_trans)
  note d = d28_error[OF L, folded e_def]
  have L0: "0 < L" using d28_pos[OF L] by simp
  have "(1 / 10 ^ 20) * (1 / 2) \<le> L * (1 - e)" using assms(1) e by (intro mult_mono) simp_all
  then have d20: "(1 / 10 ^ 20) * (1 / 2) \<le> d28 L" using d(2) by (rule order_trans)
  have "(1 :: rat) / 10 ^ 100 \<le> (1 / 10 ^ 20) * (1 / 2) / 10 ^ 20" by simp
  also have "\<dots> \<le> d28 L / price" using d20 assms(2,3) by (intro frac_le) auto
  finally have q: "1 / 10 ^ 100 \<le> d28 L / price" .
  note d' = d28_error[OF q, folded e_def ddiv_def]
  have "ddiv (d28 L) price * price \<le> d28 L / price * (1 + e) * price"
    using d'(1) assms(2) by (intro mult_right_mono) simp_all
  also have "\<dots> = d28 L * (1 + e)" using assms(2) by simp
  also have "\<dots> \<le> L * (1 + e) * (1 + e)" using d(1) e by (intro mult_right_mono) simp_all
  also have "\<dots> \<le> L * (1 + 3 * e)"
  proof -
    have "e * e \<le> 1 * e" using e by (intro mult_right_mono) simp_all
    then have "(1 + e) * (1 + e) \<le> 1 + 3 * e" by (simp add: algebra_simps)
    then show ?thesis using L0 by (simp add: mult.assoc)
  qed
  finally show "ddiv (d28 L) price * price \<le> L * (1 + 3 * e)" .
  have "L * (1 - 2 * e) \<le> L * ((1 - e) * (1 - e))"
    using L0 e by (intro mult_left_mono) (simp_all add: algebra_simps)
  also have "\<dots> \<le> d28 L * (1 - e)" using d(2) e by (simp add: mult.assoc[symmetric])
  also have "\<dots> = d28 L / price * (1 - e) * price" using assms(2) by simp
  also have "\<dots> \<le> ddiv (d28 L) price * price"
    using d'(2) assms(2) by (intro mult_right_mono) simp_all
  finally show "L * (1 - 2 * e) \<le> ddiv (d28 L) price * price" .
qed

text \<open>\<open>max_allowed_qty\<close> is sound and greatest up to the 28-digit rounding: the quantity it
  returns is not negative and is worth at most \<open>portfolio_value * max_pct\<close> (relative slack
  3e-27), and every eight-decimal quantity worth at most that amount (less 2e-27) is no
  larger.\<close>

theorem max_allowed_qty_bounds:
  assumes "max_allowed_qty pv price pct = Some q" "0 < price" "price \<le> 10 ^ 20"
    and "1 / 10 ^ 20 \<le> pv * pct"
  shows "0 \<le> q \<and> q * price \<le> pv * pct * (1 + 3 * (1 / 10 ^ 27)) \<and>
    (of_int k / 10 ^ 8 * price \<le> pv * pct * (1 - 2 * (1 / 10 ^ 27)) \<longrightarrow> of_int k / 10 ^ 8 \<le> q)"
proof -
  let ?x = "ddiv (d28 (pv * pct)) price"
  note b = raw_quantity_bounds[OF assms(4,2,3)]
  have q: "quantize_with round_down 8 ?x = Some q"
    using assms(1,2) by (simp add: max_allowed_qty_def dmul_def)
  have "(0 :: rat) \<le> 1 / 10 ^ 20" by simp
  then have L0: "0 \<le> pv * pct" using assms(4) by (rule order_trans)
  then have "0 \<le> d28 (pv * pct)" by (rule dc.rnd_nonneg)
  then have x0: "0 \<le> ?x" using assms(2) by (simp add: ddiv_def dc.rnd_nonneg)
  have "q * price \<le> ?x * price"
    using quantize_down_le[OF q x0] assms(2) by (intro mult_right_mono) simp_all
  then have hi: "q * price \<le> pv * pct * (1 + 3 * (1 / 10 ^ 27))" using b(1) by (rule order_trans)
  have "of_int k / 10 ^ 8 \<le> q" if "of_int k / 10 ^ 8 * price \<le> pv * pct * (1 - 2 * (1 / 10 ^ 27))"
  proof -
    have "of_int k / 10 ^ 8 * price \<le> ?x * price" using that b(2) by (rule order_trans)
    then have "of_int k / 10 ^ 8 \<le> ?x" using assms(2) by (simp only: mult_le_cancel_right_pos)
    then show ?thesis by (rule quantize_down_greatest[OF q x0])
  qed
  then show ?thesis using quantize_down_le[OF q x0] hi by simp
qed

lemma within_loss_threshold:
  assumes "0 < ref" "d28 (ref - cur) = ref - cur" "d28 l = l" "1 / 100 \<le> l"
  shows "l * ref \<le> ref - cur \<Longrightarrow> \<not> within_loss cur ref l"
    and "\<not> within_loss cur ref l \<Longrightarrow> l * ref \<le> (ref - cur) * (1 + 1 / 10 ^ 27)"
proof -
  show "\<not> within_loss cur ref l" if b: "l * ref \<le> ref - cur"
  proof -
    have "0 < l * ref" using assms(1,4) by (intro mult_pos_pos) auto
    then have pos: "0 < ref - cur" using b by linarith
    have "l \<le> (ref - cur) / ref" using b assms(1) by (simp add: le_divide_eq)
    then have "l \<le> d28 ((ref - cur) / ref)" using assms(3) by (rule dc.rnd_ge)
    then show ?thesis using assms(1,2) pos by (simp add: within_loss_def decimal_ops)
  qed
  show "l * ref \<le> (ref - cur) * (1 + 1 / 10 ^ 27)" if n: "\<not> within_loss cur ref l"
  proof -
    let ?r = "(ref - cur) / ref"
    have l: "l \<le> d28 ?r" using n assms(2) by (auto simp: within_loss_def decimal_ops)
    have "1 / 10 ^ 100 \<le> ?r"
    proof (rule ccontr)
      assume "\<not> 1 / 10 ^ 100 \<le> ?r"
      then have "d28 ?r \<le> d28 (1 / 10 ^ 100)" by (intro dc.rnd_mono) simp
      also have "\<dots> \<le> 1 / 10 ^ 100 * (1 + 1 / 10 ^ 27)" by (rule d28_error) simp
      also have "\<dots> < 1 / 100" by simp
      finally show False using l assms(4) by linarith
    qed
    then have "d28 ?r \<le> ?r * (1 + 1 / 10 ^ 27)" by (rule d28_error(1))
    with l have "l \<le> ?r * (1 + 1 / 10 ^ 27)" by (rule order_trans)
    then have "l * ref \<le> ?r * (1 + 1 / 10 ^ 27) * ref" using assms(1) by (intro mult_right_mono) simp_all
    then show ?thesis using assms(1) by simp
  qed
qed

text \<open>The daily-loss and the drawdown check trip at their limit: with a limit the
  configuration accepts, a fall of at least \<open>limit * reference\<close> is rejected, and a rejection
  means a fall of at least that amount up to a relative 1e-27.\<close>

theorem loss_checks_threshold:
  assumes "0 < ref" "d28 (ref - cur) = ref - cur" "d28 l = l" "1 / 100 \<le> l"
    and d: "d \<in> {fst (check_daily_loss u cur ref l w), fst (check_max_drawdown u cur ref l w)}"
  shows "(l * ref \<le> ref - cur \<longrightarrow> \<not> allowed d) \<and>
    (\<not> allowed d \<longrightarrow> l * ref \<le> (ref - cur) * (1 + 1 / 10 ^ 27))"
proof -
  have "allowed d = within_loss cur ref l"
    using d by (auto simp: check_daily_loss_allowed check_max_drawdown_allowed)
  then show ?thesis using within_loss_threshold[OF assms(1-4)] by blast
qed

text \<open>The duplicate check compares the printed quantity: an order whose quantity has the
  same value but another text (1.0 after 1) is not recognised as a duplicate, however short the
  time between the two.\<close>

theorem duplicate_check_by_text:
  assumes "redis_zset R" and "dec_str q2 \<noteq> dec_str q1"
    and "rd_zscore R (w_redis w) (orders_key u) (order_member sb side q2) = None"
    and "check_duplicate_order R now u sb side q1 win w = (d1, w1)"
  shows "allowed (fst (check_duplicate_order R now' u sb side q2 win w1))"
proof -
  obtain d2 w2 where 2: "check_duplicate_order R now' u sb side q2 win w1 = (d2, w2)" by fastforce
  have m: "order_member sb side q2 \<noteq> order_member sb side q1" using assms(2) by (simp add: order_member_def)
  then have "rd_zscore R (w_redis w1) (orders_key u) (order_member sb side q2) = None"
    using check_duplicate_order_spec(2)[OF assms(1,4), of "orders_key u" "order_member sb side q2"] assms(3)
    by simp
  then show ?thesis using check_duplicate_order_spec(1)[OF assms(1) 2] 2 by simp
qed

text \<open>What a stored configuration can hold: a daily-loss limit of at least 1%, a drawdown
  limit of at least 5%, a position size of at most 25%, and nothing else; in particular a
  negative position size is accepted, with which no order of positive value passes.\<close>

theorem safety_limits_range:
  "(\<exists>c. safety_limits_of dl dd mp = Inr c) = (1 / 100 \<le> dl \<and> 5 / 100 \<le> dd \<and> mp \<le> 25 / 100) \<and>
   (\<exists>c. safety_limits_of (2 / 100) (10 / 100) (- 5) = Inr c \<and>
      \<not> is_within_limit 1 10000 (max_position_size_pct c))"
proof -
  have "d28 (of_int (- 50000)) = (of_int (- 50000) :: rat)" by (rule dc.rnd_of_int) simp
  then have "\<not> is_within_limit 1 10000 (- 5)" by (simp add: is_within_limit_def dmul_def)
  then show ?thesis by (auto simp: safety_limits_of_Inr)
qed

section \<open>Evaluations\<close>

definition order_at :: "int \<Rightarrow> order_request" where
  "order_at W = \<lparr>rq_user = ''u'', rq_instrument = ''i'', rq_symbol = ''AAPL'', rq_side = ''buy'',
     rq_qty = Dec 10 0, rq_proposed_value = 500, rq_portfolio_value = 10000,
     rq_start_of_day_value = 10000, rq_peak_value = 10000, rq_max_position_pct = 1 / 10,
     rq_daily_loss_pct = 3 / 100, rq_max_drawdown_pct = 1 / 10, rq_window_seconds = W\<rparr>"

definition quiet_world :: "mem world" where
  "quiet_world = \<lparr>w_redis = mem_empty, w_audit = []\<rparr>"

lemma validate_action_decides_witness:
  "allowed (fst (validate_action mem_redis 1000 True (order_at 60) quiet_world)) \<and>
   admissible mem_redis 1000 True (order_at 60) quiet_world"
proof -
  have "allowed (fst (validate_action mem_redis 1000 True (order_at 60) quiet_world))"
    by code_simp
  then show ?thesis
    using validate_action_decides[OF mem_redis_zset, of 1000 True "order_at 60" quiet_world] by blast
qed

lemma validate_action_effect_witness:
  "let (d, w') = validate_action mem_redis 1000 True (order_at 60) quiet_world
   in allowed d \<and> w_audit w' = [] \<and>
      rd_zscore mem_redis (w_redis w') ''safety:recent_orders:u'' ''AAPL|buy|10'' = Some 1000"
proof -
  let ?v = "validate_action mem_redis 1000 True (order_at 60) quiet_world"
  have a: "allowed (fst ?v)" by code_simp
  have k: "orders_key (rq_user (order_at 60)) = ''safety:recent_orders:u''" by code_simp
  have m: "request_member (order_at 60) = ''AAPL|buy|10''" by code_simp
  have "?v = (fst ?v, snd ?v)" by simp
  from validate_action_effect[OF mem_redis_zset this] a k m show ?thesis
    by (simp add: case_prod_beta quiet_world_def)
qed

text \<open>The second order comes when the window is over but the key has not yet expired.\<close>

definition quiet_timed :: "mem timed world" where
  "quiet_timed = \<lparr>w_redis = (mem_empty, \<lambda>_. None), w_audit = []\<rparr>"

lemma no_duplicate_within_window_witness:
  "map (map_option allowed) (fst (timed_run (with_ttl mem_redis) mem_pass 990
     [Validate 1000 True (order_at 60), Activate ''v'', Validate 1100 True (order_at 60)] quiet_timed))
     = [Some True, None, Some True] \<and> 1000 \<le> fsub 1100 60"
proof -
  let ?R = "with_ttl mem_redis" and ?o = "order_at 60"
  let ?es = "Validate 1000 True ?o # [Activate ''v''] @ [Validate 1100 True ?o]"
  define ds where "ds = fst (timed_run ?R mem_pass 990 ?es quiet_timed)"
  have m: "map (map_option allowed) ds = [Some True, None, Some True]"
    unfolding ds_def by code_simp
  then obtain d1 d2 where ds: "ds = [Some d1, None, Some d2]" "allowed d1" "allowed d2"
    by (auto simp: map_eq_Cons_conv)
  have f: "f64 1000 = 1000" by (rule fl.rnd_numeral) simp
  have "1000 \<le> fsub 1100 (of_int (rq_window_seconds ?o))"
    by (rule no_duplicate_within_window[OF with_ttl_zset[OF mem_redis_zset] with_ttl_disjoint[OF mem_redis_disjoint]
          mem_redis_time refl refl refl refl _ _ f ds_def[symmetric], of d1 d2])
      (simp_all add: ds event_times_def covers_def)
  then show ?thesis using m by (simp add: ds_def order_at_def)
qed

text \<open>The hypothesis on the windows is needed: a claim made with a window of ten seconds is gone after
  twenty, so a call with a window of sixty finds nothing.\<close>

lemma shorter_window_expires:
  "map (map_option allowed) (fst (timed_run (with_ttl mem_redis) mem_pass 990
     [Validate 1000 True (order_at 10), Validate 1030 True (order_at 60)] quiet_timed)) = [Some True, Some True]"
  by code_simp

lemma kill_switch_blocks_witness:
  "code (fst (validate_action mem_redis 5 True (order_at 60)
     (snd (kill_switch_activate mem_redis ''u'' quiet_world)))) = Some ''kill_switch_active''"
  using kill_switch_blocks[OF mem_redis_kv mem_redis_disjoint, of "order_at 60" "''u''" "[]"
      "snd (kill_switch_activate mem_redis ''u'' quiet_world)" quiet_world 5]
  by (simp add: order_at_def CODE_KILL_SWITCH_def)

lemma safety_audit_immutable_witness:
  "w_audit (snd (safety_run mem_redis [Activate ''v'', Deactivate ''u'']
     (snd (kill_switch_activate mem_redis ''u'' quiet_world)))) ! 0 =
   audit_entry ''safety.kill_switch_activated'' (Some ''u'') [(''active'', JBool True)]"
  by (subst safety_audit_immutable)
    (simp_all add: kill_switch_activate_def quiet_world_def audit_event_append EVENT_KILL_SWITCH_ACTIVATED_def)

lemma max_allowed_qty_bounds_witness:
  "(100 / 3 - 1 / 10 ^ 8 :: rat) * 3 \<le> 100 * (1 + 3 * (1 / 10 ^ 27)) \<and>
   max_allowed_qty 1000 3 (1 / 10) = Some (3333333333 / 10 ^ 8)"
proof -
  have q: "max_allowed_qty 1000 3 (1 / 10) = Some (3333333333 / 10 ^ 8)" by code_simp
  have "(3333333333 / 10 ^ 8 :: rat) * 3 \<le> 1000 * (1 / 10) * (1 + 3 * (1 / 10 ^ 27))"
    using max_allowed_qty_bounds[OF q] by simp
  then show ?thesis using q by simp
qed

lemma loss_checks_threshold_witness:
  "\<not> allowed (fst (check_daily_loss ''u'' 9800 10000 (2 / 100) quiet_world))"
proof -
  have "d28 (10000 - 9800) = (10000 - 9800 :: rat)" "d28 (2 / 100) = 2 / 100" by code_simp+
  then show ?thesis
    using loss_checks_threshold[of 10000 9800 "2 / 100"
        "fst (check_daily_loss ''u'' 9800 10000 (2 / 100) quiet_world)" "''u''" quiet_world]
    by simp
qed

lemma duplicate_check_by_text_witness:
  "dec_val (Dec 10 (-1)) = dec_val (Dec 1 0) \<and>
   allowed (fst (check_duplicate_order mem_redis 1001 ''u'' ''AAPL'' ''buy'' (Dec 10 (-1)) 60
     (snd (check_duplicate_order mem_redis 1000 ''u'' ''AAPL'' ''buy'' (Dec 1 0) 60 quiet_world))))"
proof -
  have "dec_str (Dec 10 (-1)) \<noteq> dec_str (Dec 1 0)" by code_simp
  moreover have "rd_zscore mem_redis (w_redis quiet_world) k m = None" for k m
    by (simp add: quiet_world_def mem_redis_eval)
  moreover have "dec_val (Dec 10 (-1)) = dec_val (Dec 1 0)" by (simp add: dec_val_def power_int_def)
  ultimately show ?thesis
    by (intro conjI duplicate_check_by_text[OF mem_redis_zset _ _ prod.collapse[symmetric]]) simp_all
qed

end
