(* ===== verification/Jwt.thy ===== *)
theory Jwt
  imports PyText
begin

text \<open>
  Access tokens: \<open>auth/jwt.py\<close>. Signing and verifying (\<open>jose\<close>), the file system and the
  clock are parameters; the two key caches are state. A signed token is opaque text.
\<close>

section \<open>Settings and library functions\<close>

record settings =
  jwt_algorithm :: string
  jwt_kid :: string
  jwt_private_key_path :: "string option"
  jwt_public_key_path :: "string option"
  jwt_private_key_pem :: "string option"
  jwt_public_key_pem :: "string option"
  jwt_issuer :: string
  jwt_audience :: string
  access_token_expires_minutes :: int
  refresh_token_expires_days :: int
  default_user_tier :: string
  default_base_currency :: string
  password_reset_token_expires_minutes :: int
  password_reset_rate_limit_max :: int
  password_reset_rate_limit_window_seconds :: int

type_synonym claims = "(string \<times> json) list"

text \<open>\<open>jw_encode claims key algorithm kid\<close>, \<open>jw_decode token key algorithm audience issuer now\<close>
  with the message of a \<open>JWTError\<close> on the left, \<open>jw_file\<close> the text of a file, and \<open>jw_repr\<close>
  Python's \<open>str\<close> of a float or a container.\<close>

record jwt_lib =
  jw_encode :: "claims \<Rightarrow> string \<Rightarrow> string \<Rightarrow> string \<Rightarrow> string"
  jw_decode :: "string \<Rightarrow> string \<Rightarrow> string \<Rightarrow> string \<Rightarrow> string \<Rightarrow> instant \<Rightarrow> string + json"
  jw_file :: "string \<Rightarrow> string option"
  jw_repr :: "json \<Rightarrow> string"

section \<open>Key loading\<close>

text \<open>The message of the \<open>RuntimeError\<close> is on the left. An empty string is as good as none.\<close>

definition truthy :: "string option \<Rightarrow> bool" where
  "truthy s \<longleftrightarrow> (case s of None \<Rightarrow> False | Some t \<Rightarrow> t \<noteq> [])"

definition read_pem :: "jwt_lib \<Rightarrow> string option \<Rightarrow> string option \<Rightarrow> string \<Rightarrow> string + string" where
  "read_pem J path inline kind =
     (if truthy inline then Inr (the inline)
      else if truthy path then
        (case jw_file J (the path) of
           None \<Rightarrow> Inl (''JWT '' @ kind @ '' key file not found: '' @ the path)
         | Some txt \<Rightarrow> Inr txt)
      else Inl (''JWT '' @ kind @ '' key not configured. Set jwt_'' @ kind @ ''_key_path or jwt_'' @
                kind @ ''_key_pem (see scripts/generate_keys.sh).''))"

type_synonym key_cache = "(string option \<times> string option, string) dict"

definition cached_pem ::
  "jwt_lib \<Rightarrow> string option \<Rightarrow> string option \<Rightarrow> string \<Rightarrow> key_cache \<Rightarrow> (string + string) \<times> key_cache" where
  "cached_pem J path inline kind cache =
     (case map_of cache (path, inline) of
        Some pem \<Rightarrow> (Inr pem, cache)
      | None \<Rightarrow> (case read_pem J path inline kind of
            Inl e \<Rightarrow> (Inl e, cache)
          | Inr pem \<Rightarrow> (Inr pem, dict_set (path, inline) pem cache)))"

definition private_key :: "jwt_lib \<Rightarrow> settings \<Rightarrow> key_cache \<Rightarrow> (string + string) \<times> key_cache" where
  "private_key J cfg = cached_pem J (jwt_private_key_path cfg) (jwt_private_key_pem cfg) ''private''"

definition public_key :: "jwt_lib \<Rightarrow> settings \<Rightarrow> key_cache \<Rightarrow> (string + string) \<times> key_cache" where
  "public_key J cfg = cached_pem J (jwt_public_key_path cfg) (jwt_public_key_pem cfg) ''public''"

section \<open>Access tokens\<close>

text \<open>\<open>int(t.timestamp())\<close>: the timestamp is a float.\<close>

definition unix_seconds :: "instant \<Rightarrow> int" where
  "unix_seconds t = round_down (f64 (of_int t / of_int second))"

definition access_claims :: "settings \<Rightarrow> uuid \<Rightarrow> string \<Rightarrow> string \<Rightarrow> instant \<Rightarrow> claims" where
  "access_claims cfg user_id tier base_currency issued_at =
     (let expires_at = issued_at + access_token_expires_minutes cfg * minute
      in [(''sub'', JStr user_id), (''user_id'', JStr user_id), (''tier'', JStr tier),
          (''base_currency'', JStr base_currency), (''kid'', JStr (jwt_kid cfg)),
          (''iss'', JStr (jwt_issuer cfg)), (''aud'', JStr (jwt_audience cfg)),
          (''iat'', JInt (unix_seconds issued_at)),
          (''exp'', JInt (unix_seconds expires_at))])"

definition create_access_token ::
  "jwt_lib \<Rightarrow> settings \<Rightarrow> uuid \<Rightarrow> string \<Rightarrow> string \<Rightarrow> instant \<Rightarrow> key_cache \<Rightarrow> (string + string) \<times> key_cache" where
  "create_access_token J cfg user_id tier base_currency now cache =
     (case private_key J cfg cache of
        (Inl e, c) \<Rightarrow> (Inl e, c)
      | (Inr key, c) \<Rightarrow>
          (Inr (jw_encode J (access_claims cfg user_id tier base_currency now) key
                  (jwt_algorithm cfg) (jwt_kid cfg)), c))"

record decoded_access_token =
  dt_user_id :: uuid
  dt_tier :: string
  dt_base_currency :: string
  dt_kid :: string
  dt_expires_at :: instant

text \<open>Why a token is refused: the library rejects it, or the payload lacks or garbles a claim.
  \<open>Key_missing\<close> is the \<open>RuntimeError\<close> of an unconfigured key, which the code lets through.\<close>

datatype token_error = Invalid_token string | Malformed_payload | Key_missing string

definition json_str_of :: "jwt_lib \<Rightarrow> json \<Rightarrow> string" where
  "json_str_of J v =
     (case v of JStr s \<Rightarrow> s | JInt n \<Rightarrow> int_str n | JNull \<Rightarrow> ''None''
      | JBool b \<Rightarrow> (if b then ''True'' else ''False'') | _ \<Rightarrow> jw_repr J v)"

definition json_int_of :: "json \<Rightarrow> int option" where
  "json_int_of v =
     (case v of JInt n \<Rightarrow> Some n | JBool b \<Rightarrow> Some (if b then 1 else 0)
      | JFloat x \<Rightarrow> Some (round_down x) | JStr s \<Rightarrow> py_int s | _ \<Rightarrow> None)"

definition json_field :: "json \<Rightarrow> string \<Rightarrow> json option" where
  "json_field v k = (case v of JObj fs \<Rightarrow> map_of fs k | _ \<Rightarrow> None)"

text \<open>\<open>datetime.fromtimestamp\<close> covers the years 1 to 9999.\<close>

definition from_timestamp :: "int \<Rightarrow> instant option" where
  "from_timestamp s = (if - 62135596800 \<le> s \<and> s \<le> 253402300799 then Some (s * second) else None)"

definition token_of_payload :: "jwt_lib \<Rightarrow> json \<Rightarrow> decoded_access_token option" where
  "token_of_payload J p =
     Option.bind (json_field p ''user_id'') (\<lambda>u.
     Option.bind (py_uuid (json_str_of J u)) (\<lambda>user_id.
     Option.bind (json_field p ''tier'') (\<lambda>tier.
     Option.bind (json_field p ''base_currency'') (\<lambda>base.
     Option.bind (json_field p ''kid'') (\<lambda>kid.
     Option.bind (json_field p ''exp'') (\<lambda>ex.
     Option.bind (Option.bind (json_int_of ex) from_timestamp) (\<lambda>expires_at.
       Some \<lparr>dt_user_id = user_id, dt_tier = json_str_of J tier,
             dt_base_currency = json_str_of J base, dt_kid = json_str_of J kid,
             dt_expires_at = expires_at\<rparr>)))))))"

definition decode_access_token ::
  "jwt_lib \<Rightarrow> settings \<Rightarrow> string \<Rightarrow> instant \<Rightarrow> key_cache \<Rightarrow>
   (token_error + decoded_access_token) \<times> key_cache" where
  "decode_access_token J cfg tok now cache =
     (case public_key J cfg cache of
        (Inl e, c) \<Rightarrow> (Inl (Key_missing e), c)
      | (Inr key, c) \<Rightarrow>
          (case jw_decode J tok key (jwt_algorithm cfg) (jwt_audience cfg) (jwt_issuer cfg) now of
             Inl msg \<Rightarrow> (Inl (Invalid_token msg), c)
           | Inr p \<Rightarrow> (case token_of_payload J p of
                 None \<Rightarrow> (Inl Malformed_payload, c)
               | Some t \<Rightarrow> (Inr t, c))))"

section \<open>What the library promises\<close>

text \<open>Documented behaviour of \<open>jose\<close>: a token signed with the private key of a pair verifies
  under its public key, for the same algorithm, when audience and issuer are the expected ones
  and the expiry is not past; the payload comes back.\<close>

definition jwt_law :: "jwt_lib \<Rightarrow> string \<Rightarrow> string \<Rightarrow> claims \<Rightarrow> bool" where
  "jwt_law J priv pub p \<longleftrightarrow>
     (\<forall>alg kid aud iss e now.
        map_of p ''aud'' = Some (JStr aud) \<longrightarrow> map_of p ''iss'' = Some (JStr iss) \<longrightarrow>
        map_of p ''exp'' = Some (JInt e) \<longrightarrow> now < e * second \<longrightarrow>
        jw_decode J (jw_encode J p priv alg kid) pub alg aud iss now = Inr (JObj p))"

lemma cached_pem_stable:
  assumes "cached_pem J path inline kind cache = (Inr pem, cache')"
  shows "cached_pem J path inline kind cache' = (Inr pem, cache')"
  using assms by (auto simp: cached_pem_def split: option.splits sum.splits)

text \<open>Once loaded, a key is not read again: the file may change or vanish.\<close>

lemma cached_pem_file_independent:
  assumes "cached_pem J path inline kind cache = (Inr pem, cache')"
  shows "cached_pem (J\<lparr>jw_file := f\<rparr>) path inline kind cache' = (Inr pem, cache')"
  using assms by (auto simp: cached_pem_def split: option.splits sum.splits)

lemma token_of_claims:
  assumes "py_uuid u = Some u"
    and "from_timestamp (unix_seconds (now + access_token_expires_minutes cfg * minute)) = Some e"
  shows "token_of_payload J (JObj (access_claims cfg u tier base now)) =
    Some \<lparr>dt_user_id = u, dt_tier = tier, dt_base_currency = base, dt_kid = jwt_kid cfg, dt_expires_at = e\<rparr>"
  using assms by (simp add: token_of_payload_def json_field_def json_str_of_def json_int_of_def
      access_claims_def Let_def)

lemma create_access_token_Inr:
  "create_access_token J cfg u tier base now cache = (Inr tok, cache') \<longleftrightarrow>
     (\<exists>key. private_key J cfg cache = (Inr key, cache') \<and>
        tok = jw_encode J (access_claims cfg u tier base now) key (jwt_algorithm cfg) (jwt_kid cfg))"
  by (auto simp: create_access_token_def split: prod.splits sum.splits)

lemma access_claims_fields:
  "map_of (access_claims cfg u tier base now) ''aud'' = Some (JStr (jwt_audience cfg))"
  "map_of (access_claims cfg u tier base now) ''iss'' = Some (JStr (jwt_issuer cfg))"
  "map_of (access_claims cfg u tier base now) ''exp'' =
     Some (JInt (unix_seconds (now + access_token_expires_minutes cfg * minute)))"
  by (simp_all add: access_claims_def Let_def)

lemma decode_created:
  assumes law: "jwt_law J priv pub (access_claims cfg u tier base now)"
    and priv: "private_key J cfg pc = (Inr priv, pc')" and pub: "fst (public_key J cfg qc) = Inr pub"
    and u: "py_uuid u = Some u"
    and e: "from_timestamp (unix_seconds (now + access_token_expires_minutes cfg * minute)) = Some e"
    and tok: "create_access_token J cfg u tier base now pc = (Inr tok, pc'')" and "now' < e"
  shows "fst (decode_access_token J cfg tok now' qc) =
    Inr \<lparr>dt_user_id = u, dt_tier = tier, dt_base_currency = base, dt_kid = jwt_kid cfg, dt_expires_at = e\<rparr>"
proof -
  have e': "e = unix_seconds (now + access_token_expires_minutes cfg * minute) * second"
    using e by (simp add: from_timestamp_def split: if_splits)
  have "tok = jw_encode J (access_claims cfg u tier base now) priv (jwt_algorithm cfg) (jwt_kid cfg)"
    using tok priv by (auto simp: create_access_token_Inr)
  then have "jw_decode J tok pub (jwt_algorithm cfg) (jwt_audience cfg) (jwt_issuer cfg) now' =
      Inr (JObj (access_claims cfg u tier base now))"
    using law[unfolded jwt_law_def, rule_format, OF access_claims_fields, of now'] \<open>now' < e\<close>
    by (simp add: e')
  then show ?thesis
    using pub token_of_claims[OF u e]
    by (cases "public_key J cfg qc") (simp add: decode_access_token_def)
qed

end
