(* ===== verification/Auth.thy ===== *)
theory Auth
  imports Jwt Redis
begin

text \<open>
  Sessions and passwords: \<open>services/auth.py\<close> and \<open>auth/dependencies.py\<close>. The state is the
  users table, the Redis store, the key caches and the mails handed to the sender; argon2,
  SHA-256 and the random generator are parameters (the drawn token and salt are arguments of
  the call). Each call returns a failure or a value together with the new state: what was
  written before a failure stays written.
\<close>

section \<open>State and library functions\<close>

record user_row =
  us_id :: uuid
  us_email :: string
  us_password_hash :: string
  us_full_name :: "string option"
  us_locale :: string
  us_active :: bool

datatype verify_result = Verified | Mismatch | Verify_error string

record auth_lib =
  lib_jwt :: jwt_lib
  lib_hash :: "string \<Rightarrow> string \<Rightarrow> string"
  lib_verify :: "string \<Rightarrow> string \<Rightarrow> verify_result"
  lib_needs_rehash :: "string \<Rightarrow> bool"
  lib_sha256 :: "string \<Rightarrow> string"

record 'r auth_state =
  ac_redis :: 'r
  ac_users :: "user_row list"
  ac_private_cache :: key_cache
  ac_public_cache :: key_cache
  ac_sent :: "(string \<times> string) list"
  ac_tasks :: "(string \<times> string) list"

text \<open>An \<open>HTTPException\<close> with status and detail, or an exception nobody catches.\<close>

datatype failure = Http int string | Uncaught string

record token_pair =
  access_token :: string
  refresh_token :: string
  expires_in :: int

definition REFRESH_PREFIX :: string where "REFRESH_PREFIX = ''auth:rt:''"
definition PWV_PREFIX :: string where "PWV_PREFIX = ''auth:pwv:''"
definition PWRESET_PREFIX :: string where "PWRESET_PREFIX = ''auth:pwreset:''"
definition PWRESET_RL_EMAIL_PREFIX :: string where "PWRESET_RL_EMAIL_PREFIX = ''auth:pwreset:rl:email:''"
definition PWRESET_RL_IP_PREFIX :: string where "PWRESET_RL_IP_PREFIX = ''auth:pwreset:rl:ip:''"

definition rt_key :: "string \<Rightarrow> string" where "rt_key tok = REFRESH_PREFIX @ tok"
definition pwv_key :: "uuid \<Rightarrow> string" where "pwv_key user_id = PWV_PREFIX @ user_id"
definition pwreset_key :: "string \<Rightarrow> string" where "pwreset_key token_hash = PWRESET_PREFIX @ token_hash"

lemmas auth_keys = rt_key_def pwv_key_def pwreset_key_def REFRESH_PREFIX_def PWV_PREFIX_def
  PWRESET_PREFIX_def PWRESET_RL_EMAIL_PREFIX_def PWRESET_RL_IP_PREFIX_def

lemma auth_key_simps [simp]:
  "rt_key t = rt_key t' \<longleftrightarrow> t = t'" "pwv_key u = pwv_key v \<longleftrightarrow> u = v"
  "pwreset_key h = pwreset_key h' \<longleftrightarrow> h = h'"
  "rt_key t \<noteq> pwv_key u" "pwv_key u \<noteq> rt_key t" "rt_key t \<noteq> pwreset_key h" "pwreset_key h \<noteq> rt_key t"
  "pwv_key u \<noteq> pwreset_key h" "pwreset_key h \<noteq> pwv_key u"
  "rt_key t \<noteq> PWRESET_RL_EMAIL_PREFIX @ e" "rt_key t \<noteq> PWRESET_RL_IP_PREFIX @ e"
  "pwv_key u \<noteq> PWRESET_RL_EMAIL_PREFIX @ e" "pwv_key u \<noteq> PWRESET_RL_IP_PREFIX @ e"
  by (simp_all add: auth_keys)

section \<open>Helpers\<close>

definition find_user :: "uuid \<Rightarrow> user_row list \<Rightarrow> user_row option" where
  "find_user uid us = find (\<lambda>u. us_id u = uid) us"

definition find_email :: "string \<Rightarrow> user_row list \<Rightarrow> user_row option" where
  "find_email e us = find (\<lambda>u. us_email u = e) us"

definition set_password :: "uuid \<Rightarrow> string \<Rightarrow> user_row list \<Rightarrow> user_row list" where
  "set_password uid h us = map (\<lambda>u. if us_id u = uid then u\<lparr>us_password_hash := h\<rparr> else u) us"

definition get_pw_version :: "'r redis \<Rightarrow> uuid \<Rightarrow> 'r \<Rightarrow> failure + int" where
  "get_pw_version R user_id r =
     (case rd_get R r (pwv_key user_id) of
        None \<Rightarrow> Inr 0
      | Some raw \<Rightarrow> (case py_int raw of None \<Rightarrow> Inl (Uncaught ''ValueError'') | Some n \<Rightarrow> Inr n))"

definition bump_pw_version ::
  "'r redis \<Rightarrow> uuid \<Rightarrow> 'r auth_state \<Rightarrow> (failure + int) \<times> 'r auth_state" where
  "bump_pw_version R user_id s =
     (case rd_incr R (ac_redis s) (pwv_key user_id) of
        (None, r) \<Rightarrow> (Inl (Uncaught ''ResponseError''), s\<lparr>ac_redis := r\<rparr>)
      | (Some n, r) \<Rightarrow> (Inr n, s\<lparr>ac_redis := r\<rparr>))"

definition issue_tokens ::
  "auth_lib \<Rightarrow> 'r redis \<Rightarrow> settings \<Rightarrow> instant \<Rightarrow> string \<Rightarrow> user_row \<Rightarrow> 'r auth_state \<Rightarrow>
   (failure + token_pair) \<times> 'r auth_state" where
  "issue_tokens L R cfg now rnd user s =
     (case create_access_token (lib_jwt L) cfg (us_id user) (default_user_tier cfg)
            (default_base_currency cfg) now (ac_private_cache s) of
        (Inl e, c) \<Rightarrow> (Inl (Uncaught e), s\<lparr>ac_private_cache := c\<rparr>)
      | (Inr access, c) \<Rightarrow>
          (let s1 = s\<lparr>ac_private_cache := c\<rparr>; refresh = rnd in
           case get_pw_version R (us_id user) (ac_redis s1) of
             Inl e \<Rightarrow> (Inl e, s1)
           | Inr pw_v \<Rightarrow>
               (let payload = json_dumps [(''user_id'', Inl (us_id user)), (''pw_v'', Inr pw_v)];
                    ttl_seconds = refresh_token_expires_days cfg * 24 * 3600
                in (Inr \<lparr>access_token = access, refresh_token = refresh,
                         expires_in = access_token_expires_minutes cfg * 60\<rparr>,
                    s1\<lparr>ac_redis := rd_set R (ac_redis s1) (rt_key refresh) payload (Some ttl_seconds)\<rparr>))))"

section \<open>Register, login, refresh, logout\<close>

definition unauthorized :: "string \<Rightarrow> failure" where "unauthorized detail = Http 401 detail"

definition register ::
  "auth_lib \<Rightarrow> 'r redis \<Rightarrow> settings \<Rightarrow> instant \<Rightarrow> uuid \<Rightarrow> string \<Rightarrow> string \<Rightarrow>
   string \<Rightarrow> string \<Rightarrow> string option \<Rightarrow> string option \<Rightarrow> 'r auth_state \<Rightarrow>
   (failure + token_pair) \<times> 'r auth_state" where
  "register L R cfg now new_id salt rnd email password full_name locale s =
     (let user = \<lparr>us_id = new_id, us_email = str_lower email,
                  us_password_hash = lib_hash L password salt, us_full_name = full_name,
                  us_locale = (if truthy locale then the locale else ''en-IN''), us_active = True\<rparr>
      in if find_email (us_email user) (ac_users s) \<noteq> None \<or> find_user new_id (ac_users s) \<noteq> None
         then (Inl (Http 409 ''Email already registered''), s)
         else issue_tokens L R cfg now rnd user (s\<lparr>ac_users := ac_users s @ [user]\<rparr>))"

definition DUMMY_HASH :: string where
  "DUMMY_HASH = ''$argon2id$v=19$m=65536,t=2,p=2$'' @
     ''Zm9vYmFyYmF6cXV4Zm9vYg$mYh2o+2sEJwvG6VnJiDLqL6Z5v2XKx3I5m5qQxS8oZE''"

definition login ::
  "auth_lib \<Rightarrow> 'r redis \<Rightarrow> settings \<Rightarrow> instant \<Rightarrow> string \<Rightarrow> string \<Rightarrow> string \<Rightarrow> string \<Rightarrow>
   'r auth_state \<Rightarrow> (failure + token_pair) \<times> 'r auth_state" where
  "login L R cfg now salt rnd email password s =
     (let refused = unauthorized ''Invalid credentials'' in
      case find_email (str_lower email) (ac_users s) of
        None \<Rightarrow> (case lib_verify L DUMMY_HASH password of
            Verify_error e \<Rightarrow> (Inl (Uncaught e), s) | _ \<Rightarrow> (Inl refused, s))
      | Some user \<Rightarrow>
          if \<not> us_active user
          then (case lib_verify L DUMMY_HASH password of
              Verify_error e \<Rightarrow> (Inl (Uncaught e), s) | _ \<Rightarrow> (Inl refused, s))
          else (case lib_verify L (us_password_hash user) password of
              Verify_error e \<Rightarrow> (Inl (Uncaught e), s)
            | Mismatch \<Rightarrow> (Inl refused, s)
            | Verified \<Rightarrow>
                if lib_needs_rehash L (us_password_hash user)
                then (let h = lib_hash L password salt
                      in issue_tokens L R cfg now rnd (user\<lparr>us_password_hash := h\<rparr>)
                           (s\<lparr>ac_users := set_password (us_id user) h (ac_users s)\<rparr>))
                else issue_tokens L R cfg now rnd user s))"

text \<open>The stored payload: \<open>UUID(str(data["user_id"]))\<close> and \<open>int(data["pw_v"])\<close>, with every
  \<open>ValueError\<close>, \<open>KeyError\<close> and \<open>TypeError\<close> caught.\<close>

definition payload_user :: "auth_lib \<Rightarrow> json \<Rightarrow> uuid option" where
  "payload_user L data =
     Option.bind (json_field data ''user_id'') (\<lambda>v. py_uuid (json_str_of (lib_jwt L) v))"

definition payload_version :: "json \<Rightarrow> int option" where
  "payload_version data = Option.bind (json_field data ''pw_v'') json_int_of"

text \<open>\<open>refresh\<close> in two halves, as its awaits allow other requests to run in between: consuming
  and checking the token, and issuing the new pair.\<close>

definition refresh_check ::
  "auth_lib \<Rightarrow> 'r redis \<Rightarrow> string \<Rightarrow> 'r auth_state \<Rightarrow> (failure + user_row) \<times> 'r auth_state" where
  "refresh_check L R tok s =
     (case rd_getdel R (ac_redis s) (rt_key tok) of
        (None, r) \<Rightarrow> (Inl (unauthorized ''Invalid or expired refresh token''), s\<lparr>ac_redis := r\<rparr>)
      | (Some raw, r) \<Rightarrow>
          (let s1 = s\<lparr>ac_redis := r\<rparr> in
           case Option.bind (json_loads raw) (\<lambda>data.
                  Option.bind (payload_user L data) (\<lambda>u. map_option (\<lambda>v. (u, v)) (payload_version data))) of
             None \<Rightarrow> (Inl (unauthorized ''Malformed refresh token''), s1)
           | Some (user_id, pw_v) \<Rightarrow>
               (case get_pw_version R user_id (ac_redis s1) of
                  Inl e \<Rightarrow> (Inl e, s1)
                | Inr current_pw_v \<Rightarrow>
                    if pw_v \<noteq> current_pw_v
                    then (Inl (unauthorized ''Refresh token invalidated (password changed)''), s1)
                    else (case find_user user_id (ac_users s1) of
                        None \<Rightarrow> (Inl (unauthorized ''User no longer active''), s1)
                      | Some user \<Rightarrow>
                          if \<not> us_active user then (Inl (unauthorized ''User no longer active''), s1)
                          else (Inr user, s1)))))"

definition refresh ::
  "auth_lib \<Rightarrow> 'r redis \<Rightarrow> settings \<Rightarrow> instant \<Rightarrow> string \<Rightarrow> string \<Rightarrow> 'r auth_state \<Rightarrow>
   (failure + token_pair) \<times> 'r auth_state" where
  "refresh L R cfg now rnd tok s =
     (case refresh_check L R tok s of
        (Inl e, s1) \<Rightarrow> (Inl e, s1)
      | (Inr user, s1) \<Rightarrow> issue_tokens L R cfg now rnd user s1)"

definition logout :: "'r redis \<Rightarrow> string \<Rightarrow> 'r auth_state \<Rightarrow> 'r auth_state" where
  "logout R tok s = s\<lparr>ac_redis := snd (rd_delete R (ac_redis s) (rt_key tok))\<rparr>"

text \<open>The user passed in is the row of the authenticated request.\<close>

definition change_password ::
  "auth_lib \<Rightarrow> 'r redis \<Rightarrow> string \<Rightarrow> user_row \<Rightarrow> string \<Rightarrow> string \<Rightarrow> 'r auth_state \<Rightarrow>
   (failure + unit) \<times> 'r auth_state" where
  "change_password L R salt user current_password new_password s =
     (case lib_verify L (us_password_hash user) current_password of
        Verify_error e \<Rightarrow> (Inl (Uncaught e), s)
      | Mismatch \<Rightarrow> (Inl (unauthorized ''Current password incorrect''), s)
      | Verified \<Rightarrow>
          (let s1 = s\<lparr>ac_users := set_password (us_id user) (lib_hash L new_password salt) (ac_users s)\<rparr>
           in case bump_pw_version R (us_id user) s1 of
                (Inl e, s2) \<Rightarrow> (Inl e, s2)
              | (Inr _, s2) \<Rightarrow> (Inr (), s2)))"

section \<open>Password reset\<close>

definition check_rate_limit ::
  "'r redis \<Rightarrow> settings \<Rightarrow> string \<Rightarrow> 'r auth_state \<Rightarrow> (failure + unit) \<times> 'r auth_state" where
  "check_rate_limit R cfg key s =
     (case rd_incr R (ac_redis s) key of
        (None, r) \<Rightarrow> (Inl (Uncaught ''ResponseError''),
           s\<lparr>ac_redis := rd_expire R r key (password_reset_rate_limit_window_seconds cfg) True\<rparr>)
      | (Some hits, r) \<Rightarrow>
          (let s1 = s\<lparr>ac_redis := rd_expire R r key (password_reset_rate_limit_window_seconds cfg) True\<rparr>
           in if hits > password_reset_rate_limit_max cfg
              then (Inl (Http 429 ''Too many password reset requests. Please try again later.''), s1)
              else (Inr (), s1)))"

definition store_reset_token ::
  "auth_lib \<Rightarrow> 'r redis \<Rightarrow> settings \<Rightarrow> string \<Rightarrow> user_row \<Rightarrow> 'r auth_state \<Rightarrow> 'r auth_state" where
  "store_reset_token L R cfg tok user s =
     (let token_hash = lib_sha256 L tok;
          payload = json_dumps [(''user_id'', Inl (us_id user))];
          ttl_seconds = password_reset_token_expires_minutes cfg * 60
      in s\<lparr>ac_redis := rd_set R (ac_redis s) (pwreset_key token_hash) payload (Some ttl_seconds)\<rparr>)"

definition request_password_reset ::
  "auth_lib \<Rightarrow> 'r redis \<Rightarrow> settings \<Rightarrow> string \<Rightarrow> string \<Rightarrow> string option \<Rightarrow> bool \<Rightarrow> 'r auth_state \<Rightarrow>
   (failure + unit) \<times> 'r auth_state" where
  "request_password_reset L R cfg rnd email ip background s =
     (let normalized = str_lower email in
      case check_rate_limit R cfg (PWRESET_RL_EMAIL_PREFIX @ normalized) s of
        (Inl e, s1) \<Rightarrow> (Inl e, s1)
      | (Inr _, s1) \<Rightarrow>
          (case (if truthy ip then check_rate_limit R cfg (PWRESET_RL_IP_PREFIX @ the ip) s1 else (Inr (), s1)) of
             (Inl e, s2) \<Rightarrow> (Inl e, s2)
           | (Inr _, s2) \<Rightarrow>
               (case find_email normalized (ac_users s2) of
                  None \<Rightarrow> (Inr (), s2)
                | Some user \<Rightarrow>
                    if \<not> us_active user then (Inr (), s2)
                    else (let s3 = store_reset_token L R cfg rnd user s2
                          in (Inr (), if background
                                then s3\<lparr>ac_tasks := ac_tasks s3 @ [(us_email user, rnd)]\<rparr>
                                else s3\<lparr>ac_sent := ac_sent s3 @ [(us_email user, rnd)]\<rparr>)))))"

definition reset_password ::
  "auth_lib \<Rightarrow> 'r redis \<Rightarrow> string \<Rightarrow> string \<Rightarrow> string \<Rightarrow> 'r auth_state \<Rightarrow>
   (failure + unit) \<times> 'r auth_state" where
  "reset_password L R salt tok new_password s =
     (let invalid = Http 400 ''Invalid or expired reset token'' in
      case rd_getdel R (ac_redis s) (pwreset_key (lib_sha256 L tok)) of
        (None, r) \<Rightarrow> (Inl invalid, s\<lparr>ac_redis := r\<rparr>)
      | (Some raw, r) \<Rightarrow>
          (let s1 = s\<lparr>ac_redis := r\<rparr> in
           case Option.bind (json_loads raw) (payload_user L) of
             None \<Rightarrow> (Inl invalid, s1)
           | Some user_id \<Rightarrow>
               (case find_user user_id (ac_users s1) of
                  None \<Rightarrow> (Inl invalid, s1)
                | Some user \<Rightarrow>
                    if \<not> us_active user then (Inl invalid, s1)
                    else (let s2 = s1\<lparr>ac_users := set_password (us_id user)
                                       (lib_hash L new_password salt) (ac_users s1)\<rparr>
                          in case bump_pw_version R (us_id user) s2 of
                               (Inl e, s3) \<Rightarrow> (Inl e, s3)
                             | (Inr _, s3) \<Rightarrow> (Inr (), s3)))))"

section \<open>The authenticated request\<close>

definition get_current_user ::
  "auth_lib \<Rightarrow> settings \<Rightarrow> instant \<Rightarrow> string option \<Rightarrow> 'r auth_state \<Rightarrow>
   (failure + user_row) \<times> 'r auth_state" where
  "get_current_user L cfg now credentials s =
     (if \<not> truthy credentials then (Inl (unauthorized ''Not authenticated''), s)
      else case decode_access_token (lib_jwt L) cfg (the credentials) now (ac_public_cache s) of
        (r, c) \<Rightarrow>
          (let s1 = s\<lparr>ac_public_cache := c\<rparr> in
           case r of
             Inl (Key_missing e) \<Rightarrow> (Inl (Uncaught e), s1)
           | Inl _ \<Rightarrow> (Inl (unauthorized ''Invalid access token''), s1)
           | Inr decoded \<Rightarrow>
               (case find_user (dt_user_id decoded) (ac_users s1) of
                  None \<Rightarrow> (Inl (unauthorized ''Not authenticated''), s1)
                | Some user \<Rightarrow>
                    if \<not> us_active user then (Inl (unauthorized ''Not authenticated''), s1)
                    else (Inr user, s1))))"

end
