(* ===== verification/Sessions.thy ===== *)
theory Sessions
  imports Auth
begin

text \<open>
  What the session layer promises, over runs of its calls: a refresh token works once, a
  password change revokes the tokens issued before it, a login can be continued, the reset
  limiter counts a window, and the interleaving in which a revoked session survives.
\<close>

section \<open>Calls as events\<close>

text \<open>Every call draws at most one token; \<open>drawn\<close> names it.\<close>

datatype auth_event =
    Register instant uuid string string string string "string option" "string option"
  | Login instant string string string string
  | Refresh instant string string
  | Logout string
  | Change_password string user_row string string
  | Request_reset string string "string option" bool
  | Reset_password string string string

fun drawn :: "auth_event \<Rightarrow> string option" where
  "drawn (Register now nid salt rnd e p f l) = Some rnd"
| "drawn (Login now salt rnd e p) = Some rnd"
| "drawn (Refresh now rnd tok) = Some rnd"
| "drawn _ = None"

fun auth_step ::
  "auth_lib \<Rightarrow> 'r redis \<Rightarrow> settings \<Rightarrow> auth_event \<Rightarrow> 'r auth_state \<Rightarrow> 'r auth_state" where
  "auth_step L R cfg (Register now nid salt rnd e p f l) s = snd (register L R cfg now nid salt rnd e p f l s)"
| "auth_step L R cfg (Login now salt rnd e p) s = snd (login L R cfg now salt rnd e p s)"
| "auth_step L R cfg (Refresh now rnd tok) s = snd (refresh L R cfg now rnd tok s)"
| "auth_step L R cfg (Logout tok) s = logout R tok s"
| "auth_step L R cfg (Change_password salt u old new) s = snd (change_password L R salt u old new s)"
| "auth_step L R cfg (Request_reset rnd e ip bg) s = snd (request_password_reset L R cfg rnd e ip bg s)"
| "auth_step L R cfg (Reset_password salt tok new) s = snd (reset_password L R salt tok new s)"

definition auth_run ::
  "auth_lib \<Rightarrow> 'r redis \<Rightarrow> settings \<Rightarrow> auth_event list \<Rightarrow> 'r auth_state \<Rightarrow> 'r auth_state" where
  "auth_run L R cfg es s = fold (auth_step L R cfg) es s"

section \<open>What a call does to the keys\<close>

lemma version_alt: "get_pw_version R u r =
    (case counter_value (rd_get R r (pwv_key u)) of None \<Rightarrow> Inl (Uncaught ''ValueError'') | Some n \<Rightarrow> Inr n)"
  by (simp add: get_pw_version_def counter_value_def split: option.split)

lemma issue_tokens_get:
  assumes "redis_kv R"
  shows "rd_get R (ac_redis (snd (issue_tokens L R cfg now rnd u s))) k =
    (case fst (issue_tokens L R cfg now rnd u s) of
       Inl _ \<Rightarrow> rd_get R (ac_redis s) k
     | Inr _ \<Rightarrow> if k = rt_key rnd
         then (case get_pw_version R (us_id u) (ac_redis s) of Inl _ \<Rightarrow> None
               | Inr v \<Rightarrow> Some (json_dumps [(''user_id'', Inl (us_id u)), (''pw_v'', Inr v)]))
         else rd_get R (ac_redis s) k)"
  by (simp add: issue_tokens_def Let_def redis_kv_simps[OF assms] split: sum.split prod.split)

lemma issue_tokens_users [simp]: "ac_users (snd (issue_tokens L R cfg now rnd u s)) = ac_users s"
  by (simp add: issue_tokens_def Let_def split: sum.split prod.split)

lemma bump_get:
  assumes "redis_kv R"
  shows "rd_get R (ac_redis (snd (bump_pw_version R u s))) k =
    (case counter_value (rd_get R (ac_redis s) (pwv_key u)) of
       None \<Rightarrow> rd_get R (ac_redis s) k
     | Some n \<Rightarrow> if k = pwv_key u then Some (int_str (n + 1)) else rd_get R (ac_redis s) k)"
  by (simp add: redis_get_incr[OF assms] bump_pw_version_def case_prod_beta split: option.split)

lemma check_rate_limit_get:
  assumes "redis_kv R"
  shows "rd_get R (ac_redis (snd (check_rate_limit R cfg key s))) k =
    (case counter_value (rd_get R (ac_redis s) key) of
       None \<Rightarrow> rd_get R (ac_redis s) k
     | Some n \<Rightarrow> if k = key then Some (int_str (n + 1)) else rd_get R (ac_redis s) k)"
  by (simp add: redis_get_incr[OF assms] check_rate_limit_def Let_def case_prod_beta redis_get_expire[OF assms] split: option.split)

text \<open>The keys none of these helpers writes.\<close>

lemma helper_frames:
  assumes "redis_kv R"
  shows "rnd \<noteq> t \<Longrightarrow> rd_get R (ac_redis (snd (issue_tokens L R cfg now rnd u s))) (rt_key t) = rd_get R (ac_redis s) (rt_key t)"
    and "rd_get R (ac_redis (snd (issue_tokens L R cfg now rnd u s))) (pwv_key v) = rd_get R (ac_redis s) (pwv_key v)"
    and "rd_get R (ac_redis (snd (bump_pw_version R v s))) (rt_key t) = rd_get R (ac_redis s) (rt_key t)"
    and "k \<noteq> key \<Longrightarrow> rd_get R (ac_redis (snd (check_rate_limit R cfg key s))) k = rd_get R (ac_redis s) k"
  by (simp_all add: issue_tokens_get[OF assms] bump_get[OF assms] check_rate_limit_get[OF assms]
      split: sum.split option.split)

text \<open>A call leaves every token entry it did not draw either as it was or gone.\<close>

lemma auth_step_token:
  assumes "redis_kv R" and "drawn e \<noteq> Some t"
  shows "rd_get R (ac_redis (auth_step L R cfg e s)) (rt_key t) \<in>
    {None, rd_get R (ac_redis s) (rt_key t)}"
  using assms(2)
  by (cases e) (auto simp: case_prod_beta register_def login_def refresh_def refresh_check_def
      logout_def change_password_def reset_password_def request_password_reset_def store_reset_token_def
      Let_def redis_kv_simps[OF assms(1)] helper_frames[OF assms(1)]
      split: sum.split option.split verify_result.split)

lemma auth_run_token:
  assumes "redis_kv R" and "\<forall>e \<in> set es. drawn e \<noteq> Some t"
  shows "rd_get R (ac_redis (auth_run L R cfg es s)) (rt_key t) \<in> {None, rd_get R (ac_redis s) (rt_key t)}"
  using assms(2)
proof (induction es arbitrary: s)
  case (Cons e es)
  have "rd_get R (ac_redis (auth_step L R cfg e s)) (rt_key t) \<in> {None, rd_get R (ac_redis s) (rt_key t)}"
    using Cons.prems by (intro auth_step_token[OF assms(1)]) simp
  moreover have "rd_get R (ac_redis (auth_run L R cfg es (auth_step L R cfg e s))) (rt_key t)
      \<in> {None, rd_get R (ac_redis (auth_step L R cfg e s)) (rt_key t)}"
    using Cons.prems by (intro Cons.IH) simp
  ultimately show ?case by (auto simp: auth_run_def)
qed (simp add: auth_run_def)

section \<open>The password version only grows\<close>

definition version_of :: "'r redis \<Rightarrow> uuid \<Rightarrow> 'r auth_state \<Rightarrow> int option" where
  "version_of R u s = counter_value (rd_get R (ac_redis s) (pwv_key u))"

definition version_le :: "int option \<Rightarrow> int option \<Rightarrow> bool" where
  "version_le a b \<longleftrightarrow> (case a of None \<Rightarrow> True | Some m \<Rightarrow> (case b of None \<Rightarrow> False | Some n \<Rightarrow> m \<le> n))"

lemma version_le_refl [simp]: "version_le a a"
  by (simp add: version_le_def split: option.split)

lemma version_le_trans: "version_le a b \<Longrightarrow> version_le b c \<Longrightarrow> version_le a c"
  by (auto simp: version_le_def split: option.splits)

lemma bump_version:
  assumes "redis_kv R"
  shows "version_le (version_of R u s) (version_of R u (snd (bump_pw_version R v s)))"
  by (auto simp: version_of_def bump_get[OF assms] version_le_def counter_value_def split: option.splits)

lemma version_frames:
  assumes "redis_kv R"
  shows "version_of R u (snd (issue_tokens L R cfg now rnd w s)) = version_of R u s"
    and "k = PWRESET_RL_EMAIL_PREFIX @ e \<or> k = PWRESET_RL_IP_PREFIX @ e \<Longrightarrow>
      version_of R u (snd (check_rate_limit R cfg k s)) = version_of R u s"
  by (auto simp: version_of_def helper_frames[OF assms])

lemma bump_version_users: "version_of R u (s\<lparr>ac_users := us\<rparr>) = version_of R u s"
  "version_of R u (s\<lparr>ac_tasks := ts\<rparr>) = version_of R u s" "version_of R u (s\<lparr>ac_sent := ts\<rparr>) = version_of R u s"
  by (simp_all add: version_of_def)

lemma auth_step_version:
  assumes R: "redis_kv R"
  shows "version_le (version_of R u s) (version_of R u (auth_step L R cfg e s))"
proof (cases e)
  case (Change_password salt w old new)
  then show ?thesis
    using bump_version[OF R, of u "s\<lparr>ac_users := set_password (us_id w) (lib_hash L new salt) (ac_users s)\<rparr>" "us_id w"]
    by (auto simp: change_password_def Let_def case_prod_beta bump_version_users
        split: sum.split verify_result.split)
next
  case (Reset_password salt tok new)
  let ?r = "snd (rd_getdel R (ac_redis s) (pwreset_key (lib_sha256 L tok)))"
  have v: "version_of R u (s\<lparr>ac_redis := ?r\<rparr>) = version_of R u s"
    by (simp add: version_of_def redis_kv_simps[OF R])
  have "version_le (version_of R u s) (version_of R u (snd (bump_pw_version R w (s\<lparr>ac_redis := ?r, ac_users := us\<rparr>))))" for w us
    using bump_version[OF R, of u "s\<lparr>ac_redis := ?r, ac_users := us\<rparr>" w] v by (simp add: version_of_def)
  then show ?thesis
    using Reset_password v
    by (simp add: reset_password_def Let_def case_prod_beta split: sum.split option.split)
next
  case (Request_reset rnd em ip bg)
  then show ?thesis
    by (simp add: request_password_reset_def Let_def case_prod_beta bump_version_users
        version_frames[OF R] split: sum.split option.split)
      (simp add: version_of_def store_reset_token_def Let_def redis_kv_simps[OF R] helper_frames[OF R])
qed (simp_all add: case_prod_beta register_def login_def refresh_def refresh_check_def logout_def Let_def
    version_of_def redis_kv_simps[OF R] helper_frames[OF R] split: sum.split option.split verify_result.split)

lemma auth_run_version:
  assumes "redis_kv R"
  shows "version_le (version_of R u s) (version_of R u (auth_run L R cfg es s))"
proof (induction es arbitrary: s)
  case (Cons e es)
  then show ?case
    using version_le_trans[OF auth_step_version[OF assms, of u s L cfg e]] by (simp add: auth_run_def)
qed (simp add: auth_run_def)

section \<open>Stored tokens carry at most the current version\<close>

definition token_for :: "'r redis \<Rightarrow> string \<Rightarrow> uuid \<Rightarrow> int \<Rightarrow> 'r auth_state \<Rightarrow> bool" where
  "token_for R t u v s \<longleftrightarrow>
     rd_get R (ac_redis s) (rt_key t) = Some (json_dumps [(''user_id'', Inl u), (''pw_v'', Inr v)])"

definition canonical :: "uuid \<Rightarrow> bool" where
  "canonical u \<longleftrightarrow> py_uuid u = Some u \<and> list_all plain_char u"

definition sessions_wf :: "'r redis \<Rightarrow> 'r auth_state \<Rightarrow> bool" where
  "sessions_wf R s \<longleftrightarrow>
     (\<forall>u \<in> set (ac_users s). canonical (us_id u)) \<and>
     (\<forall>t u v. canonical u \<longrightarrow> token_for R t u v s \<longrightarrow> version_le (Some v) (version_of R u s))"

lemma payload_inj:
  assumes "canonical u" "canonical u'"
    and "json_dumps [(''user_id'', Inl u), (''pw_v'', Inr v)] = json_dumps [(''user_id'', Inl u'), (''pw_v'', Inr v')]"
  shows "u = u' \<and> v = v'"
proof -
  have "Some (JObj [(''user_id'', JStr u), (''pw_v'', JInt v)]) = Some (JObj [(''user_id'', JStr u'), (''pw_v'', JInt v')])"
    using assms json_loads_payload(1) unfolding canonical_def by metis
  then show ?thesis by simp
qed

text \<open>Well-formedness survives whatever only drops tokens, raises versions and keeps the ids.\<close>

lemma sessions_wf_weaken:
  assumes "sessions_wf R s"
    and "\<And>t. rd_get R (ac_redis s') (rt_key t) \<in> {None, rd_get R (ac_redis s) (rt_key t)}"
    and "\<And>u. version_le (version_of R u s) (version_of R u s')"
    and "\<forall>u \<in> set (ac_users s'). canonical (us_id u)"
  shows "sessions_wf R s'"
  unfolding sessions_wf_def
proof (intro conjI allI impI)
  fix t u v
  assume "canonical u" "token_for R t u v s'"
  moreover have "token_for R t u v s"
    using assms(2)[of t] \<open>token_for R t u v s'\<close> by (auto simp: token_for_def)
  ultimately show "version_le (Some v) (version_of R u s')"
    using assms(1) version_le_trans[OF _ assms(3)] by (auto simp: sessions_wf_def)
qed (use assms(4) in blast)

lemma sessions_wf_issue:
  assumes R: "redis_kv R" and wf: "sessions_wf R s" and u: "canonical (us_id w)"
  shows "sessions_wf R (snd (issue_tokens L R cfg now rnd w s))"
  unfolding sessions_wf_def
proof (intro conjI allI impI)
  show "\<forall>u \<in> set (ac_users (snd (issue_tokens L R cfg now rnd w s))). canonical (us_id u)"
    using wf by (simp add: sessions_wf_def)
  fix t x v
  assume x: "canonical x" "token_for R t x v (snd (issue_tokens L R cfg now rnd w s))"
  show "version_le (Some v) (version_of R x (snd (issue_tokens L R cfg now rnd w s)))"
  proof (cases "token_for R t x v s")
    case True
    then show ?thesis using wf x(1) by (simp add: sessions_wf_def version_frames[OF R])
  next
    case False
    then obtain n where n: "get_pw_version R (us_id w) (ac_redis s) = Inr n"
      and d: "json_dumps [(''user_id'', Inl x), (''pw_v'', Inr v)] =
        json_dumps [(''user_id'', Inl (us_id w)), (''pw_v'', Inr n)]"
      using x(2) by (auto simp: token_for_def issue_tokens_get[OF R] split: sum.splits if_splits)
    then have "x = us_id w" "v = n" using payload_inj[OF x(1) u d] by auto
    then show ?thesis
      using n unfolding version_frames[OF R]
      by (auto simp: version_alt version_of_def version_le_def split: option.splits)
  qed
qed

lemma find_user_mem: "find_user uid us = Some u \<Longrightarrow> u \<in> set us \<and> us_id u = uid"
  by (auto simp: find_user_def find_Some_iff)

lemma find_email_mem: "find_email e us = Some u \<Longrightarrow> u \<in> set us \<and> us_email u = e"
  by (auto simp: find_email_def find_Some_iff)

lemma set_password_ids: "(\<forall>u \<in> set (set_password uid h us). P (us_id u)) \<longleftrightarrow> (\<forall>u \<in> set us. P (us_id u))"
  by (induction us) (simp_all add: set_password_def)

lemma check_rate_limit_users [simp]: "ac_users (snd (check_rate_limit R cfg k s)) = ac_users s"
  by (simp add: check_rate_limit_def Let_def case_prod_beta split: option.split)

lemma bump_users [simp]: "ac_users (snd (bump_pw_version R v s)) = ac_users s"
  by (simp add: bump_pw_version_def case_prod_beta split: option.split)

lemma sessions_wf_cong:
  "sessions_wf R s \<Longrightarrow> ac_redis s' = ac_redis s \<Longrightarrow> \<forall>u \<in> set (ac_users s'). canonical (us_id u) \<Longrightarrow> sessions_wf R s'"
  by (rule sessions_wf_weaken[where s = s]) (simp_all add: version_of_def)

fun event_ok :: "auth_event \<Rightarrow> bool" where
  "event_ok (Register now nid salt rnd e p f l) = canonical nid"
| "event_ok _ = True"

lemma refresh_check_wf:
  assumes R: "redis_kv R" and wf: "sessions_wf R s"
  shows "sessions_wf R (snd (refresh_check L R tok s))"
    and "fst (refresh_check L R tok s) = Inr u \<Longrightarrow> canonical (us_id u)"
proof -
  show "sessions_wf R (snd (refresh_check L R tok s))"
    using wf by (rule sessions_wf_weaken)
      (use wf in \<open>auto simp: refresh_check_def Let_def case_prod_beta version_of_def sessions_wf_def
        redis_kv_simps[OF R] split: option.split sum.split\<close>)
  show "canonical (us_id u)" if "fst (refresh_check L R tok s) = Inr u"
    using that wf
    by (auto simp: refresh_check_def Let_def case_prod_beta sessions_wf_def
        split: option.splits sum.splits if_splits dest!: find_user_mem)
qed

lemma auth_step_wf:
  assumes R: "redis_kv R" and wf: "sessions_wf R s" and e: "event_ok e"
  shows "sessions_wf R (auth_step L R cfg e s)"
proof (cases "drawn e")
  case None
  then have t: "rd_get R (ac_redis (auth_step L R cfg e s)) (rt_key t) \<in> {None, rd_get R (ac_redis s) (rt_key t)}" for t
    by (intro auth_step_token[OF R]) simp
  show ?thesis
    using wf t auth_step_version[OF R]
  proof (rule sessions_wf_weaken)
    show "\<forall>u \<in> set (ac_users (auth_step L R cfg e s)). canonical (us_id u)"
      using None wf unfolding sessions_wf_def
      by (cases e) (auto simp: logout_def change_password_def request_password_reset_def
        reset_password_def store_reset_token_def Let_def case_prod_beta set_password_ids
        split: sum.split option.split verify_result.split)
  qed
next
  case (Some rnd)
  have us: "\<forall>u \<in> set (ac_users s). canonical (us_id u)" using wf by (simp add: sessions_wf_def)
  show ?thesis
  proof (cases e)
    case (Register now nid salt rnd em p f l)
    let ?u = "\<lparr>us_id = nid, us_email = str_lower em, us_password_hash = lib_hash L p salt,
      us_full_name = f, us_locale = (if truthy l then the l else ''en-IN''), us_active = True\<rparr>"
    have "canonical nid" using e Register by simp
    then have "sessions_wf R (s\<lparr>ac_users := ac_users s @ [?u]\<rparr>)"
      using us by (intro sessions_wf_cong[OF wf]) auto
    then have "sessions_wf R (snd (issue_tokens L R cfg now rnd ?u (s\<lparr>ac_users := ac_users s @ [?u]\<rparr>)))"
      using \<open>canonical nid\<close> by (intro sessions_wf_issue[OF R]) simp_all
    then show ?thesis using wf unfolding Register auth_step.simps register_def Let_def by simp
  next
    case (Login now salt rnd em p)
    have w: "sessions_wf R (s\<lparr>ac_users := set_password i h (ac_users s)\<rparr>)" for i h
      using us by (intro sessions_wf_cong[OF wf]) (simp_all add: set_password_ids)
    have c: "canonical (us_id u)" if "find_email (str_lower em) (ac_users s) = Some u" for u
      using us find_email_mem[OF that] by blast
    show ?thesis
      using wf w c sessions_wf_issue[OF R] unfolding Login auth_step.simps login_def Let_def
      by (auto split: option.split verify_result.split)
  next
    case (Refresh now rnd tok)
    then show ?thesis
      using refresh_check_wf[OF R wf]
      by (auto simp: refresh_def case_prod_beta intro!: sessions_wf_issue[OF R] split: sum.split)
  qed (use Some in simp_all)
qed

lemma auth_run_wf:
  assumes "redis_kv R" "sessions_wf R s" "\<forall>e \<in> set es. event_ok e"
  shows "sessions_wf R (auth_run L R cfg es s)"
  using assms(2,3)
  by (induction es arbitrary: s) (auto simp: auth_run_def auth_step_wf[OF assms(1)])

section \<open>Continuing a session\<close>

lemma private_key_stable:
  "private_key J cfg c = (Inr k, c') \<Longrightarrow> private_key J cfg c' = (Inr k, c')"
  by (simp add: private_key_def cached_pem_stable)

lemma issue_tokens_Inr:
  assumes "issue_tokens L R cfg now rnd u s = (Inr pair, s1)"
  shows "refresh_token pair = rnd"
    and "create_access_token (lib_jwt L) cfg (us_id u) (default_user_tier cfg) (default_base_currency cfg)
           now (ac_private_cache s) = (Inr (access_token pair), ac_private_cache s1)"
    and "\<exists>v. get_pw_version R (us_id u) (ac_redis s) = Inr v \<and>
      ac_redis s1 = rd_set R (ac_redis s) (rt_key rnd)
        (json_dumps [(''user_id'', Inl (us_id u)), (''pw_v'', Inr v)])
        (Some (refresh_token_expires_days cfg * 24 * 3600))"
    and "ac_users s1 = ac_users s" "ac_public_cache s1 = ac_public_cache s"
  using assms by (auto simp: issue_tokens_def Let_def case_prod_beta prod_eq_iff split: sum.splits)

lemma issue_tokens_succeeds:
  assumes "private_key (lib_jwt L) cfg (ac_private_cache s) = (Inr k, c)"
    and "get_pw_version R (us_id u) (ac_redis s) = Inr v"
  shows "\<exists>pair. fst (issue_tokens L R cfg now rnd u s) = Inr pair"
  using assms by (simp add: issue_tokens_def create_access_token_def Let_def)

text \<open>A freshly issued refresh token is good for exactly the user it was issued to.\<close>

lemma issued_token_checks:
  assumes R: "redis_kv R" and i: "issue_tokens L R cfg now rnd u s = (Inr pair, s1)"
    and u: "canonical (us_id u)" and f: "find_user (us_id u) (ac_users s) = Some w" "us_active w"
  shows "fst (refresh_check L R (refresh_token pair) s1) = Inr w"
    and "ac_private_cache (snd (refresh_check L R (refresh_token pair) s1)) = ac_private_cache s1"
    and "\<exists>v. get_pw_version R (us_id u) (ac_redis (snd (refresh_check L R (refresh_token pair) s1))) = Inr v"
proof -
  obtain v where v: "get_pw_version R (us_id u) (ac_redis s) = Inr v"
    and s1: "ac_redis s1 = rd_set R (ac_redis s) (rt_key rnd)
        (json_dumps [(''user_id'', Inl (us_id u)), (''pw_v'', Inr v)])
        (Some (refresh_token_expires_days cfg * 24 * 3600))"
    using issue_tokens_Inr(3)[OF i] by blast
  note i' = issue_tokens_Inr(1,4)[OF i]
  have vv: "get_pw_version R (us_id u) (snd (rd_getdel R (ac_redis s1) (rt_key rnd))) = Inr v"
    using v by (simp add: version_alt s1 redis_kv_simps[OF R])
  have raw: "fst (rd_getdel R (ac_redis s1) (rt_key rnd)) =
      Some (json_dumps [(''user_id'', Inl (us_id u)), (''pw_v'', Inr v)])"
    by (simp add: s1 redis_kv_simps[OF R])
  have parse: "Option.bind (json_loads (json_dumps [(''user_id'', Inl (us_id u)), (''pw_v'', Inr v)]))
      (\<lambda>data. Option.bind (payload_user L data) (\<lambda>u. map_option (\<lambda>v. (u, v)) (payload_version data)))
      = Some (us_id u, v)"
    using u by (simp add: canonical_def json_loads_payload payload_user_def payload_version_def
        json_field_def json_str_of_def json_int_of_def)
  have rc: "refresh_check L R (refresh_token pair) s1 =
      (Inr w, s1\<lparr>ac_redis := snd (rd_getdel R (ac_redis s1) (rt_key rnd))\<rparr>)"
    using raw vv parse f i' by (simp add: refresh_check_def case_prod_beta Let_def)
  then show "fst (refresh_check L R (refresh_token pair) s1) = Inr w"
    "ac_private_cache (snd (refresh_check L R (refresh_token pair) s1)) = ac_private_cache s1"
    "\<exists>v. get_pw_version R (us_id u) (ac_redis (snd (refresh_check L R (refresh_token pair) s1))) = Inr v"
    using vv by simp_all
qed

lemma issued_token_refreshes:
  assumes R: "redis_kv R" and i: "issue_tokens L R cfg now rnd u s = (Inr pair, s1)"
    and u: "canonical (us_id u)" and f: "find_user (us_id u) (ac_users s) = Some w" "us_active w"
  shows "\<exists>pair'. fst (refresh L R cfg now' rnd' (refresh_token pair) s1) = Inr pair' \<and> refresh_token pair' = rnd'"
proof -
  let ?c = "refresh_check L R (refresh_token pair) s1"
  note c = issued_token_checks[OF R i u f]
  obtain k where k: "private_key (lib_jwt L) cfg (ac_private_cache s) = (Inr k, ac_private_cache s1)"
    using issue_tokens_Inr(2)[OF i] by (auto simp: create_access_token_Inr)
  have w: "us_id w = us_id u" using find_user_mem[OF f(1)] by simp
  obtain v where "get_pw_version R (us_id w) (ac_redis (snd ?c)) = Inr v" using c(3) w by auto
  then obtain pair' where p: "fst (issue_tokens L R cfg now' rnd' w (snd ?c)) = Inr pair'"
    using issue_tokens_succeeds[of L cfg "snd ?c"] private_key_stable[OF k] c(2) by metis
  then have "refresh_token pair' = rnd'" by (metis prod.collapse issue_tokens_Inr(1))
  moreover have "fst (refresh L R cfg now' rnd' (refresh_token pair) s1) = Inr pair'"
    using c(1) p by (simp add: refresh_def case_prod_beta)
  ultimately show ?thesis by blast
qed

lemma find_user_distinct:
  "distinct (map us_id us) \<Longrightarrow> u \<in> set us \<Longrightarrow> find_user (us_id u) us = Some u"
  by (induction us) (auto simp: find_user_def)

lemma find_user_set_password:
  "find_user x (set_password uid h us) =
     map_option (\<lambda>u. if us_id u = uid then u\<lparr>us_password_hash := h\<rparr> else u) (find_user x us)"
  by (induction us) (simp_all add: find_user_def set_password_def)

text \<open>A successful login ends in \<open>issue_tokens\<close> for an active user of that address.\<close>

lemma login_issues:
  assumes l: "login L R cfg now salt rnd em p s = (Inr pair, s1)"
    and wf: "sessions_wf R s" and d: "distinct (map us_id (ac_users s))"
  obtains u s0 w where "issue_tokens L R cfg now rnd u s0 = (Inr pair, s1)" "canonical (us_id u)"
    "find_user (us_id u) (ac_users s0) = Some w" "us_active w" "us_email w = str_lower em"
    "ac_private_cache s0 = ac_private_cache s" "ac_public_cache s0 = ac_public_cache s"
    "\<exists>row. find_email (str_lower em) (ac_users s) = Some row \<and> lib_verify L (us_password_hash row) p = Verified"
    "us_id u \<in> us_id ` set (ac_users s)"
proof -
  obtain u where u: "find_email (str_lower em) (ac_users s) = Some u" "us_active u"
      "lib_verify L (us_password_hash u) p = Verified"
    using l by (auto simp: login_def Let_def split: option.splits verify_result.splits if_splits)
  have m: "u \<in> set (ac_users s)" "us_email u = str_lower em" using find_email_mem[OF u(1)] by auto
  have c: "canonical (us_id u)" using wf m by (simp add: sessions_wf_def)
  note fu = find_user_distinct[OF d m(1)]
  show ?thesis
  proof (cases "lib_needs_rehash L (us_password_hash u)")
    case True
    let ?h = "lib_hash L p salt"
    show ?thesis
      by (rule that[of "u\<lparr>us_password_hash := ?h\<rparr>" "s\<lparr>ac_users := set_password (us_id u) ?h (ac_users s)\<rparr>"
            "u\<lparr>us_password_hash := ?h\<rparr>"])
        (use l u m c fu True in \<open>simp_all add: login_def Let_def find_user_set_password\<close>)
  next
    case False
    show ?thesis
      by (rule that[of u s u]) (use l u m c fu False in \<open>simp_all add: login_def Let_def\<close>)
  qed
qed

section \<open>Properties\<close>

text \<open>C4. A refresh token works at most once: after a call of \<open>refresh\<close> with it, whatever its
  result and whatever calls follow, presenting it again fails with 401, unless the generator
  draws the same token again.\<close>

theorem refresh_token_once:
  assumes "redis_kv R" and "\<forall>e \<in> set (Refresh now rnd t # es). drawn e \<noteq> Some t"
  shows "fst (refresh L R cfg now' rnd' t (auth_run L R cfg (Refresh now rnd t # es) s)) =
    Inl (Http 401 ''Invalid or expired refresh token'')"
proof -
  let ?s1 = "snd (refresh_check L R t s)"
  have "rd_get R (ac_redis ?s1) (rt_key t) = None"
    by (simp add: refresh_check_def Let_def case_prod_beta redis_kv_simps[OF assms(1)] split: option.split sum.split)
  moreover have "auth_run L R cfg [Refresh now rnd t] s = snd (refresh L R cfg now rnd t s)"
    by (simp add: auth_run_def)
  moreover have "rd_get R (ac_redis (snd (refresh L R cfg now rnd t s))) (rt_key t) = rd_get R (ac_redis ?s1) (rt_key t)"
    using assms(2) by (simp add: refresh_def case_prod_beta helper_frames[OF assms(1)] split: sum.split)
  moreover have "rd_get R (ac_redis (auth_run L R cfg es (snd (refresh L R cfg now rnd t s)))) (rt_key t)
      \<in> {None, rd_get R (ac_redis (snd (refresh L R cfg now rnd t s))) (rt_key t)}"
    using assms(2) by (intro auth_run_token[OF assms(1)]) simp
  ultimately have "rd_get R (ac_redis (auth_run L R cfg (Refresh now rnd t # es) s)) (rt_key t) = None"
    by (simp add: auth_run_def)
  then show ?thesis
    by (simp add: refresh_def refresh_check_def case_prod_beta redis_kv_simps[OF assms(1)] unauthorized_def)
qed

text \<open>C5. A successful password change or reset revokes every refresh token the user held: in
  any state the calls can reach, a token stored for the user when the password changes is
  refused ever after.\<close>

theorem password_change_revokes:
  assumes R: "redis_kv R" and init: "sessions_wf R s0" "\<forall>e \<in> set es0. event_ok e"
    and s: "s = auth_run L R cfg es0 s0" and tok: "token_for R t u v s" "canonical u"
    and change: "change_password L R salt row old new s = (Inr (), s1) \<and> us_id row = u \<or>
      reset_password L R salt rtok new s = (Inr (), s1) \<and>
        rd_get R (ac_redis s) (pwreset_key (lib_sha256 L rtok)) = Some (json_dumps [(''user_id'', Inl u)])"
    and later: "\<forall>e \<in> set es. drawn e \<noteq> Some t"
  shows "\<exists>e. fst (refresh L R cfg now rnd t (auth_run L R cfg es s1)) = Inl e"
proof -
  have wf: "sessions_wf R s" unfolding s by (rule auth_run_wf[OF R init])
  then have "version_le (Some v) (version_of R u s)" using tok unfolding sessions_wf_def by blast
  then obtain n where n: "version_of R u s = Some n" "v \<le> n"
    by (auto simp: version_le_def split: option.splits)
  have s1: "version_of R u s1 = Some (n + 1)"
  proof (rule disjE[OF change])
    assume c: "change_password L R salt row old new s = (Inr (), s1) \<and> us_id row = u"
    then have "s1 = snd (bump_pw_version R u (s\<lparr>ac_users := set_password u (lib_hash L new salt) (ac_users s)\<rparr>))"
      by (auto simp: change_password_def Let_def case_prod_beta split: sum.splits verify_result.splits)
    then show ?thesis using n by (simp add: version_of_def bump_get[OF R] counter_value_def)
  next
    assume c: "reset_password L R salt rtok new s = (Inr (), s1) \<and>
      rd_get R (ac_redis s) (pwreset_key (lib_sha256 L rtok)) = Some (json_dumps [(''user_id'', Inl u)])"
    let ?r = "snd (rd_getdel R (ac_redis s) (pwreset_key (lib_sha256 L rtok)))"
    have "Option.bind (json_loads (json_dumps [(''user_id'', Inl u)])) (payload_user L) = Some u"
      using tok(2) by (simp add: canonical_def json_loads_payload payload_user_def json_field_def json_str_of_def)
    then have "\<exists>us. s1 = snd (bump_pw_version R u (s\<lparr>ac_redis := ?r, ac_users := us\<rparr>))"
      using c by (auto simp: reset_password_def Let_def case_prod_beta redis_kv_simps[OF R]
          split: sum.splits option.splits if_splits dest!: find_user_mem)
    then show ?thesis using n
      by (auto simp: version_of_def bump_get[OF R] counter_value_def redis_kv_simps[OF R])
  qed
  let ?s2 = "auth_run L R cfg es s1"
  obtain m where m: "version_of R u ?s2 = Some m" "v < m"
    using auth_run_version[OF R, of u s1 L cfg es] s1 n(2) by (auto simp: version_le_def split: option.splits)
  have s1t: "rd_get R (ac_redis s1) (rt_key t) \<in> {None, rd_get R (ac_redis s) (rt_key t)}"
    using auth_step_token[OF R, of "Change_password salt row old new" t L cfg s]
      auth_step_token[OF R, of "Reset_password salt rtok new" t L cfg s] change by auto
  have "rd_get R (ac_redis ?s2) (rt_key t) \<in> {None, rd_get R (ac_redis s1) (rt_key t)}"
    by (rule auth_run_token[OF R later])
  then have "rd_get R (ac_redis ?s2) (rt_key t) \<in>
      {None, Some (json_dumps [(''user_id'', Inl u), (''pw_v'', Inr v)])}"
    using s1t tok(1) by (auto simp: token_for_def)
  moreover have "version_of R u (?s2\<lparr>ac_redis := snd (rd_getdel R (ac_redis ?s2) (rt_key t))\<rparr>) = Some m"
    using m(1) by (simp add: version_of_def redis_kv_simps[OF R])
  ultimately have "\<exists>e. fst (refresh_check L R t ?s2) = Inl e"
    using m(2) tok(2)
    by (auto simp: refresh_check_def case_prod_beta Let_def redis_kv_simps[OF R] json_loads_payload
        canonical_def payload_user_def payload_version_def json_field_def json_str_of_def json_int_of_def
        version_alt version_of_def split: option.split)
  then show ?thesis by (auto simp: refresh_def case_prod_beta)
qed

text \<open>A login is the start of a session: it succeeds only with a verified password, its
  access token authenticates requests as the active user of that address until it expires, and
  its refresh token can be exchanged for a new pair.\<close>

theorem login_starts_session:
  assumes R: "redis_kv R" and wf: "sessions_wf R s" and d: "distinct (map us_id (ac_users s))"
    and l: "login L R cfg now salt rnd em p s = (Inr pair, s1)"
    and priv: "private_key (lib_jwt L) cfg (ac_private_cache s) = (Inr priv, c)"
    and pub: "fst (public_key (lib_jwt L) cfg (ac_public_cache s)) = Inr pub"
    and law: "\<forall>u \<in> set (ac_users s). jwt_law (lib_jwt L) priv pub
      (access_claims cfg (us_id u) (default_user_tier cfg) (default_base_currency cfg) now)"
    and e: "from_timestamp (unix_seconds (now + access_token_expires_minutes cfg * minute)) = Some e"
    and now': "now' < e" and tok: "access_token pair \<noteq> []"
  shows "(\<exists>row. find_email (str_lower em) (ac_users s) = Some row \<and>
        lib_verify L (us_password_hash row) p = Verified) \<and>
    (\<exists>u. fst (get_current_user L cfg now' (Some (access_token pair)) s1) = Inr u \<and>
        us_email u = str_lower em \<and> us_active u) \<and>
    (\<exists>pair'. fst (refresh L R cfg now' rnd' (refresh_token pair) s1) = Inr pair')"
proof -
  obtain u s0 w where i: "issue_tokens L R cfg now rnd u s0 = (Inr pair, s1)" and u: "canonical (us_id u)"
    and f: "find_user (us_id u) (ac_users s0) = Some w" "us_active w" "us_email w = str_lower em"
    and c: "ac_private_cache s0 = ac_private_cache s" "ac_public_cache s0 = ac_public_cache s"
    and v: "\<exists>row. find_email (str_lower em) (ac_users s) = Some row \<and> lib_verify L (us_password_hash row) p = Verified"
    and m: "us_id u \<in> us_id ` set (ac_users s)"
    by (rule login_issues[OF l wf d])
  note I = issue_tokens_Inr[OF i]
  have lw: "jwt_law (lib_jwt L) priv pub
      (access_claims cfg (us_id u) (default_user_tier cfg) (default_base_currency cfg) now)"
    using law m by (metis imageE)
  have uu: "py_uuid (us_id u) = Some (us_id u)" using u by (simp add: canonical_def)
  have pub': "fst (public_key (lib_jwt L) cfg (ac_public_cache s1)) = Inr pub" using pub c(2) I(5) by simp
  have priv': "private_key (lib_jwt L) cfg (ac_private_cache s0) = (Inr priv, c)" using priv c(1) by simp
  note dec = decode_created[OF lw priv' pub' uu e I(2) now']
  have "fst (get_current_user L cfg now' (Some (access_token pair)) s1) = Inr w"
    using dec f(1,2) I(4) tok by (simp add: get_current_user_def truthy_def case_prod_beta Let_def)
  then show ?thesis using v f issued_token_refreshes[OF R i u f(1,2)] by blast
qed

fun rate_run :: "'r redis \<Rightarrow> settings \<Rightarrow> string \<Rightarrow> nat \<Rightarrow> 'r auth_state \<Rightarrow> bool list \<times> 'r auth_state" where
  "rate_run R cfg key 0 s = ([], s)"
| "rate_run R cfg key (Suc n) s =
     (case check_rate_limit R cfg key s of (r, s1) \<Rightarrow>
      case rate_run R cfg key n s1 of (rs, s2) \<Rightarrow> ((r = Inr ()) # rs, s2))"

text \<open>The reset limiter admits exactly the configured number of requests per key and
  window: from a window in which \<open>c\<close> requests were counted, the i-th further one passes if and
  only if it is within the maximum.\<close>

theorem reset_rate_limit:
  assumes R: "redis_kv R" and c: "counter_value (rd_get R (ac_redis s) key) = Some c"
  shows "fst (rate_run R cfg key n s) = map (\<lambda>i. c + int i + 1 \<le> password_reset_rate_limit_max cfg) [0..<n]"
  using c
proof (induction n arbitrary: c s)
  case (Suc n)
  let ?s1 = "snd (check_rate_limit R cfg key s)"
  have 1: "counter_value (rd_get R (ac_redis ?s1) key) = Some (c + 1)"
    using Suc.prems by (simp add: check_rate_limit_get[OF R]) (simp add: counter_value_def)
  have "fst (rd_incr R (ac_redis s) key) = Some (c + 1)"
    using Suc.prems by (simp add: redis_incr_val[OF R])
  then have 2: "fst (check_rate_limit R cfg key s) = Inr () \<longleftrightarrow> c + 1 \<le> password_reset_rate_limit_max cfg"
    by (simp add: check_rate_limit_def case_prod_beta Let_def)
  have "map (\<lambda>i. c + int i + 1 \<le> password_reset_rate_limit_max cfg) [0..<Suc n] =
      (c + 1 \<le> password_reset_rate_limit_max cfg) #
      map (\<lambda>i. (c + 1) + int i + 1 \<le> password_reset_rate_limit_max cfg) [0..<n]"
    by (simp add: upt_conv_Cons map_Suc_upt[symmetric] add.commute add.left_commute del: upt_Suc)
  then show ?case using Suc.IH[OF 1] 2 by (simp add: case_prod_beta del: upt_Suc)
qed simp

text \<open>The revocation has a gap: \<open>refresh\<close> checks the version of the old token and later
  reads the version anew for the new one. When the password changes between the two, the pair
  issued for the pre-change token carries the post-change version and refreshes without error.\<close>

theorem refresh_race_survives_change:
  assumes R: "redis_kv R" and wf: "sessions_wf R s" and d: "distinct (map us_id (ac_users s))"
    and first_half: "refresh_check L R t s = (Inr u, s1)"
    and change: "change_password L R salt u old new s1 = (Inr (), s2)"
    and second_half: "issue_tokens L R cfg now rnd u s2 = (Inr pair, s3)"
  shows "\<exists>pair'. fst (refresh L R cfg now' rnd' (refresh_token pair) s3) = Inr pair'"
proof -
  have u: "canonical (us_id u)" using refresh_check_wf(2)[OF R wf] first_half by (metis fst_conv)
  have f0: "\<exists>a. find_user a (ac_users s) = Some u" "us_active u" "ac_users s1 = ac_users s"
    using first_half by (auto simp: refresh_check_def Let_def case_prod_beta prod_eq_iff
        split: option.splits sum.splits if_splits)
  then have f: "find_user (us_id u) (ac_users s) = Some u" "us_active u" "ac_users s1 = ac_users s"
    using find_user_mem by metis+
  have "ac_users s2 = set_password (us_id u) (lib_hash L new salt) (ac_users s1)"
    using change bump_users by (auto simp: change_password_def Let_def case_prod_beta prod_eq_iff
        split: verify_result.splits sum.splits)
  then have "find_user (us_id u) (ac_users s2) = Some (u\<lparr>us_password_hash := lib_hash L new salt\<rparr>)"
    using f by (simp add: find_user_set_password)
  then show ?thesis using issued_token_refreshes[OF R second_half u] f(2) by (metis user_row.select_convs(6) user_row.surjective user_row.update_convs(3))
qed

section \<open>Evaluations\<close>

definition uuid_1 :: uuid where "uuid_1 = ''00000000-0000-4000-8000-000000000001''"

definition cfg_1 :: settings where
  "cfg_1 = \<lparr>jwt_algorithm = ''RS256'', jwt_kid = ''dev'', jwt_private_key_path = None,
     jwt_public_key_path = None, jwt_private_key_pem = Some ''priv'', jwt_public_key_pem = Some ''pub'',
     jwt_issuer = ''investiq'', jwt_audience = ''investiq-mobile'', access_token_expires_minutes = 15,
     refresh_token_expires_days = 30, default_user_tier = ''free'', default_base_currency = ''INR'',
     password_reset_token_expires_minutes = 30, password_reset_rate_limit_max = 5,
     password_reset_rate_limit_window_seconds = 900\<rparr>"

definition claims_1 :: claims where
  "claims_1 = access_claims cfg_1 uuid_1 ''free'' ''INR'' 0"

definition lib_1 :: auth_lib where
  "lib_1 = \<lparr>lib_jwt = \<lparr>jw_encode = (\<lambda>p key alg kid. ''token''),
       jw_decode = (\<lambda>tok key alg aud iss now. Inr (JObj claims_1)),
       jw_file = (\<lambda>_. None), jw_repr = (\<lambda>_. ''?'')\<rparr>,
     lib_hash = (\<lambda>p salt. p), lib_verify = (\<lambda>h p. if h = p then Verified else Mismatch),
     lib_needs_rehash = (\<lambda>_. False), lib_sha256 = (\<lambda>t. t)\<rparr>"

definition user_1 :: user_row where
  "user_1 = \<lparr>us_id = uuid_1, us_email = ''a@b.c'', us_password_hash = ''old'', us_full_name = None,
     us_locale = ''en-IN'', us_active = True\<rparr>"

definition state_1 :: "mem auth_state" where
  "state_1 = \<lparr>ac_redis = mem_empty, ac_users = [user_1], ac_private_cache = [], ac_public_cache = [],
     ac_sent = [], ac_tasks = []\<rparr>"

lemma canonical_1 [simp]: "canonical uuid_1" by code_simp

lemma state_1_wf: "sessions_wf mem_redis state_1"
  by (simp add: sessions_wf_def token_for_def state_1_def user_1_def mem_redis_def mem_empty_def)

lemma refresh_token_once_witness:
  "fst (refresh lib_1 mem_redis cfg_1 0 ''y'' ''t'' (auth_run lib_1 mem_redis cfg_1
     [Refresh 0 ''x'' ''t'', Login 0 ''s'' ''z'' ''a@b.c'' ''old''] state_1)) =
   Inl (Http 401 ''Invalid or expired refresh token'')"
  by (rule refresh_token_once[OF mem_redis_kv]) simp

lemma private_key_1: "private_key (lib_jwt lib_1) cfg_1 [] = (Inr ''priv'', [((None, Some ''priv''), ''priv'')])"
  by (simp add: lib_1_def cfg_1_def private_key_def cached_pem_def read_pem_def truthy_def dict_set_def)

lemma issue_1:
  assumes "ac_private_cache s = [] \<or> ac_private_cache s = [((None, Some ''priv''), ''priv'')]"
    and "us_id u = uuid_1" and "get_pw_version R uuid_1 (ac_redis s) = Inr v"
  shows "issue_tokens lib_1 R cfg_1 now rnd u s =
    (Inr \<lparr>access_token = ''token'', refresh_token = rnd, expires_in = 900\<rparr>,
     s\<lparr>ac_private_cache := [((None, Some ''priv''), ''priv'')],
       ac_redis := rd_set R (ac_redis s) (rt_key rnd)
         (json_dumps [(''user_id'', Inl uuid_1), (''pw_v'', Inr v)]) (Some 2592000)\<rparr>)"
  using assms by (auto simp: issue_tokens_def create_access_token_def Let_def lib_1_def cfg_1_def
      private_key_def cached_pem_def read_pem_def truthy_def dict_set_def)

definition logged_in :: "mem auth_state" where
  "logged_in = snd (login lib_1 mem_redis cfg_1 0 ''s'' ''t'' ''a@b.c'' ''old'' state_1)"

lemma version_1: "get_pw_version mem_redis uuid_1 mem_empty = Inr 0"
  by (simp add: get_pw_version_def mem_redis_def mem_empty_def)

lemma issue_state_1:
  "issue_tokens lib_1 mem_redis cfg_1 0 ''t'' user_1 state_1 =
    (Inr \<lparr>access_token = ''token'', refresh_token = ''t'', expires_in = 900\<rparr>,
     state_1\<lparr>ac_private_cache := [((None, Some ''priv''), ''priv'')],
       ac_redis := rd_set mem_redis mem_empty (rt_key ''t'')
         (json_dumps [(''user_id'', Inl uuid_1), (''pw_v'', Inr 0)]) (Some 2592000)\<rparr>)"
  using issue_1[of state_1 user_1 mem_redis 0 0 "''t''"] version_1
  by (simp add: state_1_def user_1_def)

lemma login_1:
  "login lib_1 mem_redis cfg_1 0 ''s'' ''t'' ''a@b.c'' ''old'' state_1 =
     (Inr \<lparr>access_token = ''token'', refresh_token = ''t'', expires_in = 900\<rparr>, logged_in)"
  "logged_in = state_1\<lparr>ac_private_cache := [((None, Some ''priv''), ''priv'')],
       ac_redis := rd_set mem_redis mem_empty (rt_key ''t'')
         (json_dumps [(''user_id'', Inl uuid_1), (''pw_v'', Inr 0)]) (Some 2592000)\<rparr>"
proof -
  have e: "str_lower ''a@b.c'' = ''a@b.c''" by code_simp
  have f: "find_email ''a@b.c'' (ac_users state_1) = Some user_1"
    by (simp add: find_email_def state_1_def user_1_def)
  have "login lib_1 mem_redis cfg_1 0 ''s'' ''t'' ''a@b.c'' ''old'' state_1 =
      issue_tokens lib_1 mem_redis cfg_1 0 ''t'' user_1 state_1"
    unfolding login_def Let_def e f by (simp add: lib_1_def user_1_def)
  then show "login lib_1 mem_redis cfg_1 0 ''s'' ''t'' ''a@b.c'' ''old'' state_1 =
     (Inr \<lparr>access_token = ''token'', refresh_token = ''t'', expires_in = 900\<rparr>, logged_in)"
    "logged_in = state_1\<lparr>ac_private_cache := [((None, Some ''priv''), ''priv'')],
       ac_redis := rd_set mem_redis mem_empty (rt_key ''t'')
         (json_dumps [(''user_id'', Inl uuid_1), (''pw_v'', Inr 0)]) (Some 2592000)\<rparr>"
    unfolding logged_in_def by (simp_all add: issue_state_1)
qed

lemma token_t: "token_for mem_redis ''t'' uuid_1 0 logged_in"
  by (simp add: token_for_def login_1(2) redis_kv_simps[OF mem_redis_kv])

lemma change_1:
  assumes "get_pw_version mem_redis uuid_1 (ac_redis s) = Inr 0"
  shows "fst (change_password lib_1 mem_redis ''s'' user_1 ''old'' ''new'' s) = Inr ()"
proof -
  have "counter_value (rd_get mem_redis (ac_redis s) (pwv_key uuid_1)) = Some 0"
    using assms by (simp add: version_alt split: option.splits)
  then have "fst (rd_incr mem_redis (ac_redis s) (pwv_key uuid_1)) = Some 1"
    by (simp add: redis_incr_val[OF mem_redis_kv])
  then show ?thesis
    by (simp add: change_password_def lib_1_def user_1_def bump_pw_version_def case_prod_beta Let_def)
qed

lemma version_logged_in: "get_pw_version mem_redis uuid_1 (ac_redis logged_in) = Inr 0"
  using version_1 by (simp add: login_1(2) version_alt redis_kv_simps[OF mem_redis_kv])

lemma password_change_revokes_witness:
  "\<exists>e. fst (refresh lib_1 mem_redis cfg_1 0 ''r'' ''t'' (auth_run lib_1 mem_redis cfg_1 [Logout ''q'']
      (snd (change_password lib_1 mem_redis ''s'' user_1 ''old'' ''new'' logged_in)))) = Inl e"
proof (rule password_change_revokes[OF mem_redis_kv state_1_wf])
  show "logged_in = auth_run lib_1 mem_redis cfg_1 [Login 0 ''s'' ''t'' ''a@b.c'' ''old''] state_1"
    by (simp add: auth_run_def logged_in_def)
  show "token_for mem_redis ''t'' uuid_1 0 logged_in" by (rule token_t)
  show "change_password lib_1 mem_redis ''s'' user_1 ''old'' ''new'' logged_in =
      (Inr (), snd (change_password lib_1 mem_redis ''s'' user_1 ''old'' ''new'' logged_in)) \<and> us_id user_1 = uuid_1 \<or>
    reset_password lib_1 mem_redis ''s'' ''x'' ''new'' logged_in =
      (Inr (), snd (change_password lib_1 mem_redis ''s'' user_1 ''old'' ''new'' logged_in)) \<and>
    rd_get mem_redis (ac_redis logged_in) (pwreset_key (lib_sha256 lib_1 ''x'')) =
      Some (json_dumps [(''user_id'', Inl uuid_1)])"
    using change_1[OF version_logged_in] by (simp add: prod_eq_iff user_1_def)
qed simp_all

lemma login_starts_session_witness:
  "(\<exists>u. fst (get_current_user lib_1 cfg_1 5 (Some ''token'') logged_in) = Inr u \<and> us_active u) \<and>
   (\<exists>p. fst (refresh lib_1 mem_redis cfg_1 5 ''n'' ''t'' logged_in) = Inr p)"
proof -
  have e: "from_timestamp (unix_seconds (0 + access_token_expires_minutes cfg_1 * minute)) = Some (900 * second)"
    by code_simp
  have pub: "fst (public_key (lib_jwt lib_1) cfg_1 (ac_public_cache state_1)) = Inr ''pub''"
    by (simp add: lib_1_def cfg_1_def state_1_def public_key_def cached_pem_def read_pem_def truthy_def)
  have law: "\<forall>u \<in> set (ac_users state_1). jwt_law (lib_jwt lib_1) ''priv'' ''pub''
      (access_claims cfg_1 (us_id u) (default_user_tier cfg_1) (default_base_currency cfg_1) 0)"
    by (simp add: state_1_def user_1_def jwt_law_def lib_1_def claims_1_def cfg_1_def)
  have priv: "private_key (lib_jwt lib_1) cfg_1 (ac_private_cache state_1) =
      (Inr ''priv'', [((None, Some ''priv''), ''priv'')])"
    using private_key_1 by (simp add: state_1_def)
  have d: "distinct (map us_id (ac_users state_1))" by (simp add: state_1_def)
  show ?thesis
    using login_starts_session[OF mem_redis_kv state_1_wf d login_1(1) priv pub law e, of 5 "''n''"] by auto
qed

lemma reset_rate_limit_witness:
  "fst (rate_run mem_redis cfg_1 ''auth:pwreset:rl:ip:x'' 7 state_1) =
     [True, True, True, True, True, False, False]"
proof -
  have "counter_value (rd_get mem_redis (ac_redis state_1) ''auth:pwreset:rl:ip:x'') = Some 0"
    by (simp add: mem_redis_def state_1_def mem_empty_def counter_value_def)
  moreover have "map (\<lambda>i. 0 + int i + 1 \<le> password_reset_rate_limit_max cfg_1) [0..<7] =
      [True, True, True, True, True, False, False]" by code_simp
  ultimately show ?thesis using reset_rate_limit[OF mem_redis_kv, of state_1 _ 0 cfg_1 7] by simp
qed

lemma refresh_check_pwv:
  assumes "redis_kv R"
  shows "rd_get R (ac_redis (snd (refresh_check L R t s))) (pwv_key u) = rd_get R (ac_redis s) (pwv_key u)"
  by (simp add: refresh_check_def Let_def case_prod_beta redis_kv_simps[OF assms] split: option.split sum.split)

lemma refresh_race_survives_change_witness:
  "let s1 = snd (refresh_check lib_1 mem_redis ''t'' logged_in);
       s2 = snd (change_password lib_1 mem_redis ''s'' user_1 ''old'' ''new'' s1);
       s3 = snd (issue_tokens lib_1 mem_redis cfg_1 0 ''stolen'' user_1 s2)
   in \<exists>p. fst (refresh lib_1 mem_redis cfg_1 1 ''n'' ''stolen'' s3) = Inr p"
proof -
  let ?s1 = "snd (refresh_check lib_1 mem_redis ''t'' logged_in)"
  let ?s2 = "snd (change_password lib_1 mem_redis ''s'' user_1 ''old'' ''new'' ?s1)"
  have wf: "sessions_wf mem_redis logged_in"
    using auth_step_wf[OF mem_redis_kv state_1_wf, of "Login 0 ''s'' ''t'' ''a@b.c'' ''old''" lib_1 cfg_1]
    by (simp add: logged_in_def)
  have d: "distinct (map us_id (ac_users logged_in))" by (simp add: login_1(2) state_1_def)
  have f: "find_user (us_id user_1) (ac_users state_1) = Some user_1"
    by (simp add: find_user_def state_1_def)
  have i: "issue_tokens lib_1 mem_redis cfg_1 0 ''t'' user_1 state_1 =
      (Inr \<lparr>access_token = ''token'', refresh_token = ''t'', expires_in = 900\<rparr>, logged_in)"
    by (simp add: issue_state_1 login_1(2))
  have c: "canonical (us_id user_1)" "us_active user_1" "us_id user_1 = uuid_1" by (simp_all add: user_1_def)
  note ck = issued_token_checks[OF mem_redis_kv i c(1) f c(2), unfolded token_pair.select_convs c(3)]
  have 1: "refresh_check lib_1 mem_redis ''t'' logged_in = (Inr user_1, ?s1)"
    using ck(1) by (simp add: prod_eq_iff)
  have v: "get_pw_version mem_redis uuid_1 (ac_redis ?s1) = Inr 0"
    using version_logged_in by (simp add: version_alt refresh_check_pwv[OF mem_redis_kv])
  have 2: "change_password lib_1 mem_redis ''s'' user_1 ''old'' ''new'' ?s1 = (Inr (), ?s2)"
    using change_1[OF v] by (simp add: prod_eq_iff)
  have p: "ac_private_cache ?s2 = [((None, Some ''priv''), ''priv'')]"
    using ck(2) by (auto simp: login_1(2) change_password_def Let_def case_prod_beta bump_pw_version_def
        split: option.split sum.split verify_result.split)
  obtain w where w: "get_pw_version mem_redis uuid_1 (ac_redis ?s2) = Inr w"
    using auth_step_version[OF mem_redis_kv, of uuid_1 ?s1 lib_1 cfg_1 "Change_password ''s'' user_1 ''old'' ''new''"] v
    by (auto simp: version_of_def version_alt version_le_def split: option.splits)
  have 3: "issue_tokens lib_1 mem_redis cfg_1 0 ''stolen'' user_1 ?s2 =
      (Inr \<lparr>access_token = ''token'', refresh_token = ''stolen'', expires_in = 900\<rparr>,
       snd (issue_tokens lib_1 mem_redis cfg_1 0 ''stolen'' user_1 ?s2))"
    using issue_1[of ?s2 user_1 mem_redis w 0 "''stolen''"] p w c(3) by simp
  show ?thesis
    using refresh_race_survives_change[OF mem_redis_kv wf d 1 2 3, of 1 "''n''"] by (simp add: Let_def)
qed

end
