(* ===== verification/PyDate.thy ===== *)
theory PyDate
  imports PyText
begin

text \<open>
  Calendar arithmetic of \<open>datetime\<close>: a date is the number of days since 1970-01-01, an
  instant microseconds since then in UTC. The civil date of a day number follows the
  proleptic Gregorian calendar, which is Python's.
\<close>

definition day_us :: int where "day_us = 86400000000"

definition date_of :: "instant \<Rightarrow> day" where "date_of t = t div day_us"

definition midnight :: "day \<Rightarrow> instant" where "midnight d = d * day_us"

lemma date_of_midnight [simp]: "date_of (midnight d) = d"
  by (simp add: date_of_def midnight_def day_us_def)

lemma midnight_inj [simp]: "midnight d = midnight d' \<longleftrightarrow> d = d'"
  by (simp add: midnight_def day_us_def)

lemma midnight_le_iff [simp]: "midnight d \<le> midnight d' \<longleftrightarrow> d \<le> d'"
  by (simp add: midnight_def day_us_def)

lemma midnight_date_of: "midnight (date_of t) \<le> t"
  unfolding midnight_def date_of_def by (metis day_us_def mult.commute mult_div_mod_eq
      add_increasing2 order_refl pos_mod_sign zero_less_numeral)

text \<open>\<open>date.weekday()\<close>: Monday is 0; 1970-01-01 was a Thursday.\<close>

definition weekday :: "day \<Rightarrow> int" where "weekday d = (d + 3) mod 7"

definition civil :: "day \<Rightarrow> int \<times> int \<times> int" where
  "civil d =
     (let z = d + 719468;
          era = z div 146097;
          doe = z - era * 146097;
          yoe = (doe - doe div 1460 + doe div 36524 - doe div 146096) div 365;
          doy = doe - (365 * yoe + yoe div 4 - yoe div 100);
          mp = (5 * doy + 2) div 153;
          dd = doy - (153 * mp + 2) div 5 + 1;
          mm = (if mp < 10 then mp + 3 else mp - 9);
          yy = yoe + era * 400 + (if mm \<le> 2 then 1 else 0)
      in (yy, mm, dd))"

lemma civil_examples:
  "civil 0 = (1970, 1, 1)" "civil 20512 = (2026, 2, 28)" "civil 19782 = (2024, 2, 29)"
  by code_simp+

definition pad :: "nat \<Rightarrow> int \<Rightarrow> string" where
  "pad n k = (let ds = int_str k in replicate (n - length ds) CHR ''0'' @ ds)"

definition iso_date :: "day \<Rightarrow> string" where
  "iso_date d = (case civil d of (y, m, dd) \<Rightarrow> pad 4 y @ ''-'' @ pad 2 m @ ''-'' @ pad 2 dd)"

definition iso_instant :: "instant \<Rightarrow> string" where
  "iso_instant t =
     (let s = (t mod day_us) div second; us = t mod second
      in iso_date (date_of t) @ ''T'' @ pad 2 (s div 3600) @ '':'' @ pad 2 (s div 60 mod 60) @ '':'' @
         pad 2 (s mod 60) @ (if us = 0 then [] else ''.'' @ pad 6 us) @ ''+00:00'')"

declare pad_def [py_eval] iso_date_def [py_eval] iso_instant_def [py_eval]

lemma iso_example: "iso_instant 1772236800000000 = ''2026-02-28T00:00:00+00:00''"
  by code_simp

end
