(* ===== verification/Fx.thy ===== *)
theory Fx
  imports PyDate Redis
begin

text \<open>
  Exchange rates: \<open>services/fx.py\<close>. The table \<open>fx_rates\<close> is the list of its rows. A query
  \<open>where ... order by as_of desc limit 1\<close> is a filter, a stable descending sort and the head.
  The two feeds behind \<open>FredEcbClient\<close> are parameters.
  The locale \<open>rate_source\<close> is what the portfolio services rely on; the table lookup
  interprets it.
\<close>

record fx_row =
  fx_base :: string
  fx_quote :: string
  fx_rate :: rat
  fx_as_of :: instant

type_synonym fx_table = "fx_row list"

datatype fx_error = Fx_rate_not_found string

section \<open>Lookup\<close>

definition fx_cache_key :: "string \<Rightarrow> string \<Rightarrow> string" where
  "fx_cache_key base quote = ''fx:'' @ str_upper base @ ''_'' @ str_upper quote"

definition fx_lookup :: "fx_table \<Rightarrow> string \<Rightarrow> string \<Rightarrow> instant option \<Rightarrow> rat option" where
  "fx_lookup tab base quote as_of =
     (let rows = filter (\<lambda>r. fx_base r = base \<and> fx_quote r = quote \<and>
                     (case as_of of None \<Rightarrow> True | Some t \<Rightarrow> fx_as_of r \<le> t)) tab
      in case sort_desc (\<lambda>r. of_int (fx_as_of r)) rows of [] \<Rightarrow> None | r # _ \<Rightarrow> Some (fx_rate r))"

definition get_rate :: "fx_table \<Rightarrow> string \<Rightarrow> string \<Rightarrow> instant option \<Rightarrow> fx_error + rat" where
  "get_rate tab base quote as_of =
     (let base_u = str_upper base; quote_u = str_upper quote in
      if base_u = quote_u then Inr 1
      else case fx_lookup tab base_u quote_u as_of of
        Some rate \<Rightarrow> Inr rate
      | None \<Rightarrow>
          (case fx_lookup tab quote_u base_u as_of of
             Some back \<Rightarrow> if back \<noteq> 0 then Inr (ddiv 1 back)
                 else Inl (Fx_rate_not_found (''No FX rate for '' @ base_u @ ''/'' @ quote_u))
           | None \<Rightarrow> Inl (Fx_rate_not_found (''No FX rate for '' @ base_u @ ''/'' @ quote_u))))"

definition fx_convert ::
  "fx_table \<Rightarrow> rat \<Rightarrow> string \<Rightarrow> string \<Rightarrow> instant option \<Rightarrow> fx_error + (rat \<times> rat)" where
  "fx_convert tab amount from_currency to_currency as_of =
     bind_res (get_rate tab from_currency to_currency as_of) (\<lambda>rate. Inr (dmul amount rate, rate))"

section \<open>Refresh\<close>

record fx_observation =
  ob_base :: string
  ob_quote :: string
  ob_rate :: decimal
  ob_as_of :: instant
  ob_source :: string

text \<open>An upstream failure is its message. FRED first, then ECB.\<close>

definition get_latest_usd_inr ::
  "(day option \<Rightarrow> string + fx_observation) \<Rightarrow> (day option \<Rightarrow> string + fx_observation) \<Rightarrow>
   day option \<Rightarrow> string + fx_observation" where
  "get_latest_usd_inr fred ecb as_of =
     (case fred as_of of Inr ob \<Rightarrow> Inr ob | Inl _ \<Rightarrow> ecb as_of)"

text \<open>Insert, or on a conflict of base, quote and instant update the rate of that row.\<close>

definition same_key :: "fx_row \<Rightarrow> fx_row \<Rightarrow> bool" where
  "same_key r s \<longleftrightarrow> fx_base r = fx_base s \<and> fx_quote r = fx_quote s \<and> fx_as_of r = fx_as_of s"

definition fx_upsert_row :: "fx_row \<Rightarrow> fx_table \<Rightarrow> fx_table" where
  "fx_upsert_row new tab =
     (if \<exists>r \<in> set tab. same_key r new
      then map (\<lambda>r. if same_key r new then r\<lparr>fx_rate := fx_rate new\<rparr> else r) tab
      else tab @ [new])"

text \<open>The column is \<open>Numeric(20, 10)\<close>: PostgreSQL rounds what is written to ten decimals, a half away
  from zero, and refuses a rounded value of more than ten digits before the point. The refused
  statement raises out of the refresh before the commit.\<close>

definition round_half_away :: "rat \<Rightarrow> int" where
  "round_half_away x = (if 0 \<le> x then \<lfloor>x + 1 / 2\<rfloor> else - \<lfloor>1 / 2 - x\<rfloor>)"

definition numeric_column :: "nat \<Rightarrow> nat \<Rightarrow> rat \<Rightarrow> rat option" where
  "numeric_column precision scale x =
     (let v = of_int (round_half_away (x * 10 ^ scale)) / 10 ^ scale
      in if \<bar>v\<bar> < 10 ^ (precision - scale) then Some v else None)"

definition rate_column :: "rat \<Rightarrow> rat option" where "rate_column = numeric_column 20 10"

definition fx_upsert :: "fx_observation \<Rightarrow> fx_table \<Rightarrow> fx_table option" where
  "fx_upsert ob tab =
     (let as_of_day = midnight (date_of (ob_as_of ob))
      in map_option (\<lambda>rate. fx_upsert_row \<lparr>fx_base = ob_base ob, fx_quote = ob_quote ob, fx_rate = rate,
                         fx_as_of = as_of_day\<rparr> tab) (rate_column (dec_val (ob_rate ob))))"

definition FX_CACHE_TTL_SECONDS :: int where "FX_CACHE_TTL_SECONDS = 24 * 60 * 60"

definition fx_cache :: "'r redis \<Rightarrow> fx_observation \<Rightarrow> 'r \<Rightarrow> 'r" where
  "fx_cache R ob r =
     (let payload = json_dumps [(''rate'', Inl (dec_str (ob_rate ob))),
                                (''as_of'', Inl (iso_instant (ob_as_of ob))),
                                (''source'', Inl (ob_source ob))]
      in rd_set R r (fx_cache_key (ob_base ob) (ob_quote ob)) payload (Some FX_CACHE_TTL_SECONDS))"

definition NUMERIC_OVERFLOW :: string where "NUMERIC_OVERFLOW = ''numeric field overflow''"

definition refresh_usd_inr ::
  "'r redis \<Rightarrow> (day option \<Rightarrow> string + fx_observation) \<Rightarrow> (day option \<Rightarrow> string + fx_observation) \<Rightarrow>
   day option \<Rightarrow> fx_table \<Rightarrow> 'r \<Rightarrow> (string + fx_observation) \<times> fx_table \<times> 'r" where
  "refresh_usd_inr R fred ecb as_of tab r =
     (case get_latest_usd_inr fred ecb as_of of
        Inl e \<Rightarrow> (Inl e, tab, r)
      | Inr ob \<Rightarrow>
          (case fx_upsert ob tab of
             None \<Rightarrow> (Inl NUMERIC_OVERFLOW, tab, r)
           | Some tab' \<Rightarrow> (Inr ob, tab', fx_cache R ob r)))"

section \<open>The newest row\<close>

definition newest_row :: "fx_table \<Rightarrow> string \<Rightarrow> string \<Rightarrow> instant option \<Rightarrow> fx_row \<Rightarrow> bool" where
  "newest_row tab base quote as_of r \<longleftrightarrow>
     r \<in> set tab \<and> fx_base r = base \<and> fx_quote r = quote \<and>
     (case as_of of None \<Rightarrow> True | Some t \<Rightarrow> fx_as_of r \<le> t) \<and>
     (\<forall>s \<in> set tab. fx_base s = base \<longrightarrow> fx_quote s = quote \<longrightarrow>
        (case as_of of None \<Rightarrow> True | Some t \<Rightarrow> fx_as_of s \<le> t) \<longrightarrow> fx_as_of s \<le> fx_as_of r)"

definition unique_rates :: "fx_table \<Rightarrow> bool" where
  "unique_rates tab \<longleftrightarrow> distinct (map (\<lambda>r. (fx_base r, fx_quote r, fx_as_of r)) tab)"

lemma fx_lookup_None:
  "fx_lookup tab base quote as_of = None \<longleftrightarrow>
     (\<forall>r \<in> set tab. \<not> (fx_base r = base \<and> fx_quote r = quote \<and>
        (case as_of of None \<Rightarrow> True | Some t \<Rightarrow> fx_as_of r \<le> t)))"
proof -
  let ?P = "\<lambda>r. fx_base r = base \<and> fx_quote r = quote \<and>
        (case as_of of None \<Rightarrow> True | Some t \<Rightarrow> fx_as_of r \<le> t)"
  have "fx_lookup tab base quote as_of = None \<longleftrightarrow> sort_desc (\<lambda>r. of_int (fx_as_of r)) (filter ?P tab) = []"
    unfolding fx_lookup_def Let_def by (cases "sort_desc (\<lambda>r. of_int (fx_as_of r)) (filter ?P tab)") simp_all
  also have "\<dots> \<longleftrightarrow> filter ?P tab = []" by (rule sort_desc_Nil)
  finally show ?thesis unfolding filter_empty_conv .
qed

lemma fx_lookup_Some:
  assumes "fx_lookup tab base quote as_of = Some x"
  obtains r where "newest_row tab base quote as_of r" "fx_rate r = x"
proof -
  let ?P = "\<lambda>r. fx_base r = base \<and> fx_quote r = quote \<and>
        (case as_of of None \<Rightarrow> True | Some t \<Rightarrow> fx_as_of r \<le> t)"
  let ?s = "sort_desc (\<lambda>r. of_int (fx_as_of r)) (filter ?P tab)"
  obtain r rs where s: "?s = r # rs" "fx_rate r = x"
    using assms unfolding fx_lookup_def Let_def
    by (cases "sort_desc (\<lambda>r. of_int (fx_as_of r)) (filter ?P tab)") simp_all
  have "r \<in> set ?s" using s by simp
  then have r: "r \<in> set tab" "?P r" by simp_all
  have "sorted_wrt (\<lambda>x y. (of_int (fx_as_of y) :: rat) \<le> of_int (fx_as_of x)) ?s" by (rule sort_desc_sorted)
  then have "\<forall>y \<in> set rs. fx_as_of y \<le> fx_as_of r" unfolding s by simp
  then have "\<forall>y \<in> set ?s. fx_as_of y \<le> fx_as_of r" unfolding s by simp
  then have "\<forall>y \<in> set tab. ?P y \<longrightarrow> fx_as_of y \<le> fx_as_of r" by simp
  then have "newest_row tab base quote as_of r" using r unfolding newest_row_def by blast
  then show thesis using s(2) that by blast
qed

lemma newest_row_unique:
  assumes "unique_rates tab" "newest_row tab b q t r" "newest_row tab b q t s"
  shows "r = s"
proof -
  have "r \<in> set tab" "s \<in> set tab" "fx_base r = b" "fx_base s = b" "fx_quote r = q" "fx_quote s = q"
    "fx_as_of r \<le> fx_as_of s" "fx_as_of s \<le> fx_as_of r"
    using assms(2,3) unfolding newest_row_def by blast+
  then show ?thesis
    using assms(1) inj_onD[of "\<lambda>r. (fx_base r, fx_quote r, fx_as_of r)" "set tab" r s]
    by (simp add: unique_rates_def distinct_map)
qed

lemma fx_lookup_newest:
  assumes "unique_rates tab" "newest_row tab b q t r"
  shows "fx_lookup tab b q t = Some (fx_rate r)"
proof (cases "fx_lookup tab b q t")
  case None
  then show ?thesis using assms(2) unfolding fx_lookup_None newest_row_def by blast
next
  case (Some x)
  then obtain s where "newest_row tab b q t s" "fx_rate s = x" by (rule fx_lookup_Some)
  then show ?thesis using Some newest_row_unique[OF assms] by simp
qed

section \<open>The contract of a rate source\<close>

locale rate_source =
  fixes rate :: "'db \<Rightarrow> string \<Rightarrow> string \<Rightarrow> instant option \<Rightarrow> fx_error + rat" and rates_ok :: "'db \<Rightarrow> bool"
  assumes rate_same: "str_upper b = str_upper q \<Longrightarrow> rate db b q t = Inr 1"
    and rate_positive: "rates_ok db \<Longrightarrow> rate db b q t = Inr r \<Longrightarrow> 0 < r"
begin

text \<open>A client values a holding with the rate, or with zero where there is none.\<close>

definition rate_or_zero :: "'db \<Rightarrow> string \<Rightarrow> string \<Rightarrow> instant option \<Rightarrow> rat" where
  "rate_or_zero db b q t = (case rate db b q t of Inr r \<Rightarrow> r | Inl _ \<Rightarrow> 0)"

lemma rate_or_zero_nonneg: "rates_ok db \<Longrightarrow> 0 \<le> rate_or_zero db b q t"
  using rate_positive[of db b q t] by (auto simp: rate_or_zero_def less_imp_le split: sum.split)

lemma value_nonneg: "rates_ok db \<Longrightarrow> 0 \<le> x \<Longrightarrow> 0 \<le> dmul x (rate_or_zero db b q t)"
  unfolding dmul_def by (intro dc.rnd_nonneg mult_nonneg_nonneg rate_or_zero_nonneg)

lemma value_same: "str_upper b = str_upper q \<Longrightarrow> dmul x (rate_or_zero db b q t) = d28 x"
  by (simp add: rate_or_zero_def rate_same dmul_def)

lemma converted_nonneg:
  "rates_ok db \<Longrightarrow> rate db b q t = Inr r \<Longrightarrow> 0 \<le> x \<Longrightarrow> 0 \<le> dmul x r"
  using rate_positive[of db b q t r] by (simp add: dmul_def dc.rnd_nonneg)

end

text \<open>What a \<open>Numeric(20, 10)\<close> column of genuine rates holds.\<close>

definition table_ok :: "fx_table \<Rightarrow> bool" where
  "table_ok tab \<longleftrightarrow> (\<forall>r \<in> set tab. 0 < fx_rate r \<and> fx_rate r \<le> 10 ^ 10)"

lemma fx_lookup_ok:
  assumes "table_ok tab" "fx_lookup tab b q t = Some x"
  shows "0 < x" "x \<le> 10 ^ 10"
proof -
  obtain r where "newest_row tab b q t r" "fx_rate r = x" using assms(2) by (rule fx_lookup_Some)
  then show "0 < x" "x \<le> 10 ^ 10" using assms(1) by (auto simp: newest_row_def table_ok_def)
qed

lemma inverse_rate_bounds:
  assumes "0 < x" "x \<le> 10 ^ 10"
  shows "0 < ddiv 1 x" "\<bar>ddiv 1 x * x - 1\<bar> \<le> 1 / 10 ^ 27"
proof -
  have "(1 :: rat) / 10 ^ 100 \<le> 1 / 10 ^ 10" by (intro divide_left_mono power_increasing) simp_all
  also have "\<dots> \<le> 1 / x" using assms by (intro divide_left_mono) simp_all
  finally have lo: "1 / 10 ^ 100 \<le> 1 / x" .
  show "0 < ddiv 1 x" unfolding ddiv_def by (rule d28_pos[OF lo])
  define e :: rat where "e = 1 / 10 ^ 27"
  have "ddiv 1 x \<le> 1 / x * (1 + e)" "1 / x * (1 - e) \<le> ddiv 1 x"
    unfolding ddiv_def e_def by (rule d28_error[OF lo])+
  then have "ddiv 1 x * x \<le> 1 + e" "1 - e \<le> ddiv 1 x * x"
    using assms(1) by (simp_all add: le_divide_eq divide_le_eq)
  then show "\<bar>ddiv 1 x * x - 1\<bar> \<le> 1 / 10 ^ 27" unfolding e_def[symmetric] by linarith
qed

interpretation fx: rate_source get_rate table_ok
proof unfold_locales
  show "get_rate tab b q t = Inr 1" if "str_upper b = str_upper q" for b q tab t
    using that by (simp add: get_rate_def)
  show "0 < r" if "table_ok tab" "get_rate tab b q t = Inr r" for tab b q t r
    using that by (auto simp: get_rate_def Let_def intro: fx_lookup_ok inverse_rate_bounds(1)
        split: option.splits if_splits)
qed

section \<open>Refresh and lookup\<close>

lemma unique_upsert_row:
  assumes "unique_rates tab" shows "unique_rates (fx_upsert_row new tab)"
proof (cases "\<exists>r \<in> set tab. same_key r new")
  case True
  have m: "map (\<lambda>r. (fx_base r, fx_quote r, fx_as_of r))
      (map (\<lambda>r. if same_key r new then r\<lparr>fx_rate := fx_rate new\<rparr> else r) tab) =
      map (\<lambda>r. (fx_base r, fx_quote r, fx_as_of r)) tab" by simp
  show ?thesis
    using assms True unfolding unique_rates_def fx_upsert_row_def by (simp only: if_True m)
next
  case False
  then show ?thesis using assms by (auto simp: unique_rates_def fx_upsert_row_def same_key_def)
qed

lemma upsert_row_mem:
  "\<exists>r \<in> set (fx_upsert_row new tab). same_key r new \<and> fx_rate r = fx_rate new"
proof (cases "\<exists>r \<in> set tab. same_key r new")
  case True
  then obtain r where r: "r \<in> set tab" "same_key r new" by blast
  then have "r\<lparr>fx_rate := fx_rate new\<rparr> \<in> set (fx_upsert_row new tab)"
    using True by (force simp: fx_upsert_row_def)
  then show ?thesis using r(2) by (intro bexI) (simp_all add: same_key_def)
qed (auto simp: fx_upsert_row_def same_key_def)

lemma upsert_row_keys:
  "r \<in> set (fx_upsert_row new tab) \<Longrightarrow> same_key r new \<or> r \<in> set tab"
  by (auto simp: fx_upsert_row_def same_key_def split: if_splits)

lemma round_half_away_near: "\<bar>of_int (round_half_away x) - x\<bar> \<le> 1 / 2"
proof (cases "0 \<le> x")
  case True
  have "of_int \<lfloor>x + 1 / 2\<rfloor> \<le> x + 1 / 2" "x + 1 / 2 < of_int \<lfloor>x + 1 / 2\<rfloor> + 1" by linarith+
  then have "\<bar>of_int \<lfloor>x + 1 / 2\<rfloor> - x\<bar> \<le> 1 / 2" by linarith
  then show ?thesis using True by (simp only: round_half_away_def if_True)
next
  case False
  have "of_int \<lfloor>1 / 2 - x\<rfloor> \<le> 1 / 2 - x" "1 / 2 - x < of_int \<lfloor>1 / 2 - x\<rfloor> + 1" by linarith+
  then have "\<bar>of_int (- \<lfloor>1 / 2 - x\<rfloor>) - x\<bar> \<le> 1 / 2" by linarith
  then show ?thesis using False by (simp only: round_half_away_def if_False)
qed

lemma round_half_away_int: "round_half_away (of_int n) = n"
proof -
  have "\<lfloor>of_int n + 1 / 2 :: rat\<rfloor> = n" "\<lfloor>1 / 2 - of_int n :: rat\<rfloor> = - n" by linarith+
  then show ?thesis by (simp add: round_half_away_def)
qed

lemma numeric_column_Some:
  assumes "numeric_column p s x = Some v"
  shows "\<bar>v - x\<bar> \<le> 1 / (2 * 10 ^ s)" "\<exists>n. v = of_int n / 10 ^ s" "x = of_int n / 10 ^ s \<Longrightarrow> v = x"
proof -
  have v: "v = of_int (round_half_away (x * 10 ^ s)) / 10 ^ s"
    using assms by (auto simp: numeric_column_def Let_def split: if_splits)
  have "\<bar>v - x\<bar> = \<bar>of_int (round_half_away (x * 10 ^ s)) - x * 10 ^ s\<bar> / 10 ^ s"
    unfolding v by (simp add: diff_divide_distrib[symmetric] divide_diff_eq_iff)
  also have "\<dots> \<le> 1 / 2 / 10 ^ s"
    by (rule divide_right_mono[OF round_half_away_near]) simp
  finally show "\<bar>v - x\<bar> \<le> 1 / (2 * 10 ^ s)" by simp
  show "\<exists>n. v = of_int n / 10 ^ s" using v by blast
  show "v = x" if "x = of_int n / 10 ^ s" using that v round_half_away_int by simp
qed

lemma numeric_column_None:
  assumes "numeric_column p s x = None"
  shows "10 ^ (p - s) - 1 / (2 * 10 ^ s) \<le> \<bar>x\<bar>"
proof -
  define v where "v = of_int (round_half_away (x * 10 ^ s)) / (10 :: rat) ^ s"
  have big: "10 ^ (p - s) \<le> \<bar>v\<bar>" using assms by (simp add: numeric_column_def Let_def v_def split: if_splits)
  have "\<bar>v - x\<bar> = \<bar>of_int (round_half_away (x * 10 ^ s)) - x * 10 ^ s\<bar> / 10 ^ s"
    unfolding v_def by (simp add: diff_divide_distrib[symmetric] divide_diff_eq_iff)
  also have "\<dots> \<le> 1 / 2 / 10 ^ s"
    by (rule divide_right_mono[OF round_half_away_near]) simp
  finally have "\<bar>v - x\<bar> \<le> 1 / (2 * 10 ^ s)" by simp
  then show ?thesis using big by linarith
qed

section \<open>Properties\<close>

text \<open>A rate is the newest one on record at the asked time: for two different currencies
  \<open>get_rate\<close> returns the rate of the newest direct row if there is any, else the rounded
  inverse of the newest reverse row if that is not zero, and fails in every other case.\<close>

theorem get_rate_newest:
  assumes "unique_rates tab" "str_upper b \<noteq> str_upper q"
  shows "(\<forall>r. newest_row tab (str_upper b) (str_upper q) t r \<longrightarrow> get_rate tab b q t = Inr (fx_rate r)) \<and>
    (\<forall>r. (\<nexists>s. newest_row tab (str_upper b) (str_upper q) t s) \<longrightarrow>
        newest_row tab (str_upper q) (str_upper b) t r \<longrightarrow> fx_rate r \<noteq> 0 \<longrightarrow>
        get_rate tab b q t = Inr (ddiv 1 (fx_rate r))) \<and>
    ((\<nexists>s. newest_row tab (str_upper b) (str_upper q) t s) \<longrightarrow>
       (\<nexists>s. newest_row tab (str_upper q) (str_upper b) t s \<and> fx_rate s \<noteq> 0) \<longrightarrow>
       (\<exists>m. get_rate tab b q t = Inl (Fx_rate_not_found m)))"
proof -
  have none: "fx_lookup tab x y t = None" if "\<nexists>s. newest_row tab x y t s" for x y
  proof (rule ccontr)
    assume "fx_lookup tab x y t \<noteq> None"
    then obtain z where "fx_lookup tab x y t = Some z" by blast
    then obtain s where "newest_row tab x y t s" by (rule fx_lookup_Some)
    then show False using that by blast
  qed
  have zero: "fx_lookup tab x y t \<in> {None, Some 0}" if "\<nexists>s. newest_row tab x y t s \<and> fx_rate s \<noteq> 0" for x y
  proof (cases "fx_lookup tab x y t")
    case (Some z)
    then obtain s where "newest_row tab x y t s" "fx_rate s = z" by (rule fx_lookup_Some)
    then have "z = 0" using that by metis
    then show ?thesis using Some by simp
  qed simp
  let ?b = "str_upper b" and ?q = "str_upper q"
  have direct: "get_rate tab b q t = Inr x" if "fx_lookup tab ?b ?q t = Some x" for x
    using that assms(2) by (simp add: get_rate_def Let_def)
  have reverse: "get_rate tab b q t = Inr (ddiv 1 x)"
    if "fx_lookup tab ?b ?q t = None" "fx_lookup tab ?q ?b t = Some x" "x \<noteq> 0" for x
    using that assms(2) by (simp add: get_rate_def Let_def)
  have fail: "\<exists>m. get_rate tab b q t = Inl (Fx_rate_not_found m)"
    if "fx_lookup tab ?b ?q t = None" "fx_lookup tab ?q ?b t \<in> {None, Some 0}"
    using that assms(2) by (auto simp: get_rate_def Let_def)
  show ?thesis
  proof (intro conjI allI impI)
    show "get_rate tab b q t = Inr (fx_rate r)" if "newest_row tab ?b ?q t r" for r
      by (rule direct[OF fx_lookup_newest[OF assms(1) that]])
    show "get_rate tab b q t = Inr (ddiv 1 (fx_rate r))"
      if "\<nexists>s. newest_row tab ?b ?q t s" "newest_row tab ?q ?b t r" "fx_rate r \<noteq> 0" for r
      by (rule reverse[OF none[OF that(1)] fx_lookup_newest[OF assms(1) that(2)] that(3)])
    show "\<exists>m. get_rate tab b q t = Inl (Fx_rate_not_found m)"
      if "\<nexists>s. newest_row tab ?b ?q t s" "\<nexists>s. newest_row tab ?q ?b t s \<and> fx_rate s \<noteq> 0"
      by (rule fail[OF none[OF that(1)] zero[OF that(2)]])
  qed
qed


section \<open>Evaluations\<close>

definition rates_1 :: fx_table where
  "rates_1 = [\<lparr>fx_base = ''USD'', fx_quote = ''INR'', fx_rate = 83, fx_as_of = 10\<rparr>,
     \<lparr>fx_base = ''USD'', fx_quote = ''INR'', fx_rate = 84, fx_as_of = 20\<rparr>]"

lemma get_rate_newest_witness:
  "get_rate rates_1 ''usd'' ''INR'' (Some 15) = Inr 83 \<and> (\<exists>m. get_rate rates_1 ''usd'' ''INR'' (Some 5) = Inl (Fx_rate_not_found m))"
proof -
  have u: "unique_rates rates_1" by (simp add: unique_rates_def rates_1_def)
  have up: "str_upper ''usd'' = ''USD''" "str_upper ''INR'' = ''INR''" by code_simp+
  have ne: "str_upper ''usd'' \<noteq> str_upper ''INR''" by (simp add: up)
  have 1: "newest_row rates_1 ''USD'' ''INR'' (Some 15)
      \<lparr>fx_base = ''USD'', fx_quote = ''INR'', fx_rate = 83, fx_as_of = 10\<rparr>"
    by (simp add: newest_row_def rates_1_def)
  have 2: "\<nexists>s. newest_row rates_1 ''USD'' ''INR'' (Some 5) s" "\<nexists>s. newest_row rates_1 ''INR'' ''USD'' (Some 5) s"
    by (auto simp: newest_row_def rates_1_def)
  show ?thesis
    using get_rate_newest[OF u ne, unfolded up, of "Some 15"] get_rate_newest[OF u ne, unfolded up, of "Some 5"] 1 2
    by auto
qed


end
