(* ===== verification/Benchmark.thy ===== *)
theory Benchmark
  imports Fx
begin

text \<open>
  Index returns: \<open>services/benchmark.py\<close>. Yahoo's daily closes (\<open>None\<close> where a bar has no
  close) and pydantic's JSON of a \<open>BenchmarkReturn\<close> are parameters; Redis is the cache. An
  exception of the fetch is its message.
\<close>

record benchmark_return =
  br_symbol :: string
  br_currency :: string
  br_period_days :: int
  br_period_start :: instant
  br_period_end :: instant
  br_close_start :: "rat option"
  br_close_end :: "rat option"
  br_total_return :: rat
  br_stale :: bool

record benchmark_lib =
  bl_history :: "string \<Rightarrow> instant \<Rightarrow> instant \<Rightarrow> string + rat option list option"
  bl_dump :: "benchmark_return \<Rightarrow> string"
  bl_load :: "string \<Rightarrow> benchmark_return option"

definition NIFTY_SYMBOL :: string where "NIFTY_SYMBOL = ''^NSEI''"
definition SP500_SYMBOL :: string where "SP500_SYMBOL = ''^GSPC''"
definition BENCHMARK_CACHE_TTL_SECONDS :: int where "BENCHMARK_CACHE_TTL_SECONDS = 24 * 60 * 60"
definition DEFAULT_PERIOD_DAYS :: int where "DEFAULT_PERIOD_DAYS = 30"

definition benchmark_cache_key :: "string \<Rightarrow> int \<Rightarrow> string" where
  "benchmark_cache_key symbol period_days = ''benchmark:'' @ symbol @ '':'' @ int_str period_days @ ''d''"

definition symbol_currency :: "string \<Rightarrow> string" where
  "symbol_currency symbol =
     (if symbol = NIFTY_SYMBOL then ''INR'' else if symbol = SP500_SYMBOL then ''USD'' else ''USD'')"

text \<open>First and last daily close; an empty or missing frame and fewer than two closes raise.\<close>

definition fetch_endpoints ::
  "benchmark_lib \<Rightarrow> instant \<Rightarrow> string \<Rightarrow> int \<Rightarrow> string + (rat \<times> rat)" where
  "fetch_endpoints B now symbol period_days =
     (let start = now - (period_days + 5) * day_us in
      bind_res (bl_history B symbol start now) (\<lambda>df.
        case df of
          None \<Rightarrow> Inl (''no OHLCV returned for '' @ symbol)
        | Some [] \<Rightarrow> Inl (''no OHLCV returned for '' @ symbol)
        | Some bars \<Rightarrow>
            (let closes = map the (filter (\<lambda>c. c \<noteq> None) bars) in
             if length closes < 2
             then Inl (''insufficient bars ('' @ nat_str (length closes) @ '') for '' @ symbol)
             else Inr (float_repr (hd closes), float_repr (last closes)))))"

definition read_cache :: "benchmark_lib \<Rightarrow> 'r redis \<Rightarrow> string \<Rightarrow> 'r \<Rightarrow> benchmark_return option" where
  "read_cache B R key r = (case rd_get R r key of None \<Rightarrow> None | Some raw \<Rightarrow> bl_load B raw)"

definition write_cache :: "benchmark_lib \<Rightarrow> 'r redis \<Rightarrow> string \<Rightarrow> benchmark_return \<Rightarrow> 'r \<Rightarrow> 'r" where
  "write_cache B R key v r = rd_set R r key (bl_dump B v) (Some BENCHMARK_CACHE_TTL_SECONDS)"

definition get_return ::
  "benchmark_lib \<Rightarrow> 'r redis \<Rightarrow> instant \<Rightarrow> string \<Rightarrow> int \<Rightarrow> 'r \<Rightarrow> benchmark_return \<times> 'r" where
  "get_return B R now symbol period_days r =
     (let key = benchmark_cache_key symbol period_days in
      case read_cache B R key r of
        Some cached \<Rightarrow> (cached, r)
      | None \<Rightarrow>
          (let period_start = now - period_days * day_us in
           case fetch_endpoints B now symbol period_days of
             Inl _ \<Rightarrow>
               (\<lparr>br_symbol = symbol, br_currency = symbol_currency symbol, br_period_days = period_days,
                 br_period_start = period_start, br_period_end = now, br_close_start = None,
                 br_close_end = None, br_total_return = 0, br_stale = True\<rparr>, r)
           | Inr (close_start, close_end) \<Rightarrow>
               (let total_return = (if close_start > 0 then dsub (ddiv close_end close_start) 1 else 0);
                    observation = \<lparr>br_symbol = symbol, br_currency = symbol_currency symbol,
                      br_period_days = period_days, br_period_start = period_start,
                      br_period_end = now, br_close_start = Some close_start,
                      br_close_end = Some close_end, br_total_return = total_return,
                      br_stale = False\<rparr>
                in (observation, write_cache B R key observation r))))"

definition VENUE_BENCHMARK :: "(string \<times> string \<times> string) list" where
  "VENUE_BENCHMARK = [(''XNSE'', NIFTY_SYMBOL, ''INR''), (''XBOM'', NIFTY_SYMBOL, ''INR''),
     (''XNAS'', SP500_SYMBOL, ''USD''), (''XNYS'', SP500_SYMBOL, ''USD'')]"

definition benchmark_for_venue :: "string \<Rightarrow> (string \<times> string) option" where
  "benchmark_for_venue venue = map_of VENUE_BENCHMARK (str_upper venue)"

definition benchmark_return_in_base ::
  "fx_table \<Rightarrow> benchmark_return \<Rightarrow> string \<Rightarrow> fx_error + rat" where
  "benchmark_return_in_base tab ob base_currency =
     (case (br_close_start ob, br_close_end ob) of
        (Some close_start, Some close_end) \<Rightarrow>
          if br_stale ob then Inr (br_total_return ob)
          else (let native = str_upper (br_currency ob); base = str_upper base_currency in
            if native = base then Inr (br_total_return ob)
            else bind_res (get_rate tab native base (Some (br_period_end ob))) (\<lambda>fx_end.
                 bind_res (get_rate tab native base (Some (br_period_start ob))) (\<lambda>fx_start.
                   (let start_base = dmul close_start fx_start; end_base = dmul close_end fx_end
                    in if start_base \<le> 0 then Inr 0
                       else Inr (dsub (ddiv end_base start_base) 1)))))
      | _ \<Rightarrow> Inr (br_total_return ob))"

fun blended_loop ::
  "benchmark_lib \<Rightarrow> 'r redis \<Rightarrow> instant \<Rightarrow> fx_table \<Rightarrow> string \<Rightarrow> int \<Rightarrow> (string \<times> rat) list \<Rightarrow> rat \<Rightarrow> 'r \<Rightarrow>
   (fx_error + rat) \<times> 'r" where
  "blended_loop B R now tab base days [] tot r = (Inr tot, r)"
| "blended_loop B R now tab base days ((venue, weight) # ws) tot r =
     (case benchmark_for_venue venue of
        None \<Rightarrow> blended_loop B R now tab base days ws tot r
      | Some (symbol, _) \<Rightarrow>
          (case get_return B R now symbol days r of
             (observation, r1) \<Rightarrow>
               (case benchmark_return_in_base tab observation base of
                  Inl e \<Rightarrow> (Inl e, r1)
                | Inr base_return \<Rightarrow>
                    blended_loop B R now tab base days ws (dadd tot (dmul weight base_return)) r1)))"

definition blended_portfolio_return ::
  "benchmark_lib \<Rightarrow> 'r redis \<Rightarrow> instant \<Rightarrow> fx_table \<Rightarrow> (string \<times> rat) list \<Rightarrow> string \<Rightarrow> int \<Rightarrow> 'r \<Rightarrow>
   (fx_error + rat) \<times> 'r" where
  "blended_portfolio_return B R now tab weights_by_venue base_currency period_days r =
     blended_loop B R now tab base_currency period_days weights_by_venue 0 r"

section \<open>Properties\<close>

text \<open>The benchmark cache is written exactly on success: a fetched observation is returned
  again, whatever the feed does and however late it is asked, as long as the entry lives; a
  failed fetch yields a stale zero return and leaves the cache alone, so that the next call
  tries again.\<close>

theorem benchmark_cached_on_success:
  assumes "redis_kv R" and "bl_load B (bl_dump B ob) = Some ob"
    and "read_cache B R (benchmark_cache_key symbol days) r = None"
    and "get_return B R now symbol days r = (ob, r')"
  shows "(br_stale ob \<longleftrightarrow> (\<exists>e. fetch_endpoints B now symbol days = Inl e)) \<and>
    (br_stale ob \<longrightarrow> br_total_return ob = 0 \<and> r' = r) \<and>
    (\<not> br_stale ob \<longrightarrow> get_return (B\<lparr>bl_history := h\<rparr>) R later symbol days r' = (ob, r'))"
proof (cases "fetch_endpoints B now symbol days")
  case (Inl e)
  then show ?thesis using assms(3,4) by (auto simp: get_return_def Let_def)
next
  case (Inr ab)
  obtain a b where ab: "ab = (a, b)" by fastforce
  have s: "\<not> br_stale ob" and r': "r' = write_cache B R (benchmark_cache_key symbol days) ob r"
    using assms(3,4) Inr by (auto simp: get_return_def Let_def ab)
  have "read_cache (B\<lparr>bl_history := h\<rparr>) R (benchmark_cache_key symbol days) r' = Some ob"
    using assms(2) by (simp add: r' read_cache_def write_cache_def redis_kv_simps[OF assms(1)])
  then have "get_return (B\<lparr>bl_history := h\<rparr>) R later symbol days r' = (ob, r')"
    by (simp add: get_return_def)
  then show ?thesis using s Inr by simp
qed

section \<open>Evaluations\<close>

definition closes_1 :: "rat option list" where "closes_1 = [Some 100, None, Some 110]"

definition nifty_1 :: benchmark_return where
  "nifty_1 = \<lparr>br_symbol = ''^NSEI'', br_currency = ''INR'', br_period_days = 30,
     br_period_start = - 30 * 86400000000, br_period_end = 0, br_close_start = Some 100,
     br_close_end = Some 110, br_total_return = 1 / 10, br_stale = False\<rparr>"

definition yahoo_1 :: benchmark_lib where
  "yahoo_1 = \<lparr>bl_history = (\<lambda>s a b. Inr (Some closes_1)), bl_dump = (\<lambda>_. ''json''), bl_load = (\<lambda>_. Some nifty_1)\<rparr>"

lemma nifty_fetched: "fst (get_return yahoo_1 mem_redis 0 ''^NSEI'' 30 mem_empty) = nifty_1"
  by code_simp

lemma benchmark_cached_on_success_witness:
  "fst (get_return (yahoo_1\<lparr>bl_history := (\<lambda>s a b. Inl ''down'')\<rparr>) mem_redis 5 ''^NSEI'' 30
     (snd (get_return yahoo_1 mem_redis 0 ''^NSEI'' 30 mem_empty))) = nifty_1"
proof -
  let ?g = "get_return yahoo_1 mem_redis 0 ''^NSEI'' 30 mem_empty"
  have g: "?g = (nifty_1, snd ?g)" using nifty_fetched by (simp add: prod_eq_iff)
  have l: "bl_load yahoo_1 (bl_dump yahoo_1 nifty_1) = Some nifty_1" by (simp add: yahoo_1_def)
  have c: "read_cache yahoo_1 mem_redis (benchmark_cache_key ''^NSEI'' 30) mem_empty = None"
    by (simp add: read_cache_def mem_redis_def mem_empty_def)
  have "\<not> br_stale nifty_1" by (simp add: nifty_1_def)
  then show ?thesis
    using benchmark_cached_on_success[OF mem_redis_kv l c g, of "\<lambda>s a b. Inl ''down''" 5] by simp
qed

end
