(* ===== verification/Models.thy ===== *)
theory Models
  imports PyNum
begin

text \<open>
  Rows of the database tables that several services share (\<open>models/instruments.py\<close>,
  \<open>models/positions.py\<close>, \<open>models/broker_connections.py\<close>, \<open>models/symbol_mappings.py\<close>,
  \<open>models/orders.py\<close>, \<open>models/price_history.py\<close>), and the two things every query relies on: \<open>scalar_one_or_none\<close> and
  the unique constraints a flush checks. A table is the list of its rows. Columns no modelled
  operation reads are left out.
\<close>

section \<open>Rows\<close>

record instrument_row =
  in_id :: uuid
  in_symbol :: string
  in_exchange :: string

text \<open>The columns only the resolver of instruments writes extend the row.\<close>

record instrument = instrument_row +
  in_name :: string
  in_currency :: string
  in_asset_class :: string
  in_isin :: "string option"
  in_active :: bool

record position_row =
  po_connection :: uuid
  po_instrument :: uuid
  po_quantity :: rat
  po_avg_cost :: rat
  po_currency :: string
  po_as_of :: instant

record connection_row =
  co_id :: uuid
  co_user :: uuid

record mapping_row =
  mp_instrument :: uuid
  mp_broker :: string
  mp_symbol :: string
  mp_exchange :: "string option"

record order_row =
  or_connection :: uuid
  or_instrument :: uuid
  or_side :: string
  or_type :: string
  or_quantity :: rat
  or_limit_price :: "rat option"
  or_status :: string
  or_broker_id :: "string option"
  or_idem_key :: string
  or_created_at :: instant

record price_row =
  ph_instrument :: uuid
  ph_timestamp :: instant
  ph_open :: rat
  ph_high :: rat
  ph_low :: rat
  ph_close :: rat
  ph_volume :: int

section \<open>Queries\<close>

datatype query_error = SymbolNotMapped string | MultipleResultsFound | IntegrityError

definition scalar_one_or_none :: "'a list \<Rightarrow> query_error + 'a option" where
  "scalar_one_or_none rows =
     (case rows of [] \<Rightarrow> Inr None | [x] \<Rightarrow> Inr (Some x) | _ \<Rightarrow> Inl MultipleResultsFound)"

lemma scalar_one_or_none_iff:
  "scalar_one_or_none rows = Inr None \<longleftrightarrow> rows = []"
  "scalar_one_or_none rows = Inr (Some x) \<longleftrightarrow> rows = [x]"
  "scalar_one_or_none rows = Inl e \<longleftrightarrow> e = MultipleResultsFound \<and> 2 \<le> length rows"
  by (auto simp: scalar_one_or_none_def split: list.split)

lemma scalar_one_or_none_simps [simp]:
  "scalar_one_or_none [] = Inr None" "scalar_one_or_none [x] = Inr (Some x)"
  "scalar_one_or_none (x # y # zs) = Inl MultipleResultsFound"
  by (simp_all add: scalar_one_or_none_def)

text \<open>A key that at most one row has.\<close>

lemma filter_key_distinct:
  assumes "distinct (map f xs)" "x \<in> set xs"
  shows "filter (\<lambda>y. f y = f x) xs = [x]"
  using assms by (induction xs) (auto simp: filter_empty_conv image_iff)

lemma filter_key_cases:
  assumes "distinct (map f xs)"
  obtains "filter (\<lambda>y. f y = k) xs = []"
  | x where "x \<in> set xs" "f x = k" "filter (\<lambda>y. f y = k) xs = [x]"
proof (cases "\<exists>x \<in> set xs. f x = k")
  case True
  then obtain x where "x \<in> set xs" "f x = k" by blast
  then show ?thesis using filter_key_distinct[OF assms, of x] that(2) by auto
next
  case False
  then show ?thesis using that(1) by (simp add: filter_empty_conv)
qed

lemma find_SomeD: "find P xs = Some x \<Longrightarrow> x \<in> set xs \<and> P x"
  by (auto simp: find_Some_iff)

lemma find_None_filter: "find P xs = None \<longleftrightarrow> filter P xs = []"
  by (auto simp: find_None_iff filter_empty_conv)

lemma find_filter: "find P xs = (case filter P xs of [] \<Rightarrow> None | x # _ \<Rightarrow> Some x)"
  by (induction xs) auto

lemma map_update_keys:
  "(\<And>x. f (g x) = f x) \<Longrightarrow> map f (map (\<lambda>x. if P x then g x else x) xs) = map f xs"
  by simp

end
