(* ===== verification/Portfolio.thy ===== *)
theory Portfolio
  imports Benchmark Models "HOL-Library.Char_ord" "HOL-Library.List_Lexorder"
begin

text \<open>
  Valuation of a user's holdings: \<open>services/portfolio_summary.py\<close> (summary and staleness) and
  \<open>intelligence/portfolio.py\<close> (sector allocation, diversification, alpha, blended benchmark,
  rebalancing). The tables are lists of rows; the join over connections and instruments is
  written out. Every amount is a \<open>Decimal\<close> and every percentage a float, rounded as the code
  rounds them.
\<close>

section \<open>Tables and the join\<close>

record holdings_db =
  hd_positions :: "position_row list"
  hd_instruments :: "instrument_row list"
  hd_connections :: "connection_row list"
  hd_rates :: fx_table

definition user_positions :: "holdings_db \<Rightarrow> uuid \<Rightarrow> (position_row \<times> instrument_row) list" where
  "user_positions db user_id =
     concat (map (\<lambda>p. concat (map (\<lambda>c. if co_id c = po_connection p \<and> co_user c = user_id
        then map (Pair p) (filter (\<lambda>i. in_id i = po_instrument p) (hd_instruments db)) else [])
        (hd_connections db))) (hd_positions db))"

section \<open>Summary\<close>

record position_out =
  pt_instrument_id :: uuid
  pt_symbol :: string
  pt_exchange :: string
  pt_quantity :: rat
  pt_avg_cost :: rat
  pt_currency :: string
  pt_market_value_native :: rat
  pt_unrealized_pl_native :: rat
  pt_base_currency :: string
  pt_market_value_base :: rat
  pt_unrealized_pl_base :: rat
  pt_fx_rate :: rat
  pt_as_of :: instant

definition STALE_THRESHOLD :: int where "STALE_THRESHOLD = 2 * hour"
definition STALE_CONFIDENCE :: rat where "STALE_CONFIDENCE = 5 / 10"

definition enrich :: "fx_table \<Rightarrow> string \<Rightarrow> position_row \<times> instrument_row \<Rightarrow> position_out" where
  "enrich rates base_currency row =
     (case row of (p, i) \<Rightarrow>
        (let mv_native = dmul (po_quantity p) (po_avg_cost p);
             unrealized_native = 0;
             rate = (case get_rate rates (po_currency p) base_currency None of Inr r \<Rightarrow> r | Inl _ \<Rightarrow> 0)
         in \<lparr>pt_instrument_id = in_id i, pt_symbol = in_symbol i, pt_exchange = in_exchange i,
             pt_quantity = po_quantity p, pt_avg_cost = po_avg_cost p, pt_currency = po_currency p,
             pt_market_value_native = mv_native, pt_unrealized_pl_native = unrealized_native,
             pt_base_currency = base_currency, pt_market_value_base = dmul mv_native rate,
             pt_unrealized_pl_base = dmul unrealized_native rate, pt_fx_rate = rate,
             pt_as_of = po_as_of p\<rparr>))"

fun newest_as_of :: "instant option \<Rightarrow> instant list \<Rightarrow> instant option" where
  "newest_as_of acc [] = acc"
| "newest_as_of acc (t # ts) =
     newest_as_of (case acc of None \<Rightarrow> Some t | Some n \<Rightarrow> if t > n then Some t else Some n) ts"

definition enriched_positions ::
  "holdings_db \<Rightarrow> instant \<Rightarrow> uuid \<Rightarrow> string \<Rightarrow> position_out list \<times> bool \<times> instant" where
  "enriched_positions db now user_id base_currency =
     (let rows = user_positions db user_id;
          enriched = map (enrich (hd_rates db) base_currency) rows;
          newest = newest_as_of None (map (\<lambda>(p, i). po_as_of p) rows);
          latest_as_of = (case newest of None \<Rightarrow> now | Some t \<Rightarrow> t);
          is_stale = (case newest of None \<Rightarrow> False | Some t \<Rightarrow> now - t > STALE_THRESHOLD)
      in (enriched, is_stale, latest_as_of))"

record positions_list =
  pl_positions :: "position_out list"
  pl_base_currency :: string
  pl_as_of :: instant
  pl_is_stale :: bool

definition list_positions :: "holdings_db \<Rightarrow> instant \<Rightarrow> uuid \<Rightarrow> string \<Rightarrow> positions_list" where
  "list_positions db now user_id base_currency =
     (case enriched_positions db now user_id base_currency of (positions, is_stale, as_of) \<Rightarrow>
        \<lparr>pl_positions = positions, pl_base_currency = base_currency, pl_as_of = as_of, pl_is_stale = is_stale\<rparr>)"

record portfolio_summary =
  ps_base_currency :: string
  ps_total_value :: rat
  ps_total_cost_basis :: rat
  ps_total_unrealized_pl :: rat
  ps_daily_pl :: rat
  ps_position_count :: nat
  ps_as_of :: instant
  ps_is_stale :: bool
  ps_confidence :: rat

definition portfolio_summary_of :: "holdings_db \<Rightarrow> instant \<Rightarrow> uuid \<Rightarrow> string \<Rightarrow> portfolio_summary" where
  "portfolio_summary_of db now user_id base_currency =
     (case enriched_positions db now user_id base_currency of (positions, is_stale, as_of) \<Rightarrow>
        \<lparr>ps_base_currency = base_currency,
         ps_total_value = dsum (map pt_market_value_base positions),
         ps_total_cost_basis = dsum (map (\<lambda>p. dmul (dmul (pt_avg_cost p) (pt_quantity p)) (pt_fx_rate p)) positions),
         ps_total_unrealized_pl = dsum (map pt_unrealized_pl_base positions),
         ps_daily_pl = 0,
         ps_position_count = length (filter (\<lambda>p. pt_quantity p \<noteq> 0) positions),
         ps_as_of = as_of, ps_is_stale = is_stale,
         ps_confidence = (if is_stale then STALE_CONFIDENCE else 1)\<rparr>)"

section \<open>Intelligence: classification and loading\<close>

definition SECTOR_CONCENTRATION_THRESHOLD :: rat where "SECTOR_CONCENTRATION_THRESHOLD = f64 (40 / 100)"

definition DISCLAIMER_TEXT :: string where
  "DISCLAIMER_TEXT = ''For informational purposes only. Not investment advice.''"

definition IN_EXCHANGES :: "string list" where "IN_EXCHANGES = [''NSE'', ''BSE'']"
definition US_EXCHANGES :: "string list" where
  "US_EXCHANGES = [''NASDAQ'', ''NYSE'', ''AMEX'', ''ARCA'', ''BATS'']"
definition BENCHMARKED_MARKETS :: "string list" where "BENCHMARKED_MARKETS = [''IN'', ''US'']"

definition market_for_exchange :: "string \<Rightarrow> string" where
  "market_for_exchange exchange =
     (if exchange = [] then ''OTHER''
      else let cd = str_upper exchange in
           if cd \<in> set IN_EXCHANGES then ''IN''
           else if cd \<in> set US_EXCHANGES then ''US'' else ''OTHER'')"

text \<open>The instruments table has no sector column, so the \<open>getattr\<close> falls back.\<close>

definition sector_for_instrument :: "instrument_row \<Rightarrow> string" where
  "sector_for_instrument i = ''Unknown''"

record enriched_position =
  ep_instrument_id :: uuid
  ep_symbol :: string
  ep_exchange :: string
  ep_market :: string
  ep_sector :: string
  ep_native_currency :: string
  ep_market_value_native :: rat
  ep_market_value_base :: rat

fun load_rows :: "fx_table \<Rightarrow> string \<Rightarrow> (position_row \<times> instrument_row) list \<Rightarrow> enriched_position list" where
  "load_rows rates base [] = []"
| "load_rows rates base ((p, i) # rows) =
     (if po_quantity p = 0 then load_rows rates base rows
      else let mv_native = dmul (po_quantity p) (po_avg_cost p) in
        case get_rate rates (po_currency p) base None of
          Inl _ \<Rightarrow> load_rows rates base rows
        | Inr rate \<Rightarrow>
            \<lparr>ep_instrument_id = in_id i, ep_symbol = in_symbol i, ep_exchange = in_exchange i,
             ep_market = market_for_exchange (in_exchange i), ep_sector = sector_for_instrument i,
             ep_native_currency = po_currency p, ep_market_value_native = mv_native,
             ep_market_value_base = dmul mv_native rate\<rparr> # load_rows rates base rows)"

definition load_positions :: "holdings_db \<Rightarrow> uuid \<Rightarrow> string \<Rightarrow> enriched_position list" where
  "load_positions db user_id base_currency = load_rows (hd_rates db) base_currency (user_positions db user_id)"

section \<open>Intelligence: computations\<close>

text \<open>\<open>d[k] = d.get(k, 0) + v\<close> over the positions, in insertion order.\<close>

definition add_weight :: "(enriched_position \<Rightarrow> string) \<Rightarrow> (string, rat) dict \<Rightarrow> enriched_position \<Rightarrow> (string, rat) dict" where
  "add_weight key d p = dict_set (key p) (dadd (dict_get d (key p) 0) (ep_market_value_base p)) d"

definition weights :: "(enriched_position \<Rightarrow> string) \<Rightarrow> enriched_position list \<Rightarrow> (string, rat) dict" where
  "weights key ps = foldl (add_weight key) [] ps"

definition total_base_of :: "enriched_position list \<Rightarrow> rat" where
  "total_base_of ps = dsum (map ep_market_value_base ps)"

definition market_sectors :: "string \<Rightarrow> enriched_position list \<Rightarrow> (string, rat) dict" where
  "market_sectors market ps = weights ep_sector (filter (\<lambda>p. ep_market p = market) ps)"

definition sector_allocation ::
  "enriched_position list \<Rightarrow> (string \<times> (string \<times> rat) list) list" where
  "sector_allocation ps =
     (let market_totals = weights ep_market ps
      in concat (map (\<lambda>(market, tot).
           if tot \<le> 0 then []
           else [(market, map (\<lambda>(sector, v). (sector, f64 (ddiv v tot)))
                    (sort_desc snd (market_sectors market ps)))]) market_totals))"

record diversification =
  dv_hhi :: rat
  dv_geography :: "(string \<times> rat) list"

definition diversification_of :: "enriched_position list \<Rightarrow> rat \<Rightarrow> diversification" where
  "diversification_of ps total_base =
     (if total_base \<le> 0 then \<lparr>dv_hhi = 0, dv_geography = []\<rparr>
      else \<lparr>dv_hhi = fsum_loop 0 0 (map (\<lambda>(s, v). fmul (f64 (ddiv v total_base)) (f64 (ddiv v total_base)))
                       (weights ep_sector ps)),
            dv_geography = map (\<lambda>(m, v). (m, f64 (ddiv v total_base))) (weights ep_market ps)\<rparr>)"

record market_alpha =
  ma_market :: string
  ma_benchmark_symbol :: string
  ma_benchmark_currency :: string
  ma_portfolio_return :: rat
  ma_benchmark_return :: rat
  ma_alpha :: rat
  ma_stale_benchmark :: bool
  ma_portfolio_return_stale :: bool

definition market_alpha_of :: "string \<Rightarrow> benchmark_return \<Rightarrow> market_alpha" where
  "market_alpha_of market bench =
     (let bench_return_native = f64 (br_total_return bench)
      in \<lparr>ma_market = market, ma_benchmark_symbol = br_symbol bench,
          ma_benchmark_currency = br_currency bench, ma_portfolio_return = 0,
          ma_benchmark_return = bench_return_native, ma_alpha = fsub 0 bench_return_native,
          ma_stale_benchmark = br_stale bench, ma_portfolio_return_stale = True\<rparr>)"

text \<open>\<open>sorted\<close> of the markets present: of the two benchmarked ones, IN comes first.\<close>

definition per_market_alpha ::
  "enriched_position list \<Rightarrow> benchmark_return \<Rightarrow> benchmark_return \<Rightarrow> market_alpha list" where
  "per_market_alpha ps nifty sp500 =
     map (\<lambda>market. market_alpha_of market (if market = ''IN'' then nifty else sp500))
       (filter (\<lambda>m. m \<in> ep_market ` set ps) BENCHMARKED_MARKETS)"

definition fx_change_pct :: "fx_table \<Rightarrow> string \<Rightarrow> string \<Rightarrow> instant \<Rightarrow> instant \<Rightarrow> rat" where
  "fx_change_pct rates native base period_start period_end =
     (if str_upper native = str_upper base then 0
      else case (get_rate rates native base (Some period_start), get_rate rates native base (Some period_end)) of
        (Inr start_rate, Inr end_rate) \<Rightarrow>
          if start_rate \<le> 0 then 0 else fsub (f64 (ddiv end_rate start_rate)) 1
      | _ \<Rightarrow> 0)"

definition blended_step ::
  "fx_table \<Rightarrow> string \<Rightarrow> rat \<Rightarrow> benchmark_return \<Rightarrow> benchmark_return \<Rightarrow> rat \<Rightarrow> string \<times> rat \<Rightarrow> rat" where
  "blended_step rates base total_base nifty sp500 blended mw =
     (case mw of (market, weight_base) \<Rightarrow>
        if market \<notin> set BENCHMARKED_MARKETS \<or> weight_base \<le> 0 then blended
        else (let bench = (if market = ''IN'' then nifty else sp500);
                  alloc = f64 (ddiv weight_base total_base);
                  native_ccy = (if market = ''IN'' then ''INR'' else ''USD'');
                  fx_change = fx_change_pct rates native_ccy base (br_period_start bench) (br_period_end bench);
                  native_return = f64 (br_total_return bench);
                  bench_in_base = fsub (fmul (fadd 1 native_return) (fadd 1 fx_change)) 1
              in fadd blended (fmul alloc bench_in_base)))"

definition blended_benchmark_return ::
  "fx_table \<Rightarrow> enriched_position list \<Rightarrow> rat \<Rightarrow> benchmark_return \<Rightarrow> benchmark_return \<Rightarrow> string \<Rightarrow> rat" where
  "blended_benchmark_return rates ps total_base nifty sp500 base_currency =
     (if total_base \<le> 0 then 0
      else foldl (blended_step rates base_currency total_base nifty sp500) 0 (weights ep_market ps))"

record suggestion =
  su_type :: string
  su_sector :: string
  su_current_pct :: rat
  su_suggestion :: string
  su_disclaimer :: string

definition suggestion_for :: "string \<Rightarrow> rat \<Rightarrow> suggestion" where
  "suggestion_for sector pct =
     \<lparr>su_type = ''sector_concentration'', su_sector = sector, su_current_pct = pct,
      su_suggestion = ''Consider reducing exposure to '' @ sector @ ''.'', su_disclaimer = DISCLAIMER_TEXT\<rparr>"

definition rebalancing_suggestions :: "enriched_position list \<Rightarrow> rat \<Rightarrow> suggestion list" where
  "rebalancing_suggestions ps total_base =
     (if total_base \<le> 0 then []
      else concat (map (\<lambda>(sector, v).
             let pct = f64 (ddiv v total_base)
             in if pct > SECTOR_CONCENTRATION_THRESHOLD then [suggestion_for sector pct] else [])
           (sort_desc snd (weights ep_sector ps))))"

record intelligence =
  pi_base_currency :: string
  pi_sector_allocation :: "(string \<times> (string \<times> rat) list) list"
  pi_diversification :: diversification
  pi_per_market_alpha :: "market_alpha list"
  pi_blended_benchmark_return :: rat
  pi_portfolio_return :: rat
  pi_portfolio_alpha :: rat
  pi_portfolio_return_stale :: bool
  pi_unclassified_markets :: "string list"
  pi_rebalancing_suggestions :: "suggestion list"

text \<open>\<open>portfolio_return_base\<close> is the source's placeholder; its log line is not modelled.\<close>

definition portfolio_return_base :: "enriched_position list \<Rightarrow> rat" where
  "portfolio_return_base ps = 0"

definition intelligence_compute ::
  "benchmark_lib \<Rightarrow> 'r redis \<Rightarrow> instant \<Rightarrow> holdings_db \<Rightarrow> uuid \<Rightarrow> string \<Rightarrow> int \<Rightarrow> 'r \<Rightarrow> intelligence \<times> 'r" where
  "intelligence_compute B R now db user_id base_currency period_days r =
     (let base_ccy = str_upper base_currency;
          positions = load_positions db user_id base_ccy in
      if positions = []
      then (\<lparr>pi_base_currency = base_ccy, pi_sector_allocation = [],
             pi_diversification = \<lparr>dv_hhi = 0, dv_geography = []\<rparr>, pi_per_market_alpha = [],
             pi_blended_benchmark_return = 0, pi_portfolio_return = 0, pi_portfolio_alpha = 0,
             pi_portfolio_return_stale = True, pi_unclassified_markets = [],
             pi_rebalancing_suggestions = []\<rparr>, r)
      else
        (let unclassified_markets = sort (remdups (map (\<lambda>p. str_upper (ep_exchange p))
               (filter (\<lambda>p. ep_market p = ''OTHER'' \<and> ep_exchange p \<noteq> []) positions)));
             total_base = total_base_of positions;
             (nifty, r1) = get_return B R now NIFTY_SYMBOL period_days r;
             (sp500, r2) = get_return B R now SP500_SYMBOL period_days r1;
             portfolio_return = portfolio_return_base positions;
             blended = blended_benchmark_return (hd_rates db) positions total_base nifty sp500 base_ccy
         in (\<lparr>pi_base_currency = base_ccy, pi_sector_allocation = sector_allocation positions,
              pi_diversification = diversification_of positions total_base,
              pi_per_market_alpha = per_market_alpha positions nifty sp500,
              pi_blended_benchmark_return = blended, pi_portfolio_return = portfolio_return,
              pi_portfolio_alpha = fsub portfolio_return blended, pi_portfolio_return_stale = True,
              pi_unclassified_markets = unclassified_markets,
              pi_rebalancing_suggestions = rebalancing_suggestions positions total_base\<rparr>, r2)))"

section \<open>Weights\<close>

lemma distinct_singleton:
  assumes "distinct xs" "set xs = {a}" shows "xs = [a]"
proof (cases xs)
  case (Cons x ys)
  then have "x = a" "set ys \<subseteq> {a}" "a \<notin> set ys" using assms by auto
  then show ?thesis using Cons by (cases ys) auto
qed (use assms in simp)

lemma weights_snoc: "weights key (ps @ [p]) = add_weight key (weights key ps) p"
  by (simp add: weights_def)

lemma weights_lookup:
  "map_of (weights key ps) k =
     (if \<exists>p \<in> set ps. key p = k
      then Some (dsum (map ep_market_value_base (filter (\<lambda>p. key p = k) ps))) else None)"
proof (induction ps rule: rev_induct)
  case Nil
  show ?case by (simp add: weights_def)
next
  case (snoc p ps)
  have "filter (\<lambda>p. key p = k) ps = []" if "\<not> (\<exists>p \<in> set ps. key p = k)"
    using that by (simp add: filter_empty_conv)
  then show ?case using snoc by (auto simp: weights_snoc add_weight_def dict_get_def)
qed

lemma weights_distinct: "distinct (map fst (weights key ps))"
  by (induction ps rule: rev_induct) (simp_all add: weights_def weights_snoc add_weight_def dict_set_distinct)

lemma weights_keys: "fst ` set (weights key ps) = key ` set ps"
  by (induction ps rule: rev_induct) (auto simp: weights_def weights_snoc add_weight_def dict_set_keys)

lemma weights_mem:
  "(k, v) \<in> set (weights key ps) \<Longrightarrow>
     (\<exists>p \<in> set ps. key p = k) \<and> v = dsum (map ep_market_value_base (filter (\<lambda>p. key p = k) ps))"
  using map_of_is_SomeI[OF weights_distinct] weights_lookup[of key ps k] by (fastforce split: if_splits)

definition values_ok :: "enriched_position list \<Rightarrow> bool" where
  "values_ok ps \<longleftrightarrow> (\<forall>p \<in> set ps. 0 \<le> ep_market_value_base p)"

lemma values_ok_filter: "values_ok ps \<Longrightarrow> values_ok (filter P ps)"
  by (simp add: values_ok_def)

lemma weight_bounds:
  assumes "values_ok ps" "(k, v) \<in> set (weights key ps)"
  shows "0 \<le> v" "v \<le> total_base_of ps"
proof -
  have v: "v = dsum (map ep_market_value_base (filter (\<lambda>p. key p = k) ps))" using weights_mem[OF assms(2)] by simp
  show "0 \<le> v" unfolding v using assms(1) by (intro dsum_nonneg) (auto simp: values_ok_def)
  show "v \<le> total_base_of ps"
    unfolding v total_base_of_def using assms(1) by (intro dsum_filter_le) (simp add: values_ok_def)
qed

lemma share_bounds:
  assumes "0 \<le> v" "v \<le> (t :: rat)"
  shows "0 \<le> f64 (ddiv v t)" "f64 (ddiv v t) \<le> 1"
  using dc.rnd_fraction[OF assms] unfolding ddiv_def by (auto intro!: fl.rnd_nonneg fl.rnd_le_1)

lemma share_mono: "0 < t \<Longrightarrow> a \<le> b \<Longrightarrow> f64 (ddiv a t) \<le> f64 (ddiv b t)"
  unfolding ddiv_def by (intro fl.rnd_mono dc.rnd_mono divide_right_mono) simp_all

lemma load_rows_values:
  assumes "table_ok rates" "\<forall>(p, i) \<in> set rows. 0 \<le> po_quantity p \<and> 0 \<le> po_avg_cost p"
  shows "values_ok (load_rows rates base rows)"
  using assms(2)
proof (induction rows)
  case (Cons r rows)
  obtain p i where r: "r = (p, i)" by fastforce
  have "0 \<le> dmul (po_quantity p) (po_avg_cost p)"
    using Cons.prems r by (simp add: dmul_def dc.rnd_nonneg)
  then show ?case
    using Cons r fx.converted_nonneg[OF assms(1)] by (auto simp: values_ok_def Let_def split: sum.split)
qed (simp add: values_ok_def)

lemma load_rows_sector: "p \<in> set (load_rows rates base rows) \<Longrightarrow> ep_sector p = ''Unknown''"
  by (induction rates base rows rule: load_rows.induct)
    (auto simp: Let_def sector_for_instrument_def split: sum.splits if_splits)

section \<open>The newest timestamp\<close>

lemma newest_Some: "newest_as_of (Some n) ts = Some (Max (set (n # ts)))"
proof (induction ts arbitrary: n)
  case (Cons t ts)
  then show ?case by (cases "ts = []") (auto simp: max_def)
qed simp

lemma newest_None: "newest_as_of None ts = (if ts = [] then None else Some (Max (set ts)))"
  by (cases ts) (simp_all add: newest_Some)

section \<open>Properties\<close>

text \<open>The summary is consistent: total value equals cost basis and the unrealised profit is
  zero (no price feed yet), a position without a rate counts zero instead of a wrong amount,
  totals of long positions are not negative, and the answer is stale with confidence one half
  exactly when there are positions and all of them are older than two hours.\<close>

theorem summary_consistent:
  assumes "s = portfolio_summary_of db now u base"
  shows "ps_total_value s = ps_total_cost_basis s \<and> ps_total_unrealized_pl s = 0 \<and>
    (\<forall>row \<in> set (user_positions db u). (\<forall>r. get_rate (hd_rates db) (po_currency (fst row)) base None \<noteq> Inr r) \<longrightarrow>
       pt_market_value_base (enrich (hd_rates db) base row) = 0) \<and>
    (table_ok (hd_rates db) \<and> (\<forall>row \<in> set (user_positions db u). 0 \<le> po_quantity (fst row) \<and> 0 \<le> po_avg_cost (fst row)) \<longrightarrow>
       0 \<le> ps_total_value s) \<and>
    (ps_is_stale s \<longleftrightarrow> user_positions db u \<noteq> [] \<and>
       (\<forall>row \<in> set (user_positions db u). now - po_as_of (fst row) > STALE_THRESHOLD)) \<and>
    ps_confidence s = (if ps_is_stale s then STALE_CONFIDENCE else 1)"
proof -
  let ?rows = "user_positions db u" and ?e = "enrich (hd_rates db) base"
  have flds: "ps_total_value s = dsum (map (pt_market_value_base \<circ> ?e) ?rows)"
    "ps_total_cost_basis s = dsum (map ((\<lambda>p. dmul (dmul (pt_avg_cost p) (pt_quantity p)) (pt_fx_rate p)) \<circ> ?e) ?rows)"
    "ps_total_unrealized_pl s = dsum (map (pt_unrealized_pl_base \<circ> ?e) ?rows)"
    "ps_is_stale s = (case newest_as_of None (map (\<lambda>(p, i). po_as_of p) ?rows) of None \<Rightarrow> False
       | Some t \<Rightarrow> now - t > STALE_THRESHOLD)"
    "ps_confidence s = (if ps_is_stale s then STALE_CONFIDENCE else 1)"
    by (simp_all add: assms portfolio_summary_of_def enriched_positions_def Let_def)
  have same: "pt_market_value_base (?e row) = dmul (dmul (pt_avg_cost (?e row)) (pt_quantity (?e row))) (pt_fx_rate (?e row))"
    "pt_unrealized_pl_base (?e row) = 0" for row
    by (simp_all add: enrich_def Let_def case_prod_beta dmul_def mult.commute)
  have val: "ps_total_value s = ps_total_cost_basis s" unfolding flds by (simp add: comp_def same(1))
  have pl: "ps_total_unrealized_pl s = 0" unfolding flds by (rule dsum_zeros) (simp add: same(2))
  have nr: "pt_market_value_base (?e row) = 0"
    if "\<forall>r. get_rate (hd_rates db) (po_currency (fst row)) base None \<noteq> Inr r" for row
    using that by (cases "get_rate (hd_rates db) (po_currency (fst row)) base None")
      (simp_all add: enrich_def Let_def case_prod_beta dmul_def)
  have nn: "0 \<le> ps_total_value s" if "table_ok (hd_rates db)"
    "\<forall>row \<in> set ?rows. 0 \<le> po_quantity (fst row) \<and> 0 \<le> po_avg_cost (fst row)"
    unfolding flds
  proof (rule dsum_nonneg, clarsimp)
    fix p i assume "(p, i) \<in> set ?rows"
    then have "0 \<le> dmul (po_quantity p) (po_avg_cost p)" using that(2) by (force simp: dmul_def intro!: dc.rnd_nonneg)
    moreover have "pt_market_value_base (?e (p, i)) =
        dmul (dmul (po_quantity p) (po_avg_cost p)) (fx.rate_or_zero (hd_rates db) (po_currency p) base None)"
      by (simp add: enrich_def Let_def fx.rate_or_zero_def)
    ultimately show "0 \<le> pt_market_value_base (?e (p, i))" using fx.value_nonneg[OF that(1)] by simp
  qed
  have st: "ps_is_stale s \<longleftrightarrow> ?rows \<noteq> [] \<and> (\<forall>row \<in> set ?rows. now - po_as_of (fst row) > STALE_THRESHOLD)"
  proof (cases "?rows = []")
    case True
    then show ?thesis by (simp add: flds)
  next
    case False
    let ?ts = "(\<lambda>(p, i). po_as_of p) ` set ?rows"
    have fin: "finite ?ts" "?ts \<noteq> {}" using False by auto
    have e: "newest_as_of None (map (\<lambda>(p, i). po_as_of p) ?rows) = Some (Max ?ts)"
      using False by (simp add: newest_None)
    have "ps_is_stale s \<longleftrightarrow> Max ?ts < now - STALE_THRESHOLD"
      unfolding flds e option.case by linarith
    also have "\<dots> \<longleftrightarrow> (\<forall>t \<in> ?ts. t < now - STALE_THRESHOLD)" using Max_less_iff[OF fin] by blast
    also have "\<dots> \<longleftrightarrow> (\<forall>row \<in> set ?rows. now - po_as_of (fst row) > STALE_THRESHOLD)"
      by (force simp: case_prod_beta)
    finally show ?thesis using False by simp
  qed
  show ?thesis using val pl nr nn st flds(5) by blast
qed

text \<open>Sector shares are fractions of their market: for positions of non-negative value, every
  market of positive value is listed with exactly the sectors held in it, each once, in
  descending order, each share between 0 and 1; a market without value is left out.\<close>

theorem sector_allocation_fractions:
  assumes "values_ok ps" "(market, entries) \<in> set (sector_allocation ps)"
  shows "fst ` set entries = ep_sector ` {p \<in> set ps. ep_market p = market} \<and>
    distinct (map fst entries) \<and>
    (\<forall>(s, pct) \<in> set entries. 0 \<le> pct \<and> pct \<le> 1) \<and>
    sorted_wrt (\<lambda>a b. snd b \<le> snd a) entries \<and>
    0 < total_base_of (filter (\<lambda>p. ep_market p = market) ps)"
proof -
  let ?qs = "filter (\<lambda>p. ep_market p = market) ps"
  obtain tot where tot: "(market, tot) \<in> set (weights ep_market ps)" "0 < tot"
    and e: "entries = map (\<lambda>(sector, v). (sector, f64 (ddiv v tot))) (sort_desc snd (market_sectors market ps))"
    using assms(2) by (auto simp: sector_allocation_def Let_def split: if_splits)
  have t: "tot = total_base_of ?qs" using weights_mem[OF tot(1)] by (simp add: total_base_of_def)
  have ok: "values_ok ?qs" by (rule values_ok_filter[OF assms(1)])
  have f: "map fst entries = map fst (sort_desc snd (market_sectors market ps))"
    unfolding e by (simp add: case_prod_beta)
  have "set (map fst entries) = fst ` set (weights ep_sector ?qs)"
    unfolding f by (simp add: market_sectors_def)
  also have "\<dots> = ep_sector ` {p \<in> set ps. ep_market p = market}" unfolding weights_keys by simp
  finally have 1: "fst ` set entries = ep_sector ` {p \<in> set ps. ep_market p = market}" by simp
  have "mset (map fst entries) = mset (map fst (weights ep_sector ?qs))"
    unfolding f mset_map by (simp add: market_sectors_def)
  then have 2: "distinct (map fst entries)" using weights_distinct mset_eq_imp_distinct_iff by blast
  have 3: "\<forall>(s, pct) \<in> set entries. 0 \<le> pct \<and> pct \<le> 1"
    using weight_bounds[OF ok] share_bounds unfolding t[symmetric]
    by (auto simp: e market_sectors_def)
  have "sorted_wrt (\<lambda>a b. snd b \<le> snd a) (sort_desc snd (market_sectors market ps))" by (rule sort_desc_sorted)
  then have 4: "sorted_wrt (\<lambda>a b. snd b \<le> snd a) entries"
    unfolding e sorted_wrt_map
    by (rule sorted_wrt_mono_rel[rotated]) (auto simp: case_prod_beta intro: share_mono[OF tot(2)])
  show ?thesis using 1 2 3 4 tot(2) t by simp
qed

text \<open>With the instruments table as it is every holding is in the sector Unknown, so any
  portfolio of positive value is reported as fully concentrated: index 1, one suggestion to
  reduce exposure to Unknown at a share of exactly 1, and an alpha that is minus the blended
  benchmark and flagged stale.\<close>

theorem unknown_sector_consequence:
  assumes "x = fst (intelligence_compute B R now db u base days r)"
    and ps: "ps = load_positions db u (str_upper base)" and pos: "0 < total_base_of ps"
  shows "dv_hhi (pi_diversification x) = 1 \<and>
    pi_rebalancing_suggestions x = [suggestion_for ''Unknown'' 1] \<and>
    pi_portfolio_alpha x = fsub 0 (pi_blended_benchmark_return x) \<and> pi_portfolio_return_stale x"
proof -
  let ?t = "total_base_of ps"
  have ne: "ps \<noteq> []" using pos by (auto simp: total_base_of_def)
  have sec: "\<forall>p \<in> set ps. ep_sector p = ''Unknown''" using load_rows_sector by (simp add: ps load_positions_def)
  have w: "weights ep_sector ps = [(''Unknown'', ?t)]"
  proof -
    have "ep_sector ` set ps = {''Unknown''}" using sec ne by (cases ps) auto
    then have "set (map fst (weights ep_sector ps)) = {''Unknown''}" by (simp add: weights_keys)
    then have "map fst (weights ep_sector ps) = [''Unknown'']"
      by (rule distinct_singleton[OF weights_distinct])
    then obtain v where v: "weights ep_sector ps = [(''Unknown'', v)]" by (auto simp: map_eq_Cons_conv)
    have "filter (\<lambda>p. ep_sector p = ''Unknown'') ps = ps" using sec by simp
    then have "v = ?t" using weights_mem[of "''Unknown''" v ep_sector ps] v by (simp add: total_base_of_def)
    then show ?thesis using v by simp
  qed
  have one: "f64 (ddiv ?t ?t) = 1" using pos by (simp add: ddiv_def)
  have s1: "sort_desc snd [(''Unknown'', ?t)] = [(''Unknown'', ?t)]" by (simp add: sort_desc_def)
  have "fsum_loop 0 0 [fmul 1 1] = 1" by (simp add: float_ops)
  then have hhi: "dv_hhi (diversification_of ps ?t) = 1"
    using pos by (simp add: diversification_of_def w one)
  have thr: "SECTOR_CONCENTRATION_THRESHOLD < 1" by code_simp
  have sug: "rebalancing_suggestions ps ?t = [suggestion_for ''Unknown'' 1]"
    using pos thr by (simp add: rebalancing_suggestions_def w s1 one Let_def)
  show ?thesis
    using ne hhi sug unfolding assms(1) intelligence_compute_def Let_def ps[symmetric]
    by (simp add: case_prod_beta portfolio_return_base_def)
qed

section \<open>Evaluations\<close>

definition db_1 :: holdings_db where
  "db_1 = \<lparr>hd_positions = [\<lparr>po_connection = ''c'', po_instrument = ''i'', po_quantity = 10, po_avg_cost = 5,
       po_currency = ''USD'', po_as_of = 0\<rparr>],
     hd_instruments = [\<lparr>in_id = ''i'', in_symbol = ''AAPL'', in_exchange = ''NASDAQ''\<rparr>],
     hd_connections = [\<lparr>co_id = ''c'', co_user = ''u''\<rparr>], hd_rates = []\<rparr>"

lemma summary_consistent_witness:
  "ps_is_stale (portfolio_summary_of db_1 (3 * hour) ''u'' ''USD'') \<and>
   ps_total_unrealized_pl (portfolio_summary_of db_1 (3 * hour) ''u'' ''USD'') = 0"
  using summary_consistent[OF refl, of db_1 "3 * hour" "''u''" "''USD''"]
  by (simp add: user_positions_def db_1_def STALE_THRESHOLD_def)

definition held_1 :: "enriched_position list" where
  "held_1 = load_positions db_1 ''u'' ''USD''"

lemma held_1: "held_1 = [\<lparr>ep_instrument_id = ''i'', ep_symbol = ''AAPL'', ep_exchange = ''NASDAQ'',
    ep_market = ''US'', ep_sector = ''Unknown'', ep_native_currency = ''USD'',
    ep_market_value_native = 50, ep_market_value_base = 50\<rparr>]"
  by code_simp

lemma sector_allocation_fractions_witness:
  "sector_allocation held_1 = [(''US'', [(''Unknown'', 1)])] \<and> distinct (map fst [(''Unknown'', 1 :: rat)])"
proof -
  have s: "sector_allocation held_1 = [(''US'', [(''Unknown'', 1)])]" by code_simp
  have "values_ok held_1" by (simp add: values_ok_def held_1)
  then show ?thesis using sector_allocation_fractions[of held_1 "''US''" "[(''Unknown'', 1)]"] s by simp
qed

lemma unknown_sector_consequence_witness:
  "dv_hhi (pi_diversification (fst (intelligence_compute yahoo_1 mem_redis 0 db_1 ''u'' ''usd'' 30 mem_empty))) = 1"
proof -
  have "str_upper ''usd'' = ''USD''" by code_simp
  moreover have "0 < total_base_of held_1" by code_simp
  ultimately show ?thesis
    using unknown_sector_consequence[OF refl refl, of db_1 "''u''" "''usd''" yahoo_1 mem_redis 0 30 mem_empty]
    by (simp add: held_1_def)
qed

end
