(* ===== verification/Fx_Attribution.thy ===== *)
theory Fx_Attribution
  imports PyNum
begin

text \<open>
  The decomposition of a cross-currency return: \<open>intelligence/fx_attribution.py\<close>. A value
  quantized to one decimal keeps its sign also when it is zero, because the note prints it.
\<close>

text \<open>A \<open>Decimal\<close> with exponent -1: sign and tenths.\<close>

datatype tenths = Tenths (tn_neg: bool) (tn_coef: int)

definition tenths_val :: "tenths \<Rightarrow> rat" where
  "tenths_val d = (if tn_neg d then - 1 else 1) * of_int (tn_coef d) / 10"

definition quantize_tenth :: "rat \<Rightarrow> tenths option" where
  "quantize_tenth x =
     (let c = \<bar>round_half_even (x * 10)\<bar>
      in if c < 10 ^ 28 then Some (Tenths (x < 0) c) else None)"

definition tenths_str :: "tenths \<Rightarrow> string" where
  "tenths_str d = (if tn_neg d then ''-'' else []) @ int_str (tn_coef d div 10) @ ''.'' @ int_str (tn_coef d mod 10)"

definition fmt_pct :: "tenths \<Rightarrow> string" where
  "fmt_pct v = (if 0 \<le> tenths_val v then ''+'' else []) @ tenths_str v @ ''%''"

definition currency_move_phrase :: "string \<Rightarrow> tenths \<Rightarrow> string" where
  "currency_move_phrase ccy pct =
     (let abs_pct = tenths_str (Tenths False (tn_coef pct)) in
      if tenths_val pct > 0 then ccy @ '' weakened '' @ abs_pct @ ''%''
      else if tenths_val pct < 0 then ccy @ '' strengthened '' @ abs_pct @ ''%''
      else ccy @ '' flat'')"

record fx_attribution =
  fa_stock_return_pct :: tenths
  fa_fx_impact_pct :: tenths
  fa_base_return_pct :: tenths
  fa_note_text :: string

text \<open>\<open>Non_positive\<close> is the \<open>ValueError\<close> naming the argument, \<open>Too_large\<close> the
  \<open>InvalidOperation\<close> of a percentage beyond 28 digits.\<close>

datatype attribution_error = Non_positive string | Too_large

definition quantized :: "rat \<Rightarrow> attribution_error + tenths" where
  "quantized x = (case quantize_tenth x of None \<Rightarrow> Inl Too_large | Some d \<Rightarrow> Inr d)"

definition check_positive :: "(string \<times> rat) list \<Rightarrow> attribution_error + unit" where
  "check_positive args = (case find (\<lambda>(name, v). v \<le> 0) args of
     Some (name, _) \<Rightarrow> Inl (Non_positive name) | None \<Rightarrow> Inr ())"

definition compute_fx_attribution ::
  "rat \<Rightarrow> rat \<Rightarrow> string \<Rightarrow> string \<Rightarrow> rat \<Rightarrow> rat \<Rightarrow> string option \<Rightarrow>
   attribution_error + fx_attribution option" where
  "compute_fx_attribution cost_basis_native current_price_native native_ccy base_ccy fx_at_open fx_current symbol =
     (if str_upper native_ccy = str_upper base_ccy then Inr None
      else bind_res (check_positive [(''cost_basis_native'', cost_basis_native),
              (''current_price_native'', current_price_native), (''fx_at_open'', fx_at_open),
              (''fx_current'', fx_current)]) (\<lambda>_.
        (let stock_ratio = ddiv current_price_native cost_basis_native;
             fx_ratio = ddiv fx_current fx_at_open;
             stock_return = dmul (dsub stock_ratio 1) 100;
             fx_impact = dmul (dsub fx_ratio 1) 100;
             base_return = dmul (dsub (dmul stock_ratio fx_ratio) 1) 100
         in bind_res (quantized stock_return) (\<lambda>stock_return_disp.
            bind_res (quantized fx_impact) (\<lambda>fx_impact_disp.
            bind_res (quantized base_return) (\<lambda>base_return_disp.
              (let label = (case symbol of Some s \<Rightarrow> if s = [] then ''Position'' else s | None \<Rightarrow> ''Position'');
                   note_text = label @ '' '' @ fmt_pct stock_return_disp @ '' '' @ str_upper native_ccy @ '', '' @
                     currency_move_phrase (str_upper base_ccy) fx_impact_disp @ '', your '' @
                     str_upper base_ccy @ '' return: '' @ fmt_pct base_return_disp
               in Inr (Some \<lparr>fa_stock_return_pct = stock_return_disp, fa_fx_impact_pct = fx_impact_disp,
                            fa_base_return_pct = base_return_disp, fa_note_text = note_text\<rparr>))))))))"

section \<open>Rounding of the three components\<close>

lemma quantize_tenth_error:
  assumes "quantize_tenth x = Some d" shows "\<bar>tenths_val d - x\<bar> \<le> 1 / 20"
proof -
  let ?r = "round_half_even (x * 10)"
  have e: "\<bar>of_int ?r - x * 10\<bar> \<le> 1 / 2" by (rule round_half_even_error)
  have d: "d = Tenths (x < 0) \<bar>?r\<bar>" using assms by (auto simp: quantize_tenth_def Let_def split: if_splits)
  have "?r \<le> 0" if "x < 0"
    using that round_half_even_mono[of "x * 10" 0] round_half_even_of_int[of 0] by simp
  moreover have "0 \<le> ?r" if "0 \<le> x"
    using that round_half_even_mono[of 0 "x * 10"] round_half_even_of_int[of 0] by simp
  ultimately have "of_int ?r = 10 * tenths_val d"
    by (cases "x < 0") (simp_all add: d tenths_val_def)
  then show ?thesis using e by linarith
qed

lemma abs_via:
  fixes a b c :: rat
  assumes "\<bar>a - b\<bar> \<le> d" "\<bar>b - c\<bar> \<le> e" "d + e \<le> g"
  shows "\<bar>a - c\<bar> \<le> g"
  using assms by linarith

lemma d28_step:
  assumes "\<bar>x\<bar> \<le> B" "B \<le> 10 ^ 15"
  shows "\<bar>d28 x - x\<bar> \<le> 1 / 10 ^ 11"
proof -
  have "\<bar>d28 x - x\<bar> \<le> \<bar>x\<bar> / 10 ^ 27 + 1 / 10 ^ 99" by (rule d28_abs_error)
  also have "\<dots> \<le> 10 ^ 15 / 10 ^ 27 + 1 / 10 ^ 99"
    using assms by (intro add_right_mono divide_right_mono) auto
  also have "\<dots> \<le> 1 / 10 ^ 11" by simp
  finally show ?thesis .
qed

lemma percent_of_ratio:
  assumes "\<bar>q - x\<bar> \<le> d" "0 \<le> d" "d \<le> 1" "\<bar>x\<bar> \<le> 10 ^ 7"
  shows "\<bar>dmul (dsub q 1) 100 - (x - 1) * 100\<bar> \<le> 100 * d + 1 / 10 ^ 8"
proof -
  have "\<bar>q\<bar> \<le> 10 ^ 7 + 1" using assms by linarith
  then have "\<bar>q - 1\<bar> \<le> 10 ^ 7 + 2" by linarith
  then have 1: "\<bar>dsub q 1 - (q - 1)\<bar> \<le> 1 / 10 ^ 11"
    unfolding dsub_def by (rule d28_step) simp
  then have b: "\<bar>dsub q 1 * 100\<bar> \<le> (10 ^ 7 + 3) * 100"
  proof -
    have "(1 :: rat) / 10 ^ 11 \<le> 1" by simp
    then have "\<bar>dsub q 1\<bar> \<le> 10 ^ 7 + 3" using 1 \<open>\<bar>q - 1\<bar> \<le> 10 ^ 7 + 2\<close> by linarith
    then show ?thesis by (simp add: abs_mult)
  qed
  have 2: "\<bar>dmul (dsub q 1) 100 - dsub q 1 * 100\<bar> \<le> 1 / 10 ^ 11"
    unfolding dmul_def using b by (rule d28_step) simp
  have scale: "\<bar>y * 100 - z * 100\<bar> \<le> 100 * e" if "\<bar>y - z\<bar> \<le> e" for y z e :: rat using that by linarith
  from scale[OF 1] have 3: "\<bar>dsub q 1 * 100 - (q - 1) * 100\<bar> \<le> 100 * (1 / 10 ^ 11)" .
  have 4: "\<bar>(q - 1) * 100 - (x - 1) * 100\<bar> \<le> 100 * d"
    using assms(1) by (intro scale) simp
  show ?thesis by (rule abs_via[OF abs_via[OF 2 3 order_refl] 4]) simp
qed

lemma ratio_error:
  assumes "0 \<le> a / b" "a / b \<le> 10 ^ 7"
  shows "\<bar>ddiv a b - a / b\<bar> \<le> 1 / 10 ^ 11"
  unfolding ddiv_def using assms by (intro d28_step[of _ "10 ^ 7"]) simp_all

lemma product_error:
  assumes p: "\<bar>p - x\<bar> \<le> 1 / 10 ^ 11" "0 \<le> x" "x \<le> 1000" and q: "\<bar>q - y\<bar> \<le> 1 / 10 ^ 11" "0 \<le> y" "y \<le> 1000"
  shows "\<bar>dmul p q - x * y\<bar> \<le> 1 / 10 ^ 7"
proof -
  have "\<bar>p * q - x * y\<bar> = \<bar>(p - x) * q + x * (q - y)\<bar>" by (simp add: algebra_simps)
  also have "\<dots> \<le> \<bar>p - x\<bar> * \<bar>q\<bar> + x * \<bar>q - y\<bar>"
    using p(2) by (metis abs_mult abs_of_nonneg abs_triangle_ineq)
  also have "\<dots> \<le> 1 / 10 ^ 11 * 1001 + 1000 * (1 / 10 ^ 11)"
  proof -
    have "(1 :: rat) / 10 ^ 11 \<le> 1" by simp
    then have "\<bar>q\<bar> \<le> 1001" using q by linarith
    then show ?thesis using p q by (intro add_mono mult_mono) simp_all
  qed
  finally have 1: "\<bar>p * q - x * y\<bar> \<le> 3000 / 10 ^ 11" by simp
  have "x * y \<le> 1000 * 1000" "0 \<le> x * y"
    using mult_mono[OF p(3) q(3)] mult_nonneg_nonneg[OF p(2) q(2)] q(2) by simp_all
  moreover have "\<bar>p * q - x * y\<bar> \<le> 1" using 1 by (rule order_trans) simp
  ultimately have "\<bar>p * q\<bar> \<le> 1000 * 1000 + 1" by linarith
  then have "\<bar>p * q\<bar> \<le> 10 ^ 7" by simp
  then have "\<bar>dmul p q - p * q\<bar> \<le> 1 / 10 ^ 11" unfolding dmul_def by (rule d28_step) simp
  then show ?thesis using 1 by (rule abs_via) simp
qed

section \<open>Properties\<close>

lemma attribution_shape:
  assumes "compute_fx_attribution c p n b f0 f1 sy = Inr (Some a)"
  shows "0 < c" "0 < p" "0 < f0" "0 < f1" "str_upper n \<noteq> str_upper b"
    "quantize_tenth (dmul (dsub (ddiv p c) 1) 100) = Some (fa_stock_return_pct a)"
    "quantize_tenth (dmul (dsub (ddiv f1 f0) 1) 100) = Some (fa_fx_impact_pct a)"
    "quantize_tenth (dmul (dsub (dmul (ddiv p c) (ddiv f1 f0)) 1) 100) = Some (fa_base_return_pct a)"
  using assms
  by (auto simp: compute_fx_attribution_def Let_def bind_res_def quantized_def check_positive_def
      split: sum.splits option.splits if_splits)

text \<open>C7. The attribution is the exact decomposition to the displayed decimal: for positive
  inputs and price and rate ratios up to 1000, the three percentages lie within 0.051 of the
  price move, the rate move and the compounded return, so the base return is the product of
  the other two and not their sum.\<close>

theorem attribution_decomposes:
  assumes a: "compute_fx_attribution c p n b f0 f1 sy = Inr (Some a)"
    and s: "p / c \<le> 1000" and f: "f1 / f0 \<le> 1000"
  shows "\<bar>tenths_val (fa_stock_return_pct a) - (p / c - 1) * 100\<bar> \<le> 51 / 1000 \<and>
    \<bar>tenths_val (fa_fx_impact_pct a) - (f1 / f0 - 1) * 100\<bar> \<le> 51 / 1000 \<and>
    \<bar>tenths_val (fa_base_return_pct a) - ((p / c) * (f1 / f0) - 1) * 100\<bar> \<le> 51 / 1000"
proof -
  note h = attribution_shape[OF a]
  have p0: "0 \<le> p / c" "0 \<le> f1 / f0" using h by simp_all
  have rs: "\<bar>ddiv p c - p / c\<bar> \<le> 1 / 10 ^ 11" using p0 s by (intro ratio_error) simp_all
  have rf: "\<bar>ddiv f1 f0 - f1 / f0\<bar> \<le> 1 / 10 ^ 11" using p0 f by (intro ratio_error) simp_all
  have rb: "\<bar>dmul (ddiv p c) (ddiv f1 f0) - (p / c) * (f1 / f0)\<bar> \<le> 1 / 10 ^ 7"
    by (rule product_error[OF rs p0(1) s rf p0(2) f])
  have "(p / c) * (f1 / f0) \<le> 1000 * 1000" "0 \<le> (p / c) * (f1 / f0)"
    using mult_mono[OF s f] mult_nonneg_nonneg[OF p0] p0(2) by simp_all
  then have big: "\<bar>(p / c) * (f1 / f0)\<bar> \<le> 10 ^ 7" by simp
  have 1: "\<bar>dmul (dsub (ddiv p c) 1) 100 - (p / c - 1) * 100\<bar> \<le> 100 * (1 / 10 ^ 11) + 1 / 10 ^ 8"
    using p0 s by (intro percent_of_ratio[OF rs]) simp_all
  have 2: "\<bar>dmul (dsub (ddiv f1 f0) 1) 100 - (f1 / f0 - 1) * 100\<bar> \<le> 100 * (1 / 10 ^ 11) + 1 / 10 ^ 8"
    using p0 f by (intro percent_of_ratio[OF rf]) simp_all
  have 3: "\<bar>dmul (dsub (dmul (ddiv p c) (ddiv f1 f0)) 1) 100 - ((p / c) * (f1 / f0) - 1) * 100\<bar>
      \<le> 100 * (1 / 10 ^ 7) + 1 / 10 ^ 8"
    using big by (intro percent_of_ratio[OF rb]) simp_all
  show ?thesis
    by (intro conjI abs_via[OF quantize_tenth_error[OF h(6)] 1] abs_via[OF quantize_tenth_error[OF h(7)] 2]
        abs_via[OF quantize_tenth_error[OF h(8)] 3]) simp_all
qed

text \<open>A small loss is printed with two signs: whenever the rounded stock return is zero but
  the return is negative, the note reads \<open>+-0.0%\<close>.\<close>

theorem small_loss_printed_twice_signed:
  assumes "dmul (dsub (ddiv p c) 1) 100 < 0" "- 1 / 20 < dmul (dsub (ddiv p c) 1) 100"
    and a: "compute_fx_attribution c p n b f0 f1 (Some sy) = Inr (Some a)" "sy \<noteq> []"
  shows "\<exists>rest. fa_note_text a = sy @ '' +-0.0% '' @ rest"
proof -
  let ?x = "dmul (dsub (ddiv p c) 1) 100"
  have "\<lfloor>?x * 10\<rfloor> = - 1" using assms(1,2) by (simp add: floor_eq_iff)
  moreover have "?x * 10 - of_int (- 1) > 1 / 2" using assms(2) by simp
  ultimately have "round_half_even (?x * 10) = 0" by (simp add: round_half_even_def Let_def)
  then have "fa_stock_return_pct a = Tenths True 0"
    using attribution_shape(6)[OF a(1)] assms(1) by (auto simp: quantize_tenth_def Let_def split: if_splits)
  moreover have "fmt_pct (Tenths True 0) = ''+-0.0%''" by code_simp
  moreover have "\<exists>rest. fa_note_text a = sy @ '' '' @ fmt_pct (fa_stock_return_pct a) @ '' '' @ rest"
    using a by (auto simp: compute_fx_attribution_def Let_def bind_res_def split: sum.splits if_splits)
  ultimately show ?thesis by auto
qed

section \<open>Evaluations\<close>

lemma exact_108: "d28 (27 / 25) = 27 / 25" "d28 (21 / 20) = 21 / 20" "d28 (567 / 500) = 567 / 500"
  "d28 (2 / 25) = 2 / 25" "d28 (1 / 20) = 1 / 20" "d28 (67 / 500) = 67 / 500" "d28 (67 / 5) = 67 / 5"
  "d28 8 = 8" "d28 5 = 5"
  using d28_decimal[of 108 2] d28_decimal[of 105 2] d28_decimal[of 1134 3] d28_decimal[of 8 2] d28_decimal[of 5 2]
    d28_decimal[of 134 3] d28_decimal[of 134 1] d28_decimal[of 8 0] d28_decimal[of 5 0] by simp_all

lemma ratio_108: "ddiv 108 100 = 27 / 25" "ddiv 84 80 = 21 / 20" "dmul (27 / 25) (21 / 20) = 567 / 500"
  "dmul (dsub (27 / 25) 1) 100 = 8" "dmul (dsub (21 / 20) 1) 100 = 5" "dmul (dsub (567 / 500) 1) 100 = 67 / 5"
  by (simp_all add: decimal_ops exact_108)

lemma exact_9997: "d28 (9997 / 10000) = 9997 / 10000" "d28 (- (3 / 10000)) = - (3 / 10000)"
  "d28 (- (3 / 100)) = - (3 / 100)" "d28 (209937 / 200000) = 209937 / 200000"
  "d28 (9937 / 200000) = 9937 / 200000" "d28 (9937 / 2000) = 9937 / 2000"
  using d28_decimal[of 9997 4] d28_decimal[of "- 3" 4] d28_decimal[of "- 3" 2] d28_decimal[of 1049685 6]
    d28_decimal[of 49685 6] d28_decimal[of 49685 4] by simp_all

lemma ratio_9997: "ddiv 9997 10000 = 9997 / 10000" "dmul (dsub (9997 / 10000) 1) 100 = - (3 / 100)"
  "dmul (9997 / 10000) (21 / 20) = 209937 / 200000" "dmul (dsub (209937 / 200000) 1) 100 = 9937 / 2000"
  by (simp_all add: decimal_ops exact_9997)

lemma quantized_values: "quantized 8 = Inr (Tenths False 80)" "quantized 5 = Inr (Tenths False 50)"
  "quantized (67 / 5) = Inr (Tenths False 134)" "quantized (- (3 / 100)) = Inr (Tenths True 0)"
  "quantized (9937 / 2000) = Inr (Tenths False 50)"
proof -
  have f: "\<lfloor>- (3 / 10) :: rat\<rfloor> = - 1" "\<lfloor>9937 / 200 :: rat\<rfloor> = 49" by (simp_all add: floor_eq_iff)
  show "quantized 8 = Inr (Tenths False 80)" "quantized 5 = Inr (Tenths False 50)"
    "quantized (67 / 5) = Inr (Tenths False 134)" "quantized (- (3 / 100)) = Inr (Tenths True 0)"
    "quantized (9937 / 2000) = Inr (Tenths False 50)"
    by (simp_all add: quantized_def quantize_tenth_def round_half_even_def Let_def f)
qed

lemma upper_usd: "str_upper ''USD'' = ''USD''" "str_upper ''INR'' = ''INR''" by code_simp+

lemma attribution_decomposes_witness:
  "\<exists>a. compute_fx_attribution 100 108 ''USD'' ''INR'' 80 84 None = Inr (Some a) \<and>
     \<bar>tenths_val (fa_base_return_pct a) - 134 / 10\<bar> \<le> 51 / 1000"
proof -
  have "\<exists>a. compute_fx_attribution 100 108 ''USD'' ''INR'' 80 84 None = Inr (Some a)"
    by (simp add: compute_fx_attribution_def upper_usd check_positive_def ratio_108 quantized_values Let_def)
  then obtain a where a: "compute_fx_attribution 100 108 ''USD'' ''INR'' 80 84 None = Inr (Some a)" by blast
  show ?thesis using attribution_decomposes[OF a] a by auto
qed

lemma small_loss_printed_twice_signed_witness:
  "\<exists>a rest. compute_fx_attribution 10000 9997 ''USD'' ''INR'' 80 84 (Some ''AAPL'') = Inr (Some a) \<and>
     fa_note_text a = ''AAPL'' @ '' +-0.0% '' @ rest"
proof -
  have "\<exists>a. compute_fx_attribution 10000 9997 ''USD'' ''INR'' 80 84 (Some ''AAPL'') = Inr (Some a)"
    by (simp add: compute_fx_attribution_def upper_usd check_positive_def ratio_9997 ratio_108(2,5)
        quantized_values Let_def)
  then obtain a where a: "compute_fx_attribution 10000 9997 ''USD'' ''INR'' 80 84 (Some ''AAPL'') = Inr (Some a)" by blast
  have "\<exists>rest. fa_note_text a = ''AAPL'' @ '' +-0.0% '' @ rest"
    by (rule small_loss_printed_twice_signed[OF _ _ a]) (simp_all add: ratio_9997)
  then show ?thesis using a by blast
qed

end
