(* ===== verification/Rate_Limiter.thy ===== *)
theory Rate_Limiter
  imports Redis
begin

text \<open>
  The sliding-window limiter of \<open>brokers/rate_limiter.py\<close>. One pass of the loop of \<open>acquire\<close>
  is split where the code awaits: trimming and counting (\<open>limiter_count\<close>), what the other workers
  do meanwhile, then adding the own entry (\<open>limiter_admit\<close>) or reading the oldest one to compute
  the sleep. \<open>acquire\<close> threads the time that has passed since the call: the commands of a pass
  and the oversleeping of \<open>asyncio.sleep\<close> are parameters, the sleeps are the computed ones.
\<close>

record limiter =
  lm_key :: string
  lm_max :: int
  lm_window_s :: rat
  lm_window_ms :: int
  lm_max_wait_s :: rat
  lm_expire_s :: int

definition limiter_of :: "string \<Rightarrow> int \<Rightarrow> rat \<Rightarrow> rat \<Rightarrow> string + limiter" where
  "limiter_of key max_requests window_seconds max_wait_seconds =
     (if max_requests < 1 then Inl ''max_requests must be >= 1''
      else if window_seconds \<le> 0 then Inl ''window_seconds must be > 0''
      else if max_wait_seconds < 0 then Inl ''max_wait_seconds must be >= 0''
      else Inr \<lparr>lm_key = key, lm_max = max_requests, lm_window_s = window_seconds,
             lm_window_ms = round_down (fmul window_seconds 1000), lm_max_wait_s = max_wait_seconds,
             lm_expire_s = max (round_down (fmul window_seconds 2) + 1) 2\<rparr>)"

definition limiter_count :: "'r redis \<Rightarrow> limiter \<Rightarrow> int \<Rightarrow> 'r \<Rightarrow> int \<times> 'r" where
  "limiter_count R lm now_ms r =
     (let cutoff = now_ms - lm_window_ms lm;
          r1 = rd_zremrangebyscore R r (lm_key lm) (Some 0) (of_int cutoff)
      in (rd_zcard R r1 (lm_key lm), r1))"

definition limiter_admit :: "'r redis \<Rightarrow> limiter \<Rightarrow> int \<Rightarrow> string \<Rightarrow> 'r \<Rightarrow> 'r" where
  "limiter_admit R lm now_ms member r =
     rd_expire R (rd_zadd R r (lm_key lm) member (of_int now_ms)) (lm_key lm) (lm_expire_s lm) False"

definition sleep_time :: "limiter \<Rightarrow> int \<Rightarrow> rat \<Rightarrow> rat" where
  "sleep_time lm now_ms oldest_score =
     (let wait_ms = round_down oldest_score + lm_window_ms lm - now_ms
      in max (fdiv (of_int wait_ms) 1000) (f64 (5 / 1000)))"

datatype pass = Admitted | Retry | Sleep rat | Rate_limited

text \<open>\<open>between\<close> is what other workers do to the store after \<open>ZCARD\<close> and before the next command.\<close>

definition limiter_pass ::
  "'r redis \<Rightarrow> limiter \<Rightarrow> ('r \<Rightarrow> 'r) \<Rightarrow> int \<Rightarrow> rat \<Rightarrow> string \<Rightarrow> 'r \<Rightarrow> pass \<times> 'r" where
  "limiter_pass R lm between now_ms elapsed member r =
     (case limiter_count R lm now_ms r of
        (n, r0) \<Rightarrow>
          let r1 = between r0 in
          if n < lm_max lm then (Admitted, limiter_admit R lm now_ms member r1)
          else (case rd_zfirst R r1 (lm_key lm) of
              None \<Rightarrow> (Retry, r1)
            | Some (_, oldest_score) \<Rightarrow>
                (let sleep_s = sleep_time lm now_ms oldest_score
                 in if fadd elapsed sleep_s > lm_max_wait_s lm then (Rate_limited, r1)
                    else (Sleep sleep_s, r1))))"

text \<open>What surrounds a call, by the number of the pass: the wall clock in milliseconds, the other
  workers before a pass and within it, the value of \<open>time.monotonic() - start\<close> when the
  commands of a pass begun at a given time are done, and the time at which a sleep meant to end at
  a given time really ends.\<close>

record 'r surroundings =
  sr_clock :: "nat \<Rightarrow> int"
  sr_elapsed :: "nat \<Rightarrow> rat \<Rightarrow> rat"
  sr_wake :: "nat \<Rightarrow> rat \<Rightarrow> rat"
  sr_others :: "nat \<Rightarrow> 'r \<Rightarrow> 'r"
  sr_between :: "nat \<Rightarrow> 'r \<Rightarrow> 'r"

text \<open>\<open>acquire\<close>: \<open>Some True\<close> is the return, \<open>Some False\<close> the \<open>BrokerAPIError\<close>, \<open>None\<close> means
  that the passes given by the fuel were not enough. With it come the waits (the elapsed time
  when the sleep began, and its length), the time at the end and the store.\<close>

fun acquire ::
  "nat \<Rightarrow> 'r redis \<Rightarrow> limiter \<Rightarrow> 'r surroundings \<Rightarrow> string \<Rightarrow> nat \<Rightarrow> rat \<Rightarrow> 'r
     \<Rightarrow> bool option \<times> (rat \<times> rat) list \<times> rat \<times> 'r" where
  "acquire 0 R lm sr member i t r = (None, [], t, r)"
| "acquire (Suc fuel) R lm sr member i t r =
     (let elapsed = sr_elapsed sr i t
      in case limiter_pass R lm (sr_between sr i) (sr_clock sr i) elapsed member (sr_others sr i r) of
           (Admitted, r1) \<Rightarrow> (Some True, [], elapsed, r1)
         | (Rate_limited, r1) \<Rightarrow> (Some False, [], elapsed, r1)
         | (Retry, r1) \<Rightarrow> acquire fuel R lm sr member (Suc i) elapsed r1
         | (Sleep sleep_s, r1) \<Rightarrow>
             (case acquire fuel R lm sr member (Suc i) (sr_wake sr i (elapsed + sleep_s)) r1 of
                (res, waits, stop, r2) \<Rightarrow> (res, (elapsed, sleep_s) # waits, stop, r2)))"

text \<open>The process-wide limiter of the Zerodha client, made on first use.\<close>

definition get_zerodha_rate_limiter :: "limiter option \<Rightarrow> (string + limiter) \<times> limiter option" where
  "get_zerodha_rate_limiter cached =
     (case cached of
        Some lm \<Rightarrow> (Inr lm, cached)
      | None \<Rightarrow> (case limiter_of ''ratelimit:zerodha:global'' 10 1 30 of
            Inl e \<Rightarrow> (Inl e, None) | Inr lm \<Rightarrow> (Inr lm, Some lm)))"

definition reset_zerodha_rate_limiter :: "limiter option \<Rightarrow> limiter option" where
  "reset_zerodha_rate_limiter cached = None"

section \<open>One pass\<close>

lemma count_scores:
  assumes "redis_zset R"
  shows "rd_zscore R (snd (limiter_count R lm now r)) k m =
    (case rd_zscore R r k m of None \<Rightarrow> None
     | Some s \<Rightarrow> if k = lm_key lm \<and> 0 \<le> s \<and> s \<le> of_int (now - lm_window_ms lm) then None else Some s)"
  by (simp add: limiter_count_def Let_def redis_zset_simps[OF assms] in_score_range_def cong: option.case_cong)

lemma count_value:
  assumes "redis_zset R"
  shows "fst (limiter_count R lm now r) =
    int (card (zset_members R (snd (limiter_count R lm now r)) (lm_key lm)))"
  using redis_zcard[OF assms] by (simp add: limiter_count_def Let_def)

lemma admit_scores:
  assumes "redis_zset R"
  shows "rd_zscore R (limiter_admit R lm now member r) k m =
    (if k = lm_key lm \<and> m = member then Some (of_int now) else rd_zscore R r k m)"
  by (simp add: limiter_admit_def redis_zset_simps[OF assms])

lemma sleep_time_pos: "f64 (5 / 1000) \<le> sleep_time lm now s"
  by (simp add: sleep_time_def Let_def)

text \<open>At the limit the set is not empty, so a pass has to retry at once only where other workers
  empty the set behind its count.\<close>

lemma no_retry:
  assumes R: "redis_zset R" and "1 \<le> lm_max lm"
    and b: "\<And>r. zset_members R (b r) (lm_key lm) = {} \<Longrightarrow> zset_members R r (lm_key lm) = {}"
  shows "fst (limiter_pass R lm b now el member r) \<noteq> Retry"
proof -
  let ?r0 = "snd (limiter_count R lm now r)"
  have "rd_zfirst R (b ?r0) (lm_key lm) \<noteq> None" if "\<not> fst (limiter_count R lm now r) < lm_max lm"
  proof
    assume "rd_zfirst R (b ?r0) (lm_key lm) = None"
    then have "zset_members R ?r0 (lm_key lm) = {}"
      using redis_zfirst[OF R, of "b ?r0" "lm_key lm"] b by simp
    then show False using that assms(2) count_value[OF R, of lm now r] by simp
  qed
  then show ?thesis
    by (cases "fst (limiter_count R lm now r) < lm_max lm")
       (auto simp: limiter_pass_def case_prod_beta Let_def split: if_splits option.splits)
qed

lemma sleeping_pass:
  "limiter_pass R lm b now el member r = (Sleep s, r1) \<Longrightarrow> fadd el s \<le> lm_max_wait_s lm \<and> f64 (5 / 1000) \<le> s"
  using sleep_time_pos by (auto simp: limiter_pass_def case_prod_beta Let_def split: if_splits option.splits)

lemma admitting_pass:
  "redis_zset R \<Longrightarrow> limiter_pass R lm b now el member r = (Admitted, r1) \<Longrightarrow>
     rd_zscore R r1 (lm_key lm) member = Some (of_int now)"
  by (auto simp: limiter_pass_def case_prod_beta Let_def admit_scores split: if_splits option.splits)

section \<open>The window bound of sequential callers\<close>

text \<open>A run of passes at given times with fresh members; the result is the admitted ones.\<close>

fun limiter_run ::
  "'r redis \<Rightarrow> limiter \<Rightarrow> (int \<times> rat \<times> string) list \<Rightarrow> 'r \<Rightarrow> (int \<times> string) list \<times> 'r" where
  "limiter_run R lm [] r = ([], r)"
| "limiter_run R lm ((now, el, m) # es) r =
     (case limiter_pass R lm id now el m r of
        (p, r1) \<Rightarrow> (case limiter_run R lm es r1 of
           (adm, r2) \<Rightarrow> (if p = Admitted then (now, m) # adm else adm, r2)))"

text \<open>The set holds every earlier admission that is still inside a window of \<open>now\<close>.\<close>

definition holds_recent :: "'r redis \<Rightarrow> limiter \<Rightarrow> int \<Rightarrow> (int \<times> string) set \<Rightarrow> 'r \<Rightarrow> bool" where
  "holds_recent R lm now adm r \<longleftrightarrow>
     (\<forall>(t, m) \<in> adm. now - lm_window_ms lm < t \<longrightarrow> m \<in> zset_members R r (lm_key lm) \<and>
        rd_zscore R r (lm_key lm) m = Some (of_int t))"

lemma pass_keeps_recent:
  assumes R: "redis_zset R" and h: "holds_recent R lm earlier adm r" and now: "earlier \<le> now"
    and fresh: "member \<notin> snd ` adm"
  shows "holds_recent R lm now adm (snd (limiter_pass R lm id now el member r))"
  unfolding holds_recent_def
proof clarify
  fix t m assume m: "(t, m) \<in> adm" "now - lm_window_ms lm < t"
  then have s: "rd_zscore R r (lm_key lm) m = Some (of_int t)"
    using h now by (fastforce simp: holds_recent_def)
  have "m \<in> snd ` adm" using m(1) by force
  then have s2: "m \<noteq> member" using fresh by blast
  have "rd_zscore R (snd (limiter_count R lm now r)) (lm_key lm) m = Some (of_int t)"
    using s m(2) by (simp add: count_scores[OF R])
  then have "rd_zscore R (snd (limiter_pass R lm id now el member r)) (lm_key lm) m = Some (of_int t)"
    using s2 by (simp add: limiter_pass_def case_prod_beta Let_def admit_scores[OF R] split: option.split)
  then show "m \<in> zset_members R (snd (limiter_pass R lm id now el member r)) (lm_key lm) \<and>
      rd_zscore R (snd (limiter_pass R lm id now el member r)) (lm_key lm) m = Some (of_int t)"
    by (simp add: zset_members_def)
qed

lemma admitted_pass:
  assumes R: "redis_zset R" and p: "fst (limiter_pass R lm id now el member r) = Admitted"
  shows "int (card (zset_members R (snd (limiter_pass R lm id now el member r)) (lm_key lm))) \<le> lm_max lm"
    and "rd_zscore R (snd (limiter_pass R lm id now el member r)) (lm_key lm) member = Some (of_int now)"
proof -
  let ?r1 = "snd (limiter_count R lm now r)" and ?k = "lm_key lm"
  have n: "fst (limiter_count R lm now r) < lm_max lm"
    and r: "snd (limiter_pass R lm id now el member r) = limiter_admit R lm now member ?r1"
    using p by (auto simp: limiter_pass_def case_prod_beta Let_def split: if_splits option.splits)
  have "zset_members R (limiter_admit R lm now member ?r1) ?k = insert member (zset_members R ?r1 ?k)"
    by (auto simp: zset_members_def admit_scores[OF R])
  then have "card (zset_members R (limiter_admit R lm now member ?r1) ?k) \<le> Suc (card (zset_members R ?r1 ?k))"
    by (simp add: card_insert_if redis_zset_finite[OF R])
  then show "int (card (zset_members R (snd (limiter_pass R lm id now el member r)) ?k)) \<le> lm_max lm"
    using n count_value[OF R, of lm now r] unfolding r by linarith
  show "rd_zscore R (snd (limiter_pass R lm id now el member r)) ?k member = Some (of_int now)"
    unfolding r by (simp add: admit_scores[OF R])
qed

text \<open>No window of \<open>W\<close> milliseconds holds more than the limit of the listed admissions.\<close>

definition in_window :: "int \<Rightarrow> int \<Rightarrow> int \<times> string \<Rightarrow> bool" where
  "in_window w stop a \<longleftrightarrow> stop - w < fst a \<and> fst a \<le> stop"

definition window_ok :: "limiter \<Rightarrow> (int \<times> string) list \<Rightarrow> bool" where
  "window_ok lm adm \<longleftrightarrow>
     (\<forall>stop. int (length (filter (in_window (lm_window_ms lm) stop) adm)) \<le> lm_max lm)"

lemma recent_members_card:
  assumes R: "redis_zset R" and d: "distinct (map snd xs)"
    and xs: "\<forall>a \<in> set xs. snd a \<in> zset_members R r k"
  shows "length xs \<le> card (zset_members R r k)"
proof -
  have "length xs = card (set (map snd xs))" using distinct_card[OF d] by simp
  also have "\<dots> \<le> card (zset_members R r k)"
    using xs by (intro card_mono[OF redis_zset_finite[OF R]]) auto
  finally show ?thesis .
qed

lemma admitted_window_ok:
  assumes R: "redis_zset R" and h: "holds_recent R lm earlier (set adm) r" and now: "earlier \<le> now"
    and d: "distinct (map snd (adm @ [(now, m)]))" and w: "window_ok lm adm"
    and p: "fst (limiter_pass R lm id now el m r) = Admitted"
  shows "window_ok lm (adm @ [(now, m)])"
  unfolding window_ok_def
proof
  fix stop
  let ?W = "in_window (lm_window_ms lm) stop" and ?r = "snd (limiter_pass R lm id now el m r)"
  show "int (length (filter ?W (adm @ [(now, m)]))) \<le> lm_max lm"
  proof (cases "?W (now, m)")
    case False
    then show ?thesis using w by (simp add: window_ok_def)
  next
    case True
    have keep: "holds_recent R lm now (set adm) ?r"
      using d by (intro pass_keeps_recent[OF R h now]) auto
    have "snd a \<in> zset_members R ?r (lm_key lm)" if "a \<in> set (filter ?W (adm @ [(now, m)]))" for a
    proof (cases "a \<in> set adm")
      case in_adm: True
      then have "now - lm_window_ms lm < fst a" using that True by (auto simp: in_window_def)
      then show ?thesis using keep in_adm by (cases a) (auto simp: holds_recent_def)
    next
      case False
      then have "a = (now, m)" using that by (auto split: if_splits)
      then show ?thesis using admitted_pass(2)[OF R p] by (simp add: zset_members_def)
    qed
    moreover have "distinct (map snd (filter ?W (adm @ [(now, m)])))"
      using d by (rule distinct_map_filter)
    ultimately have "length (filter ?W (adm @ [(now, m)])) \<le> card (zset_members R ?r (lm_key lm))"
      by (intro recent_members_card[OF R]) auto
    then show ?thesis using admitted_pass(1)[OF R p] by linarith
  qed
qed

lemma holds_recent_insert:
  assumes R: "redis_zset R" and h: "holds_recent R lm earlier adm r" and now: "earlier \<le> now"
    and fresh: "m \<notin> snd ` adm" and p: "fst (limiter_pass R lm id now el m r) = Admitted"
  shows "holds_recent R lm now (insert (now, m) adm) (snd (limiter_pass R lm id now el m r))"
  using pass_keeps_recent[OF R h now fresh, of el] admitted_pass(2)[OF R p]
  by (auto simp: holds_recent_def zset_members_def)

lemma run_window_ok:
  assumes R: "redis_zset R"
  shows "holds_recent R lm earlier (set adm) r \<Longrightarrow> window_ok lm adm \<Longrightarrow>
    sorted (earlier # map fst es) \<Longrightarrow> distinct (map snd adm @ map (snd \<circ> snd) es) \<Longrightarrow>
    window_ok lm (adm @ fst (limiter_run R lm es r))"
proof (induction es arbitrary: earlier adm r)
  case (Cons e es)
  obtain now el m where e: "e = (now, el, m)" by (cases e) auto
  have now: "earlier \<le> now" and srt: "sorted (now # map fst es)"
    using Cons.prems(3) by (auto simp: e)
  have fresh: "m \<notin> snd ` set adm" using Cons.prems(4) by (auto simp: e)
  let ?p = "limiter_pass R lm id now el m r"
  show ?case
  proof (cases "fst ?p = Admitted")
    case True
    have "holds_recent R lm now (set (adm @ [(now, m)])) (snd ?p)"
      using holds_recent_insert[OF R Cons.prems(1) now fresh True] by simp
    moreover have "window_ok lm (adm @ [(now, m)])"
      by (rule admitted_window_ok[OF R Cons.prems(1) now _ Cons.prems(2) True])
         (use Cons.prems(4) in \<open>auto simp: e\<close>)
    ultimately have "window_ok lm ((adm @ [(now, m)]) @ fst (limiter_run R lm es (snd ?p)))"
      using Cons.prems(4) srt by (intro Cons.IH) (auto simp: e)
    then show ?thesis using True by (simp add: e case_prod_beta)
  next
    case False
    have "window_ok lm (adm @ fst (limiter_run R lm es (snd ?p)))"
      using Cons.prems(4) srt pass_keeps_recent[where now = now, OF R Cons.prems(1) now fresh]
      by (intro Cons.IH[OF _ Cons.prems(2)]) (auto simp: e)
    then show ?thesis using False by (simp add: e case_prod_beta)
  qed
qed simp

text \<open>C8. Sliding window. When passes follow one another (their clock never goes back and every
  caller draws a fresh member id), every window of the configured length, wherever it lies,
  holds at most the configured number of admitted requests, whatever the set held before.\<close>

theorem limiter_window_bound:
  assumes "redis_zset R" "0 \<le> lm_max lm" "sorted (map fst es)" "distinct (map (snd \<circ> snd) es)"
  shows "\<forall>stop. int (length (filter (\<lambda>(t, m). stop - lm_window_ms lm < t \<and> t \<le> stop)
      (fst (limiter_run R lm es r)))) \<le> lm_max lm"
proof (cases es)
  case (Cons e es')
  have "window_ok lm ([] @ fst (limiter_run R lm es r))"
    using assms Cons by (intro run_window_ok[where earlier = "fst e"])
      (auto simp: holds_recent_def window_ok_def)
  moreover have "in_window (lm_window_ms lm) stop = (\<lambda>(t, m). stop - lm_window_ms lm < t \<and> t \<le> stop)" for stop
    by (simp add: fun_eq_iff in_window_def)
  ultimately show ?thesis by (simp add: window_ok_def)
qed (use assms in simp)

definition two_per_second :: limiter where
  "two_per_second = \<lparr>lm_key = ''ratelimit:zerodha:global'', lm_max = 2, lm_window_s = 1,
     lm_window_ms = 1000, lm_max_wait_s = 30, lm_expire_s = 3\<rparr>"

lemma limiter_window_bound_witness:
  "fst (limiter_run mem_redis two_per_second
      [(1000, 0, ''a''), (1400, 0, ''b''), (1500, 0, ''c''), (2001, 0, ''d'')] mem_empty) =
      [(1000, ''a''), (1400, ''b''), (2001, ''d'')] \<and>
   int (length (filter (\<lambda>(t, m). 1300 < t \<and> t \<le> 2300)
      (fst (limiter_run mem_redis two_per_second
         [(1000, 0, ''a''), (1400, 0, ''b''), (1500, 0, ''c''), (2001, 0, ''d'')] mem_empty)))) \<le> 2"
proof
  show "int (length (filter (\<lambda>(t, m). 1300 < t \<and> t \<le> 2300)
      (fst (limiter_run mem_redis two_per_second
         [(1000, 0, ''a''), (1400, 0, ''b''), (1500, 0, ''c''), (2001, 0, ''d'')] mem_empty)))) \<le> 2"
    using limiter_window_bound[OF mem_redis_zset, of two_per_second
        "[(1000, 0, ''a''), (1400, 0, ''b''), (1500, 0, ''c''), (2001, 0, ''d'')]" mem_empty]
    by (auto simp: two_per_second_def simp del: limiter_run.simps dest: spec[of _ 2300])
qed code_simp

section \<open>Waiting ends\<close>

definition punctual :: "'r surroundings \<Rightarrow> rat \<Rightarrow> rat \<Rightarrow> bool" where
  "punctual sr commands late \<longleftrightarrow>
     (\<forall>i t. t \<le> sr_elapsed sr i t \<and> sr_elapsed sr i t \<le> t + commands) \<and>
     (\<forall>i t. t \<le> sr_wake sr i t \<and> sr_wake sr i t \<le> t + late)"

text \<open>Only in the passes of \<open>E\<close> may the other workers empty the set between two commands of a pass.\<close>

definition emptied_only_in :: "nat set \<Rightarrow> 'r redis \<Rightarrow> string \<Rightarrow> 'r surroundings \<Rightarrow> bool" where
  "emptied_only_in E R k sr \<longleftrightarrow>
     (\<forall>i r. i \<notin> E \<longrightarrow> zset_members R (sr_between sr i r) k = {} \<longrightarrow> zset_members R r k = {})"

text \<open>A sleep is begun only if it is meant to end before the cap, rounded up to a whole second.\<close>

lemma sleep_below_cap:
  assumes "fadd e s \<le> c" "\<lfloor>c\<rfloor> + 1 \<le> 2 ^ 53" "0 \<le> c"
  shows "e + s < of_int (\<lfloor>c\<rfloor> + 1)"
proof (rule ccontr)
  assume "\<not> e + s < of_int (\<lfloor>c\<rfloor> + 1)"
  then have "of_int (\<lfloor>c\<rfloor> + 1) \<le> e + s" by simp
  moreover have "0 \<le> \<lfloor>c\<rfloor>" using assms(3) by simp
  then have "\<bar>\<lfloor>c\<rfloor> + 1\<bar> \<le> 2 ^ 53" using assms(2) by simp
  then have "f64 (of_int (\<lfloor>c\<rfloor> + 1)) = of_int (\<lfloor>c\<rfloor> + 1)" by (rule fl.rnd_of_int)
  ultimately have "of_int (\<lfloor>c\<rfloor> + 1) \<le> fadd e s" unfolding fadd_def by (intro fl.rnd_ge)
  then show False using assms(1) by linarith
qed

lemma card_from:
  assumes "finite (E :: nat set)"
  shows "card (E \<inter> {Suc i..}) \<le> card (E \<inter> {i..})" "i \<in> E \<Longrightarrow> card (E \<inter> {i..}) = Suc (card (E \<inter> {Suc i..}))"
proof -
  show "card (E \<inter> {Suc i..}) \<le> card (E \<inter> {i..})" using assms by (intro card_mono) auto
  assume "i \<in> E"
  then have "E \<inter> {i..} = insert i (E \<inter> {Suc i..})" by auto
  then show "card (E \<inter> {i..}) = Suc (card (E \<inter> {Suc i..}))" using assms by simp
qed

definition acquired :: "'r redis \<Rightarrow> limiter \<Rightarrow> string \<Rightarrow> bool option \<times> (rat \<times> rat) list \<times> rat \<times> 'r \<Rightarrow> rat \<Rightarrow> rat \<Rightarrow> bool" where
  "acquired R lm member x t final \<longleftrightarrow>
     (case x of (res, waits, stop, r) \<Rightarrow>
        (\<forall>(e, s) \<in> set waits. fadd e s \<le> lm_max_wait_s lm) \<and>
        (waits = [] \<or> t + sum_list (map snd waits) < of_int (\<lfloor>lm_max_wait_s lm\<rfloor> + 1)) \<and> stop \<le> final \<and>
        (res = Some True \<longrightarrow> rd_zscore R r (lm_key lm) member \<noteq> None))"

lemma acquired_wait:
  assumes "acquired R lm member x t' final" and "fadd e s \<le> lm_max_wait_s lm" "t \<le> e" "e + s \<le> t'"
    and "e + s < of_int (\<lfloor>lm_max_wait_s lm\<rfloor> + 1)"
  shows "acquired R lm member (case x of (res, waits, stop, r2) \<Rightarrow> (res, (e, s) # waits, stop, r2)) t final"
proof -
  obtain res waits stop r2 where x: "x = (res, waits, stop, r2)" by (cases x)
  show ?thesis using assms by (auto simp: acquired_def x)
qed

lemma acquired_weaken:
  "acquired R lm member x t' final' \<Longrightarrow> t \<le> t' \<Longrightarrow> final' \<le> final \<Longrightarrow> acquired R lm member x t final"
  by (cases x) (auto simp: acquired_def)

lemma acquire_steps:
  assumes "limiter_pass R lm (sr_between sr i) (sr_clock sr i) (sr_elapsed sr i t) member (sr_others sr i r) = (q, r1)"
  shows "q = Admitted \<Longrightarrow> acquire (Suc fuel) R lm sr member i t r = (Some True, [], sr_elapsed sr i t, r1)"
    and "q = Rate_limited \<Longrightarrow> acquire (Suc fuel) R lm sr member i t r = (Some False, [], sr_elapsed sr i t, r1)"
    and "q = Retry \<Longrightarrow> acquire (Suc fuel) R lm sr member i t r = acquire fuel R lm sr member (Suc i) (sr_elapsed sr i t) r1"
    and "q = Sleep s \<Longrightarrow> acquire (Suc fuel) R lm sr member i t r =
      (case acquire fuel R lm sr member (Suc i) (sr_wake sr i (sr_elapsed sr i t + s)) r1 of
         (res, waits, stop, r2) \<Rightarrow> (res, (sr_elapsed sr i t, s) # waits, stop, r2))"
  using assms by (simp_all add: Let_def split: prod.split)

lemma f64_5ms: "1 / 256 \<le> f64 (5 / 1000)"
proof -
  have "f64 (1 / 256) = 1 / 256" by code_simp
  then show ?thesis by (intro fl.rnd_ge) auto
qed

text \<open>Each pass that sleeps uses up a 256th of a second at least, each one that retries an element of \<open>E\<close>.\<close>

lemma acquire_from:
  assumes R: "redis_zset R" and mx: "1 \<le> lm_max lm" and c: "\<lfloor>lm_max_wait_s lm\<rfloor> + 1 \<le> 2 ^ 53" "0 \<le> lm_max_wait_s lm"
    and p: "punctual sr d l" and E: "finite E" "emptied_only_in E R (lm_key lm) sr"
    and M: "M = of_int (\<lfloor>lm_max_wait_s lm\<rfloor> + 1)"
  shows "acquired R lm member (acquire fuel R lm sr member i t r) t
      (max t (M + l) + of_nat (card (E \<inter> {i..}) + 1) * d) \<and>
    (M \<le> t + of_nat n / 256 \<longrightarrow> n + card (E \<inter> {i..}) + 1 \<le> fuel \<longrightarrow> fst (acquire fuel R lm sr member i t r) \<noteq> None)"
proof (induction fuel arbitrary: i t r n)
  case (0 i t r n)
  have "t \<le> t + d" using p unfolding punctual_def by (meson order_trans)
  then show ?case by (simp add: acquired_def add_increasing2)
next
  case (Suc fuel i t r n)
  define left where "left j = of_nat (card (E \<inter> {j..}) + 1) * d" for j
  define e where "e = sr_elapsed sr i t"
  note IH = Suc.IH[folded left_def]
  have e: "t \<le> e" "e \<le> t + d" using p by (auto simp: punctual_def e_def)
  then have d: "0 \<le> d" by linarith
  have left: "d \<le> left i" "left (Suc i) \<le> left i" "i \<in> E \<Longrightarrow> left (Suc i) + d = left i"
    using d card_from[OF E(1), of i]
    by (auto simp: left_def distrib_right intro!: mult_right_mono)
  obtain q r1 where q: "limiter_pass R lm (sr_between sr i) (sr_clock sr i) e member (sr_others sr i r) = (q, r1)"
    by (cases "limiter_pass R lm (sr_between sr i) (sr_clock sr i) e member (sr_others sr i r)")
  note steps = acquire_steps[OF q[unfolded e_def], folded e_def]
  show ?case
  proof (cases q)
    case Admitted
    have "acquired R lm member (Some True, [], e, r1) t (max t (M + l) + left i)"
      using e left(1) admitting_pass[OF R q[unfolded Admitted]] by (simp add: acquired_def)
    then show ?thesis unfolding steps(1)[OF Admitted] left_def[symmetric] by simp
  next
    case Rate_limited
    have "acquired R lm member (Some False, [], e, r1) t (max t (M + l) + left i)"
      using e left(1) by (simp add: acquired_def)
    then show ?thesis unfolding steps(2)[OF Rate_limited] left_def[symmetric] by simp
  next
    case Retry
    have i: "i \<in> E"
    proof (rule ccontr)
      assume "i \<notin> E"
      then show False
        using E(2) q Retry no_retry[OF R mx, of "sr_between sr i" "sr_clock sr i" e member "sr_others sr i r"]
        by (simp add: emptied_only_in_def)
    qed
    note IH = IH[of "Suc i" e r1 n]
    have "acquired R lm member (acquire fuel R lm sr member (Suc i) e r1) t (max t (M + l) + left i)"
      using e left(3)[OF i] d by (intro acquired_weaken[OF IH[THEN conjunct1]]) auto
    moreover have "fst (acquire fuel R lm sr member (Suc i) e r1) \<noteq> None"
      if "M \<le> t + of_nat n / 256" "n + card (E \<inter> {i..}) + 1 \<le> Suc fuel"
      using IH[THEN conjunct2] that e(1) card_from(2)[OF E(1) i] by simp
    ultimately show ?thesis unfolding steps(3)[OF Retry] left_def[symmetric] by blast
  next
    case (Sleep s)
    let ?t = "sr_wake sr i (e + s)"
    have s: "fadd e s \<le> lm_max_wait_s lm" "1 / 256 \<le> s"
      using sleeping_pass[OF q[unfolded Sleep]] f64_5ms by auto
    have cap: "e + s < M" unfolding M by (rule sleep_below_cap[OF s(1) c])
    have t: "e + s \<le> ?t" "?t \<le> e + s + l" using p by (auto simp: punctual_def)
    let ?x = "acquire fuel R lm sr member (Suc i) ?t r1"
    let ?y = "case ?x of (res, waits, stop, r2) \<Rightarrow> (res, (e, s) # waits, stop, r2)"
    have "acquired R lm member ?x ?t (max t (M + l) + left i)"
      using t cap left(2) by (intro acquired_weaken[OF IH[of "Suc i" ?t r1 n, THEN conjunct1]]) auto
    then have "acquired R lm member ?y t (max t (M + l) + left i)"
      using s(1) e(1) t(1) cap by (intro acquired_wait) (auto simp: M)
    moreover have "fst ?y \<noteq> None"
      if m: "M \<le> t + of_nat n / 256" "n + card (E \<inter> {i..}) + 1 \<le> Suc fuel"
    proof -
      have "n \<noteq> 0" using m(1) cap e(1) s(2) by (cases n) auto
      then obtain k where k: "n = Suc k" by (cases n) auto
      have "M \<le> ?t + of_nat k / 256" using m(1) t(1) e(1) s(2) by (simp add: k add_divide_distrib)
      moreover have "k + card (E \<inter> {Suc i..}) + 1 \<le> fuel" using m(2) k card_from(1)[OF E(1), of i] by simp
      ultimately have "fst ?x \<noteq> None" using IH[of "Suc i" ?t r1 k] by blast
      then show ?thesis by (cases ?x) simp
    qed
    ultimately show ?thesis unfolding steps(4)[OF Sleep] left_def[symmetric] by blast
  qed
qed

text \<open>C9. Waiting ends. Every sleep lasts at least five milliseconds and is begun only if it is meant to
  end within the wait cap, so \<open>acquire\<close> returns or raises, whatever the other workers do between
  its passes: 256 passes for each second of the cap are enough, and one for every pass in which
  the others empty the set between the two commands that read it (\<open>E\<close>; the retry checks no cap).
  Measured by the monotonic clock the waits together stay below the cap rounded up to a whole
  second, and the call is over by then but for the oversleeping of the last wait (\<open>l\<close>)
  and the commands of the passes after it (\<open>d\<close> each). Whoever is let through is in the set.\<close>

theorem acquire_terminates:
  assumes "redis_zset R" "limiter_of key n w c = Inr lm" "c < 9007199254740991"
    and "punctual sr d l" "finite E" "emptied_only_in E R key sr"
    and "acquire (256 * nat (\<lfloor>c\<rfloor> + 1) + 1 + card E) R lm sr member 0 0 r = (res, waits, stop, r')"
  shows "res \<noteq> None \<and> (\<forall>(e, s) \<in> set waits. fadd e s \<le> c) \<and>
    sum_list (map snd waits) < of_int (\<lfloor>c\<rfloor> + 1) \<and>
    stop \<le> of_int (\<lfloor>c\<rfloor> + 1) + l + of_nat (card E + 1) * d \<and>
    (res = Some True \<longrightarrow> member \<in> zset_members R r' key)"
proof -
  have lm: "1 \<le> lm_max lm" "lm_max_wait_s lm = c" "0 \<le> c" "lm_key lm = key"
    using assms(2) by (auto simp: limiter_of_def split: if_splits)
  let ?M = "of_int (\<lfloor>c\<rfloor> + 1) :: rat"
  have "\<lfloor>c\<rfloor> < 9007199254740991" using assms(3) by (simp add: floor_less_iff)
  then have c: "\<lfloor>lm_max_wait_s lm\<rfloor> + 1 \<le> 2 ^ 53" "0 \<le> \<lfloor>c\<rfloor>" unfolding lm(2) using lm(3) by simp_all
  have "0 \<le> sr_wake sr 0 0" "sr_wake sr 0 0 \<le> 0 + l" using assms(4) unfolding punctual_def by blast+
  then have l: "0 \<le> l" by simp
  define n where "n = 256 * nat (\<lfloor>c\<rfloor> + 1)"
  have n: "?M \<le> 0 + of_nat n / 256" using c(2) by (simp add: n_def)
  have E: "E \<inter> {0..} = E" by auto
  have m: "max 0 (?M + l) = ?M + l" using c(2) l by simp
  have "acquired R lm member (acquire (n + 1 + card E) R lm sr member 0 0 r) 0 (max 0 (?M + l) + of_nat (card E + 1) * d) \<and>
      (?M \<le> 0 + of_nat n / 256 \<longrightarrow> n + card E + 1 \<le> n + 1 + card E \<longrightarrow>
       fst (acquire (n + 1 + card E) R lm sr member 0 0 r) \<noteq> None)"
    using acquire_from[where M = ?M and n = n and t = 0 and i = 0 and r = r and member = member and fuel = "n + 1 + card E",
        OF assms(1) lm(1) c(1) _ assms(4,5) assms(6)[folded lm(4)], unfolded lm(2), OF lm(3) refl]
    unfolding E .
  note a = this[unfolded assms(7)[folded n_def] m]
  have "acquired R lm member (res, waits, stop, r') 0 (?M + l + of_nat (card E + 1) * d)" using a by (rule conjunct1)
  moreover have "res \<noteq> None" using a n by (simp only: fst_conv) simp
  moreover have "0 < rat_of_int \<lfloor>c\<rfloor> + 1" using lm(3) by (simp add: add_nonneg_pos)
  ultimately show ?thesis
    by (auto simp: acquired_def lm zset_members_def)
qed

text \<open>A full window: the call waits once and is let in.\<close>

definition calm :: "mem surroundings" where
  "calm = \<lparr>sr_clock = (\<lambda>i. 1500 + int i * 1000), sr_elapsed = (\<lambda>i t. t + 1 / 1000), sr_wake = (\<lambda>i t. t + 2 / 1000),
     sr_others = (\<lambda>_ r. r), sr_between = (\<lambda>_ r. r)\<rparr>"

definition full_window :: mem where
  "full_window = limiter_admit mem_redis two_per_second 1100 ''b'' (limiter_admit mem_redis two_per_second 1000 ''a'' mem_empty)"

lemma acquire_terminates_witness:
  "case acquire 7937 mem_redis two_per_second calm ''m'' 0 0 full_window of (res, waits, stop, r) \<Rightarrow>
     res \<noteq> None \<and> sum_list (map snd waits) < 31 \<and> stop \<le> 31 + 3 / 1000"
proof -
  obtain res waits stop r where a: "acquire 7937 mem_redis two_per_second calm ''m'' 0 0 full_window = (res, waits, stop, r)"
    by (metis prod_cases4)
  have 1: "limiter_of ''ratelimit:zerodha:global'' 2 1 30 = Inr two_per_second" by code_simp
  have 2: "punctual calm (1 / 1000) (2 / 1000)" by (simp add: punctual_def calm_def)
  have 3: "emptied_only_in {} mem_redis ''ratelimit:zerodha:global'' calm" by (simp add: emptied_only_in_def calm_def)
  show ?thesis
    using acquire_terminates[OF mem_redis_zset 1 _ 2 _ 3, of "''m''" full_window res waits stop r] a
    by (simp del: acquire.simps)
qed

section \<open>Concurrent workers\<close>

text \<open>Race of two workers. Counting and adding are two commands, so two workers that both
  count before either adds are both admitted: a limit of \<open>n\<close> is exceeded whenever the window
  has one place left.\<close>

theorem limiter_race:
  assumes "redis_zset R" "m1 \<noteq> m2" "m1 \<notin> zset_members R r (lm_key lm)" "m2 \<notin> zset_members R r (lm_key lm)"
    and "fst (limiter_count R lm now r) = lm_max lm - 1"
  shows "let (n2, r2) = limiter_count R lm now (snd (limiter_count R lm now r)) in
    n2 < lm_max lm \<and>
    rd_zcard R (limiter_admit R lm now m2 (limiter_admit R lm now m1 r2)) (lm_key lm) = lm_max lm + 1"
proof -
  note R = assms(1)
  define r1 where "r1 = snd (limiter_count R lm now r)"
  define r2 where "r2 = snd (limiter_count R lm now r1)"
  let ?k = "lm_key lm"
  have "zset_members R r2 ?k = zset_members R r1 ?k" and new: "m1 \<notin> zset_members R r2 ?k" "m2 \<notin> zset_members R r2 ?k"
    using assms(3,4)
    by (auto simp: zset_members_def r1_def r2_def count_scores[OF R] split: option.splits if_splits)
  then have same: "fst (limiter_count R lm now r1) = lm_max lm - 1"
      "lm_max lm - 1 = int (card (zset_members R r2 ?k))"
    using count_value[OF R, of lm now r] count_value[OF R, of lm now r1] assms(5)
    by (simp_all add: r1_def r2_def)
  have "zset_members R (limiter_admit R lm now m2 (limiter_admit R lm now m1 r2)) ?k =
      insert m2 (insert m1 (zset_members R r2 ?k))"
    by (auto simp: zset_members_def admit_scores[OF R])
  then have "rd_zcard R (limiter_admit R lm now m2 (limiter_admit R lm now m1 r2)) ?k = lm_max lm + 1"
    using same(2) assms(2) new by (simp add: redis_zcard[OF R] redis_zset_finite[OF R])
  then show ?thesis using same(1) by (simp add: case_prod_beta flip: r1_def r2_def)
qed

definition race_start :: mem where
  "race_start = limiter_admit mem_redis two_per_second 1000 ''a'' mem_empty"

lemma limiter_race_witness:
  "let (n2, r2) = limiter_count mem_redis two_per_second 1500
      (snd (limiter_count mem_redis two_per_second 1500 race_start)) in n2 < 2 \<and>
     rd_zcard mem_redis (limiter_admit mem_redis two_per_second 1500 ''c''
       (limiter_admit mem_redis two_per_second 1500 ''b'' r2)) ''ratelimit:zerodha:global'' = 3"
proof -
  have k: "lm_key two_per_second = ''ratelimit:zerodha:global''" "lm_max two_per_second = 2"
    by (simp_all add: two_per_second_def)
  have "fst (limiter_count mem_redis two_per_second 1500 race_start) = 1" by code_simp
  moreover have "''b'' \<notin> zset_members mem_redis race_start ''ratelimit:zerodha:global''"
    "''c'' \<notin> zset_members mem_redis race_start ''ratelimit:zerodha:global''"
    by (simp_all add: zset_members_def race_start_def admit_scores[OF mem_redis_zset])
       (simp_all add: mem_redis_def mem_empty_def)
  ultimately show ?thesis
    using limiter_race[OF mem_redis_zset, of "''b''" "''c''" race_start two_per_second 1500] by (simp add: k)
qed

end
