(* ===== verification/Symbols.thy ===== *)
theory Symbols
  imports Models PyText
begin

text \<open>
  Translation of symbols: \<open>services/symbol_mapping.py\<close> (broker symbol to canonical instrument
  and back to a data provider's symbol) and \<open>services/instruments.py\<close> (resolving or creating
  the canonical row). The PostgreSQL branch of both is modelled: ON CONFLICT DO NOTHING is an
  insertion that a row with the same key suppresses, and a key with a NULL component conflicts
  with no row. A flush checks the constraints of everything pending in the session, so what has to
  hold at a flush is the argument \<open>constraints\<close>.
\<close>

section \<open>Tables\<close>

record symbol_db =
  sb_instruments :: "instrument list"
  sb_mappings :: "mapping_row list"

definition YAHOO_SUFFIX :: "(string \<times> string) list" where
  "YAHOO_SUFFIX = [(''NSE'', ''.NS''), (''BSE'', ''.BO''), (''NASDAQ'', ''''), (''NYSE'', ''''),
     (''NYSEARCA'', ''''), (''BATS'', '''')]"

definition MIC_TO_EXCHANGE :: "(string \<times> string) list" where
  "MIC_TO_EXCHANGE = [(''XNAS'', ''NASDAQ''), (''XNYS'', ''NYSE''), (''XNSE'', ''NSE''),
     (''XBOM'', ''BSE''), (''ARCX'', ''NYSEARCA''), (''BATS'', ''BATS'')]"

definition DEFAULT_CURRENCY_BY_EXCHANGE :: "(string \<times> string) list" where
  "DEFAULT_CURRENCY_BY_EXCHANGE = [(''NASDAQ'', ''USD''), (''NYSE'', ''USD''), (''NYSEARCA'', ''USD''),
     (''BATS'', ''USD''), (''NSE'', ''INR''), (''BSE'', ''INR'')]"

definition broker_exchange_to_canonical :: "string \<Rightarrow> string" where
  "broker_exchange_to_canonical broker_exchange =
     (let code = str_upper broker_exchange
      in dict_get [(''XNSE'', ''NSE''), (''XBOM'', ''BSE''), (''XNAS'', ''NASDAQ''), (''XNYS'', ''NYSE'')] code code)"

definition normalize_exchange :: "string \<Rightarrow> string" where
  "normalize_exchange exchange = (let code = str_upper (str_strip exchange) in dict_get MIC_TO_EXCHANGE code code)"

section \<open>Broker symbols\<close>

text \<open>An empty exchange counts as none, but not one that is only blank.\<close>

definition broker_symbol_key :: "string \<Rightarrow> string" where
  "broker_symbol_key broker_symbol = str_strip broker_symbol"

definition broker_exchange_key :: "string option \<Rightarrow> string option" where
  "broker_exchange_key broker_exchange =
     (case broker_exchange of None \<Rightarrow> None
      | Some e \<Rightarrow> if e = [] then None else Some (str_upper (str_strip e)))"

definition mapping_matches :: "string \<Rightarrow> string \<Rightarrow> string option \<Rightarrow> mapping_row \<Rightarrow> bool" where
  "mapping_matches broker bs be m \<longleftrightarrow> mp_broker m = broker \<and> mp_symbol m = bs \<and> mp_exchange m = be"

definition create_mapping ::
  "('d symbol_db_scheme \<Rightarrow> bool) \<Rightarrow> uuid \<Rightarrow> string \<Rightarrow> string \<Rightarrow> string option
     \<Rightarrow> 'd symbol_db_scheme \<Rightarrow> query_error + 'd symbol_db_scheme" where
  "create_mapping constraints instrument_id broker bs be db =
     (let row = \<lparr>mp_instrument = instrument_id, mp_broker = broker, mp_symbol = bs, mp_exchange = be\<rparr>;
          conflict = be \<noteq> None \<and> list_ex (mapping_matches broker bs be) (sb_mappings db);
          db1 = (if conflict then db else db\<lparr>sb_mappings := sb_mappings db @ [row]\<rparr>)
      in if constraints db1 then Inr db1 else Inl IntegrityError)"

definition infer_instrument :: "string \<Rightarrow> string option \<Rightarrow> 'd symbol_db_scheme \<Rightarrow> query_error + instrument option" where
  "infer_instrument bs be db =
     (let inferred_exchange = (case be of None \<Rightarrow> None
            | Some e \<Rightarrow> if e = [] then None else Some (broker_exchange_to_canonical e));
          by_symbol = filter (\<lambda>i. in_symbol i = str_upper bs) (sb_instruments db);
          candidates = (case inferred_exchange of None \<Rightarrow> by_symbol
            | Some ex \<Rightarrow> filter (\<lambda>i. in_exchange i = ex) by_symbol)
      in scalar_one_or_none candidates)"

definition not_mapped_message :: "string \<Rightarrow> string \<Rightarrow> string option \<Rightarrow> string" where
  "not_mapped_message broker bs be =
     ''No mapping or inferred instrument for broker='' @ broker @ '' symbol='' @ bs @ '' exchange='' @
     (case be of None \<Rightarrow> ''None'' | Some e \<Rightarrow> e)"

definition normalize_symbol ::
  "('d symbol_db_scheme \<Rightarrow> bool) \<Rightarrow> string \<Rightarrow> string \<Rightarrow> string option
     \<Rightarrow> 'd symbol_db_scheme \<Rightarrow> query_error + instrument \<times> 'd symbol_db_scheme" where
  "normalize_symbol constraints broker broker_symbol broker_exchange db =
     (let bs = broker_symbol_key broker_symbol;
          be = broker_exchange_key broker_exchange;
          infer = (case infer_instrument bs be db of
              Inl e \<Rightarrow> Inl e
            | Inr None \<Rightarrow> Inl (SymbolNotMapped (not_mapped_message broker bs be))
            | Inr (Some candidate) \<Rightarrow>
                (case create_mapping constraints (in_id candidate) broker bs be db of
                   Inl e \<Rightarrow> Inl e | Inr db1 \<Rightarrow> Inr (candidate, db1)))
      in case scalar_one_or_none (filter (mapping_matches broker bs be) (sb_mappings db)) of
           Inl e \<Rightarrow> Inl e
         | Inr None \<Rightarrow> infer
         | Inr (Some mapping) \<Rightarrow>
             (case find (\<lambda>i. in_id i = mp_instrument mapping) (sb_instruments db) of
                Some inst \<Rightarrow> Inr (inst, db)
              | None \<Rightarrow> infer))"

definition data_symbol :: "instrument \<Rightarrow> string \<Rightarrow> string + string" where
  "data_symbol instrument provider =
     (let provider_key = str_lower (str_strip provider)
      in if provider_key \<noteq> ''yahoo'' then Inl (''Unsupported data provider: '' @ py_repr provider)
         else Inr (in_symbol instrument @ dict_get YAHOO_SUFFIX (in_exchange instrument) ''''))"

definition list_for_instrument :: "'d symbol_db_scheme \<Rightarrow> uuid \<Rightarrow> mapping_row list" where
  "list_for_instrument db instrument_id = filter (\<lambda>m. mp_instrument m = instrument_id) (sb_mappings db)"

section \<open>The resolver of instruments\<close>

text \<open>\<open>LookupError\<close> and \<open>RuntimeError\<close> carry their message; rows that other transactions commit
  between the first SELECT and the INSERT are the argument \<open>others\<close>.\<close>

datatype resolve_error = LookupError string | ResolveRuntimeError | ResolveQuery query_error

definition get_by_symbol_exchange ::
  "string \<Rightarrow> string \<Rightarrow> instrument list \<Rightarrow> query_error + instrument option" where
  "get_by_symbol_exchange symbol exchange rows =
     scalar_one_or_none (filter (\<lambda>i. in_symbol i = symbol \<and> in_exchange i = exchange) rows)"

definition resolve ::
  "(instrument list \<Rightarrow> instrument list) \<Rightarrow> uuid \<Rightarrow> string \<Rightarrow> string \<Rightarrow> string option \<Rightarrow> string option
     \<Rightarrow> string \<Rightarrow> string option \<Rightarrow> bool \<Rightarrow> instrument list \<Rightarrow> resolve_error + instrument \<times> instrument list" where
  "resolve others fresh symbol exchange name currency asset_class isin create_if_missing rows =
     (let canonical_symbol = str_upper (str_strip symbol);
          canonical_exchange = normalize_exchange exchange
      in case get_by_symbol_exchange canonical_symbol canonical_exchange rows of
           Inl e \<Rightarrow> Inl (ResolveQuery e)
         | Inr (Some existing) \<Rightarrow> Inr (existing, rows)
         | Inr None \<Rightarrow>
             if \<not> create_if_missing then
               Inl (LookupError (''Instrument not found: symbol='' @ canonical_symbol @ '' exchange='' @ canonical_exchange))
             else if name = None \<or> name = Some [] then
               Inl (LookupError ''Cannot create instrument without a name. Pass `name` on first encounter.'')
             else
               (let resolved_currency = (if currency = None \<or> currency = Some []
                        then dict_get DEFAULT_CURRENCY_BY_EXCHANGE canonical_exchange ''USD'' else the currency);
                    row = \<lparr>in_id = fresh, in_symbol = canonical_symbol, in_exchange = canonical_exchange,
                       in_name = the name, in_currency = resolved_currency, in_asset_class = asset_class,
                       in_isin = isin, in_active = True\<rparr>;
                    rows1 = others rows
                in if list_ex (\<lambda>i. in_symbol i = canonical_symbol \<and> in_exchange i = canonical_exchange) rows1
                   then (case get_by_symbol_exchange canonical_symbol canonical_exchange rows1 of
                       Inl e \<Rightarrow> Inl (ResolveQuery e)
                     | Inr None \<Rightarrow> Inl ResolveRuntimeError
                     | Inr (Some existing) \<Rightarrow> Inr (existing, rows1))
                   else Inr (row, rows1 @ [row])))"

definition get_by_id :: "uuid \<Rightarrow> instrument list \<Rightarrow> instrument option" where
  "get_by_id instrument_id rows = find (\<lambda>i. in_id i = instrument_id) rows"

definition get_detail :: "uuid \<Rightarrow> 'd symbol_db_scheme \<Rightarrow> (instrument \<times> mapping_row list) option" where
  "get_detail instrument_id db =
     (case get_by_id instrument_id (sb_instruments db) of
        None \<Rightarrow> None | Some i \<Rightarrow> Some (i, filter (\<lambda>m. mp_instrument m = instrument_id) (sb_mappings db)))"

text \<open>ILIKE and the collation that orders the result are the database's.\<close>

definition search_instruments ::
  "(string \<Rightarrow> string \<Rightarrow> bool) \<Rightarrow> (instrument list \<Rightarrow> instrument list) \<Rightarrow> string \<Rightarrow> nat \<Rightarrow> instrument list
     \<Rightarrow> instrument list" where
  "search_instruments ilike order_by_symbol query limit rows =
     (let q = str_strip query
      in if q = [] then []
         else take limit (order_by_symbol (filter
           (\<lambda>i. in_active i \<and> (ilike (in_symbol i) (q @ ''%'') \<or> ilike (in_name i) (''%'' @ q @ ''%''))) rows)))"

section \<open>Invariants of the tables\<close>

definition instrument_key :: "instrument \<Rightarrow> string \<times> string" where
  "instrument_key i = (in_symbol i, in_exchange i)"

definition mapping_key :: "mapping_row \<Rightarrow> string \<times> string \<times> string option" where
  "mapping_key m = (mp_broker m, mp_symbol m, mp_exchange m)"

text \<open>Primary and unique keys, the foreign key of the mappings, and one mapping per key also
  where the exchange is NULL, which the service itself keeps.\<close>

definition symbols_ok :: "'d symbol_db_scheme \<Rightarrow> bool" where
  "symbols_ok db \<longleftrightarrow> distinct (map in_id (sb_instruments db)) \<and>
     distinct (map instrument_key (sb_instruments db)) \<and>
     distinct (map mapping_key (sb_mappings db)) \<and>
     (\<forall>m \<in> set (sb_mappings db). mp_instrument m \<in> in_id ` set (sb_instruments db))"

lemma mapping_matches_key: "mapping_matches b s e = (\<lambda>m. mapping_key m = (b, s, e))"
  by (auto simp: mapping_matches_def mapping_key_def fun_eq_iff)

text \<open>What a mapping row answers.\<close>

definition mapped_to :: "'d symbol_db_scheme \<Rightarrow> string \<Rightarrow> string \<Rightarrow> string option \<Rightarrow> instrument option" where
  "mapped_to db broker broker_symbol broker_exchange =
     (case find (\<lambda>m. mapping_key m = (broker, broker_symbol_key broker_symbol, broker_exchange_key broker_exchange))
             (sb_mappings db) of
        None \<Rightarrow> None | Some m \<Rightarrow> find (\<lambda>i. in_id i = mp_instrument m) (sb_instruments db))"

lemma mapping_query:
  assumes "symbols_ok db"
  shows "scalar_one_or_none (filter (mapping_matches b s e) (sb_mappings db)) =
    Inr (find (\<lambda>m. mapping_key m = (b, s, e)) (sb_mappings db))"
proof -
  have "distinct (map mapping_key (sb_mappings db))" using assms by (simp add: symbols_ok_def)
  then show ?thesis
    by (cases rule: filter_key_cases[where k = "(b, s, e)"])
       (simp_all add: mapping_matches_key find_filter)
qed

lemma mapped_instrument:
  assumes "symbols_ok db" "m \<in> set (sb_mappings db)"
  shows "\<exists>i \<in> set (sb_instruments db). find (\<lambda>i. in_id i = mp_instrument m) (sb_instruments db) = Some i"
proof (cases "find (\<lambda>i. in_id i = mp_instrument m) (sb_instruments db)")
  case None
  have "mp_instrument m \<in> in_id ` set (sb_instruments db)" using assms by (simp add: symbols_ok_def)
  then show ?thesis using None by (auto simp: find_None_iff)
next
  case (Some i)
  then show ?thesis using find_SomeD[OF Some] by auto
qed

text \<open>On sound tables the lookup is the mapping if there is one, else the inference.\<close>

lemma normalize_symbol_cases:
  assumes ok: "symbols_ok db"
  shows "normalize_symbol constraints b s e db =
    (case mapped_to db b s e of
       Some i \<Rightarrow> Inr (i, db)
     | None \<Rightarrow> (case infer_instrument (broker_symbol_key s) (broker_exchange_key e) db of
           Inl err \<Rightarrow> Inl err
         | Inr None \<Rightarrow> Inl (SymbolNotMapped (not_mapped_message b (broker_symbol_key s) (broker_exchange_key e)))
         | Inr (Some c) \<Rightarrow>
            (case create_mapping constraints (in_id c) b (broker_symbol_key s) (broker_exchange_key e) db of
               Inl err \<Rightarrow> Inl err | Inr db1 \<Rightarrow> Inr (c, db1))))"
proof (cases "find (\<lambda>m. mapping_key m = (b, broker_symbol_key s, broker_exchange_key e)) (sb_mappings db)")
  case None
  then show ?thesis
    by (simp only: normalize_symbol_def Let_def mapping_query[OF ok] mapped_to_def option.case sum.case)
next
  case (Some m)
  then have "m \<in> set (sb_mappings db)" using find_SomeD[OF Some] by simp
  then obtain i where "find (\<lambda>i. in_id i = mp_instrument m) (sb_instruments db) = Some i"
    using mapped_instrument[OF ok] by blast
  then show ?thesis
    using Some by (simp only: normalize_symbol_def Let_def mapping_query[OF ok] mapped_to_def option.case sum.case)
qed

lemma infer_in_table:
  "infer_instrument bs be db = Inr (Some c) \<Longrightarrow> c \<in> set (sb_instruments db) \<and> in_symbol c = str_upper bs"
  by (auto simp: infer_instrument_def Let_def scalar_one_or_none_iff filter_eq_Cons_iff split: option.splits if_splits)

lemma mapped_to_None:
  assumes ok: "symbols_ok db"
  shows "mapped_to db b s e = None \<longleftrightarrow>
    (b, broker_symbol_key s, broker_exchange_key e) \<notin> mapping_key ` set (sb_mappings db)"
proof (cases "find (\<lambda>m. mapping_key m = (b, broker_symbol_key s, broker_exchange_key e)) (sb_mappings db)")
  case None
  then have "mapped_to db b s e = None" by (simp add: mapped_to_def)
  moreover have "(b, broker_symbol_key s, broker_exchange_key e) \<notin> mapping_key ` set (sb_mappings db)"
    using None by (auto simp: find_None_iff)
  ultimately show ?thesis by simp
next
  case (Some m)
  then have m: "m \<in> set (sb_mappings db)" "mapping_key m = (b, broker_symbol_key s, broker_exchange_key e)"
    using find_SomeD[OF Some] by simp_all
  then show ?thesis using mapped_instrument[OF ok m(1)] Some by (force simp: mapped_to_def)
qed

lemma create_mapping_new:
  assumes "symbols_ok db" "mapped_to db b s e = None"
    "create_mapping constraints iid b (broker_symbol_key s) (broker_exchange_key e) db = Inr db1"
  shows "constraints db1" "db1 = db\<lparr>sb_mappings := sb_mappings db @
    [\<lparr>mp_instrument = iid, mp_broker = b, mp_symbol = broker_symbol_key s, mp_exchange = broker_exchange_key e\<rparr>]\<rparr>"
proof -
  have "\<not> list_ex (mapping_matches b (broker_symbol_key s) (broker_exchange_key e)) (sb_mappings db)"
    using assms(2) by (auto simp: mapped_to_None[OF assms(1)] list_ex_iff mapping_matches_key) (metis image_eqI)
  then show "constraints db1" "db1 = db\<lparr>sb_mappings := sb_mappings db @
    [\<lparr>mp_instrument = iid, mp_broker = b, mp_symbol = broker_symbol_key s, mp_exchange = broker_exchange_key e\<rparr>]\<rparr>"
    using assms(3) by (auto simp: create_mapping_def Let_def split: if_splits)
qed

section \<open>The contract of a symbol resolver\<close>

text \<open>What the portfolio sync needs of \<open>normalize_symbol\<close>: an answer is remembered, later calls
  neither change the tables nor the answer, and no call disturbs another symbol's outcome.
  \<open>ans\<close> is what the tables already answer.\<close>

locale symbol_resolver =
  fixes norm :: "string \<Rightarrow> string \<Rightarrow> string option \<Rightarrow> 'd symbol_db_scheme \<Rightarrow>
      query_error + instrument \<times> 'd symbol_db_scheme"
    and ans :: "'d symbol_db_scheme \<Rightarrow> string \<Rightarrow> string \<Rightarrow> string option \<Rightarrow> instrument option"
    and ok :: "'d symbol_db_scheme \<Rightarrow> bool"
  assumes hit: "ok db \<Longrightarrow> ans db b s e = Some i \<Longrightarrow> norm b s e db = Inr (i, db)"
    and learn: "ok db \<Longrightarrow> norm b s e db = Inr (i, db') \<Longrightarrow> ans db' b s e = Some i \<and> ok db' \<and>
        symbol_db.more db' = symbol_db.more db \<and> sb_instruments db' = sb_instruments db"
    and keep: "ok db \<Longrightarrow> norm b s e db = Inr (i, db') \<Longrightarrow> ans db b2 s2 e2 = Some j \<Longrightarrow> ans db' b2 s2 e2 = Some j"
    and miss_keep: "ok db \<Longrightarrow> norm b s e db = Inr (i, db') \<Longrightarrow>
        norm b2 s2 e2 db = Inl (SymbolNotMapped m) \<Longrightarrow> norm b2 s2 e2 db' = Inl (SymbolNotMapped m)"
    and same_symbols: "sb_instruments db' = sb_instruments db \<Longrightarrow> sb_mappings db' = sb_mappings db \<Longrightarrow>
        ans db' = ans db \<and> ok db' = ok db \<and>
        (ok db \<longrightarrow> norm b s e db = Inl (SymbolNotMapped m) \<longrightarrow> norm b s e db' = Inl (SymbolNotMapped m))"
begin

lemma again: "ok db \<Longrightarrow> norm b s e db = Inr (i, db') \<Longrightarrow> norm b s e db' = Inr (i, db')"
  using learn hit by blast

text \<open>A symbol is settled when the tables answer it or its failure is certain.\<close>

definition settled :: "'d symbol_db_scheme \<Rightarrow> string \<Rightarrow> string \<Rightarrow> string option \<Rightarrow> instrument option \<Rightarrow> bool" where
  "settled db b s e oi \<longleftrightarrow>
     (case oi of Some i \<Rightarrow> ans db b s e = Some i | None \<Rightarrow> \<exists>m. norm b s e db = Inl (SymbolNotMapped m))"

lemma settled_step:
  "ok db \<Longrightarrow> norm b s e db = Inr (i, db') \<Longrightarrow> settled db b2 s2 e2 oi \<Longrightarrow> settled db' b2 s2 e2 oi"
  using keep[of db b s e i db' b2 s2 e2] miss_keep[of db b s e i db' b2 s2 e2]
  by (cases oi) (auto simp: settled_def)

lemma settled_cong:
  assumes "sb_instruments db' = sb_instruments db" "sb_mappings db' = sb_mappings db" "ok db" "settled db b s e oi"
  shows "settled db' b s e oi"
  using assms(4) same_symbols[OF assms(1,2)] assms(3) by (cases oi) (auto simp: settled_def)

lemma ok_cong:
  "sb_instruments db' = sb_instruments db \<Longrightarrow> sb_mappings db' = sb_mappings db \<Longrightarrow> ok db' = ok db"
  using same_symbols by blast

end

lemma find_id:
  "distinct (map in_id xs) \<Longrightarrow> c \<in> set xs \<Longrightarrow> find (\<lambda>i. in_id i = in_id c) xs = Some (c :: instrument)"
  by (simp add: find_filter filter_key_distinct)

lemma normalize_new:
  assumes ok: "symbols_ok db" and none: "mapped_to db b s e = None"
    and n: "normalize_symbol constraints b s e db = Inr (c, db')"
  shows "infer_instrument (broker_symbol_key s) (broker_exchange_key e) db = Inr (Some c)"
    and "db' = db\<lparr>sb_mappings := sb_mappings db @ [\<lparr>mp_instrument = in_id c, mp_broker = b,
        mp_symbol = broker_symbol_key s, mp_exchange = broker_exchange_key e\<rparr>]\<rparr>"
proof -
  obtain c2 db1 where i: "infer_instrument (broker_symbol_key s) (broker_exchange_key e) db = Inr (Some c2)"
    and m: "create_mapping constraints (in_id c2) b (broker_symbol_key s) (broker_exchange_key e) db = Inr db1"
    and eq: "c2 = c" "db1 = db'"
    using n by (auto simp: normalize_symbol_cases[OF ok] none split: sum.splits option.splits)
  show "infer_instrument (broker_symbol_key s) (broker_exchange_key e) db = Inr (Some c)"
    using i eq by simp
  show "db' = db\<lparr>sb_mappings := sb_mappings db @ [\<lparr>mp_instrument = in_id c, mp_broker = b,
        mp_symbol = broker_symbol_key s, mp_exchange = broker_exchange_key e\<rparr>]\<rparr>"
    using create_mapping_new(2)[OF ok none m] eq by simp
qed

lemma mapped_to_append:
  assumes ok: "symbols_ok db" and none: "mapped_to db b s e = None" and c: "c \<in> set (sb_instruments db)"
    and d: "db' = db\<lparr>sb_mappings := sb_mappings db @ [\<lparr>mp_instrument = in_id c, mp_broker = b,
        mp_symbol = broker_symbol_key s, mp_exchange = broker_exchange_key e\<rparr>]\<rparr>"
  shows "symbols_ok db'"
    and "mapped_to db' b2 s2 e2 =
      (if (b2, broker_symbol_key s2, broker_exchange_key e2) = (b, broker_symbol_key s, broker_exchange_key e)
       then Some c else mapped_to db b2 s2 e2)"
proof -
  have new: "(b, broker_symbol_key s, broker_exchange_key e) \<notin> mapping_key ` set (sb_mappings db)"
    using none by (simp add: mapped_to_None[OF ok])
  show "symbols_ok db'" using ok c new by (auto simp: symbols_ok_def d mapping_key_def)
  have id: "find (\<lambda>i. in_id i = in_id c) (sb_instruments db) = Some c"
    using ok c by (simp add: symbols_ok_def find_id)
  have app: "find P (xs @ [x]) = (case find P xs of Some y \<Rightarrow> Some y | None \<Rightarrow> if P x then Some x else None)"
    for P xs and x :: mapping_row by (induction xs) auto
  have no: "find (\<lambda>m. mapping_key m = (b, broker_symbol_key s, broker_exchange_key e)) (sb_mappings db) = None"
    unfolding find_None_iff using new by (metis image_eqI)
  show "mapped_to db' b2 s2 e2 =
      (if (b2, broker_symbol_key s2, broker_exchange_key e2) = (b, broker_symbol_key s, broker_exchange_key e)
       then Some c else mapped_to db b2 s2 e2)"
    using no id by (auto simp: mapped_to_def d app mapping_key_def split: option.split)
qed

lemma infer_not_mapped: "infer_instrument bs be db \<noteq> Inl (SymbolNotMapped m)"
  by (simp add: infer_instrument_def Let_def scalar_one_or_none_iff)

lemma normalize_miss:
  assumes "symbols_ok db"
  shows "normalize_symbol constraints b s e db = Inl (SymbolNotMapped m) \<longleftrightarrow> mapped_to db b s e = None \<and>
      infer_instrument (broker_symbol_key s) (broker_exchange_key e) db = Inr None \<and>
      m = not_mapped_message b (broker_symbol_key s) (broker_exchange_key e)"
  using infer_not_mapped
  by (auto simp: normalize_symbol_cases[OF assms] create_mapping_def Let_def split: option.splits sum.splits)

lemma infer_same:
  "sb_instruments db' = sb_instruments db \<Longrightarrow> infer_instrument bs be db' = infer_instrument bs be db"
  by (simp add: infer_instrument_def)

lemma mapped_same:
  "sb_instruments db' = sb_instruments db \<Longrightarrow> sb_mappings db' = sb_mappings db \<Longrightarrow> mapped_to db' = mapped_to db"
  by (simp add: mapped_to_def fun_eq_iff cong: option.case_cong)

lemma mapped_to_keys:
  "broker_symbol_key s2 = broker_symbol_key s \<Longrightarrow> broker_exchange_key e2 = broker_exchange_key e \<Longrightarrow>
    mapped_to db b s2 e2 = mapped_to db b s e"
  by (simp add: mapped_to_def)

lemma symbols_ok_same:
  "sb_instruments db' = sb_instruments db \<Longrightarrow> sb_mappings db' = sb_mappings db \<Longrightarrow> symbols_ok db' = symbols_ok db"
  by (simp add: symbols_ok_def)

text \<open>What one successful call does: nothing, or it appends the mapping it inferred.\<close>

lemma normalize_effect:
  assumes ok: "symbols_ok db" and n: "normalize_symbol constraints b s e db = Inr (c, db')"
  shows "symbols_ok db'" "mapped_to db' b s e = Some c"
    and "mapped_to db b2 s2 e2 = Some j \<Longrightarrow> mapped_to db' b2 s2 e2 = Some j"
    and "symbol_db.more db' = symbol_db.more db" "sb_instruments db' = sb_instruments db"
    and "normalize_symbol constraints b2 s2 e2 db = Inl (SymbolNotMapped m) \<Longrightarrow> mapped_to db' b2 s2 e2 = None"
proof -
  have "symbols_ok db' \<and> mapped_to db' b s e = Some c \<and>
    (mapped_to db b2 s2 e2 = Some j \<longrightarrow> mapped_to db' b2 s2 e2 = Some j) \<and>
    symbol_db.more db' = symbol_db.more db \<and> sb_instruments db' = sb_instruments db \<and>
    (normalize_symbol constraints b2 s2 e2 db = Inl (SymbolNotMapped m) \<longrightarrow> mapped_to db' b2 s2 e2 = None)"
  proof (cases "mapped_to db b s e")
    case (Some i)
    then have "db' = db" "c = i" using n by (simp_all add: normalize_symbol_cases[OF ok])
    then show ?thesis using Some ok by (simp add: normalize_miss)
  next
    case None
    note new = normalize_new[OF ok None n]
    have c: "c \<in> set (sb_instruments db)" using infer_in_table[OF new(1)] by simp
    show ?thesis
      using mapped_to_append[OF ok None c new(2)] new None mapped_to_keys[of s2 s e2 e db b]
      by (auto simp: normalize_miss[OF ok])
  qed
  then show "symbols_ok db'" "mapped_to db' b s e = Some c"
    and "mapped_to db b2 s2 e2 = Some j \<Longrightarrow> mapped_to db' b2 s2 e2 = Some j"
    and "symbol_db.more db' = symbol_db.more db" "sb_instruments db' = sb_instruments db"
    and "normalize_symbol constraints b2 s2 e2 db = Inl (SymbolNotMapped m) \<Longrightarrow> mapped_to db' b2 s2 e2 = None"
    by blast+
qed

lemma miss_after:
  assumes "symbols_ok db" "normalize_symbol constraints b s e db = Inr (i, db')"
    "normalize_symbol constraints b2 s2 e2 db = Inl (SymbolNotMapped m)"
  shows "normalize_symbol constraints b2 s2 e2 db' = Inl (SymbolNotMapped m)"
  using assms(3) normalize_effect(6)[OF assms]
  unfolding normalize_miss[OF assms(1)] normalize_miss[OF normalize_effect(1)[OF assms(1,2)]]
    infer_same[OF normalize_effect(5)[OF assms(1,2)]] by simp

lemma miss_same:
  assumes "sb_instruments db' = sb_instruments db" "sb_mappings db' = sb_mappings db" "symbols_ok db"
    "normalize_symbol constraints b s e db = Inl (SymbolNotMapped m)"
  shows "normalize_symbol constraints b s e db' = Inl (SymbolNotMapped m)"
proof -
  have "symbols_ok db'" using assms(3) symbols_ok_same[OF assms(1,2)] by simp
  then show ?thesis
    using assms(4) unfolding normalize_miss[OF assms(3)] normalize_miss[OF \<open>symbols_ok db'\<close>]
      infer_same[OF assms(1)] mapped_same[OF assms(1,2)] by simp
qed

lemma normalize_hit:
  "symbols_ok db \<Longrightarrow> mapped_to db b s e = Some i \<Longrightarrow> normalize_symbol constraints b s e db = Inr (i, db)"
  by (simp add: normalize_symbol_cases)

interpretation sr: symbol_resolver "normalize_symbol constraints" mapped_to symbols_ok
proof (unfold_locales, goal_cases)
  case (1 db b s e i)
  then show ?case by (rule normalize_hit)
next
  case (2 db b s e i db')
  then show ?case by (simp add: normalize_effect)
next
  case (3 db b s e i db' b2 s2 e2 j)
  then show ?case by (rule normalize_effect(3))
next
  case (4 db b s e i db' b2 s2 e2 m)
  then show ?case by (rule miss_after)
next
  case (5 db' db b s e m)
  show ?case
    using mapped_same[OF 5] symbols_ok_same[OF 5] miss_same[OF 5, of constraints b s e m] by blast
qed

section \<open>Properties\<close>

text \<open>C10. A resolved broker symbol is remembered. On sound tables a successful lookup answers an
  instrument of the table, leaves the tables sound, adds at most one mapping, and from then on
  the same lookup answers the same instrument without touching the database.\<close>

theorem normalize_symbol_remembers:
  assumes "symbols_ok db" "normalize_symbol constraints b s e db = Inr (i, db')"
  shows "i \<in> set (sb_instruments db) \<and> symbols_ok db' \<and>
    normalize_symbol constraints b s e db' = Inr (i, db') \<and>
    (db' = db \<or> in_symbol i = str_upper (str_strip s) \<and>
      db' = db\<lparr>sb_mappings := sb_mappings db @ [\<lparr>mp_instrument = in_id i, mp_broker = b,
        mp_symbol = str_strip s, mp_exchange = broker_exchange_key e\<rparr>]\<rparr>)"
proof (cases "mapped_to db b s e")
  case (Some j)
  then have "db' = db" "j = i" using assms by (simp_all add: normalize_symbol_cases)
  moreover have "j \<in> set (sb_instruments db)"
    using Some by (auto simp: mapped_to_def split: option.splits dest: find_SomeD)
  ultimately show ?thesis using assms by simp
next
  case None
  note new = normalize_new[OF assms(1) None assms(2)]
  show ?thesis
    using sr.learn[OF assms] sr.again[OF assms] infer_in_table[OF new(1)] new(2)
    by (simp add: broker_symbol_key_def)
qed

definition reliance :: instrument where
  "reliance = \<lparr>in_id = ''i1'', in_symbol = ''RELIANCE'', in_exchange = ''NSE'', in_name = ''Reliance'',
     in_currency = ''INR'', in_asset_class = ''equity'', in_isin = None, in_active = True\<rparr>"

definition reliance_bse :: instrument where
  "reliance_bse = reliance\<lparr>in_id := ''i2'', in_exchange := ''BSE''\<rparr>"

definition dual_listed :: symbol_db where
  "dual_listed = \<lparr>sb_instruments = [reliance, reliance_bse], sb_mappings = []\<rparr>"

lemmas symbol_eval = dual_listed_def reliance_def reliance_bse_def symbols_ok_def instrument_key_def

lemma dual_listed_ok: "symbols_ok dual_listed"
  by (simp add: symbol_eval)

lemma normalize_symbol_remembers_witness:
  "let db' = dual_listed\<lparr>sb_mappings := [\<lparr>mp_instrument = ''i2'', mp_broker = ''zerodha'',
        mp_symbol = ''reliance'', mp_exchange = Some ''XBOM''\<rparr>]\<rparr> in
    normalize_symbol (\<lambda>_. True) ''zerodha'' '' reliance'' (Some ''xbom'') dual_listed = Inr (reliance_bse, db') \<and>
    normalize_symbol (\<lambda>_. True) ''zerodha'' '' reliance'' (Some ''xbom'') db' = Inr (reliance_bse, db')"
proof -
  have d: "normalize_symbol (\<lambda>_. True) ''zerodha'' '' reliance'' (Some ''xbom'') dual_listed = Inr (reliance_bse,
      dual_listed\<lparr>sb_mappings := [\<lparr>mp_instrument = ''i2'', mp_broker = ''zerodha'',
        mp_symbol = ''reliance'', mp_exchange = Some ''XBOM''\<rparr>]\<rparr>)"
    by code_simp
  then show ?thesis using normalize_symbol_remembers[OF dual_listed_ok d] by (simp add: Let_def)
qed

text \<open>A dual-listed symbol without an exchange: when two instruments of different exchanges carry
  the symbol, no mapping is stored and the broker names no exchange, the lookup does not report
  an unmapped symbol: the query itself fails.\<close>

lemma dual_listed_symbol_fails:
  assumes "symbols_ok db" "mapped_to db b s None = None"
    and "i \<in> set (sb_instruments db)" "j \<in> set (sb_instruments db)" "in_exchange i \<noteq> in_exchange j"
    and "in_symbol i = str_upper (str_strip s)" "in_symbol j = str_upper (str_strip s)"
  shows "normalize_symbol constraints b s None db = Inl MultipleResultsFound"
proof -
  let ?c = "filter (\<lambda>i. in_symbol i = str_upper (str_strip s)) (sb_instruments db)"
  have "{i, j} \<subseteq> set ?c" "i \<noteq> j" using assms by auto
  then have "card {i, j} \<le> length ?c" by (metis card_length card_mono finite_set order_trans)
  then have "2 \<le> length ?c" using \<open>i \<noteq> j\<close> by simp
  then have "infer_instrument (str_strip s) None db = Inl MultipleResultsFound"
    by (simp add: infer_instrument_def scalar_one_or_none_iff)
  then show ?thesis
    using assms(2) by (simp add: normalize_symbol_cases[OF assms(1)] broker_symbol_key_def broker_exchange_key_def)
qed

text \<open>C11. Find or create. Whatever other transactions commit in between (rows with a key of their
  own), \<open>resolve\<close> answers an instrument with the canonical symbol and exchange exactly when the
  table has one or creation is allowed and a name is given; the table keeps one row per key, and
  asking again, with any arguments for the same symbol, answers the same row and adds none.\<close>

theorem resolve_finds_or_creates:
  assumes rows: "distinct (map instrument_key rows)" and others: "distinct (map instrument_key (others rows))"
    "set rows \<subseteq> set (others rows)"
    and key: "k = (str_upper (str_strip symbol), normalize_exchange exchange)"
  shows "case resolve others fresh symbol exchange name currency asset_class isin create_if_missing rows of
      Inr (i, rows') \<Rightarrow> instrument_key i = k \<and> i \<in> set rows' \<and> set rows \<subseteq> set rows' \<and>
        distinct (map instrument_key rows') \<and>
        resolve (\<lambda>rs. rs) fresh' symbol exchange name' currency' asset_class' isin' create' rows' = Inr (i, rows')
    | Inl e \<Rightarrow> k \<notin> instrument_key ` set rows \<and> (\<not> create_if_missing \<or> name = None \<or> name = Some []) \<and>
        (\<exists>message. e = LookupError message)"
proof -
  have q: "get_by_symbol_exchange (fst k) (snd k) rs = Inr (find (\<lambda>i. instrument_key i = k) rs)"
    if "distinct (map instrument_key rs)" for rs
  proof -
    have "(\<lambda>i. in_symbol i = fst k \<and> in_exchange i = snd k) = (\<lambda>i. instrument_key i = k)"
      by (cases k) (simp add: instrument_key_def fun_eq_iff)
    then have e: "get_by_symbol_exchange (fst k) (snd k) rs = scalar_one_or_none (filter (\<lambda>i. instrument_key i = k) rs)"
      by (simp add: get_by_symbol_exchange_def)
    show ?thesis unfolding e find_filter
      by (cases rule: filter_key_cases[OF that, of k]) simp_all
  qed
  have again: "resolve (\<lambda>rs. rs) fresh' symbol exchange name' currency' asset_class' isin' create' rs = Inr (i, rs)"
    if "distinct (map instrument_key rs)" "find (\<lambda>i. instrument_key i = k) rs = Some i" for rs i
    using q[OF that(1)] that(2) by (simp add: resolve_def key Let_def)
  have found: "find (\<lambda>i. instrument_key i = k) rs = Some i"
    if "distinct (map instrument_key rs)" "i \<in> set rs" "instrument_key i = k" for rs and i :: instrument
    using filter_key_distinct[OF that(1,2)] that(3) by (simp add: find_filter)
  let ?r = "resolve others fresh symbol exchange name currency asset_class isin create_if_missing rows"
  show ?thesis
  proof (cases "find (\<lambda>i. instrument_key i = k) rows")
    case (Some i)
    then have "?r = Inr (i, rows)" using q[OF rows] by (simp add: resolve_def key Let_def)
    then show ?thesis using find_SomeD[OF Some] again[OF rows Some] rows by simp
  next
    case None
    then have absent: "k \<notin> instrument_key ` set rows" by (auto simp: find_None_iff)
    show ?thesis
    proof (cases "create_if_missing \<and> name \<noteq> None \<and> name \<noteq> Some []")
      case False
      then show ?thesis using q[OF rows] None absent by (auto simp: resolve_def key Let_def)
    next
      case create: True
      have ex: "list_ex (\<lambda>i. in_symbol i = fst k \<and> in_exchange i = snd k) (others rows) \<longleftrightarrow>
          find (\<lambda>i. instrument_key i = k) (others rows) \<noteq> None"
        by (cases k) (auto simp: list_ex_iff find_None_iff instrument_key_def)
      show ?thesis
      proof (cases "find (\<lambda>i. instrument_key i = k) (others rows)")
        case (Some i)
        then have "?r = Inr (i, others rows)"
          using q[OF rows] q[OF others(1)] None create ex by (simp add: resolve_def key Let_def)
        then show ?thesis using find_SomeD[OF Some] again[OF others(1) Some] others by simp
      next
        case none: None
        define row where "row = \<lparr>in_id = fresh, in_symbol = fst k, in_exchange = snd k, in_name = the name,
            in_currency = (if currency = None \<or> currency = Some []
               then dict_get DEFAULT_CURRENCY_BY_EXCHANGE (snd k) ''USD'' else the currency),
            in_asset_class = asset_class, in_isin = isin, in_active = True\<rparr>"
        have row: "?r = Inr (row, others rows @ [row])" "instrument_key row = k"
          using q[OF rows] None create ex none
          by (simp_all add: resolve_def key Let_def row_def instrument_key_def)
        moreover have "k \<notin> instrument_key ` set (others rows)" using none by (auto simp: find_None_iff)
        ultimately have "distinct (map instrument_key (others rows @ [row]))" using others by simp
        then show ?thesis using row again found others by auto
      qed
    qed
  qed
qed

lemma resolve_finds_or_creates_witness:
  "resolve (\<lambda>rs. rs) ''i3'' '' tcs '' ''xnse'' (Some ''TCS'') None ''equity'' None True [reliance, reliance_bse] =
     Inr (\<lparr>in_id = ''i3'', in_symbol = ''TCS'', in_exchange = ''NSE'', in_name = ''TCS'', in_currency = ''INR'',
       in_asset_class = ''equity'', in_isin = None, in_active = True\<rparr>,
       [reliance, reliance_bse, \<lparr>in_id = ''i3'', in_symbol = ''TCS'', in_exchange = ''NSE'', in_name = ''TCS'',
         in_currency = ''INR'', in_asset_class = ''equity'', in_isin = None, in_active = True\<rparr>]) \<and>
   distinct (map instrument_key [reliance, reliance_bse, \<lparr>in_id = ''i3'', in_symbol = ''TCS'',
      in_exchange = ''NSE'', in_name = ''TCS'', in_currency = ''INR'', in_asset_class = ''equity'',
      in_isin = None, in_active = True\<rparr>])"
proof -
  have r: "resolve (\<lambda>rs. rs) ''i3'' '' tcs '' ''xnse'' (Some ''TCS'') None ''equity'' None True [reliance, reliance_bse] =
     Inr (\<lparr>in_id = ''i3'', in_symbol = ''TCS'', in_exchange = ''NSE'', in_name = ''TCS'', in_currency = ''INR'',
       in_asset_class = ''equity'', in_isin = None, in_active = True\<rparr>,
       [reliance, reliance_bse, \<lparr>in_id = ''i3'', in_symbol = ''TCS'', in_exchange = ''NSE'', in_name = ''TCS'',
         in_currency = ''INR'', in_asset_class = ''equity'', in_isin = None, in_active = True\<rparr>])"
    by code_simp
  have "distinct (map instrument_key [reliance, reliance_bse])" by (simp add: symbol_eval)
  then show ?thesis
    using resolve_finds_or_creates[where rows = "[reliance, reliance_bse]" and others = "\<lambda>rs. rs"
        and k = "(str_upper (str_strip '' tcs ''), normalize_exchange ''xnse'')" and symbol = "'' tcs ''"
        and exchange = "''xnse''" and fresh = "''i3''" and name = "Some ''TCS''" and currency = None
        and asset_class = "''equity''" and isin = None and create_if_missing = True]
    by (simp only: r sum.case prod.case)
qed

end
