(* ===== verification/Sync.thy ===== *)
theory Sync
  imports Symbols Audit_Log PyDate Redis
begin

text \<open>
  The portfolio sync: \<open>services/portfolio_sync.py\<close> and the route of \<open>api/portfolio.py\<close> that
  runs it under a lock. The broker is an \<open>adapter\<close>, the symbol resolver is injected as in the
  code. The session is the database as the transaction sees it: an exception leaves it uncommitted,
  so a failing sync returns the error only. A flush checks the unique constraints of positions and
  orders. Stored amounts are those the code assigns; the rounding of the columns to eight decimals
  is left to the database.
\<close>

section \<open>Data\<close>

record broker_position =
  bp_symbol :: string
  bp_quantity :: rat
  bp_avg_price :: rat
  bp_currency :: string
  bp_exchange :: "string option"

record broker_order =
  bo_id :: string
  bo_symbol :: string
  bo_side :: string
  bo_type :: string
  bo_quantity :: rat
  bo_limit_price :: "rat option"
  bo_status :: string

record broker_error =
  be_code :: string
  be_message :: string

definition broker_error_str :: "broker_error \<Rightarrow> string" where
  "broker_error_str e = ''['' @ be_code e @ ''] '' @ be_message e"

record adapter =
  ad_broker_name :: string
  ad_enter :: "broker_error option"
  ad_positions :: "broker_error + broker_position list"
  ad_orders :: "broker_error + broker_order list"

record sync_db = symbol_db +
  sd_positions :: "position_row list"
  sd_orders :: "order_row list"
  sd_audit :: audit_log

type_synonym resolver =
  "string \<Rightarrow> string \<Rightarrow> string option \<Rightarrow> sync_db \<Rightarrow> query_error + instrument \<times> sync_db"

record sync_summary =
  su_connection :: uuid
  su_synced_at :: instant
  su_upserted :: int
  su_closed :: int
  su_orders_upserted :: int
  su_skipped :: int
  su_warnings :: "string list"

definition ORDER_STATUS_TO_DB :: "(string \<times> string) list" where
  "ORDER_STATUS_TO_DB = [(''new'', ''submitted''), (''pending'', ''pending''),
     (''partially_filled'', ''partial''), (''filled'', ''filled''), (''canceled'', ''cancelled''),
     (''rejected'', ''rejected''), (''expired'', ''cancelled'')]"

definition position_key :: "position_row \<Rightarrow> uuid \<times> uuid" where
  "position_key p = (po_connection p, po_instrument p)"

definition sync_constraints :: "sync_db \<Rightarrow> bool" where
  "sync_constraints db \<longleftrightarrow> distinct (map position_key (sd_positions db)) \<and> distinct (map or_idem_key (sd_orders db))"

definition sync_resolver :: resolver where
  "sync_resolver = normalize_symbol sync_constraints"

section \<open>Positions\<close>

record position_sync =
  ps_db :: sync_db
  ps_warnings :: "string list"
  ps_upserted :: int
  ps_skipped :: int
  ps_seen :: "uuid list"

definition overwrite_row :: "broker_position \<Rightarrow> instant \<Rightarrow> position_row \<Rightarrow> position_row" where
  "overwrite_row bp now row = row\<lparr>po_quantity := bp_quantity bp, po_avg_cost := bp_avg_price bp,
     po_currency := bp_currency bp, po_as_of := now\<rparr>"

definition put_position ::
  "uuid \<Rightarrow> instant \<Rightarrow> position_row list \<Rightarrow> instrument \<Rightarrow> broker_position \<Rightarrow> sync_db \<Rightarrow> sync_db" where
  "put_position conn now existing inst bp db =
     (if in_id inst \<in> po_instrument ` set existing
      then db\<lparr>sd_positions := map (\<lambda>row. if position_key row = (conn, in_id inst)
             then overwrite_row bp now row else row) (sd_positions db)\<rparr>
      else db\<lparr>sd_positions := sd_positions db @
             [\<lparr>po_connection = conn, po_instrument = in_id inst, po_quantity = bp_quantity bp,
               po_avg_cost = bp_avg_price bp, po_currency = bp_currency bp, po_as_of = now\<rparr>]\<rparr>)"

definition skip_warning :: "string \<Rightarrow> string \<Rightarrow> string \<Rightarrow> string" where
  "skip_warning label symbol message = label @ '': '' @ symbol @ '' ('' @ message @ '')''"

fun position_loop ::
  "resolver \<Rightarrow> uuid \<Rightarrow> string \<Rightarrow> instant \<Rightarrow> position_row list \<Rightarrow> broker_position list \<Rightarrow> position_sync
     \<Rightarrow> query_error + position_sync" where
  "position_loop look conn broker now existing [] st = Inr st"
| "position_loop look conn broker now existing (bp # bps) st =
     (case look broker (bp_symbol bp) (bp_exchange bp) (ps_db st) of
        Inl (SymbolNotMapped m) \<Rightarrow>
          position_loop look conn broker now existing bps
            (st\<lparr>ps_warnings := ps_warnings st @ [skip_warning ''unmapped_symbol'' (bp_symbol bp) m],
                ps_skipped := ps_skipped st + 1\<rparr>)
      | Inl e \<Rightarrow> Inl e
      | Inr (inst, db1) \<Rightarrow>
          position_loop look conn broker now existing bps
            (st\<lparr>ps_db := put_position conn now existing inst bp db1,
                ps_upserted := ps_upserted st + 1, ps_seen := in_id inst # ps_seen st\<rparr>))"

definition missing :: "position_row list \<Rightarrow> uuid list \<Rightarrow> position_row list" where
  "missing existing seen = filter (\<lambda>row. po_instrument row \<notin> set seen) existing"

definition close_missing :: "uuid \<Rightarrow> instant \<Rightarrow> position_row list \<Rightarrow> uuid list \<Rightarrow> sync_db \<Rightarrow> int \<times> sync_db" where
  "close_missing conn now existing seen db =
     (int (length (filter (\<lambda>row. po_quantity row \<noteq> 0) (missing existing seen))),
      db\<lparr>sd_positions := map (\<lambda>row. if position_key row \<in> position_key ` set (missing existing seen)
             then row\<lparr>po_quantity := 0, po_as_of := now\<rparr> else row) (sd_positions db)\<rparr>)"

definition sync_positions ::
  "resolver \<Rightarrow> uuid \<Rightarrow> string \<Rightarrow> instant \<Rightarrow> broker_position list \<Rightarrow> sync_db
     \<Rightarrow> query_error + (int \<times> int \<times> int \<times> string list) \<times> sync_db" where
  "sync_positions look conn broker now broker_positions db =
     (let existing = filter (\<lambda>p. po_connection p = conn) (sd_positions db)
      in case position_loop look conn broker now existing broker_positions
             \<lparr>ps_db = db, ps_warnings = [], ps_upserted = 0, ps_skipped = 0, ps_seen = []\<rparr> of
           Inl e \<Rightarrow> Inl e
         | Inr st \<Rightarrow>
             (case close_missing conn now existing (ps_seen st) (ps_db st) of
                (closed_n, db1) \<Rightarrow>
                  if sync_constraints db1
                  then Inr ((ps_upserted st, closed_n, ps_skipped st, ps_warnings st), db1)
                  else Inl IntegrityError))"

section \<open>Orders\<close>

record order_sync =
  os_db :: sync_db
  os_warnings :: "string list"
  os_upserted :: int

text \<open>The dictionary of the existing orders by the broker's id: the last row wins, and its unique
  idempotency key stands for the row.\<close>

definition orders_by_broker_id :: "order_row list \<Rightarrow> (string \<times> string) list" where
  "orders_by_broker_id existing =
     rev (concat (map (\<lambda>od. case or_broker_id od of
        None \<Rightarrow> [] | Some bid \<Rightarrow> if bid = [] then [] else [(bid, or_idem_key od)]) existing))"

definition put_order ::
  "uuid \<Rightarrow> instant \<Rightarrow> (string \<times> string) list \<Rightarrow> instrument \<Rightarrow> broker_order \<Rightarrow> sync_db \<Rightarrow> sync_db" where
  "put_order conn stamp by_broker_id inst bo db =
     (let db_status = dict_get ORDER_STATUS_TO_DB (bo_status bo) ''pending''
      in case map_of by_broker_id (bo_id bo) of
           None \<Rightarrow> db\<lparr>sd_orders := sd_orders db @
             [\<lparr>or_connection = conn, or_instrument = in_id inst, or_side = bo_side bo,
               or_type = (if bo_type bo \<in> {''market'', ''limit''} then bo_type bo else ''market''),
               or_quantity = bo_quantity bo, or_limit_price = bo_limit_price bo, or_status = db_status,
               or_broker_id = Some (bo_id bo),
               or_idem_key = conn @ '':'' @ in_id inst @ '':'' @ bo_id bo, or_created_at = stamp\<rparr>]\<rparr>
         | Some key \<Rightarrow> db\<lparr>sd_orders := map (\<lambda>od. if or_idem_key od = key
             then od\<lparr>or_status := db_status, or_quantity := bo_quantity bo,
                 or_limit_price := (case bo_limit_price bo of None \<Rightarrow> or_limit_price od | Some l \<Rightarrow> Some l)\<rparr>
             else od) (sd_orders db)\<rparr>)"

fun order_loop ::
  "resolver \<Rightarrow> uuid \<Rightarrow> string \<Rightarrow> instant \<Rightarrow> (string \<times> string) list \<Rightarrow> broker_order list \<Rightarrow> order_sync
     \<Rightarrow> query_error + order_sync" where
  "order_loop look conn broker stamp by_id [] st = Inr st"
| "order_loop look conn broker stamp by_id (bo # bos) st =
     (case look broker (bo_symbol bo) None (os_db st) of
        Inl (SymbolNotMapped m) \<Rightarrow>
          order_loop look conn broker stamp by_id bos
            (st\<lparr>os_warnings := os_warnings st @ [skip_warning ''unmapped_order_symbol'' (bo_symbol bo) m]\<rparr>)
      | Inl e \<Rightarrow> Inl e
      | Inr (inst, db1) \<Rightarrow>
          order_loop look conn broker stamp by_id bos
            (st\<lparr>os_db := put_order conn stamp by_id inst bo db1, os_upserted := os_upserted st + 1\<rparr>))"

definition sync_orders ::
  "resolver \<Rightarrow> uuid \<Rightarrow> string \<Rightarrow> instant \<Rightarrow> broker_order list \<Rightarrow> sync_db
     \<Rightarrow> query_error + (int \<times> string list) \<times> sync_db" where
  "sync_orders look conn broker stamp broker_orders db =
     (let existing = filter (\<lambda>od. or_connection od = conn) (sd_orders db)
      in case order_loop look conn broker stamp (orders_by_broker_id existing) broker_orders
             \<lparr>os_db = db, os_warnings = [], os_upserted = 0\<rparr> of
           Inl e \<Rightarrow> Inl e
         | Inr st \<Rightarrow> if sync_constraints (os_db st) then Inr ((os_upserted st, os_warnings st), os_db st)
                      else Inl IntegrityError)"

section \<open>A sync of one connection\<close>

definition fetched :: "string \<Rightarrow> broker_error + 'a list \<Rightarrow> 'a list \<times> string list" where
  "fetched label reply =
     (case reply of Inl e \<Rightarrow> ([], [label @ '': '' @ broker_error_str e]) | Inr xs \<Rightarrow> (xs, []))"

definition sync_connection ::
  "resolver \<Rightarrow> uuid \<Rightarrow> adapter \<Rightarrow> uuid \<Rightarrow> instant \<Rightarrow> instant \<Rightarrow> sync_db \<Rightarrow> query_error + sync_summary \<times> sync_db" where
  "sync_connection look conn adapter user_id now stamp db =
     (case fetched ''positions_fetch_failed'' (ad_positions adapter) of
        (broker_positions, w1) \<Rightarrow>
          (case sync_positions look conn (ad_broker_name adapter) now broker_positions db of
             Inl e \<Rightarrow> Inl e
           | Inr ((upserted, closed_n, skipped, pos_warnings), db1) \<Rightarrow>
               (case fetched ''orders_fetch_failed'' (ad_orders adapter) of
                  (broker_orders, w2) \<Rightarrow>
                    (case sync_orders look conn (ad_broker_name adapter) stamp broker_orders db1 of
                       Inl e \<Rightarrow> Inl e
                     | Inr ((orders_upserted, order_warnings), db2) \<Rightarrow>
                         (let warnings = w1 @ pos_warnings @ w2 @ order_warnings;
                              data = [(''broker_connection_id'', JStr conn), (''broker'', JStr (ad_broker_name adapter)),
                                (''positions_upserted'', JInt upserted), (''positions_closed'', JInt closed_n),
                                (''positions_skipped'', JInt skipped), (''orders_upserted'', JInt orders_upserted),
                                (''warnings'', JArr (map JStr warnings)), (''synced_at'', JStr (iso_instant now))]
                          in Inr (\<lparr>su_connection = conn, su_synced_at = now, su_upserted = upserted,
                                su_closed = closed_n, su_orders_upserted = orders_upserted, su_skipped = skipped,
                                su_warnings = warnings\<rparr>,
                              db2\<lparr>sd_audit := audit_event EVENT_PORTFOLIO_SYNC (Some user_id) data (sd_audit db2)\<rparr>))))))"

section \<open>The route and its lock\<close>

record broker_connection = connection_row +
  bc_status :: string

definition SYNC_LOCK_TTL :: int where "SYNC_LOCK_TTL = 60"

definition sync_lock_key :: "uuid \<Rightarrow> string" where
  "sync_lock_key user_id = ''portfolio:sync:lock:'' @ user_id"

text \<open>An unreachable Redis counts as an acquired lock.\<close>

definition sync_acquire :: "'r redis \<Rightarrow> bool \<Rightarrow> uuid \<Rightarrow> 'r \<Rightarrow> bool \<times> 'r" where
  "sync_acquire R up user_id r =
     (if up then rd_set_nx R r (sync_lock_key user_id) ''1'' SYNC_LOCK_TTL else (True, r))"

definition sync_release :: "'r redis \<Rightarrow> bool \<Rightarrow> uuid \<Rightarrow> 'r \<Rightarrow> 'r" where
  "sync_release R up user_id r = (if up then snd (rd_delete R r (sync_lock_key user_id)) else r)"

text \<open>Building the adapter (decrypting the tokens, choosing the client) can refuse.\<close>

datatype adapter_reply = AdapterReady adapter | AdapterStale | AdapterHttp int

datatype sync_reply = SyncOk sync_summary | SyncHttp int | SyncCrash query_error

definition expire_connection :: "uuid \<Rightarrow> broker_connection list \<Rightarrow> broker_connection list" where
  "expire_connection cid conns = map (\<lambda>c. if co_id c = cid then c\<lparr>bc_status := ''expired''\<rparr> else c) conns"

definition sync_portfolio ::
  "'r redis \<Rightarrow> bool \<Rightarrow> resolver \<Rightarrow> (broker_connection \<Rightarrow> adapter_reply) \<Rightarrow> uuid \<Rightarrow> instant \<Rightarrow> instant
     \<Rightarrow> sync_db \<times> broker_connection list \<times> 'r \<Rightarrow> sync_reply \<times> sync_db \<times> broker_connection list \<times> 'r" where
  "sync_portfolio R up look build user_id now stamp s =
     (case s of (db, conns, r) \<Rightarrow>
       (case find (\<lambda>c. co_user c = user_id \<and> bc_status c = ''active'') conns of
          None \<Rightarrow> (SyncHttp 404, db, conns, r)
        | Some connection \<Rightarrow>
           (case sync_acquire R up user_id r of (acquired, r1) \<Rightarrow>
             if \<not> acquired then (SyncHttp 409, db, conns, r1)
             else (let r2 = sync_release R up user_id r1 in
               case build connection of
                 AdapterStale \<Rightarrow> (SyncHttp 409, db, expire_connection (co_id connection) conns, r2)
               | AdapterHttp status \<Rightarrow> (SyncHttp status, db, conns, r2)
               | AdapterReady ad \<Rightarrow>
                  (case ad_enter ad of
                     Some e \<Rightarrow> (SyncHttp 502, db,
                       if be_code e = ''AUTH_EXPIRED'' then expire_connection (co_id connection) conns else conns, r2)
                   | None \<Rightarrow>
                      (case sync_connection look (co_id connection) ad user_id now stamp db of
                         Inl e \<Rightarrow> (SyncCrash e, db, conns, r2)
                       | Inr (su, db1) \<Rightarrow> (SyncOk su, db1, conns, r2)))))))"

section \<open>What the loops do to the tables\<close>

definition put_rows ::
  "uuid \<Rightarrow> instant \<Rightarrow> position_row list \<Rightarrow> position_row list \<Rightarrow> instrument \<times> broker_position \<Rightarrow> position_row list" where
  "put_rows conn now existing rows hit =
     (case hit of (inst, bp) \<Rightarrow>
        if in_id inst \<in> po_instrument ` set existing
        then map (\<lambda>row. if position_key row = (conn, in_id inst)
             then overwrite_row bp now row else row) rows
        else rows @ [\<lparr>po_connection = conn, po_instrument = in_id inst, po_quantity = bp_quantity bp,
               po_avg_cost = bp_avg_price bp, po_currency = bp_currency bp, po_as_of = now\<rparr>])"

lemma put_position_rows:
  "put_position conn now existing inst bp db = db\<lparr>sd_positions := put_rows conn now existing (sd_positions db) (inst, bp)\<rparr>"
  by (simp add: put_position_def put_rows_def)

lemma overwrite_key [simp]: "position_key (overwrite_row bp now row) = position_key row"
  by (simp add: overwrite_row_def position_key_def)

lemma overwrite_keys:
  "map position_key (map (\<lambda>row. if P row then overwrite_row bp now row else row) rows) = map position_key rows"
  by simp

lemma put_rows_keys:
  "\<exists>new. map position_key (put_rows conn now existing rows hit) = map position_key rows @ new"
proof (cases hit)
  case (Pair inst bp)
  then show ?thesis
    by (cases "in_id inst \<in> po_instrument ` set existing")
       (simp_all only: put_rows_def prod.case if_True if_False overwrite_keys map_append, auto)
qed

lemma foldl_put_rows_keys:
  "\<exists>new. map position_key (foldl (put_rows conn now existing) rows hits) = map position_key rows @ new"
proof (induction hits rule: rev_induct)
  case (snoc h hits)
  then show ?case using put_rows_keys[of conn now existing "foldl (put_rows conn now existing) rows hits" h] by auto
qed simp

definition reported :: "position_row \<Rightarrow> broker_position \<Rightarrow> instant \<Rightarrow> bool" where
  "reported r bp now \<longleftrightarrow> po_quantity r = bp_quantity bp \<and> po_avg_cost r = bp_avg_price bp \<and>
     po_currency r = bp_currency bp \<and> po_as_of r = now"

lemma put_rows_other:
  "filter (\<lambda>r. po_connection r \<noteq> conn) (put_rows conn now existing rows hit) =
   filter (\<lambda>r. po_connection r \<noteq> conn) rows"
proof -
  have "filter (\<lambda>r. po_connection r \<noteq> conn) (map (\<lambda>row. if position_key row = (conn, i) then f row else row) rows) =
      filter (\<lambda>r. po_connection r \<noteq> conn) rows" if "\<And>r. po_connection (f r) = po_connection r" for f i
    using that by (induction rows) (auto simp: position_key_def)
  then show ?thesis by (auto simp: put_rows_def overwrite_row_def split: prod.split)
qed

text \<open>After the loop, a row of the connection holds what the last broker position for its
  instrument reports, or is as it was.\<close>

lemma put_rows_values:
  "distinct (map position_key (foldl (put_rows conn now existing) rows hits)) \<Longrightarrow>
   r \<in> set (foldl (put_rows conn now existing) rows hits) \<Longrightarrow> po_connection r = conn \<Longrightarrow>
   (let hs = filter (\<lambda>h. in_id (fst h) = po_instrument r) hits
    in if hs = [] then r \<in> set rows else reported r (snd (last hs)) now)"
proof (induction hits arbitrary: r rule: rev_induct)
  case (snoc h hits)
  let ?prev = "foldl (put_rows conn now existing) rows hits"
  obtain inst bp where h: "h = (inst, bp)" by (cases h)
  show ?case
  proof (cases "in_id inst \<in> po_instrument ` set existing")
    case True
    let ?f = "\<lambda>row. if position_key row = (conn, in_id inst)
             then overwrite_row bp now row else row"
    have res: "foldl (put_rows conn now existing) rows (hits @ [h]) = map ?f ?prev"
      using True by (simp add: h put_rows_def)
    have keys: "map position_key (map ?f ?prev) = map position_key ?prev"
      by (rule overwrite_keys)
    obtain r0 where r0: "r0 \<in> set ?prev" "r = ?f r0" using snoc.prems(2) unfolding res by auto
    show ?thesis
    proof (cases "po_instrument r = in_id inst")
      case eq: True
      then have "reported r bp now"
        using r0 snoc.prems(3) by (auto simp: position_key_def reported_def overwrite_row_def split: if_splits)
      then show ?thesis using eq by (simp add: h)
    next
      case False
      then have "r0 = r" using r0 by (auto simp: position_key_def overwrite_row_def split: if_splits)
      moreover have "distinct (map position_key ?prev)" using snoc.prems(1) unfolding res keys .
      moreover have "filter (\<lambda>h. in_id (fst h) = po_instrument r) (hits @ [h]) =
          filter (\<lambda>h. in_id (fst h) = po_instrument r) hits" using False by (simp add: h)
      ultimately show ?thesis using snoc.IH[of r] r0(1) snoc.prems(3) by (simp only:)
    qed
  next
    case False
    let ?new = "\<lparr>po_connection = conn, po_instrument = in_id inst, po_quantity = bp_quantity bp,
               po_avg_cost = bp_avg_price bp, po_currency = bp_currency bp, po_as_of = now\<rparr>"
    have res: "foldl (put_rows conn now existing) rows (hits @ [h]) = ?prev @ [?new]"
      using False by (simp add: h put_rows_def)
    show ?thesis
    proof (cases "po_instrument r = in_id inst")
      case True
      have "r = ?new"
      proof (rule ccontr)
        assume "r \<noteq> ?new"
        then have "r \<in> set ?prev" using snoc.prems(2) unfolding res by simp
        moreover have "position_key r = position_key ?new" using True snoc.prems(3) by (simp add: position_key_def)
        ultimately show False using snoc.prems(1) unfolding res by (auto simp: rev_image_eqI)
      qed
      then have "reported r bp now" by (simp add: reported_def)
      then show ?thesis using True by (simp add: h)
    next
      case neq: False
      then have "r \<in> set ?prev" using snoc.prems(2) unfolding res by auto
      moreover have "distinct (map position_key ?prev)" using snoc.prems(1) unfolding res by simp
      ultimately show ?thesis using snoc.IH snoc.prems(3) neq by (simp add: h)
    qed
  qed
qed simp

text \<open>The row an answered position is written to exists afterwards.\<close>

lemma put_rows_present:
  assumes "\<forall>r \<in> set existing. r \<in> set rows0 \<and> po_connection r = conn"
    and "position_key ` set rows0 \<subseteq> position_key ` set rows"
  shows "(conn, in_id inst) \<in> position_key ` set (put_rows conn now existing rows (inst, bp))"
proof (cases "in_id inst \<in> po_instrument ` set existing")
  case True
  then obtain r where r: "r \<in> set existing" "in_id inst = po_instrument r" by blast
  then have "position_key r = (conn, in_id inst)" using assms(1) by (simp add: position_key_def)
  moreover have "position_key r \<in> position_key ` set rows" using r(1) assms by blast
  ultimately have "(conn, in_id inst) \<in> position_key ` set rows" by simp
  moreover obtain new where
    "map position_key (put_rows conn now existing rows (inst, bp)) = map position_key rows @ new"
    using put_rows_keys by blast
  then have "position_key ` set (put_rows conn now existing rows (inst, bp)) = position_key ` set rows \<union> set new"
    by (metis list.set_map set_append)
  ultimately show ?thesis by blast
qed (simp add: put_rows_def position_key_def)

lemma foldl_put_rows_present:
  assumes "\<forall>r \<in> set existing. r \<in> set rows \<and> po_connection r = conn" "(inst, bp) \<in> set hits"
  shows "(conn, in_id inst) \<in> position_key ` set (foldl (put_rows conn now existing) rows hits)"
  using assms(2)
proof (induction hits rule: rev_induct)
  case (snoc h hits)
  let ?prev = "foldl (put_rows conn now existing) rows hits"
  have grow: "position_key ` set rs \<subseteq> position_key ` set (put_rows conn now existing rs h)" for rs
    using put_rows_keys[of conn now existing rs h] by (metis Un_upper1 list.set_map set_append)
  have "position_key ` set rows \<subseteq> position_key ` set ?prev"
    using foldl_put_rows_keys[of conn now existing rows hits] by (metis Un_upper1 list.set_map set_append)
  then show ?case
    using put_rows_present[OF assms(1)] snoc grow[of ?prev] by (cases "h = (inst, bp)") auto
qed simp

text \<open>When the rows exist already, nothing is added.\<close>

lemma foldl_put_rows_overwrite:
  "\<forall>h \<in> set hits. in_id (fst h) \<in> po_instrument ` set existing \<Longrightarrow>
   map position_key (foldl (put_rows conn now existing) rows hits) = map position_key rows"
proof (induction hits rule: rev_induct)
  case (snoc h hits)
  then show ?case by (cases h) (simp add: put_rows_def overwrite_keys del: map_map)
qed simp

lemma close_missing_keys:
  "map position_key (sd_positions (snd (close_missing conn now existing seen db))) = map position_key (sd_positions db)"
  by (simp add: close_missing_def position_key_def)

lemma close_missing_same:
  "sb_instruments (snd (close_missing conn now existing seen db)) = sb_instruments db"
  "sb_mappings (snd (close_missing conn now existing seen db)) = sb_mappings db"
  "sd_orders (snd (close_missing conn now existing seen db)) = sd_orders db"
  "sd_audit (snd (close_missing conn now existing seen db)) = sd_audit db"
  by (simp_all add: close_missing_def)

lemma keyed_other:
  assumes "\<And>r. po_connection (f r) = po_connection r" "\<And>r. P r \<Longrightarrow> po_connection r = conn"
  shows "filter (\<lambda>r. po_connection r \<noteq> conn) (map (\<lambda>r. if P r then f r else r) rows) =
    filter (\<lambda>r. po_connection r \<noteq> conn) rows"
  using assms by (induction rows) auto

lemma close_missing_other:
  assumes "\<forall>r \<in> set existing. po_connection r = conn"
  shows "filter (\<lambda>r. po_connection r \<noteq> conn) (sd_positions (snd (close_missing conn now existing seen db))) =
    filter (\<lambda>r. po_connection r \<noteq> conn) (sd_positions db)"
proof -
  have e: "sd_positions (snd (close_missing conn now existing seen db)) =
      map (\<lambda>row. if position_key row \<in> position_key ` set (missing existing seen)
             then row\<lparr>po_quantity := 0, po_as_of := now\<rparr> else row) (sd_positions db)"
    by (simp add: close_missing_def)
  have "po_connection r = conn" if "position_key r \<in> position_key ` set (missing existing seen)" for r
    using that assms by (auto simp: position_key_def missing_def)
  then show ?thesis unfolding e by (intro keyed_other) simp_all
qed

lemma foldl_put_rows_other:
  "filter (\<lambda>r. po_connection r \<noteq> conn) (foldl (put_rows conn now existing) rows hits) =
   filter (\<lambda>r. po_connection r \<noteq> conn) rows"
  by (induction hits rule: rev_induct) (simp_all add: put_rows_other)

section \<open>Orders\<close>

definition order_ident :: "order_row \<Rightarrow> string \<times> string option \<times> uuid" where
  "order_ident od = (or_idem_key od, or_broker_id od, or_connection od)"

lemma put_order_ident:
  "\<exists>new. map order_ident (sd_orders (put_order conn stamp by_id inst bo db)) = map order_ident (sd_orders db) @ new \<and>
     (if map_of by_id (bo_id bo) = None then snd ` set new = {(Some (bo_id bo), conn)} else new = [])"
  by (auto simp: put_order_def Let_def order_ident_def split: option.split)

lemma put_order_same:
  "sb_instruments (put_order conn stamp by_id inst bo db) = sb_instruments db"
  "sb_mappings (put_order conn stamp by_id inst bo db) = sb_mappings db"
  "sd_positions (put_order conn stamp by_id inst bo db) = sd_positions db"
  "sd_audit (put_order conn stamp by_id inst bo db) = sd_audit db"
  by (simp_all add: put_order_def Let_def split: option.split)

lemma orders_by_broker_id_dom:
  "map_of (orders_by_broker_id existing) bid \<noteq> None \<longleftrightarrow>
    bid \<noteq> [] \<and> (\<exists>od \<in> set existing. or_broker_id od = Some bid)"
  by (auto simp: orders_by_broker_id_def map_of_eq_None_iff image_iff split: option.splits if_splits) force+

lemma order_ident_keys:
  assumes "map order_ident xs = map order_ident ys @ new"
  shows "map or_idem_key xs = map or_idem_key ys @ map fst new"
proof -
  have "map fst (map order_ident xs) = map fst (map order_ident ys @ new)" using assms by (rule arg_cong)
  moreover have "fst \<circ> order_ident = or_idem_key" by (auto simp: order_ident_def)
  ultimately show ?thesis by simp
qed

section \<open>The loops under the resolver's contract\<close>

lemma same_more:
  fixes db db' :: sync_db
  assumes "symbol_db.more db' = symbol_db.more db"
  shows "sd_positions db' = sd_positions db" "sd_orders db' = sd_orders db" "sd_audit db' = sd_audit db"
  using assms by (cases db; cases db'; simp)+

text \<open>The broker's positions and orders whose symbol the tables answer, with the answer.\<close>

definition answered_positions ::
  "(sync_db \<Rightarrow> string \<Rightarrow> string \<Rightarrow> string option \<Rightarrow> instrument option) \<Rightarrow> sync_db \<Rightarrow> string
     \<Rightarrow> broker_position list \<Rightarrow> (instrument \<times> broker_position) list" where
  "answered_positions ans db broker bps = concat (map (\<lambda>bp. case ans db broker (bp_symbol bp) (bp_exchange bp) of
      None \<Rightarrow> [] | Some i \<Rightarrow> [(i, bp)]) bps)"

definition answered_broker_orders ::
  "(sync_db \<Rightarrow> string \<Rightarrow> string \<Rightarrow> string option \<Rightarrow> instrument option) \<Rightarrow> sync_db \<Rightarrow> string
     \<Rightarrow> broker_order list \<Rightarrow> (instrument \<times> broker_order) list" where
  "answered_broker_orders ans db broker bos = concat (map (\<lambda>bo. case ans db broker (bo_symbol bo) None of
      None \<Rightarrow> [] | Some i \<Rightarrow> [(i, bo)]) bos)"

locale sync_laws = symbol_resolver look ans ok for look :: resolver and ans and ok
begin

abbreviation "answered \<equiv> answered_positions ans"
abbreviation "answered_orders \<equiv> answered_broker_orders ans"

definition persists :: "sync_db \<Rightarrow> sync_db \<Rightarrow> bool" where
  "persists db db' \<longleftrightarrow> (\<forall>b s e oi. settled db b s e oi \<longrightarrow> settled db' b s e oi)"

definition all_settled :: "sync_db \<Rightarrow> string \<Rightarrow> broker_position list \<Rightarrow> bool" where
  "all_settled db broker bps \<longleftrightarrow> (\<forall>bp \<in> set bps. \<exists>oi. settled db broker (bp_symbol bp) (bp_exchange bp) oi)"

definition orders_settled :: "sync_db \<Rightarrow> string \<Rightarrow> broker_order list \<Rightarrow> bool" where
  "orders_settled db broker bos \<longleftrightarrow> (\<forall>bo \<in> set bos. \<exists>oi. settled db broker (bo_symbol bo) None oi)"

lemma settled_None: "ok db \<Longrightarrow> settled db b s e None \<Longrightarrow> ans db b s e = None"
  using hit[of db b s e] by (cases "ans db b s e") (auto simp: settled_def)

lemma settled_Some: "settled db b s e (Some i) \<longleftrightarrow> ans db b s e = Some i"
  by (simp add: settled_def)

lemma settled_ans: "ok db \<Longrightarrow> settled db b s e oi \<Longrightarrow> ans db b s e = oi"
  using settled_None by (cases oi) (auto simp: settled_Some)

lemma persists_trans: "persists a b \<Longrightarrow> persists b c \<Longrightarrow> persists a c"
  by (simp add: persists_def)

lemma persists_same:
  "ok db \<Longrightarrow> sb_instruments db' = sb_instruments db \<Longrightarrow> sb_mappings db' = sb_mappings db \<Longrightarrow> persists db db'"
  unfolding persists_def using settled_cong by blast

lemma persists_look: "ok db \<Longrightarrow> look b s e db = Inr (i, db') \<Longrightarrow> persists db db'"
  unfolding persists_def using settled_step by blast

lemma persists_settled: "persists db db' \<Longrightarrow> all_settled db broker bps \<Longrightarrow> all_settled db' broker bps"
  unfolding persists_def all_settled_def by blast

text \<open>One step of either loop, as far as the symbols go.\<close>

lemma look_step:
  assumes "ok db" "look b s e db = Inr (i, db1)"
    and "sb_instruments db2 = sb_instruments db1" "sb_mappings db2 = sb_mappings db1"
  shows "ok db2" "persists db db2" "settled db2 b s e (Some i)" "sb_instruments db2 = sb_instruments db"
    "sd_positions db1 = sd_positions db" "sd_orders db1 = sd_orders db" "sd_audit db1 = sd_audit db"
proof -
  have l: "ans db1 b s e = Some i" "ok db1" "symbol_db.more db1 = symbol_db.more db"
    "sb_instruments db1 = sb_instruments db"
    using learn[OF assms(1,2)] by simp_all
  show "ok db2" using l(2) ok_cong[OF assms(3,4)] by simp
  show "persists db db2"
    by (rule persists_trans[OF persists_look[OF assms(1,2)] persists_same[OF l(2) assms(3,4)]])
  show "settled db2 b s e (Some i)"
    by (rule settled_cong[OF assms(3,4) l(2)]) (simp add: settled_Some l(1))
  show "sb_instruments db2 = sb_instruments db" using assms(3) l(4) by simp
  show "sd_positions db1 = sd_positions db" "sd_orders db1 = sd_orders db" "sd_audit db1 = sd_audit db"
    using same_more[OF l(3)] by simp_all
qed

lemma position_loop_spec:
  "ok (ps_db st) \<Longrightarrow> position_loop look conn broker now existing bps st = Inr st' \<Longrightarrow>
    ok (ps_db st') \<and> persists (ps_db st) (ps_db st') \<and> all_settled (ps_db st') broker bps \<and>
    sd_positions (ps_db st') = foldl (put_rows conn now existing) (sd_positions (ps_db st)) (answered (ps_db st') broker bps) \<and>
    set (ps_seen st') = set (ps_seen st) \<union> (in_id \<circ> fst) ` set (answered (ps_db st') broker bps) \<and>
    ps_upserted st' = ps_upserted st + int (length (answered (ps_db st') broker bps)) \<and>
    sd_orders (ps_db st') = sd_orders (ps_db st) \<and> sd_audit (ps_db st') = sd_audit (ps_db st) \<and>
    sb_instruments (ps_db st') = sb_instruments (ps_db st)"
proof (induction bps arbitrary: st)
  case Nil
  then show ?case by (auto simp: persists_def all_settled_def answered_positions_def)
next
  case (Cons bp bps)
  let ?l = "look broker (bp_symbol bp) (bp_exchange bp) (ps_db st)"
  show ?case
  proof (cases ?l)
    case (Inl e)
    then obtain m where e: "e = SymbolNotMapped m" using Cons.prems(2) by (cases e) auto
    let ?st = "st\<lparr>ps_warnings := ps_warnings st @ [skip_warning ''unmapped_symbol'' (bp_symbol bp) m],
        ps_skipped := ps_skipped st + 1\<rparr>"
    have IH: "position_loop look conn broker now existing bps ?st = Inr st'" using Cons.prems(2) Inl e by simp
    have "ok (ps_db ?st)" using Cons.prems(1) by simp
    note ih = Cons.IH[of ?st, OF this IH]
    have "settled (ps_db st) broker (bp_symbol bp) (bp_exchange bp) None" using Inl e by (simp add: settled_def)
    then have n: "settled (ps_db st') broker (bp_symbol bp) (bp_exchange bp) None"
      using ih by (simp add: persists_def)
    then have "ans (ps_db st') broker (bp_symbol bp) (bp_exchange bp) = None" using settled_None ih by blast
    then have a: "answered (ps_db st') broker (bp # bps) = answered (ps_db st') broker bps"
      by (simp add: answered_positions_def)
    show ?thesis unfolding a using ih n by (simp add: all_settled_def) blast
  next
    case (Inr r)
    then obtain i db1 where l: "?l = Inr (i, db1)" by (cases r) auto
    let ?db2 = "put_position conn now existing i bp db1"
    let ?st = "st\<lparr>ps_db := ?db2, ps_upserted := ps_upserted st + 1, ps_seen := in_id i # ps_seen st\<rparr>"
    have IH: "position_loop look conn broker now existing bps ?st = Inr st'" using Cons.prems(2) l by simp
    have s: "sb_instruments ?db2 = sb_instruments db1" "sb_mappings ?db2 = sb_mappings db1"
      by (simp_all add: put_position_rows)
    note st = look_step[OF Cons.prems(1) l s]
    have "ok (ps_db ?st)" using st(1) by simp
    note ih = Cons.IH[of ?st, OF this IH]
    have n: "settled (ps_db st') broker (bp_symbol bp) (bp_exchange bp) (Some i)"
      using ih st(3) by (simp add: persists_def)
    then have a: "answered (ps_db st') broker (bp # bps) = (i, bp) # answered (ps_db st') broker bps"
      by (simp add: answered_positions_def settled_Some)
    have p: "persists (ps_db st) (ps_db st')" using persists_trans[OF st(2)] ih by simp
    show ?thesis unfolding a using ih n p st(4-7) by (auto simp: all_settled_def put_position_rows)
  qed
qed

text \<open>On settled symbols the loop cannot fail and leaves the symbols alone.\<close>

lemma position_loop_settled:
  "ok (ps_db st) \<Longrightarrow> all_settled (ps_db st) broker bps \<Longrightarrow>
    \<exists>st'. position_loop look conn broker now existing bps st = Inr st' \<and>
      sb_mappings (ps_db st') = sb_mappings (ps_db st) \<and> sb_instruments (ps_db st') = sb_instruments (ps_db st)"
proof (induction bps arbitrary: st)
  case (Cons bp bps)
  obtain oi where oi: "settled (ps_db st) broker (bp_symbol bp) (bp_exchange bp) oi"
    and rest: "all_settled (ps_db st) broker bps"
    using Cons.prems(2) by (auto simp: all_settled_def)
  show ?case
  proof (cases oi)
    case None
    then obtain m where "look broker (bp_symbol bp) (bp_exchange bp) (ps_db st) = Inl (SymbolNotMapped m)"
      using oi by (auto simp: settled_def)
    moreover have "ok (ps_db (st\<lparr>ps_warnings := w, ps_skipped := k\<rparr>))"
      "all_settled (ps_db (st\<lparr>ps_warnings := w, ps_skipped := k\<rparr>)) broker bps" for w k
      using Cons.prems(1) rest by simp_all
    note Cons.IH[OF this]
    ultimately show ?thesis by simp
  next
    case (Some i)
    then have l: "look broker (bp_symbol bp) (bp_exchange bp) (ps_db st) = Inr (i, ps_db st)"
      using oi hit Cons.prems(1) by (simp add: settled_Some)
    let ?st = "st\<lparr>ps_db := put_position conn now existing i bp (ps_db st),
        ps_upserted := ps_upserted st + 1, ps_seen := in_id i # ps_seen st\<rparr>"
    have s: "sb_instruments (ps_db ?st) = sb_instruments (ps_db st)" "sb_mappings (ps_db ?st) = sb_mappings (ps_db st)"
      by (simp_all add: put_position_rows)
    have "ok (ps_db ?st)" "all_settled (ps_db ?st) broker bps"
      using Cons.prems(1) ok_cong[OF s] persists_settled[OF persists_same[OF Cons.prems(1) s] rest] by simp_all
    then show ?thesis using Cons.IH[of ?st] l s by simp
  qed
qed simp

lemma order_loop_spec:
  "ok (os_db st) \<Longrightarrow> order_loop look conn broker stamp by_id bos st = Inr st' \<Longrightarrow>
    ok (os_db st') \<and> persists (os_db st) (os_db st') \<and> orders_settled (os_db st') broker bos \<and>
    (\<exists>new. map order_ident (sd_orders (os_db st')) = map order_ident (sd_orders (os_db st)) @ new \<and>
       ((\<forall>h \<in> set (answered_orders (os_db st') broker bos). map_of by_id (bo_id (snd h)) \<noteq> None) \<longrightarrow> new = []) \<and>
       (\<forall>(i, bo) \<in> set (answered_orders (os_db st') broker bos).
          map_of by_id (bo_id bo) = None \<longrightarrow> (Some (bo_id bo), conn) \<in> snd ` set new)) \<and>
    os_upserted st' = os_upserted st + int (length (answered_orders (os_db st') broker bos)) \<and>
    sd_positions (os_db st') = sd_positions (os_db st) \<and> sd_audit (os_db st') = sd_audit (os_db st) \<and>
    sb_instruments (os_db st') = sb_instruments (os_db st)"
proof (induction bos arbitrary: st)
  case Nil
  then show ?case by (auto simp: persists_def orders_settled_def answered_broker_orders_def)
next
  case (Cons bo bos)
  let ?l = "look broker (bo_symbol bo) None (os_db st)"
  show ?case
  proof (cases ?l)
    case (Inl e)
    then obtain m where e: "e = SymbolNotMapped m" using Cons.prems(2) by (cases e) auto
    let ?st = "st\<lparr>os_warnings := os_warnings st @ [skip_warning ''unmapped_order_symbol'' (bo_symbol bo) m]\<rparr>"
    have IH: "order_loop look conn broker stamp by_id bos ?st = Inr st'" using Cons.prems(2) Inl e by simp
    have "ok (os_db ?st)" using Cons.prems(1) by simp
    note ih = Cons.IH[of ?st, OF this IH]
    have "settled (os_db st) broker (bo_symbol bo) None None" using Inl e by (simp add: settled_def)
    then have n: "settled (os_db st') broker (bo_symbol bo) None None"
      using ih by (simp add: persists_def)
    then have "ans (os_db st') broker (bo_symbol bo) None = None" using settled_None ih by blast
    then have a: "answered_orders (os_db st') broker (bo # bos) = answered_orders (os_db st') broker bos"
      by (simp add: answered_broker_orders_def)
    show ?thesis unfolding a using ih n by (simp add: orders_settled_def) blast
  next
    case (Inr r)
    then obtain i db1 where l: "?l = Inr (i, db1)" by (cases r) auto
    let ?db2 = "put_order conn stamp by_id i bo db1"
    let ?st = "st\<lparr>os_db := ?db2, os_upserted := os_upserted st + 1\<rparr>"
    have IH: "order_loop look conn broker stamp by_id bos ?st = Inr st'" using Cons.prems(2) l by simp
    have s: "sb_instruments ?db2 = sb_instruments db1" "sb_mappings ?db2 = sb_mappings db1"
      by (simp_all add: put_order_same)
    note st = look_step[OF Cons.prems(1) l s]
    have "ok (os_db ?st)" using st(1) by simp
    note ih = Cons.IH[of ?st, OF this IH]
    have n: "settled (os_db st') broker (bo_symbol bo) None (Some i)"
      using ih st(3) by (simp add: persists_def)
    then have a: "answered_orders (os_db st') broker (bo # bos) = (i, bo) # answered_orders (os_db st') broker bos"
      by (simp add: answered_broker_orders_def settled_Some)
    have p: "persists (os_db st) (os_db st')" using persists_trans[OF st(2)] ih by simp
    obtain new1 where n1: "map order_ident (sd_orders ?db2) = map order_ident (sd_orders (os_db st)) @ new1"
      "if map_of by_id (bo_id bo) = None then snd ` set new1 = {(Some (bo_id bo), conn)} else new1 = []"
      using put_order_ident[of conn stamp by_id i bo db1] st(6) by auto
    obtain new2 where n2: "map order_ident (sd_orders (os_db st')) = map order_ident (sd_orders ?db2) @ new2"
      "((\<forall>h \<in> set (answered_orders (os_db st') broker bos). map_of by_id (bo_id (snd h)) \<noteq> None) \<longrightarrow> new2 = [])"
      "\<forall>(i, bo) \<in> set (answered_orders (os_db st') broker bos).
          map_of by_id (bo_id bo) = None \<longrightarrow> (Some (bo_id bo), conn) \<in> snd ` set new2"
      using ih by auto
    have "\<exists>new. map order_ident (sd_orders (os_db st')) = map order_ident (sd_orders (os_db st)) @ new \<and>
       ((\<forall>h \<in> set ((i, bo) # answered_orders (os_db st') broker bos). map_of by_id (bo_id (snd h)) \<noteq> None) \<longrightarrow> new = []) \<and>
       (\<forall>(i, bo) \<in> set ((i, bo) # answered_orders (os_db st') broker bos).
          map_of by_id (bo_id bo) = None \<longrightarrow> (Some (bo_id bo), conn) \<in> snd ` set new)"
      using n1 n2 by (intro exI[of _ "new1 @ new2"]) (auto split: if_splits)
    moreover have "\<exists>oi. settled (os_db st') broker (bo_symbol bo) None oi" using n by blast
    ultimately show ?thesis unfolding a using ih p st(4-7) by (simp add: orders_settled_def put_order_same)
  qed
qed

lemma order_loop_settled:
  "ok (os_db st) \<Longrightarrow> orders_settled (os_db st) broker bos \<Longrightarrow>
    \<exists>st'. order_loop look conn broker stamp by_id bos st = Inr st' \<and>
      sb_mappings (os_db st') = sb_mappings (os_db st) \<and> sb_instruments (os_db st') = sb_instruments (os_db st)"
proof (induction bos arbitrary: st)
  case (Cons bo bos)
  obtain oi where oi: "settled (os_db st) broker (bo_symbol bo) None oi"
    and rest: "orders_settled (os_db st) broker bos"
    using Cons.prems(2) by (auto simp: orders_settled_def)
  show ?case
  proof (cases oi)
    case None
    then obtain m where "look broker (bo_symbol bo) None (os_db st) = Inl (SymbolNotMapped m)"
      using oi by (auto simp: settled_def)
    moreover have "ok (os_db (st\<lparr>os_warnings := w\<rparr>))" "orders_settled (os_db (st\<lparr>os_warnings := w\<rparr>)) broker bos" for w
      using Cons.prems(1) rest by simp_all
    note Cons.IH[OF this]
    ultimately show ?thesis by simp
  next
    case (Some i)
    then have l: "look broker (bo_symbol bo) None (os_db st) = Inr (i, os_db st)"
      using oi hit Cons.prems(1) by (simp add: settled_Some)
    let ?st = "st\<lparr>os_db := put_order conn stamp by_id i bo (os_db st), os_upserted := os_upserted st + 1\<rparr>"
    have s: "sb_instruments (os_db ?st) = sb_instruments (os_db st)" "sb_mappings (os_db ?st) = sb_mappings (os_db st)"
      by (simp_all add: put_order_same)
    have "ok (os_db ?st)" using Cons.prems(1) ok_cong[OF s] by simp
    moreover have "orders_settled (os_db ?st) broker bos"
      using persists_same[OF Cons.prems(1) s] rest unfolding persists_def orders_settled_def by blast
    ultimately show ?thesis using Cons.IH[of ?st] l s by simp
  qed
qed simp

text \<open>What one successful sync of a connection leaves behind.\<close>

lemma sync_positions_spec:
  assumes ok: "ok db" and d: "distinct (map position_key (sd_positions db))"
    and s: "sync_positions look conn broker now bps db = Inr ((up, cl, sk, w), db')"
  shows "ok db'" "all_settled db' broker bps" "sync_constraints db'"
    "sd_orders db' = sd_orders db" "sd_audit db' = sd_audit db" "sb_instruments db' = sb_instruments db"
    "\<exists>new. map position_key (sd_positions db') = map position_key (sd_positions db) @ new"
    "up = int (length (answered db' broker bps))"
    "filter (\<lambda>r. po_connection r \<noteq> conn) (sd_positions db') = filter (\<lambda>r. po_connection r \<noteq> conn) (sd_positions db)"
    "\<forall>r \<in> set (sd_positions db'). po_connection r = conn \<longrightarrow>
      (let hs = filter (\<lambda>h. in_id (fst h) = po_instrument r) (answered db' broker bps)
       in if hs = [] then po_quantity r = 0 \<and> po_as_of r = now else reported r (snd (last hs)) now)"
    "\<forall>(i, bp) \<in> set (answered db' broker bps). (conn, in_id i) \<in> position_key ` set (sd_positions db')"
proof -
  let ?ex = "filter (\<lambda>p. po_connection p = conn) (sd_positions db)"
  let ?st0 = "\<lparr>ps_db = db, ps_warnings = [], ps_upserted = 0, ps_skipped = 0, ps_seen = []\<rparr>"
  obtain st where st: "position_loop look conn broker now ?ex bps ?st0 = Inr st"
    using s by (auto simp: sync_positions_def Let_def split: sum.splits)
  let ?cm = "close_missing conn now ?ex (ps_seen st) (ps_db st)"
  have c: "sync_constraints db'" and db': "db' = snd ?cm" and up: "up = ps_upserted st"
    using s st by (auto simp: sync_positions_def Let_def split: if_splits prod.splits)
  have "ok (ps_db ?st0)" using ok by simp
  note L = position_loop_spec[OF this st, simplified]
  have sym: "sb_instruments db' = sb_instruments (ps_db st)" "sb_mappings db' = sb_mappings (ps_db st)"
    by (simp_all add: db' close_missing_same)
  have a: "answered db' broker bps = answered (ps_db st) broker bps"
    using same_symbols[OF sym] by (simp add: answered_positions_def)
  show "sync_constraints db'" by (rule c)
  show "ok db'" using L ok_cong[OF sym] by simp
  show "all_settled db' broker bps" using L persists_settled persists_same[OF _ sym] by blast
  show "sd_orders db' = sd_orders db" "sd_audit db' = sd_audit db" "sb_instruments db' = sb_instruments db"
    using L by (simp_all add: db' close_missing_same)
  show "up = int (length (answered db' broker bps))" using L by (simp add: up a)
  let ?rows = "foldl (put_rows conn now ?ex) (sd_positions db) (answered (ps_db st) broker bps)"
  have keys: "map position_key (sd_positions db') = map position_key ?rows"
    using L by (simp add: db' close_missing_keys)
  then show "\<exists>new. map position_key (sd_positions db') = map position_key (sd_positions db) @ new"
    using foldl_put_rows_keys by simp
  have ex: "\<forall>r \<in> set ?ex. r \<in> set (sd_positions db) \<and> po_connection r = conn" by simp
  have "position_key ` set (sd_positions db') = position_key ` set ?rows"
    using keys by (metis list.set_map)
  then show "\<forall>(i, bp) \<in> set (answered db' broker bps). (conn, in_id i) \<in> position_key ` set (sd_positions db')"
    using foldl_put_rows_present[OF ex] by (auto simp: a)
  have dist: "distinct (map position_key ?rows)" using c by (simp add: sync_constraints_def keys)
  show "filter (\<lambda>r. po_connection r \<noteq> conn) (sd_positions db') = filter (\<lambda>r. po_connection r \<noteq> conn) (sd_positions db)"
    using close_missing_other[of ?ex conn now "ps_seen st" "ps_db st"] L
    by (simp add: db' foldl_put_rows_other)
  show "\<forall>r \<in> set (sd_positions db'). po_connection r = conn \<longrightarrow>
      (let hs = filter (\<lambda>h. in_id (fst h) = po_instrument r) (answered db' broker bps)
       in if hs = [] then po_quantity r = 0 \<and> po_as_of r = now else reported r (snd (last hs)) now)"
  proof (intro ballI impI)
    fix r assume r: "r \<in> set (sd_positions db')" "po_connection r = conn"
    let ?zero = "\<lambda>row. row\<lparr>po_quantity := 0, po_as_of := now\<rparr>"
    let ?miss = "position_key ` set (missing ?ex (ps_seen st))"
    obtain r0 where r0: "r0 \<in> set ?rows" "r = (if position_key r0 \<in> ?miss then ?zero r0 else r0)"
      using r(1) L by (auto simp: db' close_missing_def)
    then have same: "po_connection r0 = conn" "po_instrument r0 = po_instrument r"
      using r(2) by (auto split: if_splits)
    have seen: "set (ps_seen st) = (in_id \<circ> fst) ` set (answered db' broker bps)" using L by (simp add: a)
    let ?hs = "filter (\<lambda>h. in_id (fst h) = po_instrument r) (answered db' broker bps)"
    note v = put_rows_values[OF dist r0(1) same(1), unfolded same(2), folded a]
    show "let hs = ?hs in if hs = [] then po_quantity r = 0 \<and> po_as_of r = now else reported r (snd (last hs)) now"
    proof (cases "?hs = []")
      case True
      then have "r0 \<in> set (sd_positions db)" using v by simp
      moreover have "po_instrument r0 \<notin> set (ps_seen st)"
        using True unfolding seen same(2) by (auto simp: filter_empty_conv)
      ultimately have "r0 \<in> set (missing ?ex (ps_seen st))" using same(1) by (simp add: missing_def)
      then have "r = ?zero r0" using r0(2) by simp
      then show ?thesis using True by simp
    next
      case False
      then obtain h where "h \<in> set (answered db' broker bps)" "in_id (fst h) = po_instrument r"
        by (auto simp: filter_empty_conv)
      then have "po_instrument r0 \<in> set (ps_seen st)" unfolding seen same(2) by force
      then have "position_key r0 \<notin> ?miss" by (auto simp: missing_def position_key_def)
      then have "r = r0" using r0(2) by simp
      then show ?thesis using v False by simp
    qed
  qed
qed

lemma sync_orders_spec:
  assumes ok: "ok db" and s: "sync_orders look conn broker stamp bos db = Inr ((up, w), db')"
  shows "ok db'" "persists db db'" "orders_settled db' broker bos" "sync_constraints db'"
    "sd_positions db' = sd_positions db" "sd_audit db' = sd_audit db" "sb_instruments db' = sb_instruments db"
    "up = int (length (answered_orders db' broker bos))"
    "\<exists>new. map order_ident (sd_orders db') = map order_ident (sd_orders db) @ new"
    "\<forall>(i, bo) \<in> set (answered_orders db' broker bos). bo_id bo \<noteq> [] \<longrightarrow>
       (\<exists>od \<in> set (sd_orders db'). or_connection od = conn \<and> or_broker_id od = Some (bo_id bo))"
proof -
  let ?ex = "filter (\<lambda>od. or_connection od = conn) (sd_orders db)"
  let ?by = "orders_by_broker_id ?ex"
  let ?st0 = "\<lparr>os_db = db, os_warnings = [], os_upserted = 0\<rparr>"
  obtain st where st: "order_loop look conn broker stamp ?by bos ?st0 = Inr st"
    using s by (auto simp: sync_orders_def Let_def split: sum.splits)
  have r: "db' = os_db st" "up = os_upserted st" "sync_constraints db'"
    using s st by (auto simp: sync_orders_def Let_def split: if_splits)
  have "ok (os_db ?st0)" using ok by simp
  note L = order_loop_spec[OF this st, simplified]
  show "ok db'" "persists db db'" "orders_settled db' broker bos" "sync_constraints db'"
    "sd_positions db' = sd_positions db" "sd_audit db' = sd_audit db" "sb_instruments db' = sb_instruments db"
    "up = int (length (answered_orders db' broker bos))"
    using L r by simp_all
  obtain new where n: "map order_ident (sd_orders db') = map order_ident (sd_orders db) @ new"
    "\<forall>(i, bo) \<in> set (answered_orders db' broker bos).
        map_of ?by (bo_id bo) = None \<longrightarrow> (Some (bo_id bo), conn) \<in> snd ` set new"
    using L unfolding r(1) by auto
  show "\<exists>new. map order_ident (sd_orders db') = map order_ident (sd_orders db) @ new" using n(1) by blast
  have all: "order_ident ` set (sd_orders db') = order_ident ` set (sd_orders db) \<union> set new"
    using n(1) by (metis list.set_map set_append)
  show "\<forall>(i, bo) \<in> set (answered_orders db' broker bos). bo_id bo \<noteq> [] \<longrightarrow>
       (\<exists>od \<in> set (sd_orders db'). or_connection od = conn \<and> or_broker_id od = Some (bo_id bo))"
  proof clarify
    fix i bo assume h: "(i, bo) \<in> set (answered_orders db' broker bos)" "bo_id bo \<noteq> []"
    have "\<exists>k. (k, Some (bo_id bo), conn) \<in> order_ident ` set (sd_orders db')"
    proof (cases "map_of ?by (bo_id bo) = None")
      case True
      then have "(Some (bo_id bo), conn) \<in> snd ` set new" using n(2) h(1) by fastforce
      then show ?thesis unfolding all by auto
    next
      case False
      then obtain od where "od \<in> set (sd_orders db)" "or_connection od = conn" "or_broker_id od = Some (bo_id bo)"
        using orders_by_broker_id_dom[of ?ex "bo_id bo"] by auto
      then have "(or_idem_key od, Some (bo_id bo), conn) \<in> order_ident ` set (sd_orders db)"
        by (force simp: order_ident_def)
      then show ?thesis unfolding all by blast
    qed
    then show "\<exists>od \<in> set (sd_orders db'). or_connection od = conn \<and> or_broker_id od = Some (bo_id bo)"
      by (auto simp: order_ident_def)
  qed
qed

text \<open>Both replies again: the loops cannot fail and add nothing.\<close>

lemma sync_positions_again:
  assumes ok: "ok db" and c: "sync_constraints db" and a: "all_settled db broker bps"
    and present: "\<forall>(i, bp) \<in> set (answered db broker bps). (conn, in_id i) \<in> position_key ` set (sd_positions db)"
    and zero: "\<forall>r \<in> set (sd_positions db). po_connection r = conn \<longrightarrow>
       po_instrument r \<notin> (in_id \<circ> fst) ` set (answered db broker bps) \<longrightarrow> po_quantity r = 0"
  shows "\<exists>up sk w db'. sync_positions look conn broker now bps db = Inr ((up, 0, sk, w), db') \<and>
    map position_key (sd_positions db') = map position_key (sd_positions db) \<and> sb_mappings db' = sb_mappings db"
proof -
  let ?ex = "filter (\<lambda>p. po_connection p = conn) (sd_positions db)"
  let ?st0 = "\<lparr>ps_db = db, ps_warnings = [], ps_upserted = 0, ps_skipped = 0, ps_seen = []\<rparr>"
  have ok0: "ok (ps_db ?st0)" and a0: "all_settled (ps_db ?st0) broker bps" using ok a by simp_all
  obtain st where st: "position_loop look conn broker now ?ex bps ?st0 = Inr st"
      "sb_mappings (ps_db st) = sb_mappings db" "sb_instruments (ps_db st) = sb_instruments db"
    using position_loop_settled[OF ok0 a0, of conn now ?ex] by auto
  note L = position_loop_spec[OF ok0 st(1), simplified]
  have an: "answered (ps_db st) broker bps = answered db broker bps"
    using same_symbols[OF st(3,2)] by (simp add: answered_positions_def)
  have inst: "\<forall>h \<in> set (answered db broker bps). in_id (fst h) \<in> po_instrument ` set ?ex"
    using present by (force simp: position_key_def)
  let ?cm = "close_missing conn now ?ex (ps_seen st) (ps_db st)"
  have keys: "map position_key (sd_positions (snd ?cm)) = map position_key (sd_positions db)"
    using L foldl_put_rows_overwrite[OF inst, of conn now "sd_positions db"] by (simp add: close_missing_keys an)
  have seen: "set (ps_seen st) = (in_id \<circ> fst) ` set (answered db broker bps)" using L an by simp
  have "fst ?cm = 0"
    using zero unfolding close_missing_def missing_def fst_conv by (auto simp: seen filter_empty_conv)
  moreover have "sync_constraints (snd ?cm)"
    using c L keys by (simp add: sync_constraints_def close_missing_same)
  ultimately have "sync_positions look conn broker now bps db =
      Inr ((ps_upserted st, 0, ps_skipped st, ps_warnings st), snd ?cm)"
    using st(1) by (simp add: sync_positions_def case_prod_beta)
  then show ?thesis using keys st(2) by (simp add: close_missing_same)
qed

lemma sync_orders_again:
  assumes ok: "ok db" and c: "sync_constraints db" and a: "orders_settled db broker bos"
    and present: "\<forall>(i, bo) \<in> set (answered_orders db broker bos). bo_id bo \<noteq> [] \<and>
       (\<exists>od \<in> set (sd_orders db). or_connection od = conn \<and> or_broker_id od = Some (bo_id bo))"
  shows "\<exists>up w db'. sync_orders look conn broker stamp bos db = Inr ((up, w), db') \<and>
    map order_ident (sd_orders db') = map order_ident (sd_orders db) \<and>
    sb_mappings db' = sb_mappings db \<and> sd_positions db' = sd_positions db"
proof -
  let ?ex = "filter (\<lambda>od. or_connection od = conn) (sd_orders db)"
  let ?by = "orders_by_broker_id ?ex"
  let ?st0 = "\<lparr>os_db = db, os_warnings = [], os_upserted = 0\<rparr>"
  have ok0: "ok (os_db ?st0)" and a0: "orders_settled (os_db ?st0) broker bos" using ok a by simp_all
  obtain st where st: "order_loop look conn broker stamp ?by bos ?st0 = Inr st"
      "sb_mappings (os_db st) = sb_mappings db" "sb_instruments (os_db st) = sb_instruments db"
    using order_loop_settled[OF ok0 a0, of conn stamp ?by] by auto
  note L = order_loop_spec[OF ok0 st(1), simplified]
  have an: "answered_orders (os_db st) broker bos = answered_orders db broker bos"
    using same_symbols[OF st(3,2)] by (simp add: answered_broker_orders_def)
  have "map_of ?by (bo_id (snd h)) \<noteq> None" if "h \<in> set (answered_orders db broker bos)" for h
  proof -
    obtain i bo where h: "h = (i, bo)" by (cases h)
    have "bo_id bo \<noteq> []" "\<exists>od \<in> set (sd_orders db). or_connection od = conn \<and> or_broker_id od = Some (bo_id bo)"
      using present that unfolding h by (simp_all only: Ball_def split_paired_All prod.case) auto
    then show ?thesis unfolding orders_by_broker_id_dom h by auto
  qed
  moreover obtain new where "map order_ident (sd_orders (os_db st)) = map order_ident (sd_orders db) @ new"
    "(\<forall>h \<in> set (answered_orders db broker bos). map_of ?by (bo_id (snd h)) \<noteq> None) \<longrightarrow> new = []"
    using L unfolding an by auto
  ultimately have id: "map order_ident (sd_orders (os_db st)) = map order_ident (sd_orders db)" by simp
  then have "map or_idem_key (sd_orders (os_db st)) = map or_idem_key (sd_orders db)"
    using order_ident_keys[of "sd_orders (os_db st)" "sd_orders db" "[]"] by simp
  then have "sync_constraints (os_db st)" using c L by (simp add: sync_constraints_def)
  then have "sync_orders look conn broker stamp bos db = Inr ((os_upserted st, os_warnings st), os_db st)"
    using st(1) by (simp add: sync_orders_def)
  then show ?thesis using id st(2) L by simp
qed

lemma answered_persists:
  assumes "ok db" "ok db'" "persists db db'" "all_settled db broker bps"
  shows "answered db' broker bps = answered db broker bps"
  using assms(4)
proof (induction bps)
  case (Cons bp bps)
  obtain oi where s: "settled db broker (bp_symbol bp) (bp_exchange bp) oi"
    using Cons.prems by (auto simp: all_settled_def)
  have s': "settled db' broker (bp_symbol bp) (bp_exchange bp) oi" using assms(3) s by (simp add: persists_def)
  have "all_settled db broker bps" using Cons.prems by (simp add: all_settled_def)
  then show ?case
    using Cons.IH settled_ans[OF assms(1) s] settled_ans[OF assms(2) s'] by (simp add: answered_positions_def)
qed (simp add: answered_positions_def)

text \<open>The two halves and the audit row together.\<close>

lemma sync_connection_parts:
  assumes "sync_connection look conn ad user now stamp db = Inr (su, db')"
  obtains up cl sk w1 db1 ou w2 db2 data where
    "sync_positions look conn (ad_broker_name ad) now (fst (fetched ''positions_fetch_failed'' (ad_positions ad))) db
       = Inr ((up, cl, sk, w1), db1)"
    "sync_orders look conn (ad_broker_name ad) stamp (fst (fetched ''orders_fetch_failed'' (ad_orders ad))) db1
       = Inr ((ou, w2), db2)"
    "db' = db2\<lparr>sd_audit := sd_audit db2 @ [audit_entry EVENT_PORTFOLIO_SYNC (Some user) data]\<rparr>"
    "su_upserted su = up" "su_closed su = cl" "su_orders_upserted su = ou" "su_skipped su = sk"
    "map_of data ''positions_closed'' = Some (JInt cl)"
proof -
  obtain bps wp where f1: "fetched ''positions_fetch_failed'' (ad_positions ad) = (bps, wp)" by fastforce
  obtain bos wo where f2: "fetched ''orders_fetch_failed'' (ad_orders ad) = (bos, wo)" by fastforce
  obtain up cl sk w1 db1 where p: "sync_positions look conn (ad_broker_name ad) now bps db = Inr ((up, cl, sk, w1), db1)"
    using assms by (auto simp: sync_connection_def f1 split: sum.splits)
  obtain ou w2 db2 where q: "sync_orders look conn (ad_broker_name ad) stamp bos db1 = Inr ((ou, w2), db2)"
    using assms by (auto simp: sync_connection_def f1 f2 p split: sum.splits)
  show thesis
    using assms by (intro that) (auto simp: sync_connection_def f1 f2 p q Let_def audit_event_append)
qed

lemma sync_connection_join:
  assumes "sync_positions look conn (ad_broker_name ad) now (fst (fetched ''positions_fetch_failed'' (ad_positions ad))) db
       = Inr ((up, cl, sk, w1), db1)"
    and "sync_orders look conn (ad_broker_name ad) stamp (fst (fetched ''orders_fetch_failed'' (ad_orders ad))) db1
       = Inr ((ou, w2), db2)"
  shows "\<exists>su db'. sync_connection look conn ad user now stamp db = Inr (su, db') \<and> su_closed su = cl \<and>
    sb_mappings db' = sb_mappings db2 \<and> sd_positions db' = sd_positions db2 \<and> sd_orders db' = sd_orders db2"
proof -
  obtain bps wp where f1: "fetched ''positions_fetch_failed'' (ad_positions ad) = (bps, wp)" by fastforce
  obtain bos wo where f2: "fetched ''orders_fetch_failed'' (ad_orders ad) = (bos, wo)" by fastforce
  show ?thesis using assms by (simp add: sync_connection_def f1 f2 Let_def)
qed

end

interpretation sl: sync_laws sync_resolver mapped_to symbols_ok
  unfolding sync_laws_def sync_resolver_def by (rule sr.symbol_resolver_axioms)

section \<open>Properties\<close>

text \<open>C12. The sync mirrors the broker. After a successful sync a row of the connection holds what the
  last broker position for its instrument reports, or quantity 0 when the broker reports none;
  every reported position whose symbol resolves has its row; rows of other connections are as
  they were; no position and no order row is ever removed; the tables stay sound, and one audit
  row is appended.\<close>

theorem sync_mirrors_broker:
  assumes "symbols_ok db" "sync_constraints db"
    and "sync_connection sync_resolver conn ad user now stamp db = Inr (su, db')"
    and "hits = answered_positions mapped_to db' (ad_broker_name ad) (fst (fetched label (ad_positions ad)))"
  shows "(\<forall>r \<in> set (sd_positions db'). po_connection r = conn \<longrightarrow>
       (let hs = filter (\<lambda>h. in_id (fst h) = po_instrument r) hits
        in if hs = [] then po_quantity r = 0 \<and> po_as_of r = now else reported r (snd (last hs)) now)) \<and>
    (\<forall>h \<in> set hits. (conn, in_id (fst h)) \<in> position_key ` set (sd_positions db')) \<and>
    filter (\<lambda>r. po_connection r \<noteq> conn) (sd_positions db') = filter (\<lambda>r. po_connection r \<noteq> conn) (sd_positions db) \<and>
    (\<exists>new. map position_key (sd_positions db') = map position_key (sd_positions db) @ new) \<and>
    (\<exists>new. map or_idem_key (sd_orders db') = map or_idem_key (sd_orders db) @ new) \<and>
    (\<exists>data. sd_audit db' = sd_audit db @ [audit_entry EVENT_PORTFOLIO_SYNC (Some user) data]) \<and>
    symbols_ok db' \<and> sync_constraints db' \<and> su_upserted su = int (length hits)"
proof -
  obtain up cl sk w1 db1 ou w2 db2 data where
    p: "sync_positions sync_resolver conn (ad_broker_name ad) now (fst (fetched ''positions_fetch_failed'' (ad_positions ad))) db
       = Inr ((up, cl, sk, w1), db1)"
    and q: "sync_orders sync_resolver conn (ad_broker_name ad) stamp (fst (fetched ''orders_fetch_failed'' (ad_orders ad))) db1
       = Inr ((ou, w2), db2)"
    and d: "db' = db2\<lparr>sd_audit := sd_audit db2 @ [audit_entry EVENT_PORTFOLIO_SYNC (Some user) data]\<rparr>" "su_upserted su = up"
    by (rule sl.sync_connection_parts[OF assms(3)])
  have label: "fst (fetched label (ad_positions ad)) = fst (fetched ''positions_fetch_failed'' (ad_positions ad))"
    by (simp add: fetched_def split: sum.split)
  have "distinct (map position_key (sd_positions db))" using assms(2) by (simp add: sync_constraints_def)
  note P = sl.sync_positions_spec[OF assms(1) this p]
  note Q = sl.sync_orders_spec[OF P(1) q]
  let ?bps = "fst (fetched ''positions_fetch_failed'' (ad_positions ad))"
  have tables: "sb_instruments db' = sb_instruments db2" "sb_mappings db' = sb_mappings db2"
    by (simp_all add: d)
  note sym = mapped_same[OF tables] symbols_ok_same[OF tables]
  have "hits = answered_positions mapped_to db2 (ad_broker_name ad) ?bps"
    unfolding assms(4) label answered_positions_def sym(1) ..
  also have "\<dots> = answered_positions mapped_to db1 (ad_broker_name ad) ?bps"
    by (rule sl.answered_persists[OF P(1) Q(1,2) P(2)])
  finally have hits: "hits = answered_positions mapped_to db1 (ad_broker_name ad) ?bps" .
  have pos: "sd_positions db' = sd_positions db1" using Q(5) by (simp add: d)
  obtain new where "map order_ident (sd_orders db2) = map order_ident (sd_orders db1) @ new" using Q(9) by blast
  then have ord: "\<exists>new. map or_idem_key (sd_orders db') = map or_idem_key (sd_orders db) @ new"
    using order_ident_keys[of "sd_orders db2" "sd_orders db1" new] P(4) by (simp add: d)
  have aud: "\<exists>data. sd_audit db' = sd_audit db @ [audit_entry EVENT_PORTFOLIO_SYNC (Some user) data]"
    using P(5) Q(6) by (auto simp: d)
  have con: "sync_constraints db'" using Q(4) by (simp add: d sync_constraints_def)
  have here: "\<forall>h \<in> set hits. (conn, in_id (fst h)) \<in> position_key ` set (sd_positions db1)"
    using P(11) by (auto simp: hits)
  have ok: "symbols_ok db'" using Q(1) sym(2) by simp
  show ?thesis
    unfolding pos d(2) by (intro conjI ord aud con ok here P(7,9) P(10)[folded hits] P(8)[folded hits])
qed

text \<open>C13. Syncing twice is syncing once. If a sync succeeded, syncing again with the same answers of the
  broker succeeds, closes nothing, adds no position, order or mapping and removes none, as long
  as every order carries an id.\<close>

theorem sync_again_adds_nothing:
  assumes "symbols_ok db" "sync_constraints db"
    and "sync_connection sync_resolver conn ad user now stamp db = Inr (su, db1)"
    and "\<forall>bo \<in> set (fst (fetched label (ad_orders ad))). bo_id bo \<noteq> []"
  shows "\<exists>su2 db2. sync_connection sync_resolver conn ad user now2 stamp2 db1 = Inr (su2, db2) \<and>
    su_closed su2 = 0 \<and> sb_mappings db2 = sb_mappings db1 \<and>
    map position_key (sd_positions db2) = map position_key (sd_positions db1) \<and>
    map order_ident (sd_orders db2) = map order_ident (sd_orders db1)"
proof -
  obtain up cl sk w1 dba ou w2 dbb data where
    p: "sync_positions sync_resolver conn (ad_broker_name ad) now (fst (fetched ''positions_fetch_failed'' (ad_positions ad))) db
       = Inr ((up, cl, sk, w1), dba)"
    and q: "sync_orders sync_resolver conn (ad_broker_name ad) stamp (fst (fetched ''orders_fetch_failed'' (ad_orders ad))) dba
       = Inr ((ou, w2), dbb)"
    and d: "db1 = dbb\<lparr>sd_audit := sd_audit dbb @ [audit_entry EVENT_PORTFOLIO_SYNC (Some user) data]\<rparr>"
    by (rule sl.sync_connection_parts[OF assms(3)])
  let ?bps = "fst (fetched ''positions_fetch_failed'' (ad_positions ad))"
  let ?bos = "fst (fetched ''orders_fetch_failed'' (ad_orders ad))"
  have label: "fst (fetched label (ad_orders ad)) = ?bos" by (simp add: fetched_def split: sum.split)
  have "distinct (map position_key (sd_positions db))" using assms(2) by (simp add: sync_constraints_def)
  note P = sl.sync_positions_spec[OF assms(1) this p]
  note Q = sl.sync_orders_spec[OF P(1) q]
  have sym: "sb_instruments db1 = sb_instruments dbb" "sb_mappings db1 = sb_mappings dbb"
    "sd_positions db1 = sd_positions dba" "sd_orders db1 = sd_orders dbb"
    using Q(5) by (simp_all add: d)
  have ok1: "symbols_ok db1" using Q(1) symbols_ok_same[OF sym(1,2)] by simp
  have c1: "sync_constraints db1" using Q(4) by (simp add: d sync_constraints_def)
  have pers: "sl.persists dba db1"
    by (rule sl.persists_trans[OF Q(2) sl.persists_same[OF Q(1) sym(1,2)]])
  have a1: "answered_positions mapped_to db1 (ad_broker_name ad) ?bps = answered_positions mapped_to dba (ad_broker_name ad) ?bps"
    by (rule sl.answered_persists[OF P(1) ok1 pers P(2)])
  have set1: "sl.all_settled db1 (ad_broker_name ad) ?bps" by (rule sl.persists_settled[OF pers P(2)])
  have "\<exists>up sk w db2. sync_positions sync_resolver conn (ad_broker_name ad) now2 ?bps db1 = Inr ((up, 0, sk, w), db2) \<and>
    map position_key (sd_positions db2) = map position_key (sd_positions db1) \<and> sb_mappings db2 = sb_mappings db1"
  proof (rule sl.sync_positions_again[OF ok1 c1 set1])
    show "\<forall>(i, bp) \<in> set (answered_positions mapped_to db1 (ad_broker_name ad) ?bps).
        (conn, in_id i) \<in> position_key ` set (sd_positions db1)"
      using P(11) unfolding a1 sym(3) .
    show "\<forall>r \<in> set (sd_positions db1). po_connection r = conn \<longrightarrow>
       po_instrument r \<notin> (in_id \<circ> fst) ` set (answered_positions mapped_to db1 (ad_broker_name ad) ?bps) \<longrightarrow> po_quantity r = 0"
    proof (intro ballI impI)
      fix r assume r: "r \<in> set (sd_positions db1)" "po_connection r = conn"
        "po_instrument r \<notin> (in_id \<circ> fst) ` set (answered_positions mapped_to db1 (ad_broker_name ad) ?bps)"
      then have "filter (\<lambda>h. in_id (fst h) = po_instrument r) (answered_positions mapped_to dba (ad_broker_name ad) ?bps) = []"
        unfolding a1 by (force simp: filter_empty_conv)
      then show "po_quantity r = 0" using bspec[OF P(10), of r] r(1,2) unfolding sym(3) by simp
    qed
  qed
  then obtain up2 sk2 w3 dbc where p2: "sync_positions sync_resolver conn (ad_broker_name ad) now2 ?bps db1 = Inr ((up2, 0, sk2, w3), dbc)"
    "map position_key (sd_positions dbc) = map position_key (sd_positions db1)" "sb_mappings dbc = sb_mappings db1"
    by blast
  have "distinct (map position_key (sd_positions db1))" using c1 by (simp add: sync_constraints_def)
  note P2 = sl.sync_positions_spec[OF ok1 this p2(1)]
  have symc: "sb_instruments dbc = sb_instruments dbb" "sb_mappings dbc = sb_mappings dbb" "sd_orders dbc = sd_orders dbb"
    using P2(4,6) p2(3) sym by simp_all
  have o2: "sl.orders_settled dbc (ad_broker_name ad) ?bos"
    using sl.persists_same[OF Q(1) symc(1,2)] Q(3) unfolding sl.persists_def sl.orders_settled_def by blast
  have "answered_broker_orders mapped_to dbc (ad_broker_name ad) ?bos = answered_broker_orders mapped_to dbb (ad_broker_name ad) ?bos"
    using mapped_same[OF symc(1,2)] by (simp add: answered_broker_orders_def)
  moreover have "set (map snd (answered_broker_orders mapped_to dbb (ad_broker_name ad) ?bos)) \<subseteq> set ?bos"
    by (auto simp: answered_broker_orders_def split: option.splits)
  ultimately have "\<forall>(i, bo) \<in> set (answered_broker_orders mapped_to dbc (ad_broker_name ad) ?bos). bo_id bo \<noteq> [] \<and>
       (\<exists>od \<in> set (sd_orders dbc). or_connection od = conn \<and> or_broker_id od = Some (bo_id bo))"
    using Q(10) assms(4) unfolding label symc(3) by fastforce
  from sl.sync_orders_again[OF P2(1,3) o2 this] obtain up3 w4 dbd where
    q2: "sync_orders sync_resolver conn (ad_broker_name ad) stamp2 ?bos dbc = Inr ((up3, w4), dbd)"
    "map order_ident (sd_orders dbd) = map order_ident (sd_orders dbc)" "sb_mappings dbd = sb_mappings dbc"
    "sd_positions dbd = sd_positions dbc"
    by blast
  from sl.sync_connection_join[OF p2(1) q2(1), of user] show ?thesis
    using p2(2,3) q2(2-4) symc(3) sym(4) by auto
qed

lemma sync_nothing_reported:
  fixes conn now db
  assumes "sync_constraints db"
  defines "cm \<equiv> close_missing conn now (filter (\<lambda>p. po_connection p = conn) (sd_positions db)) [] db"
  shows "sync_constraints (snd cm)"
    and "sync_positions look conn broker now [] db = Inr ((0, fst cm, 0, []), snd cm)"
proof -
  show c: "sync_constraints (snd cm)"
    using assms(1) close_missing_keys by (simp add: cm_def sync_constraints_def close_missing_same)
  show "sync_positions look conn broker now [] db = Inr ((0, fst cm, 0, []), snd cm)"
    using c by (simp add: sync_positions_def case_prod_beta Let_def cm_def)
qed


definition holding :: position_row where
  "holding = \<lparr>po_connection = ''c1'', po_instrument = ''i1'', po_quantity = 10, po_avg_cost = 2500,
     po_currency = ''INR'', po_as_of = 0\<rparr>"

definition synced_db :: sync_db where
  "synced_db = \<lparr>sb_instruments = [reliance, reliance_bse], sb_mappings = [], sd_positions = [holding],
     sd_orders = [], sd_audit = []\<rparr>"

definition zerodha_connection :: broker_connection where
  "zerodha_connection = \<lparr>co_id = ''c1'', co_user = ''u1'', bc_status = ''active''\<rparr>"

definition expired_adapter :: adapter where
  "expired_adapter = \<lparr>ad_broker_name = ''zerodha'', ad_enter = None,
     ad_positions = Inl \<lparr>be_code = ''AUTH_EXPIRED'', be_message = ''token''\<rparr>,
     ad_orders = Inl \<lparr>be_code = ''AUTH_EXPIRED'', be_message = ''token''\<rparr>\<rparr>"

lemmas sync_eval = synced_db_def zerodha_connection_def expired_adapter_def holding_def

lemma synced_db_ok: "symbols_ok synced_db" "sync_constraints synced_db"
  by (simp_all add: symbols_ok_def sync_constraints_def sync_eval reliance_def reliance_bse_def instrument_key_def)


text \<open>One ambiguous order symbol aborts the sync. Orders are looked up without an exchange, so when
  the first order of the broker names a symbol listed on two exchanges and no mapping without
  an exchange exists, the whole sync fails although the positions were read.\<close>

theorem dual_listed_order_aborts_sync:
  assumes "symbols_ok db" "ad_positions ad = Inr []" "ad_orders ad = Inr (bo # bos)"
    and "mapped_to db (ad_broker_name ad) (bo_symbol bo) None = None"
    and "i \<in> set (sb_instruments db)" "j \<in> set (sb_instruments db)" "in_exchange i \<noteq> in_exchange j"
    and "in_symbol i = str_upper (str_strip (bo_symbol bo))" "in_symbol j = str_upper (str_strip (bo_symbol bo))"
    and "sync_constraints db"
  shows "sync_connection sync_resolver conn ad user now stamp db = Inl MultipleResultsFound"
proof -
  let ?cm = "close_missing conn now (filter (\<lambda>p. po_connection p = conn) (sd_positions db)) [] db"
  have s: "sb_instruments (snd ?cm) = sb_instruments db" "sb_mappings (snd ?cm) = sb_mappings db"
    by (simp_all add: close_missing_same)
  note p = sync_nothing_reported(2)[OF assms(10), of sync_resolver conn "ad_broker_name ad" now]
  have "symbols_ok (snd ?cm)" using assms(1) symbols_ok_same[OF s] by simp
  then have "sync_resolver (ad_broker_name ad) (bo_symbol bo) None (snd ?cm) = Inl MultipleResultsFound"
    unfolding sync_resolver_def
    by (rule dual_listed_symbol_fails[where i = i and j = j]) (use assms mapped_same[OF s] s in simp_all)
  then have "sync_orders sync_resolver conn (ad_broker_name ad) stamp (bo # bos) (snd ?cm) = Inl MultipleResultsFound"
    by (simp add: sync_orders_def)
  then show ?thesis by (simp add: sync_connection_def assms(2,3) fetched_def p)
qed

definition reliance_order :: broker_order where
  "reliance_order = \<lparr>bo_id = ''o1'', bo_symbol = ''RELIANCE'', bo_side = ''buy'', bo_type = ''market'',
     bo_quantity = 1, bo_limit_price = None, bo_status = ''filled''\<rparr>"

lemma dual_listed_order_aborts_sync_witness:
  "sync_connection sync_resolver ''c1''
     (expired_adapter\<lparr>ad_positions := Inr [], ad_orders := Inr [reliance_order]\<rparr>) ''u1'' 5 5 synced_db
   = Inl MultipleResultsFound"
proof (rule dual_listed_order_aborts_sync[OF synced_db_ok(1) _ _ _ _ _ _ _ _ synced_db_ok(2)])
  show "in_symbol reliance = str_upper (str_strip (bo_symbol reliance_order))" by code_simp
  show "in_symbol reliance_bse = str_upper (str_strip (bo_symbol reliance_order))" by code_simp
  show "mapped_to synced_db (ad_broker_name (expired_adapter\<lparr>ad_positions := Inr [], ad_orders := Inr [reliance_order]\<rparr>))
      (bo_symbol reliance_order) None = None"
    by (simp add: mapped_to_def sync_eval)
qed (simp_all add: sync_eval reliance_def reliance_bse_def)

text \<open>The lock of a sync. While it is held no second sync of the user starts, and releasing it lets
  the next one in. But the release does not check the owner: once the lock of a slow sync has
  expired and a second sync holds it, the end of the first frees the second's lock, and a third
  sync starts beside the second.\<close>

theorem sync_lock_not_owned:
  assumes R: "redis_kv R" and held: "sync_acquire R True user r = (True, r1)"
  shows "\<not> fst (sync_acquire R True user r1) \<and> fst (sync_acquire R True user (sync_release R True user r1)) \<and>
    (case sync_acquire R True user (rd_expired R r1 (sync_lock_key user)) of
       (started, r2) \<Rightarrow> started \<and> \<not> fst (sync_acquire R True user r2) \<and>
         fst (sync_acquire R True user (sync_release R True user r2)))"
proof -
  have "rd_get R r1 (sync_lock_key user) \<noteq> None"
    using held redis_set_nx_won[OF R] redis_get_set_nx[OF R, of r "sync_lock_key user" _ _ "sync_lock_key user"]
    by (auto simp: sync_acquire_def) (metis fst_conv option.distinct(1) snd_conv)
  then show ?thesis
    by (simp add: sync_acquire_def sync_release_def case_prod_beta redis_kv_simps[OF R])
qed

lemma sync_lock_not_owned_witness:
  "fst (sync_acquire mem_redis True ''u1'' mem_empty) \<and>
    (case sync_acquire mem_redis True ''u1'' (rd_expired mem_redis (snd (sync_acquire mem_redis True ''u1'' mem_empty))
        (sync_lock_key ''u1'')) of
       (started, r2) \<Rightarrow> started \<and> fst (sync_acquire mem_redis True ''u1'' (sync_release mem_redis True ''u1'' r2)))"
proof -
  have h: "sync_acquire mem_redis True ''u1'' mem_empty = (True, snd (sync_acquire mem_redis True ''u1'' mem_empty))"
    by (simp add: sync_acquire_def mem_redis_def mem_empty_def)
  show ?thesis using sync_lock_not_owned[OF mem_redis_kv h] arg_cong[OF h, of fst] by (simp only: case_prod_beta fst_conv)
qed

text \<open>A run with one resolved and one unknown symbol.\<close>

definition broker_report :: adapter where
  "broker_report = \<lparr>ad_broker_name = ''zerodha'', ad_enter = None,
     ad_positions = Inr [\<lparr>bp_symbol = ''RELIANCE'', bp_quantity = 7, bp_avg_price = 2600, bp_currency = ''INR'',
          bp_exchange = Some ''BSE''\<rparr>,
        \<lparr>bp_symbol = ''XYZ'', bp_quantity = 1, bp_avg_price = 1, bp_currency = ''INR'', bp_exchange = None\<rparr>],
     ad_orders = Inr [reliance_order\<lparr>bo_symbol := ''XYZ''\<rparr>]\<rparr>"

lemma report_runs:
  "case sync_connection sync_resolver ''c1'' broker_report ''u1'' 5 5 synced_db of
     Inl _ \<Rightarrow> False
   | Inr (su, db') \<Rightarrow> map po_quantity (sd_positions db') = [0, 7] \<and> su_skipped su = 1 \<and> su_closed su = 1 \<and>
       map po_instrument (sd_positions db') = [''i1'', ''i2''] \<and> sd_orders db' = []"
  by code_simp

lemma sync_mirrors_broker_witness:
  "\<exists>su db'. sync_connection sync_resolver ''c1'' broker_report ''u1'' 5 5 synced_db = Inr (su, db') \<and>
    symbols_ok db' \<and> sync_constraints db' \<and> su_upserted su =
      int (length (answered_positions mapped_to db' ''zerodha'' (fst (fetched ''p'' (ad_positions broker_report)))))"
proof -
  obtain su db' where r: "sync_connection sync_resolver ''c1'' broker_report ''u1'' 5 5 synced_db = Inr (su, db')"
    using report_runs by (auto split: sum.splits)
  have b: "ad_broker_name broker_report = ''zerodha''" by (simp add: broker_report_def)
  have "symbols_ok db' \<and> sync_constraints db' \<and> su_upserted su =
      int (length (answered_positions mapped_to db' ''zerodha'' (fst (fetched ''p'' (ad_positions broker_report)))))"
    using sync_mirrors_broker[OF synced_db_ok r refl, of "''p''"] unfolding b by blast
  then show ?thesis using r by blast
qed

lemma sync_again_adds_nothing_witness:
  "\<exists>su db1 su2 db2. sync_connection sync_resolver ''c1'' broker_report ''u1'' 5 5 synced_db = Inr (su, db1) \<and>
    sync_connection sync_resolver ''c1'' broker_report ''u1'' 9 9 db1 = Inr (su2, db2) \<and> su_closed su2 = 0 \<and>
    map position_key (sd_positions db2) = map position_key (sd_positions db1)"
proof -
  obtain su db1 where r: "sync_connection sync_resolver ''c1'' broker_report ''u1'' 5 5 synced_db = Inr (su, db1)"
    using report_runs by (auto split: sum.splits)
  have "\<forall>bo \<in> set (fst (fetched ''p'' (ad_orders broker_report))). bo_id bo \<noteq> []"
    by (simp add: broker_report_def fetched_def reliance_order_def)
  then show ?thesis using sync_again_adds_nothing[OF synced_db_ok r, of "''p''" 9 9] r by blast
qed

end
