(* ===== verification/Synthesizer.thy ===== *)
theory Synthesizer
  imports PyDate Audit_Log
begin

text \<open>
  Recommendations: \<open>intelligence/staleness.py\<close>, \<open>intelligence/synthesizer.py\<close>, the template
  explainer and the production gate of \<open>api/recommendations.py\<close>. Scores are floats; every
  operation rounds. The renormalisation sums over a Python set of strings, whose order the
  language leaves open, so that order is an argument.
\<close>

section \<open>Staleness\<close>

datatype staleness = FRESH | AGING | STALE | SUPPRESSED

record staleness_hours =
  sh_fresh :: rat
  sh_aging :: rat
  sh_stale :: rat

definition default_hours :: staleness_hours where
  "default_hours = \<lparr>sh_fresh = 1, sh_aging = 6, sh_stale = 24\<rparr>"

text \<open>\<open>timedelta.total_seconds() / 3600.0\<close>.\<close>

definition age_hours :: "instant \<Rightarrow> instant \<Rightarrow> rat" where
  "age_hours created_at now = fdiv (f64 (of_int (now - created_at) / 1000000)) 3600"

definition classify_staleness :: "staleness_hours \<Rightarrow> instant \<Rightarrow> instant \<Rightarrow> staleness" where
  "classify_staleness th created_at now =
     (let hours = age_hours created_at now
      in if hours < 0 then FRESH
         else if hours < sh_fresh th then FRESH
         else if hours < sh_aging th then AGING
         else if hours < sh_stale th then STALE
         else SUPPRESSED)"

fun staleness_reduction :: "staleness \<Rightarrow> rat" where
  "staleness_reduction FRESH = 0"
| "staleness_reduction AGING = 5"
| "staleness_reduction STALE = 15"
| "staleness_reduction SUPPRESSED = 0"

definition apply_confidence_reduction :: "rat \<Rightarrow> staleness \<Rightarrow> rat" where
  "apply_confidence_reduction confidence level =
     (if level = SUPPRESSED then 0
      else (let reduced = fsub confidence (staleness_reduction level)
            in if reduced < 0 then 0 else if reduced > 100 then 100 else reduced))"

section \<open>The blend\<close>

datatype engine = Technical | Fundamental | Sentiment | Risk

text \<open>The written constants 0.40, 0.25, 0.20, 0.15, 0.30, 0.3 and 0.6 are the nearest floats.\<close>

fun engine_weight :: "engine \<Rightarrow> rat" where
  "engine_weight Technical = f64 (40 / 100)"
| "engine_weight Fundamental = f64 (25 / 100)"
| "engine_weight Sentiment = f64 (20 / 100)"
| "engine_weight Risk = f64 (15 / 100)"

definition MAX_AI_WEIGHT :: rat where "MAX_AI_WEIGHT = f64 (30 / 100)"
definition RECOMMENDATION_TTL :: int where "RECOMMENDATION_TTL = 24 * hour"

definition normalize_fundamental :: "rat \<Rightarrow> rat" where
  "normalize_fundamental score = clamp (-1) 1 (fdiv (fsub score 50) 50)"

definition normalize_risk :: "rat \<Rightarrow> rat" where
  "normalize_risk score = clamp (-1) 1 (fdiv (- fsub score 50) 50)"

datatype action = Strong_buy | Buy | Hold | Sell | Strong_sell

definition action_for :: "rat \<Rightarrow> action" where
  "action_for composite =
     (if composite > f64 (6 / 10) then Strong_buy
      else if composite > f64 (3 / 10) then Buy
      else if composite \<ge> - f64 (3 / 10) then Hold
      else if composite \<ge> - f64 (6 / 10) then Sell
      else Strong_sell)"

fun factor_label :: "engine \<Rightarrow> bool \<Rightarrow> string" where
  "factor_label Technical good = (if good then ''technicals bullish'' else ''technicals bearish'')"
| "factor_label Fundamental good = (if good then ''fundamentals solid'' else ''fundamentals weak'')"
| "factor_label Sentiment good = (if good then ''sentiment positive'' else ''sentiment negative'')"
| "factor_label Risk good = (if good then ''risk favourable'' else ''risk elevated'')"

type_synonym scores = "(engine \<times> rat) list"

definition top_factors :: "scores \<Rightarrow> string list" where
  "top_factors normalized =
     (let factors = map (\<lambda>(k, v). (factor_label k (v \<ge> 0), \<bar>v\<bar>)) normalized
      in map fst (take 3 (sort_desc snd factors)))"

text \<open>What the four engines hand over; \<open>None\<close> is a missing engine or a missing score.\<close>

record engine_inputs =
  ei_technical :: "rat option"
  ei_fundamental :: "rat option"
  ei_sentiment :: "rat option"
  ei_risk :: "rat option"

definition normalize_engines :: "engine_inputs \<Rightarrow> scores" where
  "normalize_engines x =
     (case ei_technical x of None \<Rightarrow> [] | Some v \<Rightarrow> [(Technical, clamp (-1) 1 v)]) @
     (case ei_fundamental x of None \<Rightarrow> [] | Some v \<Rightarrow> [(Fundamental, normalize_fundamental v)]) @
     (case ei_sentiment x of None \<Rightarrow> [] | Some v \<Rightarrow> [(Sentiment, clamp (-1) 1 v)]) @
     (case ei_risk x of None \<Rightarrow> [] | Some v \<Rightarrow> [(Risk, normalize_risk v)])"

text \<open>\<open>available\<close> lists the set in the order the interpreter happens to iterate it.\<close>

definition renormalize_weights :: "engine list \<Rightarrow> (engine \<times> rat) list" where
  "renormalize_weights available =
     (let total = py_fsum (map engine_weight available)
      in if total \<le> 0 then [] else map (\<lambda>k. (k, fdiv (engine_weight k) total)) available)"

definition blend_ai ::
  "(engine \<times> rat) list \<Rightarrow> rat \<Rightarrow> bool \<Rightarrow> rat option \<Rightarrow> (engine \<times> rat) list \<times> rat \<times> bool" where
  "blend_ai det_weights ai_weight_cfg shadow_mode ai_score =
     (if shadow_mode \<or> ai_score = None then (det_weights, 0, False)
      else (let ai_weight = max 0 (min ai_weight_cfg MAX_AI_WEIGHT)
            in if ai_weight \<le> 0 then (det_weights, 0, False)
               else (let scale = fsub 1 ai_weight
                     in (map (\<lambda>(k, v). (k, fmul v scale)) det_weights, ai_weight, True))))"

section \<open>The explainer\<close>

record rec_context =
  rc_action :: action
  rc_confidence :: rat
  rc_composite :: rat
  rc_scores :: scores
  rc_factors :: "string list"
  rc_symbol :: "string option"

fun action_name :: "action \<Rightarrow> string" where
  "action_name Strong_buy = ''strong_buy''"
| "action_name Buy = ''buy''"
| "action_name Hold = ''hold''"
| "action_name Sell = ''sell''"
| "action_name Strong_sell = ''strong_sell''"

fun join_with :: "string \<Rightarrow> string list \<Rightarrow> string" where
  "join_with d [] = []"
| "join_with d [x] = x"
| "join_with d (x # y # zs) = x @ d @ join_with d (y # zs)"

definition template_explain :: "rec_context \<Rightarrow> string" where
  "template_explain ctx =
     (let symbol = (case rc_symbol ctx of None \<Rightarrow> ''the instrument''
            | Some s \<Rightarrow> if s = [] then ''the instrument'' else s);
          factors_clause = (if rc_factors ctx = [] then []
            else '' Key factors: '' @ join_with ''; '' (rc_factors ctx) @ ''.'')
      in str_upper (action_name (rc_action ctx)) @ '' for '' @ symbol @ '' with confidence '' @
         fixed_str 1 (rc_confidence ctx) @ ''% (composite '' @ fixed_str 2 (rc_composite ctx) @ '').'' @
         factors_clause)"

text \<open>An explainer is its name and its answer; \<open>None\<close> is an exception.\<close>

type_synonym explainer = "string \<times> (rec_context \<Rightarrow> string option)"

definition template_explainer :: explainer where
  "template_explainer = (''template'', \<lambda>ctx. Some (template_explain ctx))"

definition explain_with :: "explainer \<Rightarrow> rec_context \<Rightarrow> string \<times> string" where
  "explain_with ex ctx =
     (case snd ex ctx of Some rationale \<Rightarrow> (rationale, fst ex)
      | None \<Rightarrow> (template_explain ctx, ''template''))"

section \<open>The synthesizer\<close>

record recommendation =
  rr_ok :: bool
  rr_action :: "action option"
  rr_confidence :: "rat option"
  rr_composite :: "rat option"
  rr_scores :: scores
  rr_rationale :: "string option"
  rr_expires_at :: "instant option"
  rr_computed_at :: instant
  rr_reason :: "string option"
  rr_explainer :: "string option"
  rr_ai_blended :: bool
  rr_staleness :: "staleness option"

definition stale_response :: "string \<Rightarrow> scores \<Rightarrow> instant \<Rightarrow> staleness option \<Rightarrow> recommendation" where
  "stale_response reason normalized now level =
     \<lparr>rr_ok = False, rr_action = None, rr_confidence = None, rr_composite = None, rr_scores = normalized,
      rr_rationale = None, rr_expires_at = None, rr_computed_at = now, rr_reason = Some reason,
      rr_explainer = None, rr_ai_blended = False, rr_staleness = level\<rparr>"

definition oldest_engine :: "scores \<Rightarrow> (engine \<Rightarrow> instant option) \<Rightarrow> instant \<Rightarrow> instant" where
  "oldest_engine normalized computed_at now =
     (let available_times = concat (map (\<lambda>(k, v). case computed_at k of None \<Rightarrow> [] | Some t \<Rightarrow> [t]) normalized)
      in if available_times = [] then now else Min (set available_times))"

definition blended_composite ::
  "scores \<Rightarrow> (engine \<times> rat) list \<Rightarrow> rat \<Rightarrow> bool \<Rightarrow> rat option \<Rightarrow> rat" where
  "blended_composite normalized new_weights ai_w ai_blended ai_score =
     (let base = py_fsum (map (\<lambda>(k, v). fmul (dict_get new_weights k 0) v) normalized);
          total = (case ai_score of Some s \<Rightarrow> if ai_blended then fadd base (fmul ai_w (clamp (-1) 1 s)) else base
                   | None \<Rightarrow> base)
      in clamp (-1) 1 total)"

definition confidence_of :: "scores \<Rightarrow> rat \<Rightarrow> rat" where
  "confidence_of normalized composite =
     (let abs_dev = fdiv (py_fsum (map (\<lambda>(k, v). \<bar>fsub v composite\<bar>) normalized))
                      (of_nat (max (length normalized) 1))
      in fmul 100 (fsub 1 (min abs_dev 1)))"

definition synthesize ::
  "staleness_hours \<Rightarrow> engine_inputs \<Rightarrow> engine list \<Rightarrow> (engine \<Rightarrow> instant option) \<Rightarrow> instant \<Rightarrow> rat option
     \<Rightarrow> rat \<Rightarrow> bool \<Rightarrow> string option \<Rightarrow> explainer option \<Rightarrow> recommendation" where
  "synthesize th inputs set_order computed_at now ai_score ai_weight shadow_mode symbol ex =
     (let normalized = normalize_engines inputs in
      if normalized = [] then stale_response ''no_engine_data'' normalized now None
      else
       (let level = classify_staleness th (oldest_engine normalized computed_at now) now in
        if level = SUPPRESSED then stale_response ''data_too_stale'' normalized now (Some level)
        else
         (case blend_ai (renormalize_weights set_order) ai_weight shadow_mode ai_score of
            (new_weights, ai_w, ai_blended) \<Rightarrow>
             (let composite = blended_composite normalized new_weights ai_w ai_blended ai_score;
                  action = action_for composite;
                  confidence = apply_confidence_reduction (clamp 0 100 (confidence_of normalized composite)) level;
                  ctx = \<lparr>rc_action = action, rc_confidence = confidence, rc_composite = composite,
                     rc_scores = normalized, rc_factors = top_factors normalized, rc_symbol = symbol\<rparr>;
                  told = map_option (\<lambda>e. explain_with e ctx) ex
              in \<lparr>rr_ok = True, rr_action = Some action, rr_confidence = Some confidence,
                  rr_composite = Some composite, rr_scores = normalized, rr_rationale = map_option fst told,
                  rr_expires_at = Some (now + RECOMMENDATION_TTL), rr_computed_at = now, rr_reason = None,
                  rr_explainer = map_option snd told, rr_ai_blended = ai_blended, rr_staleness = Some level\<rparr>))))"

section \<open>The production gate\<close>

definition resolve_shadow_mode :: "string \<Rightarrow> bool \<Rightarrow> bool \<Rightarrow> bool" where
  "resolve_shadow_mode environment shadow_mode legal_review_approved =
     (if environment = ''production'' \<and> \<not> shadow_mode \<and> \<not> legal_review_approved then True else shadow_mode)"

section \<open>The route that generates\<close>

record rec_settings =
  rs_environment :: string
  rs_shadow_mode :: bool
  rs_legal_review :: bool
  rs_ai_enabled :: bool
  rs_ai_weight :: rat

record rec_row =
  rw_user :: uuid
  rw_instrument :: uuid
  rw_type :: string
  rw_rationale :: string
  rw_confidence :: rat
  rw_expires_at :: instant
  rw_status :: string

record rec_db =
  rd_rows :: "rec_row list"
  rd_audit :: audit_log
  rd_ai_tasks :: "uuid list"

text \<open>\<open>Decimal(f"{x:.2f}")\<close>.\<close>

definition two_decimals :: "rat \<Rightarrow> rat" where
  "two_decimals x = of_int (round_half_even (x * 100)) / 100"

definition store_recommendation ::
  "uuid \<Rightarrow> uuid \<Rightarrow> bool \<Rightarrow> recommendation \<Rightarrow> rec_db \<Rightarrow> rec_db" where
  "store_recommendation user_id instrument_id shadow_mode response db =
     (case (rr_ok response, rr_action response, rr_expires_at response) of
        (True, Some act, Some expires) \<Rightarrow>
          (let confidence = (case rr_confidence response of None \<Rightarrow> 0 | Some c \<Rightarrow> c);
               row = \<lparr>rw_user = user_id, rw_instrument = instrument_id, rw_type = action_name act,
                  rw_rationale = (case rr_rationale response of None \<Rightarrow> [] | Some t \<Rightarrow> t),
                  rw_confidence = two_decimals confidence, rw_expires_at = expires, rw_status = ''pending''\<rparr>;
               data = [(''instrument_id'', JStr instrument_id), (''action'', JStr (action_name act)),
                  (''confidence'', j_opt JFloat (rr_confidence response)),
                  (''composite_score'', j_opt JFloat (rr_composite response)),
                  (''explainer_used'', j_opt JStr (rr_explainer response)),
                  (''ai_blended'', JBool (rr_ai_blended response)), (''shadow_mode'', JBool shadow_mode)]
           in db\<lparr>rd_rows := rd_rows db @ [row],
                 rd_audit := audit_event ''recommendation_generated'' (Some user_id) data (rd_audit db)\<rparr>)
      | _ \<Rightarrow> db)"

text \<open>Only the technical engine is wired; its score and the time of its computation are
  arguments, \<open>None\<close> when it failed or had no prices. The list of tasks records the dispatches.\<close>

definition generate_recommendation ::
  "staleness_hours \<Rightarrow> rec_settings \<Rightarrow> uuid \<Rightarrow> (uuid \<times> string) option \<Rightarrow> (rat option \<times> instant) option
     \<Rightarrow> instant \<Rightarrow> rec_db \<Rightarrow> recommendation option \<times> rec_db" where
  "generate_recommendation th st user_id instrument technical now db =
     (case instrument of None \<Rightarrow> (None, db)
      | Some (instrument_id, symbol) \<Rightarrow>
         (let computed_at = (\<lambda>k. if k = Technical then map_option snd technical else None);
              inputs = \<lparr>ei_technical = Option.bind technical fst, ei_fundamental = None,
                 ei_sentiment = None, ei_risk = None\<rparr>;
              shadow_mode = resolve_shadow_mode (rs_environment st) (rs_shadow_mode st) (rs_legal_review st);
              db1 = (if rs_ai_enabled st then db\<lparr>rd_ai_tasks := rd_ai_tasks db @ [instrument_id]\<rparr> else db);
              response = synthesize th inputs (map fst (normalize_engines inputs)) computed_at now None
                 (rs_ai_weight st) shadow_mode (Some symbol) (Some template_explainer)
          in (Some response, store_recommendation user_id instrument_id shadow_mode response db1)))"

lemma store_appends: "\<exists>new. rd_audit (store_recommendation u i sh r db) = rd_audit db @ new"
  by (simp add: store_recommendation_def Let_def audit_event_append split: option.split bool.split)

text \<open>The route appends to the audit log only.\<close>

interpretation rec_log: append_only
  "\<lambda>(th, st, u, i, tech, now) db. snd (generate_recommendation th st u i tech now db)" rd_audit
proof (unfold_locales, goal_cases)
  case (1 a s)
  obtain th st u i tech now where a: "a = (th, st, u, i, tech, now)" by (cases a) auto
  show ?case
  proof (cases i)
    case (Some p)
    have same: "rd_audit (if b then s\<lparr>rd_ai_tasks := ts\<rparr> else s) = rd_audit s" for b ts by simp
    show ?thesis
      unfolding a Some generate_recommendation_def prod.case Let_def option.case
      using store_appends[of u "fst p" _ _ "if rs_ai_enabled st then s\<lparr>rd_ai_tasks := rd_ai_tasks s @ [fst p]\<rparr> else s"]
      unfolding same by (simp add: case_prod_beta)
  qed (simp add: a generate_recommendation_def)
qed

section \<open>Properties\<close>

lemma normalized_range:
  "(k, v) \<in> set (normalize_engines x) \<Longrightarrow> -1 \<le> v \<and> v \<le> 1"
  by (auto simp: normalize_engines_def normalize_fundamental_def normalize_risk_def clamp_bounds split: option.splits)

lemma reduction_range:
  "0 \<le> apply_confidence_reduction c l" "apply_confidence_reduction c l \<le> 100"
  by (simp_all add: apply_confidence_reduction_def Let_def)

text \<open>The two response shapes.\<close>

lemma synthesize_stale:
  "\<not> rr_ok (synthesize th x order ca now s w sh symbol ex) \<longleftrightarrow>
    normalize_engines x = [] \<or> classify_staleness th (oldest_engine (normalize_engines x) ca now) now = SUPPRESSED"
  by (simp add: synthesize_def Let_def stale_response_def case_prod_beta)

text \<open>Shape of a recommendation. The synthesizer answers for every input. The answer is a
  recommendation exactly when an engine has a score and the oldest dated engine is not suppressed;
  then the composite lies in [-1, 1], the confidence in [0, 100], the action is the band of the
  composite and the answer expires after 24 hours. Otherwise no action, confidence or rationale is
  given. The engine scores always lie in [-1, 1].\<close>

theorem recommendation_shape:
  "let r = synthesize th x order ca now s w sh symbol ex in
    (rr_ok r \<longleftrightarrow> normalize_engines x \<noteq> [] \<and>
      classify_staleness th (oldest_engine (normalize_engines x) ca now) now \<noteq> SUPPRESSED) \<and>
    (if rr_ok r then \<exists>c k. rr_composite r = Some c \<and> -1 \<le> c \<and> c \<le> 1 \<and> rr_confidence r = Some k \<and>
         0 \<le> k \<and> k \<le> 100 \<and> rr_action r = Some (action_for c) \<and> rr_expires_at r = Some (now + 24 * hour)
     else rr_action r = None \<and> rr_confidence r = None \<and> rr_composite r = None \<and> rr_rationale r = None \<and>
         rr_expires_at r = None) \<and>
    list_all (\<lambda>(k, v). -1 \<le> v \<and> v \<le> 1) (rr_scores r)"
proof -
  define r where "r = synthesize th x order ca now s w sh symbol ex"
  have sc: "rr_scores r = normalize_engines x"
    by (simp add: r_def synthesize_def Let_def stale_response_def case_prod_beta)
  have range: "list_all (\<lambda>(k, v). -1 \<le> v \<and> v \<le> 1) (rr_scores r)"
    using normalized_range unfolding sc by (auto simp: list_all_iff)
  have ok: "rr_ok r \<longleftrightarrow> normalize_engines x \<noteq> [] \<and>
      classify_staleness th (oldest_engine (normalize_engines x) ca now) now \<noteq> SUPPRESSED"
    using synthesize_stale[of th x order ca now s w sh symbol ex] unfolding r_def by blast
  have "if rr_ok r then \<exists>c k. rr_composite r = Some c \<and> -1 \<le> c \<and> c \<le> 1 \<and> rr_confidence r = Some k \<and>
         0 \<le> k \<and> k \<le> 100 \<and> rr_action r = Some (action_for c) \<and> rr_expires_at r = Some (now + 24 * hour)
     else rr_action r = None \<and> rr_confidence r = None \<and> rr_composite r = None \<and> rr_rationale r = None \<and>
         rr_expires_at r = None"
    by (simp add: r_def synthesize_def Let_def stale_response_def case_prod_beta RECOMMENDATION_TTL_def
        reduction_range blended_composite_def clamp_bounds)
  then show ?thesis using ok range unfolding Let_def r_def by blast
qed

text \<open>C15. No AI influence in shadow mode, and a bounded one in live mode. In shadow mode the answer is the
  one without an AI score; in production without legal review every configuration is shadow
  mode. In live mode the AI weight is positive and at most 0.30.\<close>

theorem ai_influence_gated:
  "synthesize th x order ca now s w True symbol ex = synthesize th x order ca now None 0 True symbol ex \<and>
   resolve_shadow_mode ''production'' shadow False \<and>
   (case blend_ai weights w live s of (new, ai_w, blended) \<Rightarrow>
      (if blended then \<not> live \<and> s \<noteq> None \<and> 0 < ai_w \<and> ai_w \<le> MAX_AI_WEIGHT \<and> map fst new = map fst weights
       else ai_w = 0 \<and> new = weights))"
proof -
  have "blended_composite n ws a False s = blended_composite n ws a False None" for n ws a
    by (cases s) (simp_all add: blended_composite_def Let_def)
  then have "synthesize th x order ca now s w True symbol ex = synthesize th x order ca now None 0 True symbol ex"
    by (simp add: synthesize_def blend_ai_def Let_def)
  then show ?thesis
    by (auto simp: resolve_shadow_mode_def blend_ai_def Let_def case_prod_beta comp_def)
qed

lemma single_weight: "f64 (engine_weight Technical / engine_weight Technical) = 1"
proof -
  have "f64 (1 / 4) \<le> f64 (40 / 100)" by (rule fl.rnd_mono) simp
  moreover have "f64 (1 / 4) = 1 / 4" by code_simp
  ultimately show ?thesis by simp
qed

lemma synthesize_single:
  fixes ca :: "engine \<Rightarrow> instant option" and w sh symbol ex
  assumes "f64 v = v" and lev: "classify_staleness th t now = level" "level \<noteq> SUPPRESSED"
    and "ca Technical = Some t"
  defines "x \<equiv> \<lparr>ei_technical = Some v, ei_fundamental = None, ei_sentiment = None, ei_risk = None\<rparr>"
  defines "r \<equiv> synthesize th x (map fst (normalize_engines x)) ca now None w sh symbol ex"
  shows "rr_ok r" "rr_action r = Some (action_for (clamp (-1) 1 v))" "rr_composite r = Some (clamp (-1) 1 v)"
    "rr_confidence r = Some (100 - staleness_reduction level)" "rr_expires_at r = Some (now + RECOMMENDATION_TTL)"
proof -
  let ?c = "clamp (-1) 1 v"
  have c: "f64 ?c = ?c" "-1 \<le> ?c" "?c \<le> 1"
    using assms(1) fl.rnd_of_int[of "-1"] by (auto simp: clamp_def min_def max_def)
  have n: "normalize_engines x = [(Technical, ?c)]" by (simp add: normalize_engines_def x_def)
  have pos: "0 < engine_weight Technical"
  proof -
    have "f64 (1 / 4) \<le> f64 (40 / 100)" by (rule fl.rnd_mono) simp
    moreover have "f64 (1 / 4) = 1 / 4" by code_simp
    ultimately show ?thesis by simp
  qed
  then have w: "renormalize_weights [Technical] = [(Technical, 1)]"
    by (simp add: renormalize_weights_def fdiv_def)
  have comp: "blended_composite [(Technical, ?c)] [(Technical, 1)] 0 False None = ?c"
    using c by (simp add: blended_composite_def dict_get_def fmul_def)
  have conf: "confidence_of [(Technical, ?c)] ?c = 100"
    by (simp add: confidence_of_def fsub_def fdiv_def fmul_def)
  have pen: "apply_confidence_reduction 100 level = 100 - staleness_reduction level"
    using lev(2) fl.rnd_of_int[of 95] fl.rnd_of_int[of 85] by (cases level) (simp_all add: apply_confidence_reduction_def fsub_def)
  have old: "oldest_engine [(Technical, ?c)] ca now = t" by (simp add: oldest_engine_def assms(4))
  show "rr_ok r" "rr_action r = Some (action_for (clamp (-1) 1 v))" "rr_composite r = Some (clamp (-1) 1 v)"
    "rr_confidence r = Some (100 - staleness_reduction level)" "rr_expires_at r = Some (now + RECOMMENDATION_TTL)"
    using lev by (simp_all add: r_def synthesize_def n Let_def old blend_ai_def w comp conf pen)
qed

text \<open>One engine is enough for full confidence. The route wires the technical engine only; with one
  engine the dispersion is zero, so the confidence of every recommendation it stores is 100 less
  the staleness penalty, whatever the score.\<close>

theorem generated_confidence_full:
  assumes "f64 v = v" and "classify_staleness th t now = level" "level \<noteq> SUPPRESSED"
    and "generate_recommendation th st user (Some (iid, symbol)) (Some (Some v, t)) now db = (resp, db')"
  shows "\<exists>r row. resp = Some r \<and> rr_composite r = Some (clamp (-1) 1 v) \<and>
    rr_confidence r = Some (100 - staleness_reduction level) \<and>
    rd_rows db' = rd_rows db @ [row] \<and> rw_confidence row = 100 - staleness_reduction level"
proof -
  let ?ca = "\<lambda>k. if k = Technical then map_option snd (Some (Some v, t)) else None"
  have "?ca Technical = Some t" by simp
  note R = synthesize_single[where ca = ?ca, OF assms(1-3) this]
  have "two_decimals (100 - staleness_reduction level) = 100 - staleness_reduction level"
    using assms(3) by (cases level) (simp_all add: two_decimals_def round_half_even_def)
  then show ?thesis
    using assms(4) R by (auto simp: generate_recommendation_def Let_def store_recommendation_def)
qed

lemma generated_confidence_full_witness:
  "let out = generate_recommendation default_hours \<lparr>rs_environment = ''production'', rs_shadow_mode = True,
        rs_legal_review = False, rs_ai_enabled = False, rs_ai_weight = 0\<rparr> ''u1'' (Some (''i1'', ''AAPL''))
        (Some (Some (1 / 8), 0)) 1000000 \<lparr>rd_rows = [], rd_audit = [], rd_ai_tasks = []\<rparr>
   in \<exists>r row. fst out = Some r \<and> rr_composite r = Some (1 / 8) \<and> rr_confidence r = Some 100 \<and>
        rd_rows (snd out) = [row] \<and> rw_confidence row = 100"
proof -
  have e: "f64 (1 / 8) = 1 / 8" by code_simp
  have l: "classify_staleness default_hours 0 1000000 = FRESH" by code_simp
  have c: "clamp (-1) 1 (1 / 8 :: rat) = 1 / 8" by (simp add: clamp_def)
  show ?thesis
    using generated_confidence_full[where st = "\<lparr>rs_environment = ''production'', rs_shadow_mode = True,
          rs_legal_review = False, rs_ai_enabled = False, rs_ai_weight = 0\<rparr>" and user = "''u1''" and iid = "''i1''"
        and symbol = "''AAPL''" and db = "\<lparr>rd_rows = [], rd_audit = [], rd_ai_tasks = []\<rparr>",
        OF e l _ prod.collapse[symmetric]] unfolding c by (simp add: Let_def)
qed

end
