(* ===== verification/Scores.thy ===== *)
theory Scores
  imports Portfolio
begin

text \<open>
  The two portfolio scores: \<open>analysis/risk_meter.py\<close> with the loading of \<open>api/risk_meter.py\<close>, and
  \<open>analysis/health_score.py\<close>. Both blend components that may be missing with the same loop
  (\<open>blend\<close>). What pandas and numpy compute from price series (a percentile, a deviation, a peak,
  a mean) are arguments; the mapping of those statistics to scores is the code's.
\<close>

section \<open>Components and the blend\<close>

record component =
  cp_name :: string
  cp_score :: "rat option"
  cp_weight :: rat

text \<open>The loop over the components and the division by the weights that were present.\<close>

fun blend_loop :: "rat \<Rightarrow> rat \<Rightarrow> component list \<Rightarrow> rat \<times> rat" where
  "blend_loop weighted weight_sum [] = (weighted, weight_sum)"
| "blend_loop weighted weight_sum (c # cs) =
     (case cp_score c of
        None \<Rightarrow> blend_loop weighted weight_sum cs
      | Some s \<Rightarrow> blend_loop (fadd weighted (fmul s (cp_weight c))) (fadd weight_sum (cp_weight c)) cs)"

definition blend :: "component list \<Rightarrow> rat" where
  "blend components =
     (case blend_loop 0 0 components of (weighted, weight_sum) \<Rightarrow>
        (let overall = (if weight_sum = 0 then 0 else fdiv weighted weight_sum)
         in py_round 1 (clamp 0 100 overall)))"

section \<open>Risk meter\<close>

definition WEIGHT_CONCENTRATION :: rat where "WEIGHT_CONCENTRATION = f64 (30 / 100)"
definition WEIGHT_VOL_VAR :: rat where "WEIGHT_VOL_VAR = f64 (30 / 100)"
definition WEIGHT_DRAWDOWN :: rat where "WEIGHT_DRAWDOWN = f64 (20 / 100)"
definition WEIGHT_EVENTS :: rat where "WEIGHT_EVENTS = f64 (20 / 100)"
definition VAR_SATURATION :: rat where "VAR_SATURATION = f64 (5 / 100)"
definition DRAWDOWN_SATURATION :: rat where "DRAWDOWN_SATURATION = f64 (40 / 100)"
definition EVENTS_WINDOW_DAYS :: int where "EVENTS_WINDOW_DAYS = 5"
definition MIN_RETURNS_FOR_VAR :: int where "MIN_RETURNS_FOR_VAR = 30"

definition hhi_of :: "rat list \<Rightarrow> rat \<Rightarrow> rat" where
  "hhi_of ws tot = (let normalized = map (\<lambda>w. fdiv \<bar>w\<bar> tot) ws
     in py_fsum (map (\<lambda>w. fmul w w) normalized))"

definition compute_concentration :: "rat list \<Rightarrow> component" where
  "compute_concentration ws =
     \<lparr>cp_name = ''concentration'',
      cp_score = (let tot = py_fsum (map abs ws)
        in if ws = [] \<or> tot \<le> 0 then None
           else Some (py_round 1 (clamp 0 100 (fmul (hhi_of ws tot) 100)))),
      cp_weight = WEIGHT_CONCENTRATION\<rparr>"

text \<open>The number of portfolio returns and their fifth percentile.\<close>

definition compute_volatility_var :: "int \<Rightarrow> rat \<Rightarrow> component" where
  "compute_volatility_var n pct_5 =
     \<lparr>cp_name = ''volatility_var'',
      cp_score = (if n < MIN_RETURNS_FOR_VAR then None
        else (let var_95 = max 0 (- pct_5); ratio = min 1 (fdiv var_95 VAR_SATURATION)
              in Some (py_round 1 (fmul ratio 100)))),
      cp_weight = WEIGHT_VOL_VAR\<rparr>"

text \<open>Peak and last value of the weighted index, \<open>None\<close> when there is none.\<close>

definition compute_drawdown :: "(rat \<times> rat) option \<Rightarrow> component" where
  "compute_drawdown index =
     \<lparr>cp_name = ''drawdown'',
      cp_score = (case index of None \<Rightarrow> None
        | Some (peak, current) \<Rightarrow>
           (let dd = (if peak \<le> 0 then 0 else max 0 (fdiv (fsub peak current) peak));
                ratio = min 1 (fdiv dd DRAWDOWN_SATURATION)
            in Some (py_round 1 (fmul ratio 100)))),
      cp_weight = WEIGHT_DRAWDOWN\<rparr>"

fun events_raw :: "rat \<Rightarrow> day \<Rightarrow> day list \<Rightarrow> rat" where
  "events_raw raw today [] = raw"
| "events_raw raw today (ev # evs) =
     (let delta = ev - today
      in if 0 \<le> delta \<and> delta \<le> EVENTS_WINDOW_DAYS
         then events_raw (fadd raw (f64 (of_int (EVENTS_WINDOW_DAYS - delta) / of_int EVENTS_WINDOW_DAYS))) today evs
         else events_raw raw today evs)"

definition compute_events :: "day list option \<Rightarrow> day \<Rightarrow> component" where
  "compute_events upcoming_events today =
     \<lparr>cp_name = ''events'',
      cp_score = (case upcoming_events of None \<Rightarrow> Some 0
        | Some evs \<Rightarrow> Some (py_round 1 (fmul (min 1 (events_raw 0 today evs)) 100))),
      cp_weight = WEIGHT_EVENTS\<rparr>"

definition classify_score :: "rat \<Rightarrow> string" where
  "classify_score score = (if score \<le> 30 then ''green'' else if score \<le> 60 then ''yellow'' else ''red'')"

record risk_meter =
  rm_overall :: rat
  rm_color :: string
  rm_components :: "component list"

definition compute_risk_meter ::
  "rat list \<Rightarrow> int \<times> rat \<Rightarrow> (rat \<times> rat) option \<Rightarrow> day list option \<Rightarrow> day \<Rightarrow> risk_meter" where
  "compute_risk_meter holding_weights returns index upcoming_events today =
     (let components = [compute_concentration holding_weights, compute_volatility_var (fst returns) (snd returns),
            compute_drawdown index, compute_events upcoming_events today];
          overall = blend components
      in \<lparr>rm_overall = overall, rm_color = classify_score overall, rm_components = components\<rparr>)"

section \<open>Loading the portfolio of the risk meter\<close>

record meter_context =
  mc_weights :: "rat list"
  mc_by_symbol :: "(string, rat) dict"
  mc_oldest :: "instant option"

text \<open>\<open>float(value / total_value)\<close>: the Decimal quotient is rounded to a float.\<close>

definition meter_weight :: "rat \<Rightarrow> rat \<Rightarrow> rat" where
  "meter_weight value tot = f64 (ddiv value tot)"

definition load_portfolio_context :: "holdings_db \<Rightarrow> uuid \<Rightarrow> meter_context" where
  "load_portfolio_context db user_id =
     (let rows = filter (\<lambda>(p, i). po_quantity p \<noteq> 0) (user_positions db user_id);
          values = map (\<lambda>(p, i). (i, dmul (po_quantity p) (po_avg_cost p))) rows;
          total_value = dsum (map snd values);
          oldest = (if rows = [] then None else Some (Min (set (map (\<lambda>(p, i). po_as_of p) rows))))
      in if total_value > 0
         then \<lparr>mc_weights = map (\<lambda>(i, v). meter_weight v total_value) values,
               mc_by_symbol = foldl (\<lambda>d (i, v). dict_set (in_symbol i) (meter_weight v total_value) d) [] values,
               mc_oldest = oldest\<rparr>
         else \<lparr>mc_weights = [], mc_by_symbol = [], mc_oldest = oldest\<rparr>)"

definition classify_panel :: "instant option \<Rightarrow> instant \<Rightarrow> string \<times> string option" where
  "classify_panel oldest now =
     (case oldest of None \<Rightarrow> (''fresh'', None)
      | Some t \<Rightarrow>
         (let age = now - t; hours = age div hour
          in if age > 24 * hour then (''very_stale'', Some (''Data outdated '' @ [CHR 0xE2, CHR 0x80, CHR 0x94] @ '' last sync '' @ int_str hours @ '' h ago.''))
             else if age > 4 * hour then (''stale'', Some (''Underlying data '' @ int_str hours @ '' h old.''))
             else (''fresh'', None)))"

text \<open>The statistics of the price series of the holdings are what \<open>stats\<close> answers.\<close>

definition compute_for_user ::
  "((string, rat) dict \<Rightarrow> (int \<times> rat) \<times> (rat \<times> rat) option) \<Rightarrow> holdings_db \<Rightarrow> instant \<Rightarrow> day \<Rightarrow> uuid
     \<Rightarrow> risk_meter \<times> string \<times> string option" where
  "compute_for_user stats db now today user_id =
     (let ctx = load_portfolio_context db user_id; st = stats (mc_by_symbol ctx)
      in (compute_risk_meter (mc_weights ctx) (fst st) (snd st) None today, classify_panel (mc_oldest ctx) now))"

section \<open>Health score\<close>

definition HEALTH_WEIGHT :: rat where "HEALTH_WEIGHT = 25 / 100"
definition DIVERSIFICATION_FLOOR_HHI :: rat where "DIVERSIFICATION_FLOOR_HHI = f64 (5 / 100)"
definition SHARPE_FLOOR :: rat where "SHARPE_FLOOR = -1"
definition SHARPE_CAP :: rat where "SHARPE_CAP = 2"

definition compute_diversification :: "rat list \<Rightarrow> component" where
  "compute_diversification ws =
     \<lparr>cp_name = ''diversification'',
      cp_score = (let tot = py_fsum (map abs ws); hhi = hhi_of ws tot
        in if ws = [] \<or> tot \<le> 0 then None
           else if hhi \<ge> 1 then Some 0
           else Some (py_round 1 (fmul (clamp 0 1 (fdiv (fsub 1 hhi) (fsub 1 DIVERSIFICATION_FLOOR_HHI))) 100))),
      cp_weight = HEALTH_WEIGHT\<rparr>"

definition present :: "rat option list \<Rightarrow> rat list" where
  "present xs = concat (map (\<lambda>x. case x of None \<Rightarrow> [] | Some v \<Rightarrow> [v]) xs)"

definition compute_fundamental :: "(rat list \<Rightarrow> rat) \<Rightarrow> rat option list \<Rightarrow> component" where
  "compute_fundamental np_mean scores =
     \<lparr>cp_name = ''fundamental'',
      cp_score = (if present scores = [] then None
        else Some (py_round 1 (clamp 0 100 (np_mean (present scores))))),
      cp_weight = HEALTH_WEIGHT\<rparr>"

definition compute_technical :: "(rat list \<Rightarrow> rat) \<Rightarrow> rat option list \<Rightarrow> component" where
  "compute_technical np_mean scores =
     \<lparr>cp_name = ''technical'',
      cp_score = (if present scores = [] then None
        else Some (py_round 1 (fmul (fdiv (fadd (clamp (-1) 1 (np_mean (present scores))) 1) 2) 100))),
      cp_weight = HEALTH_WEIGHT\<rparr>"

text \<open>The number of aligned days, the mean and the deviation of the excess returns, \<open>None\<close> when a
  series is missing; \<open>sqrt_252\<close> is numpy's float square root of 252.\<close>

definition compute_risk_adjusted :: "rat \<Rightarrow> (int \<times> rat \<times> rat) option \<Rightarrow> component" where
  "compute_risk_adjusted sqrt_252 excess =
     \<lparr>cp_name = ''risk_adjusted'',
      cp_score = (case excess of None \<Rightarrow> None
        | Some (n, mean, std) \<Rightarrow>
           if n < 30 \<or> std \<le> 0 then None
           else (let sharpe = fmul (fdiv mean std) sqrt_252;
                     clipped = clamp SHARPE_FLOOR SHARPE_CAP sharpe
                 in Some (py_round 1 (fmul (fdiv (fsub clipped SHARPE_FLOOR) (fsub SHARPE_CAP SHARPE_FLOOR)) 100)))),
      cp_weight = HEALTH_WEIGHT\<rparr>"

definition compute_health_score ::
  "(rat list \<Rightarrow> rat) \<Rightarrow> rat \<Rightarrow> rat list \<Rightarrow> rat option list \<Rightarrow> rat option list \<Rightarrow> (int \<times> rat \<times> rat) option
     \<Rightarrow> rat \<times> component list" where
  "compute_health_score np_mean sqrt_252 holding_weights fundamentals technicals excess =
     (let components = [compute_diversification holding_weights, compute_fundamental np_mean fundamentals,
            compute_technical np_mean technicals, compute_risk_adjusted sqrt_252 excess]
      in (blend components, components))"

section \<open>Rounding on the scale of the scores\<close>

text \<open>Up to 128 a float is off by less than the 46th binary place, because both neighbours on that
  grid are floats.\<close>

lemma f64_grid:
  assumes "\<bar>m\<bar> \<le> 2 ^ 53" shows "f64 (of_int m / 2 ^ 46) = of_int m / 2 ^ 46"
proof -
  have "of_int m / 2 ^ 46 = of_int m * power_int (of_int 2 :: rat) (- int 46)"
    by (simp only: power_int_minus power_int_of_nat of_int_numeral divide_inverse)
  then show ?thesis
    unfolding f64_def using assms by (intro sig_round_exact[where k = "- int 46" and m = m]) simp_all
qed

lemma f64_close:
  assumes "\<bar>x\<bar> \<le> 127" shows "\<bar>f64 x - x\<bar> \<le> 1 / 2 ^ 46"
proof -
  let ?lo = "\<lfloor>x * 2 ^ 46\<rfloor>"
  have b: "of_int ?lo \<le> x * 2 ^ 46" "x * 2 ^ 46 < of_int ?lo + 1" by linarith+
  have "\<bar>x * 2 ^ 46\<bar> \<le> 127 * 2 ^ 46" using assms by (simp add: abs_mult)
  then have lim: "\<bar>?lo\<bar> \<le> 2 ^ 53" "\<bar>?lo + 1\<bar> \<le> 2 ^ 53" using b by (simp_all add: abs_le_iff)
  have "of_int ?lo / 2 ^ 46 \<le> x" "x \<le> of_int (?lo + 1) / 2 ^ 46"
    using b by (simp_all add: field_simps)
  then have "of_int ?lo / 2 ^ 46 \<le> f64 x" "f64 x \<le> of_int (?lo + 1) / 2 ^ 46"
    using fl.rnd_ge[OF _ f64_grid[OF lim(1)]] fl.rnd_le[OF _ f64_grid[OF lim(2)]] by blast+
  moreover have "of_int (?lo + 1) / 2 ^ 46 - of_int ?lo / 2 ^ 46 = (1 / 2 ^ 46 :: rat)"
    by (simp add: add_divide_distrib)
  ultimately show ?thesis
    using \<open>of_int ?lo / 2 ^ 46 \<le> x\<close> \<open>x \<le> of_int (?lo + 1) / 2 ^ 46\<close> by (simp only: abs_le_iff) linarith
qed

section \<open>The blend stays within its components\<close>

definition weight_ok :: "rat \<Rightarrow> bool" where
  "weight_ok w \<longleftrightarrow> 1 / 10 \<le> w \<and> w \<le> 31 / 100"

definition in_scale :: "component \<Rightarrow> bool" where
  "in_scale c \<longleftrightarrow> weight_ok (cp_weight c) \<and>
     (case cp_score c of None \<Rightarrow> True | Some s \<Rightarrow> 0 \<le> s \<and> s \<le> 100)"

definition score_in :: "rat \<Rightarrow> rat \<Rightarrow> component \<Rightarrow> bool" where
  "score_in lo hi c \<longleftrightarrow> (case cp_score c of None \<Rightarrow> True | Some s \<Rightarrow> lo \<le> s \<and> s \<le> hi)"

text \<open>The accumulators are close to exact sums whose quotient lies between \<open>lo\<close> and \<open>hi\<close>; \<open>k\<close> counts
  the components added so far.\<close>

definition near_sums :: "rat \<Rightarrow> rat \<Rightarrow> nat \<Rightarrow> rat \<Rightarrow> rat \<Rightarrow> bool" where
  "near_sums lo hi k W S \<longleftrightarrow> (\<exists>W' S'. \<bar>W - W'\<bar> \<le> of_nat k * (2 / 2 ^ 46) \<and> \<bar>S - S'\<bar> \<le> of_nat k * (1 / 2 ^ 46) \<and>
     lo * S' \<le> W' \<and> W' \<le> hi * S' \<and> of_nat k * (1 / 10) \<le> S' \<and> S' \<le> of_nat k * (31 / 100) \<and>
     0 \<le> W' \<and> W' \<le> of_nat k * 31)"

lemma near_sums_step:
  assumes n: "near_sums lo hi k W S" and k: "k \<le> 3" and s: "0 \<le> s" "s \<le> 100" "lo \<le> s" "s \<le> hi"
    and w: "1 / 10 \<le> w" "w \<le> 31 / 100"
  shows "near_sums lo hi (Suc k) (fadd W (fmul s w)) (fadd S w)"
proof -
  obtain W' S' where a: "\<bar>W - W'\<bar> \<le> of_nat k * (2 / 2 ^ 46)" "\<bar>S - S'\<bar> \<le> of_nat k * (1 / 2 ^ 46)"
    "lo * S' \<le> W'" "W' \<le> hi * S'" "of_nat k * (1 / 10) \<le> S'" "S' \<le> of_nat k * (31 / 100)"
    "0 \<le> W'" "W' \<le> of_nat k * 31"
    using n unfolding near_sums_def by blast
  define d :: rat where "d = 1 / 2 ^ 46"
  define q :: rat where "q = of_nat k"
  have d: "0 \<le> d" "d \<le> 1 / 1000" "2 / 2 ^ 46 = 2 * d" by (simp_all add: d_def)
  have q: "0 \<le> q" "q \<le> 3" "of_nat (Suc k) = q + 1" using k by (simp_all add: q_def)
  have qd: "q * d \<le> 3 * d" using q d by (intro mult_right_mono) auto
  have sw: "0 \<le> s * w" "s * w \<le> 100 * (31 / 100)"
    using s w mult_mono[of s 100 w "31 / 100"] by auto
  have a': "\<bar>W - W'\<bar> \<le> 2 * (q * d)" "\<bar>S - S'\<bar> \<le> q * d" "q * (1 / 10) \<le> S'" "S' \<le> q * (31 / 100)" "W' \<le> q * 31"
    using a(1,2,5,6,8) by (simp_all add: q_def d_def)
  have e1: "\<bar>fmul s w - s * w\<bar> \<le> d" unfolding fmul_def d_def using sw by (intro f64_close) simp
  have "\<bar>W + fmul s w\<bar> \<le> 127" using a'(1,5) e1 sw d(1,2) qd q a(7) by (simp only: abs_le_iff) linarith
  then have e2: "\<bar>fadd W (fmul s w) - (W + fmul s w)\<bar> \<le> d" unfolding fadd_def d_def by (rule f64_close)
  have "\<bar>S + w\<bar> \<le> 127" using a'(2,3,4) w d(1,2) qd q by (simp only: abs_le_iff) linarith
  then have e3: "\<bar>fadd S w - (S + w)\<bar> \<le> d" unfolding fadd_def d_def by (rule f64_close)
  have "\<bar>fadd W (fmul s w) - (W' + s * w)\<bar> \<le> 2 * (q * d) + 2 * d"
    using a'(1) e1 e2 by (simp only: abs_le_iff) linarith
  moreover have "\<bar>fadd S w - (S' + w)\<bar> \<le> q * d + d" using a'(2) e3 by (simp only: abs_le_iff) linarith
  moreover have "lo * w \<le> s * w" "s * w \<le> hi * w" using s w by (simp_all add: mult_right_mono)
  then have "lo * (S' + w) \<le> W' + s * w" "W' + s * w \<le> hi * (S' + w)"
    using a(3,4) by (simp_all only: distrib_left)
  moreover have "(q + 1) * (1 / 10) \<le> S' + w" "S' + w \<le> (q + 1) * (31 / 100)" "W' + s * w \<le> (q + 1) * 31" "0 \<le> W' + s * w"
    using a'(3-5) a(7) w sw by (simp_all add: distrib_right)
  ultimately show ?thesis
    unfolding near_sums_def q(3) d(3) d_def[symmetric]
    by (intro exI[of _ "W' + s * w"] exI[of _ "S' + w"]) (simp add: distrib_right)
qed

lemma blend_loop_near:
  "near_sums lo hi k W S \<Longrightarrow> k + length cs \<le> 4 \<Longrightarrow> list_all in_scale cs \<Longrightarrow> list_all (score_in lo hi) cs \<Longrightarrow>
    \<exists>n. near_sums lo hi n (fst (blend_loop W S cs)) (snd (blend_loop W S cs)) \<and>
      n \<le> 4 \<and> (n = 0 \<longleftrightarrow> k = 0 \<and> (\<forall>c \<in> set cs. cp_score c = None))"
proof (induction cs arbitrary: k W S)
  case (Cons c cs)
  show ?case
  proof (cases "cp_score c")
    case None
    then show ?thesis using Cons.IH[of k W S] Cons.prems by simp
  next
    case (Some s)
    have "near_sums lo hi (Suc k) (fadd W (fmul s (cp_weight c))) (fadd S (cp_weight c))"
      using Cons.prems Some by (intro near_sums_step) (auto simp: in_scale_def score_in_def weight_ok_def)
    from Cons.IH[OF this] show ?thesis using Cons.prems Some by auto
  qed
qed auto

lemma py_round_close: "\<bar>y\<bar> \<le> 101 \<Longrightarrow> \<bar>py_round 1 y - y\<bar> \<le> 501 / 10000"
proof -
  assume y: "\<bar>y\<bar> \<le> 101"
  let ?r = "of_int (round_half_even (y * 10)) :: rat"
  have r: "\<bar>?r - y * 10\<bar> \<le> 1 / 2" by (rule round_half_even_error)
  then have "\<bar>?r / 10\<bar> \<le> 127" using y unfolding abs_le_iff by linarith
  then have "\<bar>f64 (?r / 10) - ?r / 10\<bar> \<le> 1 / 2 ^ 46" by (rule f64_close)
  moreover have "(1 :: rat) / 2 ^ 46 \<le> 1 / 10000" by simp
  ultimately have "\<bar>f64 (?r / 10) - ?r / 10\<bar> \<le> 1 / 10000" by (rule order_trans)
  then show ?thesis using r unfolding py_round_def by (simp only: abs_le_iff power_one_right) linarith
qed

text \<open>The quotient of close sums is close to the interval.\<close>

lemma quotient_near:
  assumes a: "\<bar>W - W'\<bar> \<le> 100 / 2 ^ 46" "\<bar>S - S'\<bar> \<le> 100 / 2 ^ 46" "lo * S' \<le> W'" "W' \<le> hi * S'" "1 / 10 \<le> S'"
    and lohi: "0 \<le> lo" "hi \<le> 100" "lo \<le> 100" "0 \<le> hi"
  shows "0 < S" "lo - 1 / 10000 \<le> fdiv W S" "fdiv W S \<le> hi + 1 / 10000"
proof -
  define d :: rat where "d = 1 / 2 ^ 46"
  have d: "0 \<le> d" "d \<le> 1 / 1000000000000" "100 / 2 ^ 46 = 100 * d" by (simp_all add: d_def)
  have b: "\<bar>W - W'\<bar> \<le> 100 * d" "\<bar>S - S'\<bar> \<le> 100 * d" using a(1,2) by (simp_all only: d(3))
  have S: "1 / 11 \<le> S" using b(2) a(5) d(2) unfolding abs_le_iff by linarith
  then show S0: "0 < S" by linarith
  have hS: "hi * S' \<le> hi * S + 10000 * d" "lo * S - 10000 * d \<le> lo * S'"
  proof -
    have "hi * S' \<le> hi * (S + 100 * d)" "lo * (S - 100 * d) \<le> lo * S'"
      using b(2) lohi by (auto intro!: mult_left_mono simp: abs_le_iff)
    moreover have "hi * d \<le> 100 * d" "lo * d \<le> 100 * d" using lohi d by (auto intro: mult_right_mono)
    ultimately show "hi * S' \<le> hi * S + 10000 * d" "lo * S - 10000 * d \<le> lo * S'"
      by (simp_all only: distrib_left right_diff_distrib)
  qed
  have e: "10100 * d \<le> 1 / 20000 * S" using d(2) S by linarith
  have WS: "W \<le> (hi + 1 / 20000) * S" "(lo - 1 / 20000) * S \<le> W"
    using hS b(1) a(3,4) e by (simp_all only: distrib_right left_diff_distrib abs_le_iff) linarith+
  then have r: "W / S \<le> hi + 1 / 20000" "lo - 1 / 20000 \<le> W / S"
    using S0 by (simp_all only: pos_divide_le_eq pos_le_divide_eq)
  then have "\<bar>W / S\<bar> \<le> 127" using lohi by (simp only: abs_le_iff) linarith
  then have "\<bar>fdiv W S - W / S\<bar> \<le> d" unfolding fdiv_def d_def by (rule f64_close)
  then show "lo - 1 / 10000 \<le> fdiv W S" "fdiv W S \<le> hi + 1 / 10000"
    using r d(2) by (simp_all only: abs_le_iff) linarith+
qed

lemma near_sums_quotient:
  assumes n: "near_sums lo hi n W S" and n': "1 \<le> n" "n \<le> 4" and lohi: "0 \<le> lo" "hi \<le> 100" "lo \<le> 100" "0 \<le> hi"
  shows "0 < S" "lo - 1 / 10000 \<le> fdiv W S" "fdiv W S \<le> hi + 1 / 10000"
proof -
  obtain W' S' where a: "\<bar>W - W'\<bar> \<le> of_nat n * (2 / 2 ^ 46)" "\<bar>S - S'\<bar> \<le> of_nat n * (1 / 2 ^ 46)"
    "lo * S' \<le> W'" "W' \<le> hi * S'" "of_nat n * (1 / 10) \<le> S'"
    using n unfolding near_sums_def by blast
  define q :: rat where "q = of_nat n"
  have q: "1 \<le> q" "q \<le> 4" using n' by (simp_all add: q_def)
  have b: "\<bar>W - W'\<bar> \<le> 100 / 2 ^ 46" "\<bar>S - S'\<bar> \<le> 100 / 2 ^ 46" "1 / 10 \<le> S'"
    using a(1,2,5) mult_right_mono[OF q(2), of "2 / 2 ^ 46"] mult_right_mono[OF q(2), of "1 / 2 ^ 46"] q(1)
    unfolding q_def[symmetric] by simp_all
  show "0 < S" "lo - 1 / 10000 \<le> fdiv W S" "fdiv W S \<le> hi + 1 / 10000"
    using quotient_near[OF b(1,2) a(3,4) b(3) lohi] by simp_all
qed

lemma blend_within:
  assumes cs: "list_all in_scale cs" "list_all (score_in lo hi) cs" "length cs \<le> 4"
    and lohi: "0 \<le> lo" "hi \<le> 100" "lo \<le> hi" and c: "c \<in> set cs" "cp_score c \<noteq> None"
  shows "lo - 51 / 1000 \<le> blend cs" "blend cs \<le> hi + 51 / 1000"
proof -
  obtain W S where l: "blend_loop 0 0 cs = (W, S)" by (cases "blend_loop 0 0 cs")
  have "near_sums lo hi 0 0 0" by (simp add: near_sums_def)
  then obtain n where n: "near_sums lo hi n W S" "n \<le> 4" "n \<noteq> 0"
    using blend_loop_near[of lo hi 0 0 0 cs] cs c l by auto
  then have q: "0 < S" "lo - 1 / 10000 \<le> fdiv W S" "fdiv W S \<le> hi + 1 / 10000"
    using near_sums_quotient[OF n(1)] lohi by auto
  define y where "y = clamp 0 100 (fdiv W S)"
  have y: "0 \<le> y" "y \<le> 100" by (simp_all add: y_def clamp_bounds)
  have "lo - 1 / 10000 \<le> y" "y \<le> hi + 1 / 10000" using q lohi by (auto simp: y_def clamp_def)
  moreover have "\<bar>py_round 1 y - y\<bar> \<le> 501 / 10000" using y by (intro py_round_close) simp
  moreover have "blend cs = py_round 1 y" using l q(1) by (simp add: blend_def y_def)
  ultimately show "lo - 51 / 1000 \<le> blend cs" "blend cs \<le> hi + 51 / 1000"
    by (simp_all only: abs_le_iff) linarith+
qed

lemma blend_percent: "0 \<le> blend cs" "blend cs \<le> 100"
  by (auto simp: blend_def Let_def clamp_bounds split: prod.splits intro!: py_round_percent)

lemma blend_loop_none: "\<forall>c \<in> set cs. cp_score c = None \<Longrightarrow> blend_loop W S cs = (W, S)"
  by (induction cs) auto

lemma blend_none: "\<forall>c \<in> set cs. cp_score c = None \<Longrightarrow> blend cs = 0"
  by (simp add: blend_def blend_loop_none)

text \<open>A blend is bracketed by two of its own scores, up to the last decimal it is rounded to.\<close>

definition bracketed :: "rat \<Rightarrow> component list \<Rightarrow> bool" where
  "bracketed overall cs \<longleftrightarrow> 0 \<le> overall \<and> overall \<le> 100 \<and>
     (let scores = present (map cp_score cs)
      in if scores = [] then overall = 0
         else Min (set scores) - 51 / 1000 \<le> overall \<and> overall \<le> Max (set scores) + 51 / 1000)"

lemma set_present: "set (present xs) = {v. Some v \<in> set xs}"
  by (force simp: present_def split: option.splits)

lemma present_Nil: "present xs = [] \<longleftrightarrow> (\<forall>x \<in> set xs. x = None)"
  by (auto simp: present_def split: option.splits)

lemma blend_bracketed:
  assumes cs: "list_all in_scale cs" "length cs \<le> 4"
  shows "bracketed (blend cs) cs"
proof (cases "present (map cp_score cs) = []")
  case True
  then have "\<forall>c \<in> set cs. cp_score c = None" by (simp add: present_Nil)
  then show ?thesis using True by (simp add: bracketed_def blend_none)
next
  case False
  let ?s = "set (present (map cp_score cs))"
  obtain c where c: "c \<in> set cs" "cp_score c \<noteq> None" using False by (auto simp: present_Nil)
  have mem: "v \<in> ?s \<longleftrightarrow> (\<exists>c \<in> set cs. cp_score c = Some v)" for v
    unfolding set_present by (auto simp: image_iff) metis
  have "Min ?s \<in> ?s" "Max ?s \<in> ?s" using False by (simp_all add: Min_in Max_in)
  then have b: "0 \<le> Min ?s" "Max ?s \<le> 100"
    using cs(1) unfolding mem by (force simp: list_all_iff in_scale_def)+
  have "list_all (score_in (Min ?s) (Max ?s)) cs"
    unfolding list_all_iff score_in_def
    by (auto split: option.splits intro!: Min_le Max_ge simp del: set_map) (auto simp: mem)
  moreover have "Min ?s \<le> Max ?s" using False by (intro Min_le_iff[THEN iffD2]) (auto intro: Max_in)
  ultimately show ?thesis
    using blend_within[OF cs(1) _ cs(2) b _ c] blend_percent[of cs] False by (simp add: bracketed_def Let_def)
qed

section \<open>The components are on the scale\<close>

lemma f64_in: "f64 lo = lo \<Longrightarrow> f64 hi = hi \<Longrightarrow> lo \<le> x \<Longrightarrow> x \<le> hi \<Longrightarrow> lo \<le> f64 x \<and> f64 x \<le> hi"
  by (simp add: fl.rnd_ge fl.rnd_le)

lemma f64_100: "f64 100 = 100" "f64 1 = 1"
  using fl.rnd_of_int[of 100] fl.rnd_of_int[of 1] by simp_all

lemma fmul_percent: "0 \<le> x \<Longrightarrow> x \<le> 1 \<Longrightarrow> 0 \<le> fmul x 100 \<and> fmul x 100 \<le> 100"
  unfolding fmul_def by (intro f64_in) (simp_all add: f64_100)

lemma score_weights [simp]:
  "weight_ok WEIGHT_CONCENTRATION" "weight_ok WEIGHT_VOL_VAR" "weight_ok WEIGHT_DRAWDOWN"
  "weight_ok WEIGHT_EVENTS" "weight_ok HEALTH_WEIGHT"
  using f64_close[of "30 / 100"] f64_close[of "20 / 100"]
  unfolding weight_ok_def WEIGHT_CONCENTRATION_def WEIGHT_VOL_VAR_def WEIGHT_DRAWDOWN_def WEIGHT_EVENTS_def
    HEALTH_WEIGHT_def abs_le_iff
  by (simp_all add: field_simps)

lemma saturations: "0 < VAR_SATURATION" "0 < DRAWDOWN_SATURATION"
  using f64_close[of "5 / 100"] f64_close[of "40 / 100"]
  unfolding VAR_SATURATION_def DRAWDOWN_SATURATION_def abs_le_iff by (simp_all add: field_simps)

lemma saturated:
  assumes "0 \<le> x" "0 < cap"
  shows "0 \<le> fmul (min 1 (fdiv x cap)) 100 \<and> fmul (min 1 (fdiv x cap)) 100 \<le> 100"
  using assms by (intro fmul_percent) (simp_all add: fdiv_def fl.rnd_nonneg)

lemma concentration_in_scale: "in_scale (compute_concentration ws)"
  by (simp add: in_scale_def compute_concentration_def Let_def py_round_percent clamp_bounds)

lemma volatility_in_scale: "in_scale (compute_volatility_var n p)"
  using saturated[of "max 0 (- p)" VAR_SATURATION] saturations
  by (simp add: in_scale_def compute_volatility_var_def Let_def py_round_percent)

lemma drawdown_in_scale: "in_scale (compute_drawdown index)"
proof -
  have "0 \<le> (if peak \<le> 0 then 0 else max 0 (fdiv (fsub peak current) peak))" for peak current by simp
  from saturated[OF this saturations(2)] show ?thesis
    by (simp add: in_scale_def compute_drawdown_def Let_def py_round_percent split: option.splits prod.splits)
qed

lemma events_raw_nonneg: "0 \<le> raw \<Longrightarrow> 0 \<le> events_raw raw today evs"
proof (induction evs arbitrary: raw)
  case (Cons ev evs)
  have "0 \<le> f64 (of_int (EVENTS_WINDOW_DAYS - (ev - today)) / of_int EVENTS_WINDOW_DAYS)"
    if "ev - today \<le> EVENTS_WINDOW_DAYS"
    using that by (intro fl.rnd_nonneg) (simp add: EVENTS_WINDOW_DAYS_def)
  then show ?case using Cons by (auto simp: Let_def fadd_def fl.rnd_nonneg)
qed simp

lemma events_in_scale: "in_scale (compute_events evs today)"
proof -
  have "0 \<le> min 1 (events_raw 0 today es)" for es using events_raw_nonneg[of 0 today es] by simp
  then have "0 \<le> fmul (min 1 (events_raw 0 today es)) 100 \<and> fmul (min 1 (events_raw 0 today es)) 100 \<le> 100" for es
    by (intro fmul_percent) simp_all
  then show ?thesis
    by (simp add: in_scale_def compute_events_def Let_def py_round_percent split: option.splits)
qed

lemma fundamental_in_scale: "in_scale (compute_fundamental np_mean scores)"
  by (simp add: in_scale_def compute_fundamental_def Let_def py_round_percent clamp_bounds)

lemma diversification_in_scale: "in_scale (compute_diversification ws)"
proof -
  have "0 \<le> fmul (clamp 0 1 x) 100 \<and> fmul (clamp 0 1 x) 100 \<le> 100" for x
    by (intro fmul_percent) (simp_all add: clamp_bounds)
  then show ?thesis
    by (simp add: in_scale_def compute_diversification_def Let_def py_round_percent)
qed

lemma technical_in_scale: "in_scale (compute_technical np_mean scores)"
proof -
  have "0 \<le> fmul (fdiv (fadd (clamp (-1) 1 x) 1) 2) 100 \<and> fmul (fdiv (fadd (clamp (-1) 1 x) 1) 2) 100 \<le> 100" for x
  proof (intro fmul_percent)
    have "-1 \<le> clamp (-1) 1 x" "clamp (-1) 1 x \<le> 1" by (simp_all add: clamp_bounds)
    then have "0 \<le> fadd (clamp (-1) 1 x) 1 \<and> fadd (clamp (-1) 1 x) 1 \<le> 2"
      unfolding fadd_def using fl.rnd_of_int[of 2] by (intro f64_in) simp_all
    then have "0 \<le> fdiv (fadd (clamp (-1) 1 x) 1) 2 \<and> fdiv (fadd (clamp (-1) 1 x) 1) 2 \<le> 1"
      unfolding fdiv_def by (intro f64_in) (simp_all add: f64_100)
    then show "0 \<le> fdiv (fadd (clamp (-1) 1 x) 1) 2" "fdiv (fadd (clamp (-1) 1 x) 1) 2 \<le> 1" by simp_all
  qed
  then show ?thesis
    by (simp add: in_scale_def compute_technical_def Let_def py_round_percent)
qed

lemma risk_adjusted_in_scale: "in_scale (compute_risk_adjusted q excess)"
proof -
  let ?c = "\<lambda>x. clamp SHARPE_FLOOR SHARPE_CAP x"
  have "0 \<le> fmul (fdiv (fsub (?c x) SHARPE_FLOOR) (fsub SHARPE_CAP SHARPE_FLOOR)) 100 \<and>
        fmul (fdiv (fsub (?c x) SHARPE_FLOOR) (fsub SHARPE_CAP SHARPE_FLOOR)) 100 \<le> 100" for x
  proof (intro fmul_percent)
    have three: "f64 3 = 3" using fl.rnd_of_int[of 3] by simp
    then have cap: "fsub SHARPE_CAP SHARPE_FLOOR = 3" by (simp add: fsub_def SHARPE_CAP_def SHARPE_FLOOR_def)
    have "-1 \<le> ?c x" "?c x \<le> 2" by (simp_all add: clamp_def SHARPE_CAP_def SHARPE_FLOOR_def)
    then have "0 \<le> fsub (?c x) SHARPE_FLOOR \<and> fsub (?c x) SHARPE_FLOOR \<le> 3"
      unfolding fsub_def by (intro f64_in) (simp_all add: three SHARPE_FLOOR_def)
    then have "0 \<le> fdiv (fsub (?c x) SHARPE_FLOOR) 3 \<and> fdiv (fsub (?c x) SHARPE_FLOOR) 3 \<le> 1"
      unfolding fdiv_def by (intro f64_in) (simp_all add: f64_100)
    then show "0 \<le> fdiv (fsub (?c x) SHARPE_FLOOR) (fsub SHARPE_CAP SHARPE_FLOOR)"
      "fdiv (fsub (?c x) SHARPE_FLOOR) (fsub SHARPE_CAP SHARPE_FLOOR) \<le> 1" by (simp_all add: cap)
  qed
  then show ?thesis
    by (simp add: in_scale_def compute_risk_adjusted_def Let_def py_round_percent
        split: option.splits prod.splits)
qed

lemmas components_in_scale = concentration_in_scale volatility_in_scale drawdown_in_scale events_in_scale
  diversification_in_scale fundamental_in_scale technical_in_scale risk_adjusted_in_scale

section \<open>Properties\<close>

text \<open>C16. The risk meter a user is shown is a number from 0 to 100 that lies between the lowest and the
  highest of the components that could be computed (up to the rounding to one decimal), whatever is
  missing and although it is computed in floats; its colour is the class of that very number. The
  health score lies between its own components in the same way.\<close>

theorem scores_bracketed:
  "bracketed (rm_overall (compute_risk_meter ws returns index evs today))
     (rm_components (compute_risk_meter ws returns index evs today)) \<and>
   rm_color (compute_risk_meter ws returns index evs today) =
     classify_score (rm_overall (compute_risk_meter ws returns index evs today)) \<and>
   bracketed (fst (compute_health_score np_mean sqrt_252 ws fundamentals technicals excess))
     (snd (compute_health_score np_mean sqrt_252 ws fundamentals technicals excess))"
  by (simp add: compute_risk_meter_def compute_health_score_def Let_def blend_bracketed components_in_scale)

text \<open>One holding is full concentration and no diversification.\<close>

lemma single_holding:
  assumes "w \<noteq> 0"
  shows "cp_score (compute_concentration [w]) = Some 100" "cp_score (compute_diversification [w]) = Some 0"
  using assms
  by (simp_all add: compute_concentration_def compute_diversification_def hhi_of_def Let_def fdiv_def fmul_def f64_100)

end
