(* ===== verification/Corporate.thy ===== *)
theory Corporate
  imports Models Audit_Log PyDate
begin

text \<open>
  Corporate actions (\<open>services/corporate_actions.py\<close>): detecting a split from an adjustment factor or
  from a quantity the orders do not explain, and the pipeline that rewrites the stored prices, drops
  the cached indicators and marks the action as applied. The state is the tables the service uses and
  the names of the cached indicators in Redis. What PostgreSQL stores for a product (the scale of a
  numeric column, the conversion to bigint) and what SCAN yields are arguments.
\<close>

section \<open>Rows and state\<close>

record action_row =
  ca_id :: uuid
  ca_instrument :: uuid
  ca_type :: string
  ca_ex_date :: day
  ca_ratio :: rat
  ca_currency :: "string option"
  ca_notes :: "string option"

record corp_state =
  cs_actions :: "action_row list"
  cs_prices :: "price_row list"
  cs_audit :: audit_log
  cs_keys :: "string list"

record split_detection =
  sd_instrument :: uuid
  sd_ex_date :: day
  sd_factor :: decimal
  sd_action :: uuid

record qty_anomaly =
  qa_instrument :: uuid
  qa_connection :: uuid
  qa_observed_at :: instant
  qa_previous :: decimal
  qa_new :: decimal
  qa_action :: uuid

definition NO_ACTION_FACTOR :: rat where "NO_ACTION_FACTOR = 1"
definition QTY_ANOMALY_TOLERANCE :: rat where "QTY_ANOMALY_TOLERANCE = 1 / 10 ^ 8"
definition APPLIED_MARKER :: string where "APPLIED_MARKER = ''[applied]''"
definition FLAGGED_MARKER :: string where "FLAGGED_MARKER = ''[flagged:qty-anomaly]''"

text \<open>\<open>marker in text\<close>.\<close>

fun occurs_in :: "string \<Rightarrow> string \<Rightarrow> bool" where
  "occurs_in pat [] = (pat = [])"
| "occurs_in pat (c # cs) = (take (length pat) (c # cs) = pat \<or> occurs_in pat cs)"

section \<open>Detection\<close>

definition detect_from_adjustment_factor ::
  "uuid \<Rightarrow> uuid \<Rightarrow> day \<Rightarrow> decimal \<Rightarrow> string option \<Rightarrow> string option \<Rightarrow> corp_state
     \<Rightarrow> split_detection option \<times> corp_state" where
  "detect_from_adjustment_factor fresh_id instrument_id ex_date factor currency notes s =
     (if dec_val factor = NO_ACTION_FACTOR then (None, s)
      else (Some \<lparr>sd_instrument = instrument_id, sd_ex_date = ex_date, sd_factor = factor, sd_action = fresh_id\<rparr>,
            s\<lparr>cs_actions := cs_actions s @ [\<lparr>ca_id = fresh_id, ca_instrument = instrument_id, ca_type = ''split'',
              ca_ex_date = ex_date, ca_ratio = dec_val factor, ca_currency = currency, ca_notes = notes\<rparr>]\<rparr>))"

definition explaining_orders :: "order_row list \<Rightarrow> uuid \<Rightarrow> uuid \<Rightarrow> instant \<Rightarrow> instant \<Rightarrow> order_row list" where
  "explaining_orders orders conn instrument_id since until =
     filter (\<lambda>od. or_connection od = conn \<and> or_instrument od = instrument_id \<and>
        or_status od \<in> {''filled'', ''partial''} \<and> since \<le> or_created_at od \<and> or_created_at od \<le> until) orders"

definition signed_quantity :: "order_row \<Rightarrow> rat" where
  "signed_quantity od = (if or_side od = ''buy'' then or_quantity od else d28 (- or_quantity od))"

definition detect_broker_position_anomaly ::
  "order_row list \<Rightarrow> instant \<Rightarrow> uuid \<Rightarrow> uuid \<Rightarrow> uuid \<Rightarrow> decimal \<Rightarrow> decimal \<Rightarrow> instant \<Rightarrow> instant option \<Rightarrow> corp_state
     \<Rightarrow> qty_anomaly option \<times> corp_state" where
  "detect_broker_position_anomaly orders now fresh_id conn instrument_id previous_qty new_qty previous_synced_at
     observed_at s =
     (let prev = dec_val previous_qty; new = dec_val new_qty
      in if d28 \<bar>dsub new prev\<bar> \<le> QTY_ANOMALY_TOLERANCE then (None, s)
         else
           (let observed = (case observed_at of Some t \<Rightarrow> t | None \<Rightarrow> now);
                order_delta = dsum (map signed_quantity
                  (explaining_orders orders conn instrument_id previous_synced_at observed));
                position_delta = dsub new prev
            in if d28 \<bar>dsub position_delta order_delta\<bar> \<le> QTY_ANOMALY_TOLERANCE then (None, s)
               else (Some \<lparr>qa_instrument = instrument_id, qa_connection = conn, qa_observed_at = observed,
                       qa_previous = previous_qty, qa_new = new_qty, qa_action = fresh_id\<rparr>,
                     s\<lparr>cs_actions := cs_actions s @ [\<lparr>ca_id = fresh_id, ca_instrument = instrument_id,
                       ca_type = ''split'', ca_ex_date = date_of observed,
                       ca_ratio = (if new \<noteq> 0 then ddiv prev new else 1), ca_currency = None,
                       ca_notes = Some (FLAGGED_MARKER @ '' prev='' @ dec_str previous_qty @ '' new='' @ dec_str new_qty)\<rparr>]\<rparr>)))"

section \<open>Applying a split\<close>

text \<open>One item of the scan after the other; \<open>None\<close> is an exception, which ends the loop.\<close>

fun delete_scanned :: "int \<Rightarrow> string list \<Rightarrow> string option list \<Rightarrow> int \<times> string list" where
  "delete_scanned deleted keys [] = (deleted, keys)"
| "delete_scanned deleted keys (None # _) = (deleted, keys)"
| "delete_scanned deleted keys (Some k # items) =
     delete_scanned (deleted + 1) (filter (\<lambda>k'. k' \<noteq> k) keys) items"

definition indicator_prefix :: "uuid \<Rightarrow> string" where
  "indicator_prefix instrument_id = ''tech:'' @ instrument_id @ '':''"

definition invalidate_indicator_cache ::
  "(string list \<Rightarrow> string \<Rightarrow> string option list) \<Rightarrow> uuid \<Rightarrow> string list \<Rightarrow> int \<times> string list" where
  "invalidate_indicator_cache scan_iter instrument_id keys =
     delete_scanned 0 keys (scan_iter keys (indicator_prefix instrument_id))"

text \<open>What the database stores for a numeric product and for a product assigned to the volume.\<close>

record column_casts =
  cc_numeric :: "rat \<Rightarrow> rat"
  cc_bigint :: "rat \<Rightarrow> int"

definition in_window :: "int \<Rightarrow> split_detection \<Rightarrow> price_row \<Rightarrow> bool" where
  "in_window history_days d p \<longleftrightarrow> ph_instrument p = sd_instrument d \<and>
     midnight (sd_ex_date d - history_days) \<le> ph_timestamp p \<and> ph_timestamp p < midnight (sd_ex_date d)"

definition adjust_price :: "column_casts \<Rightarrow> split_detection \<Rightarrow> price_row \<Rightarrow> price_row" where
  "adjust_price cc d p =
     (let factor = dec_val (sd_factor d); vol_factor = (if factor \<noteq> 0 then ddiv 1 factor else 1)
      in p\<lparr>ph_open := cc_numeric cc (ph_open p * factor), ph_high := cc_numeric cc (ph_high p * factor),
           ph_low := cc_numeric cc (ph_low p * factor), ph_close := cc_numeric cc (ph_close p * factor),
           ph_volume := cc_bigint cc (of_int (ph_volume p) * vol_factor)\<rparr>)"

definition already_applied :: "action_row \<Rightarrow> bool" where
  "already_applied row = (case ca_notes row of None \<Rightarrow> False | Some n \<Rightarrow> occurs_in APPLIED_MARKER n)"

definition mark_applied :: "action_row \<Rightarrow> action_row" where
  "mark_applied row = row\<lparr>ca_notes :=
     Some ((case ca_notes row of None \<Rightarrow> [] | Some n \<Rightarrow> if n = [] then [] else n @ '' '') @ APPLIED_MARKER)\<rparr>"

definition apply_split ::
  "column_casts \<Rightarrow> int \<Rightarrow> (string list \<Rightarrow> string \<Rightarrow> string option list) \<Rightarrow> split_detection \<Rightarrow> uuid option \<Rightarrow> corp_state
     \<Rightarrow> (string + int) \<times> corp_state" where
  "apply_split cc history_days scan_iter d user_id s =
     (case find (\<lambda>a. ca_id a = sd_action d) (cs_actions s) of
        None \<Rightarrow> (Inl (''CorporateAction '' @ sd_action d @ '' not found''), s)
      | Some row \<Rightarrow>
          if already_applied row then (Inr 0, s)
          else
            (let rows_updated = int (length (filter (in_window history_days d) (cs_prices s)));
                 prices = map (\<lambda>p. if in_window history_days d p then adjust_price cc d p else p) (cs_prices s);
                 (invalidated, keys) = invalidate_indicator_cache scan_iter (sd_instrument d) (cs_keys s)
             in (Inr rows_updated,
                 s\<lparr>cs_prices := prices, cs_keys := keys,
                   cs_actions := map (\<lambda>a. if ca_id a = sd_action d then mark_applied row else a) (cs_actions s),
                   cs_audit := audit_event ''corporate_action.applied'' user_id
                     [(''corporate_action_id'', JStr (ca_id row)), (''instrument_id'', JStr (sd_instrument d)),
                      (''ex_date'', JStr (iso_date (sd_ex_date d))), (''factor'', JStr (dec_str (sd_factor d))),
                      (''rows_updated'', JInt rows_updated), (''cache_keys_invalidated'', JInt invalidated)]
                     (cs_audit s)\<rparr>)))"

section \<open>Lemmas\<close>

lemma occurs_in_append: "occurs_in pat (xs @ pat)"
proof (induction xs)
  case Nil
  show ?case by (cases pat) auto
qed simp

lemma mark_applied_applied: "already_applied (mark_applied row)"
  by (simp add: already_applied_def mark_applied_def occurs_in_append)

lemma mark_applied_id [simp]: "ca_id (mark_applied row) = ca_id row"
  by (simp add: mark_applied_def)

lemma adjust_price_key [simp]:
  "ph_instrument (adjust_price cc d p) = ph_instrument p" "ph_timestamp (adjust_price cc d p) = ph_timestamp p"
  by (simp_all add: adjust_price_def Let_def)

text \<open>The documented behaviour of SCAN with a pattern that ends in a star and no failure on the way.\<close>

definition scan_ok :: "(string list \<Rightarrow> string \<Rightarrow> string option list) \<Rightarrow> bool" where
  "scan_ok scan_iter \<longleftrightarrow>
     (\<forall>keys pat. set (scan_iter keys pat) = Some ` {k \<in> set keys. take (length pat) k = pat})"

lemma delete_scanned_keys:
  "None \<notin> set items \<Longrightarrow> snd (delete_scanned n keys items) = filter (\<lambda>k. Some k \<notin> set items) keys"
proof (induction items arbitrary: n keys)
  case (Cons i items)
  then obtain k where "i = Some k" by (cases i) auto
  with Cons show ?case by (auto simp: conj_commute intro: filter_cong)
qed simp

text \<open>Whatever the scan yields, only scanned keys disappear.\<close>

lemma delete_scanned_safe:
  "set (snd (delete_scanned n keys items)) \<subseteq> set keys"
  "k \<in> set keys \<Longrightarrow> Some k \<notin> set items \<Longrightarrow> k \<in> set (snd (delete_scanned n keys items))"
  by (induction n keys items rule: delete_scanned.induct) auto

lemma invalidate_complete:
  assumes "scan_ok scan_iter"
  shows "snd (invalidate_indicator_cache scan_iter i keys) =
    filter (\<lambda>k. take (length (indicator_prefix i)) k \<noteq> indicator_prefix i) keys"
proof -
  have s: "set (scan_iter keys (indicator_prefix i)) =
      Some ` {k \<in> set keys. take (length (indicator_prefix i)) k = indicator_prefix i}"
    using assms by (simp add: scan_ok_def)
  then have "None \<notin> set (scan_iter keys (indicator_prefix i))" by auto
  then show ?thesis
    unfolding invalidate_indicator_cache_def by (subst delete_scanned_keys) (auto simp: s intro: filter_cong)
qed

lemma find_marked:
  assumes "find P xs = Some row" "\<And>a. P a \<Longrightarrow> P (g a)" "\<And>a. P a \<Longrightarrow> P row"
    and "P (g row)"
  shows "find P (map (\<lambda>a. if P a then g row else a) xs) = Some (g row)"
  using assms by (induction xs) (auto split: if_splits)

lemma apply_split_fields:
  assumes "find (\<lambda>a. ca_id a = sd_action d) (cs_actions s) = Some row" "\<not> already_applied row"
  shows "fst (apply_split cc h scan_iter d u s) = Inr (int (length (filter (in_window h d) (cs_prices s))))"
    "cs_prices (snd (apply_split cc h scan_iter d u s)) =
       map (\<lambda>p. if in_window h d p then adjust_price cc d p else p) (cs_prices s)"
    "cs_keys (snd (apply_split cc h scan_iter d u s)) =
       snd (invalidate_indicator_cache scan_iter (sd_instrument d) (cs_keys s))"
    "cs_actions (snd (apply_split cc h scan_iter d u s)) =
       map (\<lambda>a. if ca_id a = sd_action d then mark_applied row else a) (cs_actions s)"
    "length (cs_audit (snd (apply_split cc h scan_iter d u s))) = Suc (length (cs_audit s))"
  using assms by (simp_all add: apply_split_def Let_def audit_event_append split_beta)

text \<open>An applied action stays applied: a second run does nothing.\<close>

lemma apply_split_again:
  assumes "find (\<lambda>a. ca_id a = sd_action d) (cs_actions s) = Some row" "\<not> already_applied row"
  shows "apply_split cc' h' scan' d u' (snd (apply_split cc h scan_iter d u s)) =
    (Inr 0, snd (apply_split cc h scan_iter d u s))"
proof -
  have "ca_id row = sd_action d" using find_SomeD[OF assms(1)] by simp
  then have "find (\<lambda>a. ca_id a = sd_action d)
      (map (\<lambda>a. if ca_id a = sd_action d then mark_applied row else a) (cs_actions s)) = Some (mark_applied row)"
    by (intro find_marked[OF assms(1)]) auto
  then show ?thesis using assms by (simp add: apply_split_def mark_applied_applied Let_def split_beta)
qed

text \<open>The service appends to the audit log only.\<close>

interpretation corp_log: append_only
  "\<lambda>(cc, h, scan_iter, d, u) s. snd (apply_split cc h scan_iter d u s)" cs_audit
proof (unfold_locales, goal_cases)
  case (1 a s)
  obtain cc h scan_iter d u where a: "a = (cc, h, scan_iter, d, u)" by (cases a) auto
  show ?case unfolding a apply_split_def
    by (cases "find (\<lambda>a. ca_id a = sd_action d) (cs_actions s)")
      (simp_all add: Let_def audit_event_append split_beta)
qed

section \<open>Properties\<close>

text \<open>C17. A split detected from an adjustment factor other than 1 and then applied multiplies the prices of
  exactly the rows of the instrument in the history window before the ex-date, by the factor and each
  once, however often and with whatever settings the application is repeated; all other rows and
  actions are kept, one audit row is written, and the cached indicators of the instrument, and no
  others, are gone.\<close>

theorem split_applied_once:
  fixes s h scan_iter cc u i inst ex factor currency nts
  defines "out \<equiv> detect_from_adjustment_factor i inst ex factor currency nts s"
  defines "d \<equiv> the (fst out)"
  defines "run \<equiv> apply_split cc h scan_iter d u (snd out)"
  assumes factor: "dec_val factor \<noteq> 1" and fresh: "\<forall>a \<in> set (cs_actions s). ca_id a \<noteq> i"
    and unmarked: "\<not> occurs_in ''[applied]'' (case nts of None \<Rightarrow> [] | Some n \<Rightarrow> n)" and scan: "scan_ok scan_iter"
  shows "fst out = Some d \<and>
    fst run = Inr (int (length (filter (\<lambda>p. ph_instrument p = inst \<and> midnight (ex - h) \<le> ph_timestamp p \<and>
      ph_timestamp p < midnight ex) (cs_prices s)))) \<and>
    list_all2 (\<lambda>p p'. ph_instrument p' = ph_instrument p \<and> ph_timestamp p' = ph_timestamp p \<and>
      (if ph_instrument p = inst \<and> midnight (ex - h) \<le> ph_timestamp p \<and> ph_timestamp p < midnight ex
       then ph_open p' = cc_numeric cc (ph_open p * dec_val factor) \<and> ph_high p' = cc_numeric cc (ph_high p * dec_val factor) \<and>
            ph_low p' = cc_numeric cc (ph_low p * dec_val factor) \<and> ph_close p' = cc_numeric cc (ph_close p * dec_val factor)
       else p' = p)) (cs_prices s) (cs_prices (snd run)) \<and>
    set (cs_keys (snd run)) = {k \<in> set (cs_keys s). take (length (''tech:'' @ inst @ '':'')) k \<noteq> ''tech:'' @ inst @ '':''} \<and>
    filter (\<lambda>a. ca_id a \<noteq> i) (cs_actions (snd run)) = cs_actions s \<and>
    length (cs_audit (snd run)) = Suc (length (cs_audit s)) \<and>
    (\<forall>cc' h' scan' u'. apply_split cc' h' scan' d u' (snd run) = (Inr 0, snd run))"
proof -
  define row where "row = \<lparr>ca_id = i, ca_instrument = inst, ca_type = ''split'', ca_ex_date = ex,
    ca_ratio = dec_val factor, ca_currency = currency, ca_notes = nts\<rparr>"
  have out: "out = (Some \<lparr>sd_instrument = inst, sd_ex_date = ex, sd_factor = factor, sd_action = i\<rparr>,
      s\<lparr>cs_actions := cs_actions s @ [row]\<rparr>)"
    using factor by (simp add: out_def detect_from_adjustment_factor_def NO_ACTION_FACTOR_def row_def)
  have d: "d = \<lparr>sd_instrument = inst, sd_ex_date = ex, sd_factor = factor, sd_action = i\<rparr>"
    by (simp add: d_def out)
  have found: "find (\<lambda>a. ca_id a = sd_action d) (cs_actions (snd out)) = Some row"
    using fresh by (simp add: out d find_filter filter_empty_conv row_def)
  have new: "\<not> already_applied row"
    using unmarked by (simp add: already_applied_def row_def APPLIED_MARKER_def split: option.splits)
  have keep: "map (\<lambda>a. if ca_id a = i then mark_applied row else a) (cs_actions s) = cs_actions s"
    using fresh by (intro map_idI) auto
  obtain n ks where inval: "invalidate_indicator_cache scan_iter inst (cs_keys s) = (n, ks)"
    by (cases "invalidate_indicator_cache scan_iter inst (cs_keys s)")
  have ks: "set ks = {k \<in> set (cs_keys s). take (length (indicator_prefix inst)) k \<noteq> indicator_prefix inst}"
    using invalidate_complete[OF scan, of inst "cs_keys s"] inval by simp
  have run: "run = apply_split cc h scan_iter d u (snd out)" by (simp add: run_def)
  have again: "\<forall>cc' h' scan' u'. apply_split cc' h' scan' d u' (snd run) = (Inr 0, snd run)"
    unfolding run using apply_split_again[OF found new] by blast
  have w: "in_window h d p \<longleftrightarrow> ph_instrument p = inst \<and> midnight (ex - h) \<le> ph_timestamp p \<and> ph_timestamp p < midnight ex"
    for p by (simp add: in_window_def d)
  note fields = apply_split_fields[OF found new, of cc h scan_iter u, folded run]
  have prices: "cs_prices (snd run) = map (\<lambda>p. if in_window h d p then adjust_price cc d p else p) (cs_prices s)"
    and other: "cs_keys (snd run) = ks" "length (cs_audit (snd run)) = Suc (length (cs_audit s))"
      "fst run = Inr (int (length (filter (in_window h d) (cs_prices s))))"
      "cs_actions (snd run) = cs_actions s @ [mark_applied row]"
    unfolding fields using inval keep by (simp_all add: out, simp_all add: d row_def)
  have rows: "ph_open (adjust_price cc d p) = cc_numeric cc (ph_open p * dec_val factor)"
    "ph_high (adjust_price cc d p) = cc_numeric cc (ph_high p * dec_val factor)"
    "ph_low (adjust_price cc d p) = cc_numeric cc (ph_low p * dec_val factor)"
    "ph_close (adjust_price cc d p) = cc_numeric cc (ph_close p * dec_val factor)" for p
    by (simp_all add: adjust_price_def Let_def d)
  have lst: "list_all2 (\<lambda>p p'. ph_instrument p' = ph_instrument p \<and> ph_timestamp p' = ph_timestamp p \<and>
      (if in_window h d p
       then ph_open p' = cc_numeric cc (ph_open p * dec_val factor) \<and> ph_high p' = cc_numeric cc (ph_high p * dec_val factor) \<and>
            ph_low p' = cc_numeric cc (ph_low p * dec_val factor) \<and> ph_close p' = cc_numeric cc (ph_close p * dec_val factor)
       else p' = p)) (cs_prices s) (cs_prices (snd run))"
    unfolding prices by (simp add: list_all2_map2 list_all2_same rows)
  have acts: "filter (\<lambda>a. ca_id a \<noteq> i) (cs_actions (snd run)) = cs_actions s"
    using fresh by (simp add: other(4) row_def)
  have od: "fst out = Some d" by (simp add: out d)
  have keys: "set (cs_keys (snd run)) = {k \<in> set (cs_keys s). take (length (''tech:'' @ inst @ '':'')) k \<noteq> ''tech:'' @ inst @ '':''}"
    using ks by (simp only: other(1) indicator_prefix_def)
  show ?thesis by (intro conjI od other(3)[unfolded w[abs_def]] lst[unfolded w] keys acts other(2) again)
qed

definition scan_1 :: "string list \<Rightarrow> string \<Rightarrow> string option list" where
  "scan_1 keys pat = map Some (filter (\<lambda>k. take (length pat) k = pat) keys)"

definition casts_1 :: column_casts where
  "casts_1 = \<lparr>cc_numeric = (\<lambda>x. x), cc_bigint = (\<lambda>x. \<lfloor>x\<rfloor>)\<rparr>"

definition corp_1 :: corp_state where
  "corp_1 = \<lparr>cs_actions = [],
     cs_prices = [\<lparr>ph_instrument = ''i'', ph_timestamp = midnight 9, ph_open = 10, ph_high = 12, ph_low = 9, ph_close = 11, ph_volume = 100\<rparr>,
       \<lparr>ph_instrument = ''i'', ph_timestamp = midnight 10, ph_open = 5, ph_high = 6, ph_low = 5, ph_close = 6, ph_volume = 200\<rparr>],
     cs_audit = [], cs_keys = [''tech:i:rsi'', ''tech:j:rsi'']\<rparr>"

lemma scan_1_ok: "scan_ok scan_1"
  by (auto simp: scan_ok_def scan_1_def)

theorem split_applied_once_witness:
  "fst (apply_split casts_1 730 scan_1 (the (fst (detect_from_adjustment_factor ''a'' ''i'' 10 (Dec 5 (-1)) None None corp_1)))
      None (snd (detect_from_adjustment_factor ''a'' ''i'' 10 (Dec 5 (-1)) None None corp_1))) = Inr 1 \<and>
   set (cs_keys (snd (apply_split casts_1 730 scan_1 (the (fst (detect_from_adjustment_factor ''a'' ''i'' 10 (Dec 5 (-1)) None None corp_1)))
      None (snd (detect_from_adjustment_factor ''a'' ''i'' 10 (Dec 5 (-1)) None None corp_1))))) = {''tech:j:rsi''}"
proof -
  have w: "dec_val (Dec 5 (-1)) \<noteq> 1" "\<forall>a \<in> set (cs_actions corp_1). ca_id a \<noteq> ''a''"
    "\<not> occurs_in ''[applied]'' (case None of None \<Rightarrow> [] | Some n \<Rightarrow> n)"
    by (simp_all add: dec_val_def corp_1_def power_int_minus)
  have keys: "{k \<in> set (cs_keys corp_1). take (length (''tech:'' @ ''i'' @ '':'')) k \<noteq> ''tech:'' @ ''i'' @ '':''} = {''tech:j:rsi''}"
    by (auto simp: corp_1_def)
  have rows: "filter (\<lambda>p. ph_instrument p = ''i'' \<and> midnight (10 - 730) \<le> ph_timestamp p \<and> ph_timestamp p < midnight 10)
      (cs_prices corp_1) = [hd (cs_prices corp_1)]"
    by (simp add: corp_1_def midnight_def day_us_def)
  show ?thesis
    using split_applied_once[OF w scan_1_ok, where h = 730 and inst = "''i''" and ex = 10 and cc = casts_1 and
        u = None and currency = None]
    unfolding keys rows by (elim conjE) (intro conjI, simp_all only: length_Cons list.size One_nat_def of_nat_Suc of_nat_0, simp_all)
qed

text \<open>The service counts a partially filled order with its full quantity: a change of four that four
  filled shares of an order of ten explain is flagged as a corporate action.\<close>

definition partial_order :: order_row where
  "partial_order = \<lparr>or_connection = ''c'', or_instrument = ''i'', or_side = ''buy'', or_type = ''limit'', or_quantity = 10,
     or_limit_price = None, or_status = ''partial'', or_broker_id = None, or_idem_key = ''k'', or_created_at = 5\<rparr>"

lemma partial_fill_flagged:
  "fst (detect_broker_position_anomaly [partial_order] 9 ''a'' ''c'' ''i'' (Dec 6 0) (Dec 10 0) 1 None corp_1) \<noteq> None"
  by code_simp

text \<open>Filled orders that add up to the change never flag it.\<close>

lemma explained_not_flagged:
  assumes "dsum (map signed_quantity (explaining_orders orders conn inst since
      (case observed of Some t \<Rightarrow> t | None \<Rightarrow> now))) = dsub (dec_val new) (dec_val prev)"
  shows "detect_broker_position_anomaly orders now i conn inst prev new since observed s = (None, s)"
  using assms by (simp add: detect_broker_position_anomaly_def Let_def QTY_ANOMALY_TOLERANCE_def dsub_def)

end
