(* ===== verification/Encryption.thy ===== *)
theory Encryption
  imports PyText
begin

text \<open>
  Encryption of the broker tokens (\<open>services/encryption.py\<close>): the list of master keys in the
  settings, the key of a user, the blob and its decryption under a rotated key list. HKDF and AES-GCM
  are the cryptography package's and a parameter (\<open>cipher\<close>); base64 and UTF-8 are Python's and
  defined here. Byte strings are char lists, and a text is its UTF-8 encoding, as elsewhere.
\<close>

section \<open>base64, UTF-8 and UUID bytes\<close>

text \<open>\<open>base64.urlsafe_b64decode\<close>: characters outside the alphabet are skipped; \<open>quad\<close> counts the
  characters of the current group, \<open>left\<close> holds its bits not yet written. \<open>None\<close> is the
  \<open>binascii.Error\<close>.\<close>

definition b64_alphabet :: string where
  "b64_alphabet = upper_letters @ lower_letters @ ''0123456789+/''"

definition b64_val :: "char \<Rightarrow> nat option" where
  "b64_val c = map_of (zip b64_alphabet [0..<64])
     (if c = CHR ''-'' then CHR ''+'' else if c = CHR ''_'' then CHR ''/'' else c)"

fun a2b_base64 :: "nat \<Rightarrow> nat \<Rightarrow> nat \<Rightarrow> string \<Rightarrow> string option" where
  "a2b_base64 quad left pads [] = (if quad = 0 then Some [] else None)"
| "a2b_base64 quad left pads (c # cs) =
     (if c = CHR ''='' then
        (if 2 \<le> quad then (if 4 \<le> quad + (pads + 1) then Some [] else a2b_base64 quad left (pads + 1) cs)
         else a2b_base64 quad left pads cs)
      else
        (case b64_val c of
           None \<Rightarrow> a2b_base64 quad left pads cs
         | Some v \<Rightarrow>
             if quad = 0 then a2b_base64 1 v 0 cs
             else if quad = 1 then map_option ((#) (char_of (left * 4 + v div 16))) (a2b_base64 2 (v mod 16) 0 cs)
             else if quad = 2 then map_option ((#) (char_of (left * 16 + v div 4))) (a2b_base64 3 (v mod 4) 0 cs)
             else map_option ((#) (char_of (left * 64 + v))) (a2b_base64 0 0 0 cs)))"

definition urlsafe_b64decode :: "string \<Rightarrow> string option" where
  "urlsafe_b64decode raw = a2b_base64 0 0 0 raw"

text \<open>Whether \<open>bytes.decode("utf-8")\<close> succeeds.\<close>

definition utf8_tail :: "nat \<Rightarrow> bool" where
  "utf8_tail b \<longleftrightarrow> 128 \<le> b \<and> b < 192"

fun utf8_valid :: "nat list \<Rightarrow> bool" where
  "utf8_valid [] = True"
| "utf8_valid (a # bs) =
     (if a < 128 then utf8_valid bs
      else if 194 \<le> a \<and> a < 224 then
        (case bs of b # r \<Rightarrow> utf8_tail b \<and> utf8_valid r | _ \<Rightarrow> False)
      else if 224 \<le> a \<and> a < 240 then
        (case bs of b # c # r \<Rightarrow> utf8_tail b \<and> utf8_tail c \<and> (a = 224 \<longrightarrow> 160 \<le> b) \<and> (a = 237 \<longrightarrow> b < 160) \<and> utf8_valid r
         | _ \<Rightarrow> False)
      else if 240 \<le> a \<and> a < 245 then
        (case bs of b # c # d # r \<Rightarrow> utf8_tail b \<and> utf8_tail c \<and> utf8_tail d \<and> (a = 240 \<longrightarrow> 144 \<le> b) \<and>
           (a = 244 \<longrightarrow> b < 144) \<and> utf8_valid r
         | _ \<Rightarrow> False)
      else False)"

definition decode_utf8 :: "string \<Rightarrow> string option" where
  "decode_utf8 bs = (if utf8_valid (map of_char bs) then Some bs else None)"

text \<open>\<open>UUID.bytes\<close> of the canonical text.\<close>

fun hex_bytes :: "string \<Rightarrow> string" where
  "hex_bytes (a # b # cs) =
     (case (hex_val a, hex_val b) of (Some x, Some y) \<Rightarrow> char_of (16 * x + y) # hex_bytes cs | _ \<Rightarrow> hex_bytes cs)"
| "hex_bytes _ = []"

definition uuid_bytes :: "uuid \<Rightarrow> string" where
  "uuid_bytes u = hex_bytes (filter (\<lambda>c. c \<noteq> CHR ''-'') u)"

section \<open>Master keys\<close>

definition VERSION :: char where "VERSION = CHR 0x01"
definition NONCE_LEN :: nat where "NONCE_LEN = 12"
definition KEY_LEN :: nat where "KEY_LEN = 32"
definition HKDF_INFO :: string where "HKDF_INFO = ''investiq/broker-token/v1''"
definition HKDF_SALT_PREFIX :: string where "HKDF_SALT_PREFIX = ''investiq/hkdf-salt/v1/''"

text \<open>An \<open>EncryptionError\<close> is its message.\<close>

definition decode_master_key :: "string \<Rightarrow> string + string" where
  "decode_master_key raw =
     (case urlsafe_b64decode raw of
        None \<Rightarrow> Inl ''MASTER_ENCRYPTION_KEY is not valid base64''
      | Some key \<Rightarrow>
          if length key \<noteq> KEY_LEN
          then Inl (''MASTER_ENCRYPTION_KEY must decode to '' @ nat_str KEY_LEN @ '' bytes, got '' @ nat_str (length key))
          else Inr key)"

text \<open>\<open>raw.split(",")\<close>.\<close>

fun split_on :: "char \<Rightarrow> string \<Rightarrow> string list" where
  "split_on sep [] = [[]]"
| "split_on sep (c # cs) =
     (if c = sep then [] # split_on sep cs
      else (case split_on sep cs of [] \<Rightarrow> [[c]] | w # ws \<Rightarrow> (c # w) # ws))"

fun decode_all :: "string list \<Rightarrow> string + string list" where
  "decode_all [] = Inr []"
| "decode_all (p # ps) = bind_res (decode_master_key p) (\<lambda>k. bind_res (decode_all ps) (\<lambda>ks. Inr (k # ks)))"

definition read_master_keys :: "string option \<Rightarrow> string + string list" where
  "read_master_keys setting =
     (let raw = str_strip (case setting of None \<Rightarrow> [] | Some s \<Rightarrow> s)
      in if raw = [] then Inl ''MASTER_ENCRYPTION_KEY is not configured''
         else (let parts = filter (\<lambda>p. p \<noteq> []) (map str_strip (split_on CHR '','' raw))
               in if parts = [] then Inl ''MASTER_ENCRYPTION_KEY is empty after parsing''
                  else decode_all parts))"

text \<open>The cached list, which only \<open>reset_master_key_cache\<close> drops; an exception is not cached.\<close>

type_synonym key_list_cache = "string list option"

definition master_keys :: "string option \<Rightarrow> key_list_cache \<Rightarrow> (string + string list) \<times> key_list_cache" where
  "master_keys setting st =
     (case st of
        Some ks \<Rightarrow> (Inr ks, st)
      | None \<Rightarrow> (case read_master_keys setting of Inl e \<Rightarrow> (Inl e, None) | Inr ks \<Rightarrow> (Inr ks, Some ks)))"

definition reset_master_key_cache :: "key_list_cache \<Rightarrow> key_list_cache" where
  "reset_master_key_cache st = None"

section \<open>Tokens\<close>

text \<open>\<open>ci_derive master salt info\<close> is HKDF-SHA256 with 32 bytes, \<open>ci_seal key nonce text\<close> and
  \<open>ci_unseal key nonce text\<close> are AES-GCM without associated data; \<open>None\<close> is \<open>InvalidTag\<close>.\<close>

record cipher =
  ci_derive :: "string \<Rightarrow> string \<Rightarrow> string \<Rightarrow> string"
  ci_seal :: "string \<Rightarrow> string \<Rightarrow> string \<Rightarrow> string"
  ci_unseal :: "string \<Rightarrow> string \<Rightarrow> string \<Rightarrow> string option"

definition derive_user_key :: "cipher \<Rightarrow> string \<Rightarrow> uuid \<Rightarrow> string" where
  "derive_user_key C master user_id = ci_derive C master (HKDF_SALT_PREFIX @ uuid_bytes user_id) HKDF_INFO"

definition encrypt_token ::
  "cipher \<Rightarrow> string option \<Rightarrow> string \<Rightarrow> string \<Rightarrow> uuid \<Rightarrow> key_list_cache \<Rightarrow> (string + string) \<times> key_list_cache" where
  "encrypt_token C setting nonce plaintext user_id st =
     (if plaintext = [] then (Inl ''plaintext must be non-empty'', st)
      else (case master_keys setting st of
              (Inl e, st') \<Rightarrow> (Inl e, st')
            | (Inr ks, st') \<Rightarrow>
                (let key = derive_user_key C (ks ! 0) user_id
                 in (Inr ([VERSION, CHR 0x00] @ nonce @ ci_seal C key nonce plaintext), st'))))"

fun try_keys :: "cipher \<Rightarrow> uuid \<Rightarrow> string \<Rightarrow> string \<Rightarrow> string list \<Rightarrow> string option" where
  "try_keys C user_id nonce ciphertext [] = None"
| "try_keys C user_id nonce ciphertext (master # ms) =
     (case Option.bind (ci_unseal C (derive_user_key C master user_id) nonce ciphertext) decode_utf8 of
        Some pt \<Rightarrow> Some pt
      | None \<Rightarrow> try_keys C user_id nonce ciphertext ms)"

definition decrypt_token ::
  "cipher \<Rightarrow> string option \<Rightarrow> string \<Rightarrow> uuid \<Rightarrow> key_list_cache \<Rightarrow> (string + string) \<times> key_list_cache" where
  "decrypt_token C setting blob user_id st =
     (if length blob < 2 + NONCE_LEN + 16 then (Inl ''ciphertext blob is too short'', st)
      else if blob ! 0 \<noteq> VERSION
      then (Inl (''unsupported blob version '' @ nat_str (of_char (blob ! 0))), st)
      else
        (let nonce = take NONCE_LEN (drop 2 blob); ciphertext = drop (2 + NONCE_LEN) blob
         in case master_keys setting st of
              (Inl e, st') \<Rightarrow> (Inl e, st')
            | (Inr ks, st') \<Rightarrow>
                ((case try_keys C user_id nonce ciphertext ks of
                    Some pt \<Rightarrow> Inr pt
                  | None \<Rightarrow> Inl ''decryption failed under all configured master keys''), st')))"

section \<open>Lemmas\<close>

lemma split_on_nonempty [simp]: "split_on sep cs \<noteq> []"
  by (induction cs) (auto split: list.splits)

lemma split_on_append: "sep \<notin> set xs \<Longrightarrow> split_on sep (xs @ sep # ys) = xs # split_on sep ys"
  by (induction xs) auto

lemma decode_all_nonempty: "decode_all ps = Inr ks \<Longrightarrow> length ks = length ps"
  by (induction ps arbitrary: ks) (auto simp: bind_res_Inr_iff)

text \<open>A key list that was read is not empty, so the primary key exists.\<close>

lemma read_master_keys_nonempty: "read_master_keys setting = Inr ks \<Longrightarrow> ks \<noteq> []"
  using decode_all_nonempty[of _ "[]"] by (cases ks) (fastforce simp: read_master_keys_def Let_def split: if_splits)+

text \<open>Every master key has 32 bytes.\<close>

lemma decode_all_length: "decode_all ps = Inr ks \<Longrightarrow> k \<in> set ks \<Longrightarrow> length k = KEY_LEN"
  by (induction ps arbitrary: ks)
    (auto simp: bind_res_Inr_iff decode_master_key_def split: option.splits if_splits)

lemma str_strip_ends:
  assumes "str_strip v = v" "v \<noteq> []"
  shows "\<not> is_space (hd v)" "\<not> is_space (last v)"
proof -
  let ?w = "dropWhile is_space v" and ?u = "dropWhile is_space (rev (dropWhile is_space v))"
  have v: "v = rev ?u" using assms(1) by (simp add: str_strip_def)
  then have u: "?u \<noteq> []" using assms(2) by (metis rev.simps(1))
  then have "\<not> is_space (hd ?u)" by (rule hd_dropWhile)
  then show "\<not> is_space (last v)" using u v by (metis last_rev)
  have "rev ?w = takeWhile is_space (rev ?w) @ ?u" by simp
  then have "?w = rev ?u @ rev (takeWhile is_space (rev ?w))" by (metis rev_append rev_rev_ident)
  then have w: "?w = v @ rev (takeWhile is_space (rev ?w))" using v by simp
  then have "hd ?w = hd v" using assms(2) by (metis hd_append2)
  moreover have "?w \<noteq> []" using w assms(2) by (metis append_is_Nil_conv)
  ultimately show "\<not> is_space (hd v)" using hd_dropWhile[of is_space v] by simp
qed

lemma str_strip_append:
  assumes "str_strip xs = xs" "xs \<noteq> []" "str_strip ys = ys" "ys \<noteq> []"
  shows "str_strip (xs @ zs @ ys) = xs @ zs @ ys"
proof -
  obtain x xs' where x: "xs = x # xs'" using assms(2) by (cases xs) auto
  obtain y ys' where y: "rev ys = y # ys'" using assms(4) by (cases "rev ys") auto
  have "last ys = y" using y by (metis last_rev list.sel(1) rev_rev_ident rev_is_Nil_conv list.distinct(1))
  then have "\<not> is_space x" "\<not> is_space y"
    using str_strip_ends[OF assms(1,2)] str_strip_ends[OF assms(3,4)] by (simp_all add: x)
  then have "str_strip (xs @ zs @ ys) = rev (rev ys @ rev zs @ rev xs)"
    by (simp add: str_strip_def x) (simp add: y)
  then show ?thesis by simp
qed

text \<open>Putting a new key before the old ones keeps the old ones.\<close>

lemma read_rotated:
  assumes old: "read_master_keys (Some cfg) = Inr ks" "str_strip cfg = cfg"
    and new: "str_strip s = s" "CHR '','' \<notin> set s" "decode_master_key s = Inr k"
  shows "read_master_keys (Some (s @ '','' @ cfg)) = Inr (k # ks)"
proof -
  have s: "s \<noteq> []"
    using new(3) by (auto simp: decode_master_key_def urlsafe_b64decode_def KEY_LEN_def split: if_splits)
  have c: "cfg \<noteq> []" using old by (auto simp: read_master_keys_def str_strip_def Let_def)
  have "str_strip (s @ '','' @ cfg) = s @ '','' @ cfg" by (rule str_strip_append[OF new(1) s old(2) c])
  moreover have "split_on CHR '','' (s @ '','' @ cfg) = s # split_on CHR '','' cfg" using new(2) by (simp add: split_on_append)
  ultimately show ?thesis using old new s c by (auto simp: read_master_keys_def Let_def split: if_splits)
qed

text \<open>A key list finds the text as soon as one of its keys opens the blob and those before do not.\<close>

lemma try_keys_found:
  assumes "\<forall>k' \<in> set pre. ci_unseal C (derive_user_key C k' u) n c = None"
    and "ci_unseal C (derive_user_key C k u) n c = Some pt" "decode_utf8 pt = Some pt"
  shows "try_keys C u n c (pre @ k # post) = Some pt"
  using assms by (induction pre) auto

text \<open>What the code relies on of AES-GCM: opening undoes sealing, and the tag takes 16 bytes.\<close>

definition aead_ok :: "cipher \<Rightarrow> bool" where
  "aead_ok C \<longleftrightarrow> (\<forall>k n p. ci_unseal C k n (ci_seal C k n p) = Some p \<and> length (ci_seal C k n p) = length p + 16)"

lemma decrypt_blob:
  assumes "aead_ok C" "length nonce = 12"
  shows "decrypt_token C setting ([VERSION, CHR 0x00] @ nonce @ ci_seal C key nonce pt) u st =
    (case master_keys setting st of (Inl e, st') \<Rightarrow> (Inl e, st')
     | (Inr ks, st') \<Rightarrow> ((case try_keys C u nonce (ci_seal C key nonce pt) ks of Some t \<Rightarrow> Inr t
         | None \<Rightarrow> Inl ''decryption failed under all configured master keys''), st'))"
  using assms by (simp add: decrypt_token_def NONCE_LEN_def aead_ok_def)

lemma master_keys_fresh: "read_master_keys setting = Inr ks \<Longrightarrow> master_keys setting None = (Inr ks, Some ks)"
  by (simp add: master_keys_def)

section \<open>Properties\<close>

text \<open>C18. A token survives key rotation: encrypted under a configuration, it decrypts to the same text under
  that configuration and under the one with a new key put in front (after the key cache was reset),
  provided AES-GCM rejects the new key with \<open>InvalidTag\<close>, or the new key is the old one; the blob is
  the version, the key id 0, the nonce and the sealed text, 30 bytes longer than the text. Without the
  reset the process keeps encrypting under the old primary key.\<close>

theorem token_survives_rotation:
  assumes C: "aead_ok C" and nonce: "length nonce = 12" and pt: "pt \<noteq> []" "decode_utf8 pt = Some pt"
    and old: "read_master_keys (Some cfg) = Inr ks" "str_strip cfg = cfg"
    and new: "str_strip s = s" "CHR '','' \<notin> set s" "decode_master_key s = Inr k"
    and rejects: "ci_unseal C (derive_user_key C k u) nonce (ci_seal C (derive_user_key C (hd ks) u) nonce pt) = None \<or> k = hd ks"
  shows "\<exists>blob. encrypt_token C (Some cfg) nonce pt u None = (Inr blob, Some ks) \<and>
    length blob = length pt + 30 \<and>
    fst (decrypt_token C (Some cfg) blob u None) = Inr pt \<and>
    fst (decrypt_token C (Some (s @ '','' @ cfg)) blob u (reset_master_key_cache (Some ks))) = Inr pt \<and>
    encrypt_token C (Some (s @ '','' @ cfg)) nonce pt u (Some ks) = (Inr blob, Some ks)"
proof -
  define seal where "seal = ci_seal C (derive_user_key C (hd ks) u) nonce pt"
  define blob where "blob = [VERSION, CHR 0x00] @ nonce @ seal"
  obtain rest where ks: "ks = hd ks # rest" using read_master_keys_nonempty[OF old(1)] by (cases ks) auto
  then have hd: "ks ! 0 = hd ks" by (metis nth_Cons_0)
  have opens: "ci_unseal C (derive_user_key C (hd ks) u) nonce seal = Some pt" using C by (simp add: seal_def aead_ok_def)
  have enc: "encrypt_token C setting nonce pt u st = (Inr blob, Some ks)" if "master_keys setting st = (Inr ks, Some ks)" for setting st
    using pt(1) that by (simp add: encrypt_token_def blob_def seal_def Let_def hd)
  have dec: "fst (decrypt_token C setting blob u None) = Inr pt"
    if "read_master_keys setting = Inr ks'" "try_keys C u nonce seal ks' = Some pt" for setting ks'
    using that decrypt_blob[OF C nonce] unfolding blob_def seal_def by (simp add: master_keys_fresh)
  have "try_keys C u nonce seal ([] @ hd ks # rest) = Some pt"
    by (rule try_keys_found) (simp_all add: opens pt(2))
  then have t1: "try_keys C u nonce seal ks = Some pt" using ks by simp
  have t2: "try_keys C u nonce seal (k # ks) = Some pt"
  proof (cases "k = hd ks")
    case True
    then show ?thesis using opens pt(2) by simp
  next
    case False
    then show ?thesis using rejects t1 by (simp add: seal_def)
  qed
  have "length blob = length pt + 30" using C nonce by (simp add: blob_def seal_def aead_ok_def)
  then show ?thesis
    using enc[OF master_keys_fresh[OF old(1)]] dec[OF old(1) t1] dec[OF read_rotated[OF old new] t2]
      enc[of "Some (s @ '','' @ cfg)" "Some ks"]
    by (intro exI[of _ blob]) (simp add: reset_master_key_cache_def master_keys_def)
qed

definition cipher_1 :: cipher where
  "cipher_1 = \<lparr>ci_derive = (\<lambda>m salt info. m),
     ci_seal = (\<lambda>k n p. take 16 (k @ replicate 16 CHR ''0'') @ p),
     ci_unseal = (\<lambda>k n c. if take 16 c = take 16 (k @ replicate 16 CHR ''0'') then Some (drop 16 c) else None)\<rparr>"

definition key_a :: string where "key_a = ''AAAAAAAAAAAAAAAAAAAAAAAAAAAAAAAAAAAAAAAAAAA=''"
definition key_b :: string where "key_b = ''BBBBBBBBBBBBBBBBBBBBBBBBBBBBBBBBBBBBBBBBBBB=''"

lemma cipher_1_ok: "aead_ok cipher_1"
  by (auto simp: aead_ok_def cipher_1_def min_def)

lemma keys_read:
  "read_master_keys (Some key_a) = Inr [replicate 32 (CHR 0x00)]"
  "decode_master_key key_b = Inr (concat (replicate 10 [CHR 0x04, CHR 0x10, CHR 0x41]) @ [CHR 0x04, CHR 0x10])"
  "str_strip key_a = key_a" "str_strip key_b = key_b" "CHR '','' \<notin> set key_b"
  "decode_utf8 ''token'' = Some ''token''"
  by code_simp+

theorem token_survives_rotation_witness:
  "\<exists>blob. encrypt_token cipher_1 (Some key_a) ''123456789012'' ''token'' ''u'' None = (Inr blob, Some [replicate 32 (CHR 0x00)]) \<and>
    fst (decrypt_token cipher_1 (Some (key_b @ '','' @ key_a)) blob ''u'' (reset_master_key_cache (Some [replicate 32 (CHR 0x00)]))) =
      Inr ''token''"
proof -
  have "ci_unseal cipher_1 (derive_user_key cipher_1 (concat (replicate 10 [CHR 0x04, CHR 0x10, CHR 0x41]) @ [CHR 0x04, CHR 0x10]) ''u'')
      ''123456789012'' (ci_seal cipher_1 (derive_user_key cipher_1 (hd [replicate 32 (CHR 0x00)]) ''u'') ''123456789012'' ''token'') = None"
    by code_simp
  then show ?thesis
    using token_survives_rotation[OF cipher_1_ok _ _ keys_read(6) keys_read(1,3,4,5,2), of "''123456789012''" "''u''"]
    by auto
qed

text \<open>A blob of another version or one too short for a tag is refused before any key is used.\<close>

lemma short_blob_refused:
  "length blob < 30 \<Longrightarrow> decrypt_token C setting blob u st = (Inl ''ciphertext blob is too short'', st)"
  by (simp add: decrypt_token_def NONCE_LEN_def)

lemma unknown_version_refused:
  "30 \<le> length blob \<Longrightarrow> blob ! 0 \<noteq> VERSION \<Longrightarrow>
     decrypt_token C setting blob u st = (Inl (''unsupported blob version '' @ nat_str (of_char (blob ! 0))), st)"
  by (simp add: decrypt_token_def NONCE_LEN_def)

end
