(* ===== verification/Calendar.thy ===== *)
theory Calendar
  imports Models PyDate
begin

text \<open>
  The market calendar: \<open>services/calendar.py\<close>, its routes (\<open>api/calendar.py\<close>) and the weekly
  comparison with the overrides (\<open>tasks/calendar_verify.py\<close>). The exchange_calendars library is a
  parameter (\<open>xcal\<close>) that answers \<open>None\<close> where it raises; the overrides are the rows of
  their table. Instants are aware, so the check for naive datetimes has no counterpart.
\<close>

section \<open>The library, the overrides and the errors\<close>

text \<open>Per MIC: the local date of an instant, whether a date is a session, its open and close, and
  whether an instant is a trading minute.\<close>

record xcal =
  xc_local_date :: "string \<Rightarrow> instant \<Rightarrow> day"
  xc_is_session :: "string \<Rightarrow> day \<Rightarrow> bool option"
  xc_open :: "string \<Rightarrow> day \<Rightarrow> instant"
  xc_close :: "string \<Rightarrow> day \<Rightarrow> instant"
  xc_trading_minute :: "string \<Rightarrow> instant \<Rightarrow> bool option"

record override_row =
  ov_exchange :: string
  ov_date :: day
  ov_is_open :: bool
  ov_reason :: "string option"

datatype cal_error = ExchangeRequired | UnsupportedExchange string | DateOutOfBounds | QueryError query_error
  | NoUpcomingClose string instant

definition SUPPORTED_EXCHANGES :: "string list" where
  "SUPPORTED_EXCHANGES = [''XNYS'', ''XNAS'', ''XBOM'']"

definition SEED_TO_MIC :: "(string, string) dict" where
  "SEED_TO_MIC = [(''NYSE'', ''XNYS''), (''NASDAQ'', ''XNAS''), (''ARCX'', ''XNYS''), (''BATS'', ''XNYS''),
     (''BSE'', ''XBOM''), (''NSE'', ''XBOM'')]"

definition normalize_exchange :: "string \<Rightarrow> cal_error + string" where
  "normalize_exchange value =
     (if value = [] then Inl ExchangeRequired
      else
        (let upper = str_upper (str_strip value)
         in if upper \<in> set SUPPORTED_EXCHANGES then Inr upper
            else (case map_of SEED_TO_MIC upper of
                    None \<Rightarrow> Inl (UnsupportedExchange value)
                  | Some mapped \<Rightarrow> Inr mapped)))"

definition typical_session_minutes :: "string \<Rightarrow> rat" where
  "typical_session_minutes mic =
     dict_get [(''XNYS'', 390), (''XNAS'', 390), (''XBOM'', 375)] mic 390"

section \<open>The service\<close>

record session_hours =
  sh_exchange :: string
  sh_date :: day
  sh_is_open :: bool
  sh_open :: "instant option"
  sh_close :: "instant option"
  sh_half_day :: bool
  sh_source :: string

definition override_for :: "override_row list \<Rightarrow> string \<Rightarrow> day \<Rightarrow> cal_error + override_row option" where
  "override_for rows exchange on =
     (case scalar_one_or_none (filter (\<lambda>r. ov_exchange r = exchange \<and> ov_date r = on) rows) of
        Inl e \<Rightarrow> Inl (QueryError e)
      | Inr ov \<Rightarrow> Inr ov)"

definition forced_closed :: "override_row option \<Rightarrow> bool" where
  "forced_closed ov = (case ov of None \<Rightarrow> False | Some r \<Rightarrow> \<not> ov_is_open r)"

definition is_market_open :: "xcal \<Rightarrow> override_row list \<Rightarrow> string \<Rightarrow> instant \<Rightarrow> cal_error + bool" where
  "is_market_open lib rows exchange ts =
     bind_res (normalize_exchange exchange) (\<lambda>mic.
     bind_res (override_for rows mic (xc_local_date lib mic ts)) (\<lambda>ov.
       if forced_closed ov then Inr False
       else
         (let is_session = (case xc_trading_minute lib mic ts of None \<Rightarrow> False | Some b \<Rightarrow> b)
          in if ov \<noteq> None then Inr is_session else Inr is_session)))"

definition no_session :: "string \<Rightarrow> day \<Rightarrow> string \<Rightarrow> session_hours" where
  "no_session mic on source = \<lparr>sh_exchange = mic, sh_date = on, sh_is_open = False, sh_open = None, sh_close = None,
     sh_half_day = False, sh_source = source\<rparr>"

definition half_day :: "string \<Rightarrow> instant \<Rightarrow> instant \<Rightarrow> bool" where
  "half_day mic open_utc close_utc \<longleftrightarrow>
     fdiv (f64 (of_int (close_utc - open_utc) / 10 ^ 6)) 60 < fsub (typical_session_minutes mic) 60"

definition get_session_hours :: "xcal \<Rightarrow> override_row list \<Rightarrow> string \<Rightarrow> day \<Rightarrow> cal_error + session_hours" where
  "get_session_hours lib rows exchange on =
     bind_res (normalize_exchange exchange) (\<lambda>mic.
     bind_res (override_for rows mic on) (\<lambda>ov.
       if forced_closed ov then Inr (no_session mic on ''override'')
       else
         (case xc_is_session lib mic on of
            None \<Rightarrow> Inl DateOutOfBounds
          | Some False \<Rightarrow> Inr (no_session mic on ''closed'')
          | Some True \<Rightarrow>
              (let open_utc = xc_open lib mic on; close_utc = xc_close lib mic on
               in Inr \<lparr>sh_exchange = mic, sh_date = on, sh_is_open = True, sh_open = Some open_utc,
                    sh_close = Some close_utc, sh_half_day = half_day mic open_utc close_utc,
                    sh_source = (if ov \<noteq> None then ''override'' else ''library'')\<rparr>))))"

fun close_search :: "xcal \<Rightarrow> override_row list \<Rightarrow> string \<Rightarrow> instant \<Rightarrow> nat \<Rightarrow> day \<Rightarrow> cal_error + instant" where
  "close_search lib rows mic ts 0 candidate = Inl (NoUpcomingClose mic ts)"
| "close_search lib rows mic ts (Suc n) candidate =
     bind_res (get_session_hours lib rows mic candidate) (\<lambda>hours.
       case sh_close hours of
         Some c \<Rightarrow> if sh_is_open hours \<and> ts \<le> c then Inr c else close_search lib rows mic ts n (candidate + 1)
       | None \<Rightarrow> close_search lib rows mic ts n (candidate + 1))"

definition next_session_close :: "xcal \<Rightarrow> override_row list \<Rightarrow> string \<Rightarrow> instant \<Rightarrow> cal_error + instant" where
  "next_session_close lib rows exchange ts =
     bind_res (normalize_exchange exchange) (\<lambda>mic. close_search lib rows mic ts 20 (xc_local_date lib mic ts))"

text \<open>The PostgreSQL branch: insert, or update the row of the same exchange and date.\<close>

definition record_unexpected_closed ::
  "string \<Rightarrow> day \<Rightarrow> string \<Rightarrow> override_row list \<Rightarrow> cal_error + override_row list" where
  "record_unexpected_closed exchange on reason rows =
     bind_res (normalize_exchange exchange) (\<lambda>mic.
       if \<exists>r \<in> set rows. ov_exchange r = mic \<and> ov_date r = on
       then Inr (map (\<lambda>r. if ov_exchange r = mic \<and> ov_date r = on
                          then r\<lparr>ov_is_open := False, ov_reason := Some reason\<rparr> else r) rows)
       else Inr (rows @ [\<lparr>ov_exchange = mic, ov_date = on, ov_is_open = False, ov_reason = Some reason\<rparr>]))"

section \<open>The routes\<close>

datatype api_error = BadRequest cal_error | NotFound cal_error | ServerError cal_error

definition normalize_or_400 :: "string \<Rightarrow> api_error + string" where
  "normalize_or_400 exchange = (case normalize_exchange exchange of Inl e \<Rightarrow> Inl (BadRequest e) | Inr mic \<Rightarrow> Inr mic)"

definition or_500 :: "cal_error + 'a \<Rightarrow> api_error + 'a" where
  "or_500 r = (case r of Inl e \<Rightarrow> Inl (ServerError e) | Inr a \<Rightarrow> Inr a)"

definition is_open_route :: "xcal \<Rightarrow> override_row list \<Rightarrow> string \<Rightarrow> instant \<Rightarrow> api_error + (bool \<times> string)" where
  "is_open_route lib rows exchange ts =
     bind_res (normalize_or_400 exchange) (\<lambda>mic.
     bind_res (or_500 (override_for rows mic (date_of ts))) (\<lambda>ov.
     bind_res (or_500 (is_market_open lib rows mic ts)) (\<lambda>is_op.
       Inr (is_op, if ov \<noteq> None then ''override'' else ''library''))))"

definition session_hours_route :: "xcal \<Rightarrow> override_row list \<Rightarrow> string \<Rightarrow> day \<Rightarrow> api_error + session_hours" where
  "session_hours_route lib rows exchange on =
     bind_res (normalize_or_400 exchange) (\<lambda>mic. or_500 (get_session_hours lib rows mic on))"

definition next_close_route ::
  "xcal \<Rightarrow> override_row list \<Rightarrow> instant \<Rightarrow> string \<Rightarrow> instant option \<Rightarrow> api_error + (instant \<times> bool)" where
  "next_close_route lib rows now exchange ts_utc =
     bind_res (normalize_or_400 exchange) (\<lambda>mic.
       let ts = (case ts_utc of Some t \<Rightarrow> t | None \<Rightarrow> now)
       in case next_session_close lib rows mic ts of
            Inl (NoUpcomingClose m t) \<Rightarrow> Inl (NotFound (NoUpcomingClose m t))
          | Inl e \<Rightarrow> Inl (ServerError e)
          | Inr c \<Rightarrow> bind_res (or_500 (get_session_hours lib rows mic (date_of c))) (\<lambda>h. Inr (c, sh_half_day h)))"

section \<open>The weekly verification\<close>

record drift =
  dr_exchange :: string
  dr_on :: day
  dr_library_open :: bool
  dr_override_open :: bool
  dr_reason :: string

fun verify_days :: "xcal \<Rightarrow> string \<Rightarrow> (day, override_row) dict \<Rightarrow> nat \<Rightarrow> day \<Rightarrow> cal_error + drift list" where
  "verify_days lib mic overrides 0 d = Inr []"
| "verify_days lib mic overrides (Suc n) d =
     (case xc_is_session lib mic d of
        None \<Rightarrow> Inl DateOutOfBounds
      | Some library_says_open \<Rightarrow>
          bind_res (verify_days lib mic overrides n (d + 1)) (\<lambda>rest.
            case map_of overrides d of
              None \<Rightarrow> Inr rest
            | Some r \<Rightarrow>
                if library_says_open \<noteq> ov_is_open r
                then Inr (\<lparr>dr_exchange = mic, dr_on = d, dr_library_open = library_says_open,
                       dr_override_open = ov_is_open r,
                       dr_reason = (case ov_reason r of None \<Rightarrow> ''(no reason recorded)''
                         | Some s \<Rightarrow> if s = [] then ''(no reason recorded)'' else s)\<rparr> # rest)
                else Inr rest))"

fun verify_calendars :: "xcal \<Rightarrow> override_row list \<Rightarrow> day \<Rightarrow> nat \<Rightarrow> string list \<Rightarrow> cal_error + drift list" where
  "verify_calendars lib rows today horizon_days [] = Inr []"
| "verify_calendars lib rows today horizon_days (mic # mics) =
     (let hits = filter (\<lambda>r. ov_exchange r = mic \<and> today \<le> ov_date r \<and> ov_date r \<le> today + int horizon_days) rows;
          overrides = foldl (\<lambda>d r. dict_set (ov_date r) r d) [] hits
      in bind_res (verify_days lib mic overrides (Suc horizon_days) today) (\<lambda>ds.
         bind_res (verify_calendars lib rows today horizon_days mics) (\<lambda>rest. Inr (ds @ rest))))"

section \<open>Lemmas\<close>

lemma normalize_exchange_mic: "normalize_exchange e = Inr mic \<Longrightarrow> mic \<in> set SUPPORTED_EXCHANGES"
  by (auto simp: normalize_exchange_def Let_def SEED_TO_MIC_def SUPPORTED_EXCHANGES_def split: if_splits option.splits)

lemma normalize_mics [simp]:
  "normalize_exchange ''XNYS'' = Inr ''XNYS''" "normalize_exchange ''XNAS'' = Inr ''XNAS''"
  "normalize_exchange ''XBOM'' = Inr ''XBOM''" "normalize_exchange ''NSE'' = Inr ''XBOM''"
  by code_simp+

text \<open>A MIC code is its own normal form.\<close>

lemma normalize_exchange_idem: "normalize_exchange e = Inr mic \<Longrightarrow> normalize_exchange mic = Inr mic"
  using normalize_exchange_mic[of e mic] by (auto simp: SUPPORTED_EXCHANGES_def)

definition override_key :: "override_row \<Rightarrow> string \<times> day" where
  "override_key r = (ov_exchange r, ov_date r)"

lemma override_key_iff: "ov_exchange r = m \<and> ov_date r = d \<longleftrightarrow> override_key r = (m, d)"
  by (simp add: override_key_def)

lemma override_key_update [simp]: "override_key (r\<lparr>ov_is_open := b, ov_reason := x\<rparr>) = override_key r"
  by (simp add: override_key_def)

lemma override_for_none: "(m, d) \<notin> override_key ` set rows \<Longrightarrow> override_for rows m d = Inr None"
  by (subgoal_tac "filter (\<lambda>r. override_key r = (m, d)) rows = []")
    (simp_all add: override_for_def override_key_iff filter_empty_conv image_iff, metis)

lemma override_for_row:
  assumes "distinct (map override_key rows)" "r \<in> set rows"
  shows "override_for rows (ov_exchange r) (ov_date r) = Inr (Some r)"
proof -
  have "override_key r = (ov_exchange r, ov_date r)" by (simp add: override_key_def)
  then show ?thesis using filter_key_distinct[OF assms] by (simp add: override_for_def override_key_iff)
qed

lemma record_unexpected_closed_rows:
  assumes u: "distinct (map override_key rows)" and n: "normalize_exchange e = Inr mic"
  obtains rows' where "record_unexpected_closed e d reason rows = Inr rows'"
    "distinct (map override_key rows')"
    "\<lparr>ov_exchange = mic, ov_date = d, ov_is_open = False, ov_reason = Some reason\<rparr> \<in> set rows'"
    "filter (\<lambda>r. override_key r \<noteq> (mic, d)) rows' = filter (\<lambda>r. override_key r \<noteq> (mic, d)) rows"
    "record_unexpected_closed e d reason rows' = Inr rows'"
proof (cases "\<exists>r \<in> set rows. override_key r = (mic, d)")
  case True
  define f where "f = (\<lambda>r. if override_key r = (mic, d) then r\<lparr>ov_is_open := False, ov_reason := Some reason\<rparr> else r)"
  have key [simp]: "override_key (f r) = override_key r" for r by (simp add: f_def override_key_def)
  have idem: "f (f r) = f r" for r by (simp add: f_def override_key_def)
  have rec: "record_unexpected_closed e d reason rows = Inr (map f rows)"
    using True n by (simp add: record_unexpected_closed_def override_key_iff f_def)
  have again: "record_unexpected_closed e d reason (map f rows) = Inr (map f (map f rows))"
    using True n by (simp add: record_unexpected_closed_def override_key_iff) (simp add: f_def)
  obtain r where r: "r \<in> set rows" "override_key r = (mic, d)" using True by blast
  have "f r = \<lparr>ov_exchange = mic, ov_date = d, ov_is_open = False, ov_reason = Some reason\<rparr>"
    using r(2) by (cases r) (simp add: f_def override_key_def)
  then have row: "\<lparr>ov_exchange = mic, ov_date = d, ov_is_open = False, ov_reason = Some reason\<rparr> \<in> set (map f rows)"
    using r(1) by force
  have "filter (\<lambda>r. override_key r \<noteq> (mic, d)) (map f rows) = filter (\<lambda>r. override_key r \<noteq> (mic, d)) rows"
    by (induction rows) (auto simp: f_def)
  then show ?thesis using that[OF rec _ row] u again by (simp add: comp_def idem)
next
  case False
  let ?r = "\<lparr>ov_exchange = mic, ov_date = d, ov_is_open = False, ov_reason = Some reason\<rparr>"
  have new: "override_key ?r = (mic, d)" by (simp add: override_key_def)
  have "map (\<lambda>r. if override_key r = (mic, d) then r\<lparr>ov_is_open := False, ov_reason := Some reason\<rparr> else r) rows = rows"
    using False by (intro map_idI) auto
  moreover have "(mic, d) \<notin> override_key ` set rows" using False by (metis imageE)
  ultimately show ?thesis using that[of "rows @ [?r]"] u n False new
    by (auto simp: record_unexpected_closed_def override_key_iff filter_id_conv)
qed

lemma get_session_hours_open:
  assumes "get_session_hours lib rows mic on = Inr h" "normalize_exchange mic = Inr mic" "sh_is_open h"
  shows "xc_is_session lib mic on = Some True \<and> sh_open h = Some (xc_open lib mic on) \<and>
    sh_close h = Some (xc_close lib mic on) \<and> (\<exists>ov. override_for rows mic on = Inr ov \<and> \<not> forced_closed ov)"
  using assms
  by (auto simp: get_session_hours_def bind_res_Inr_iff no_session_def Let_def split: if_splits option.splits bool.splits)

text \<open>The search returns the close of the first day that is open and closes at or after \<open>ts\<close>.\<close>

lemma close_search_first:
  assumes "close_search lib rows mic ts n d = Inr c" "normalize_exchange mic = Inr mic"
  shows "\<exists>on. d \<le> on \<and> on < d + int n \<and> c = xc_close lib mic on \<and> ts \<le> c \<and>
    (\<exists>h. get_session_hours lib rows mic on = Inr h \<and> sh_is_open h) \<and>
    (\<forall>e. d \<le> e \<and> e < on \<longrightarrow> (\<exists>h. get_session_hours lib rows mic e = Inr h \<and>
       (sh_is_open h \<longrightarrow> xc_close lib mic e < ts)))"
  using assms
proof (induction n arbitrary: d)
  case (Suc n)
  then obtain h where h: "get_session_hours lib rows mic d = Inr h" by (auto simp: bind_res_Inr_iff)
  show ?case
  proof (cases "sh_is_open h \<and> ts \<le> xc_close lib mic d")
    case True
    then have "c = xc_close lib mic d" using Suc.prems h get_session_hours_open[OF h] by simp
    then show ?thesis using True h by (intro exI[of _ d]) auto
  next
    case False
    have next_day: "close_search lib rows mic ts n (d + 1) = Inr c"
      using Suc.prems h False get_session_hours_open[OF h] by (auto split: option.splits if_splits)
    have close: "sh_is_open h \<longrightarrow> xc_close lib mic d < ts" using False by auto
    have "\<exists>on. d + 1 \<le> on \<and> on < d + 1 + int n \<and> c = xc_close lib mic on \<and> ts \<le> c \<and>
      (\<exists>h. get_session_hours lib rows mic on = Inr h \<and> sh_is_open h) \<and>
      (\<forall>e. d + 1 \<le> e \<and> e < on \<longrightarrow> (\<exists>h. get_session_hours lib rows mic e = Inr h \<and>
         (sh_is_open h \<longrightarrow> xc_close lib mic e < ts)))"
      by (rule Suc.IH[OF next_day Suc.prems(2)])
    then obtain on where on: "d + 1 \<le> on" "on < d + 1 + int n" "c = xc_close lib mic on" "ts \<le> c"
      "\<exists>h. get_session_hours lib rows mic on = Inr h \<and> sh_is_open h"
      "\<forall>e. d + 1 \<le> e \<and> e < on \<longrightarrow> (\<exists>h. get_session_hours lib rows mic e = Inr h \<and>
         (sh_is_open h \<longrightarrow> xc_close lib mic e < ts))" by blast
    have "\<exists>h. get_session_hours lib rows mic e = Inr h \<and> (sh_is_open h \<longrightarrow> xc_close lib mic e < ts)"
      if "d \<le> e" "e < on" for e
      using that on(6) h close by (cases "e = d") auto
    then show ?thesis using on by (intro exI[of _ on]) auto
  qed
qed simp

section \<open>Properties\<close>

text \<open>C19. A reported closure wins everywhere: after it is recorded the table still has one row per exchange
  and date, the other rows are as before and recording it again changes nothing; whatever the library
  says, the market is never open on that date, the date has no session, and the next session close is
  the first library close at or after the asked instant among the other days that no override
  closes, within 20 days.\<close>

theorem closure_wins:
  assumes u: "distinct (map override_key rows)" and n: "normalize_exchange e = Inr mic"
  shows "\<exists>rows'. record_unexpected_closed e d reason rows = Inr rows' \<and> distinct (map override_key rows') \<and>
    filter (\<lambda>r. override_key r \<noteq> (mic, d)) rows' = filter (\<lambda>r. override_key r \<noteq> (mic, d)) rows \<and>
    record_unexpected_closed e d reason rows' = Inr rows' \<and>
    (\<forall>lib ts. xc_local_date lib mic ts = d \<longrightarrow> is_market_open lib rows' e ts = Inr False) \<and>
    (\<forall>lib. get_session_hours lib rows' e d = Inr (no_session mic d ''override'')) \<and>
    (\<forall>lib ts c. next_session_close lib rows' e ts = Inr c \<longrightarrow>
      (\<exists>on. on \<noteq> d \<and> xc_local_date lib mic ts \<le> on \<and> on < xc_local_date lib mic ts + 20 \<and>
         xc_is_session lib mic on = Some True \<and> c = xc_close lib mic on \<and> ts \<le> c \<and>
         (\<forall>day. xc_local_date lib mic ts \<le> day \<and> day < on \<and> xc_is_session lib mic day = Some True \<and>
            (\<forall>ov. override_for rows' mic day = Inr ov \<longrightarrow> \<not> forced_closed ov) \<longrightarrow> xc_close lib mic day < ts)))"
proof -
  obtain rows' where r: "record_unexpected_closed e d reason rows = Inr rows'" "distinct (map override_key rows')"
    "\<lparr>ov_exchange = mic, ov_date = d, ov_is_open = False, ov_reason = Some reason\<rparr> \<in> set rows'"
    "filter (\<lambda>r. override_key r \<noteq> (mic, d)) rows' = filter (\<lambda>r. override_key r \<noteq> (mic, d)) rows"
    "record_unexpected_closed e d reason rows' = Inr rows'"
    using record_unexpected_closed_rows[OF u n] by metis
  have nm: "normalize_exchange mic = Inr mic" by (rule normalize_exchange_idem[OF n])
  have ov: "override_for rows' mic d =
      Inr (Some \<lparr>ov_exchange = mic, ov_date = d, ov_is_open = False, ov_reason = Some reason\<rparr>)"
    using override_for_row[OF r(2,3)] by simp
  have never: "is_market_open lib rows' e ts = Inr False" if "xc_local_date lib mic ts = d" for lib ts
    using n ov that by (simp add: is_market_open_def forced_closed_def)
  have hours: "get_session_hours lib rows' x d = Inr (no_session mic d ''override'')"
    if "normalize_exchange x = Inr mic" for lib x
    using that ov by (simp add: get_session_hours_def forced_closed_def)
  have next_close: "\<exists>on. on \<noteq> d \<and> xc_local_date lib mic ts \<le> on \<and> on < xc_local_date lib mic ts + 20 \<and>
      xc_is_session lib mic on = Some True \<and> c = xc_close lib mic on \<and> ts \<le> c \<and>
      (\<forall>day. xc_local_date lib mic ts \<le> day \<and> day < on \<and> xc_is_session lib mic day = Some True \<and>
         (\<forall>ov. override_for rows' mic day = Inr ov \<longrightarrow> \<not> forced_closed ov) \<longrightarrow> xc_close lib mic day < ts)"
    if c: "next_session_close lib rows' e ts = Inr c" for lib ts c
  proof -
    have "close_search lib rows' mic ts 20 (xc_local_date lib mic ts) = Inr c"
      using c n by (simp add: next_session_close_def)
    from close_search_first[OF this nm] obtain on h where on: "xc_local_date lib mic ts \<le> on"
      "on < xc_local_date lib mic ts + 20" "c = xc_close lib mic on" "ts \<le> c"
      "get_session_hours lib rows' mic on = Inr h" "sh_is_open h"
      and before: "\<forall>e. xc_local_date lib mic ts \<le> e \<and> e < on \<longrightarrow>
        (\<exists>h. get_session_hours lib rows' mic e = Inr h \<and> (sh_is_open h \<longrightarrow> xc_close lib mic e < ts))" by auto
    have "on \<noteq> d" using on(5,6) hours[OF nm] by (auto simp: no_session_def)
    moreover have "xc_close lib mic day < ts" if day: "xc_local_date lib mic ts \<le> day" "day < on"
      "xc_is_session lib mic day = Some True" "\<forall>ov. override_for rows' mic day = Inr ov \<longrightarrow> \<not> forced_closed ov" for day
    proof -
      obtain h' where h': "get_session_hours lib rows' mic day = Inr h'" "sh_is_open h' \<longrightarrow> xc_close lib mic day < ts"
        using before day by blast
      then have "sh_is_open h'"
        using day(3,4) nm by (auto simp: get_session_hours_def bind_res_Inr_iff Let_def split: if_splits)
      then show ?thesis using h' by simp
    qed
    ultimately show ?thesis using on get_session_hours_open[OF on(5) nm on(6)] by (intro exI[of _ on]) auto
  qed
  show ?thesis using r(1,2,4,5) never hours[OF n] next_close by (intro exI[of _ rows']) blast
qed

text \<open>A library in which every day is a session from 14:30 to 21:00 UTC, and whose local date starts at
  20:00 UTC the day before.\<close>

definition lib_1 :: xcal where
  "lib_1 = \<lparr>xc_local_date = (\<lambda>mic t. date_of (t + 4 * hour)), xc_is_session = (\<lambda>mic d. Some True),
     xc_open = (\<lambda>mic d. midnight d + 14 * hour + 30 * minute), xc_close = (\<lambda>mic d. midnight d + 21 * hour),
     xc_trading_minute = (\<lambda>mic t. Some True)\<rparr>"

theorem closure_wins_witness:
  "is_market_open lib_1 [] ''NYSE'' (midnight 10 + 15 * hour) = Inr True \<and>
   (\<exists>rows'. record_unexpected_closed ''NYSE'' 10 ''outage'' [] = Inr rows' \<and>
      is_market_open lib_1 rows' ''NYSE'' (midnight 10 + 15 * hour) = Inr False)"
proof -
  have n: "normalize_exchange ''NYSE'' = Inr ''XNYS''" by code_simp
  have l: "xc_local_date lib_1 ''XNYS'' (midnight 10 + 15 * hour) = 10"
    by (simp add: lib_1_def date_of_def midnight_def day_us_def)
  have before: "is_market_open lib_1 [] ''NYSE'' (midnight 10 + 15 * hour) = Inr True"
    by code_simp
  obtain rows' where "record_unexpected_closed ''NYSE'' 10 ''outage'' [] = Inr rows'"
    "\<forall>lib ts. xc_local_date lib ''XNYS'' ts = 10 \<longrightarrow> is_market_open lib rows' ''NYSE'' ts = Inr False"
    using closure_wins[of "[]" "''NYSE''" "''XNYS''" 10 "''outage''", OF _ n] by auto
  then show ?thesis using before l by blast
qed

text \<open>An override that says open changes nothing but the source that is reported: a missing session cannot
  be added by an override.\<close>

lemma open_override_no_effect:
  assumes "(mic, d) \<notin> override_key ` set rows" "normalize_exchange e = Inr mic" "ov_is_open r" "override_key r = (mic, d)"
  shows "is_market_open lib (rows @ [r]) e ts = is_market_open lib rows e ts"
    "map_sum id sh_is_open (get_session_hours lib (rows @ [r]) e d) = map_sum id sh_is_open (get_session_hours lib rows e d)"
proof -
  have e: "filter (\<lambda>r. override_key r = (mic, d)) rows = []" using assms(1) by (force simp: filter_empty_conv)
  then have same: "override_for (rows @ [r]) mic d = Inr (Some r)" "override_for rows mic d = Inr None"
    using assms(4) by (simp_all add: override_for_def override_key_iff)
  have other: "override_for (rows @ [r]) mic d' = override_for rows mic d'" if "d' \<noteq> d" for d'
    using that assms(4) by (simp add: override_for_def override_key_iff)
  show "is_market_open lib (rows @ [r]) e ts = is_market_open lib rows e ts"
    using assms(2,3) same other by (cases "xc_local_date lib mic ts = d") (simp_all add: is_market_open_def forced_closed_def)
  show "map_sum id sh_is_open (get_session_hours lib (rows @ [r]) e d) = map_sum id sh_is_open (get_session_hours lib rows e d)"
    using assms(2,3) same by (simp add: get_session_hours_def forced_closed_def no_session_def Let_def split: option.splits bool.splits)
qed

text \<open>The route reports the source by the UTC date, the service decides by the local date: in the late
  evening of the exchange the answer of an override is attributed to the library.\<close>

lemma is_open_route_source:
  "is_open_route lib_1 [\<lparr>ov_exchange = ''XNYS'', ov_date = 11, ov_is_open = False, ov_reason = None\<rparr>] ''XNYS''
     (midnight 10 + 21 * hour) = Inr (False, ''library'')"
  by code_simp

end
