(* ===== verification/Scheduler.thy ===== *)
theory Scheduler
  imports Calendar Redis
begin

text \<open>
  The session-aware scheduler (\<open>scheduling/scheduler.py\<close>): the state of a market at an instant, the
  plan of a tick and its dispatch behind claims in Redis. It sees the calendar through two questions,
  the local date of an instant and the hours of a date; the locale \<open>session_source\<close> states what it
  relies on and the calendar service is its interpretation. Sending a Celery task is recorded in
  the list of tasks sent.
\<close>

section \<open>Market states and plans\<close>

datatype market_state = HOLIDAY | CLOSED | OPEN | JUST_CLOSED

record market_snapshot =
  ms_exchange :: string
  ms_now :: instant
  ms_state :: market_state
  ms_hours :: session_hours
  ms_half_day :: bool

record dispatch_plan =
  dp_task :: string
  dp_kwargs :: "(string \<times> json) list"
  dp_key :: "string option"
  dp_ttl :: int

record scheduler_tick =
  st_now :: instant
  st_snapshots :: "market_snapshot list"
  st_planned :: "dispatch_plan list"

definition INDICATOR_RECALC_EVERY_MINUTES :: int where "INDICATOR_RECALC_EVERY_MINUTES = 5"
definition PORTFOLIO_SYNC_EVERY_MINUTES :: int where "PORTFOLIO_SYNC_EVERY_MINUTES = 60"
definition DEDUPE_TTL :: int where "DEDUPE_TTL = 7 * 24 * 60 * 60"
definition POST_CLOSE_TTL :: int where "POST_CLOSE_TTL = 48 * 60 * 60"

definition minute_floor :: "instant \<Rightarrow> instant" where
  "minute_floor ts = ts div minute * minute"

type_synonym hours_of = "string \<Rightarrow> day \<Rightarrow> cal_error + session_hours"
type_synonym local_date_of = "string \<Rightarrow> instant \<Rightarrow> day"

definition compute_market_state ::
  "local_date_of \<Rightarrow> hours_of \<Rightarrow> string \<Rightarrow> instant \<Rightarrow> cal_error + market_snapshot" where
  "compute_market_state local_date hours_for exchange now_utc =
     bind_res (hours_for exchange (local_date exchange now_utc)) (\<lambda>hours.
       Inr (case (sh_is_open hours, sh_open hours, sh_close hours) of
              (True, Some open_utc, Some close_utc) \<Rightarrow>
                \<lparr>ms_exchange = exchange, ms_now = now_utc,
                 ms_state = (if now_utc < open_utc then CLOSED
                   else if open_utc \<le> now_utc \<and> now_utc < close_utc then OPEN
                   else if close_utc \<le> now_utc \<and> now_utc < close_utc + 1 * minute then JUST_CLOSED
                   else CLOSED),
                 ms_hours = hours, ms_half_day = sh_half_day hours\<rparr>
            | _ \<Rightarrow> \<lparr>ms_exchange = exchange, ms_now = now_utc, ms_state = HOLIDAY, ms_hours = hours,
                    ms_half_day = False\<rparr>))"

text \<open>\<open>strftime("%Y%m%dT%H%M")\<close>.\<close>

definition minute_stamp :: "instant \<Rightarrow> string" where
  "minute_stamp t =
     (let m = (t mod day_us) div minute
      in (case civil (date_of t) of (y, mo, d) \<Rightarrow> pad 4 y @ pad 2 mo @ pad 2 d) @ ''T'' @ pad 2 (m div 60) @ pad 2 (m mod 60))"

definition minute_of_hour :: "instant \<Rightarrow> int" where
  "minute_of_hour t = t div minute mod 60"

definition recalc_key :: "string \<Rightarrow> instant \<Rightarrow> string" where
  "recalc_key mic now = ''sched:last_dispatch:recalc:'' @ mic @ '':'' @ minute_stamp now"

definition sync_key :: "string \<Rightarrow> instant \<Rightarrow> string" where
  "sync_key mic now = ''sched:last_dispatch:sync:'' @ mic @ '':'' @ minute_stamp now"

definition post_close_key :: "string \<Rightarrow> day \<Rightarrow> string" where
  "post_close_key mic d = ''sched:post_close_done:'' @ mic @ '':'' @ iso_date d"

definition plans_for :: "market_snapshot \<Rightarrow> instant \<Rightarrow> string \<Rightarrow> dispatch_plan list" where
  "plans_for snap now mic =
     (case ms_state snap of
        OPEN \<Rightarrow>
          (if minute_of_hour now mod INDICATOR_RECALC_EVERY_MINUTES = 0
           then [\<lparr>dp_task = ''tasks.in_session.recalc_indicators'', dp_kwargs = [(''exchange'', JStr mic)],
                  dp_key = Some (recalc_key mic now), dp_ttl = DEDUPE_TTL\<rparr>] else []) @
          (if minute_of_hour now mod PORTFOLIO_SYNC_EVERY_MINUTES = 0
           then [\<lparr>dp_task = ''tasks.in_session.sync_portfolios'', dp_kwargs = [(''exchange'', JStr mic)],
                  dp_key = Some (sync_key mic now), dp_ttl = DEDUPE_TTL\<rparr>] else [])
      | JUST_CLOSED \<Rightarrow>
          [\<lparr>dp_task = ''tasks.post_close.run_post_close_batch'',
            dp_kwargs = [(''exchange'', JStr mic), (''session_date'', JStr (iso_date (sh_date (ms_hours snap)))),
              (''is_half_day'', JBool (ms_half_day snap))],
            dp_key = Some (post_close_key mic (sh_date (ms_hours snap))), dp_ttl = POST_CLOSE_TTL\<rparr>]
      | _ \<Rightarrow> [])"

fun plan_markets ::
  "local_date_of \<Rightarrow> hours_of \<Rightarrow> instant \<Rightarrow> string list \<Rightarrow> cal_error + (market_snapshot list \<times> dispatch_plan list)" where
  "plan_markets local_date hours_for now [] = Inr ([], [])"
| "plan_markets local_date hours_for now (mic # mics) =
     bind_res (compute_market_state local_date hours_for mic now) (\<lambda>snap.
     bind_res (plan_markets local_date hours_for now mics) (\<lambda>(snaps, plans).
       Inr (snap # snaps, plans_for snap now mic @ plans)))"

definition plan_tick ::
  "local_date_of \<Rightarrow> hours_of \<Rightarrow> instant \<Rightarrow> string list \<Rightarrow> cal_error + scheduler_tick" where
  "plan_tick local_date hours_for now_utc exchanges =
     (let now = minute_floor now_utc
      in bind_res (plan_markets local_date hours_for now exchanges) (\<lambda>(snaps, plans).
           Inr \<lparr>st_now = now, st_snapshots = snaps, st_planned = plans\<rparr>))"

section \<open>Dispatch\<close>

text \<open>\<open>None\<close> for the Redis client is the case without Redis.\<close>

definition claim :: "'r redis option \<Rightarrow> dispatch_plan \<Rightarrow> 'r \<Rightarrow> bool \<times> 'r" where
  "claim redis plan r =
     (case dp_key plan of
        None \<Rightarrow> (True, r)
      | Some k \<Rightarrow>
          (case redis of
             None \<Rightarrow> (True, r)
           | Some R \<Rightarrow> rd_set_nx R r k ''1'' (dp_ttl plan)))"

fun apply_plans :: "'r redis option \<Rightarrow> 'r \<Rightarrow> dispatch_plan list \<Rightarrow> dispatch_plan list \<times> 'r" where
  "apply_plans redis r [] = ([], r)"
| "apply_plans redis r (plan # plans) =
     (case claim redis plan r of
        (ok, r1) \<Rightarrow>
          (case apply_plans redis r1 plans of
             (dispatched, r2) \<Rightarrow> (if ok then plan # dispatched else dispatched, r2)))"

record 'r sched_state =
  ss_redis :: 'r
  ss_sent :: "dispatch_plan list"

text \<open>One run of the Celery task. An exception of the planning leaves everything as it was.\<close>

definition tick_step ::
  "local_date_of \<Rightarrow> hours_of \<Rightarrow> 'r redis option \<Rightarrow> string list \<Rightarrow> instant \<Rightarrow> 'r sched_state
     \<Rightarrow> (cal_error + nat) \<times> 'r sched_state" where
  "tick_step local_date hours_for redis exchanges now s =
     (case plan_tick local_date hours_for now exchanges of
        Inl e \<Rightarrow> (Inl e, s)
      | Inr t \<Rightarrow>
          (case apply_plans redis (ss_redis s) (st_planned t) of
             (dispatched, r) \<Rightarrow>
               (Inr (length (st_planned t) - length dispatched),
                s\<lparr>ss_redis := r, ss_sent := ss_sent s @ dispatched\<rparr>)))"

fun run_ticks ::
  "local_date_of \<Rightarrow> hours_of \<Rightarrow> 'r redis option \<Rightarrow> string list \<Rightarrow> instant list \<Rightarrow> 'r sched_state \<Rightarrow> 'r sched_state" where
  "run_ticks local_date hours_for redis exchanges [] s = s"
| "run_ticks local_date hours_for redis exchanges (now # ts) s =
     run_ticks local_date hours_for redis exchanges ts (snd (tick_step local_date hours_for redis exchanges now s))"

section \<open>Claims\<close>

definition sent_with :: "string \<Rightarrow> dispatch_plan list \<Rightarrow> nat" where
  "sent_with k ps = length (filter (\<lambda>p. dp_key p = Some k) ps)"

lemma sent_with_simps [simp]:
  "sent_with k [] = 0" "sent_with k (p # ps) = (if dp_key p = Some k then 1 else 0) + sent_with k ps"
  "sent_with k (ps @ qs) = sent_with k ps + sent_with k qs"
  by (simp_all add: sent_with_def)

text \<open>A key is claimed once, by the first plan that has it.\<close>

lemma apply_plans_key:
  assumes "redis_kv R" and "apply_plans (Some R) r ps = (ds, r')"
  shows "sent_with k ds = (if rd_get R r k = None \<and> Some k \<in> dp_key ` set ps then 1 else 0) \<and>
    (rd_get R r' k = None \<longleftrightarrow> rd_get R r k = None \<and> Some k \<notin> dp_key ` set ps)"
  using assms(2)
proof (induction ps arbitrary: r ds)
  case (Cons p ps)
  obtain ok r1 where c: "claim (Some R) p r = (ok, r1)" by (cases "claim (Some R) p r")
  obtain ds1 r2 where a: "apply_plans (Some R) r1 ps = (ds1, r2)" by (cases "apply_plans (Some R) r1 ps")
  have res: "ds = (if ok then p # ds1 else ds1)" "r' = r2" using Cons.prems c a by auto
  note IH = Cons.IH[of r1 ds1]
  have nx: "fst (rd_set_nx R r k' v t) = (rd_get R r k' = None)"
    "rd_get R (snd (rd_set_nx R r k' v t)) k = (if k = k' \<and> rd_get R r k' = None then Some v else rd_get R r k)" for k' v t
    using assms(1) by (simp_all add: redis_kv_def)
  show ?case
  proof (cases "dp_key p = Some k")
    case True
    have "ok = (rd_get R r k = None)" "rd_get R r1 k \<noteq> None"
      using c True nx[of k "''1''" "dp_ttl p"] by (auto simp: claim_def)
    then show ?thesis using IH a res True by auto
  next
    case False
    have "rd_get R r1 k = rd_get R r k"
      using c False nx(2) by (cases "dp_key p") (auto simp: claim_def, metis snd_conv)
    then show ?thesis using IH a res False by auto
  qed
qed simp

lemma recalc_key_other [simp]: "recalc_key m t \<noteq> post_close_key m' d" "sync_key m t \<noteq> post_close_key m' d"
  "post_close_key m' d \<noteq> recalc_key m t" "post_close_key m' d \<noteq> sync_key m t"
  by (simp_all add: recalc_key_def sync_key_def post_close_key_def)

lemma post_close_key_exchange:
  "m \<in> set SUPPORTED_EXCHANGES \<Longrightarrow> m' \<in> set SUPPORTED_EXCHANGES \<Longrightarrow> post_close_key m d = post_close_key m' d' \<Longrightarrow> m = m'"
  by (auto simp: post_close_key_def SUPPORTED_EXCHANGES_def)

lemma plans_for_key:
  "Some (post_close_key m' d) \<in> dp_key ` set (plans_for snap now m) \<longleftrightarrow>
     ms_state snap = JUST_CLOSED \<and> post_close_key m (sh_date (ms_hours snap)) = post_close_key m' d"
  by (auto simp: plans_for_def split: market_state.splits)

lemma plan_markets_ok:
  assumes "\<forall>m \<in> set mics. \<exists>h. hours_for m (local_date m now) = Inr h"
  shows "\<exists>snaps plans. plan_markets local_date hours_for now mics = Inr (snaps, plans)"
  using assms
proof (induction mics)
  case (Cons m mics)
  then obtain h snaps plans where "hours_for m (local_date m now) = Inr h"
    "plan_markets local_date hours_for now mics = Inr (snaps, plans)" by auto
  then show ?case by (simp add: compute_market_state_def)
qed simp

section \<open>What the scheduler relies on\<close>

locale session_source =
  fixes local_date :: local_date_of and hours_for :: hours_of
  assumes open_times: "hours_for m d = Inr h \<Longrightarrow> sh_is_open h \<Longrightarrow> sh_open h \<noteq> None \<and> sh_close h \<noteq> None"
    and close_is_open: "hours_for m d = Inr h \<Longrightarrow> sh_close h \<noteq> None \<Longrightarrow> sh_is_open h"
    and hours_date: "hours_for m d = Inr h \<Longrightarrow> sh_date h = d"
begin

lemma snapshot_hours:
  "compute_market_state local_date hours_for m now = Inr snap \<Longrightarrow>
     hours_for m (local_date m now) = Inr (ms_hours snap) \<and> sh_date (ms_hours snap) = local_date m now"
  using hours_date by (auto simp: compute_market_state_def bind_res_Inr_iff split: prod.splits option.splits bool.splits)

lemma just_closed_iff:
  assumes "compute_market_state local_date hours_for m now = Inr snap" and "hours_for m (local_date m now) = Inr h"
    and "sh_open h = Some a" "sh_close h = Some c" "a \<le> c"
  shows "ms_state snap = JUST_CLOSED \<longleftrightarrow> c \<le> now \<and> now < c + minute"
  using assms close_is_open[OF assms(2)] by (auto simp: compute_market_state_def split: if_splits)

text \<open>The plan of a tick holds the post-close batch of a market exactly in the minute after its close.\<close>

lemma plan_markets_post_close:
  assumes "plan_markets local_date hours_for now mics = Inr (snaps, plans)" "set mics \<subseteq> set SUPPORTED_EXCHANGES"
    and "mic \<in> set SUPPORTED_EXCHANGES" "local_date mic now = d" "hours_for mic d = Inr h"
    and "sh_open h = Some a" "sh_close h = Some c" "a \<le> c"
  shows "Some (post_close_key mic d) \<in> dp_key ` set plans \<longleftrightarrow> mic \<in> set mics \<and> c \<le> now \<and> now < c + minute"
  using assms(1,2)
proof (induction mics arbitrary: snaps plans)
  case (Cons m mics)
  obtain snap snaps' plans' where s: "compute_market_state local_date hours_for m now = Inr snap"
    "plan_markets local_date hours_for now mics = Inr (snaps', plans')" "plans = plans_for snap now m @ plans'"
    using Cons.prems(1) by (auto simp: bind_res_Inr_iff)
  have IH: "Some (post_close_key mic d) \<in> dp_key ` set plans' \<longleftrightarrow> mic \<in> set mics \<and> c \<le> now \<and> now < c + minute"
    using Cons.IH[OF s(2)] Cons.prems(2) by simp
  have "post_close_key m (sh_date (ms_hours snap)) = post_close_key mic d \<longleftrightarrow> m = mic"
    using post_close_key_exchange[of m mic] Cons.prems(2) assms(3,4) snapshot_hours[OF s(1)] by auto
  then have "Some (post_close_key mic d) \<in> dp_key ` set (plans_for snap now m) \<longleftrightarrow> m = mic \<and> c \<le> now \<and> now < c + minute"
    unfolding plans_for_key using just_closed_iff[OF s(1)] assms(4-8) by auto
  then show ?case using IH s(3) by (auto simp: image_Un)
qed auto

lemma run_ticks_post_close:
  assumes R: "redis_kv R" and ex: "set exchanges \<subseteq> set SUPPORTED_EXCHANGES" "mic \<in> set exchanges"
    and h: "hours_for mic d = Inr h" "sh_open h = Some a" "sh_close h = Some c" "a \<le> c"
    and ts: "\<forall>t \<in> set ts. local_date mic (minute_floor t) = d \<and>
      (\<forall>m \<in> set exchanges. \<exists>h. hours_for m (local_date m (minute_floor t)) = Inr h)"
  shows "sent_with (post_close_key mic d) (ss_sent (run_ticks local_date hours_for (Some R) exchanges ts s)) =
    sent_with (post_close_key mic d) (ss_sent s) +
    (if rd_get R (ss_redis s) (post_close_key mic d) = None \<and>
        (\<exists>t \<in> set ts. c \<le> minute_floor t \<and> minute_floor t < c + minute) then 1 else 0)"
  using ts
proof (induction ts arbitrary: s)
  case (Cons t ts)
  let ?K = "post_close_key mic d"
  obtain snaps plans where p: "plan_markets local_date hours_for (minute_floor t) exchanges = Inr (snaps, plans)"
    using plan_markets_ok[of exchanges hours_for local_date "minute_floor t"] Cons.prems by auto
  have here: "Some ?K \<in> dp_key ` set plans \<longleftrightarrow> c \<le> minute_floor t \<and> minute_floor t < c + minute"
    using plan_markets_post_close[OF p ex(1) _ _ h] ex Cons.prems by auto
  obtain ds r where a: "apply_plans (Some R) (ss_redis s) plans = (ds, r)"
    by (cases "apply_plans (Some R) (ss_redis s) plans")
  have step: "snd (tick_step local_date hours_for (Some R) exchanges t s) = s\<lparr>ss_redis := r, ss_sent := ss_sent s @ ds\<rparr>"
    using p a by (simp add: tick_step_def plan_tick_def Let_def)
  show ?case
    using Cons.IH[of "s\<lparr>ss_redis := r, ss_sent := ss_sent s @ ds\<rparr>"] Cons.prems apply_plans_key[OF R a, of ?K] here
    by (auto simp: step)
qed simp

end

text \<open>The calendar service is such a source, whatever the library answers.\<close>

interpretation cal: session_source "xc_local_date lib" "get_session_hours lib rows" for lib rows
  by unfold_locales
    (auto simp: get_session_hours_def bind_res_Inr_iff no_session_def Let_def split: if_splits option.splits bool.splits)

section \<open>Properties\<close>

text \<open>C20. The post-close batch of a session is dispatched exactly once if one of the ticks of that day falls
  into the minute that begins at the close, however many ticks do and however often they are
  repeated, as long as the claim in Redis lives; and it is not dispatched at all if no tick falls
  into that minute.\<close>

theorem post_close_once:
  assumes R: "redis_kv R" and ex: "set exchanges \<subseteq> set SUPPORTED_EXCHANGES" "mic \<in> set exchanges"
    and h: "get_session_hours lib rows mic d = Inr h" "sh_open h = Some a" "sh_close h = Some c" "a \<le> c"
    and ts: "\<forall>t \<in> set ts. xc_local_date lib mic (minute_floor t) = d \<and>
      (\<forall>m \<in> set exchanges. \<exists>h. get_session_hours lib rows m (xc_local_date lib m (minute_floor t)) = Inr h)"
    and fresh: "rd_get R (ss_redis s) (post_close_key mic d) = None" "sent_with (post_close_key mic d) (ss_sent s) = 0"
  shows "sent_with (post_close_key mic d)
      (ss_sent (run_ticks (xc_local_date lib) (get_session_hours lib rows) (Some R) exchanges ts s)) =
    (if \<exists>t \<in> set ts. c \<le> minute_floor t \<and> minute_floor t < c + minute then 1 else 0)"
  using cal.run_ticks_post_close[OF R ex h ts, of s] fresh by simp

definition ticks_1 :: "instant list" where
  "ticks_1 = [midnight 10 + 21 * hour - 20 * second, midnight 10 + 21 * hour + 40 * second, midnight 10 + 21 * hour + 40 * second]"

text \<open>A library with local dates in UTC.\<close>

definition lib_2 :: xcal where
  "lib_2 = lib_1\<lparr>xc_local_date := (\<lambda>mic t. date_of t)\<rparr>"

definition sched_1 :: "mem sched_state" where
  "sched_1 = \<lparr>ss_redis = mem_empty, ss_sent = []\<rparr>"

theorem post_close_once_witness:
  "sent_with (post_close_key ''XNYS'' 10) (ss_sent (run_ticks (xc_local_date lib_2) (get_session_hours lib_2 [])
     (Some mem_redis) [''XNYS''] ticks_1 sched_1)) = 1"
proof -
  have h: "get_session_hours lib_2 [] ''XNYS'' 10 = Inr \<lparr>sh_exchange = ''XNYS'', sh_date = 10, sh_is_open = True,
      sh_open = Some (midnight 10 + 14 * hour + 30 * minute), sh_close = Some (midnight 10 + 21 * hour),
      sh_half_day = half_day ''XNYS'' (midnight 10 + 14 * hour + 30 * minute) (midnight 10 + 21 * hour), sh_source = ''library''\<rparr>"
    by (simp add: get_session_hours_def lib_2_def lib_1_def override_for_def forced_closed_def Let_def)
  have all: "\<exists>h. get_session_hours lib_2 [] ''XNYS'' d = Inr h" for d
    by (simp add: get_session_hours_def lib_2_def lib_1_def override_for_def forced_closed_def Let_def)
  have d: "\<forall>t \<in> set ticks_1. xc_local_date lib_2 ''XNYS'' (minute_floor t) = 10"
    by (simp add: ticks_1_def lib_2_def minute_floor_def date_of_def midnight_def day_us_def)
  have hit: "\<exists>t \<in> set ticks_1. midnight 10 + 21 * hour \<le> minute_floor t \<and> minute_floor t < midnight 10 + 21 * hour + minute"
    by (simp add: ticks_1_def minute_floor_def midnight_def day_us_def)
  show ?thesis
    using post_close_once[OF mem_redis_kv, of "[''XNYS'']" "''XNYS''" lib_2 "[]" 10, OF _ _ h, of
        "midnight 10 + 14 * hour + 30 * minute" "midnight 10 + 21 * hour" ticks_1 sched_1] all d hit
    by (simp add: SUPPORTED_EXCHANGES_def sched_1_def mem_redis_def mem_empty_def)
qed

end
