(* ===== verification/Notifications.thy ===== *)
theory Notifications
  imports Models Redis
begin

text \<open>
  Notifications: the dispatcher and its channels (\<open>notifications/base.py\<close>, \<open>push.py\<close>,
  \<open>email.py\<close>), the inbox (\<open>api/notifications.py\<close>), the registration of devices
  (\<open>api/devices.py\<close>) and the tickets of the alert stream (\<open>api/ws_alerts.py\<close>). Expo's
  endpoint and the SMTP server are arguments: what they answer.
\<close>

section \<open>Rows\<close>

record notification =
  no_id :: uuid
  no_user :: uuid
  no_type :: string
  no_title :: string
  no_body :: string
  no_payload :: "(string \<times> json) list"
  no_sent_at :: "instant option"
  no_read_at :: "instant option"
  no_created_at :: instant

record device_token =
  dt_user :: uuid
  dt_token :: string
  dt_platform :: string
  dt_active :: bool

section \<open>Channels\<close>

text \<open>What \<open>channel.send\<close> does: it returns a flag or raises, here with the text of the error.\<close>

datatype send_outcome = Returned bool | Raised string

record channel =
  ch_name :: string
  ch_send :: "notification \<Rightarrow> send_outcome"

text \<open>The answer of the push endpoint: no answer (\<open>HTTPError\<close>), or a status with the decoded body,
  \<open>None\<close> when the body is no JSON.\<close>

datatype http_answer = HttpError | Answer int "json option"

definition EXPO_PUSH_URL :: string where
  "EXPO_PUSH_URL = ''https://exp.host/--/api/v2/push/send''"

definition active_tokens :: "device_token list \<Rightarrow> uuid \<Rightarrow> string list" where
  "active_tokens devices user_id = map dt_token (filter (\<lambda>d. dt_user d = user_id \<and> dt_active d) devices)"

definition build_messages :: "notification \<Rightarrow> string list \<Rightarrow> json list" where
  "build_messages n tokens = map (\<lambda>token. JObj [(''to'', JStr token), (''title'', JStr (no_title n)),
     (''body'', JStr (no_body n)), (''data'', JObj (no_payload n)), (''sound'', JStr ''default'')]) tokens"

definition reports_errors :: "json \<Rightarrow> bool" where
  "reports_errors j = (case j of JObj kvs \<Rightarrow> (case map_of kvs ''errors'' of Some v \<Rightarrow> truthy v | None \<Rightarrow> False) | _ \<Rightarrow> False)"

definition expo_send :: "(json list \<Rightarrow> http_answer) \<Rightarrow> device_token list \<Rightarrow> notification \<Rightarrow> send_outcome" where
  "expo_send post devices n =
     (let tokens = active_tokens devices (no_user n)
      in if tokens = [] then Returned False
         else (case post (build_messages n tokens) of
                 HttpError \<Rightarrow> Returned False
               | Answer status body \<Rightarrow>
                   if status \<noteq> 200 then Returned False
                   else (case body of
                           None \<Rightarrow> Returned False
                         | Some payload \<Rightarrow> Returned (\<not> reports_errors payload))))"

text \<open>The mail server: delivered, a transport error the channel catches, or any other exception.\<close>

datatype smtp_outcome = Delivered | TransportError | OtherError string

definition email_send :: "(string \<Rightarrow> notification \<Rightarrow> smtp_outcome) option \<Rightarrow> (uuid \<Rightarrow> string option) \<Rightarrow> notification \<Rightarrow> send_outcome" where
  "email_send smtp_config user_email n =
     (case smtp_config of
        None \<Rightarrow> Returned False
      | Some deliver \<Rightarrow>
          (case user_email (no_user n) of
             None \<Rightarrow> Returned False
           | Some addr \<Rightarrow>
               if addr = [] then Returned False
               else (case deliver addr n of
                       Delivered \<Rightarrow> Returned True
                     | TransportError \<Rightarrow> Returned False
                     | OtherError e \<Rightarrow> Raised e)))"

section \<open>The dispatcher\<close>

record dispatch_result =
  dr_id :: uuid
  dr_attempted :: "string list"
  dr_succeeded :: "string list"
  dr_errors :: "(string, string) dict"

definition any_success :: "dispatch_result \<Rightarrow> bool" where
  "any_success r = (dr_succeeded r \<noteq> [])"

definition set_default :: "string \<Rightarrow> string \<Rightarrow> (string, string) dict \<Rightarrow> (string, string) dict" where
  "set_default k v d = (if map_of d k = None then dict_set k v d else d)"

definition attempt :: "notification \<Rightarrow> channel \<Rightarrow> dispatch_result \<Rightarrow> dispatch_result" where
  "attempt n c r =
     (let name = ch_name c; r1 = r\<lparr>dr_attempted := dr_attempted r @ [name]\<rparr>
      in case ch_send c n of
           Raised e \<Rightarrow> r1\<lparr>dr_errors := dict_set name e (dr_errors r1)\<rparr>
         | Returned ok \<Rightarrow>
             if ok then r1\<lparr>dr_succeeded := dr_succeeded r1 @ [name]\<rparr>
             else r1\<lparr>dr_errors := set_default name ''send returned False'' (dr_errors r1)\<rparr>)"

definition dispatch :: "channel list \<Rightarrow> instant \<Rightarrow> notification \<Rightarrow> dispatch_result \<times> notification" where
  "dispatch channels now n =
     (let r = foldl (\<lambda>r c. attempt n c r) \<lparr>dr_id = no_id n, dr_attempted = [], dr_succeeded = [], dr_errors = []\<rparr> channels
      in (r, if any_success r \<and> no_sent_at n = None then n\<lparr>no_sent_at := Some now\<rparr> else n))"

fun dispatch_many :: "channel list \<Rightarrow> instant \<Rightarrow> notification list \<Rightarrow> dispatch_result list \<times> notification list" where
  "dispatch_many channels now [] = ([], [])"
| "dispatch_many channels now (n # ns) =
     (case dispatch channels now n of (r, n') \<Rightarrow>
        (case dispatch_many channels now ns of (rs, ns') \<Rightarrow> (r # rs, n' # ns')))"

section \<open>The inbox and the devices\<close>

definition inbox :: "notification list \<Rightarrow> uuid \<Rightarrow> bool option \<Rightarrow> notification list" where
  "inbox rows user_id read = filter (\<lambda>n. no_user n = user_id \<and>
     (case read of None \<Rightarrow> True | Some False \<Rightarrow> no_read_at n = None | Some True \<Rightarrow> no_read_at n \<noteq> None)) rows"

definition list_notifications ::
  "notification list \<Rightarrow> uuid \<Rightarrow> nat \<Rightarrow> nat \<Rightarrow> bool option \<Rightarrow> notification list \<times> nat" where
  "list_notifications rows user_id page per_page read =
     (let hits = inbox rows user_id read
      in (take per_page (drop ((page - 1) * per_page) (sort_desc (\<lambda>n. of_int (no_created_at n)) hits)), length hits))"

definition mark_read :: "notification list \<Rightarrow> uuid \<Rightarrow> uuid \<Rightarrow> instant \<Rightarrow> notification option \<times> notification list" where
  "mark_read rows notification_id user_id now =
     (case find (\<lambda>n. no_id n = notification_id \<and> no_user n = user_id) rows of
        None \<Rightarrow> (None, rows)
      | Some n \<Rightarrow>
          if no_read_at n = None
          then (Some (n\<lparr>no_read_at := Some now\<rparr>),
                map (\<lambda>m. if no_id m = notification_id \<and> no_user m = user_id then m\<lparr>no_read_at := Some now\<rparr> else m) rows)
          else (Some n, rows))"

definition register_device :: "string \<Rightarrow> string \<Rightarrow> uuid \<Rightarrow> device_token list \<Rightarrow> device_token list" where
  "register_device token platform user_id devices =
     (if \<exists>d \<in> set devices. dt_token d = token
      then map (\<lambda>d. if dt_token d = token then d\<lparr>dt_user := user_id, dt_platform := platform, dt_active := True\<rparr> else d) devices
      else devices @ [\<lparr>dt_user = user_id, dt_token = token, dt_platform = platform, dt_active = True\<rparr>])"

section \<open>Tickets of the alert stream\<close>

definition TICKET_TTL_SECONDS :: int where "TICKET_TTL_SECONDS = 30"

definition ticket_key :: "string \<Rightarrow> string" where "ticket_key ticket = ''ws:ticket:'' @ ticket"

definition create_ticket :: "'r redis \<Rightarrow> string \<Rightarrow> uuid \<Rightarrow> 'r \<Rightarrow> string \<times> 'r" where
  "create_ticket R ticket user_id r = (ticket, snd (rd_set_nx R r (ticket_key ticket) user_id TICKET_TTL_SECONDS))"

definition consume_ticket :: "'r redis \<Rightarrow> string \<Rightarrow> 'r \<Rightarrow> uuid option \<times> 'r" where
  "consume_ticket R ticket r =
     (case rd_getdel R r (ticket_key ticket) of
        (None, r1) \<Rightarrow> (None, r1)
      | (Some value, r1) \<Rightarrow> (py_uuid value, r1))"

text \<open>The handshake of the stream: \<open>None\<close> closes the socket with code 4401.\<close>

definition open_stream :: "'r redis \<Rightarrow> string option \<Rightarrow> 'r \<Rightarrow> uuid option \<times> 'r" where
  "open_stream R ticket r =
     (case ticket of
        None \<Rightarrow> (None, r)
      | Some t \<Rightarrow> if t = [] then (None, r) else consume_ticket R t r)"

section \<open>Lemmas\<close>

definition succeeds :: "notification \<Rightarrow> channel \<Rightarrow> bool" where
  "succeeds n c \<longleftrightarrow> ch_send c n = Returned True"

lemma attempt_fields [simp]:
  "dr_id (attempt n c r) = dr_id r" "dr_attempted (attempt n c r) = dr_attempted r @ [ch_name c]"
  "dr_succeeded (attempt n c r) = dr_succeeded r @ (if succeeds n c then [ch_name c] else [])"
  by (auto simp: attempt_def succeeds_def Let_def split: send_outcome.splits)

lemma set_default_dom: "dom (map_of (set_default k v d)) = insert k (dom (map_of d))"
  by (auto simp: set_default_def dict_set_lookup split: if_splits)

lemma attempt_errors:
  "dom (map_of (dr_errors (attempt n c r))) =
     (if succeeds n c then dom (map_of (dr_errors r)) else insert (ch_name c) (dom (map_of (dr_errors r))))"
  by (auto simp: attempt_def succeeds_def Let_def set_default_dom dict_set_lookup split: send_outcome.splits if_splits)

lemma attempts:
  "dr_attempted (foldl (\<lambda>r c. attempt n c r) r cs) = dr_attempted r @ map ch_name cs \<and>
   dr_succeeded (foldl (\<lambda>r c. attempt n c r) r cs) = dr_succeeded r @ map ch_name (filter (succeeds n) cs) \<and>
   dr_id (foldl (\<lambda>r c. attempt n c r) r cs) = dr_id r \<and>
   dom (map_of (dr_errors (foldl (\<lambda>r c. attempt n c r) r cs))) =
     dom (map_of (dr_errors r)) \<union> ch_name ` {c \<in> set cs. \<not> succeeds n c}"
  by (induction cs arbitrary: r) (auto simp: attempt_errors)

lemma dispatch_many_map:
  "dispatch_many channels now ns = (map (fst \<circ> dispatch channels now) ns, map (snd \<circ> dispatch channels now) ns)"
  by (induction ns) (auto split: prod.splits)

lemma expo_send_total: "\<exists>b. expo_send post devices n = Returned b"
  by (auto simp: expo_send_def Let_def intro: exI[of _ False] split: http_answer.splits option.splits)

text \<open>Registering keeps tokens unique; a token of another user moves to the new one.\<close>

lemma register_device_unique:
  assumes "distinct (map dt_token devices)"
  shows "distinct (map dt_token (register_device token platform u devices))"
    "filter (\<lambda>d. dt_token d = token) (register_device token platform u devices) =
       [\<lparr>dt_user = u, dt_token = token, dt_platform = platform, dt_active = True\<rparr>]"
    "filter (\<lambda>d. dt_token d \<noteq> token) (register_device token platform u devices) = filter (\<lambda>d. dt_token d \<noteq> token) devices"
proof -
  let ?f = "\<lambda>d. if dt_token d = token then d\<lparr>dt_user := u, dt_platform := platform, dt_active := True\<rparr> else d"
  have key: "map dt_token (map ?f devices) = map dt_token devices" by simp
  show "distinct (map dt_token (register_device token platform u devices))"
  proof (cases "\<exists>d \<in> set devices. dt_token d = token")
    case True
    then show ?thesis using assms unfolding register_device_def by (simp only: key if_True)
  next
    case False
    then show ?thesis using assms by (auto simp: register_device_def)
  qed
  have "filter (\<lambda>d. dt_token d \<noteq> token) (map ?f devices) = filter (\<lambda>d. dt_token d \<noteq> token) devices"
    by (induction devices) auto
  then show "filter (\<lambda>d. dt_token d \<noteq> token) (register_device token platform u devices) = filter (\<lambda>d. dt_token d \<noteq> token) devices"
    unfolding register_device_def by simp
  show "filter (\<lambda>d. dt_token d = token) (register_device token platform u devices) =
       [\<lparr>dt_user = u, dt_token = token, dt_platform = platform, dt_active = True\<rparr>]"
  proof (cases "\<exists>d \<in> set devices. dt_token d = token")
    case True
    then obtain d where "d \<in> set devices" "dt_token d = token" by blast
    then have "filter (\<lambda>d. dt_token d = token) devices = [d]" using filter_key_distinct[OF assms] by metis
    moreover have "filter (\<lambda>d. dt_token d = token) (map ?f devices) = map ?f (filter (\<lambda>d. dt_token d = token) devices)"
      by (induction devices) auto
    ultimately show ?thesis using True \<open>dt_token d = token\<close> by (cases d) (simp add: register_device_def)
  next
    case False
    then show ?thesis by (auto simp: register_device_def filter_empty_conv)
  qed
qed

text \<open>Marking twice keeps the first time.\<close>

lemma mark_read_idem:
  "snd (mark_read (snd (mark_read rows i u now)) i u now') = snd (mark_read rows i u now)"
proof (cases "find (\<lambda>n. no_id n = i \<and> no_user n = u) rows")
  case (Some n)
  show ?thesis
  proof (cases "no_read_at n = None")
    case True
    define f :: "notification \<Rightarrow> notification" where "f = (\<lambda>m. if no_id m = i \<and> no_user m = u then m\<lparr>no_read_at := Some now\<rparr> else m)"
    have n: "no_id n = i" "no_user n = u" using find_SomeD[OF Some] by simp_all
    have "find (\<lambda>n. no_id n = i \<and> no_user n = u) (map f rows) = Some (f n)"
      using Some by (induction rows) (auto simp: f_def split: if_splits)
    then have "mark_read (map f rows) i u now' = (Some (f n), map f rows)"
      using n by (simp add: mark_read_def) (simp add: f_def)
    moreover have "mark_read rows i u now = (Some (n\<lparr>no_read_at := Some now\<rparr>), map f rows)"
      using Some True by (simp add: mark_read_def f_def)
    ultimately show ?thesis by simp
  next
    case False
    then obtain at_time where "no_read_at n = Some at_time" by auto
    then have "mark_read rows i u now = (Some n, rows)" "mark_read rows i u now' = (Some n, rows)"
      using Some by (simp_all add: mark_read_def)
    then show ?thesis by simp
  qed
qed (simp add: mark_read_def)

section \<open>Properties\<close>

text \<open>A notification is offered to every channel in order, whatever the others do: the channels that
  succeeded are exactly those whose send returned true, each other one has an error entry and nothing else
  has, and the notification counts as sent from the first success on, never earlier and never later
  again.\<close>

theorem dispatch_isolates:
  "dr_attempted (fst (dispatch channels now n)) = map ch_name channels \<and>
   dr_succeeded (fst (dispatch channels now n)) = map ch_name (filter (\<lambda>c. ch_send c n = Returned True) channels) \<and>
   dom (map_of (dr_errors (fst (dispatch channels now n)))) = ch_name ` {c \<in> set channels. ch_send c n \<noteq> Returned True} \<and>
   no_sent_at (snd (dispatch channels now n)) =
     (if no_sent_at n = None \<and> (\<exists>c \<in> set channels. ch_send c n = Returned True) then Some now else no_sent_at n)"
proof -
  define r where "r = foldl (\<lambda>r c. attempt n c r) \<lparr>dr_id = no_id n, dr_attempted = [], dr_succeeded = [], dr_errors = []\<rparr> channels"
  have a: "dr_attempted r = map ch_name channels" "dr_succeeded r = map ch_name (filter (succeeds n) channels)"
    "dom (map_of (dr_errors r)) = ch_name ` {c \<in> set channels. \<not> succeeds n c}"
    unfolding r_def using attempts[of n _ channels] by simp_all
  have "fst (dispatch channels now n) = r" "snd (dispatch channels now n) =
      (if any_success r \<and> no_sent_at n = None then n\<lparr>no_sent_at := Some now\<rparr> else n)"
    by (simp_all add: dispatch_def r_def Let_def)
  moreover have "any_success r \<longleftrightarrow> (\<exists>c \<in> set channels. succeeds n c)"
    by (auto simp: any_success_def a(2) filter_empty_conv)
  ultimately show ?thesis using a by (auto simp: succeeds_def[abs_def])
qed

text \<open>A ticket opens the stream of the user who asked for it once, and no other key changes.\<close>

lemma ticket_single_use:
  assumes R: "redis_kv R" and "rd_get R r (ticket_key t) = None" "t \<noteq> []" "py_uuid u = Some u"
  shows "let r1 = snd (create_ticket R t u r); (x, r2) = open_stream R (Some t) r1; (y, r3) = open_stream R (Some t) r2
    in x = Some u \<and> y = None \<and> (\<forall>k. rd_get R r3 k = rd_get R r k)"
proof -
  have nx: "rd_get R (snd (rd_set_nx R r k v tt)) k' = (if k' = k \<and> rd_get R r k = None then Some v else rd_get R r k')"
    and gd: "fst (rd_getdel R s k) = rd_get R s k" "rd_get R (snd (rd_getdel R s k)) k' = (if k' = k then None else rd_get R s k')"
    for k k' v tt s
    using R by (simp_all add: redis_kv_def)
  define r1 where "r1 = snd (create_ticket R t u r)"
  have r1: "rd_get R r1 k = (if k = ticket_key t then Some u else rd_get R r k)" for k
    using assms(2) by (simp add: r1_def create_ticket_def nx)
  obtain r2 where g1: "rd_getdel R r1 (ticket_key t) = (Some u, r2)" and r2: "\<And>k. rd_get R r2 k = rd_get R r k"
    using gd(1)[of r1 "ticket_key t"] gd(2)[of r1 "ticket_key t"] r1 assms(2) by (cases "rd_getdel R r1 (ticket_key t)") auto
  obtain r3 where g2: "rd_getdel R r2 (ticket_key t) = (None, r3)" and r3: "\<And>k. rd_get R r3 k = rd_get R r k"
    using gd(1)[of r2 "ticket_key t"] gd(2)[of r2 "ticket_key t"] r2 assms(2) by (cases "rd_getdel R r2 (ticket_key t)") auto
  show ?thesis using assms(3,4) g1 g2 r3 unfolding r1_def[symmetric] by (simp add: open_stream_def consume_ticket_def)
qed

end
