(* ===== verification/PyFloat.thy ===== *)
theory PyFloat
  imports PyText
begin

text \<open>
  Text of floats: \<open>str(x)\<close> and \<open>f"{x:g}"\<close>, and \<open>float(s)\<close>. Infinities, \<open>nan\<close> and the
  underscores between digits are not covered; \<open>float\<close> of a text it cannot read is \<open>None\<close>, the
  \<open>ValueError\<close>.
\<close>

section \<open>Writing\<close>

text \<open>The digits of a natural number, kept in binary while they are computed.\<close>

function int_digits :: "int \<Rightarrow> string" where
  "int_digits n = (if n < 10 then [''0123456789'' ! nat n] else int_digits (n div 10) @ [''0123456789'' ! nat (n mod 10)])"
  by pat_completeness auto
termination by (relation "measure nat") auto

declare int_digits.simps [simp del, py_eval]

lemma int_digits_nat_str: "0 \<le> n \<Longrightarrow> int_digits n = nat_str (nat n)"
proof (induction n rule: int_digits.induct)
  case (1 n)
  then show ?case
    by (subst int_digits.simps, subst nat_str.simps) (auto simp: nat_div_distrib nat_mod_distrib)
qed

text \<open>The significant digits of a decimal number with at most n of them, without trailing zeros, and the
  exponent of the first.\<close>

definition strip_zeros :: "string \<Rightarrow> string" where
  "strip_zeros ds = rev (dropWhile (\<lambda>c. c = CHR ''0'') (rev ds))"

definition sig_digits :: "nat \<Rightarrow> rat \<Rightarrow> string \<times> int" where
  "sig_digits n x =
     (let e = mag 10 x
      in (strip_zeros (int_digits \<lfloor>\<bar>x\<bar> * power_int 10 (int n - 1 - e)\<rfloor>), e))"

definition pad_exponent :: "int \<Rightarrow> string" where
  "pad_exponent e = (if e < 0 then ''-'' else ''+'') @ (let ds = nat_str (nat \<bar>e\<bar>) in if length ds < 2 then ''0'' @ ds else ds)"

definition positional :: "bool \<Rightarrow> string \<Rightarrow> int \<Rightarrow> string" where
  "positional point_zero ds e =
     (if e < 0 then ''0.'' @ replicate (nat (- e) - 1) CHR ''0'' @ ds
      else
        (let whole = nat e + 1
         in if length ds \<le> whole
            then ds @ replicate (whole - length ds) CHR ''0'' @ (if point_zero then ''.0'' else [])
            else take whole ds @ ''.'' @ drop whole ds))"

definition scientific :: "string \<Rightarrow> int \<Rightarrow> string" where
  "scientific ds e = (if length ds \<le> 1 then ds else take 1 ds @ ''.'' @ drop 1 ds) @ ''e'' @ pad_exponent e"

definition float_str :: "rat \<Rightarrow> string" where
  "float_str x =
     (if x = 0 then ''0.0''
      else (if x < 0 then ''-'' else []) @
        (case sig_digits 17 (float_repr x) of
           (ds, e) \<Rightarrow> if -4 \<le> e \<and> e < 16 then positional True ds e else scientific ds e))"

definition format_g :: "rat \<Rightarrow> string" where
  "format_g x =
     (if x = 0 then ''0''
      else (if x < 0 then ''-'' else []) @
        (case sig_digits 6 (sig_round 10 6 (-400) x) of
           (ds, e) \<Rightarrow> if -4 \<le> e \<and> e < 6 then positional False ds e else scientific ds e))"

declare strip_zeros_def [py_eval] sig_digits_def [py_eval] pad_exponent_def [py_eval] positional_def [py_eval]
  scientific_def [py_eval] float_str_def [py_eval] format_g_def [py_eval]

lemma float_str_examples:
  "float_str (f64 (533 / 100)) = ''5.33''" "float_str (f64 (1 / 10)) = ''0.1''" "float_str 100 = ''100.0''"
  "format_g 2 = ''2''" "format_g (5 / 2) = ''2.5''" "format_g 1500000 = ''1.5e+06''"
  by code_simp+

section \<open>Reading\<close>

definition float_mantissa :: "string \<Rightarrow> rat option" where
  "float_mantissa m =
     (let whole = takeWhile (\<lambda>c. c \<noteq> CHR ''.'') m; frac = drop (Suc (length whole)) m
      in if whole = [] \<and> frac = [] then None
         else (case (parse_digits 0 whole, parse_digits 0 frac) of
                 (Some a, Some b) \<Rightarrow> Some (of_int a + of_int b / 10 ^ length frac)
               | _ \<Rightarrow> None))"

definition py_float :: "string \<Rightarrow> rat option" where
  "py_float s =
     (let t = str_strip s;
          neg = (t \<noteq> [] \<and> hd t = CHR ''-'');
          u = (if t \<noteq> [] \<and> hd t \<in> {CHR ''-'', CHR ''+''} then tl t else t);
          m = takeWhile (\<lambda>c. c \<noteq> CHR ''e'' \<and> c \<noteq> CHR ''E'') u;
          ex = drop (length m) u;
          exponent = (if ex = [] then Some 0 else if list_ex is_space ex then None else py_int (tl ex))
      in case (float_mantissa m, exponent) of
           (Some v, Some e) \<Rightarrow> Some (f64 ((if neg then - v else v) * power_int 10 e))
         | _ \<Rightarrow> None)"

declare float_mantissa_def [py_eval] py_float_def [py_eval]

lemma py_float_examples:
  "py_float ''5.33'' = Some (f64 (533 / 100))" "py_float ''.'' = None" "py_float ''-1e2'' = Some (-100)"
  "py_float '' 4 '' = Some 4" "py_float ''abc'' = None"
  by code_simp+

end
