(* ===== verification/Risk_Guardian.thy ===== *)
theory Risk_Guardian
  imports Notifications PyFloat PyDate
begin

text \<open>
  The monitoring run (\<open>safety/risk_guardian.py\<close>): volatility, earnings and macro alerts, their
  persistence and their dispatch. The mean pandas computes, the earnings calendar and the answers of
  FRED are arguments. Rows come in the order the database returns them.
\<close>

section \<open>State and alerts\<close>

record user_row =
  us_id :: uuid
  us_active :: bool

record alert_event =
  ae_user :: uuid
  ae_type :: string
  ae_title :: string
  ae_body :: string
  ae_payload :: "(string \<times> json) list"

record monitor_db =
  md_positions :: "position_row list"
  md_connections :: "connection_row list"
  md_instruments :: "instrument_row list"
  md_prices :: "price_row list"
  md_users :: "user_row list"
  md_notifications :: "notification list"

definition MACRO_CHANGE_THRESHOLD :: rat where "MACRO_CHANGE_THRESHOLD = f64 (1 / 10)"

definition user_id_for_connection :: "monitor_db \<Rightarrow> uuid \<Rightarrow> uuid option" where
  "user_id_for_connection db conn = map_option co_user (find (\<lambda>c. co_id c = conn) (md_connections db))"

definition load_instrument :: "monitor_db \<Rightarrow> uuid \<Rightarrow> instrument_row option" where
  "load_instrument db i = find (\<lambda>r. in_id r = i) (md_instruments db)"

section \<open>Volatility\<close>

definition price_range :: "price_row \<Rightarrow> rat" where
  "price_range p = fsub (f64 (ph_high p)) (f64 (ph_low p))"

definition recent_bars :: "monitor_db \<Rightarrow> uuid \<Rightarrow> nat \<Rightarrow> price_row list" where
  "recent_bars db i n =
     take n (sort_desc (\<lambda>p. of_int (ph_timestamp p)) (filter (\<lambda>p. ph_instrument p = i) (md_prices db)))"

definition volatility_alert :: "uuid \<Rightarrow> string \<Rightarrow> rat \<Rightarrow> rat \<Rightarrow> rat \<Rightarrow> alert_event" where
  "volatility_alert user_id symb today_range adr multiplier =
     \<lparr>ae_user = user_id, ae_type = ''price_alert'', ae_title = ''Volatility alert: '' @ symb,
      ae_body = symb @ '' traded a '' @ fixed_str 2 today_range @ '' range today vs '' @ fixed_str 2 adr @
        '' average ('' @ format_g multiplier @ [CHR 0xC3, CHR 0x97] @ '' threshold).'',
      ae_payload = [(''symbol'', JStr symb), (''today_range'', JFloat today_range), (''adr'', JFloat adr),
        (''multiplier'', JFloat multiplier)]\<rparr>"

definition volatility_of ::
  "(rat list \<Rightarrow> rat) \<Rightarrow> nat \<Rightarrow> rat \<Rightarrow> monitor_db \<Rightarrow> position_row \<Rightarrow> alert_event list" where
  "volatility_of np_mean lookback_days multiplier db p =
     (case (user_id_for_connection db (po_connection p), load_instrument db (po_instrument p)) of
        (Some user_id, Some i) \<Rightarrow>
          (let rows = recent_bars db (po_instrument p) (lookback_days + 1)
           in if length rows < lookback_days + 1 then []
              else
                (let today_range = price_range (hd rows);
                     adr = np_mean (map price_range (take lookback_days (tl rows)))
                 in if adr \<le> 0 then []
                    else if today_range > fmul multiplier adr
                         then [volatility_alert user_id (in_symbol i) today_range adr multiplier]
                         else []))
      | _ \<Rightarrow> [])"

definition detect_volatility_alerts :: "(rat list \<Rightarrow> rat) \<Rightarrow> nat \<Rightarrow> rat \<Rightarrow> monitor_db \<Rightarrow> alert_event list" where
  "detect_volatility_alerts np_mean lookback_days multiplier db =
     concat (map (volatility_of np_mean lookback_days multiplier db) (md_positions db))"

section \<open>Earnings\<close>

definition earnings_alert :: "uuid \<Rightarrow> string \<Rightarrow> day \<Rightarrow> day \<Rightarrow> alert_event" where
  "earnings_alert user_id symb earnings_date today =
     (let days_until = earnings_date - today
      in \<lparr>ae_user = user_id, ae_type = ''system'',
          ae_title = ''Earnings in '' @ int_str days_until @ '' days: '' @ symb,
          ae_body = symb @ '' reports earnings on '' @ iso_date earnings_date @ '' ('' @ int_str days_until @ '' days away).'',
          ae_payload = [(''symbol'', JStr symb), (''earnings_date'', JStr (iso_date earnings_date)),
            (''days_until'', JInt days_until)]\<rparr>)"

fun earnings_loop ::
  "(string \<Rightarrow> day option) \<Rightarrow> day \<Rightarrow> day \<Rightarrow> monitor_db \<Rightarrow> (uuid \<times> string) list \<Rightarrow> position_row list \<Rightarrow> alert_event list" where
  "earnings_loop get_earnings_date today horizon db seen [] = []"
| "earnings_loop get_earnings_date today horizon db seen (p # ps) =
     (case (user_id_for_connection db (po_connection p), load_instrument db (po_instrument p)) of
        (Some user_id, Some i) \<Rightarrow>
          (case get_earnings_date (in_symbol i) of
             None \<Rightarrow> earnings_loop get_earnings_date today horizon db seen ps
           | Some earnings_date \<Rightarrow>
               if \<not> (today \<le> earnings_date \<and> earnings_date \<le> horizon)
               then earnings_loop get_earnings_date today horizon db seen ps
               else if (user_id, in_symbol i) \<in> set seen
               then earnings_loop get_earnings_date today horizon db seen ps
               else earnings_alert user_id (in_symbol i) earnings_date today #
                      earnings_loop get_earnings_date today horizon db ((user_id, in_symbol i) # seen) ps)
      | _ \<Rightarrow> earnings_loop get_earnings_date today horizon db seen ps)"

definition detect_earnings_alerts ::
  "(string \<Rightarrow> day option) \<Rightarrow> day \<Rightarrow> int \<Rightarrow> monitor_db \<Rightarrow> alert_event list" where
  "detect_earnings_alerts get_earnings_date today days_ahead db =
     earnings_loop get_earnings_date today (today + days_ahead) db [] (md_positions db)"

section \<open>Macro\<close>

text \<open>What a request for a series gives: an \<open>HTTPError\<close>, or a body, \<open>None\<close> when it is no JSON.\<close>

datatype fred_answer = FetchFailed | Body "json option"

record macro_change =
  mc_series :: string
  mc_latest :: rat
  mc_previous :: rat
  mc_delta :: rat
  mc_latest_date :: json

text \<open>\<open>float(value)\<close>; \<open>None\<close> is a \<open>TypeError\<close> or \<open>ValueError\<close>.\<close>

definition json_float :: "json \<Rightarrow> rat option" where
  "json_float v = (case v of JStr s \<Rightarrow> py_float s | JInt n \<Rightarrow> Some (f64 (of_int n)) | JFloat x \<Rightarrow> Some x
     | JBool b \<Rightarrow> Some (if b then 1 else 0) | _ \<Rightarrow> None)"

definition observation_value :: "json \<Rightarrow> rat option" where
  "observation_value ob = (case ob of JObj kvs \<Rightarrow> Option.bind (map_of kvs ''value'') json_float | _ \<Rightarrow> None)"

definition observation_date :: "json \<Rightarrow> json" where
  "observation_date ob = (case ob of JObj kvs \<Rightarrow> (case map_of kvs ''date'' of Some d \<Rightarrow> d | None \<Rightarrow> JNull) | _ \<Rightarrow> JNull)"

text \<open>One series: an uncaught exception, or the change if there is one to report. The body must be an object
  and its observations something with a length; of those only a list has usable items.\<close>

definition series_change :: "string \<Rightarrow> fred_answer \<Rightarrow> string + macro_change option" where
  "series_change series_id answer =
     (case answer of
        FetchFailed \<Rightarrow> Inr None
      | Body None \<Rightarrow> Inl ''JSONDecodeError''
      | Body (Some (JObj kvs)) \<Rightarrow>
          (case (case map_of kvs ''observations'' of Some obs \<Rightarrow> obs | None \<Rightarrow> JArr []) of
             JArr (o0 # o1 # rest) \<Rightarrow>
               (case (observation_value o0, observation_value o1) of
                  (Some latest, Some previous) \<Rightarrow>
                    (let delta = fsub latest previous
                     in if \<bar>delta\<bar> > MACRO_CHANGE_THRESHOLD
                        then Inr (Some \<lparr>mc_series = series_id, mc_latest = latest, mc_previous = previous,
                               mc_delta = delta, mc_latest_date = observation_date o0\<rparr>)
                        else Inr None)
                | _ \<Rightarrow> Inr None)
           | JArr _ \<Rightarrow> Inr None
           | JStr _ \<Rightarrow> Inr None
           | JObj _ \<Rightarrow> Inr None
           | _ \<Rightarrow> Inl ''TypeError'')
      | Body (Some _) \<Rightarrow> Inl ''AttributeError'')"

fun macro_changes :: "(string \<Rightarrow> fred_answer) \<Rightarrow> string list \<Rightarrow> string + macro_change list" where
  "macro_changes fred [] = Inr []"
| "macro_changes fred (s # ss) =
     bind_res (series_change s (fred s)) (\<lambda>c. bind_res (macro_changes fred ss) (\<lambda>cs.
       Inr ((case c of None \<Rightarrow> cs | Some change \<Rightarrow> change # cs))))"

text \<open>The text of the date is \<open>str(...)\<close> of a JSON value; for the values FRED does not send it is left to
  \<open>repr_json\<close>.\<close>

definition macro_alert :: "(json \<Rightarrow> string) \<Rightarrow> uuid \<Rightarrow> macro_change \<Rightarrow> alert_event" where
  "macro_alert repr_json uid c =
     \<lparr>ae_user = uid, ae_type = ''system'',
      ae_title = ''Macro alert: '' @ mc_series c @ '' moved '' @ (if mc_delta c < 0 then [] else ''+'') @ fixed_str 2 (mc_delta c),
      ae_body = mc_series c @ '' changed from '' @ float_str (mc_previous c) @ '' to '' @ float_str (mc_latest c) @
        '' (as of '' @ (case mc_latest_date c of JStr s \<Rightarrow> s | JNull \<Rightarrow> ''None'' | v \<Rightarrow> repr_json v) @ '').'',
      ae_payload = [(''series_id'', JStr (mc_series c)), (''latest'', JFloat (mc_latest c)),
        (''previous'', JFloat (mc_previous c)), (''delta'', JFloat (mc_delta c)), (''latest_date'', mc_latest_date c)]\<rparr>"

definition detect_macro_alerts ::
  "(json \<Rightarrow> string) \<Rightarrow> string option \<Rightarrow> (string \<Rightarrow> fred_answer) \<Rightarrow> string list \<Rightarrow> monitor_db \<Rightarrow> string + alert_event list" where
  "detect_macro_alerts repr_json api_key fred fred_series db =
     (if (case api_key of None \<Rightarrow> True | Some k \<Rightarrow> k = []) then Inr []
      else bind_res (macro_changes fred fred_series) (\<lambda>changes.
        Inr (concat (map (\<lambda>u. map (macro_alert repr_json (us_id u)) changes) (filter us_active (md_users db))))))"

section \<open>The run\<close>

definition row_of_alert :: "uuid \<Rightarrow> instant \<Rightarrow> alert_event \<Rightarrow> notification" where
  "row_of_alert fresh_id now a = \<lparr>no_id = fresh_id, no_user = ae_user a, no_type = ae_type a, no_title = ae_title a,
     no_body = ae_body a, no_payload = ae_payload a, no_sent_at = None, no_read_at = None, no_created_at = now\<rparr>"

text \<open>\<open>new_id\<close> numbers the rows of one call.\<close>

definition persist_alerts :: "(nat \<Rightarrow> uuid) \<Rightarrow> instant \<Rightarrow> alert_event list \<Rightarrow> monitor_db \<Rightarrow> notification list \<times> monitor_db" where
  "persist_alerts new_id now alerts db =
     (let persisted = map (\<lambda>(k, a). row_of_alert (new_id k) now a) (zip [0..<length alerts] alerts)
      in (persisted, db\<lparr>md_notifications := md_notifications db @ persisted\<rparr>))"

record run_inputs =
  ri_mean :: "rat list \<Rightarrow> rat"
  ri_earnings :: "string \<Rightarrow> day option"
  ri_today :: day
  ri_now :: instant
  ri_repr :: "json \<Rightarrow> string"
  ri_fred_key :: "string option"
  ri_fred :: "string \<Rightarrow> fred_answer"
  ri_new_id :: "nat \<Rightarrow> uuid"

text \<open>The rows are objects of the session, so the dispatcher's \<open>sent_at\<close> reaches the table; its failures
  are only logged.\<close>

definition run_all :: "run_inputs \<Rightarrow> channel list option \<Rightarrow> monitor_db \<Rightarrow> (string + notification list) \<times> monitor_db" where
  "run_all inp dispatcher db =
     (case detect_macro_alerts (ri_repr inp) (ri_fred_key inp) (ri_fred inp) [''DFF'', ''UNRATE''] db of
        Inl e \<Rightarrow> (Inl e, db)
      | Inr macro \<Rightarrow>
          (let events = detect_volatility_alerts (ri_mean inp) 20 2 db @
                 detect_earnings_alerts (ri_earnings inp) (ri_today inp) 5 db @ macro;
               (notifications, db1) = persist_alerts (ri_new_id inp) (ri_now inp) events db
           in case dispatcher of
                None \<Rightarrow> (Inr notifications, db1)
              | Some channels \<Rightarrow>
                  (let sent = map (\<lambda>n. snd (dispatch channels (ri_now inp) n)) notifications
                   in (Inr sent, db1\<lparr>md_notifications := md_notifications db @ sent\<rparr>))))"

definition run_risk_guardian_once ::
  "run_inputs \<Rightarrow> (json list \<Rightarrow> http_answer) \<Rightarrow> device_token list \<Rightarrow> monitor_db \<Rightarrow> (string + notification list) \<times> monitor_db" where
  "run_risk_guardian_once inp post devices db =
     run_all (inp\<lparr>ri_earnings := (\<lambda>_. None)\<rparr>)
       (Some [\<lparr>ch_name = ''ExpoPushChannel'', ch_send = expo_send post devices\<rparr>]) db"

section \<open>Lemmas\<close>

text \<open>Who would be told about the earnings of which symbol.\<close>

definition earnings_due ::
  "(string \<Rightarrow> day option) \<Rightarrow> day \<Rightarrow> day \<Rightarrow> monitor_db \<Rightarrow> position_row \<Rightarrow> (uuid \<times> string) option" where
  "earnings_due get_earnings_date today horizon db p =
     (case (user_id_for_connection db (po_connection p), load_instrument db (po_instrument p)) of
        (Some u, Some i) \<Rightarrow>
          (case get_earnings_date (in_symbol i) of
             Some d \<Rightarrow> if today \<le> d \<and> d \<le> horizon then Some (u, in_symbol i) else None
           | None \<Rightarrow> None)
      | _ \<Rightarrow> None)"

lemma earnings_loop_Cons:
  "earnings_loop ge today horizon db seen (p # ps) =
     (case earnings_due ge today horizon db p of
        None \<Rightarrow> earnings_loop ge today horizon db seen ps
      | Some (u, s) \<Rightarrow>
          if (u, s) \<in> set seen then earnings_loop ge today horizon db seen ps
          else earnings_alert u s (the (ge s)) today # earnings_loop ge today horizon db ((u, s) # seen) ps)"
  by (auto simp: earnings_due_def split: option.splits prod.splits)

lemma earnings_loop_exact:
  "\<exists>ks. earnings_loop ge today horizon db seen ps = map (\<lambda>(u, s). earnings_alert u s (the (ge s)) today) ks \<and>
     distinct ks \<and> set ks = {k. \<exists>p \<in> set ps. earnings_due ge today horizon db p = Some k} - set seen"
proof (induction ps arbitrary: seen)
  case (Cons p ps)
  show ?case
  proof (cases "earnings_due ge today horizon db p")
    case None
    then show ?thesis using Cons.IH[of seen] unfolding earnings_loop_Cons by simp
  next
    case (Some k)
    obtain u s where k: "k = (u, s)" by (cases k)
    show ?thesis
    proof (cases "k \<in> set seen")
      case True
      then show ?thesis using Cons.IH[of seen] Some k unfolding earnings_loop_Cons by auto
    next
      case False
      obtain ks where "earnings_loop ge today horizon db (k # seen) ps =
          map (\<lambda>(u, s). earnings_alert u s (the (ge s)) today) ks" "distinct ks"
        "set ks = {k. \<exists>p \<in> set ps. earnings_due ge today horizon db p = Some k} - set (k # seen)"
        using Cons.IH[of "k # seen"] by blast
      then show ?thesis using Some False k unfolding earnings_loop_Cons by (intro exI[of _ "k # ks"]) auto
    qed
  qed
qed simp

lemma macro_changes_threshold:
  "macro_changes fred ss = Inr cs \<Longrightarrow> c \<in> set cs \<Longrightarrow> MACRO_CHANGE_THRESHOLD < \<bar>mc_delta c\<bar> \<and> mc_series c \<in> set ss"
proof (induction ss arbitrary: cs)
  case (Cons s ss)
  obtain x xs where x: "series_change s (fred s) = Inr x" "macro_changes fred ss = Inr xs"
    "cs = (case x of None \<Rightarrow> xs | Some change \<Rightarrow> change # xs)"
    using Cons.prems(1) by (auto simp: bind_res_Inr_iff)
  have "MACRO_CHANGE_THRESHOLD < \<bar>mc_delta ch\<bar> \<and> mc_series ch = s" if "x = Some ch" for ch
    using x(1) that by (auto simp: series_change_def Let_def split: fred_answer.splits option.splits json.splits list.splits if_splits)
  then show ?case using x Cons.IH[OF x(2)] Cons.prems(2) by (cases x) auto
qed simp

text \<open>The content of a row, without what the dispatcher writes.\<close>

definition alert_of_row :: "notification \<Rightarrow> alert_event" where
  "alert_of_row n = \<lparr>ae_user = no_user n, ae_type = no_type n, ae_title = no_title n, ae_body = no_body n,
     ae_payload = no_payload n\<rparr>"

lemma alert_of_row_row [simp]: "alert_of_row (row_of_alert i now a) = a"
  by (simp add: alert_of_row_def row_of_alert_def)

lemma alert_of_row_dispatch [simp]: "alert_of_row (snd (dispatch channels now n)) = alert_of_row n"
  by (simp add: dispatch_def Let_def alert_of_row_def)

lemma persisted_alerts: "map alert_of_row (fst (persist_alerts new_id now alerts db)) = alerts"
proof -
  have "map alert_of_row (fst (persist_alerts new_id now alerts db)) = map snd (zip [0..<length alerts] alerts)"
    by (simp add: persist_alerts_def Let_def comp_def split_beta)
  then show ?thesis by (simp add: map_snd_zip)
qed

lemma run_all_stores:
  assumes macro: "detect_macro_alerts (ri_repr inp) (ri_fred_key inp) (ri_fred inp) [''DFF'', ''UNRATE''] db = Inr macro"
  shows "\<exists>ns. run_all inp dispatcher db = (Inr ns, db\<lparr>md_notifications := md_notifications db @ ns\<rparr>) \<and>
    map alert_of_row ns = detect_volatility_alerts (ri_mean inp) 20 2 db @
      detect_earnings_alerts (ri_earnings inp) (ri_today inp) 5 db @ macro"
proof -
  define ev where "ev = detect_volatility_alerts (ri_mean inp) 20 2 db @
    detect_earnings_alerts (ri_earnings inp) (ri_today inp) 5 db @ macro"
  define ns where "ns = fst (persist_alerts (ri_new_id inp) (ri_now inp) ev db)"
  have p: "persist_alerts (ri_new_id inp) (ri_now inp) ev db = (ns, db\<lparr>md_notifications := md_notifications db @ ns\<rparr>)"
    by (simp add: ns_def persist_alerts_def Let_def)
  have ns: "map alert_of_row ns = ev" unfolding ns_def by (rule persisted_alerts)
  have run: "run_all inp dispatcher db = (case dispatcher of
      None \<Rightarrow> (Inr ns, db\<lparr>md_notifications := md_notifications db @ ns\<rparr>)
    | Some channels \<Rightarrow> (let sent = map (\<lambda>n. snd (dispatch channels (ri_now inp) n)) ns
        in (Inr sent, db\<lparr>md_notifications := md_notifications db @ sent\<rparr>)))"
    unfolding run_all_def macro by (cases dispatcher) (simp_all add: p Let_def flip: ev_def)
  show ?thesis
  proof (cases dispatcher)
    case None
    then show ?thesis using run ns by (simp add: ev_def)
  next
    case (Some channels)
    have "map alert_of_row (map (\<lambda>n. snd (dispatch channels (ri_now inp) n)) ns) = ev" using ns by (simp add: comp_def)
    then show ?thesis using run Some by (simp add: Let_def flip: ev_def)
  qed
qed

lemma earnings_due_iff:
  "earnings_due ge today horizon db p = Some (u, s) \<longleftrightarrow>
     (\<exists>i d. user_id_for_connection db (po_connection p) = Some u \<and> load_instrument db (po_instrument p) = Some i \<and>
        in_symbol i = s \<and> ge s = Some d \<and> today \<le> d \<and> d \<le> horizon)"
  by (auto simp: earnings_due_def split: option.splits)

lemma due_set:
  "{k. \<exists>p \<in> set ps. earnings_due ge today horizon db p = Some k} =
     {(u, s). \<exists>p i d. p \<in> set ps \<and> user_id_for_connection db (po_connection p) = Some u \<and>
        load_instrument db (po_instrument p) = Some i \<and> in_symbol i = s \<and> ge s = Some d \<and> today \<le> d \<and> d \<le> horizon}"
  (is "?L = ?R")
proof (rule set_eqI)
  fix k :: "uuid \<times> string"
  obtain u s where k: "k = (u, s)" by (cases k)
  show "k \<in> ?L \<longleftrightarrow> k \<in> ?R" unfolding k mem_Collect_eq prod.case earnings_due_iff Bex_def by blast
qed

text \<open>No detector looks at the quantity of a position.\<close>

lemma quantity_lookups:
  "user_id_for_connection (db\<lparr>md_positions := ps\<rparr>) = user_id_for_connection db"
  "load_instrument (db\<lparr>md_positions := ps\<rparr>) = load_instrument db"
  "recent_bars (db\<lparr>md_positions := ps\<rparr>) = recent_bars db"
  by (simp_all add: user_id_for_connection_def load_instrument_def recent_bars_def fun_eq_iff)

lemma earnings_loop_quantity:
  "earnings_loop ge today h (db\<lparr>md_positions := ps'\<rparr>) seen (map (\<lambda>p. p\<lparr>po_quantity := q p\<rparr>) ps) =
     earnings_loop ge today h db seen ps"
  by (induction ps arbitrary: seen) (simp_all add: quantity_lookups split: option.splits)

lemma earnings_ignore_quantity:
  "detect_earnings_alerts ge today days_ahead (db\<lparr>md_positions := map (\<lambda>p. p\<lparr>po_quantity := q p\<rparr>) (md_positions db)\<rparr>) =
     detect_earnings_alerts ge today days_ahead db"
  unfolding detect_earnings_alerts_def by (simp add: earnings_loop_quantity)

lemma volatility_ignores_quantity:
  "detect_volatility_alerts np_mean n m (db\<lparr>md_positions := map (\<lambda>p. p\<lparr>po_quantity := q p\<rparr>) (md_positions db)\<rparr>) =
     detect_volatility_alerts np_mean n m db"
proof -
  have "volatility_of np_mean n m (db\<lparr>md_positions := ps\<rparr>) (p\<lparr>po_quantity := x\<rparr>) = volatility_of np_mean n m db p" for p x ps
    unfolding volatility_of_def quantity_lookups by (simp cong: option.case_cong)
  then show ?thesis by (simp add: detect_volatility_alerts_def comp_def)
qed

section \<open>Properties\<close>

text \<open>The earnings alerts of a run are one for each user and symbol that a position of the user has with an
  earnings date from today to the horizon, and no others; and neither they nor the volatility alerts
  depend on the quantity of a position, so that a position the sync has closed to zero goes on
  alerting.\<close>

theorem earnings_alerts_exact:
  "(\<exists>ks. detect_earnings_alerts ge today days_ahead db = map (\<lambda>(u, s). earnings_alert u s (the (ge s)) today) ks \<and>
      distinct ks \<and>
      set ks = {(u, s). \<exists>p i d. p \<in> set (md_positions db) \<and> user_id_for_connection db (po_connection p) = Some u \<and>
        load_instrument db (po_instrument p) = Some i \<and> in_symbol i = s \<and> ge s = Some d \<and>
        today \<le> d \<and> d \<le> today + days_ahead}) \<and>
   detect_earnings_alerts ge today days_ahead (db\<lparr>md_positions := map (\<lambda>p. p\<lparr>po_quantity := q p\<rparr>) (md_positions db)\<rparr>) =
     detect_earnings_alerts ge today days_ahead db \<and>
   detect_volatility_alerts np_mean n m (db\<lparr>md_positions := map (\<lambda>p. p\<lparr>po_quantity := q p\<rparr>) (md_positions db)\<rparr>) =
     detect_volatility_alerts np_mean n m db"
proof (intro conjI)
  show "\<exists>ks. detect_earnings_alerts ge today days_ahead db = map (\<lambda>(u, s). earnings_alert u s (the (ge s)) today) ks \<and>
      distinct ks \<and>
      set ks = {(u, s). \<exists>p i d. p \<in> set (md_positions db) \<and> user_id_for_connection db (po_connection p) = Some u \<and>
        load_instrument db (po_instrument p) = Some i \<and> in_symbol i = s \<and> ge s = Some d \<and>
        today \<le> d \<and> d \<le> today + days_ahead}"
    using earnings_loop_exact[of ge today "today + days_ahead" db "[]" "md_positions db"]
    unfolding detect_earnings_alerts_def due_set by simp
qed (rule earnings_ignore_quantity volatility_ignores_quantity)+

text \<open>C21. A run stores exactly the alerts of the three detectors, in their order, whatever the channels do, and
  changes no other table; but an answer of FRED that the macro detector cannot take apart aborts the
  run before anything is stored or sent, and an answer that is no JSON is one.\<close>

theorem monitoring_run:
  "(case detect_macro_alerts (ri_repr inp) (ri_fred_key inp) (ri_fred inp) [''DFF'', ''UNRATE''] db of
      Inl e \<Rightarrow> run_all inp dispatcher db = (Inl e, db)
    | Inr macro \<Rightarrow>
        (\<exists>ns. run_all inp dispatcher db = (Inr ns, db\<lparr>md_notifications := md_notifications db @ ns\<rparr>) \<and>
           map alert_of_row ns = detect_volatility_alerts (ri_mean inp) 20 2 db @
             detect_earnings_alerts (ri_earnings inp) (ri_today inp) 5 db @ macro)) \<and>
   detect_macro_alerts r (Some (c # key)) (\<lambda>s. if s = ''DFF'' then Body None else fred s) [''DFF'', ''UNRATE''] db =
     Inl ''JSONDecodeError''"
proof (intro conjI)
  show "detect_macro_alerts r (Some (c # key)) (\<lambda>s. if s = ''DFF'' then Body None else fred s) [''DFF'', ''UNRATE''] db =
     Inl ''JSONDecodeError''"
    by (simp add: detect_macro_alerts_def series_change_def)
next
  show "case detect_macro_alerts (ri_repr inp) (ri_fred_key inp) (ri_fred inp) [''DFF'', ''UNRATE''] db of
      Inl e \<Rightarrow> run_all inp dispatcher db = (Inl e, db)
    | Inr macro \<Rightarrow>
        (\<exists>ns. run_all inp dispatcher db = (Inr ns, db\<lparr>md_notifications := md_notifications db @ ns\<rparr>) \<and>
           map alert_of_row ns = detect_volatility_alerts (ri_mean inp) 20 2 db @
             detect_earnings_alerts (ri_earnings inp) (ri_today inp) 5 db @ macro)"
  proof (cases "detect_macro_alerts (ri_repr inp) (ri_fred_key inp) (ri_fred inp) [''DFF'', ''UNRATE''] db")
    case (Inr macro)
    then show ?thesis using run_all_stores[OF Inr, of dispatcher] by simp
  qed (simp add: run_all_def)
qed

end
