(* ===== verification/Sentiment.thy ===== *)
theory Sentiment
  imports PyDate
begin

text \<open>
  The composite sentiment (\<open>analysis/sentiment.py\<close>). The feeds, FinBERT and the power function of the
  C library behind \<open>0.5 ** x\<close> are arguments; a feed that is not configured, fails or raises is
  distinguished from one that answers nothing. The cut of a text at 400 characters counts bytes here,
  which differs for texts outside ASCII; only FinBERT sees them.
\<close>

section \<open>Constants and results\<close>

definition NEWS_WEIGHT :: rat where "NEWS_WEIGHT = f64 (50 / 100)"
definition SOCIAL_WEIGHT :: rat where "SOCIAL_WEIGHT = f64 (20 / 100)"
definition MACRO_WEIGHT :: rat where "MACRO_WEIGHT = f64 (30 / 100)"
definition NEWS_HALF_LIFE_HOURS :: rat where "NEWS_HALF_LIFE_HOURS = 24"
definition SOCIAL_HALF_LIFE_HOURS :: rat where "SOCIAL_HALF_LIFE_HOURS = 1"

record sentiment_breakdown =
  sb_news_weight :: rat
  sb_social_weight :: rat
  sb_macro_weight :: rat
  sb_news_available :: bool
  sb_social_available :: bool
  sb_macro_available :: bool

record sentiment_result =
  sr_symbol :: string
  sr_composite :: rat
  sr_news_score :: rat
  sr_social_score :: rat
  sr_macro_score :: rat
  sr_article_count :: nat
  sr_reddit_count :: nat
  sr_breakdown :: sentiment_breakdown

text \<open>An article or a post: its title, its text and when it appeared.\<close>

record item =
  it_title :: string
  it_text :: string
  it_at :: instant

section \<open>Decay and weights\<close>

definition decay_weight :: "(rat \<Rightarrow> rat) \<Rightarrow> rat \<Rightarrow> rat \<Rightarrow> rat" where
  "decay_weight half_pow age_hours half_life_hours =
     (if age_hours \<le> 0 then 1 else half_pow (fdiv age_hours half_life_hours))"

definition item_age_hours :: "instant \<Rightarrow> instant \<Rightarrow> rat" where
  "item_age_hours item_ts now = max (fdiv (f64 (of_int (now - item_ts) / 10 ^ 6)) 3600) 0"

definition weighted_mean :: "rat list \<Rightarrow> rat list \<Rightarrow> rat" where
  "weighted_mean values ws =
     (if values = [] then 0
      else (let total_weight = py_fsum ws
            in if total_weight \<le> 0 then 0
               else fdiv (py_fsum (map (\<lambda>(v, w). fmul v w) (zip values ws))) total_weight))"

definition resolve_weights :: "bool \<Rightarrow> bool \<Rightarrow> bool \<Rightarrow> rat \<times> rat \<times> rat" where
  "resolve_weights news_available social_available macro_available =
     (if \<not> news_available \<and> \<not> social_available \<and> \<not> macro_available then (0, 0, 0)
      else if news_available \<and> \<not> social_available \<and> macro_available then (f64 (60 / 100), 0, f64 (40 / 100))
      else if news_available \<and> social_available \<and> \<not> macro_available then (f64 (70 / 100), f64 (30 / 100), 0)
      else if news_available \<and> \<not> social_available \<and> \<not> macro_available then (1, 0, 0)
      else if \<not> news_available \<and> social_available \<and> macro_available then (0, f64 (40 / 100), f64 (60 / 100))
      else if \<not> news_available \<and> social_available \<and> \<not> macro_available then (0, 1, 0)
      else if \<not> news_available \<and> \<not> social_available \<and> macro_available then (0, 0, 1)
      else (NEWS_WEIGHT, SOCIAL_WEIGHT, MACRO_WEIGHT))"

section \<open>The legs\<close>

text \<open>\<open>score_batch\<close> answers one score per text, or \<open>None\<close> when FinBERT is unavailable.\<close>

definition leg_text :: "item \<Rightarrow> string" where
  "leg_text a = it_title a @ ''. '' @ take 400 (it_text a)"

definition score_leg ::
  "(string list \<Rightarrow> rat list option) \<Rightarrow> (rat \<Rightarrow> rat) \<Rightarrow> rat \<Rightarrow> instant \<Rightarrow> item list \<Rightarrow> rat" where
  "score_leg score_batch half_pow half_life now items =
     (if items = [] then 0
      else (case score_batch (map leg_text items) of
              None \<Rightarrow> 0
            | Some scores \<Rightarrow>
                weighted_mean scores (map (\<lambda>a. decay_weight half_pow (item_age_hours (it_at a) now) half_life) items)))"

type_synonym observations = "(instant \<times> rat) list"

definition latest_of :: "(string, observations) dict \<Rightarrow> string \<Rightarrow> (instant \<times> rat) option" where
  "latest_of obs series_id = (let xs = dict_get obs series_id [] in if xs = [] then None else Some (last xs))"

definition value_at_or_before :: "(string, observations) dict \<Rightarrow> string \<Rightarrow> instant \<Rightarrow> (instant \<times> rat) option" where
  "value_at_or_before obs series_id target =
     (let xs = takeWhile (\<lambda>(ts, v). ts \<le> target) (dict_get obs series_id []) in if xs = [] then None else Some (last xs))"

text \<open>\<open>t.replace(year=t.year - 1)\<close>; \<open>None\<close> is the \<open>ValueError\<close> of a 29 February.\<close>

definition leap_year :: "int \<Rightarrow> bool" where
  "leap_year y \<longleftrightarrow> y mod 4 = 0 \<and> (y mod 100 \<noteq> 0 \<or> y mod 400 = 0)"

definition year_before :: "instant \<Rightarrow> instant option" where
  "year_before t =
     (case civil (date_of t) of (y, m, d) \<Rightarrow>
        if m = 2 \<and> d = 29 then None
        else Some (t - (if (if m \<le> 2 then leap_year (y - 1) else leap_year y) then 366 else 365) * day_us))"

definition unemployment_part :: "(string, observations) dict \<Rightarrow> string + rat list" where
  "unemployment_part obs =
     (case latest_of obs ''UNRATE'' of
        None \<Rightarrow> Inr []
      | Some (t, v) \<Rightarrow>
          (case year_before t of
             None \<Rightarrow> Inl ''ValueError''
           | Some target \<Rightarrow>
               (case value_at_or_before obs ''UNRATE'' target of
                  None \<Rightarrow> Inr []
                | Some (_, p) \<Rightarrow> Inr [clamp (-1) 1 (- fsub v p)])))"

definition fed_funds_part :: "(string, observations) dict \<Rightarrow> rat list" where
  "fed_funds_part obs =
     (case latest_of obs ''FEDFUNDS'' of
        None \<Rightarrow> []
      | Some (t, v) \<Rightarrow>
          (case value_at_or_before obs ''FEDFUNDS'' (t - 90 * day_us) of
             None \<Rightarrow> []
           | Some (_, p) \<Rightarrow> [clamp (-1) 1 (fdiv (- fmul (fsub v p) 100) 50)]))"

definition gdp_part :: "(string, observations) dict \<Rightarrow> string + rat list" where
  "gdp_part obs =
     (case latest_of obs ''GDPC1'' of
        None \<Rightarrow> Inr []
      | Some (t, v) \<Rightarrow>
          (case year_before t of
             None \<Rightarrow> Inl ''ValueError''
           | Some target \<Rightarrow>
               (case value_at_or_before obs ''GDPC1'' target of
                  None \<Rightarrow> Inr []
                | Some (_, p) \<Rightarrow>
                    if p > 0 then Inr [clamp (-1) 1 (fdiv (fmul (fdiv (fsub v p) p) 100) 5)] else Inr [])))"

definition compute_macro_score :: "(string, observations) dict \<Rightarrow> string + rat" where
  "compute_macro_score obs =
     (if obs = [] then Inr 0
      else bind_res (unemployment_part obs) (\<lambda>us. bind_res (gdp_part obs) (\<lambda>gs.
        let components = us @ fed_funds_part obs @ gs
        in Inr (if components = [] then 0 else fdiv (py_fsum components) (of_nat (length components))))))"

section \<open>The composite\<close>

text \<open>A feed that is not configured is \<open>None\<close>; \<open>Some None\<close> is the exception it raises.\<close>

definition articles_of :: "item list option option \<Rightarrow> item list option option \<Rightarrow> item list" where
  "articles_of gnews rss =
     (let found = (case gnews of Some (Some xs) \<Rightarrow> xs | _ \<Rightarrow> [])
      in if found = [] then (case rss of Some (Some xs) \<Rightarrow> xs | _ \<Rightarrow> []) else found)"

definition compute_sentiment ::
  "(string list \<Rightarrow> rat list option) \<Rightarrow> (rat \<Rightarrow> rat) \<Rightarrow> string \<Rightarrow> item list option option \<Rightarrow> item list option option \<Rightarrow>
   item list option option \<Rightarrow> (string, observations) dict option \<Rightarrow> instant \<Rightarrow> string + sentiment_result" where
  "compute_sentiment score_batch half_pow symbol gnews rss reddit fred_observations now =
     (let symbol_u = str_strip (str_upper symbol);
          articles = articles_of gnews rss;
          news_available = (articles \<noteq> []);
          news_score = score_leg score_batch half_pow NEWS_HALF_LIFE_HOURS now articles;
          social_available = (case reddit of Some (Some _) \<Rightarrow> True | _ \<Rightarrow> False);
          posts = (case reddit of Some (Some xs) \<Rightarrow> xs | _ \<Rightarrow> []);
          social_score = score_leg score_batch half_pow SOCIAL_HALF_LIFE_HOURS now posts;
          obs = (case fred_observations of None \<Rightarrow> [] | Some d \<Rightarrow> d);
          macro_available = (obs \<noteq> [])
      in bind_res (compute_macro_score obs) (\<lambda>macro_score.
         let (w_news, w_social, w_macro) = resolve_weights news_available social_available macro_available;
             composite_raw = fadd (fadd (fmul w_news news_score) (fmul w_social social_score)) (fmul w_macro macro_score)
         in Inr \<lparr>sr_symbol = symbol_u, sr_composite = clamp (-1) 1 composite_raw, sr_news_score = news_score,
              sr_social_score = social_score, sr_macro_score = macro_score, sr_article_count = length articles,
              sr_reddit_count = length posts,
              sr_breakdown = \<lparr>sb_news_weight = w_news, sb_social_weight = w_social, sb_macro_weight = w_macro,
                sb_news_available = news_available, sb_social_available = social_available,
                sb_macro_available = macro_available\<rparr>\<rparr>))"

section \<open>Lemmas\<close>

text \<open>A leg has weight exactly when it is available, up to the three constants of the mixed case the weights
  are those of the brief, and the composite is on its scale.\<close>

lemma f64_tenths: "1 / 2 ^ 3 \<le> x \<Longrightarrow> f64 x \<noteq> 0"
proof -
  assume x: "1 / 2 ^ 3 \<le> x"
  have "f64 (1 / 2 ^ 3) = 1 / 2 ^ 3"
    unfolding f64_def by (rule sig_round_exact[where m = 1 and k = "-3"]) (simp_all add: power_int_minus)
  then have "1 / 2 ^ 3 \<le> f64 x" using fl.rnd_ge x by blast
  moreover have "(0 :: rat) < 1 / 2 ^ 3" by simp
  ultimately show ?thesis by linarith
qed

lemma resolve_weights_available:
  "fst (resolve_weights n s m) = 0 \<longleftrightarrow> \<not> n" "fst (snd (resolve_weights n s m)) = 0 \<longleftrightarrow> \<not> s"
  "snd (snd (resolve_weights n s m)) = 0 \<longleftrightarrow> \<not> m"
  by (simp_all add: resolve_weights_def NEWS_WEIGHT_def SOCIAL_WEIGHT_def MACRO_WEIGHT_def f64_tenths)

lemma compute_sentiment_range:
  "compute_sentiment sb hp symbol gnews rss reddit fred now = Inr r \<Longrightarrow> -1 \<le> sr_composite r \<and> sr_composite r \<le> 1"
  by (auto simp: compute_sentiment_def Let_def bind_res_Inr_iff split_beta clamp_bounds)

text \<open>When FinBERT fails the news keep their weight with a neutral score, so the composite is drawn to zero
  without a leg being flagged.\<close>

lemma finbert_failure_dilutes:
  assumes "articles_of gnews rss \<noteq> []"
    and "compute_sentiment (\<lambda>_. None) hp symbol gnews rss reddit fred now = Inr r"
  shows "sr_news_score r = 0 \<and> sb_news_available (sr_breakdown r) \<and> sb_news_weight (sr_breakdown r) \<noteq> 0"
  using assms by (auto simp: compute_sentiment_def Let_def bind_res_Inr_iff score_leg_def split_beta resolve_weights_available)

end
