(* ===== verification/Http.thy ===== *)
theory Http
  imports PyFloat PyDate
begin

text \<open>
  What the clients of outside services share: an answer of the HTTP library, \<open>Decimal(text)\<close>,
  \<open>date.fromisoformat\<close>, and reading a JSON document with the exceptions Python raises on a wrong
  shape. Infinite and \<open>NaN\<close> amounts are treated as unreadable.
\<close>

section \<open>Answers of the HTTP library\<close>

text \<open>An exception carries its text. \<open>Response\<close> has the status and the body.\<close>

datatype http_outcome = TimedOut string | TransportError string | Response int string

text \<open>\<open>resp.raise_for_status(); return resp.json()\<close>: the first two failures are \<open>httpx.HTTPError\<close>, a body
  that is no JSON is a \<open>ValueError\<close>.\<close>

datatype json_answer = Http_Failed string | Http_Status int | Not_Json | Body json

definition request_json :: "http_outcome \<Rightarrow> json_answer" where
  "request_json outcome =
     (case outcome of
        TimedOut exc \<Rightarrow> Http_Failed exc
      | TransportError exc \<Rightarrow> Http_Failed exc
      | Response status text \<Rightarrow>
          if status < 200 \<or> 300 \<le> status then Http_Status status
          else (case json_loads text of None \<Rightarrow> Not_Json | Some j \<Rightarrow> Body j))"

section \<open>Decimals\<close>

text \<open>\<open>Decimal(text)\<close>: exact, underscores are ignored; \<open>None\<close> is \<open>InvalidOperation\<close>.\<close>

definition py_dec :: "string \<Rightarrow> decimal option" where
  "py_dec s =
     (let t = filter (\<lambda>c. c \<noteq> CHR ''_'') (str_strip s);
          neg = (t \<noteq> [] \<and> hd t = CHR ''-'');
          u = (if t \<noteq> [] \<and> hd t \<in> {CHR ''-'', CHR ''+''} then tl t else t);
          m = takeWhile (\<lambda>c. c \<noteq> CHR ''e'' \<and> c \<noteq> CHR ''E'') u;
          ex = drop (length m) u;
          whole = takeWhile (\<lambda>c. c \<noteq> CHR ''.'') m;
          frac = drop (Suc (length whole)) m;
          exponent = (if ex = [] then Some 0 else if list_ex is_space ex then None else py_int (tl ex))
      in if whole = [] \<and> frac = [] then None
         else (case (parse_digits 0 (whole @ frac), exponent) of
                 (Some c, Some e) \<Rightarrow> Some (Dec (if neg then - c else c) (e - int (length frac)))
               | _ \<Rightarrow> None))"

definition py_decimal :: "string \<Rightarrow> rat option" where
  "py_decimal s = map_option dec_val (py_dec s)"

lemma py_dec_examples:
  "py_dec ''12.50'' = Some (Dec 1250 (-2))" "py_dec '' 1_000 '' = Some (Dec 1000 0)"
  "py_dec ''-1.5E+3'' = Some (Dec (-15) 2)" "py_dec ''None'' = None" "py_dec '''' = None" "py_dec ''.'' = None"
  by code_simp+

section \<open>Dates\<close>

text \<open>The day number of a civil date, and \<open>date.fromisoformat\<close>: \<open>YYYY-MM-DD\<close>, \<open>YYYYMMDD\<close> and the week
  forms \<open>YYYY-Www-D\<close>, \<open>YYYYWwwD\<close> with an optional day.\<close>

definition day_number :: "int \<Rightarrow> int \<Rightarrow> int \<Rightarrow> day" where
  "day_number y m d =
     (let y' = (if m \<le> 2 then y - 1 else y);
          era = y' div 400;
          yoe = y' - era * 400;
          doy = (153 * (if m > 2 then m - 3 else m + 9) + 2) div 5 + d - 1;
          doe = yoe * 365 + yoe div 4 - yoe div 100 + doy
      in era * 146097 + doe - 719468)"

definition is_leap :: "int \<Rightarrow> bool" where
  "is_leap y \<longleftrightarrow> y mod 4 = 0 \<and> (y mod 100 \<noteq> 0 \<or> y mod 400 = 0)"

definition days_in_month :: "int \<Rightarrow> int \<Rightarrow> int" where
  "days_in_month y m = (if m = 2 then (if is_leap y then 29 else 28) else if m \<in> {4, 6, 9, 11} then 30 else 31)"

definition valid_date :: "int \<Rightarrow> int \<Rightarrow> int \<Rightarrow> day option" where
  "valid_date y m d =
     (if 1 \<le> y \<and> y \<le> 9999 \<and> 1 \<le> m \<and> m \<le> 12 \<and> 1 \<le> d \<and> d \<le> days_in_month y m then Some (day_number y m d) else None)"

definition week_one :: "int \<Rightarrow> day" where
  "week_one y = (let d4 = day_number y 1 4 in d4 - weekday d4)"

definition valid_week :: "int \<Rightarrow> int \<Rightarrow> int \<Rightarrow> day option" where
  "valid_week y w d =
     (if 1 \<le> y \<and> y \<le> 9999 \<and> 1 \<le> d \<and> d \<le> 7 \<and> 1 \<le> w \<and> week_one y + (w - 1) * 7 < week_one (y + 1)
      then Some (week_one y + (w - 1) * 7 + d - 1) else None)"

fun digits_at :: "string \<Rightarrow> nat \<Rightarrow> nat \<Rightarrow> int option" where
  "digits_at s i n = (if i + n \<le> length s then parse_digits 0 (take n (drop i s)) else None)"

definition py_date :: "string \<Rightarrow> day option" where
  "py_date s =
     (let n = length s; year = digits_at s 0 4;
          ymd = (\<lambda>i j. Option.bind year (\<lambda>y. Option.bind (digits_at s i 2) (\<lambda>m. Option.bind (digits_at s j 2) (valid_date y m))));
          week = (\<lambda>i d. Option.bind year (\<lambda>y. Option.bind (digits_at s i 2) (\<lambda>w. Option.bind d (valid_week y w))))
      in if n = 10 \<and> s ! 4 = CHR ''-'' \<and> s ! 5 = CHR ''W'' then (if s ! 8 = CHR ''-'' then week 6 (digits_at s 9 1) else None)
         else if n = 10 then (if s ! 4 = CHR ''-'' \<and> s ! 7 = CHR ''-'' then ymd 5 8 else None)
         else if n = 8 \<and> s ! 4 = CHR ''-'' then (if s ! 5 = CHR ''W'' then week 6 (Some 1) else None)
         else if n = 8 \<and> s ! 4 = CHR ''W'' then week 5 (digits_at s 7 1)
         else if n = 8 then ymd 4 6
         else if n = 7 then (if s ! 4 = CHR ''W'' then week 5 (Some 1) else None)
         else None)"

lemma py_date_examples:
  "py_date ''1970-01-01'' = Some 0" "py_date ''20260228'' = Some 20512" "py_date ''2024-02-29'' = Some 19782"
  "py_date ''2025-02-29'' = None" "py_date ''2026-W09-6'' = Some 20512" "py_date ''x'' = None"
  by code_simp+

section \<open>Reading JSON as Python does\<close>

datatype py_error = AttributeError | KeyError | IndexError | ValueError | TypeError | ArithmeticError

text \<open>\<open>x.get(k)\<close>, \<open>x.get(k, d)\<close>, \<open>x or y\<close>, \<open>x[k]\<close> with a text as key, and \<open>for y in x\<close>.\<close>

definition j_get_or :: "json \<Rightarrow> string \<Rightarrow> json \<Rightarrow> py_error + json" where
  "j_get_or x k d = (case x of JObj kvs \<Rightarrow> Inr (dict_get kvs k d) | _ \<Rightarrow> Inl AttributeError)"

definition j_get :: "json \<Rightarrow> string \<Rightarrow> py_error + json" where "j_get x k = j_get_or x k JNull"

definition j_or :: "json \<Rightarrow> json \<Rightarrow> json" where "j_or x y = (if truthy x then x else y)"

definition j_item :: "json \<Rightarrow> string \<Rightarrow> py_error + json" where
  "j_item x k = (case x of JObj kvs \<Rightarrow> (case map_of kvs k of None \<Rightarrow> Inl KeyError | Some v \<Rightarrow> Inr v) | _ \<Rightarrow> Inl TypeError)"

fun j_iter :: "json \<Rightarrow> py_error + json list" where
  "j_iter (JArr js) = Inr js"
| "j_iter (JObj kvs) = Inr (map (\<lambda>(k, v). JStr k) kvs)"
| "j_iter (JStr s) = Inr (map (\<lambda>c. JStr [c]) s)"
| "j_iter _ = Inl TypeError"

text \<open>\<open>str(x)\<close>; of a list or an object the text starts with a bracket, and nothing else of it is read.\<close>

fun j_str :: "json \<Rightarrow> string" where
  "j_str JNull = ''None''"
| "j_str (JBool b) = (if b then ''True'' else ''False'')"
| "j_str (JInt i) = int_str i"
| "j_str (JFloat x) = float_str x"
| "j_str (JStr s) = s"
| "j_str (JArr js) = ''[''"
| "j_str (JObj kvs) = ''{''"

text \<open>\<open>int(x)\<close>, \<open>Decimal(str(x))\<close> and \<open>date.fromisoformat(x)\<close>.\<close>

fun j_int :: "json \<Rightarrow> py_error + int" where
  "j_int (JInt i) = Inr i"
| "j_int (JBool b) = Inr (if b then 1 else 0)"
| "j_int (JFloat x) = Inr (if 0 \<le> x then \<lfloor>x\<rfloor> else \<lceil>x\<rceil>)"
| "j_int (JStr s) = (case py_int s of None \<Rightarrow> Inl ValueError | Some i \<Rightarrow> Inr i)"
| "j_int _ = Inl TypeError"

definition j_decimal :: "json \<Rightarrow> py_error + decimal" where
  "j_decimal x = (case py_dec (j_str x) of None \<Rightarrow> Inl ArithmeticError | Some d \<Rightarrow> Inr d)"

fun j_date :: "json \<Rightarrow> py_error + day" where
  "j_date (JStr s) = (case py_date s of None \<Rightarrow> Inl ValueError | Some d \<Rightarrow> Inr d)"
| "j_date _ = Inl TypeError"

lemma j_decimal_nested: "j_decimal (JArr js) = Inl ArithmeticError" "j_decimal (JObj kvs) = Inl ArithmeticError"
  by (simp_all add: j_decimal_def) (code_simp+)

section \<open>Refusals of a route\<close>

text \<open>The answers with status 422, 400, 404 and 502; \<open>Server_Error\<close> is any exception a route does not catch.\<close>

datatype route_error = Unprocessable | Bad_Request string | Not_Found string | Bad_Gateway string | Server_Error

end
