(* ===== verification/Brokers.thy ===== *)
theory Brokers
  imports Http Sync Rate_Limiter "HOL-Library.Sublist"
begin

text \<open>
  The two broker adapters behind \<open>brokers/base.py\<close>: Kite Connect (\<open>brokers/zerodha.py\<close>) and
  Alpaca (\<open>brokers/alpaca.py\<close>), which turn the rows a broker answers into the normalized positions,
  orders and balances of \<open>schemas/broker.py\<close>. What the Kite SDK returns or raises and what the HTTP
  client returns or raises are arguments. The values of a broker row are JSON scalars, as both
  interfaces document; a nested array or object where a scalar is read counts as unreadable, and an
  infinite or \<open>NaN\<close> amount as an amount the schema refuses.
\<close>

section \<open>Scalars of a broker row\<close>

type_synonym raw = "(string \<times> json) list"

text \<open>A failing read is the \<open>BrokerAPIError\<close> of the interface or any other exception.\<close>

datatype adapter_failure = BrokerFailed broker_error | Uncaught

fun scalar_str :: "json \<Rightarrow> adapter_failure + string" where
  "scalar_str JNull = Inr ''None''"
| "scalar_str (JBool b) = Inr (if b then ''True'' else ''False'')"
| "scalar_str (JInt i) = Inr (int_str i)"
| "scalar_str (JFloat x) = Inr (float_str x)"
| "scalar_str (JStr s) = Inr s"
| "scalar_str _ = Inl Uncaught"

definition decimal_of :: "json \<Rightarrow> adapter_failure + rat" where
  "decimal_of v = bind_res (scalar_str v) (\<lambda>s. case py_decimal s of None \<Rightarrow> Inl Uncaught | Some d \<Rightarrow> Inr d)"

definition text_field :: "raw \<Rightarrow> string \<Rightarrow> string \<Rightarrow> adapter_failure + string" where
  "text_field row k d = scalar_str (dict_get row k (JStr d))"

definition decimal_field :: "raw \<Rightarrow> string \<Rightarrow> adapter_failure + rat" where
  "decimal_field row k = decimal_of (dict_get row k (JStr ''0''))"

text \<open>\<open>for row in answer: row.get(...)\<close>.\<close>

fun rows_in :: "json list \<Rightarrow> adapter_failure + raw list" where
  "rows_in [] = Inr []"
| "rows_in (JObj kvs # js) = bind_res (rows_in js) (\<lambda>rs. Inr (kvs # rs))"
| "rows_in (_ # js) = Inl Uncaught"

fun rows_of :: "json \<Rightarrow> adapter_failure + raw list" where
  "rows_of (JArr js) = rows_in js"
| "rows_of (JObj kvs) = (if kvs = [] then Inr [] else Inl Uncaught)"
| "rows_of (JStr s) = (if s = [] then Inr [] else Inl Uncaught)"
| "rows_of _ = Inl Uncaught"

fun map_res :: "('a \<Rightarrow> 'e + 'b) \<Rightarrow> 'a list \<Rightarrow> 'e + 'b list" where
  "map_res f [] = Inr []"
| "map_res f (x # xs) = bind_res (f x) (\<lambda>y. bind_res (map_res f xs) (\<lambda>ys. Inr (y # ys)))"

lemma map_res_all2: "map_res f xs = Inr ys \<Longrightarrow> list_all2 (\<lambda>x y. f x = Inr y) xs ys"
  by (induction xs arbitrary: ys) (auto simp: bind_res_Inr_iff)

lemma map_res_set: "map_res f xs = Inr ys \<Longrightarrow> y \<in> set ys \<Longrightarrow> \<exists>x \<in> set xs. f x = Inr y"
  by (induction xs arbitrary: ys) (auto simp: bind_res_Inr_iff)

section \<open>The normalized schemas\<close>

record normalized_position = broker_position +
  np_current_price :: rat
  np_market_value :: rat
  np_unrealized_pl :: rat

record normalized_order = broker_order +
  no_filled_quantity :: rat
  no_stop_price :: "rat option"
  no_submitted_at :: instant
  no_filled_at :: "instant option"
  no_currency :: string

record balance =
  ba_cash :: rat
  ba_equity :: rat
  ba_currency :: string
  ba_account_id :: string

definition CURRENCIES :: "string list" where "CURRENCIES = [''USD'', ''INR'', ''EUR'', ''GBP'']"

text \<open>The constructors validate; their \<open>ValidationError\<close> is no \<open>BrokerAPIError\<close>.\<close>

definition make_position ::
  "string \<Rightarrow> rat \<Rightarrow> rat \<Rightarrow> rat \<Rightarrow> rat \<Rightarrow> rat \<Rightarrow> string \<Rightarrow> json \<Rightarrow> adapter_failure + normalized_position" where
  "make_position symbol quantity avg current value pl currency exchange =
     (let p = (\<lambda>ex. \<lparr>bp_symbol = symbol, bp_quantity = quantity, bp_avg_price = avg, bp_currency = currency,
          bp_exchange = ex, np_current_price = current, np_market_value = value, np_unrealized_pl = pl\<rparr>)
      in if avg < 0 \<or> current < 0 then Inl Uncaught
         else (case exchange of JNull \<Rightarrow> Inr (p None) | JStr e \<Rightarrow> Inr (p (Some e)) | _ \<Rightarrow> Inl Uncaught))"

text \<open>\<open>to_datetime\<close> is how pydantic reads a timestamp.\<close>

definition make_order ::
  "(json \<Rightarrow> instant option) \<Rightarrow> string \<Rightarrow> string \<Rightarrow> string \<Rightarrow> string \<Rightarrow> rat \<Rightarrow> rat \<Rightarrow> rat option \<Rightarrow> rat option
     \<Rightarrow> string \<Rightarrow> json \<Rightarrow> json \<Rightarrow> string \<Rightarrow> adapter_failure + normalized_order" where
  "make_order to_datetime oid symbol side type quantity filled limit stop status submitted filled_at currency =
     (if quantity \<le> 0 \<or> filled < 0 then Inl Uncaught
      else (case (to_datetime submitted, if filled_at = JNull then Some None else map_option Some (to_datetime filled_at)) of
              (Some t, Some f) \<Rightarrow>
                Inr \<lparr>bo_id = oid, bo_symbol = symbol, bo_side = side, bo_type = type, bo_quantity = quantity,
                  bo_limit_price = limit, bo_status = status, no_filled_quantity = filled, no_stop_price = stop,
                  no_submitted_at = t, no_filled_at = f, no_currency = currency\<rparr>
            | _ \<Rightarrow> Inl Uncaught))"

lemma make_position_valid:
  "make_position sy q a c v pl cur ex = Inr p \<Longrightarrow> 0 \<le> bp_avg_price p \<and> 0 \<le> np_current_price p \<and> bp_currency p = cur \<and> bp_quantity p = q"
  by (auto simp: make_position_def Let_def split: if_splits json.splits)

lemma make_order_valid:
  "make_order dt oid sy side ty q f l st status su fa cur = Inr x \<Longrightarrow>
     0 < bo_quantity x \<and> 0 \<le> no_filled_quantity x \<and> bo_side x = side \<and> bo_type x = ty \<and> bo_status x = status"
  by (auto simp: make_order_def split: if_splits option.splits)

section \<open>Zerodha\<close>

text \<open>Kite names the exchange NSE or BSE; the canonical codes are XNSE and XBOM.\<close>

definition BROKER_EXCHANGE_TO_MIC :: "(string \<times> string) list" where
  "BROKER_EXCHANGE_TO_MIC = [(''NSE'', ''XNSE''), (''BSE'', ''XBOM''), (''XNSE'', ''XNSE''), (''XBOM'', ''XBOM'')]"

definition exchange_to_mic :: "string option \<Rightarrow> string" where
  "exchange_to_mic broker_exchange =
     (case broker_exchange of
        None \<Rightarrow> ''XNSE''
      | Some e \<Rightarrow> if e = [] then ''XNSE'' else dict_get BROKER_EXCHANGE_TO_MIC (str_upper (str_strip e)) ''XNSE'')"

text \<open>06:00 in India, which is 5:30 ahead of UTC the whole year.\<close>

definition IST_OFFSET :: int where "IST_OFFSET = 5 * hour + 30 * minute"

definition KITE_DAILY_EXPIRY_HOUR_IST :: int where "KITE_DAILY_EXPIRY_HOUR_IST = 6"

definition last_kite_expiry_cutoff :: "instant \<Rightarrow> instant" where
  "last_kite_expiry_cutoff now_utc =
     (let now_ist = now_utc + IST_OFFSET;
          todays_cutoff_ist = midnight (date_of now_ist) + KITE_DAILY_EXPIRY_HOUR_IST * hour;
          cutoff_ist = (if todays_cutoff_ist \<le> now_ist then todays_cutoff_ist else todays_cutoff_ist - day_us)
      in cutoff_ist - IST_OFFSET)"

text \<open>\<open>za_acquire\<close> is the slot of the injected rate limiter, \<open>za_mapper\<close> the injected resolver of symbols.\<close>

record 'w zerodha =
  za_api_key :: string
  za_issued_at :: "instant option"
  za_acquire :: "('w \<Rightarrow> adapter_failure option \<times> 'w) option"
  za_mapper :: "(string \<Rightarrow> string option \<Rightarrow> string \<times> string) option"

definition is_token_expired :: "instant option \<Rightarrow> instant \<Rightarrow> bool" where
  "is_token_expired issued_at now_utc =
     (case issued_at of None \<Rightarrow> False | Some t \<Rightarrow> t < last_kite_expiry_cutoff now_utc)"

text \<open>What a call of the SDK does: return, or raise a class of the name given.\<close>

datatype 'a sdk = Returns 'a | TokenException string | NetworkException string | InputException string
  | KiteException string | OtherException string

definition kite_error :: "string \<Rightarrow> string \<Rightarrow> string \<Rightarrow> adapter_failure" where
  "kite_error code text cls = BrokerFailed \<lparr>be_code = code, be_message = text @ '' ('' @ cls @ '')''\<rparr>"

fun translate :: "'a sdk \<Rightarrow> adapter_failure + 'a" where
  "translate (Returns x) = Inr x"
| "translate (TokenException c) = Inl (kite_error ''AUTH_EXPIRED'' ''Zerodha access token expired or invalid'' c)"
| "translate (NetworkException c) = Inl (kite_error ''NETWORK_TIMEOUT'' ''Zerodha network error'' c)"
| "translate (InputException c) = Inl (kite_error ''INSTRUMENT_UNKNOWN'' ''Zerodha rejected request'' c)"
| "translate (KiteException c) = Inl (kite_error ''UPSTREAM_DOWN'' ''Zerodha upstream error'' c)"
| "translate (OtherException c) = Inl (kite_error ''UPSTREAM_DOWN'' ''Unexpected Zerodha error'' c)"

definition kite_call :: "'w zerodha \<Rightarrow> instant \<Rightarrow> 'a sdk \<Rightarrow> 'w \<Rightarrow> (adapter_failure + 'a) \<times> 'w" where
  "kite_call z now fn w =
     (if is_token_expired (za_issued_at z) now
      then (Inl (BrokerFailed \<lparr>be_code = ''AUTH_EXPIRED'',
              be_message = ''Zerodha access token expired (past 06:00 IST daily cutoff)''\<rparr>), w)
      else case (case za_acquire z of None \<Rightarrow> (None, w) | Some take_slot \<Rightarrow> take_slot w) of
             (Some e, w1) \<Rightarrow> (Inl e, w1)
           | (None, w1) \<Rightarrow> (translate fn, w1))"

definition kite_position :: "raw \<Rightarrow> (rat \<Rightarrow> rat \<Rightarrow> adapter_failure + rat) \<Rightarrow> adapter_failure + normalized_position" where
  "kite_position row market_value =
     bind_res (decimal_field row ''quantity'') (\<lambda>qty.
     bind_res (decimal_field row ''average_price'') (\<lambda>avg.
     bind_res (decimal_field row ''last_price'') (\<lambda>last.
     bind_res (decimal_field row ''pnl'') (\<lambda>pnl.
     bind_res (market_value last qty) (\<lambda>value.
     bind_res (text_field row ''tradingsymbol'' []) (\<lambda>symbol.
       make_position symbol qty avg last value pnl ''INR'' (dict_get row ''exchange'' JNull)))))))"

definition parse_holding :: "raw \<Rightarrow> adapter_failure + normalized_position" where
  "parse_holding row = kite_position row (\<lambda>last qty. Inr (dmul last qty))"

definition parse_net_position :: "raw \<Rightarrow> adapter_failure + normalized_position" where
  "parse_net_position row = kite_position row (\<lambda>last qty.
     let v = dict_get row ''value'' JNull in if v = JNull then Inr (dmul last qty) else decimal_of v)"

definition row_key :: "raw \<Rightarrow> adapter_failure + string \<times> string" where
  "row_key row =
     bind_res (text_field row ''tradingsymbol'' []) (\<lambda>symbol.
       (let ex = dict_get row ''exchange'' (JStr [])
        in bind_res (if truthy ex then scalar_str ex else Inr []) (\<lambda>e. Inr (symbol, e))))"

type_synonym merged = "(string \<times> string) list \<times> normalized_position list"

fun holdings_loop :: "raw list \<Rightarrow> merged \<Rightarrow> adapter_failure + merged" where
  "holdings_loop [] st = Inr st"
| "holdings_loop (row # rows) (seen, normalized) =
     bind_res (row_key row) (\<lambda>key.
     bind_res (parse_holding row) (\<lambda>p. holdings_loop rows (key # seen, normalized @ [p])))"

fun net_loop :: "raw list \<Rightarrow> merged \<Rightarrow> adapter_failure + merged" where
  "net_loop [] st = Inr st"
| "net_loop (row # rows) (seen, normalized) =
     bind_res (row_key row) (\<lambda>key.
       if key \<in> set seen then net_loop rows (seen, normalized)
       else bind_res (decimal_field row ''quantity'') (\<lambda>q.
         if q = 0 then net_loop rows (seen, normalized)
         else bind_res (parse_net_position row) (\<lambda>p. net_loop rows (key # seen, normalized @ [p]))))"

text \<open>What the four reads of the SDK would do now.\<close>

record kite =
  kt_holdings :: "json sdk"
  kt_positions :: "json sdk"
  kt_margins :: "json sdk"
  kt_orders :: "json sdk"

definition merge_positions :: "json \<Rightarrow> json \<Rightarrow> adapter_failure + normalized_position list" where
  "merge_positions holdings positions_resp =
     (case positions_resp of
        JObj resp \<Rightarrow>
          bind_res (rows_of (dict_get resp ''net'' (JArr []))) (\<lambda>net_positions.
          bind_res (rows_of holdings) (\<lambda>hs.
          bind_res (holdings_loop hs ([], [])) (\<lambda>st.
          bind_res (net_loop net_positions st) (\<lambda>st'. Inr (snd st')))))
      | _ \<Rightarrow> Inl Uncaught)"

definition zerodha_positions ::
  "'w zerodha \<Rightarrow> instant \<Rightarrow> instant \<Rightarrow> kite \<Rightarrow> 'w \<Rightarrow> (adapter_failure + normalized_position list) \<times> 'w" where
  "zerodha_positions z now1 now2 k w =
     (case kite_call z now1 (kt_holdings k) w of
        (Inl e, w1) \<Rightarrow> (Inl e, w1)
      | (Inr holdings, w1) \<Rightarrow>
          (case kite_call z now2 (kt_positions k) w1 of
             (Inl e, w2) \<Rightarrow> (Inl e, w2)
           | (Inr resp, w2) \<Rightarrow> (merge_positions holdings resp, w2)))"

definition sub_object :: "raw \<Rightarrow> string \<Rightarrow> adapter_failure + raw" where
  "sub_object row k =
     (let v = dict_get row k (JObj [])
      in if \<not> truthy v then Inr [] else (case v of JObj kvs \<Rightarrow> Inr kvs | _ \<Rightarrow> Inl Uncaught))"

definition parse_margins :: "string \<Rightarrow> json \<Rightarrow> adapter_failure + balance" where
  "parse_margins api_key margins =
     (case margins of
        JObj m \<Rightarrow>
          bind_res (sub_object m ''available'') (\<lambda>available.
          bind_res (sub_object m ''utilised'') (\<lambda>utilised.
          bind_res (decimal_of (dict_get available ''cash'' (dict_get available ''live_balance'' (JStr ''0'')))) (\<lambda>cash.
          bind_res (let net_val = dict_get m ''net'' JNull
                    in if net_val = JNull then bind_res (decimal_field utilised ''debits'') (\<lambda>d. Inr (dsub cash d))
                       else decimal_of net_val) (\<lambda>equity.
          bind_res (let a = dict_get m ''account_id'' JNull in if truthy a then scalar_str a else Inr api_key) (\<lambda>acct.
            Inr \<lparr>ba_cash = cash, ba_equity = equity, ba_currency = ''INR'', ba_account_id = acct\<rparr>)))))
      | _ \<Rightarrow> Inl Uncaught)"

definition zerodha_balances :: "'w zerodha \<Rightarrow> instant \<Rightarrow> kite \<Rightarrow> 'w \<Rightarrow> (adapter_failure + balance) \<times> 'w" where
  "zerodha_balances z now k w =
     (case kite_call z now (kt_margins k) w of
        (Inl e, w1) \<Rightarrow> (Inl e, w1)
      | (Inr margins, w1) \<Rightarrow> (parse_margins (za_api_key z) margins, w1))"

definition KITE_ORDER_STATUS :: "(string \<times> string) list" where
  "KITE_ORDER_STATUS = [(''COMPLETE'', ''filled''), (''OPEN'', ''new''), (''CANCELLED'', ''canceled''),
     (''REJECTED'', ''rejected''), (''TRIGGER PENDING'', ''new'')]"

definition kite_order_type :: "string \<Rightarrow> string" where
  "kite_order_type t =
     (if t = ''LIMIT'' then ''limit''
      else if t \<in> {''SL'', ''STOPLOSS''} then ''stop_limit''
      else if t \<in> {''SL-M'', ''SL_M'', ''STOPLOSS_MARKET''} then ''stop''
      else ''market'')"

text \<open>\<open>Decimal(str(v)) if v not in (None, 0, 0.0) else None\<close>.\<close>

definition nonzero_price :: "json \<Rightarrow> adapter_failure + rat option" where
  "nonzero_price v =
     (if v \<in> {JNull, JInt 0, JFloat 0, JBool False} then Inr None else bind_res (decimal_of v) (\<lambda>d. Inr (Some d)))"

definition kite_parse_order :: "(json \<Rightarrow> instant option) \<Rightarrow> raw \<Rightarrow> adapter_failure + normalized_order" where
  "kite_parse_order to_datetime row =
     bind_res (text_field row ''status'' []) (\<lambda>st.
     bind_res (text_field row ''transaction_type'' ''BUY'') (\<lambda>transaction.
     bind_res (text_field row ''order_type'' ''MARKET'') (\<lambda>ty.
     bind_res (text_field row ''order_id'' []) (\<lambda>oid.
     bind_res (text_field row ''tradingsymbol'' []) (\<lambda>symbol.
     bind_res (decimal_field row ''quantity'') (\<lambda>qty.
     bind_res (decimal_field row ''filled_quantity'') (\<lambda>filled.
     bind_res (nonzero_price (dict_get row ''price'' JNull)) (\<lambda>limit.
     bind_res (nonzero_price (dict_get row ''trigger_price'' JNull)) (\<lambda>stop.
       (let status = dict_get KITE_ORDER_STATUS (str_upper st) ''pending'';
            side = (if str_upper transaction = ''BUY'' then ''buy'' else ''sell'')
        in case map_of row ''order_timestamp'' of
             None \<Rightarrow> Inl Uncaught
           | Some submitted \<Rightarrow>
               make_order to_datetime oid symbol side (kite_order_type (str_upper ty)) qty filled limit stop status submitted
                 (if status = ''filled'' then dict_get row ''exchange_update_timestamp'' JNull else JNull)
                 ''INR''))))))))))"

definition zerodha_orders ::
  "(json \<Rightarrow> instant option) \<Rightarrow> 'w zerodha \<Rightarrow> instant \<Rightarrow> bool \<Rightarrow> kite \<Rightarrow> 'w \<Rightarrow> (adapter_failure + normalized_order list) \<times> 'w" where
  "zerodha_orders to_datetime z now open_only k w =
     (case kite_call z now (kt_orders k) w of
        (Inl e, w1) \<Rightarrow> (Inl e, w1)
      | (Inr answer, w1) \<Rightarrow>
          (bind_res (rows_of answer) (\<lambda>rows.
           bind_res (map_res (kite_parse_order to_datetime) rows) (\<lambda>parsed.
             Inr (if open_only then filter (\<lambda>o1. bo_status o1 \<in> {''new'', ''partially_filled'', ''pending''}) parsed
                  else parsed))), w1))"

definition canonical_ticker :: "string \<Rightarrow> string" where
  "canonical_ticker broker_symbol = str_upper (str_strip broker_symbol)"

definition resolve_canonical :: "'w zerodha \<Rightarrow> string \<Rightarrow> string option \<Rightarrow> string \<times> string" where
  "resolve_canonical z broker_symbol broker_exchange =
     (let bs = str_strip broker_symbol
      in case za_mapper z of
           Some symbol_mapper \<Rightarrow> symbol_mapper bs broker_exchange
         | None \<Rightarrow> (canonical_ticker bs, exchange_to_mic broker_exchange))"

section \<open>Alpaca\<close>

text \<open>The HTTP client gets method, URL, headers and parameters.\<close>

record alpaca =
  al_api_key :: string
  al_api_secret :: string
  al_base_url :: string

type_synonym http_client = "string \<Rightarrow> string \<Rightarrow> (string \<times> string) list \<Rightarrow> (string \<times> string) list \<Rightarrow> http_outcome"

definition alpaca_of :: "string \<Rightarrow> string \<Rightarrow> string \<Rightarrow> alpaca" where
  "alpaca_of api_key api_secret base_url = \<lparr>al_api_key = api_key, al_api_secret = api_secret,
     al_base_url = rev (dropWhile (\<lambda>c. c = CHR ''/'') (rev base_url))\<rparr>"

definition alpaca_headers :: "alpaca \<Rightarrow> (string \<times> string) list" where
  "alpaca_headers a = [(''APCA-API-KEY-ID'', al_api_key a), (''APCA-API-SECRET-KEY'', al_api_secret a),
     (''Accept'', ''application/json'')]"

definition failed :: "string \<Rightarrow> string \<Rightarrow> adapter_failure + 'a" where
  "failed code message = Inl (BrokerFailed \<lparr>be_code = code, be_message = message\<rparr>)"

definition alpaca_request ::
  "alpaca \<Rightarrow> http_client \<Rightarrow> string \<Rightarrow> string \<Rightarrow> (string \<times> string) list \<Rightarrow> adapter_failure + json" where
  "alpaca_request a client method path params =
     (case client method (al_base_url a @ path) (alpaca_headers a) params of
        TimedOut exc \<Rightarrow> failed ''NETWORK_TIMEOUT'' (''Alpaca request timed out: '' @ path)
      | TransportError exc \<Rightarrow> failed ''UPSTREAM_DOWN'' (''Alpaca transport error: '' @ exc)
      | Response status text \<Rightarrow>
          if status = 401 \<or> status = 403 then failed ''AUTH_EXPIRED'' ''Alpaca rejected credentials''
          else if status = 404 then failed ''INSTRUMENT_UNKNOWN'' (''Alpaca returned 404 for '' @ path)
          else if status = 429 then failed ''RATE_LIMITED'' ''Alpaca rate limit exceeded''
          else if 500 \<le> status \<and> status < 600 then failed ''UPSTREAM_DOWN'' (''Alpaca upstream error '' @ int_str status)
          else if 400 \<le> status
               then failed ''UPSTREAM_DOWN'' (''Alpaca unexpected status '' @ int_str status @ '': '' @ take 200 text)
          else (case json_loads text of None \<Rightarrow> Inl Uncaught | Some j \<Rightarrow> Inr j))"

definition alpaca_parse_position :: "raw \<Rightarrow> adapter_failure + normalized_position" where
  "alpaca_parse_position row =
     bind_res (decimal_field row ''qty'') (\<lambda>qty.
     bind_res (decimal_field row ''avg_entry_price'') (\<lambda>avg.
     bind_res (decimal_of (dict_get row ''current_price'' (dict_get row ''market_price'' (JStr ''0'')))) (\<lambda>current.
     bind_res (decimal_field row ''market_value'') (\<lambda>value.
     bind_res (decimal_field row ''unrealized_pl'') (\<lambda>unrealized.
     bind_res (text_field row ''symbol'' []) (\<lambda>symbol.
       make_position symbol qty avg current value unrealized ''USD'' (dict_get row ''exchange'' JNull)))))))"

definition alpaca_positions :: "alpaca \<Rightarrow> http_client \<Rightarrow> adapter_failure + normalized_position list" where
  "alpaca_positions a client =
     bind_res (alpaca_request a client ''GET'' ''/v2/positions'' []) (\<lambda>answer.
     bind_res (rows_of answer) (\<lambda>rows. map_res alpaca_parse_position rows))"

text \<open>\<open>raw.get("account_number") or raw.get("id") or ""\<close>.\<close>

definition account_text :: "raw \<Rightarrow> adapter_failure + string" where
  "account_text row =
     (let a = dict_get row ''account_number'' JNull; b = dict_get row ''id'' JNull
      in if truthy a then scalar_str a else if truthy b then scalar_str b else Inr [])"

definition alpaca_balances :: "alpaca \<Rightarrow> http_client \<Rightarrow> adapter_failure + balance" where
  "alpaca_balances a client =
     bind_res (alpaca_request a client ''GET'' ''/v2/account'' []) (\<lambda>answer.
       case answer of
         JObj row \<Rightarrow>
           bind_res (decimal_field row ''cash'') (\<lambda>cash.
           bind_res (decimal_field row ''equity'') (\<lambda>equity.
           bind_res (account_text row) (\<lambda>account.
             (case dict_get row ''currency'' (JStr ''USD'') of
                JStr c \<Rightarrow> if c \<in> set CURRENCIES
                  then Inr \<lparr>ba_cash = cash, ba_equity = equity, ba_currency = c, ba_account_id = account\<rparr>
                  else Inl Uncaught
              | _ \<Rightarrow> Inl Uncaught))))
       | _ \<Rightarrow> Inl Uncaught)"

definition ALPACA_ORDER_STATUS :: "(string \<times> string) list" where
  "ALPACA_ORDER_STATUS = [(''new'', ''new''), (''accepted'', ''new''), (''pending_new'', ''pending''),
     (''accepted_for_bidding'', ''pending''), (''partially_filled'', ''partially_filled''), (''filled'', ''filled''),
     (''done_for_day'', ''filled''), (''canceled'', ''canceled''), (''expired'', ''expired''),
     (''rejected'', ''rejected''), (''stopped'', ''canceled''), (''suspended'', ''pending''),
     (''pending_cancel'', ''pending''), (''pending_replace'', ''pending''), (''replaced'', ''new'')]"

definition ALPACA_ORDER_TYPE :: "(string \<times> string) list" where
  "ALPACA_ORDER_TYPE = [(''market'', ''market''), (''limit'', ''limit''), (''stop'', ''stop''), (''stop_limit'', ''stop_limit'')]"

text \<open>\<open>table.get(value, default)\<close>; a list or an object is no key.\<close>

fun get_by :: "(string \<times> string) list \<Rightarrow> json \<Rightarrow> string \<Rightarrow> adapter_failure + string" where
  "get_by table (JStr s) d = Inr (dict_get table s d)"
| "get_by table (JArr xs) d = Inl Uncaught"
| "get_by table (JObj kvs) d = Inl Uncaught"
| "get_by table _ d = Inr d"

definition optional_price :: "json \<Rightarrow> adapter_failure + rat option" where
  "optional_price v = (if v = JNull then Inr None else bind_res (decimal_of v) (\<lambda>d. Inr (Some d)))"

definition alpaca_parse_order :: "(json \<Rightarrow> instant option) \<Rightarrow> raw \<Rightarrow> adapter_failure + normalized_order" where
  "alpaca_parse_order to_datetime row =
     bind_res (get_by ALPACA_ORDER_STATUS (dict_get row ''status'' (JStr [])) ''pending'') (\<lambda>status.
     bind_res (get_by ALPACA_ORDER_TYPE (dict_get row ''order_type'' (dict_get row ''type'' (JStr ''market''))) ''market'') (\<lambda>ty.
     bind_res (text_field row ''id'' []) (\<lambda>oid.
     bind_res (text_field row ''symbol'' []) (\<lambda>symbol.
     bind_res (decimal_field row ''qty'') (\<lambda>qty.
     bind_res (decimal_field row ''filled_qty'') (\<lambda>filled.
     bind_res (optional_price (dict_get row ''limit_price'' JNull)) (\<lambda>limit.
     bind_res (optional_price (dict_get row ''stop_price'' JNull)) (\<lambda>stop.
       (let side = (if dict_get row ''side'' JNull = JStr ''buy'' then ''buy'' else ''sell'')
        in case map_of row ''submitted_at'' of
             None \<Rightarrow> Inl Uncaught
           | Some submitted \<Rightarrow>
               make_order to_datetime oid symbol side ty qty filled limit stop status submitted
                 (dict_get row ''filled_at'' JNull) ''USD'')))))))))"

definition alpaca_orders ::
  "(json \<Rightarrow> instant option) \<Rightarrow> alpaca \<Rightarrow> http_client \<Rightarrow> bool \<Rightarrow> adapter_failure + normalized_order list" where
  "alpaca_orders to_datetime a client open_only =
     bind_res (alpaca_request a client ''GET'' ''/v2/orders''
         [(''status'', if open_only then ''open'' else ''all''), (''limit'', ''500'')]) (\<lambda>answer.
     bind_res (rows_of answer) (\<lambda>rows. map_res (alpaca_parse_order to_datetime) rows))"

section \<open>Capabilities\<close>

record broker_features =
  supports_positions :: bool
  supports_balances :: bool
  supports_orders :: bool
  supports_place_order :: bool
  supports_oauth :: bool
  supports_realtime_streaming :: bool
  supports_paper_trading :: bool
  requires_daily_reauth :: bool

definition zerodha_features :: broker_features where
  "zerodha_features = \<lparr>supports_positions = True, supports_balances = True, supports_orders = True,
     supports_place_order = False, supports_oauth = True, supports_realtime_streaming = True,
     supports_paper_trading = False, requires_daily_reauth = True\<rparr>"

definition alpaca_features :: broker_features where
  "alpaca_features = \<lparr>supports_positions = True, supports_balances = True, supports_orders = True,
     supports_place_order = False, supports_oauth = True, supports_realtime_streaming = False,
     supports_paper_trading = True, requires_daily_reauth = False\<rparr>"

section \<open>The daily cutoff\<close>

text \<open>The last point of a daily grid at or before an instant.\<close>

lemma grid_shift:
  fixes n C D :: int
  assumes "0 \<le> C" "C < D"
  shows "(if n div D * D + C \<le> n then n div D * D + C else n div D * D + C - D) = (n - C) div D * D + C"
proof -
  have r: "0 \<le> n mod D" "n mod D < D" "D * (n div D) + n mod D = n" "n div D * D + n mod D = n" using assms by simp_all
  have "(n - C) div D = (if n div D * D + C \<le> n then n div D else n div D - 1)"
  proof (cases "n div D * D + C \<le> n")
    case True
    have "0 \<le> n mod D - C" using True r(4) by linarith
    moreover have "n mod D - C < D" using r(2) assms(1) by linarith
    moreover have "n - C = D * (n div D) + (n mod D - C)" using r(3) by linarith
    ultimately have "(n - C) div D = n div D" by (intro int_div_pos_eq)
    then show ?thesis using True by simp
  next
    case False
    have "0 \<le> n mod D - C + D" using r(1) assms(2) by linarith
    moreover have "n mod D - C + D < D" using False r(4) by linarith
    moreover have "n - C = D * (n div D - 1) + (n mod D - C + D)" using r(3) by (simp add: right_diff_distrib)
    ultimately have "(n - C) div D = n div D - 1" by (intro int_div_pos_eq)
    then show ?thesis using False by simp
  qed
  then show ?thesis by (simp add: left_diff_distrib)
qed

lemma grid_bounds:
  fixes t c D :: int
  assumes "0 < D"
  shows "(t - c) div D * D + c \<le> t" "t < (t - c) div D * D + c + D"
proof -
  have "(t - c) div D * D + (t - c) mod D = t - c" by simp
  moreover have "0 \<le> (t - c) mod D" "(t - c) mod D < D" using assms by simp_all
  ultimately show "(t - c) div D * D + c \<le> t" "t < (t - c) div D * D + c + D" by linarith+
qed

lemma day_us_pos: "0 < day_us" by (simp add: day_us_def)

lemma cutoff_closed: "last_kite_expiry_cutoff t = (t - 30 * minute) div day_us * day_us + 30 * minute"
proof -
  let ?C = "KITE_DAILY_EXPIRY_HOUR_IST * hour" and ?n = "t + IST_OFFSET"
  have "0 \<le> ?C" "?C < day_us" "?C - IST_OFFSET = 30 * minute"
    by (simp_all add: KITE_DAILY_EXPIRY_HOUR_IST_def IST_OFFSET_def day_us_def)
  moreover have "?n - ?C = t - 30 * minute" using calculation(3) by simp
  moreover have "last_kite_expiry_cutoff t = (if ?n div day_us * day_us + ?C \<le> ?n then ?n div day_us * day_us + ?C
      else ?n div day_us * day_us + ?C - day_us) - IST_OFFSET"
    by (simp only: last_kite_expiry_cutoff_def Let_def midnight_def date_of_def)
  ultimately show ?thesis using grid_shift[of ?C day_us ?n] by (simp only: add_diff_eq[symmetric])
qed

lemma cutoff_bounds: "last_kite_expiry_cutoff t \<le> t" "t < last_kite_expiry_cutoff t + day_us"
  unfolding cutoff_closed by (rule grid_bounds[OF day_us_pos])+

lemma cutoff_step: "last_kite_expiry_cutoff (t + day_us) = last_kite_expiry_cutoff t + day_us"
proof -
  have "t + day_us - 30 * minute = (t - 30 * minute) + 1 * day_us" by simp
  then have "(t + day_us - 30 * minute) div day_us = (t - 30 * minute) div day_us + 1"
    using day_us_pos by (simp only: div_mult_self1[OF less_imp_neq[symmetric], OF day_us_pos]) 
  then show ?thesis unfolding cutoff_closed by (simp only: distrib_right)
qed

lemma cutoff_mono: "s \<le> t \<Longrightarrow> last_kite_expiry_cutoff s \<le> last_kite_expiry_cutoff t"
  unfolding cutoff_closed using day_us_pos by (simp add: zdiv_mono1)

lemma cutoff_idem [simp]: "last_kite_expiry_cutoff (last_kite_expiry_cutoff t) = last_kite_expiry_cutoff t"
  unfolding cutoff_closed using day_us_pos by simp

text \<open>An instant at a cutoff is passed exactly when the last cutoff is not before it.\<close>

lemma cutoff_reached: "last_kite_expiry_cutoff c = c \<Longrightarrow> c \<le> last_kite_expiry_cutoff t \<longleftrightarrow> c \<le> t"
  using cutoff_mono[of c t] cutoff_bounds(1)[of t] by fastforce

lemma cutoff_passed:
  assumes "last_kite_expiry_cutoff c = c"
  shows "c < last_kite_expiry_cutoff t \<longleftrightarrow> c + day_us \<le> t"
proof
  assume less: "c < last_kite_expiry_cutoff t"
  have "c + day_us \<le> last_kite_expiry_cutoff t"
  proof (rule ccontr)
    assume "\<not> c + day_us \<le> last_kite_expiry_cutoff t"
    moreover have "(c - 30 * minute) div day_us < (t - 30 * minute) div day_us"
      using less assms unfolding cutoff_closed by (metis add_less_cancel_right day_us_pos mult_less_cancel_right_pos)
    then have "((c - 30 * minute) div day_us + 1) * day_us \<le> (t - 30 * minute) div day_us * day_us"
      using day_us_pos by (simp only: mult_le_cancel_right_pos)
    ultimately show False using assms unfolding cutoff_closed by (simp only: distrib_right)
  qed
  then show "c + day_us \<le> t" using cutoff_bounds(1)[of t] by linarith
next
  assume "c + day_us \<le> t"
  then have "c + day_us \<le> last_kite_expiry_cutoff t"
    using cutoff_mono[of "c + day_us" t] cutoff_step[of c] assms by simp
  then show "c < last_kite_expiry_cutoff t" using day_us_pos by linarith
qed

section \<open>The union of holdings and net positions\<close>

lemma holdings_loop_exact:
  "holdings_loop rows (seen, acc) = Inr st \<Longrightarrow>
     \<exists>keys ps. map_res row_key rows = Inr keys \<and> map_res parse_holding rows = Inr ps \<and> st = (rev keys @ seen, acc @ ps)"
proof (induction rows arbitrary: seen acc)
  case (Cons row rows)
  then obtain key p where row: "row_key row = Inr key" "parse_holding row = Inr p"
    "holdings_loop rows (key # seen, acc @ [p]) = Inr st" by (auto simp: bind_res_Inr_iff)
  then obtain keys ps where "map_res row_key rows = Inr keys" "map_res parse_holding rows = Inr ps"
    "st = (rev keys @ key # seen, (acc @ [p]) @ ps)" using Cons.IH by blast
  then show ?case using row by auto
qed simp

text \<open>What the net positions add: some of their rows in order, with new keys and a quantity, and every
  row with a quantity is represented.\<close>

definition added_rows :: "raw list \<Rightarrow> (string \<times> string) list \<Rightarrow> (string \<times> string) list \<Rightarrow> normalized_position list \<Rightarrow> bool" where
  "added_rows net seen nk np \<longleftrightarrow>
     (\<exists>kept. subseq kept net \<and> map_res row_key kept = Inr nk \<and> map_res parse_net_position kept = Inr np) \<and>
     distinct nk \<and> set nk \<inter> set seen = {} \<and> list_all (\<lambda>p. bp_quantity p \<noteq> 0) np \<and>
     list_all (\<lambda>r. decimal_field r ''quantity'' = Inr 0 \<or> (\<exists>k. row_key r = Inr k \<and> k \<in> set (seen @ nk))) net"

lemma parse_net_quantity: "parse_net_position row = Inr p \<Longrightarrow> decimal_field row ''quantity'' = Inr (bp_quantity p)"
  by (auto simp: parse_net_position_def kite_position_def bind_res_Inr_iff dest!: make_position_valid)

lemma net_loop_exact:
  "net_loop rows (seen, acc) = Inr st \<Longrightarrow>
     \<exists>nk np. added_rows rows seen nk np \<and> st = (rev nk @ seen, acc @ np)"
proof (induction rows arbitrary: seen acc)
  case Nil
  then show ?case by (intro exI[of _ "[]"]) (auto simp: added_rows_def intro: exI[of _ "[]"])
next
  case (Cons row rows)
  from Cons.prems obtain key where key: "row_key row = Inr key" by (auto simp: bind_res_Inr_iff)
  have skip: "added_rows rows seen nk np \<Longrightarrow> decimal_field row ''quantity'' = Inr 0 \<or> key \<in> set seen \<Longrightarrow>
      added_rows (row # rows) seen nk np" for nk np
    using key by (cases key) (auto simp: added_rows_def)
  show ?case
  proof (cases "key \<in> set seen")
    case True
    then show ?thesis using Cons key skip by fastforce
  next
    case new: False
    then obtain q where q: "decimal_field row ''quantity'' = Inr q" using Cons.prems key by (auto simp: bind_res_Inr_iff)
    show ?thesis
    proof (cases "q = 0")
      case True
      then show ?thesis using Cons key q new skip by fastforce
    next
      case False
      then obtain p where p: "parse_net_position row = Inr p" "net_loop rows (key # seen, acc @ [p]) = Inr st"
        using Cons.prems key q new by (auto simp: bind_res_Inr_iff)
      then obtain nk np where add: "added_rows rows (key # seen) nk np" "st = (rev nk @ key # seen, (acc @ [p]) @ np)"
        using Cons.IH by blast
      have "bp_quantity p \<noteq> 0" using parse_net_quantity[OF p(1)] q False by simp
      moreover obtain kept where "subseq kept rows" "map_res row_key kept = Inr nk" "map_res parse_net_position kept = Inr np"
        using add(1) by (auto simp: added_rows_def)
      then have "subseq (row # kept) (row # rows) \<and> map_res row_key (row # kept) = Inr (key # nk) \<and>
          map_res parse_net_position (row # kept) = Inr (p # np)" using key p(1) by simp
      moreover have "list_all (\<lambda>r. decimal_field r ''quantity'' = Inr 0 \<or> (\<exists>k. row_key r = Inr k \<and> k \<in> set (seen @ key # nk))) rows"
        using add(1) by (auto simp: added_rows_def list_all_iff)
      ultimately have "added_rows (row # rows) seen (key # nk) (p # np)"
        using add(1) new key unfolding added_rows_def by (cases key) auto
      then show ?thesis using add(2) by (intro exI[of _ "key # nk"] exI[of _ "p # np"]) simp
    qed
  qed
qed

lemma merge_positions_exact:
  assumes "merge_positions holdings (JObj resp) = Inr ps"
  obtains hs net hk hp nk np where "rows_of holdings = Inr hs" "rows_of (dict_get resp ''net'' (JArr [])) = Inr net"
    "map_res row_key hs = Inr hk" "map_res parse_holding hs = Inr hp" "added_rows net (rev hk) nk np" "ps = hp @ np"
proof -
  obtain hs net st st' where ok: "rows_of holdings = Inr hs" "rows_of (dict_get resp ''net'' (JArr [])) = Inr net"
    "holdings_loop hs ([], []) = Inr st" "net_loop net st = Inr st'" "ps = snd st'"
    using assms by (auto simp: merge_positions_def bind_res_Inr_iff)
  obtain hk hp where h: "map_res row_key hs = Inr hk" "map_res parse_holding hs = Inr hp" "st = (rev hk, hp)"
    using holdings_loop_exact[OF ok(3)] by auto
  obtain nk np where "added_rows net (rev hk) nk np" "st' = (rev nk @ rev hk, hp @ np)"
    using net_loop_exact ok(4) h(3) by blast
  then show thesis using that ok h by simp
qed

section \<open>The contract of an adapter\<close>

definition ORDER_STATUSES :: "string list" where
  "ORDER_STATUSES = [''new'', ''partially_filled'', ''filled'', ''canceled'', ''rejected'', ''expired'', ''pending'']"

definition ORDER_TYPES :: "string list" where
  "ORDER_TYPES = [''market'', ''limit'', ''stop'', ''stop_limit'']"

definition valid_order :: "normalized_order \<Rightarrow> bool" where
  "valid_order x \<longleftrightarrow> 0 < bo_quantity x \<and> 0 \<le> no_filled_quantity x \<and> bo_status x \<in> set ORDER_STATUSES \<and>
     bo_type x \<in> set ORDER_TYPES \<and> bo_side x \<in> {''buy'', ''sell''}"

definition valid_position :: "normalized_position \<Rightarrow> bool" where
  "valid_position p \<longleftrightarrow> 0 \<le> bp_avg_price p \<and> 0 \<le> np_current_price p \<and> bp_currency p \<in> set CURRENCIES"

locale broker_adapter =
  fixes get_positions :: "'c \<Rightarrow> adapter_failure + normalized_position list"
    and get_orders :: "'c \<Rightarrow> bool \<Rightarrow> adapter_failure + normalized_order list"
    and ticker :: "string \<Rightarrow> string"
  assumes positions_valid: "get_positions c = Inr ps \<Longrightarrow> list_all valid_position ps"
    and orders_valid: "get_orders c open_only = Inr os \<Longrightarrow> list_all valid_order os"
    and ticker_idem: "ticker (ticker s) = ticker s"
begin

text \<open>The sync knows every status an adapter reports, so its default is never used.\<close>

lemma status_known: "get_orders c b = Inr os \<Longrightarrow> x \<in> set os \<Longrightarrow> bo_status x \<in> fst ` set ORDER_STATUS_TO_DB"
  using orders_valid[of c b os]
  by (auto simp: list_all_iff valid_order_def ORDER_STATUSES_def ORDER_STATUS_TO_DB_def)

lemma cost_nonneg: "get_positions c = Inr ps \<Longrightarrow> p \<in> set ps \<Longrightarrow> reported r (broker_position.truncate p) now \<Longrightarrow> 0 \<le> po_avg_cost r"
  using positions_valid[of c ps] by (auto simp: list_all_iff valid_position_def reported_def broker_position.defs)

end

lemma kite_position_valid: "kite_position row f = Inr p \<Longrightarrow> valid_position p"
  by (auto simp: kite_position_def bind_res_Inr_iff valid_position_def CURRENCIES_def dest: make_position_valid)

lemma map_res_valid: "map_res f xs = Inr ys \<Longrightarrow> (\<And>x y. f x = Inr y \<Longrightarrow> P y) \<Longrightarrow> list_all P ys"
  by (induction xs arbitrary: ys) (auto simp: bind_res_Inr_iff)

lemma zerodha_positions_valid: "fst (zerodha_positions z n1 n2 k w) = Inr ps \<Longrightarrow> list_all valid_position ps"
proof -
  assume "fst (zerodha_positions z n1 n2 k w) = Inr ps"
  then obtain holdings resp where "merge_positions holdings resp = Inr ps"
    by (auto simp: zerodha_positions_def split: prod.splits sum.splits)
  moreover then obtain r where "resp = JObj r" by (cases resp) (auto simp: merge_positions_def)
  ultimately obtain hs hp net nk np seen where ps: "map_res parse_holding hs = Inr hp" "added_rows net seen nk np" "ps = hp @ np"
    using merge_positions_exact by metis
  obtain kept where "map_res parse_net_position kept = Inr np" using ps(2) by (auto simp: added_rows_def)
  then have "list_all valid_position np"
    by (rule map_res_valid) (auto simp: parse_net_position_def dest: kite_position_valid)
  moreover have "list_all valid_position hp" using ps(1)
    by (rule map_res_valid) (auto simp: parse_holding_def dest: kite_position_valid)
  ultimately show ?thesis using ps(3) by simp
qed

lemma dict_get_range: "dict_get d k v \<in> insert v (snd ` set d)"
  by (auto simp: dict_get_def split: option.splits dest!: map_of_SomeD) (metis image_eqI snd_conv)

lemma order_status_ranges [simp]:
  "dict_get KITE_ORDER_STATUS st ''pending'' \<in> set ORDER_STATUSES" "''filled'' \<in> set ORDER_STATUSES"
  "kite_order_type ty \<in> set ORDER_TYPES"
  using dict_get_range[of KITE_ORDER_STATUS st "''pending''"]
  by (auto simp: KITE_ORDER_STATUS_def ORDER_STATUSES_def kite_order_type_def ORDER_TYPES_def)

lemma kite_parse_order_valid: "kite_parse_order dt row = Inr x \<Longrightarrow> valid_order x"
proof -
  assume "kite_parse_order dt row = Inr x"
  then obtain oid sy side ty q f l s status su fa where x: "make_order dt oid sy side ty q f l s status su fa ''INR'' = Inr x"
    "side \<in> {''buy'', ''sell''}" "status \<in> set ORDER_STATUSES" "ty \<in> set ORDER_TYPES"
    by (auto simp: kite_parse_order_def bind_res_Inr_iff Let_def split: option.splits if_splits)
  then show ?thesis using make_order_valid[OF x(1)] by (simp add: valid_order_def)
qed

lemma get_by_range: "get_by table j d = Inr s \<Longrightarrow> s \<in> insert d (snd ` set table)"
  using dict_get_range[of table] by (cases j) auto

lemma alpaca_parse_order_valid: "alpaca_parse_order dt row = Inr x \<Longrightarrow> valid_order x"
proof -
  assume "alpaca_parse_order dt row = Inr x"
  then obtain j1 j2 status ty oid sy side q f l s fa su where x: "make_order dt oid sy side ty q f l s status su fa ''USD'' = Inr x"
    "side \<in> {''buy'', ''sell''}" "get_by ALPACA_ORDER_STATUS j1 ''pending'' = Inr status"
    "get_by ALPACA_ORDER_TYPE j2 ''market'' = Inr ty"
    by (auto simp: alpaca_parse_order_def bind_res_Inr_iff Let_def split: option.splits if_splits)
  have "status \<in> set ORDER_STATUSES" using get_by_range[OF x(3)] by (auto simp: ALPACA_ORDER_STATUS_def ORDER_STATUSES_def)
  moreover have "ty \<in> set ORDER_TYPES" using get_by_range[OF x(4)] by (auto simp: ALPACA_ORDER_TYPE_def ORDER_TYPES_def)
  ultimately show ?thesis using make_order_valid[OF x(1)] x(2) by (simp add: valid_order_def)
qed


lemma alpaca_parse_position_valid: "alpaca_parse_position row = Inr p \<Longrightarrow> valid_position p"
  by (auto simp: alpaca_parse_position_def bind_res_Inr_iff valid_position_def CURRENCIES_def dest: make_position_valid)

lemma canonical_ticker_idem: "canonical_ticker (canonical_ticker s) = canonical_ticker s"
  by (simp add: canonical_ticker_def str_strip_upper)

interpretation zerodha: broker_adapter
  "\<lambda>(z, n1, n2, k, w). fst (zerodha_positions z n1 n2 k w)"
  "\<lambda>(z, n1, n2, k, w) b. fst (zerodha_orders to_datetime z n1 b k w)" canonical_ticker
proof (unfold_locales, goal_cases)
  case (1 c ps)
  then show ?case using zerodha_positions_valid by (auto split: prod.splits)
next
  case (2 c b os)
  then obtain answer rows parsed where "rows_of answer = Inr rows"
    "map_res (kite_parse_order to_datetime) rows = Inr parsed" "set os \<subseteq> set parsed"
    by (auto simp: zerodha_orders_def bind_res_Inr_iff split: prod.splits sum.splits if_splits)
  moreover from this(2) have "list_all valid_order parsed" by (rule map_res_valid) (rule kite_parse_order_valid)
  ultimately show ?case by (auto simp: list_all_iff)
qed (rule canonical_ticker_idem)

interpretation alpaca: broker_adapter
  "\<lambda>(a, client). alpaca_positions a client" "\<lambda>(a, client) b. alpaca_orders to_datetime a client b" canonical_ticker
proof (unfold_locales, goal_cases)
  case (1 c ps)
  then show ?case
    by (auto simp: alpaca_positions_def bind_res_Inr_iff split: prod.splits intro: map_res_valid alpaca_parse_position_valid)
next
  case (2 c b os)
  then show ?case
    by (auto simp: alpaca_orders_def bind_res_Inr_iff split: prod.splits intro: map_res_valid alpaca_parse_order_valid)
qed (rule canonical_ticker_idem)

section \<open>Failures\<close>

text \<open>A status of 400 or more is always a \<open>BrokerAPIError\<close>, the expired credentials exactly for 401 and
  403; what escapes is an answer below 400 that is no JSON.\<close>

lemma alpaca_request_failures:
  "client method (al_base_url a @ path) (alpaca_headers a) params = Response status text \<Longrightarrow>
   (alpaca_request a client method path params = Inl Uncaught \<longleftrightarrow> status < 400 \<and> json_loads text = None) \<and>
   ((\<exists>m. alpaca_request a client method path params = failed ''AUTH_EXPIRED'' m) \<longleftrightarrow> status = 401 \<or> status = 403) \<and>
   ((\<exists>m. alpaca_request a client method path params = failed ''RATE_LIMITED'' m) \<longleftrightarrow> status = 429)"
  by (auto simp: alpaca_request_def failed_def split: option.splits)

text \<open>An expired token costs neither a slot of the limiter nor a call of the SDK.\<close>

lemma expired_call_skips:
  "is_token_expired (za_issued_at z) now \<Longrightarrow> snd (kite_call z now fn w) = w \<and>
     (\<exists>e. fst (kite_call z now fn w) = Inl (BrokerFailed e) \<and> be_code e = ''AUTH_EXPIRED'')"
  by (simp add: kite_call_def)

text \<open>Of an exception of the SDK only the name of its class reaches the caller.\<close>

lemma translate_only_class:
  "translate fn = Inl e \<Longrightarrow> \<exists>code text cls. e = kite_error code text cls \<and>
     fn \<in> {TokenException cls, NetworkException cls, InputException cls, KiteException cls, OtherException cls}"
  by (cases fn) auto

section \<open>Properties\<close>

text \<open>C22. Zerodha positions are all holdings in the order of the answer, followed by those net positions
  that have a quantity and whose symbol and exchange neither a holding nor an earlier net position has;
  every net position with a quantity is represented, and every position has a cost and a price of at
  least zero.\<close>

theorem zerodha_positions_union:
  assumes ok: "zerodha_positions z now1 now2 k w = (Inr ps, w')"
    and answers: "kt_holdings k = Returns holdings" "kt_positions k = Returns (JObj resp)"
  shows "\<exists>hs net hk hp nk np. rows_of holdings = Inr hs \<and> rows_of (dict_get resp ''net'' (JArr [])) = Inr net \<and>
    map_res row_key hs = Inr hk \<and> map_res parse_holding hs = Inr hp \<and> added_rows net (rev hk) nk np \<and>
    ps = hp @ np \<and> list_all valid_position ps"
proof -
  have "merge_positions holdings (JObj resp) = Inr ps"
    using ok answers by (auto simp: zerodha_positions_def kite_call_def split: if_splits prod.splits option.splits)
  moreover have "list_all valid_position ps"
    using zerodha.positions_valid[of "(z, now1, now2, k, w)" ps] ok by simp
  ultimately show ?thesis using merge_positions_exact by metis
qed

definition holding_row :: raw where
  "holding_row = [(''tradingsymbol'', JStr ''INFY''), (''exchange'', JStr ''NSE''), (''quantity'', JInt 0),
     (''average_price'', JFloat 1400), (''last_price'', JFloat 1500), (''pnl'', JFloat 0)]"

definition net_row :: "string \<Rightarrow> int \<Rightarrow> raw" where
  "net_row symbol q = [(''tradingsymbol'', JStr symbol), (''exchange'', JStr ''NSE''), (''quantity'', JInt q),
     (''average_price'', JFloat 1450), (''last_price'', JFloat 1500), (''pnl'', JFloat 0)]"

definition kite_1 :: kite where
  "kite_1 = \<lparr>kt_holdings = Returns (JArr [JObj holding_row]),
     kt_positions = Returns (JObj [(''net'', JArr [JObj (net_row ''INFY'' 5), JObj (net_row ''TCS'' 3), JObj (net_row ''TCS'' 4),
        JObj (net_row ''ITC'' 0)])]),
     kt_margins = OtherException ''Timeout'', kt_orders = OtherException ''Timeout''\<rparr>"

definition zerodha_1 :: "unit zerodha" where
  "zerodha_1 = \<lparr>za_api_key = ''key'', za_issued_at = Some 0, za_acquire = None, za_mapper = None\<rparr>"

text \<open>A holding of no quantity hides the net position of the same symbol.\<close>

lemma zero_holding_hides:
  "\<exists>ps. zerodha_positions zerodha_1 0 0 kite_1 () = (Inr ps, ()) \<and>
     map (\<lambda>p. (bp_symbol p, bp_quantity p)) ps = [(''INFY'', 0), (''TCS'', 3)]"
proof -
  have "(case zerodha_positions zerodha_1 0 0 kite_1 () of (Inr ps, u) \<Rightarrow>
      map (\<lambda>p. (bp_symbol p, bp_quantity p)) ps = [(''INFY'', 0), (''TCS'', 3)] | _ \<Rightarrow> False)"
    by code_simp
  then show ?thesis by (auto split: prod.splits sum.splits)
qed

lemma kite_1_runs:
  "\<exists>ps. zerodha_positions zerodha_1 0 0 kite_1 () = (Inr ps, ())" using zero_holding_hides by blast

theorem zerodha_positions_union_witness:
  "\<exists>ps hp np. zerodha_positions zerodha_1 0 0 kite_1 () = (Inr ps, ()) \<and> ps = hp @ np \<and>
     map_res parse_holding [holding_row] = Inr hp \<and> list_all valid_position ps"
proof -
  obtain ps where ps: "zerodha_positions zerodha_1 0 0 kite_1 () = (Inr ps, ())" using kite_1_runs by blast
  have k: "kt_holdings kite_1 = Returns (JArr [JObj holding_row])"
    "kt_positions kite_1 = Returns (JObj [(''net'', JArr [JObj (net_row ''INFY'' 5), JObj (net_row ''TCS'' 3),
       JObj (net_row ''TCS'' 4), JObj (net_row ''ITC'' 0)])])" by (simp_all add: kite_1_def)
  show ?thesis using zerodha_positions_union[OF ps k] ps by auto
qed

end
