(* ===== verification/Broker_Auth.thy ===== *)
theory Broker_Auth
  imports Brokers Encryption Portfolio
begin

text \<open>
  Broker connections: the routes of \<open>api/broker_auth.py\<close> (connecting Alpaca with the user's keys,
  the redirect URL, the retired callback, the status list) and \<open>_build_adapter\<close> of
  \<open>api/portfolio.py\<close>, which turns a stored connection back into an adapter. The tokens go through
  the model of \<open>services/encryption.py\<close>, the verification through the Alpaca adapter. Lengths of
  columns are left to the database.
\<close>

section \<open>Rows, settings and replies\<close>

record broker_link = broker_connection +
  cn_broker :: string
  cn_account_id :: string
  cn_access_token :: string
  cn_refresh_token :: "string option"
  cn_token_expires_at :: "instant option"

record broker_settings =
  set_alpaca_api_key :: "string option"
  set_alpaca_base_url :: string
  set_alpaca_oauth_client_id :: "string option"
  set_alpaca_oauth_redirect_uri :: string
  set_zerodha_api_key :: "string option"
  set_zerodha_api_secret :: "string option"
  set_master_keys :: "string option"

text \<open>A route answers, raises an \<open>HTTPException\<close> or lets another exception through.\<close>

datatype 'a route = Replied int 'a | Refused int string | Crashed

definition or_empty :: "string option \<Rightarrow> string" where
  "or_empty s = (case s of None \<Rightarrow> [] | Some t \<Rightarrow> t)"

section \<open>Status of a connection\<close>

definition derive_connection_status :: "broker_link \<Rightarrow> instant \<Rightarrow> string" where
  "derive_connection_status conn now_utc =
     (if bc_status conn = ''revoked'' then ''disconnected''
      else if bc_status conn = ''expired'' then ''auth_expired''
      else (case cn_token_expires_at conn of
              None \<Rightarrow> ''connected''
            | Some expires_at \<Rightarrow>
                if cn_broker conn = ''zerodha''
                then (if expires_at \<le> last_kite_expiry_cutoff now_utc then ''auth_expired'' else ''connected'')
                else (if expires_at \<le> now_utc then ''auth_expired'' else ''connected'')))"

record connection_status =
  cs_id :: uuid
  cs_broker :: string
  cs_account_id :: string
  cs_status :: string
  cs_token_expires_at :: "instant option"

definition list_broker_connections :: "uuid \<Rightarrow> (broker_link \<Rightarrow> instant) \<Rightarrow> broker_link list \<Rightarrow> connection_status list" where
  "list_broker_connections user_id now conns =
     map (\<lambda>row. \<lparr>cs_id = co_id row, cs_broker = cn_broker row, cs_account_id = cn_account_id row,
            cs_status = derive_connection_status row (now row), cs_token_expires_at = cn_token_expires_at row\<rparr>)
       (filter (\<lambda>row. co_user row = user_id) conns)"

section \<open>Connecting Alpaca\<close>

definition verify_alpaca_account ::
  "broker_settings \<Rightarrow> http_client \<Rightarrow> string \<Rightarrow> string \<Rightarrow> adapter_failure + string" where
  "verify_alpaca_account cfg client api_key_id api_secret =
     bind_res (alpaca_balances (alpaca_of api_key_id api_secret (set_alpaca_base_url cfg)) client)
       (\<lambda>b. Inr (ba_account_id b))"

record connection_reply =
  cr_id :: uuid
  cr_broker :: string
  cr_account_id :: string
  cr_status :: string

text \<open>The nonces of the two encryptions and the id of the row are drawn by the caller; an exception of
  the encryption is not caught.\<close>

definition connect_alpaca_credentials ::
  "broker_settings \<Rightarrow> cipher \<Rightarrow> http_client \<Rightarrow> string \<times> string \<Rightarrow> uuid \<Rightarrow> uuid \<Rightarrow> string \<Rightarrow> string
     \<Rightarrow> broker_link list \<times> key_list_cache \<Rightarrow> connection_reply route \<times> broker_link list \<times> key_list_cache" where
  "connect_alpaca_credentials cfg C client nonces new_id user_id api_key_id api_secret s =
     (case s of (conns, keys) \<Rightarrow>
       if api_key_id = [] \<or> api_secret = [] then (Refused 422 ''String should have at least 1 character'', conns, keys)
       else (case verify_alpaca_account cfg client api_key_id api_secret of
           Inl (BrokerFailed e) \<Rightarrow>
             (if be_code e = ''AUTH_EXPIRED'' then Refused 401 ''Alpaca rejected the provided credentials''
              else Refused 502 (''Could not verify Alpaca credentials '' @ [CHR 0xE2, CHR 0x80, CHR 0x94] @ '' try again''), conns, keys)
         | Inl Uncaught \<Rightarrow> (Crashed, conns, keys)
         | Inr account_id \<Rightarrow>
            (case encrypt_token C (set_master_keys cfg) (fst nonces) api_key_id user_id keys of
               (Inl e, keys1) \<Rightarrow> (Crashed, conns, keys1)
             | (Inr access, keys1) \<Rightarrow>
                (case encrypt_token C (set_master_keys cfg) (snd nonces) api_secret user_id keys1 of
                   (Inl e, keys2) \<Rightarrow> (Crashed, conns, keys2)
                 | (Inr refresh, keys2) \<Rightarrow>
                     (let conn = \<lparr>co_id = new_id, co_user = user_id, bc_status = ''active'', cn_broker = ''alpaca'',
                            cn_account_id = account_id, cn_access_token = access, cn_refresh_token = Some refresh,
                            cn_token_expires_at = None\<rparr>
                      in (Replied 201 \<lparr>cr_id = new_id, cr_broker = ''alpaca'', cr_account_id = account_id,
                            cr_status = ''active''\<rparr>, conns @ [conn], keys2))))))"

section \<open>The redirect URL and the callback\<close>

definition url_safe :: "char \<Rightarrow> bool" where
  "url_safe c \<longleftrightarrow> c \<in> set (upper_letters @ lower_letters @ ''0123456789_.-~'')"

definition quote_char :: "char \<Rightarrow> string" where
  "quote_char c =
     (if url_safe c then [c]
      else if c = CHR '' '' then ''+''
      else (let n = of_char c in [CHR ''%'', ''0123456789ABCDEF'' ! (n div 16), ''0123456789ABCDEF'' ! (n mod 16)]))"

fun join_with :: "string \<Rightarrow> string list \<Rightarrow> string" where
  "join_with sep [] = []"
| "join_with sep [p] = p"
| "join_with sep (p # ps) = p @ sep @ join_with sep ps"

definition urlencode :: "(string \<times> string) list \<Rightarrow> string" where
  "urlencode params =
     join_with ''&'' (map (\<lambda>(k, v). concat (map quote_char k) @ ''='' @ concat (map quote_char v)) params)"

definition broker_connect :: "broker_settings \<Rightarrow> string \<Rightarrow> uuid \<Rightarrow> (string \<times> string) route" where
  "broker_connect cfg broker user_id =
     (if broker \<notin> {''alpaca'', ''zerodha''} then Refused 422 ''Input should be alpaca or zerodha''
      else if broker = ''alpaca'' then
        (let a = or_empty (set_alpaca_oauth_client_id cfg);
             client_id = (if a = [] then or_empty (set_alpaca_api_key cfg) else a)
         in if client_id = [] then Refused 503 ''Alpaca OAuth is not configured''
            else Replied 200 (''https://app.alpaca.markets/oauth/authorize?'' @
                   urlencode [(''response_type'', ''code''), (''client_id'', client_id),
                     (''redirect_uri'', set_alpaca_oauth_redirect_uri cfg), (''scope'', ''account:write trading''),
                     (''state'', user_id)], ''alpaca''))
      else Refused 501 ''Zerodha OAuth ships in M4'')"

definition broker_callback :: "string \<Rightarrow> string \<Rightarrow> unit route" where
  "broker_callback broker code =
     (if broker \<notin> {''alpaca'', ''zerodha''} \<or> code = [] then Refused 422 ''validation error''
      else if broker = ''zerodha'' then Refused 501 ''Zerodha OAuth ships in M4''
      else Refused 410 ''Alpaca now connects via POST /api/auth/broker/alpaca/credentials (per-user API keys)'')"

section \<open>Building the adapter of a stored connection\<close>

datatype 'w built = BuiltAlpaca alpaca | BuiltZerodha "'w zerodha" | BuiltStale | BuiltHttp int | BuiltCrash

text \<open>\<open>slot\<close> is the \<open>acquire\<close> of the shared limiter.\<close>

definition build_adapter ::
  "broker_settings \<Rightarrow> cipher \<Rightarrow> (limiter \<Rightarrow> 'w \<Rightarrow> adapter_failure option \<times> 'w) \<Rightarrow> broker_link
     \<Rightarrow> key_list_cache \<times> limiter option \<Rightarrow> 'w built \<times> key_list_cache \<times> limiter option" where
  "build_adapter cfg C slot conn s =
     (case s of (keys, limiter) \<Rightarrow>
       if cn_broker conn = ''alpaca'' then
         (case cn_refresh_token conn of
            None \<Rightarrow> (BuiltStale, keys, limiter)
          | Some refresh \<Rightarrow>
             (case decrypt_token C (set_master_keys cfg) (cn_access_token conn) (co_user conn) keys of
                (Inl e, keys1) \<Rightarrow> (BuiltCrash, keys1, limiter)
              | (Inr api_key_id, keys1) \<Rightarrow>
                  (case decrypt_token C (set_master_keys cfg) refresh (co_user conn) keys1 of
                     (Inl e, keys2) \<Rightarrow> (BuiltCrash, keys2, limiter)
                   | (Inr api_secret, keys2) \<Rightarrow>
                       (if starts_with ''alpaca-access-'' api_key_id \<noteq> None \<or> starts_with ''alpaca-refresh-'' api_secret \<noteq> None
                        then BuiltStale else BuiltAlpaca (alpaca_of api_key_id api_secret (set_alpaca_base_url cfg)),
                        keys2, limiter))))
       else if cn_broker conn = ''zerodha'' then
         (let api_key = or_empty (set_zerodha_api_key cfg); api_secret = or_empty (set_zerodha_api_secret cfg)
          in if api_key = [] \<or> api_secret = [] then (BuiltHttp 503, keys, limiter)
             else (case decrypt_token C (set_master_keys cfg) (cn_access_token conn) (co_user conn) keys of
                     (Inl e, keys1) \<Rightarrow> (BuiltCrash, keys1, limiter)
                   | (Inr access_token, keys1) \<Rightarrow>
                       (case get_zerodha_rate_limiter limiter of
                          (Inl e, limiter1) \<Rightarrow> (BuiltCrash, keys1, limiter1)
                        | (Inr lm, limiter1) \<Rightarrow>
                            (BuiltZerodha \<lparr>za_api_key = api_key, za_issued_at = cn_token_expires_at conn,
                               za_acquire = Some (slot lm), za_mapper = None\<rparr>, keys1, limiter1))))
       else (BuiltHttp 501, keys, limiter))"

section \<open>Lemmas\<close>

text \<open>A connect either answers 201 and appends one active row of the user, or leaves the table.\<close>

lemma connect_rows:
  "case connect_alpaca_credentials cfg C client nonces new_id user_id k sec (conns, keys) of
     (Replied status r, conns', _) \<Rightarrow> status = 201 \<and> (\<exists>row. conns' = conns @ [row] \<and> co_id row = new_id \<and>
        co_user row = user_id \<and> bc_status row = ''active'' \<and> cn_broker row = ''alpaca'' \<and> cn_refresh_token row \<noteq> None)
   | (_, conns', _) \<Rightarrow> conns' = conns"
  by (auto simp: connect_alpaca_credentials_def Let_def split: sum.splits adapter_failure.splits prod.splits)

lemma encrypt_ok:
  assumes "master_keys setting st = (Inr ks, Some ks)" "pt \<noteq> []"
  shows "encrypt_token C setting nonce pt u st =
    (Inr ([VERSION, CHR 0x00] @ nonce @ ci_seal C (derive_user_key C (ks ! 0) u) nonce pt), Some ks)"
  using assms by (simp add: encrypt_token_def Let_def)

lemma decrypt_ok:
  assumes "aead_ok C" "length nonce = 12" "ks \<noteq> []" "decode_utf8 pt = Some pt"
  shows "decrypt_token C setting ([VERSION, CHR 0x00] @ nonce @ ci_seal C (derive_user_key C (ks ! 0) u) nonce pt) u (Some ks) =
    (Inr pt, Some ks)"
proof -
  obtain k rest where ks: "ks = k # rest" using assms(3) by (cases ks) auto
  have "try_keys C u nonce (ci_seal C (derive_user_key C k u) nonce pt) ([] @ k # rest) = Some pt"
    using assms by (intro try_keys_found) (simp_all add: aead_ok_def)
  then show ?thesis using decrypt_blob[OF assms(1,2)] by (simp add: master_keys_def ks)
qed

section \<open>Properties\<close>

text \<open>C23. The credentials a user connects Alpaca with are the ones the adapter of the stored connection uses:
  if Alpaca accepts them, the route stores one active row whose adapter, built later under the same
  master keys, has exactly this key, secret and base URL and sees the account that was verified. Only keys
  that look like the placeholders of the retired callback are taken for a stale connection.\<close>

theorem connected_credentials_used:
  assumes C: "aead_ok C" "length n1 = 12" "length n2 = 12"
    and creds: "k \<noteq> []" "sec \<noteq> []" "decode_utf8 k = Some k" "decode_utf8 sec = Some sec"
    and keys: "read_master_keys (set_master_keys cfg) = Inr ks"
    and verified: "alpaca_balances (alpaca_of k sec (set_alpaca_base_url cfg)) client = Inr b"
  shows "\<exists>row reply. connect_alpaca_credentials cfg C client (n1, n2) new_id u k sec (conns, None) =
       (Replied 201 reply, conns @ [row], Some ks) \<and>
     cr_account_id reply = ba_account_id b \<and> derive_connection_status row now = ''connected'' \<and>
     build_adapter cfg C slot row (Some ks, limiter) =
       (if starts_with ''alpaca-access-'' k = None \<and> starts_with ''alpaca-refresh-'' sec = None
        then BuiltAlpaca (alpaca_of k sec (set_alpaca_base_url cfg)) else BuiltStale, Some ks, limiter)"
proof -
  have ks: "ks \<noteq> []" by (rule read_master_keys_nonempty[OF keys])
  note enc = encrypt_ok[OF master_keys_fresh[OF keys] creds(1)]
    encrypt_ok[of "set_master_keys cfg" "Some ks" ks, OF _ creds(2)]
  note dec = decrypt_ok[OF C(1,2) ks creds(3)] decrypt_ok[OF C(1,3) ks creds(4)]
  have cached: "master_keys s (Some ks) = (Inr ks, Some ks)" for s by (simp add: master_keys_def)
  show ?thesis
    by (simp add: connect_alpaca_credentials_def verify_alpaca_account_def verified creds enc cached Let_def
        derive_connection_status_def build_adapter_def dec del: append_Cons append.simps)
qed

text \<open>The pre-flight check of a synced Zerodha connection fires a day late. The adapter is built with
  the stored expiry of the token as its time of issue; for a token valid until a daily cutoff the status
  list reports an expired login from that cutoff on, the adapter calls the SDK without objection for
  another day.\<close>

theorem preflight_a_day_late:
  assumes "last_kite_expiry_cutoff expiry = expiry" "cn_broker conn = ''zerodha''" "cn_token_expires_at conn = Some expiry"
    and "bc_status conn = ''active''" "fst (build_adapter cfg C slot conn s) = BuiltZerodha z"
  shows "(derive_connection_status conn now = ''auth_expired'' \<longleftrightarrow> expiry \<le> now) \<and>
    (is_token_expired (za_issued_at z) now \<longleftrightarrow> expiry + day_us \<le> now)"
proof -
  have "za_issued_at z = Some expiry"
    using assms by (auto simp: build_adapter_def Let_def split: prod.splits sum.splits if_splits)
  then show ?thesis using assms
    by (simp add: derive_connection_status_def is_token_expired_def cutoff_reached cutoff_passed)
qed

text \<open>Connecting again after a connection expired leaves the positions of the old one in the portfolio: the
  joins of the portfolio read connections whatever their status, and a sync touches the active one only.\<close>

definition linked_db :: "holdings_db \<Rightarrow> broker_link list \<Rightarrow> holdings_db" where
  "linked_db db conns = db\<lparr>hd_connections := map (\<lambda>c. \<lparr>co_id = co_id c, co_user = co_user c\<rparr>) conns\<rparr>"

definition expire_link :: "uuid \<Rightarrow> broker_link list \<Rightarrow> broker_link list" where
  "expire_link cid conns = map (\<lambda>c. if co_id c = cid then c\<lparr>bc_status := ''expired''\<rparr> else c) conns"

lemma relink_keeps_old_positions:
  "set (user_positions (linked_db db conns) u) \<subseteq> set (user_positions (linked_db db (expire_link cid conns @ [row])) u)"
proof -
  have "map (\<lambda>c. \<lparr>co_id = co_id c, co_user = co_user c\<rparr>) (expire_link cid conns) =
      map (\<lambda>c. \<lparr>co_id = co_id c, co_user = co_user c\<rparr>) conns"
    by (simp add: expire_link_def)
  then show ?thesis by (fastforce simp: user_positions_def linked_db_def)
qed


section \<open>Witnesses\<close>

definition settings_1 :: broker_settings where
  "settings_1 = \<lparr>set_alpaca_api_key = None, set_alpaca_base_url = ''https://paper-api.alpaca.markets/'',
     set_alpaca_oauth_client_id = None, set_alpaca_oauth_redirect_uri = ''http://localhost'',
     set_zerodha_api_key = Some ''app'', set_zerodha_api_secret = Some ''secret'', set_master_keys = Some key_a\<rparr>"

definition paper_account :: http_client where
  "paper_account method url headers params =
     (if url = ''https://paper-api.alpaca.markets/v2/account'' \<and> map_of headers ''APCA-API-SECRET-KEY'' = Some ''s1''
      then Response 200 (''{'' @ json_quote ''account_number'' @ '':'' @ json_quote ''PA1'' @ ''}'') else Response 401 [])"

lemma paper_verified:
  "alpaca_balances (alpaca_of ''k1'' ''s1'' (set_alpaca_base_url settings_1)) paper_account =
     Inr \<lparr>ba_cash = 0, ba_equity = 0, ba_currency = ''USD'', ba_account_id = ''PA1''\<rparr>"
  by code_simp

theorem connected_credentials_used_witness:
  "\<exists>row reply keys. connect_alpaca_credentials settings_1 cipher_1 paper_account (''123456789012'', ''210987654321'') ''c1'' ''u''
       ''k1'' ''s1'' ([], None) = (Replied 201 reply, [row], keys) \<and> cr_account_id reply = ''PA1'' \<and>
     fst (build_adapter settings_1 cipher_1 (\<lambda>lm w. (None, w :: unit)) row (keys, None)) =
       BuiltAlpaca (alpaca_of ''k1'' ''s1'' ''https://paper-api.alpaca.markets/'')"
proof -
  have pre: "length ''123456789012'' = 12" "length ''210987654321'' = 12" "''k1'' \<noteq> []" "''s1'' \<noteq> []"
    "decode_utf8 ''k1'' = Some ''k1''" "decode_utf8 ''s1'' = Some ''s1''"
    "starts_with ''alpaca-access-'' ''k1'' = None" "starts_with ''alpaca-refresh-'' ''s1'' = None"
    by code_simp+
  have keys: "read_master_keys (set_master_keys settings_1) = Inr [replicate 32 (CHR 0x00)]"
    using keys_read(1) by (simp add: settings_1_def)
  have url: "set_alpaca_base_url settings_1 = ''https://paper-api.alpaca.markets/''" by (simp add: settings_1_def)
  show ?thesis
    using connected_credentials_used[OF cipher_1_ok pre(1-6) keys paper_verified, of "''c1''" "''u''" "[]" 0
        "\<lambda>lm w. (None, w :: unit)" None] pre(7,8) url
    by (auto simp del: append_Cons)
qed

definition zerodha_link :: broker_link where
  "zerodha_link = \<lparr>co_id = ''c2'', co_user = ''u'', bc_status = ''active'', cn_broker = ''zerodha'', cn_account_id = ''Z1'',
     cn_access_token = [VERSION, CHR 0x00] @ ''123456789012'' @ ci_seal cipher_1 (derive_user_key cipher_1 (replicate 32 (CHR 0x00)) ''u'') ''123456789012'' ''token'',
     cn_refresh_token = None, cn_token_expires_at = Some (20512 * day_us + 30 * minute)\<rparr>"

theorem preflight_a_day_late_witness:
  "\<exists>z. fst (build_adapter settings_1 cipher_1 (\<lambda>lm w. (None, w :: unit)) zerodha_link (None, None)) = BuiltZerodha z \<and>
     derive_connection_status zerodha_link (20512 * day_us + 12 * hour) = ''auth_expired'' \<and>
     \<not> is_token_expired (za_issued_at z) (20512 * day_us + 12 * hour)"
proof -
  have "\<exists>z. fst (build_adapter settings_1 cipher_1 (\<lambda>lm w. (None, w :: unit)) zerodha_link (None, None)) = BuiltZerodha z"
  proof -
    have dec: "fst (decrypt_token cipher_1 (Some key_a) (cn_access_token zerodha_link) ''u'' None) = Inr ''token''"
      by code_simp
    have "limiter_of ''ratelimit:zerodha:global'' 10 1 30 \<noteq> Inl e" for e by (simp add: limiter_of_def)
    then show ?thesis using dec
      by (cases "decrypt_token cipher_1 (Some key_a) (cn_access_token zerodha_link) ''u'' None")
         (auto simp: build_adapter_def settings_1_def or_empty_def get_zerodha_rate_limiter_def zerodha_link_def
           split: sum.splits)
  qed
  then obtain z where z: "fst (build_adapter settings_1 cipher_1 (\<lambda>lm w. (None, w :: unit)) zerodha_link (None, None)) = BuiltZerodha z"
    by blast
  have c: "last_kite_expiry_cutoff (20512 * day_us + 30 * minute) = 20512 * day_us + 30 * minute"
    unfolding cutoff_closed using day_us_pos by simp
  show ?thesis
    using preflight_a_day_late[OF c _ _ _ z, of "20512 * day_us + 12 * hour"] z
    by (auto simp: zerodha_link_def day_us_def)
qed

end
