(* ===== verification/Market_Data.thy ===== *)
theory Market_Data
  imports Http Models Redis "HOL-Library.Countable"
begin

text \<open>
  The market-data layer: the Redis cache of provider answers (\<open>data/cache.py\<close>), the Yahoo provider
  (\<open>data/yahoo.py\<close>), its payloads and errors (\<open>data/base.py\<close>, \<open>data/errors.py\<close>) and the upsert of
  bars into the price history (\<open>data/storage.py\<close>). Pydantic's JSON writer and reader are a parameter
  (\<open>codec\<close>), and so is what yfinance answers. The keys a SCAN walks are given as a list.
\<close>

section \<open>The cache\<close>

text \<open>\<open>None\<close> of a reader is the \<open>ValidationError\<close>.\<close>

record 'm codec =
  cd_dump :: "'m \<Rightarrow> string"
  cd_load :: "string \<Rightarrow> 'm option"
  cd_load_list :: "string \<Rightarrow> 'm list option"

fun join_comma :: "string list \<Rightarrow> string" where
  "join_comma [] = []"
| "join_comma [p] = p"
| "join_comma (p # ps) = p @ '','' @ join_comma ps"

definition dump_list :: "'m codec \<Rightarrow> 'm list \<Rightarrow> string" where
  "dump_list C ms = ''['' @ join_comma (map (cd_dump C) ms) @ '']''"

text \<open>What the code relies on of pydantic: a written model is read back.\<close>

definition codec_ok :: "'m codec \<Rightarrow> bool" where
  "codec_ok C \<longleftrightarrow> (\<forall>m. cd_load C (cd_dump C m) = Some m) \<and> (\<forall>ms. cd_load_list C (dump_list C ms) = Some ms)"

definition OHLCV_TTL_SECONDS :: int where "OHLCV_TTL_SECONDS = 60 * 60"
definition FUNDAMENTALS_TTL_SECONDS :: int where "FUNDAMENTALS_TTL_SECONDS = 24 * 60 * 60"
definition QUOTE_TTL_SECONDS :: int where "QUOTE_TTL_SECONDS = 60"

definition ohlcv_key :: "string \<Rightarrow> string \<Rightarrow> int \<Rightarrow> string" where
  "ohlcv_key provider symbol lookback_days = ''data:'' @ provider @ '':ohlcv:'' @ symbol @ '':'' @ int_str lookback_days"

definition fundamentals_key :: "string \<Rightarrow> string \<Rightarrow> string" where
  "fundamentals_key provider symbol = ''data:'' @ provider @ '':fundamentals:'' @ symbol"

definition quote_key :: "string \<Rightarrow> string \<Rightarrow> string" where
  "quote_key provider symbol = ''data:'' @ provider @ '':quote:'' @ symbol"

definition get_model :: "'r redis \<Rightarrow> 'm codec \<Rightarrow> string \<Rightarrow> 'r \<Rightarrow> 'm option" where
  "get_model R C key r = Option.bind (rd_get R r key) (cd_load C)"

definition set_model :: "'r redis \<Rightarrow> 'm codec \<Rightarrow> string \<Rightarrow> 'm \<Rightarrow> int \<Rightarrow> 'r \<Rightarrow> 'r" where
  "set_model R C key value ttl r = rd_set R r key (cd_dump C value) (Some ttl)"

definition get_model_list :: "'r redis \<Rightarrow> 'm codec \<Rightarrow> string \<Rightarrow> 'r \<Rightarrow> 'm list option" where
  "get_model_list R C key r = Option.bind (rd_get R r key) (cd_load_list C)"

definition set_model_list :: "'r redis \<Rightarrow> 'm codec \<Rightarrow> string \<Rightarrow> 'm list \<Rightarrow> int \<Rightarrow> 'r \<Rightarrow> 'r" where
  "set_model_list R C key values ttl r = rd_set R r key (dump_list C values) (Some ttl)"

fun invalidate :: "'r redis \<Rightarrow> string list \<Rightarrow> 'r \<Rightarrow> int \<times> 'r" where
  "invalidate R [] r = (0, r)"
| "invalidate R (k # ks) r =
     (case rd_delete R r k of (n, r1) \<Rightarrow> (case invalidate R ks r1 of (m, r2) \<Rightarrow> (n + m, r2)))"

text \<open>The patterns of SCAN, without character classes.\<close>

fun glob :: "string \<Rightarrow> string \<Rightarrow> bool" where
  "glob [] s = (s = [])"
| "glob (p # ps) s =
     (if p = CHR ''*'' then list_ex (\<lambda>n. glob ps (drop n s)) [0..<Suc (length s)]
      else (case s of [] \<Rightarrow> False | c # cs \<Rightarrow> (p = CHR ''?'' \<or> p = c) \<and> glob ps cs))"

definition invalidate_symbol :: "'r redis \<Rightarrow> string list \<Rightarrow> string \<Rightarrow> string \<Rightarrow> 'r \<Rightarrow> int \<times> 'r" where
  "invalidate_symbol R keys provider symbol r =
     invalidate R (filter (glob (''data:'' @ provider @ '':*:'' @ symbol @ ''*'')) keys) r"

section \<open>Payloads and errors\<close>

record ohlcv_bar =
  ba_timestamp :: instant
  ba_open :: rat
  ba_high :: rat
  ba_low :: rat
  ba_close :: rat
  ba_volume :: int

record quote =
  qu_symbol :: string
  qu_price :: rat
  qu_timestamp :: instant
  qu_delay_minutes :: int
  qu_currency :: string

record fundamentals =
  fu_symbol :: string
  fu_currency :: string
  fu_market_cap :: "rat option"
  fu_pe_ratio :: "rat option"
  fu_pb_ratio :: "rat option"
  fu_dividend_yield :: "rat option"
  fu_beta :: "rat option"
  fu_eps :: "rat option"
  fu_revenue_ttm :: "rat option"
  fu_fetched_at :: instant

text \<open>The exceptions below \<open>DataProviderError\<close>; \<open>Escaped\<close> is any other exception.\<close>

datatype provider_error = SymbolNotFound string | RateLimit string "rat option" | UpstreamUnavailable string
  | DataProviderError string | Escaped

section \<open>Yahoo\<close>

definition PROVIDER_NAME :: string where "PROVIDER_NAME = ''yahoo''"
definition YAHOO_DELAY_MINUTES :: int where "YAHOO_DELAY_MINUTES = 15"

definition resolve_yahoo_symbol :: "instrument_row \<Rightarrow> provider_error + string" where
  "resolve_yahoo_symbol i =
     (let exchange = str_upper (in_exchange i); symbol = str_upper (in_symbol i)
      in if exchange \<in> {''NASDAQ'', ''NYSE'', ''ARCA'', ''AMEX'', ''BATS'', ''NYSEARCA''} then Inr symbol
         else if exchange = ''NSE'' then Inr (symbol @ ''.NS'')
         else if exchange = ''BSE'' then Inr (symbol @ ''.BO'')
         else Inl (DataProviderError (''unsupported exchange '' @ py_repr exchange @ '' for Yahoo provider'')))"

text \<open>A value of yfinance: a number is its float.\<close>

datatype yf_value = YNone | YNum rat | YNaN | YInf | YStr string

fun yf_true :: "yf_value \<Rightarrow> bool" where
  "yf_true YNone = False"
| "yf_true (YNum x) = (x \<noteq> 0)"
| "yf_true (YStr s) = (s \<noteq> [])"
| "yf_true _ = True"

text \<open>\<open>float(value)\<close>; \<open>None\<close> is the \<open>TypeError\<close> or \<open>ValueError\<close>.\<close>

definition yf_float :: "yf_value \<Rightarrow> yf_value option" where
  "yf_float v =
     (case v of YNone \<Rightarrow> None
      | YStr s \<Rightarrow>
          (let t = str_lower (str_strip s);
               u = (if t \<noteq> [] \<and> hd t \<in> {CHR ''-'', CHR ''+''} then tl t else t)
           in if u = ''nan'' then Some YNaN else if u \<in> {''inf'', ''infinity''} then Some YInf
              else map_option YNum (py_float s))
      | _ \<Rightarrow> Some v)"

text \<open>A \<open>NaN\<close> is quantized to \<open>NaN\<close>, which the payload refuses; infinity cannot be quantized.\<close>

definition yf_decimal :: "yf_value \<Rightarrow> provider_error + rat" where
  "yf_decimal v =
     (if v = YNone then Inl (UpstreamUnavailable ''missing numeric field from Yahoo payload'')
      else (case yf_float v of
              Some (YNum x) \<Rightarrow> (case quantize_with round_half_even 8 (float_repr x) of None \<Rightarrow> Inl Escaped | Some d \<Rightarrow> Inr d)
            | _ \<Rightarrow> Inl Escaped))"

text \<open>An infinite value passes \<open>_decimal_or_none\<close> and is refused by the payload.\<close>

definition yf_decimal_or_none :: "yf_value \<Rightarrow> provider_error + rat option" where
  "yf_decimal_or_none v =
     (case yf_float v of None \<Rightarrow> Inr None | Some YNaN \<Rightarrow> Inr None | Some (YNum x) \<Rightarrow> Inr (Some (float_repr x)) | Some _ \<Rightarrow> Inl Escaped)"

record yf_row =
  yr_timestamp :: instant
  yr_open :: yf_value
  yr_high :: yf_value
  yr_low :: yf_value
  yr_close :: yf_value
  yr_volume :: yf_value

definition yf_volume :: "yf_value \<Rightarrow> provider_error + int" where
  "yf_volume v =
     (case v of YNaN \<Rightarrow> Inr 0
      | YNum x \<Rightarrow> (let n = (if 0 \<le> x then \<lfloor>x\<rfloor> else \<lceil>x\<rceil>) in if n < 0 then Inl Escaped else Inr n)
      | YStr s \<Rightarrow> (case py_int s of None \<Rightarrow> Inl Escaped | Some n \<Rightarrow> if n < 0 then Inl Escaped else Inr n)
      | _ \<Rightarrow> Inl Escaped)"

definition bar_of :: "yf_row \<Rightarrow> provider_error + ohlcv_bar" where
  "bar_of row =
     bind_res (yf_decimal (yr_open row)) (\<lambda>o1.
     bind_res (yf_decimal (yr_high row)) (\<lambda>h.
     bind_res (yf_decimal (yr_low row)) (\<lambda>l.
     bind_res (yf_decimal (yr_close row)) (\<lambda>c.
     bind_res (yf_volume (yr_volume row)) (\<lambda>v.
       Inr \<lparr>ba_timestamp = yr_timestamp row, ba_open = o1, ba_high = h, ba_low = l, ba_close = c, ba_volume = v\<rparr>)))))"

fun bars_of :: "yf_row list \<Rightarrow> provider_error + ohlcv_bar list" where
  "bars_of [] = Inr []"
| "bars_of (row # rows) = bind_res (bar_of row) (\<lambda>b. bind_res (bars_of rows) (\<lambda>bs. Inr (b # bs)))"

text \<open>What the SDK does: raise, or return a value.\<close>

datatype 'a yf = Raises string | Returns 'a

definition fetch_ohlcv_sync :: "string \<Rightarrow> yf_row list yf \<Rightarrow> provider_error + ohlcv_bar list" where
  "fetch_ohlcv_sync symbol history =
     (case history of
        Raises exc \<Rightarrow> Inl (UpstreamUnavailable (''Yahoo OHLCV fetch failed for '' @ symbol @ '': '' @ exc))
      | Returns rows \<Rightarrow> if rows = [] then Inl (UpstreamUnavailable (''Yahoo returned no OHLCV data for '' @ symbol)) else bars_of rows)"

definition get_ohlcv ::
  "'r redis \<Rightarrow> ohlcv_bar codec \<Rightarrow> string \<Rightarrow> int \<Rightarrow> yf_row list yf \<Rightarrow> 'r \<Rightarrow> (provider_error + ohlcv_bar list) \<times> 'r" where
  "get_ohlcv R C symbol lookback_days history r =
     (if lookback_days \<le> 0 then (Inl (DataProviderError ''lookback_days must be positive''), r)
      else (let key = ohlcv_key PROVIDER_NAME symbol lookback_days
            in case get_model_list R C key r of
                 Some bars \<Rightarrow> (Inr bars, r)
               | None \<Rightarrow>
                   (case fetch_ohlcv_sync symbol history of
                      Inl e \<Rightarrow> (Inl e, r)
                    | Inr bars \<Rightarrow> (Inr bars, set_model_list R C key bars OHLCV_TTL_SECONDS r))))"

type_synonym yf_info = "(string \<times> yf_value) list"

definition info_get :: "yf_info \<Rightarrow> string \<Rightarrow> yf_value" where
  "info_get info k = dict_get info k YNone"

text \<open>\<open>(info.get("currency") or "USD").upper()[:3]\<close>.\<close>

definition info_currency :: "yf_info \<Rightarrow> provider_error + string" where
  "info_currency info =
     (let c = info_get info ''currency''
      in if \<not> yf_true c then Inr ''USD'' else (case c of YStr s \<Rightarrow> Inr (take 3 (str_upper s)) | _ \<Rightarrow> Inl Escaped))"

definition fetch_fundamentals_sync :: "string \<Rightarrow> instant \<Rightarrow> yf_info yf \<Rightarrow> provider_error + fundamentals" where
  "fetch_fundamentals_sync symbol now answer =
     (case answer of
        Raises exc \<Rightarrow> Inl (UpstreamUnavailable (''Yahoo fundamentals fetch failed for '' @ symbol @ '': '' @ exc))
      | Returns info \<Rightarrow>
          if info = [] \<or> (info_get info ''symbol'' = YNone \<and> info_get info ''shortName'' = YNone)
          then Inl (SymbolNotFound (''Yahoo has no fundamentals for '' @ symbol))
          else
            bind_res (info_currency info) (\<lambda>currency.
            bind_res (yf_decimal_or_none (info_get info ''marketCap'')) (\<lambda>cap.
            bind_res (yf_decimal_or_none (info_get info ''trailingPE'')) (\<lambda>pe.
            bind_res (yf_decimal_or_none (info_get info ''priceToBook'')) (\<lambda>pb.
            bind_res (yf_decimal_or_none (info_get info ''dividendYield'')) (\<lambda>dy.
            bind_res (yf_decimal_or_none (info_get info ''beta'')) (\<lambda>beta.
            bind_res (yf_decimal_or_none (info_get info ''trailingEps'')) (\<lambda>eps.
            bind_res (yf_decimal_or_none (info_get info ''totalRevenue'')) (\<lambda>rev.
              Inr \<lparr>fu_symbol = symbol, fu_currency = currency, fu_market_cap = cap, fu_pe_ratio = pe, fu_pb_ratio = pb,
                fu_dividend_yield = dy, fu_beta = beta, fu_eps = eps, fu_revenue_ttm = rev, fu_fetched_at = now\<rparr>)))))))))"

definition get_fundamentals ::
  "'r redis \<Rightarrow> fundamentals codec \<Rightarrow> string \<Rightarrow> instant \<Rightarrow> yf_info yf \<Rightarrow> 'r \<Rightarrow> (provider_error + fundamentals) \<times> 'r" where
  "get_fundamentals R C symbol now answer r =
     (let key = fundamentals_key PROVIDER_NAME symbol
      in case get_model R C key r of
           Some f \<Rightarrow> (Inr f, r)
         | None \<Rightarrow>
             (case fetch_fundamentals_sync symbol now answer of
                Inl e \<Rightarrow> (Inl e, r)
              | Inr f \<Rightarrow> (Inr f, set_model R C key f FUNDAMENTALS_TTL_SECONDS r)))"

definition fetch_quote_sync :: "string \<Rightarrow> instant \<Rightarrow> yf_info yf \<Rightarrow> provider_error + quote" where
  "fetch_quote_sync symbol now answer =
     (case answer of
        Raises exc \<Rightarrow> Inl (UpstreamUnavailable (''Yahoo quote fetch failed for '' @ symbol @ '': '' @ exc))
      | Returns info \<Rightarrow>
          (let a = info_get info ''regularMarketPrice''; b = info_get info ''currentPrice'';
               price = (if yf_true a then a else if yf_true b then b else info_get info ''previousClose'')
           in if price = YNone then Inl (UpstreamUnavailable (''Yahoo returned no price for '' @ symbol))
              else bind_res (yf_decimal price) (\<lambda>p. bind_res (info_currency info) (\<lambda>c.
                if length c \<noteq> 3 then Inl Escaped
                else Inr \<lparr>qu_symbol = symbol, qu_price = p, qu_timestamp = now, qu_delay_minutes = YAHOO_DELAY_MINUTES,
                  qu_currency = c\<rparr>))))"

definition get_quote ::
  "'r redis \<Rightarrow> quote codec \<Rightarrow> string \<Rightarrow> instant \<Rightarrow> yf_info yf \<Rightarrow> 'r \<Rightarrow> (provider_error + quote) \<times> 'r" where
  "get_quote R C symbol now answer r =
     (let key = quote_key PROVIDER_NAME symbol
      in case get_model R C key r of
           Some q \<Rightarrow> (Inr q, r)
         | None \<Rightarrow>
             (case fetch_quote_sync symbol now answer of
                Inl e \<Rightarrow> (Inl e, r)
              | Inr q \<Rightarrow> (Inr q, set_model R C key q QUOTE_TTL_SECONDS r)))"

section \<open>Storing bars\<close>

definition price_key :: "price_row \<Rightarrow> uuid \<times> instant" where
  "price_key p = (ph_instrument p, ph_timestamp p)"

definition row_of_bar :: "uuid \<Rightarrow> ohlcv_bar \<Rightarrow> price_row" where
  "row_of_bar instrument_id b = \<lparr>ph_instrument = instrument_id, ph_timestamp = ba_timestamp b, ph_open = ba_open b,
     ph_high = ba_high b, ph_low = ba_low b, ph_close = ba_close b, ph_volume = ba_volume b\<rparr>"

definition put_price :: "price_row \<Rightarrow> price_row list \<Rightarrow> price_row list" where
  "put_price new tab =
     (if price_key new \<in> price_key ` set tab then map (\<lambda>p. if price_key p = price_key new then new else p) tab
      else tab @ [new])"

text \<open>One statement cannot touch a row twice: PostgreSQL refuses a batch with a repeated timestamp.\<close>

definition upsert_ohlcv :: "uuid \<Rightarrow> ohlcv_bar list \<Rightarrow> price_row list \<Rightarrow> string + (int \<times> price_row list)" where
  "upsert_ohlcv instrument_id bars tab =
     (if bars = [] then Inr (0, tab)
      else (let rows = map (row_of_bar instrument_id) bars
            in if \<not> distinct (map price_key rows) then Inl ''CardinalityViolation''
               else Inr (int (length rows), fold put_price rows tab)))"

section \<open>Lemmas\<close>

lemma model_roundtrip:
  assumes "redis_kv R" "codec_ok C"
  shows "get_model R C k (set_model R C k v ttl r) = Some v"
    and "get_model_list R C k (set_model_list R C k vs ttl r) = Some vs"
  using assms by (simp_all add: get_model_def set_model_def get_model_list_def set_model_list_def codec_ok_def redis_get_set)

lemma invalidate_gone:
  assumes "redis_kv R"
  shows "rd_get R (snd (invalidate R ks r)) k = (if k \<in> set ks then None else rd_get R r k)"
  by (induction ks arbitrary: r) (auto simp: redis_get_delete[OF assms] case_prod_beta)

lemma glob_star_skip: "glob ps ys \<Longrightarrow> glob (CHR ''*'' # ps) (xs @ ys)"
  by (auto simp: list_ex_iff less_Suc_eq_le intro!: bexI[of _ "length xs"])

lemma glob_literal: "CHR ''*'' \<notin> set xs \<Longrightarrow> glob ps ys \<Longrightarrow> glob (xs @ ps) (xs @ ys)"
  by (induction xs) auto

declare glob.simps [simp del]

text \<open>Every cached entry of a symbol is dropped, and so are those of symbols it is a prefix of.\<close>

lemma symbol_entries_match:
  assumes "CHR ''*'' \<notin> set provider" "CHR ''*'' \<notin> set symbol"
  shows "glob (''data:'' @ provider @ '':*:'' @ symbol @ ''*'') (''data:'' @ provider @ '':'' @ kind @ '':'' @ symbol @ rest)"
proof -
  have "glob ''*'' rest" using glob_star_skip[of "[]" "[]" rest] by (simp add: glob.simps)
  then have "glob (symbol @ ''*'') (symbol @ rest)" by (rule glob_literal[OF assms(2)])
  then have "glob ('':'' @ symbol @ ''*'') ('':'' @ symbol @ rest)" by (rule glob_literal[rotated]) simp
  then have "glob (CHR ''*'' # '':'' @ symbol @ ''*'') (kind @ '':'' @ symbol @ rest)" by (rule glob_star_skip)
  then have "glob ('':'' @ CHR ''*'' # '':'' @ symbol @ ''*'') ('':'' @ kind @ '':'' @ symbol @ rest)"
    by (rule glob_literal[rotated]) simp
  then have "glob (provider @ '':'' @ CHR ''*'' # '':'' @ symbol @ ''*'') (provider @ '':'' @ kind @ '':'' @ symbol @ rest)"
    by (rule glob_literal[OF assms(1)])
  then have "glob (''data:'' @ provider @ '':'' @ CHR ''*'' # '':'' @ symbol @ ''*'') (''data:'' @ provider @ '':'' @ kind @ '':'' @ symbol @ rest)"
    by (rule glob_literal[rotated]) simp
  then show ?thesis by (simp only: append.simps)
qed

lemma invalidate_symbol_entries:
  assumes "redis_kv R" "CHR ''*'' \<notin> set provider" "CHR ''*'' \<notin> set symbol"
    and key: "k = ''data:'' @ provider @ '':'' @ kind @ '':'' @ symbol @ rest" "k \<in> set keys"
  shows "rd_get R (snd (invalidate_symbol R keys provider symbol r)) k = None"
  unfolding invalidate_symbol_def invalidate_gone[OF assms(1)]
  using symbol_entries_match[OF assms(2,3), of kind rest] key by simp

text \<open>One unreadable price loses the whole answer, with an exception outside the documented family.\<close>

lemma bar_of_nan: "yr_open row = YNaN \<Longrightarrow> bar_of row = Inl Escaped"
  by (simp add: bar_of_def yf_decimal_def yf_float_def)

lemma nan_bar_aborts:
  "list_all (\<lambda>row. \<exists>b. bar_of row = Inr b) pre \<Longrightarrow> yr_open row = YNaN \<Longrightarrow>
     fetch_ohlcv_sync symbol (Returns (pre @ row # post)) = Inl Escaped"
proof -
  assume "list_all (\<lambda>row. \<exists>b. bar_of row = Inr b) pre" "yr_open row = YNaN"
  then have "bars_of (pre @ row # post) = Inl Escaped" by (induction pre) (auto simp: bar_of_nan)
  then show ?thesis by (simp add: fetch_ohlcv_sync_def)
qed

text \<open>The rows of the price history by key.\<close>

lemma put_price_distinct: "distinct (map price_key tab) \<Longrightarrow> distinct (map price_key (put_price new tab))"
  by (auto simp: put_price_def o_def if_distrib[of price_key] cong: if_cong)

lemma put_price_mem: "p \<in> set (put_price new tab) \<longleftrightarrow> p = new \<or> (p \<in> set tab \<and> price_key p \<noteq> price_key new)"
  by (auto simp: put_price_def image_iff)

lemma fold_put_distinct: "distinct (map price_key tab) \<Longrightarrow> distinct (map price_key (fold put_price rows tab))"
  by (induction rows arbitrary: tab) (simp_all add: put_price_distinct)

lemma fold_put_mem:
  "distinct (map price_key rows) \<Longrightarrow>
     p \<in> set (fold put_price rows tab) \<longleftrightarrow> p \<in> set rows \<or> (p \<in> set tab \<and> price_key p \<notin> price_key ` set rows)"
  by (induction rows arbitrary: tab) (auto simp: put_price_mem)

lemma put_price_same:
  assumes "distinct (map price_key tab)" "new \<in> set tab"
  shows "put_price new tab = tab"
proof -
  have "(if price_key p = price_key new then new else p) = p" if "p \<in> set tab" for p
    using that assms by (auto simp: distinct_map inj_on_def)
  then show ?thesis using assms(2) by (auto simp: put_price_def intro: map_idI)
qed

lemma fold_put_same:
  "distinct (map price_key tab) \<Longrightarrow> set rows \<subseteq> set tab \<Longrightarrow> fold put_price rows tab = tab"
  by (induction rows) (simp_all add: put_price_same)

section \<open>Properties\<close>

text \<open>The Yahoo provider reads through its cache: after a successful call the same call answers the same,
  whatever Yahoo would answer, until the entry expires; a failed call stores nothing; once the entry is
  gone Yahoo is asked again. This holds for bars, fundamentals and quotes alike, and a cached entry that
  cannot be read counts as absent.\<close>

theorem yahoo_reads_through:
  assumes R: "redis_kv R" and codecs: "codec_ok B" "codec_ok F" "codec_ok Q"
  shows "(case get_ohlcv R B s n h r of (Inr bars, r') \<Rightarrow> get_ohlcv R B s n h' r' = (Inr bars, r')
            | (Inl e, r') \<Rightarrow> r' = r \<and> (n \<le> 0 \<or> fetch_ohlcv_sync s h = Inl e)) \<and>
    (0 < n \<and> get_model_list R B (ohlcv_key PROVIDER_NAME s n) r = None \<longrightarrow> fst (get_ohlcv R B s n h r) = fetch_ohlcv_sync s h) \<and>
    (case get_fundamentals R F s t a r of (Inr f, r') \<Rightarrow> get_fundamentals R F s t' a' r' = (Inr f, r')
            | (Inl e, r') \<Rightarrow> r' = r \<and> fetch_fundamentals_sync s t a = Inl e) \<and>
    (case get_quote R Q s t a r of (Inr q, r') \<Rightarrow> get_quote R Q s t' a' r' = (Inr q, r')
            | (Inl e, r') \<Rightarrow> r' = r \<and> fetch_quote_sync s t a = Inl e)"
proof -
  note rt = model_roundtrip[OF R codecs(1)] model_roundtrip[OF R codecs(2)] model_roundtrip[OF R codecs(3)]
  have "case get_ohlcv R B s n h r of (Inr bars, r') \<Rightarrow> get_ohlcv R B s n h' r' = (Inr bars, r')
      | (Inl e, r') \<Rightarrow> r' = r \<and> (n \<le> 0 \<or> fetch_ohlcv_sync s h = Inl e)"
    by (auto simp: get_ohlcv_def Let_def rt split: option.splits sum.splits)
  moreover have "case get_fundamentals R F s t a r of (Inr f, r') \<Rightarrow> get_fundamentals R F s t' a' r' = (Inr f, r')
      | (Inl e, r') \<Rightarrow> r' = r \<and> fetch_fundamentals_sync s t a = Inl e"
    by (auto simp: get_fundamentals_def Let_def rt split: option.splits sum.splits)
  moreover have "case get_quote R Q s t a r of (Inr q, r') \<Rightarrow> get_quote R Q s t' a' r' = (Inr q, r')
      | (Inl e, r') \<Rightarrow> r' = r \<and> fetch_quote_sync s t a = Inl e"
    by (auto simp: get_quote_def Let_def rt split: option.splits sum.splits)
  moreover have "fst (get_ohlcv R B s n h r) = fetch_ohlcv_sync s h"
    if "0 < n" "get_model_list R B (ohlcv_key PROVIDER_NAME s n) r = None"
    using that by (simp add: get_ohlcv_def Let_def split: sum.splits)
  ultimately show ?thesis by blast
qed

text \<open>Upserting bars keeps one row per instrument and timestamp, stores every bar, leaves all other rows
  alone, reports the number of bars, and doing it again changes nothing.\<close>

theorem upsert_idempotent:
  assumes "distinct (map price_key tab)" "upsert_ohlcv i bars tab = Inr (n, tab')"
  shows "distinct (map price_key tab') \<and> n = int (length bars) \<and>
    (\<forall>p. p \<in> set tab' \<longleftrightarrow> p \<in> row_of_bar i ` set bars \<or>
       (p \<in> set tab \<and> \<not> (ph_instrument p = i \<and> ph_timestamp p \<in> ba_timestamp ` set bars))) \<and>
    upsert_ohlcv i bars tab' = Inr (n, tab')"
proof -
  let ?rows = "map (row_of_bar i) bars"
  have keys: "price_key p \<in> price_key ` set ?rows \<longleftrightarrow> ph_instrument p = i \<and> ph_timestamp p \<in> ba_timestamp ` set bars" for p
    by (auto simp: price_key_def row_of_bar_def image_iff)
  have d: "distinct (map price_key ?rows)" and t: "tab' = fold put_price ?rows tab" "n = int (length bars)"
    using assms(2) by (auto simp: upsert_ohlcv_def Let_def split: if_splits)
  have mem: "p \<in> set tab' \<longleftrightarrow> p \<in> set ?rows \<or> (p \<in> set tab \<and> price_key p \<notin> price_key ` set ?rows)" for p
    unfolding t by (rule fold_put_mem[OF d])
  have dt: "distinct (map price_key tab')" unfolding t by (rule fold_put_distinct[OF assms(1)])
  have "fold put_price ?rows tab' = tab'" by (rule fold_put_same[OF dt]) (use mem in blast)
  then have "upsert_ohlcv i bars tab' = Inr (n, tab')" using d t(2) by (simp add: upsert_ohlcv_def Let_def)
  then show ?thesis using dt t(2) mem keys by auto
qed

section \<open>Witnesses\<close>

text \<open>A codec that writes a payload as its number in unary.\<close>

fun split_comma :: "string \<Rightarrow> string list" where
  "split_comma [] = [[]]"
| "split_comma (c # cs) =
     (if c = CHR '','' then [] # split_comma cs else (case split_comma cs of [] \<Rightarrow> [[c]] | p # ps \<Rightarrow> (c # p) # ps))"

definition unary_codec :: "('m \<Rightarrow> nat) \<Rightarrow> (nat \<Rightarrow> 'm) \<Rightarrow> 'm codec" where
  "unary_codec enc dec = \<lparr>cd_dump = (\<lambda>m. replicate (Suc (enc m)) CHR ''1''), cd_load = (\<lambda>s. Some (dec (length s - 1))),
     cd_load_list = (\<lambda>s. Some (if s = ''[]'' then [] else map (\<lambda>p. dec (length p - 1)) (split_comma (butlast (tl s)))))\<rparr>"

lemma split_comma_plain: "CHR '','' \<notin> set p \<Longrightarrow> split_comma p = [p]"
  by (induction p) auto

lemma split_comma_join: "CHR '','' \<notin> set p \<Longrightarrow> split_comma (p @ CHR '','' # q) = p # split_comma q"
  by (induction p) auto

lemma split_join: "list_all (\<lambda>p. CHR '','' \<notin> set p) ps \<Longrightarrow> ps \<noteq> [] \<Longrightarrow> split_comma (join_comma ps) = ps"
  by (induction ps rule: join_comma.induct) (simp_all add: split_comma_plain split_comma_join)

lemma unary_codec_ok:
  assumes "\<And>m. dec (enc m) = m"
  shows "codec_ok (unary_codec enc dec)"
proof -
  let ?C = "unary_codec enc dec" and ?d = "\<lambda>m. replicate (Suc (enc m)) CHR ''1''"
  have "cd_load_list ?C (dump_list ?C ms) = Some ms" for ms
  proof (cases ms)
    case (Cons m ms')
    have "split_comma (join_comma (map ?d ms)) = map ?d ms"
      by (rule split_join) (simp_all add: list_all_iff Cons)
    moreover have "join_comma (map ?d ms) \<noteq> []" unfolding Cons by (cases ms') simp_all
    ultimately show ?thesis
      by (simp add: unary_codec_def dump_list_def o_def assms del: replicate.simps)
  qed (simp add: unary_codec_def dump_list_def)
  then show ?thesis by (simp add: codec_ok_def) (simp add: unary_codec_def assms)
qed

definition bar_codec :: "ohlcv_bar codec" where
  "bar_codec = unary_codec
     (\<lambda>b. to_nat (ba_timestamp b, ba_open b, ba_high b, ba_low b, ba_close b, ba_volume b))
     (\<lambda>n. case from_nat n of (t, o1, h, l, c, v) \<Rightarrow>
        \<lparr>ba_timestamp = t, ba_open = o1, ba_high = h, ba_low = l, ba_close = c, ba_volume = v\<rparr>)"

definition quote_codec :: "quote codec" where
  "quote_codec = unary_codec
     (\<lambda>q. to_nat (qu_symbol q, qu_price q, qu_timestamp q, qu_delay_minutes q, qu_currency q))
     (\<lambda>n. case from_nat n of (s, p, t, d, c) \<Rightarrow>
        \<lparr>qu_symbol = s, qu_price = p, qu_timestamp = t, qu_delay_minutes = d, qu_currency = c\<rparr>)"

definition fundamentals_codec :: "fundamentals codec" where
  "fundamentals_codec = unary_codec
     (\<lambda>f. to_nat (fu_symbol f, fu_currency f, fu_market_cap f, fu_pe_ratio f, fu_pb_ratio f, fu_dividend_yield f,
        fu_beta f, fu_eps f, fu_revenue_ttm f, fu_fetched_at f))
     (\<lambda>n. case from_nat n of (s, c, mc, pe, pb, dy, be, ep, rv, t) \<Rightarrow>
        \<lparr>fu_symbol = s, fu_currency = c, fu_market_cap = mc, fu_pe_ratio = pe, fu_pb_ratio = pb, fu_dividend_yield = dy,
          fu_beta = be, fu_eps = ep, fu_revenue_ttm = rv, fu_fetched_at = t\<rparr>)"

lemma codecs_ok: "codec_ok bar_codec" "codec_ok quote_codec" "codec_ok fundamentals_codec"
  unfolding bar_codec_def quote_codec_def fundamentals_codec_def by (rule unary_codec_ok, simp)+

definition yf_row_1 :: yf_row where
  "yf_row_1 = \<lparr>yr_timestamp = 0, yr_open = YNum 1, yr_high = YNum 2, yr_low = YNum 1, yr_close = YNum 2, yr_volume = YNum 10\<rparr>"

definition bar_1 :: ohlcv_bar where
  "bar_1 = \<lparr>ba_timestamp = 0, ba_open = 1, ba_high = 2, ba_low = 1, ba_close = 2, ba_volume = 10\<rparr>"

definition price_1 :: price_row where
  "price_1 = \<lparr>ph_instrument = ''i'', ph_timestamp = 0, ph_open = 5, ph_high = 5, ph_low = 5, ph_close = 5, ph_volume = 1\<rparr>"

theorem upsert_idempotent_witness:
  "upsert_ohlcv ''i'' [bar_1, bar_1\<lparr>ba_timestamp := 1\<rparr>] [price_1, price_1\<lparr>ph_instrument := ''j''\<rparr>] =
     Inr (2, [row_of_bar ''i'' bar_1, price_1\<lparr>ph_instrument := ''j''\<rparr>, row_of_bar ''i'' (bar_1\<lparr>ba_timestamp := 1\<rparr>)]) \<and>
   upsert_ohlcv ''i'' [bar_1, bar_1\<lparr>ba_timestamp := 1\<rparr>]
     [row_of_bar ''i'' bar_1, price_1\<lparr>ph_instrument := ''j''\<rparr>, row_of_bar ''i'' (bar_1\<lparr>ba_timestamp := 1\<rparr>)] =
     Inr (2, [row_of_bar ''i'' bar_1, price_1\<lparr>ph_instrument := ''j''\<rparr>, row_of_bar ''i'' (bar_1\<lparr>ba_timestamp := 1\<rparr>)])"
proof -
  let ?tab = "[price_1, price_1\<lparr>ph_instrument := ''j''\<rparr>]" and ?bars = "[bar_1, bar_1\<lparr>ba_timestamp := 1\<rparr>]"
  have d: "distinct (map price_key ?tab)" by (simp add: price_key_def price_1_def)
  have u: "upsert_ohlcv ''i'' ?bars ?tab =
     Inr (2, [row_of_bar ''i'' bar_1, price_1\<lparr>ph_instrument := ''j''\<rparr>, row_of_bar ''i'' (bar_1\<lparr>ba_timestamp := 1\<rparr>)])"
    by (simp add: upsert_ohlcv_def put_price_def price_key_def row_of_bar_def bar_1_def price_1_def)
  show ?thesis using upsert_idempotent[OF d u] u by blast
qed

theorem yahoo_reads_through_witness:
  "\<exists>r'. get_ohlcv mem_redis bar_codec ''AAPL'' 5 (Returns [yf_row_1]) mem_empty = (Inr [bar_1], r') \<and>
     get_ohlcv mem_redis bar_codec ''AAPL'' 5 (Raises ''down'') r' = (Inr [bar_1], r')"
proof -
  have empty: "get_model_list mem_redis bar_codec (ohlcv_key PROVIDER_NAME ''AAPL'' 5) mem_empty = None"
    by (simp add: get_model_list_def mem_redis_def mem_empty_def)
  have bars: "fetch_ohlcv_sync ''AAPL'' (Returns [yf_row_1]) = Inr [bar_1]" by code_simp
  note th = yahoo_reads_through[OF mem_redis_kv codecs_ok(1,3,2), where s = "''AAPL''" and n = 5 and h = "Returns [yf_row_1]"
      and r = mem_empty and h' = "Raises ''down''"]
  have "fst (get_ohlcv mem_redis bar_codec ''AAPL'' 5 (Returns [yf_row_1]) mem_empty) = Inr [bar_1]"
    using th empty bars by simp
  then obtain r' where "get_ohlcv mem_redis bar_codec ''AAPL'' 5 (Returns [yf_row_1]) mem_empty = (Inr [bar_1], r')"
    by (cases "get_ohlcv mem_redis bar_codec ''AAPL'' 5 (Returns [yf_row_1]) mem_empty") simp
  then show ?thesis using th by auto
qed

end
