(* ===== verification/Engine_Scores.thy ===== *)
theory Engine_Scores
  imports Scores
begin

text \<open>
  The scores of single instruments: \<open>analysis/fundamental.py\<close> and the scoring of
  \<open>analysis/risk.py\<close>. The statistics pandas and numpy compute of a price series (percentiles,
  deviations, peak) are arguments. A float division by a Decimal that underflows to zero, which
  raises in Python, is not distinguished.
\<close>

section \<open>Fundamental score\<close>

datatype metric = Revenue_Growth | Earnings_Trend | Debt_Health | Pe_Valuation | Cash_Flow

fun threshold :: "metric \<Rightarrow> rat \<times> rat \<times> bool" where
  "threshold Revenue_Growth = (f64 (-10 / 100), f64 (30 / 100), True)"
| "threshold Earnings_Trend = (f64 (-20 / 100), f64 (30 / 100), True)"
| "threshold Debt_Health = (0, 2, False)"
| "threshold Pe_Valuation = (10, 40, False)"
| "threshold Cash_Flow = (0, f64 (20 / 100), True)"

fun metric_weight :: "metric \<Rightarrow> rat" where
  "metric_weight Revenue_Growth = f64 (25 / 100)"
| "metric_weight Earnings_Trend = f64 (25 / 100)"
| "metric_weight Debt_Health = f64 (20 / 100)"
| "metric_weight Pe_Valuation = f64 (15 / 100)"
| "metric_weight Cash_Flow = f64 (15 / 100)"

record edgar_fundamentals =
  ef_revenue :: "rat option"
  ef_revenue_prior :: "rat option"
  ef_earnings :: "rat option"
  ef_earnings_prior :: "rat option"
  ef_debt_to_equity :: "rat option"
  ef_pe_ratio :: "rat option"
  ef_eps :: "rat option"
  ef_free_cash_flow :: "rat option"

record fundamental_score =
  fs_components :: "(metric \<times> int option) list"
  fs_composite :: "int option"

definition score_from_range :: "rat \<Rightarrow> rat \<times> rat \<times> bool \<Rightarrow> int" where
  "score_from_range value bounds =
     (case bounds of (lower, upper, ascending) \<Rightarrow>
        if upper = lower then 50
        else
          (let pct = clamp 0 1 (fdiv (fsub value lower) (fsub upper lower));
               score = (if ascending then fmul pct 100 else fmul (fsub 1 pct) 100)
           in round_half_even score))"

definition ratio_of :: "rat option \<Rightarrow> rat option \<Rightarrow> rat option" where
  "ratio_of numerator denominator =
     (case (numerator, denominator) of
        (Some a, Some b) \<Rightarrow> if b = 0 then None else Some (fdiv (f64 a) (f64 b))
      | _ \<Rightarrow> None)"

definition yoy_growth :: "rat option \<Rightarrow> rat option \<Rightarrow> rat option" where
  "yoy_growth latest prior =
     (case (latest, prior) of
        (Some a, Some b) \<Rightarrow> if b = 0 then None else Some (fdiv (f64 (dsub a b)) (f64 (d28 \<bar>b\<bar>)))
      | _ \<Rightarrow> None)"

definition scored :: "metric \<Rightarrow> rat option \<Rightarrow> int option" where
  "scored k value = map_option (\<lambda>v. score_from_range v (threshold k)) value"

definition pe_of :: "edgar_fundamentals \<Rightarrow> rat option \<Rightarrow> rat option" where
  "pe_of f price =
     (case ef_pe_ratio f of
        Some r \<Rightarrow> Some (f64 r)
      | None \<Rightarrow>
          (case (price, ef_eps f) of
             (Some p, Some e) \<Rightarrow> if e \<noteq> 0 then Some (fdiv (f64 p) (f64 e)) else None
           | _ \<Rightarrow> None))"

text \<open>The items of the dictionary that have a score, and the composite over them.\<close>

definition available :: "(metric \<times> int option) list \<Rightarrow> (metric \<times> int) list" where
  "available components = concat (map (\<lambda>(k, v). case v of None \<Rightarrow> [] | Some s \<Rightarrow> [(k, s)]) components)"

definition composite_of :: "(metric \<times> int) list \<Rightarrow> int option" where
  "composite_of items =
     (if items = [] then None
      else
        (let total_weight = py_fsum (map (\<lambda>(k, s). metric_weight k) items);
             weighted = py_fsum (map (\<lambda>(k, s). fmul (of_int s) (metric_weight k)) items)
         in Some (round_half_even (fdiv weighted total_weight))))"

definition score_fundamentals :: "edgar_fundamentals \<Rightarrow> rat option \<Rightarrow> fundamental_score" where
  "score_fundamentals f price =
     (let pe = pe_of f price;
          components =
            [(Revenue_Growth, scored Revenue_Growth (yoy_growth (ef_revenue f) (ef_revenue_prior f))),
             (Earnings_Trend, scored Earnings_Trend (yoy_growth (ef_earnings f) (ef_earnings_prior f))),
             (Debt_Health, scored Debt_Health (map_option f64 (ef_debt_to_equity f))),
             (Pe_Valuation, case pe of None \<Rightarrow> None | Some v \<Rightarrow> if v \<le> 0 then None else scored Pe_Valuation (Some v)),
             (Cash_Flow, scored Cash_Flow (ratio_of (ef_free_cash_flow f) (ef_revenue f)))]
      in \<lparr>fs_components = components, fs_composite = composite_of (available components)\<rparr>)"

section \<open>Risk score of an instrument\<close>

definition SECTOR_PROXY_SCORES :: "(string, int) dict" where
  "SECTOR_PROXY_SCORES = [(''technology'', 60), (''consumer_discretionary'', 55), (''communication_services'', 55),
     (''energy'', 70), (''financials'', 55), (''utilities'', 35), (''consumer_staples'', 35), (''healthcare'', 45),
     (''industrials'', 50), (''materials'', 60), (''real_estate'', 50), (''crypto'', 85)]"

definition DEFAULT_PROXY_SCORE :: int where "DEFAULT_PROXY_SCORE = 55"

record value_at_risk =
  vr_status :: string
  vr_95 :: "rat option"
  vr_99 :: "rat option"
  vr_days :: int

text \<open>The number of returns in the window and their fifth and first percentile.\<close>

definition compute_var :: "int \<Rightarrow> int \<Rightarrow> rat \<Rightarrow> rat \<Rightarrow> value_at_risk" where
  "compute_var returns windowed pct_5 pct_1 =
     (if returns = 0 then \<lparr>vr_status = ''empty'', vr_95 = None, vr_99 = None, vr_days = 0\<rparr>
      else if windowed < MIN_RETURNS_FOR_VAR
      then \<lparr>vr_status = ''insufficient_data'', vr_95 = None, vr_99 = None, vr_days = windowed\<rparr>
      else \<lparr>vr_status = ''ok'', vr_95 = Some (max 0 (- pct_5)), vr_99 = Some (max 0 (- pct_1)), vr_days = windowed\<rparr>)"

definition risk_drawdown :: "(rat \<times> rat) option \<Rightarrow> rat option" where
  "risk_drawdown closes =
     (case closes of None \<Rightarrow> None
      | Some (peak, current) \<Rightarrow> if peak \<le> 0 then None else Some (max 0 (fdiv (fsub peak current) peak)))"

definition saturate :: "rat option \<Rightarrow> rat \<Rightarrow> rat \<Rightarrow> rat \<Rightarrow> rat \<Rightarrow> rat option" where
  "saturate value low high low_score high_score =
     (case value of None \<Rightarrow> None
      | Some v \<Rightarrow>
          if v \<le> low then Some low_score
          else if v \<ge> high then Some high_score
          else (let t = fdiv (fsub v low) (fsub high low)
                in Some (fadd low_score (fmul t (fsub high_score low_score)))))"

definition risk_parts :: "rat option \<Rightarrow> rat option \<Rightarrow> rat option \<Rightarrow> rat option \<Rightarrow> component list" where
  "risk_parts vol_30d vol_90d drawdown var_95 =
     (let vol_input = (if vol_90d \<noteq> None then vol_90d else vol_30d);
          vol_sub = saturate vol_input (f64 (5 / 100)) (f64 (60 / 100)) 0 100;
          dd_sub = saturate drawdown 0 (f64 (60 / 100)) 0 100;
          var_sub = saturate var_95 (f64 (5 / 1000)) (f64 (6 / 100)) 0 100
      in [\<lparr>cp_name = ''vol'', cp_score = vol_sub, cp_weight = f64 (5 / 10)\<rparr>,
          \<lparr>cp_name = ''dd'', cp_score = dd_sub, cp_weight = f64 (3 / 10)\<rparr>,
          \<lparr>cp_name = ''var'', cp_score = var_sub, cp_weight = f64 (2 / 10)\<rparr>])"

definition score_from_metrics :: "rat option \<Rightarrow> rat option \<Rightarrow> rat option \<Rightarrow> rat option \<Rightarrow> int" where
  "score_from_metrics vol_30d vol_90d drawdown var_95 =
     (case blend_loop 0 0 (risk_parts vol_30d vol_90d drawdown var_95) of (weighted, weight_sum) \<Rightarrow>
        if weight_sum = 0 then DEFAULT_PROXY_SCORE
        else round_half_even (clamp 0 100 (fdiv weighted weight_sum)))"

record risk_score =
  rs_score :: int
  rs_proxy :: bool
  rs_sector :: "string option"

definition sector_key :: "string option \<Rightarrow> string" where
  "sector_key sector = map (\<lambda>c. if c = CHR '' '' then CHR ''_'' else c)
     (str_lower (str_strip (case sector of None \<Rightarrow> [] | Some s \<Rightarrow> s)))"

definition compute_risk_score ::
  "int \<Rightarrow> rat option \<Rightarrow> rat option \<Rightarrow> rat option \<Rightarrow> value_at_risk \<Rightarrow> string option \<Rightarrow> risk_score" where
  "compute_risk_score returns vol_30d vol_90d drawdown var sector =
     (if returns < MIN_RETURNS_FOR_VAR
      then \<lparr>rs_score = dict_get SECTOR_PROXY_SCORES (sector_key sector) DEFAULT_PROXY_SCORE, rs_proxy = True,
             rs_sector = sector\<rparr>
      else \<lparr>rs_score = score_from_metrics vol_30d vol_90d drawdown (vr_95 var), rs_proxy = False, rs_sector = sector\<rparr>)"

section \<open>The compensated sum is close to the sum\<close>

lemma fsum_loop_close:
  assumes "\<bar>s\<bar> + sum_list (map abs xs) + of_nat (length xs) / 2 ^ 46 \<le> 101" "\<bar>c\<bar> + 4 * of_nat (length xs) / 2 ^ 46 \<le> 1"
  shows "\<bar>fsum_loop s c xs - (s + c + sum_list xs)\<bar> \<le> (5 * of_nat (length xs) + 1) / 2 ^ 46"
  using assms
proof (induction xs arbitrary: s c)
  case Nil
  have "\<bar>s + c\<bar> \<le> 127" using Nil by (simp add: abs_le_iff)
  then show ?case using f64_close[of "s + c"] by (auto simp: fadd_def)
next
  case (Cons x xs)
  define d :: rat where "d = 1 / 2 ^ 46"
  have d: "0 \<le> d" "d \<le> 1 / 1000" by (simp_all add: d_def)
  define n :: rat where "n = of_nat (length xs)"
  define X where "X = sum_list (map abs xs)"
  have n: "0 \<le> n" "0 \<le> n * d" using d by (simp_all add: n_def)
  have X: "0 \<le> X" unfolding X_def by (rule sum_list_nonneg) auto
  have A: "\<bar>s\<bar> + \<bar>x\<bar> + X + (n * d + d) \<le> 101" and B: "\<bar>c\<bar> + 4 * (n * d) + 4 * d \<le> 1"
    using Cons.prems by (simp_all add: n_def d_def X_def add_divide_distrib)
  define t where "t = fadd s x"
  define e where "e = (if \<bar>x\<bar> \<le> \<bar>s\<bar> then fadd (fsub s t) x else fadd (fsub x t) s)"
  have sx: "\<bar>s + x\<bar> \<le> 127" using A n X d by linarith
  then have t: "\<bar>t - (s + x)\<bar> \<le> d" unfolding t_def fadd_def d_def by (rule f64_close)
  have "\<bar>e - (s - t + x)\<bar> \<le> 2 * d"
  proof (cases "\<bar>x\<bar> \<le> \<bar>s\<bar>")
    case True
    have "\<bar>s - t\<bar> \<le> 127" using t A n X d by linarith
    then have f: "\<bar>fsub s t - (s - t)\<bar> \<le> d" unfolding fsub_def d_def by (rule f64_close)
    then have "\<bar>fsub s t + x\<bar> \<le> 127" using t d by linarith
    then have "\<bar>e - (fsub s t + x)\<bar> \<le> d" using True unfolding e_def fadd_def d_def by (simp only: if_True) (rule f64_close)
    then show ?thesis using f by linarith
  next
    case False
    have "\<bar>x - t\<bar> \<le> 127" using t A n X d by linarith
    then have f: "\<bar>fsub x t - (x - t)\<bar> \<le> d" unfolding fsub_def d_def by (rule f64_close)
    then have "\<bar>fsub x t + s\<bar> \<le> 127" using t d by linarith
    then have "\<bar>e - (fsub x t + s)\<bar> \<le> d" using False unfolding e_def fadd_def d_def by (simp only: if_False) (rule f64_close)
    then show ?thesis using f by linarith
  qed
  note e = this
  have "\<bar>c + e\<bar> \<le> 127" using e t B n d by linarith
  then have c: "\<bar>fadd c e - (c + e)\<bar> \<le> d" unfolding fadd_def d_def by (rule f64_close)
  have "\<bar>t\<bar> + X + n * d \<le> 101" "\<bar>fadd c e\<bar> + 4 * (n * d) \<le> 1" using t e c A B d by linarith+
  then have IH: "\<bar>fsum_loop t (fadd c e) xs - (t + fadd c e + sum_list xs)\<bar> \<le> 5 * (n * d) + d"
    using Cons.IH[of t "fadd c e"] by (simp add: n_def d_def X_def add_divide_distrib)
  have "fsum_loop s c (x # xs) = fsum_loop t (fadd c e) xs" by (simp add: t_def e_def Let_def)
  then have "\<bar>fsum_loop s c (x # xs) - (s + c + (x + sum_list xs))\<bar> \<le> 5 * (n * d) + 6 * d"
    using IH e c by linarith
  then show ?case by (simp add: n_def d_def add_divide_distrib)
qed

lemma py_fsum_close:
  assumes "sum_list (map abs xs) + of_nat (length xs) / 2 ^ 46 \<le> 101" "length xs \<le> 10"
  shows "\<bar>py_fsum xs - sum_list xs\<bar> \<le> (5 * of_nat (length xs) + 1) / 2 ^ 46"
proof (cases xs)
  case (Cons x ys)
  have "of_nat (length ys) \<le> (of_nat 10 :: rat)" using assms(2) Cons by (subst of_nat_le_iff) simp
  then have "4 * of_nat (length ys) / 2 ^ 46 \<le> (40 / 2 ^ 46 :: rat)"
    by (intro divide_right_mono) simp_all
  also have "\<dots> \<le> 1" by simp
  finally have "\<bar>fsum_loop x 0 ys - (x + 0 + sum_list ys)\<bar> \<le> (5 * of_nat (length ys) + 1) / 2 ^ 46"
    using assms(1) Cons by (intro fsum_loop_close) (simp_all add: add_divide_distrib)
  then show ?thesis using Cons by (simp add: add_divide_distrib)
qed simp

section \<open>The composite lies between its components\<close>

lemma f64_near: "\<bar>x\<bar> \<le> 127 \<Longrightarrow> x - 1 / 2 ^ 46 \<le> f64 x \<and> f64 x \<le> x + 1 / 2 ^ 46"
  using f64_close[of x] by linarith

lemma weight_constants:
  "25 / 100 - 1 / 2 ^ 46 \<le> f64 (25 / 100)" "f64 (25 / 100) \<le> 25 / 100 + 1 / 2 ^ 46"
  "20 / 100 - 1 / 2 ^ 46 \<le> f64 (20 / 100)" "f64 (20 / 100) \<le> 20 / 100 + 1 / 2 ^ 46"
  "15 / 100 - 1 / 2 ^ 46 \<le> f64 (15 / 100)" "f64 (15 / 100) \<le> 15 / 100 + 1 / 2 ^ 46"
  using f64_near[of "25 / 100"] f64_near[of "20 / 100"] f64_near[of "15 / 100"] by simp_all

lemma metric_weight_bounds: "15 / 100 - 1 / 2 ^ 46 \<le> metric_weight k" "metric_weight k \<le> 25 / 100 + 1 / 2 ^ 46"
proof -
  have "15 / 100 - 1 / 2 ^ 46 \<le> metric_weight k \<and> metric_weight k \<le> 25 / 100 + 1 / 2 ^ 46"
    using weight_constants by (cases k; simp only: metric_weight.simps; linarith)
  then show "15 / 100 - 1 / 2 ^ 46 \<le> metric_weight k" "metric_weight k \<le> 25 / 100 + 1 / 2 ^ 46" by simp_all
qed

lemma metric_weight_nonneg [simp]: "0 \<le> metric_weight k"
  using metric_weight_bounds(1)[of k] by (rule order_trans[rotated]) simp

lemma UNIV_metric: "UNIV = set [Revenue_Growth, Earnings_Trend, Debt_Health, Pe_Valuation, Cash_Flow]"
  by (auto intro: metric.exhaust)

lemma weights_sum:
  assumes "distinct ks"
  shows "sum_list (map metric_weight ks) \<le> 1 + 5 / 2 ^ 46" "length ks \<le> 5"
proof -
  have fin: "finite (UNIV :: metric set)" by (simp add: UNIV_metric)
  have pos: "0 \<le> metric_weight k" for k by simp
  have "sum_list (map metric_weight ks) = sum metric_weight (set ks)" using assms by (simp add: sum_list_distinct_conv_sum_set)
  also have "\<dots> \<le> sum metric_weight UNIV" using fin pos by (intro sum_mono2) auto
  also have "\<dots> = f64 (25 / 100) + f64 (25 / 100) + f64 (20 / 100) + f64 (15 / 100) + f64 (15 / 100)"
    unfolding UNIV_metric by simp
  also have "\<dots> \<le> 1 + 5 / 2 ^ 46"
    using weight_constants by linarith
  finally show "sum_list (map metric_weight ks) \<le> 1 + 5 / 2 ^ 46" .
  have "length ks = card (set ks)" using assms by (simp add: distinct_card)
  also have "\<dots> \<le> card (UNIV :: metric set)" using fin by (intro card_mono) auto
  finally show "length ks \<le> 5" by (simp add: UNIV_metric)
qed

lemma weighted_items:
  assumes "\<forall>(k, s) \<in> set items. lo \<le> s \<and> s \<le> hi" and "0 \<le> lo" "hi \<le> (100 :: int)"
  shows "of_int lo * sum_list (map (\<lambda>(k, s). metric_weight k) items) \<le>
      sum_list (map (\<lambda>(k, s). of_int s * metric_weight k) items)"
    "sum_list (map (\<lambda>(k, s). of_int s * metric_weight k) items) \<le>
      of_int hi * sum_list (map (\<lambda>(k, s). metric_weight k) items)"
    "\<bar>sum_list (map (\<lambda>(k, s). fmul (of_int s) (metric_weight k)) items) -
      sum_list (map (\<lambda>(k, s). of_int s * metric_weight k) items)\<bar> \<le> of_nat (length items) / 2 ^ 46"
    "\<forall>(k, s) \<in> set items. 0 \<le> fmul (of_int s) (metric_weight k)"
proof -
  have pos: "0 \<le> metric_weight k" for k by simp
  have prod: "0 \<le> of_int s * metric_weight k" "\<bar>of_int s * metric_weight k\<bar> \<le> 127" if "(k, s) \<in> set items" for k s
  proof -
    have s: "(0 :: rat) \<le> of_int s" "of_int s \<le> (100 :: rat)" using assms that by fastforce+
    have "of_int s * metric_weight k \<le> 100 * (25 / 100 + 1 / 2 ^ 46)"
      using s metric_weight_bounds(2)[of k] pos[of k] by (intro mult_mono) auto
    also have "\<dots> \<le> 127" by simp
    finally show "0 \<le> of_int s * metric_weight k" "\<bar>of_int s * metric_weight k\<bar> \<le> 127"
      using s(1) pos[of k] by simp_all
  qed
  show "\<forall>(k, s) \<in> set items. 0 \<le> fmul (of_int s) (metric_weight k)"
    using prod(1) by (auto simp: fmul_def fl.rnd_nonneg)
  show "of_int lo * sum_list (map (\<lambda>(k, s). metric_weight k) items) \<le>
      sum_list (map (\<lambda>(k, s). of_int s * metric_weight k) items)"
    using assms(1) by (induction items) (auto simp: distrib_left intro!: add_mono mult_right_mono pos)
  show "sum_list (map (\<lambda>(k, s). of_int s * metric_weight k) items) \<le>
      of_int hi * sum_list (map (\<lambda>(k, s). metric_weight k) items)"
    using assms(1) by (induction items) (auto simp: distrib_left intro!: add_mono mult_right_mono pos)
  show "\<bar>sum_list (map (\<lambda>(k, s). fmul (of_int s) (metric_weight k)) items) -
      sum_list (map (\<lambda>(k, s). of_int s * metric_weight k) items)\<bar> \<le> of_nat (length items) / 2 ^ 46"
    using prod(2)
  proof (induction items)
    case (Cons i items)
    obtain k s where i: "i = (k, s)" by (cases i)
    have "\<bar>fmul (of_int s) (metric_weight k) - of_int s * metric_weight k\<bar> \<le> 1 / 2 ^ 46"
      unfolding fmul_def using Cons.prems i by (intro f64_close) auto
    moreover have "\<bar>sum_list (map (\<lambda>(k, s). fmul (of_int s) (metric_weight k)) items) -
      sum_list (map (\<lambda>(k, s). of_int s * metric_weight k) items)\<bar> \<le> of_nat (length items) / 2 ^ 46"
      using Cons by auto
    ultimately have "\<bar>(fmul (of_int s) (metric_weight k) + sum_list (map (\<lambda>(k, s). fmul (of_int s) (metric_weight k)) items)) -
        (of_int s * metric_weight k + sum_list (map (\<lambda>(k, s). of_int s * metric_weight k) items))\<bar> \<le>
        1 / 2 ^ 46 + of_nat (length items) / 2 ^ 46" by linarith
    then show ?case unfolding i by (simp add: add_divide_distrib)
  qed simp
qed

lemma round_half_even_between:
  assumes "of_int lo - 1 / 10000 \<le> x" "x \<le> of_int hi + 1 / 10000"
  shows "lo \<le> round_half_even x" "round_half_even x \<le> hi"
proof -
  have "\<bar>of_int (round_half_even x) - x\<bar> \<le> 1 / 2" by (rule round_half_even_error)
  then have "of_int lo - 1 < (of_int (round_half_even x) :: rat)" "(of_int (round_half_even x) :: rat) < of_int hi + 1"
    using assms unfolding abs_le_iff by linarith+
  then have "of_int (lo - 1) < (of_int (round_half_even x) :: rat)" "(of_int (round_half_even x) :: rat) < of_int (hi + 1)"
    by simp_all
  then show "lo \<le> round_half_even x" "round_half_even x \<le> hi" unfolding of_int_less_iff by linarith+
qed

lemma composite_between:
  assumes items: "items \<noteq> []" "distinct (map fst items)" "\<forall>(k, s) \<in> set items. lo \<le> s \<and> s \<le> hi"
    and lohi: "0 \<le> lo" "hi \<le> 100" "lo \<le> hi"
  shows "\<exists>c. composite_of items = Some c \<and> lo \<le> c \<and> c \<le> hi"
proof -
  define d :: rat where "d = 1 / 2 ^ 46"
  have d: "0 \<le> d" "d \<le> 1 / 1000000" "1 / 2 ^ 46 = d" by (simp_all add: d_def)
  define ws where "ws = map (\<lambda>(k, s). metric_weight k) items"
  define vs where "vs = map (\<lambda>(k, s). fmul (of_int s) (metric_weight k)) items"
  define W where "W = sum_list (map (\<lambda>(k, s). of_int s * metric_weight k) items)"
  define n :: rat where "n = of_nat (length items)"
  have ws_keys: "ws = map metric_weight (map fst items)" by (simp add: ws_def comp_def split_beta)
  have len: "length items \<le> 5" and S1: "sum_list ws \<le> 1 + 5 * d"
    using weights_sum[OF items(2)] by (simp_all add: ws_keys d_def)
  have n: "1 \<le> n" "n \<le> 5" using items(1) len by (cases items; simp add: n_def)+
  have nd: "0 \<le> n * d" "n * d \<le> 5 * d" using n d by (simp_all add: mult_right_mono)
  have pos: "15 / 100 - d \<le> metric_weight k" for k using metric_weight_bounds(1)[of k] by (simp only: d_def)
  have abs_ws: "map abs ws = ws" by (auto simp: ws_def intro!: map_idI)
  have S0: "1 / 10 \<le> sum_list ws"
  proof -
    obtain k s rest where "items = (k, s) # rest" using items(1) by (cases items) auto
    moreover have "0 \<le> sum_list (map (\<lambda>(k, s). metric_weight k) rest)"
      by (rule sum_list_nonneg) auto
    ultimately show ?thesis using pos[of k] d by (simp add: ws_def)
  qed
  note wi = weighted_items[OF items(3) lohi(1,2), folded ws_def vs_def W_def, folded n_def]
  have abs_vs: "map abs vs = vs" using wi(4) by (auto simp: vs_def intro!: map_idI)
  have hiS: "of_int hi * sum_list ws \<le> 100 * (1 + 5 * d)"
    using lohi S1 S0 by (intro mult_mono) auto
  have V: "\<bar>sum_list vs - W\<bar> \<le> n * d" using wi(3) by (simp add: d_def)
  have lens: "of_nat (length vs) = n" "of_nat (length ws) = n" by (simp_all add: vs_def ws_def n_def)
  have short: "length vs \<le> 10" "length ws \<le> 10" using len by (simp_all add: vs_def ws_def)
  have "sum_list (map abs vs) + of_nat (length vs) / 2 ^ 46 \<le> 101"
  proof -
    have "W \<le> 100 * (1 + 5 * d)" using wi(2) hiS by (rule order_trans)
    moreover have "sum_list vs \<le> W + n * d" using V unfolding abs_le_iff by linarith
    moreover have "100 * (1 + 5 * d) + 10 * d \<le> 101" using d(2) by simp
    ultimately have "sum_list vs + n * d \<le> 101" using nd(2) by linarith
    then show ?thesis by (simp add: abs_vs lens d_def)
  qed
  then have "\<bar>py_fsum vs - sum_list vs\<bar> \<le> (5 * n + 1) / 2 ^ 46"
    using py_fsum_close[of vs, OF _ short(1)] by (simp only: lens)
  moreover have "(5 * n + 1) / 2 ^ 46 + n * d \<le> 100 * d" using n nd d by (simp add: d_def field_simps)
  ultimately have WW: "\<bar>py_fsum vs - W\<bar> \<le> 100 / 2 ^ 46" using V unfolding d_def by linarith
  have "sum_list (map abs ws) + of_nat (length ws) / 2 ^ 46 \<le> 101"
  proof -
    have "sum_list ws + n * d \<le> 101" using S1 nd d(1,2) by linarith
    then show ?thesis by (simp add: abs_ws lens d_def)
  qed
  then have "\<bar>py_fsum ws - sum_list ws\<bar> \<le> (5 * n + 1) / 2 ^ 46"
    using py_fsum_close[of ws, OF _ short(2)] by (simp only: lens)
  moreover have "(5 * n + 1) / 2 ^ 46 \<le> 100 / 2 ^ 46" using n by (intro divide_right_mono) simp_all
  ultimately have SS: "\<bar>py_fsum ws - sum_list ws\<bar> \<le> 100 / 2 ^ 46" by (rule order_trans)
  have "of_int lo - 1 / 10000 \<le> fdiv (py_fsum vs) (py_fsum ws)" "fdiv (py_fsum vs) (py_fsum ws) \<le> of_int hi + 1 / 10000"
    using quotient_near[OF WW SS wi(1,2) S0] lohi by simp_all
  then show ?thesis
    using items(1) round_half_even_between[of lo "fdiv (py_fsum vs) (py_fsum ws)" hi]
    by (simp add: composite_of_def ws_def[symmetric] vs_def[symmetric] Let_def)
qed

lemma round_half_even_percent: "0 \<le> x \<and> x \<le> 100 \<Longrightarrow> 0 \<le> round_half_even x \<and> round_half_even x \<le> 100"
  using round_half_even_between[of 0 x 100] by simp

lemma score_from_range_percent: "0 \<le> score_from_range v t" "score_from_range v t \<le> 100"
proof -
  obtain lower upper ascending where t: "t = (lower, upper, ascending)" by (cases t) auto
  define pct where "pct = clamp 0 1 (fdiv (fsub v lower) (fsub upper lower))"
  have pct: "0 \<le> pct" "pct \<le> 1" by (simp_all add: pct_def clamp_bounds)
  have "0 \<le> fsub 1 pct \<and> fsub 1 pct \<le> 1" unfolding fsub_def using pct by (intro f64_in) (simp_all add: f64_100)
  then have sc: "0 \<le> fmul pct 100 \<and> fmul pct 100 \<le> 100" "0 \<le> fmul (fsub 1 pct) 100 \<and> fmul (fsub 1 pct) 100 \<le> 100"
    using pct by (simp_all add: fmul_percent)
  note r = round_half_even_percent
  show "0 \<le> score_from_range v t" "score_from_range v t \<le> 100"
    using r sc by (auto simp: score_from_range_def t Let_def simp flip: pct_def)
qed

lemma scored_percent: "scored k v = Some s \<Longrightarrow> 0 \<le> s \<and> s \<le> 100"
  by (auto simp: scored_def score_from_range_percent)

lemma set_available: "(k, s) \<in> set (available cs) \<longleftrightarrow> (k, Some s) \<in> set cs"
  by (force simp: available_def split: option.splits)

lemma available_keys: "distinct (map fst cs) \<Longrightarrow> distinct (map fst (available cs))"
proof (induction cs)
  case (Cons c cs)
  have "fst ` set (available cs) \<subseteq> fst ` set cs" by (auto simp: set_available image_iff) (metis fst_conv)
  moreover have "available (c # cs) = (case snd c of None \<Rightarrow> [] | Some s \<Rightarrow> [(fst c, s)]) @ available cs"
    by (simp add: available_def split_beta)
  ultimately show ?case using Cons by (auto split: option.splits)
qed (simp add: available_def)

text \<open>Risk scores of instruments stay on the scale too, the sector proxies included.\<close>

lemma risk_score_percent: "0 \<le> rs_score (compute_risk_score n v30 v90 dd var sector)"
  "rs_score (compute_risk_score n v30 v90 dd var sector) \<le> 100"
proof -
  have m: "0 \<le> score_from_metrics v30 v90 dd x \<and> score_from_metrics v30 v90 dd x \<le> 100" for x
    using round_half_even_percent[of "clamp 0 100 y" for y]
    by (auto simp: score_from_metrics_def DEFAULT_PROXY_SCORE_def clamp_bounds split: prod.splits)
  have p: "0 \<le> dict_get SECTOR_PROXY_SCORES k DEFAULT_PROXY_SCORE \<and> dict_get SECTOR_PROXY_SCORES k DEFAULT_PROXY_SCORE \<le> 100" for k
    by (simp add: dict_get_def SECTOR_PROXY_SCORES_def DEFAULT_PROXY_SCORE_def)
  show "0 \<le> rs_score (compute_risk_score n v30 v90 dd var sector)"
    "rs_score (compute_risk_score n v30 v90 dd var sector) \<le> 100"
    using m p by (simp_all add: compute_risk_score_def)
qed

section \<open>Properties\<close>

text \<open>Each fundamental component that can be computed is an integer from 0 to 100, and the composite lies
  between the lowest and the highest of them, whichever are missing and although its weights are
  floats that are renormalised; there is a composite exactly when there is a component.\<close>

theorem fundamental_composite_between:
  "let r = score_fundamentals f price; scores = map snd (available (fs_components r))
   in list_all (\<lambda>s. 0 \<le> s \<and> s \<le> 100) scores \<and>
      (case fs_composite r of
         None \<Rightarrow> scores = []
       | Some c \<Rightarrow> scores \<noteq> [] \<and> Min (set scores) \<le> c \<and> c \<le> Max (set scores))"
proof -
  define cs where "cs = fs_components (score_fundamentals f price)"
  have comp: "fs_composite (score_fundamentals f price) = composite_of (available cs)"
    by (simp add: cs_def score_fundamentals_def Let_def)
  have "distinct (map fst cs)" by (simp add: cs_def score_fundamentals_def Let_def)
  then have dist: "distinct (map fst (available cs))" by (rule available_keys)
  have range: "0 \<le> s \<and> s \<le> 100" if "(k, s) \<in> set (available cs)" for k s
    using that unfolding set_available
    by (auto simp: cs_def score_fundamentals_def Let_def dest!: scored_percent[OF sym] split: option.splits if_splits)
  let ?S = "set (map snd (available cs))"
  show ?thesis
  proof (cases "available cs = []")
    case True
    then show ?thesis using comp by (simp add: composite_of_def Let_def flip: cs_def)
  next
    case False
    then have ne: "?S \<noteq> {}" by simp
    have m: "Min ?S \<in> ?S" "Max ?S \<in> ?S" using ne by (simp_all del: set_map)
    then have b: "0 \<le> Min ?S" "Max ?S \<le> 100" using range by (auto simp: image_iff)
    have "\<forall>(k, s) \<in> set (available cs). Min ?S \<le> s \<and> s \<le> Max ?S"
    proof (clarify)
      fix k s assume "(k, s) \<in> set (available cs)"
      then have "s \<in> ?S" by force
      then show "Min ?S \<le> s \<and> s \<le> Max ?S" by (intro conjI Min_le Max_ge) simp_all
    qed
    moreover have "Min ?S \<le> Max ?S" using m by (intro Min_le) simp_all
    ultimately obtain c where "composite_of (available cs) = Some c" "Min ?S \<le> c" "c \<le> Max ?S"
      using composite_between[OF False dist, of "Min ?S" "Max ?S"] b by blast
    then show ?thesis using range False comp by (auto simp: Let_def list_all_iff simp flip: cs_def)
  qed
qed

end
