(* ===== verification/Edgar.thy ===== *)
theory Edgar
  imports Market_Data Engine_Scores
begin

text \<open>
  The SEC EDGAR client (\<open>data/edgar.py\<close>): resolving a ticker to its CIK through two caches, fetching the
  company facts, and reducing them to the fundamentals the scoring engine reads. The HTTP answers are
  arguments; of the text of an exception the message keeps what HTTP gave, a JSON error leaves it out. The
  semaphore and the lock only bound concurrency and are not modelled.
\<close>

section \<open>Tags\<close>

definition REVENUE_TAGS :: "string list" where
  "REVENUE_TAGS = [''Revenues'', ''SalesRevenueNet'', ''RevenueFromContractWithCustomerExcludingAssessedTax'',
     ''RevenueFromContractWithCustomerIncludingAssessedTax'']"

definition NET_INCOME_TAGS :: "string list" where "NET_INCOME_TAGS = [''NetIncomeLoss'', ''ProfitLoss'']"

definition TOTAL_DEBT_TAGS :: "string list" where
  "TOTAL_DEBT_TAGS = [''LongTermDebt'', ''LongTermDebtNoncurrent'', ''DebtLongtermAndShorttermCombinedAmount'']"

definition EQUITY_TAGS :: "string list" where
  "EQUITY_TAGS = [''StockholdersEquity'', ''StockholdersEquityIncludingPortionAttributableToNoncontrollingInterest'']"

definition OPERATING_CASH_FLOW_TAGS :: "string list" where
  "OPERATING_CASH_FLOW_TAGS = [''NetCashProvidedByUsedInOperatingActivities'', ''CashFlowsFromOperatingActivities'']"

definition CAPEX_TAGS :: "string list" where
  "CAPEX_TAGS = [''PaymentsToAcquirePropertyPlantAndEquipment'', ''PaymentsToAcquireProductiveAssets'']"

definition EPS_TAGS :: "string list" where "EPS_TAGS = [''EarningsPerShareBasic'', ''EarningsPerShareDiluted'']"

section \<open>Observations\<close>

record observation =
  ob_end :: day
  ob_value :: rat
  ob_fy :: int
  ob_form :: string

text \<open>A row that misses a key, has a wrong type or a wrong value is skipped; \<open>InvalidOperation\<close> is none of
  these.\<close>

definition read_row :: "json \<Rightarrow> py_error + observation" where
  "read_row row =
     bind_res (j_item row ''end'') (\<lambda>end_str.
     bind_res (j_item row ''val'') (\<lambda>value_raw.
     bind_res (j_get row ''fy'') (\<lambda>fy_raw.
     bind_res (j_int (j_or fy_raw (JInt 0))) (\<lambda>fy.
     bind_res (j_get row ''form'') (\<lambda>form_raw.
     bind_res (j_date end_str) (\<lambda>e.
     bind_res (j_decimal value_raw) (\<lambda>v.
       Inr \<lparr>ob_end = e, ob_value = dec_val v, ob_fy = fy, ob_form = j_str (j_or form_raw (JStr []))\<rparr>)))))))"

fun read_rows :: "json list \<Rightarrow> py_error + observation list" where
  "read_rows [] = Inr []"
| "read_rows (row # rows) =
     (case read_row row of
        Inl e \<Rightarrow> if e \<in> {KeyError, ValueError, TypeError} then read_rows rows else Inl e
      | Inr o1 \<Rightarrow> bind_res (read_rows rows) (\<lambda>os. Inr (o1 # os)))"

fun try_units :: "json \<Rightarrow> string list \<Rightarrow> py_error + observation list" where
  "try_units units [] = Inr []"
| "try_units units (u # us) =
     bind_res (j_get units u) (\<lambda>raw.
       if \<not> truthy raw then try_units units us
       else bind_res (j_iter raw) (\<lambda>rows. bind_res (read_rows rows) (\<lambda>obs.
         if obs = [] then try_units units us else Inr obs)))"

fun try_tags :: "json \<Rightarrow> string list \<Rightarrow> string list \<Rightarrow> py_error + observation list" where
  "try_tags us_gaap unit_preference [] = Inr []"
| "try_tags us_gaap unit_preference (tag # tags) =
     bind_res (j_get us_gaap tag) (\<lambda>node.
       if \<not> truthy node then try_tags us_gaap unit_preference tags
       else bind_res (j_get_or node ''units'' (JObj [])) (\<lambda>units.
            bind_res (try_units units unit_preference) (\<lambda>obs.
              if obs = [] then try_tags us_gaap unit_preference tags else Inr (sort_key ob_end obs))))"

definition extract_concept :: "json \<Rightarrow> string list \<Rightarrow> string list \<Rightarrow> py_error + observation list" where
  "extract_concept facts tag_chain unit_preference =
     bind_res (j_get_or facts ''facts'' (JObj [])) (\<lambda>f.
     bind_res (j_get_or f ''us-gaap'' (JObj [])) (\<lambda>us_gaap. try_tags us_gaap unit_preference tag_chain))"

definition annual :: "observation list \<Rightarrow> observation list" where
  "annual obs = filter (\<lambda>o1. ob_form o1 = ''10-K'') obs"

definition latest_annual :: "observation list \<Rightarrow> observation option" where
  "latest_annual obs =
     (if annual obs \<noteq> [] then Some (last (annual obs)) else if obs \<noteq> [] then Some (last obs) else None)"

definition prior_annual :: "observation list \<Rightarrow> observation option" where
  "prior_annual obs =
     (let a = annual obs in if 2 \<le> length a then Some (a ! (length a - 2)) else None)"

section \<open>The reduction\<close>

record edgar_payload = edgar_fundamentals +
  ep_symbol :: string
  ep_cik :: string
  ep_filing_date :: "day option"
  ep_fetched_at :: instant

text \<open>\<open>(debt / equity).quantize(Decimal("0.0001"))\<close>, unless a side is missing or the equity is zero.\<close>

definition debt_to_equity_of :: "observation option \<Rightarrow> observation option \<Rightarrow> py_error + rat option" where
  "debt_to_equity_of debt equity =
     (case (debt, equity) of
        (Some d, Some e) \<Rightarrow>
          if ob_value e = 0 then Inr None
          else (case quantize_with round_half_even 4 (ddiv (ob_value d) (ob_value e)) of
                  None \<Rightarrow> Inl ArithmeticError | Some q \<Rightarrow> Inr (Some q))
      | _ \<Rightarrow> Inr None)"

definition free_cash_flow_of :: "observation option \<Rightarrow> observation option \<Rightarrow> rat option" where
  "free_cash_flow_of ocf capex =
     map_option (\<lambda>o1. dsub (ob_value o1) (case capex of None \<Rightarrow> 0 | Some c \<Rightarrow> d28 \<bar>ob_value c\<bar>)) ocf"

definition filing_date_of :: "observation option \<Rightarrow> observation option \<Rightarrow> day option" where
  "filing_date_of revenue earnings =
     (case (revenue, earnings) of
        (Some a, Some b) \<Rightarrow> Some (max (ob_end a) (ob_end b))
      | (Some a, None) \<Rightarrow> Some (ob_end a) | (None, Some b) \<Rightarrow> Some (ob_end b) | (None, None) \<Rightarrow> None)"

definition reduce_company_facts :: "string \<Rightarrow> string \<Rightarrow> json \<Rightarrow> instant \<Rightarrow> py_error + edgar_payload" where
  "reduce_company_facts symbol cik facts now =
     bind_res (extract_concept facts REVENUE_TAGS [''USD'']) (\<lambda>revenue_obs.
     bind_res (extract_concept facts NET_INCOME_TAGS [''USD'']) (\<lambda>net_income_obs.
     bind_res (extract_concept facts TOTAL_DEBT_TAGS [''USD'']) (\<lambda>debt_obs.
     bind_res (extract_concept facts EQUITY_TAGS [''USD'']) (\<lambda>equity_obs.
     bind_res (extract_concept facts OPERATING_CASH_FLOW_TAGS [''USD'']) (\<lambda>ocf_obs.
     bind_res (extract_concept facts CAPEX_TAGS [''USD'']) (\<lambda>capex_obs.
     bind_res (extract_concept facts EPS_TAGS [''USD/shares'']) (\<lambda>eps_obs.
     bind_res (debt_to_equity_of (latest_annual debt_obs) (latest_annual equity_obs)) (\<lambda>dte.
       Inr \<lparr>ef_revenue = map_option ob_value (latest_annual revenue_obs),
         ef_revenue_prior = map_option ob_value (prior_annual revenue_obs),
         ef_earnings = map_option ob_value (latest_annual net_income_obs),
         ef_earnings_prior = map_option ob_value (prior_annual net_income_obs),
         ef_debt_to_equity = dte, ef_pe_ratio = None, ef_eps = map_option ob_value (latest_annual eps_obs),
         ef_free_cash_flow = free_cash_flow_of (latest_annual ocf_obs) (latest_annual capex_obs),
         ep_symbol = symbol, ep_cik = cik,
         ep_filing_date = filing_date_of (latest_annual revenue_obs) (latest_annual net_income_obs),
         ep_fetched_at = now\<rparr>))))))))"

section \<open>The client\<close>

definition cik_key :: "string \<Rightarrow> string" where "cik_key symbol = ''edgar:cik:'' @ symbol"

text \<open>\<open>f"{n:010d}"\<close>.\<close>

definition cik_text :: "int \<Rightarrow> string" where
  "cik_text n = (if n < 0 then ''-'' @ pad 9 (- n) else pad 10 n)"

fun ticker_rows :: "(string, string) dict \<Rightarrow> json list \<Rightarrow> provider_error + (string, string) dict" where
  "ticker_rows mapping [] = Inr mapping"
| "ticker_rows mapping (row # rows) =
     (case row of
        JObj kvs \<Rightarrow>
          (let ticker = str_strip (str_upper (j_str (dict_get kvs ''ticker'' (JStr [])))); cik_raw = dict_get kvs ''cik_str'' JNull
           in if ticker = [] \<or> cik_raw = JNull then ticker_rows mapping rows
              else (case j_int cik_raw of
                      Inl e \<Rightarrow> Inl Escaped
                    | Inr n \<Rightarrow> ticker_rows (dict_set ticker (cik_text n) mapping) rows))
      | _ \<Rightarrow> Inl Escaped)"

definition load_ticker_map :: "http_outcome \<Rightarrow> provider_error + (string, string) dict" where
  "load_ticker_map outcome =
     (case outcome of
        TimedOut exc \<Rightarrow> Inl (UpstreamUnavailable (''could not fetch SEC ticker map: '' @ exc))
      | TransportError exc \<Rightarrow> Inl (UpstreamUnavailable (''could not fetch SEC ticker map: '' @ exc))
      | Response status text \<Rightarrow>
          if status \<noteq> 200 then Inl (UpstreamUnavailable (''SEC ticker map returned HTTP '' @ int_str status))
          else (case json_loads text of
                  None \<Rightarrow> Inl (UpstreamUnavailable ''SEC ticker map returned non-JSON payload'')
                | Some (JObj kvs) \<Rightarrow> ticker_rows [] (map snd kvs)
                | Some _ \<Rightarrow> Inl Escaped))"

text \<open>The state of a client: the tickers once loaded, and Redis.\<close>

definition CIK_TTL :: int where "CIK_TTL = 7 * 24 * 60 * 60"

definition resolve_cik ::
  "'r redis \<Rightarrow> http_outcome \<Rightarrow> string \<Rightarrow> (string, string) dict option \<times> 'r
     \<Rightarrow> (provider_error + string) \<times> (string, string) dict option \<times> 'r" where
  "resolve_cik R tickers symbol st =
     (case st of (ticker_map, r) \<Rightarrow>
       (case rd_get R r (cik_key symbol) of
          Some cik \<Rightarrow> (Inr cik, ticker_map, r)
        | None \<Rightarrow>
            (case (case ticker_map of Some m \<Rightarrow> Inr m | None \<Rightarrow> load_ticker_map tickers) of
               Inl e \<Rightarrow> (Inl e, ticker_map, r)
             | Inr m \<Rightarrow>
                 (case map_of m symbol of
                    None \<Rightarrow> (Inl (SymbolNotFound (''EDGAR has no CIK for ticker '' @ py_repr symbol)), Some m, r)
                  | Some cik \<Rightarrow> (Inr cik, Some m, rd_set R r (cik_key symbol) cik (Some CIK_TTL))))))"

text \<open>\<open>float(retry_after)\<close> of a header that is no number is a \<open>ValueError\<close>.\<close>

definition fetch_company_facts :: "http_outcome \<Rightarrow> string option \<Rightarrow> string \<Rightarrow> provider_error + json" where
  "fetch_company_facts outcome retry_after cik =
     (case outcome of
        TimedOut exc \<Rightarrow> Inl (UpstreamUnavailable (''EDGAR request failed for CIK '' @ cik @ '': '' @ exc))
      | TransportError exc \<Rightarrow> Inl (UpstreamUnavailable (''EDGAR request failed for CIK '' @ cik @ '': '' @ exc))
      | Response status text \<Rightarrow>
          if status = 404 then Inl (SymbolNotFound (''EDGAR has no companyfacts for CIK '' @ cik))
          else if status = 403 then Inl (DataProviderError (''EDGAR rejected request '' @ [CHR 0xE2, CHR 0x80, CHR 0x94] @ '' check User-Agent header''))
          else if status = 429 then
            (case retry_after of
               None \<Rightarrow> Inl (RateLimit ''EDGAR rate-limited the request'' None)
             | Some s \<Rightarrow>
                 if s = [] then Inl (RateLimit ''EDGAR rate-limited the request'' None)
                 else (case py_float s of None \<Rightarrow> Inl Escaped | Some x \<Rightarrow> Inl (RateLimit ''EDGAR rate-limited the request'' (Some x))))
          else if 500 \<le> status then Inl (UpstreamUnavailable (''EDGAR returned HTTP '' @ int_str status))
          else if status \<noteq> 200 then Inl (UpstreamUnavailable (''EDGAR unexpected HTTP '' @ int_str status))
          else (case json_loads text of None \<Rightarrow> Inl (UpstreamUnavailable ''EDGAR returned non-JSON payload'') | Some j \<Rightarrow> Inr j))"

record edgar_web =
  ew_tickers :: http_outcome
  ew_facts :: "string \<Rightarrow> http_outcome \<times> string option"

definition edgar_get_fundamentals ::
  "'r redis \<Rightarrow> edgar_payload codec \<Rightarrow> edgar_web \<Rightarrow> instant \<Rightarrow> string \<Rightarrow> (string, string) dict option \<times> 'r
     \<Rightarrow> (provider_error + edgar_payload) \<times> (string, string) dict option \<times> 'r" where
  "edgar_get_fundamentals R C web now symbol0 st =
     (let symbol = str_strip (str_upper symbol0); key = fundamentals_key ''edgar'' symbol
      in if symbol = [] then (Inl (DataProviderError ''empty symbol''), st)
         else (case get_model R C key (snd st) of
             Some f \<Rightarrow> (Inr f, st)
           | None \<Rightarrow>
               (case resolve_cik R (ew_tickers web) symbol st of
                  (Inl e, st1) \<Rightarrow> (Inl e, st1)
                | (Inr cik, m1, r1) \<Rightarrow>
                    (case ew_facts web cik of (outcome, retry_after) \<Rightarrow>
                      (case fetch_company_facts outcome retry_after cik of
                         Inl e \<Rightarrow> (Inl e, m1, r1)
                       | Inr facts \<Rightarrow>
                           (case reduce_company_facts symbol cik facts now of
                              Inl e \<Rightarrow> (Inl Escaped, m1, r1)
                            | Inr f \<Rightarrow> (Inr f, m1, set_model R C key f FUNDAMENTALS_TTL_SECONDS r1)))))))"

section \<open>Lemmas\<close>

lemma try_tags_sorted: "try_tags g us tags = Inr obs \<Longrightarrow> sorted (map ob_end obs)"
  by (induction tags) (auto simp: bind_res_Inr_iff split: if_splits)

lemma extract_sorted: "extract_concept facts chain us = Inr obs \<Longrightarrow> sorted (map ob_end obs)"
  by (auto simp: extract_concept_def bind_res_Inr_iff dest: try_tags_sorted)

lemma annual_sorted: "sorted (map ob_end obs) \<Longrightarrow> sorted (map ob_end (annual obs))"
  unfolding annual_def by (rule sorted_filter)

lemma sorted_last_max: "sorted (map f xs) \<Longrightarrow> x \<in> set xs \<Longrightarrow> f x \<le> f (last xs)"
proof (induction xs rule: rev_induct)
  case (snoc y ys)
  then show ?case by (auto simp: sorted_append)
qed simp

text \<open>The rows that are read: the first tag with a readable row wins, and a row is skipped unless its value is
  a number no \<open>Decimal\<close> accepts.\<close>

lemma read_rows_skip:
  "list_all (\<lambda>row. read_row row \<in> {Inl KeyError, Inl ValueError, Inl TypeError}) pre \<Longrightarrow> read_rows (pre @ rows) = read_rows rows"
  by (induction pre) auto

text \<open>A value \<open>null\<close> raises \<open>InvalidOperation\<close>, which the loop does not skip: the whole document fails.\<close>

definition fact_row :: "string \<Rightarrow> json \<Rightarrow> string \<Rightarrow> json" where
  "fact_row e v form = JObj [(''end'', JStr e), (''val'', v), (''fy'', JInt 2024), (''form'', JStr form)]"

definition facts_of :: "json list \<Rightarrow> json" where
  "facts_of rows = JObj [(''facts'', JObj [(''us-gaap'', JObj [(''Revenues'', JObj [(''units'', JObj [(''USD'', JArr rows)])])])])]"

lemma null_value_aborts:
  "reduce_company_facts ''X'' ''1'' (facts_of [fact_row ''2024-09-30'' JNull ''10-K'', fact_row ''2023-09-30'' (JInt 7) ''10-K'']) 0 =
     Inl ArithmeticError"
  by code_simp

text \<open>Two annual rows of the same period are compared with each other.\<close>

lemma prior_same_period:
  "(case reduce_company_facts ''X'' ''1'' (facts_of [fact_row ''2023-09-30'' (JInt 5) ''10-K'', fact_row ''2024-09-30'' (JInt 7) ''10-K'',
       fact_row ''2024-09-30'' (JInt 7) ''10-K'']) 0 of
     Inl e \<Rightarrow> False
   | Inr f \<Rightarrow> ef_revenue f = Some 7 \<and> ef_revenue_prior f = Some 7)"
  by code_simp

text \<open>The answer of a 429 is a rate limit only if the header is absent or a number.\<close>

lemma rate_limit_header:
  "fetch_company_facts (Response 429 body) header cik =
     (case header of None \<Rightarrow> Inl (RateLimit ''EDGAR rate-limited the request'' None)
      | Some s \<Rightarrow> if s = [] then Inl (RateLimit ''EDGAR rate-limited the request'' None)
          else if py_float s = None then Inl Escaped
          else Inl (RateLimit ''EDGAR rate-limited the request'' (py_float s)))"
  by (auto simp: fetch_company_facts_def split: option.splits)

lemma http_date_header: "fetch_company_facts (Response 429 []) (Some ''Wed, 21 Oct 2026 07:28:00 GMT'') cik = Inl Escaped"
  by (simp add: rate_limit_header) code_simp

section \<open>Properties\<close>

definition latest_of_form :: "observation list \<Rightarrow> observation \<Rightarrow> bool" where
  "latest_of_form obs o1 \<longleftrightarrow> o1 \<in> set obs \<and>
     (if annual obs = [] then list_all (\<lambda>p. ob_end p \<le> ob_end o1) obs
      else ob_form o1 = ''10-K'' \<and> list_all (\<lambda>p. ob_end p \<le> ob_end o1) (annual obs))"

lemma latest_annual_cases:
  assumes "sorted (map ob_end obs)"
  shows "latest_annual obs = None \<and> obs = [] \<or> (\<exists>o1. latest_annual obs = Some o1 \<and> latest_of_form obs o1)"
proof -
  have a: "last (annual obs) \<in> set obs \<and> ob_form (last (annual obs)) = ''10-K''" if "annual obs \<noteq> []"
    using last_in_set[OF that] by (simp add: annual_def)
  show ?thesis
    using assms a annual_sorted[OF assms] sorted_last_max[of ob_end obs] sorted_last_max[of ob_end "annual obs"]
    by (auto simp: latest_annual_def latest_of_form_def list_all_iff annual_def)
qed

lemma prior_annual_cases:
  assumes "sorted (map ob_end obs)"
  shows "(prior_annual obs = None \<longleftrightarrow> length (annual obs) < 2) \<and>
    (\<forall>p. prior_annual obs = Some p \<longrightarrow> p \<in> set (annual obs) \<and> (\<forall>o1. latest_annual obs = Some o1 \<longrightarrow> ob_end p \<le> ob_end o1))"
proof -
  have "ob_end (annual obs ! (length (annual obs) - 2)) \<le> ob_end (last (annual obs))" if "2 \<le> length (annual obs)"
    using that by (intro sorted_last_max[OF annual_sorted[OF assms]] nth_mem) simp
  moreover have "annual obs ! (length (annual obs) - 2) \<in> set (annual obs)" if "2 \<le> length (annual obs)"
    using that by (intro nth_mem) simp
  ultimately show ?thesis by (auto simp: prior_annual_def latest_annual_def Let_def)
qed

text \<open>The reduced figures are those of the latest annual report: revenue and earnings are the values of a
  10-K row whose period ends last among the 10-K rows of their concept (of any form when there is none), and
  the prior value, present exactly with two or more 10-K rows, is of a 10-K row that ends no later; the filing
  date is the later end of the two. A debt ratio is only given for a non-zero equity.\<close>

theorem annual_figures:
  assumes ok: "reduce_company_facts symbol cik facts now = Inr f"
  shows "\<exists>rev inc. extract_concept facts REVENUE_TAGS [''USD''] = Inr rev \<and>
    extract_concept facts NET_INCOME_TAGS [''USD''] = Inr inc \<and>
    (case ef_revenue f of None \<Rightarrow> rev = [] | Some v \<Rightarrow> \<exists>o1. latest_of_form rev o1 \<and> ob_value o1 = v) \<and>
    (case ef_earnings f of None \<Rightarrow> inc = [] | Some v \<Rightarrow> \<exists>o1. latest_of_form inc o1 \<and> ob_value o1 = v) \<and>
    (case ef_revenue_prior f of None \<Rightarrow> length (annual rev) < 2
     | Some v \<Rightarrow> \<exists>p \<in> set (annual rev). ob_value p = v \<and> (\<forall>o1. latest_annual rev = Some o1 \<longrightarrow> ob_end p \<le> ob_end o1)) \<and>
    (ep_filing_date f = None \<longleftrightarrow> rev = [] \<and> inc = [])"
proof -
  obtain rev inc where x: "extract_concept facts REVENUE_TAGS [''USD''] = Inr rev"
    "extract_concept facts NET_INCOME_TAGS [''USD''] = Inr inc"
    "ef_revenue f = map_option ob_value (latest_annual rev)" "ef_earnings f = map_option ob_value (latest_annual inc)"
    "ef_revenue_prior f = map_option ob_value (prior_annual rev)"
    "ep_filing_date f = filing_date_of (latest_annual rev) (latest_annual inc)"
    using ok by (auto simp: reduce_company_facts_def bind_res_Inr_iff)
  note r = latest_annual_cases[OF extract_sorted[OF x(1)]] and i = latest_annual_cases[OF extract_sorted[OF x(2)]]
  have "case ef_revenue f of None \<Rightarrow> rev = [] | Some v \<Rightarrow> \<exists>o1. latest_of_form rev o1 \<and> ob_value o1 = v"
    using r x(3) by auto
  moreover have "case ef_earnings f of None \<Rightarrow> inc = [] | Some v \<Rightarrow> \<exists>o1. latest_of_form inc o1 \<and> ob_value o1 = v"
    using i x(4) by auto
  moreover have "case ef_revenue_prior f of None \<Rightarrow> length (annual rev) < 2
     | Some v \<Rightarrow> \<exists>p \<in> set (annual rev). ob_value p = v \<and> (\<forall>o1. latest_annual rev = Some o1 \<longrightarrow> ob_end p \<le> ob_end o1)"
    using prior_annual_cases[OF extract_sorted[OF x(1)]] x(5) by (cases "prior_annual rev") auto
  moreover have "ep_filing_date f = None \<longleftrightarrow> rev = [] \<and> inc = []"
    using r i x(6) by (auto simp: filing_date_of_def latest_of_form_def split: option.splits)
  ultimately show ?thesis using x(1,2) by (intro exI[of _ rev] exI[of _ inc]) simp
qed

definition facts_1 :: json where
  "facts_1 = facts_of [fact_row ''2024-09-30'' (JInt 7) ''10-K'', fact_row ''2025-03-31'' (JInt 4) ''10-Q'',
     fact_row ''2023-09-30'' (JInt 5) ''10-K'']"

theorem annual_figures_witness:
  "\<exists>f rev. reduce_company_facts ''X'' ''1'' facts_1 0 = Inr f \<and> extract_concept facts_1 REVENUE_TAGS [''USD''] = Inr rev \<and>
     (\<exists>o1. latest_of_form rev o1 \<and> ob_value o1 = 7) \<and> ef_revenue f = Some 7 \<and> ef_revenue_prior f = Some 5"
proof -
  have c: "(case reduce_company_facts ''X'' ''1'' facts_1 0 of Inl e \<Rightarrow> False
     | Inr f \<Rightarrow> ef_revenue f = Some 7 \<and> ef_revenue_prior f = Some 5)" by code_simp
  then obtain f where f: "reduce_company_facts ''X'' ''1'' facts_1 0 = Inr f" "ef_revenue f = Some 7" "ef_revenue_prior f = Some 5"
    by (auto split: sum.splits)
  show ?thesis using annual_figures[OF f(1)] f by auto
qed

text \<open>A successful fetch is what the next call of the ticker returns, in whatever case it is written.\<close>

lemma edgar_cached:
  assumes "redis_kv R" "codec_ok C" "edgar_get_fundamentals R C web now s st = (Inr f, m', r')"
  shows "edgar_get_fundamentals R C web' now' (str_strip (str_upper s)) (m'', r') = (Inr f, m'', r')"
proof -
  let ?s = "str_strip (str_upper s)"
  have stored: "get_model R C (fundamentals_key ''edgar'' ?s) r' = Some f" "?s \<noteq> []"
    using assms(3)
    by (auto simp: edgar_get_fundamentals_def Let_def model_roundtrip[OF assms(1,2)] split: if_splits option.splits sum.splits prod.splits)
  have "str_strip (str_upper ?s) = ?s" by (simp add: str_strip_upper)
  then show ?thesis using stored by (simp add: edgar_get_fundamentals_def)
qed

end
