(* ===== verification/Fx_Feeds.thy ===== *)
theory Fx_Feeds
  imports Http Fx
begin

text \<open>
  The two USD/INR feeds of \<open>data/fred.py\<close> and their combination. The HTTP answers are arguments. A feed
  fails with \<open>FxFetchError\<close> or lets another exception through; only the first makes the combination
  ask the second feed.
\<close>

section \<open>FRED\<close>

definition FRED_SERIES_USD_INR :: string where "FRED_SERIES_USD_INR = ''DEXINUS''"

datatype feed_error = Fx_Fetch_Error string | Feed_Escaped py_error

text \<open>\<open>datetime(d.year, d.month, d.day, tzinfo=UTC)\<close>.\<close>

definition usd_inr :: "decimal \<Rightarrow> day \<Rightarrow> string \<Rightarrow> fx_observation" where
  "usd_inr rate d source = \<lparr>ob_base = ''USD'', ob_quote = ''INR'', ob_rate = rate, ob_as_of = midnight d, ob_source = source\<rparr>"

text \<open>The observations come newest first; an unusable one is skipped.\<close>

fun first_usable :: "json list \<Rightarrow> py_error + fx_observation option" where
  "first_usable [] = Inr None"
| "first_usable (obs # rest) =
     bind_res (j_get obs ''value'') (\<lambda>value.
     bind_res (j_get obs ''date'') (\<lambda>obs_date.
       if value \<in> {JNull, JStr [], JStr ''.''} then first_usable rest
       else (case j_decimal value of
               Inl e \<Rightarrow> first_usable rest
             | Inr rate \<Rightarrow>
                 (case j_date obs_date of
                    Inl e \<Rightarrow> first_usable rest
                  | Inr d \<Rightarrow> Inr (Some (usd_inr rate d ''fred''))))))"

definition fred_params :: "string \<Rightarrow> day option \<Rightarrow> (string \<times> string) list" where
  "fred_params api_key as_of =
     [(''series_id'', FRED_SERIES_USD_INR), (''api_key'', api_key), (''file_type'', ''json''), (''sort_order'', ''desc''),
      (''limit'', ''10'')] @ (case as_of of None \<Rightarrow> [] | Some d \<Rightarrow> [(''observation_end'', iso_date d)])"

type_synonym feed_client = "(string \<times> string) list \<Rightarrow> http_outcome"

definition http_text :: "json_answer \<Rightarrow> string" where
  "http_text a = (case a of Http_Failed exc \<Rightarrow> exc | Http_Status s \<Rightarrow> ''HTTP status '' @ int_str s | _ \<Rightarrow> [])"

definition fred_latest :: "string option \<Rightarrow> feed_client \<Rightarrow> day option \<Rightarrow> feed_error + fx_observation" where
  "fred_latest api_key client as_of =
     (case api_key of
        None \<Rightarrow> Inl (Fx_Fetch_Error ''FRED_API_KEY is not configured'')
      | Some key \<Rightarrow>
          if key = [] then Inl (Fx_Fetch_Error ''FRED_API_KEY is not configured'')
          else (case request_json (client (fred_params key as_of)) of
                  Not_Json \<Rightarrow> Inl (Feed_Escaped ValueError)
                | Body payload \<Rightarrow>
                    (case bind_res (j_get payload ''observations'') (\<lambda>o1. bind_res (j_iter (j_or o1 (JArr []))) first_usable) of
                       Inl e \<Rightarrow> Inl (Feed_Escaped e)
                     | Inr None \<Rightarrow> Inl (Fx_Fetch_Error ''FRED returned no usable USD/INR observations'')
                     | Inr (Some ob) \<Rightarrow> Inr ob)
                | failure \<Rightarrow> Inl (Fx_Fetch_Error (''FRED HTTP error: '' @ http_text failure))))"

section \<open>ECB\<close>

text \<open>The body of the \<open>try\<close> either raises \<open>FxFetchError\<close> itself or another exception.\<close>

datatype ecb_error = Ecb_Fetch string | Ecb_Raised py_error

definition lift_py :: "py_error + 'a \<Rightarrow> ecb_error + 'a" where
  "lift_py x = (case x of Inl e \<Rightarrow> Inl (Ecb_Raised e) | Inr a \<Rightarrow> Inr a)"

fun res_list :: "('e + 'a) list \<Rightarrow> 'e + 'a list" where
  "res_list [] = Inr []"
| "res_list (x # xs) = bind_res x (\<lambda>a. bind_res (res_list xs) (\<lambda>as. Inr (a # as)))"

text \<open>\<open>next((d for d in dims if d.get("id") == "TIME_PERIOD"), None)\<close>.\<close>

fun time_dimension :: "json list \<Rightarrow> py_error + json option" where
  "time_dimension [] = Inr None"
| "time_dimension (d # ds) =
     bind_res (j_get d ''id'') (\<lambda>i. if i = JStr ''TIME_PERIOD'' then Inr (Some d) else time_dimension ds)"

text \<open>\<open>raw_value[0]\<close> of a true value.\<close>

fun j_first :: "json \<Rightarrow> py_error + json" where
  "j_first (JArr (v # vs)) = Inr v"
| "j_first (JStr (c # cs)) = Inr (JStr [c])"
| "j_first (JObj kvs) = Inl KeyError"
| "j_first _ = Inl TypeError"

text \<open>\<open>time_values[idx]\<close> for \<open>idx < len(time_values)\<close>; a negative index counts from the end.\<close>

definition time_at :: "json list \<Rightarrow> int \<Rightarrow> ecb_error + json" where
  "time_at ts idx =
     (if 0 \<le> idx then Inr (ts ! nat idx)
      else if - idx \<le> int (length ts) then Inr (ts ! nat (int (length ts) + idx)) else Inl (Ecb_Raised IndexError))"

fun newest_index :: "(string \<times> json) list \<Rightarrow> json list \<Rightarrow> int list \<Rightarrow> ecb_error + fx_observation option" where
  "newest_index observations ts [] = Inr None"
| "newest_index observations ts (idx # rest) =
     (case map_of observations (int_str idx) of
        None \<Rightarrow> Inl (Ecb_Raised KeyError)
      | Some raw_value \<Rightarrow>
          if \<not> truthy raw_value then newest_index observations ts rest
          else bind_res (lift_py (j_first raw_value)) (\<lambda>value.
            if value = JNull then newest_index observations ts rest
            else (case j_decimal value of
                    Inl e \<Rightarrow> newest_index observations ts rest
                  | Inr rate \<Rightarrow>
                      if int (length ts) \<le> idx then newest_index observations ts rest
                      else bind_res (time_at ts idx) (\<lambda>t. bind_res (lift_py (j_date t)) (\<lambda>d. Inr (Some (usd_inr rate d ''ecb'')))))))"

text \<open>\<open>next(iter(series_map.values()))\<close> of a true value.\<close>

definition first_series :: "json \<Rightarrow> ecb_error + json" where
  "first_series m = (case m of JObj ((k, v) # kvs) \<Rightarrow> Inr v | _ \<Rightarrow> Inl (Ecb_Raised AttributeError))"

definition j_index0 :: "json \<Rightarrow> py_error + json" where "j_index0 x = j_first x"

definition newest_of :: "json \<Rightarrow> json list \<Rightarrow> ecb_error + fx_observation option" where
  "newest_of observations time_values =
     (case observations of
        JObj kvs \<Rightarrow>
          bind_res (lift_py (res_list (map (\<lambda>(k, v). j_int (JStr k)) kvs))) (\<lambda>indices.
            newest_index kvs time_values (rev (sort indices)))
      | _ \<Rightarrow> Inl (Ecb_Raised TypeError))"

definition ecb_parse :: "json \<Rightarrow> ecb_error + fx_observation option" where
  "ecb_parse payload =
     bind_res (lift_py (j_get payload ''dataSets'')) (\<lambda>ds0.
     let data_sets = j_or ds0 (JArr []) in
     if \<not> truthy data_sets then Inl (Ecb_Fetch ''ECB returned no dataSets'')
     else bind_res (lift_py (j_index0 data_sets)) (\<lambda>ds.
     bind_res (lift_py (j_get ds ''series'')) (\<lambda>sm0.
     let series_map = j_or sm0 (JObj []) in
     if \<not> truthy series_map then Inl (Ecb_Fetch ''ECB returned no series'')
     else bind_res (first_series series_map) (\<lambda>series.
     bind_res (lift_py (j_get series ''observations'')) (\<lambda>ob0.
     let observations = j_or ob0 (JObj []) in
     if \<not> truthy observations then Inl (Ecb_Fetch ''ECB returned no observations'')
     else bind_res (lift_py (j_get payload ''structure'')) (\<lambda>st0.
     bind_res (lift_py (j_get (j_or st0 (JObj [])) ''dimensions'')) (\<lambda>dm0.
     bind_res (lift_py (j_get (j_or dm0 (JObj [])) ''observation'')) (\<lambda>dims0.
     bind_res (lift_py (j_iter (j_or dims0 (JArr [])))) (\<lambda>dims.
     bind_res (lift_py (time_dimension dims)) (\<lambda>td.
     case td of
       None \<Rightarrow> Inl (Ecb_Fetch ''ECB response missing TIME_PERIOD dimension'')
     | Some time_dim \<Rightarrow>
         bind_res (lift_py (j_get time_dim ''values'')) (\<lambda>tv0.
         bind_res (lift_py (j_iter (j_or tv0 (JArr [])))) (\<lambda>tvs.
         bind_res (lift_py (res_list (map (\<lambda>v. j_get v ''id'') tvs))) (\<lambda>time_values.
         newest_of observations time_values)))))))))))))"

definition ecb_params :: "day option \<Rightarrow> (string \<times> string) list" where
  "ecb_params as_of = (''format'', ''jsondata'') # (case as_of of None \<Rightarrow> [] | Some d \<Rightarrow> [(''endPeriod'', iso_date d)])"

definition ecb_latest :: "feed_client \<Rightarrow> day option \<Rightarrow> feed_error + fx_observation" where
  "ecb_latest client as_of =
     (case request_json (client (ecb_params as_of)) of
        Not_Json \<Rightarrow> Inl (Feed_Escaped ValueError)
      | Body payload \<Rightarrow>
          (case ecb_parse payload of
             Inl (Ecb_Fetch m) \<Rightarrow> Inl (Fx_Fetch_Error m)
           | Inl (Ecb_Raised e) \<Rightarrow>
               if e \<in> {KeyError, ValueError, TypeError} then Inl (Fx_Fetch_Error ''ECB parse error'') else Inl (Feed_Escaped e)
           | Inr None \<Rightarrow> Inl (Fx_Fetch_Error ''ECB returned no usable USD/INR observations'')
           | Inr (Some ob) \<Rightarrow> Inr ob)
      | failure \<Rightarrow> Inl (Fx_Fetch_Error (''ECB HTTP error: '' @ http_text failure)))"

section \<open>The combination\<close>

definition fred_ecb_latest :: "string option \<Rightarrow> feed_client \<Rightarrow> feed_client \<Rightarrow> day option \<Rightarrow> feed_error + fx_observation" where
  "fred_ecb_latest api_key fred ecb as_of =
     (case fred_latest api_key fred as_of of
        Inr ob \<Rightarrow> Inr ob
      | Inl (Fx_Fetch_Error m) \<Rightarrow> ecb_latest ecb as_of
      | Inl (Feed_Escaped e) \<Rightarrow> Inl (Feed_Escaped e))"

section \<open>Lemmas\<close>

lemma first_usable_source: "first_usable obs = Inr (Some ob) \<Longrightarrow> \<exists>rate d. ob = usd_inr rate d ''fred''"
  by (induction obs) (auto simp: bind_res_Inr_iff split: if_splits sum.splits)

text \<open>The observation taken is the first whose value and date can be read.\<close>

definition usable :: "json \<Rightarrow> fx_observation option" where
  "usable obs =
     (case (j_get obs ''value'', j_get obs ''date'') of
        (Inr v, Inr t) \<Rightarrow>
          (case (if v \<in> {JNull, JStr [], JStr ''.''} then Inl ValueError else j_decimal v, j_date t) of
             (Inr rate, Inr d) \<Rightarrow> Some (usd_inr rate d ''fred'') | _ \<Rightarrow> None)
      | _ \<Rightarrow> None)"

lemma first_usable_first:
  "list_all (\<lambda>o1. \<exists>kvs. o1 = JObj kvs) obs \<Longrightarrow>
     first_usable obs = Inr (case filter (\<lambda>o1. usable o1 \<noteq> None) obs of [] \<Rightarrow> None | o1 # _ \<Rightarrow> usable o1)"
proof (induction obs)
  case (Cons o1 obs)
  then obtain kvs where o1: "o1 = JObj kvs" by auto
  then show ?case using Cons by (auto simp: usable_def j_get_def j_get_or_def split: sum.splits list.splits)
qed simp

lemma newest_index_source: "newest_index m ts idxs = Inr (Some ob) \<Longrightarrow> \<exists>rate d. ob = usd_inr rate d ''ecb''"
  by (induction idxs) (auto simp: bind_res_Inr_iff split: if_splits sum.splits option.splits)

lemma newest_of_source: "newest_of observations ts = Inr (Some ob) \<Longrightarrow> \<exists>rate d. ob = usd_inr rate d ''ecb''"
  by (cases observations) (auto simp: newest_of_def bind_res_Inr_iff dest: newest_index_source)

lemma ecb_parse_source: "ecb_parse payload = Inr (Some ob) \<Longrightarrow> \<exists>rate d. ob = usd_inr rate d ''ecb''"
  by (auto simp: ecb_parse_def bind_res_Inr_iff Let_def split: if_split_asm option.split_asm dest!: newest_of_source)

lemma fred_source: "fred_latest key client d = Inr ob \<Longrightarrow> \<exists>rate day. ob = usd_inr rate day ''fred''"
  by (auto simp: fred_latest_def bind_res_Inr_iff split: option.splits if_splits json_answer.splits sum.splits dest!: first_usable_source)

lemma ecb_source: "ecb_latest client d = Inr ob \<Longrightarrow> \<exists>rate day. ob = usd_inr rate day ''ecb''"
  by (auto simp: ecb_latest_def split: option.splits if_splits json_answer.splits sum.splits ecb_error.splits dest!: ecb_parse_source)

text \<open>Where no exception escapes, the combination is the one the FX service is modelled with.\<close>

definition fetched_or_message :: "feed_error + fx_observation \<Rightarrow> string + fx_observation" where
  "fetched_or_message x = (case x of Inr ob \<Rightarrow> Inr ob | Inl (Fx_Fetch_Error m) \<Rightarrow> Inl m | Inl (Feed_Escaped e) \<Rightarrow> Inl [])"

lemma combination_refines:
  assumes "\<And>e. fred_latest key fred d \<noteq> Inl (Feed_Escaped e)"
  shows "fetched_or_message (fred_ecb_latest key fred ecb d) =
    get_latest_usd_inr (\<lambda>d. fetched_or_message (fred_latest key fred d)) (\<lambda>d. fetched_or_message (ecb_latest ecb d)) d"
  using assms by (auto simp: fred_ecb_latest_def get_latest_usd_inr_def fetched_or_message_def split: sum.splits feed_error.splits)

section \<open>Properties\<close>

text \<open>FRED is preferred and ECB is the fallback: an observation of FRED is the answer; a missing key, an HTTP
  failure or a status outside 2xx of FRED make ECB the answer. But a successful answer of FRED that is no
  JSON lets a \<open>ValueError\<close> through and ECB is never asked. Every observation is USD/INR at midnight with the
  source that gave it.\<close>

theorem fred_then_ecb:
  "(case fred_ecb_latest key fred ecb d of
      Inr ob \<Rightarrow> ob_base ob = ''USD'' \<and> ob_quote ob = ''INR'' \<and> midnight (date_of (ob_as_of ob)) = ob_as_of ob \<and>
        (ob_source ob = ''fred'' \<and> fred_latest key fred d = Inr ob \<or> ob_source ob = ''ecb'' \<and> ecb_latest ecb d = Inr ob)
    | Inl e \<Rightarrow> \<forall>ob. fred_latest key fred d \<noteq> Inr ob) \<and>
   (fred_ecb_latest None fred ecb d = ecb_latest ecb d) \<and>
   (case fred (fred_params k d) of
      TimedOut exc \<Rightarrow> fred_ecb_latest (Some k) fred ecb d = ecb_latest ecb d
    | TransportError exc \<Rightarrow> fred_ecb_latest (Some k) fred ecb d = ecb_latest ecb d
    | Response status text \<Rightarrow>
        if status < 200 \<or> 300 \<le> status \<or> k = [] then fred_ecb_latest (Some k) fred ecb d = ecb_latest ecb d
        else if json_loads text = None then fred_ecb_latest (Some k) fred ecb d = Inl (Feed_Escaped ValueError) else True)"
proof -
  have "case fred_ecb_latest key fred ecb d of
      Inr ob \<Rightarrow> ob_base ob = ''USD'' \<and> ob_quote ob = ''INR'' \<and> midnight (date_of (ob_as_of ob)) = ob_as_of ob \<and>
        (ob_source ob = ''fred'' \<and> fred_latest key fred d = Inr ob \<or> ob_source ob = ''ecb'' \<and> ecb_latest ecb d = Inr ob)
    | Inl e \<Rightarrow> \<forall>ob. fred_latest key fred d \<noteq> Inr ob"
  proof (cases "fred_latest key fred d")
    case (Inr ob)
    then show ?thesis using fred_source[OF Inr] by (auto simp: fred_ecb_latest_def usd_inr_def)
  next
    case (Inl e)
    then show ?thesis
      by (cases e; cases "ecb_latest ecb d") (auto simp: fred_ecb_latest_def usd_inr_def dest: ecb_source)
  qed
  moreover have "case fred (fred_params k d) of
      TimedOut exc \<Rightarrow> fred_ecb_latest (Some k) fred ecb d = ecb_latest ecb d
    | TransportError exc \<Rightarrow> fred_ecb_latest (Some k) fred ecb d = ecb_latest ecb d
    | Response status text \<Rightarrow>
        if status < 200 \<or> 300 \<le> status \<or> k = [] then fred_ecb_latest (Some k) fred ecb d = ecb_latest ecb d
        else if json_loads text = None then fred_ecb_latest (Some k) fred ecb d = Inl (Feed_Escaped ValueError) else True"
    by (auto simp: fred_ecb_latest_def fred_latest_def request_json_def split: http_outcome.splits option.splits)
  ultimately show ?thesis by (simp add: fred_ecb_latest_def fred_latest_def)
qed

text \<open>A run on documents of both feeds.\<close>

definition fred_page :: json where
  "fred_page = JObj [(''observations'', JArr [JObj [(''date'', JStr ''2026-02-27''), (''value'', JStr ''.'')],
     JObj [(''date'', JStr ''2026-02-26''), (''value'', JStr ''86.1200'')],
     JObj [(''date'', JStr ''2026-02-25''), (''value'', JStr ''86.0'')]])]"

definition ecb_page :: json where
  "ecb_page = JObj [(''dataSets'', JArr [JObj [(''series'', JObj [(''0:0:0:0:0'', JObj [(''observations'',
       JObj [(''0'', JArr [JFloat 85]), (''1'', JArr [JFloat 86]), (''2'', JArr [JNull])])])])]]),
     (''structure'', JObj [(''dimensions'', JObj [(''observation'', JArr [JObj [(''id'', JStr ''TIME_PERIOD''),
       (''values'', JArr [JObj [(''id'', JStr ''2026-02-24'')], JObj [(''id'', JStr ''2026-02-25'')], JObj [(''id'', JStr ''2026-02-26'')]])]])])])]"

lemma feeds_run:
  "bind_res (j_get fred_page ''observations'') (\<lambda>o1. bind_res (j_iter (j_or o1 (JArr []))) first_usable) =
     Inr (Some (usd_inr (Dec 861200 (-4)) 20510 ''fred''))"
  "ecb_parse ecb_page = Inr (Some (usd_inr (Dec 860 (-1)) 20509 ''ecb''))"
  by code_simp+

end
