(* ===== verification/Technical.thy ===== *)
theory Technical
  imports Http Models Redis Engine_Scores
begin

text \<open>
  The technical analysis of an instrument (\<open>analysis/technical.py\<close>): six signals, their composite, the
  cache of the signals in Redis, and the price rows it loads. The moving statistics of pandas are a
  parameter. A float is a rational or \<open>NaN\<close> (\<open>None\<close>); infinities are left out.
\<close>

section \<open>Floats with NaN\<close>

type_synonym fl = "rat option"

text \<open>Arithmetic of NaN is NaN and a comparison with it is false.\<close>

definition fl2 :: "(rat \<Rightarrow> rat \<Rightarrow> rat) \<Rightarrow> fl \<Rightarrow> fl \<Rightarrow> fl" where
  "fl2 f a b = (case (a, b) of (Some x, Some y) \<Rightarrow> Some (f x y) | _ \<Rightarrow> None)"

definition fl_rel :: "(rat \<Rightarrow> rat \<Rightarrow> bool) \<Rightarrow> fl \<Rightarrow> fl \<Rightarrow> bool" where
  "fl_rel P a b = (case (a, b) of (Some x, Some y) \<Rightarrow> P x y | _ \<Rightarrow> False)"

text \<open>A float of Python divided by zero raises.\<close>

definition fl_div :: "fl \<Rightarrow> fl \<Rightarrow> py_error + fl" where
  "fl_div a b = (if b = Some 0 then Inl ArithmeticError else Inr (fl2 fdiv a b))"

text \<open>\<open>max(low, min(high, value))\<close> with Python's order of comparison.\<close>

definition fl_clamp :: "rat \<Rightarrow> rat \<Rightarrow> fl \<Rightarrow> fl" where
  "fl_clamp low high v =
     (let m = (if fl_rel (<) v (Some high) then v else Some high) in if fl_rel (>) m (Some low) then m else Some low)"

section \<open>Constants\<close>

definition MIN_BARS_FOR_ANY_ANALYSIS :: nat where "MIN_BARS_FOR_ANY_ANALYSIS = 30"
definition TECH_CACHE_TTL_SECONDS :: int where "TECH_CACHE_TTL_SECONDS = 300"

definition MIN_BARS :: "(string \<times> nat) list" where
  "MIN_BARS = [(''rsi'', 14), (''macd'', 35), (''ma_alignment'', 200), (''bollinger'', 20), (''volume'', 20), (''atr'', 14)]"

definition TECH_WEIGHTS :: "(string \<times> rat) list" where
  "TECH_WEIGHTS = [(''rsi'', f64 (20 / 100)), (''macd'', f64 (20 / 100)), (''ma_alignment'', f64 (25 / 100)),
     (''bollinger'', f64 (15 / 100)), (''volume'', f64 (10 / 100)), (''atr'', f64 (10 / 100))]"

text \<open>The last threshold of the source is infinity.\<close>

definition ACTION_THRESHOLDS :: "(rat \<times> string) list" where
  "ACTION_THRESHOLDS = [(f64 (-6 / 10), ''strong_sell''), (f64 (-2 / 10), ''sell''), (f64 (2 / 10), ''hold''), (f64 (6 / 10), ''buy'')]"

definition action_for :: "rat \<Rightarrow> string" where
  "action_for score = (case find (\<lambda>(limit, label). score < limit) ACTION_THRESHOLDS of
     Some (limit, label) \<Rightarrow> label | None \<Rightarrow> ''strong_buy'')"

section \<open>Frames\<close>

text \<open>The columns beside the index, and the rows: the index value and the cells.\<close>

record 'c frame =
  fr_columns :: "string list"
  fr_rows :: "(instant \<times> 'c list) list"

text \<open>What pandas computes: a cell as a number (NaN when it is none), the exponential mean by \<open>alpha\<close> with
  \<open>min_periods\<close>, the one by \<open>span\<close>, the rolling mean and the rolling deviation with \<open>ddof=0\<close>.\<close>

record 'c pandas =
  pd_to_numeric :: "'c \<Rightarrow> fl"
  pd_ewm_alpha :: "rat \<Rightarrow> nat \<Rightarrow> fl list \<Rightarrow> fl list"
  pd_ewm_span :: "nat \<Rightarrow> fl list \<Rightarrow> fl list"
  pd_rolling_mean :: "nat \<Rightarrow> fl list \<Rightarrow> fl list"
  pd_rolling_std :: "nat \<Rightarrow> fl list \<Rightarrow> fl list"

definition REQUIRED_COLUMNS :: "string list" where
  "REQUIRED_COLUMNS = [''open'', ''high'', ''low'', ''close'', ''volume'']"

text \<open>\<open>rename\<close> gives the last column of each lower-case name that name. Two columns of one name make
  \<open>to_numeric\<close> raise.\<close>

definition renamed_columns :: "string list \<Rightarrow> string list" where
  "renamed_columns columns =
     (let cols = fold (\<lambda>c. dict_set (str_lower c) c) columns []
      in map (\<lambda>c. if str_lower c \<in> set REQUIRED_COLUMNS \<and> map_of cols (str_lower c) = Some c then str_lower c else c) columns)"

definition column_index :: "string list \<Rightarrow> string \<Rightarrow> nat" where
  "column_index columns c = length (takeWhile (\<lambda>d. d \<noteq> c) columns)"

record bar =
  b_open :: rat
  b_high :: rat
  b_low :: rat
  b_close :: rat
  b_volume :: rat

definition bar_of_cells :: "('c \<Rightarrow> fl) \<Rightarrow> string list \<Rightarrow> 'c list \<Rightarrow> bar option" where
  "bar_of_cells to_numeric columns cells =
     (let cell = (\<lambda>c. to_numeric (cells ! column_index columns c))
      in case (cell ''open'', cell ''high'', cell ''low'', cell ''close'', cell ''volume'') of
           (Some o1, Some h, Some l, Some c, Some v) \<Rightarrow> Some \<lparr>b_open = o1, b_high = h, b_low = l, b_close = c, b_volume = v\<rparr>
         | _ \<Rightarrow> None)"

text \<open>Rows with a missing number are dropped; rows of one index value keep their order here.\<close>

definition ensure_ohlcv :: "'c pandas \<Rightarrow> 'c frame \<Rightarrow> py_error + bar list" where
  "ensure_ohlcv P df =
     (let columns = renamed_columns (fr_columns df)
      in if \<not> set REQUIRED_COLUMNS \<subseteq> str_lower ` set (fr_columns df) then Inl ValueError
         else if list_ex (\<lambda>c. length (filter (\<lambda>d. d = c) columns) \<noteq> 1) REQUIRED_COLUMNS then Inl TypeError
         else Inr (concat (map (\<lambda>(t, cells). case bar_of_cells (pd_to_numeric P) columns cells of None \<Rightarrow> [] | Some b \<Rightarrow> [b])
                (sort_key fst (fr_rows df)))))"

section \<open>The six signals\<close>

text \<open>\<open>iloc[-1]\<close>, \<open>iloc[-2]\<close>, \<open>diff\<close>, \<open>clip\<close> and \<open>shift(1)\<close>.\<close>

definition iloc_back :: "nat \<Rightarrow> 'a list \<Rightarrow> py_error + 'a" where
  "iloc_back k xs = (if length xs < k then Inl IndexError else Inr (xs ! (length xs - k)))"

definition shift1 :: "fl list \<Rightarrow> fl list" where "shift1 xs = (if xs = [] then [] else None # butlast xs)"

definition series_sub :: "fl list \<Rightarrow> fl list \<Rightarrow> fl list" where
  "series_sub xs ys = map (\<lambda>(x, y). fl2 fsub x y) (zip xs ys)"

definition series_diff :: "fl list \<Rightarrow> fl list" where "series_diff xs = series_sub xs (shift1 xs)"

definition rsi_signal :: "'c pandas \<Rightarrow> fl list \<Rightarrow> py_error + fl \<times> fl" where
  "rsi_signal P close =
     (let delta = series_diff close;
          gain = map (map_option (max 0)) delta;
          loss = map (map_option (\<lambda>x. - min 0 x)) delta
      in bind_res (iloc_back 1 (pd_ewm_alpha P (fdiv 1 14) 14 gain)) (\<lambda>latest_gain.
         bind_res (iloc_back 1 (pd_ewm_alpha P (fdiv 1 14) 14 loss)) (\<lambda>latest_loss.
         bind_res
           (if latest_loss = Some 0 \<and> latest_gain = Some 0 then Inr (Some 50)
            else if latest_loss = Some 0 then Inr (Some 100)
            else if latest_gain = Some 0 then Inr (Some 0)
            else bind_res (fl_div latest_gain latest_loss) (\<lambda>rs.
                 bind_res (fl_div (Some 100) (fl2 fadd (Some 1) rs)) (\<lambda>q. Inr (fl2 fsub (Some 100) q))))
           (\<lambda>latest. Inr (fl_clamp (-1) 1 (fl2 fdiv (fl2 fsub (Some 50) latest) (Some 20)), latest)))))"

definition macd_signal :: "'c pandas \<Rightarrow> fl list \<Rightarrow> py_error + fl \<times> fl" where
  "macd_signal P close =
     (let macd = series_sub (pd_ewm_span P 12 close) (pd_ewm_span P 26 close);
          histogram = series_sub macd (pd_ewm_span P 9 macd)
      in bind_res (iloc_back 1 histogram) (\<lambda>latest_hist.
         bind_res (iloc_back 1 close) (\<lambda>latest_close.
         if latest_close = Some 0 then Inr (Some 0, latest_hist)
         else bind_res (fl_div latest_hist (fl2 fmul latest_close (Some (f64 (1 / 100))))) (\<lambda>scaled.
              Inr (fl_clamp (-1) 1 (fl2 fdiv scaled (Some 3)), latest_hist)))))"

definition ma_alignment_signal :: "'c pandas \<Rightarrow> fl list \<Rightarrow> py_error + fl \<times> fl" where
  "ma_alignment_signal P close =
     bind_res (iloc_back 1 (pd_rolling_mean P 20 close)) (\<lambda>sma20.
     bind_res (iloc_back 1 (pd_rolling_mean P 50 close)) (\<lambda>sma50.
     bind_res (iloc_back 1 (pd_rolling_mean P 200 close)) (\<lambda>sma200.
       let cmp = (\<lambda>a b. if fl_rel (>) a b then 1 else - 1 :: rat)
       in Inr (fl_clamp (-1) 1 (Some (fdiv (cmp sma20 sma50 + cmp sma50 sma200 + cmp sma20 sma200) 3)), sma20))))"

definition bollinger_signal :: "'c pandas \<Rightarrow> fl list \<Rightarrow> py_error + fl \<times> fl" where
  "bollinger_signal P close =
     (let ma = pd_rolling_mean P 20 close; sd = pd_rolling_std P 20 close;
          upper = map (\<lambda>(m, s). fl2 fadd m (fl2 fmul (Some 2) s)) (zip ma sd);
          lower = map (\<lambda>(m, s). fl2 fsub m (fl2 fmul (Some 2) s)) (zip ma sd)
      in bind_res (iloc_back 1 close) (\<lambda>latest_close.
         bind_res (iloc_back 1 upper) (\<lambda>latest_upper.
         bind_res (iloc_back 1 lower) (\<lambda>latest_lower.
         if fl_rel (=) latest_upper latest_lower then Inr (Some 0, Some (1 / 2))
         else bind_res (fl_div (fl2 fsub latest_close latest_lower) (fl2 fsub latest_upper latest_lower)) (\<lambda>pct_b.
              Inr (fl_clamp (-1) 1 (fl2 fsub (Some 1) (fl2 fmul (Some 2) pct_b)), pct_b))))))"

definition volume_signal :: "'c pandas \<Rightarrow> fl list \<Rightarrow> fl list \<Rightarrow> py_error + fl \<times> fl" where
  "volume_signal P volume close =
     bind_res (iloc_back 1 (pd_rolling_mean P 20 volume)) (\<lambda>avg_vol.
     bind_res (iloc_back 1 volume) (\<lambda>latest_vol.
     if fl_rel (\<le>) avg_vol (Some 0) then Inr (Some 0, Some 1)
     else bind_res (fl_div latest_vol avg_vol) (\<lambda>rel_vol.
          bind_res (iloc_back 1 close) (\<lambda>c1. bind_res (iloc_back 2 close) (\<lambda>c2.
          let ret = fl2 fsub c1 c2;
              direction = (if fl_rel (>) ret (Some 0) then 1 else if fl_rel (<) ret (Some 0) then - 1 else 0 :: rat);
              magnitude = fl_clamp 0 1 (fl2 fdiv (fl2 fsub rel_vol (Some 1)) (Some 2))
          in Inr (fl_clamp (-1) 1 (fl2 fmul (Some direction) magnitude), rel_vol))))))"

text \<open>The maximum over the columns skips NaN.\<close>

definition fl_max :: "fl \<Rightarrow> fl \<Rightarrow> fl" where
  "fl_max a b = (case (a, b) of (Some x, Some y) \<Rightarrow> Some (max x y) | (Some x, None) \<Rightarrow> a | (None, _) \<Rightarrow> b)"

definition true_range :: "fl list \<Rightarrow> fl list \<Rightarrow> fl list \<Rightarrow> fl list" where
  "true_range high low close =
     map (\<lambda>(h, l, p). fl_max (fl_max (map_option abs (fl2 fsub h l)) (map_option abs (fl2 fsub h p))) (map_option abs (fl2 fsub l p)))
       (zip high (zip low (shift1 close)))"

definition atr_signal :: "'c pandas \<Rightarrow> fl list \<Rightarrow> fl list \<Rightarrow> fl list \<Rightarrow> py_error + fl \<times> fl" where
  "atr_signal P high low close =
     bind_res (iloc_back 1 (pd_ewm_alpha P (fdiv 1 14) 14 (true_range high low close))) (\<lambda>latest_atr.
     bind_res (iloc_back 1 close) (\<lambda>latest_close.
     if latest_close = Some 0 then Inr (Some 0, latest_atr)
     else bind_res (fl_div latest_atr latest_close) (\<lambda>atr_pct.
       let k = f64 (15 / 1000)
       in Inr (if fl_rel (\<le>) atr_pct (Some k)
               then fl_clamp (-1) 1 (fl2 fsub (Some (f64 (3 / 10))) (fl2 fmul (fl2 fdiv atr_pct (Some k)) (Some (f64 (3 / 10)))))
               else fl_clamp (-1) 1 (map_option uminus (fl2 fdiv (fl2 fsub atr_pct (Some k)) (Some k))), atr_pct))))"


section \<open>The analysis\<close>

text \<open>The value and the raw reading of a cached entry are whatever its JSON holds.\<close>

record indicator_result =
  ir_value :: json
  ir_raw :: json
  ir_insufficient :: bool

record technical_analysis =
  ta_rsi :: indicator_result
  ta_macd :: indicator_result
  ta_ma_alignment :: indicator_result
  ta_bollinger :: indicator_result
  ta_volume :: indicator_result
  ta_atr :: indicator_result
  ta_composite_score :: "rat option"
  ta_action :: "string option"
  ta_bars_analyzed :: nat
  ta_insufficient_data_flags :: "string list"

type_synonym results = "(string, indicator_result) dict"

definition insufficient :: indicator_result where
  "insufficient = \<lparr>ir_value = JNull, ir_raw = JNull, ir_insufficient = True\<rparr>"

text \<open>The number a Python value multiplied with a float is; a text, a list or an object raises.\<close>

fun j_number :: "json \<Rightarrow> rat option" where
  "j_number (JFloat x) = Some x"
| "j_number (JInt i) = Some (f64 (of_int i))"
| "j_number (JBool b) = Some (if b then 1 else 0)"
| "j_number _ = None"

definition scored_results :: "results \<Rightarrow> (string \<times> json) list" where
  "scored_results rs = map (\<lambda>(k, r). (k, ir_value r)) (filter (\<lambda>(k, r). \<not> ir_insufficient r \<and> ir_value r \<noteq> JNull) rs)"

definition weight_of :: "string \<Rightarrow> rat" where "weight_of k = dict_get TECH_WEIGHTS k 0"

definition tech_composite :: "results \<Rightarrow> py_error + rat option" where
  "tech_composite rs =
     (let items = scored_results rs
      in if items = [] then Inr None
         else if list_ex (\<lambda>(k, v). j_number v = None) items then Inl TypeError
         else (let total_w = py_fsum (map (\<lambda>(k, v). weight_of k) items);
                   weighted = py_fsum (map (\<lambda>(k, v). fmul (the (j_number v)) (weight_of k)) items)
               in Inr (if 0 < total_w then Some (clamp (-1) 1 (fdiv weighted total_w)) else None)))"

definition analysis_of :: "results \<Rightarrow> nat \<Rightarrow> string list \<Rightarrow> py_error + technical_analysis" where
  "analysis_of rs n flags =
     bind_res (tech_composite rs) (\<lambda>composite.
       let r = (\<lambda>k. dict_get rs k insufficient)
       in Inr \<lparr>ta_rsi = r ''rsi'', ta_macd = r ''macd'', ta_ma_alignment = r ''ma_alignment'', ta_bollinger = r ''bollinger'',
         ta_volume = r ''volume'', ta_atr = r ''atr'', ta_composite_score = composite,
         ta_action = map_option action_for composite, ta_bars_analyzed = n, ta_insufficient_data_flags = flags\<rparr>)"

text \<open>\<open>_calc\<close>: too few bars, an exception and a NaN are all insufficient data.\<close>

definition calc :: "nat \<Rightarrow> string \<Rightarrow> py_error + fl \<times> fl \<Rightarrow> string \<times> indicator_result" where
  "calc n name fn =
     (name,
      if n < dict_get MIN_BARS name 0 then insufficient
      else (case fn of
              Inr (Some signal, Some raw) \<Rightarrow> \<lparr>ir_value = JFloat signal, ir_raw = JFloat raw, ir_insufficient = False\<rparr>
            | _ \<Rightarrow> insufficient))"

definition indicators :: "'c pandas \<Rightarrow> bar list \<Rightarrow> results" where
  "indicators P bars =
     (let n = length bars; close = map (Some \<circ> b_close) bars; high = map (Some \<circ> b_high) bars;
          low = map (Some \<circ> b_low) bars; vol = map (Some \<circ> b_volume) bars
      in [calc n ''rsi'' (rsi_signal P close), calc n ''macd'' (macd_signal P close),
          calc n ''ma_alignment'' (ma_alignment_signal P close), calc n ''bollinger'' (bollinger_signal P close),
          calc n ''volume'' (volume_signal P vol close), calc n ''atr'' (atr_signal P high low close)])"

definition flags_of :: "results \<Rightarrow> string list" where
  "flags_of rs = map fst (filter (\<lambda>(k, r). ir_insufficient r) rs)"

definition analyze_technical :: "'c pandas \<Rightarrow> 'c frame \<Rightarrow> py_error + technical_analysis" where
  "analyze_technical P ohlcv =
     bind_res (ensure_ohlcv P ohlcv) (\<lambda>bars.
       let n = length bars
       in if n < MIN_BARS_FOR_ANY_ANALYSIS then analysis_of (map (\<lambda>(k, m). (k, insufficient)) MIN_BARS) n (map fst MIN_BARS)
          else (let rs = indicators P bars in analysis_of rs n (flags_of rs)))"

section \<open>The cache\<close>

definition tech_cache_key :: "uuid \<Rightarrow> string \<Rightarrow> string" where
  "tech_cache_key instrument_id indicator = ''tech:'' @ instrument_id @ '':'' @ indicator"

text \<open>\<open>json.dumps\<close> of a value.\<close>

fun json_text :: "json \<Rightarrow> string" and json_texts :: "json list \<Rightarrow> string" and json_members :: "(string \<times> json) list \<Rightarrow> string" where
  "json_text JNull = ''null''"
| "json_text (JBool b) = (if b then ''true'' else ''false'')"
| "json_text (JInt i) = int_str i"
| "json_text (JFloat x) = float_str x"
| "json_text (JStr s) = json_quote s"
| "json_text (JArr js) = ''['' @ json_texts js @ '']''"
| "json_text (JObj kvs) = ''{'' @ json_members kvs @ ''}''"
| "json_texts [] = []"
| "json_texts [j] = json_text j"
| "json_texts (j # js) = json_text j @ '', '' @ json_texts js"
| "json_members [] = []"
| "json_members [(k, v)] = json_quote k @ '': '' @ json_text v"
| "json_members ((k, v) # kvs) = json_quote k @ '': '' @ json_text v @ '', '' @ json_members kvs"

definition serialize_indicator :: "indicator_result \<Rightarrow> string" where
  "serialize_indicator r =
     json_text (JObj [(''value'', ir_value r), (''raw'', ir_raw r), (''insufficient_data'', JBool (ir_insufficient r))])"

definition deserialize_indicator :: "string \<Rightarrow> py_error + indicator_result" where
  "deserialize_indicator payload =
     (case json_loads payload of
        None \<Rightarrow> Inl ValueError
      | Some data \<Rightarrow>
          bind_res (j_item data ''value'') (\<lambda>v.
          bind_res (j_item data ''raw'') (\<lambda>w.
          bind_res (j_item data ''insufficient_data'') (\<lambda>i.
            Inr \<lparr>ir_value = v, ir_raw = w, ir_insufficient = truthy i\<rparr>))))"

definition indicator_names :: "string list" where "indicator_names = map fst TECH_WEIGHTS"

definition indicator_of :: "technical_analysis \<Rightarrow> string \<Rightarrow> indicator_result" where
  "indicator_of a name =
     (if name = ''rsi'' then ta_rsi a else if name = ''macd'' then ta_macd a else if name = ''ma_alignment'' then ta_ma_alignment a
      else if name = ''bollinger'' then ta_bollinger a else if name = ''volume'' then ta_volume a else ta_atr a)"

definition cache_indicators :: "'r redis \<Rightarrow> uuid \<Rightarrow> technical_analysis \<Rightarrow> int \<Rightarrow> 'r \<Rightarrow> 'r" where
  "cache_indicators R instrument_id a ttl r =
     fold (\<lambda>name r. if ir_insufficient (indicator_of a name) then r
                    else rd_set R r (tech_cache_key instrument_id name) (serialize_indicator (indicator_of a name)) (Some ttl))
       indicator_names r"

text \<open>Only \<open>ValueError\<close> and \<open>KeyError\<close> are caught.\<close>

fun load_cached :: "'r redis \<Rightarrow> uuid \<Rightarrow> 'r \<Rightarrow> string list \<Rightarrow> py_error + results" where
  "load_cached R instrument_id r [] = Inr []"
| "load_cached R instrument_id r (name # names) =
     (case rd_get R r (tech_cache_key instrument_id name) of
        None \<Rightarrow> load_cached R instrument_id r names
      | Some payload \<Rightarrow>
          (case deserialize_indicator payload of
             Inl e \<Rightarrow> if e \<in> {ValueError, KeyError} then load_cached R instrument_id r names else Inl e
           | Inr x \<Rightarrow> bind_res (load_cached R instrument_id r names) (\<lambda>out. Inr ((name, x) # out))))"

definition load_cached_indicators :: "'r redis \<Rightarrow> uuid \<Rightarrow> 'r \<Rightarrow> py_error + results" where
  "load_cached_indicators R instrument_id r = load_cached R instrument_id r indicator_names"

definition assemble_from_cache :: "'c pandas \<Rightarrow> results \<Rightarrow> 'c frame \<Rightarrow> py_error + technical_analysis" where
  "assemble_from_cache P cached ohlcv =
     bind_res (ensure_ohlcv P ohlcv) (\<lambda>bars. analysis_of cached (length bars) (flags_of cached))"

definition analyze_with_cache ::
  "'r redis \<Rightarrow> 'c pandas \<Rightarrow> uuid \<Rightarrow> 'c frame \<Rightarrow> int \<Rightarrow> 'r \<Rightarrow> (py_error + technical_analysis) \<times> 'r" where
  "analyze_with_cache R P instrument_id ohlcv ttl r =
     (case load_cached_indicators R instrument_id r of
        Inl e \<Rightarrow> (Inl e, r)
      | Inr cached \<Rightarrow>
          if length cached = length TECH_WEIGHTS then (assemble_from_cache P cached ohlcv, r)
          else (case analyze_technical P ohlcv of
                  Inl e \<Rightarrow> (Inl e, r)
                | Inr a \<Rightarrow> (Inr a, cache_indicators R instrument_id a ttl r)))"

section \<open>Loading prices\<close>

text \<open>The newest rows of an instrument, oldest first. The key of the table makes their times distinct.\<close>

definition newest_rows :: "nat \<Rightarrow> uuid \<Rightarrow> price_row list \<Rightarrow> price_row list" where
  "newest_rows bars instrument_id tab =
     take bars (sort_key (\<lambda>p. - ph_timestamp p) (filter (\<lambda>p. ph_instrument p = instrument_id) tab))"

definition load_ohlcv_from_db :: "price_row list \<Rightarrow> uuid \<Rightarrow> nat \<Rightarrow> rat frame" where
  "load_ohlcv_from_db tab instrument_id bars =
     \<lparr>fr_columns = REQUIRED_COLUMNS,
      fr_rows = map (\<lambda>p. (ph_timestamp p, map f64 [ph_open p, ph_high p, ph_low p, ph_close p, of_int (ph_volume p)]))
        (rev (newest_rows bars instrument_id tab))\<rparr>"

definition load_close_series_bulk :: "price_row list \<Rightarrow> uuid list \<Rightarrow> nat \<Rightarrow> uuid \<Rightarrow> (instant \<times> rat) list option" where
  "load_close_series_bulk tab instrument_ids bars i =
     (let rows = (if i \<in> set instrument_ids then newest_rows bars i tab else [])
      in if rows = [] then None else Some (sort_key fst (map (\<lambda>p. (ph_timestamp p, f64 (ph_close p))) rows)))"


section \<open>Every signal is between -1 and 1\<close>

lemma fl_clamp_bounds: "low \<le> high \<Longrightarrow> fl_clamp low high v = Some x \<Longrightarrow> low \<le> x \<and> x \<le> high"
  by (auto simp: fl_clamp_def fl_rel_def Let_def split: if_split_asm option.split_asm)

text \<open>A NaN is clamped to the upper bound: only the check of the raw reading catches it.\<close>

lemma fl_clamp_NaN: "low < high \<Longrightarrow> fl_clamp low high None = Some high"
  by (simp add: fl_clamp_def fl_rel_def)

definition unit_signal :: "py_error + fl \<times> fl \<Rightarrow> bool" where
  "unit_signal x \<longleftrightarrow> (\<forall>s raw. x = Inr (Some s, raw) \<longrightarrow> - 1 \<le> s \<and> s \<le> 1)"

lemma unit_signal_intros [intro!]:
  "unit_signal (Inl e)" "unit_signal (Inr (fl_clamp (-1) 1 v, raw))" "unit_signal (Inr (Some 0, raw))"
  "(\<And>a. unit_signal (f a)) \<Longrightarrow> unit_signal (bind_res x f)"
  using fl_clamp_bounds[of "-1" 1 v] by (cases x; auto simp: unit_signal_def)+

lemma signals_unit:
  "unit_signal (rsi_signal P close)" "unit_signal (macd_signal P close)" "unit_signal (ma_alignment_signal P close)"
  "unit_signal (bollinger_signal P close)" "unit_signal (volume_signal P vol close)" "unit_signal (atr_signal P high low close)"
  by (auto simp: rsi_signal_def macd_signal_def ma_alignment_signal_def bollinger_signal_def volume_signal_def atr_signal_def Let_def)

text \<open>An indicator of an analysis is insufficient and empty, or a number of the unit range.\<close>

definition indicator_ok :: "indicator_result \<Rightarrow> bool" where
  "indicator_ok r \<longleftrightarrow> (if ir_insufficient r then ir_value r = JNull \<and> ir_raw r = JNull
     else (case (ir_value r, ir_raw r) of (JFloat s, JFloat raw) \<Rightarrow> - 1 \<le> s \<and> s \<le> 1 | _ \<Rightarrow> False))"

lemma calc_ok: "unit_signal x \<Longrightarrow> indicator_ok (snd (calc n name x))"
  by (auto simp: calc_def indicator_ok_def insufficient_def unit_signal_def split: sum.splits option.splits)

lemma fst_calc [simp]: "fst (calc n name x) = name"
  by (simp add: calc_def)

lemma calc_short: "n < dict_get MIN_BARS name 0 \<Longrightarrow> snd (calc n name x) = insufficient"
  by (simp add: calc_def)

lemma indicators_names [simp]: "map fst (indicators P bars) = indicator_names"
  by (simp add: indicators_def Let_def indicator_names_def TECH_WEIGHTS_def)

lemma indicators_ok: "list_all (indicator_ok \<circ> snd) (indicators P bars)"
  by (simp add: indicators_def Let_def calc_ok signals_unit)

lemma indicator_names_eq:
  "indicator_names = [''rsi'', ''macd'', ''ma_alignment'', ''bollinger'', ''volume'', ''atr'']"
  by (simp add: indicator_names_def TECH_WEIGHTS_def)

text \<open>The six fields hold the six results.\<close>

lemma six_results:
  assumes "map fst rs = indicator_names"
  obtains a b c d e f where "rs = [(''rsi'', a), (''macd'', b), (''ma_alignment'', c), (''bollinger'', d), (''volume'', e), (''atr'', f)]"
  using assms by (auto simp: indicator_names_eq)

lemma analysis_of_fields:
  assumes "map fst rs = indicator_names" "analysis_of rs n flags = Inr a"
  shows "map (\<lambda>k. (k, indicator_of a k)) indicator_names = rs"
    "tech_composite rs = Inr (ta_composite_score a)" "ta_action a = map_option action_for (ta_composite_score a)"
    "ta_bars_analyzed a = n" "ta_insufficient_data_flags a = flags"
proof -
  show "map (\<lambda>k. (k, indicator_of a k)) indicator_names = rs"
    by (rule six_results[OF assms(1)], use assms(2) in
      \<open>auto simp: analysis_of_def bind_res_Inr_iff indicator_names_eq indicator_of_def dict_get_def\<close>)
qed (use assms(2) in \<open>auto simp: analysis_of_def bind_res_Inr_iff\<close>)

lemma analysis_of_same:
  assumes "map fst rs = indicator_names" "analysis_of rs n flags = Inr a"
  shows "analysis_of rs m flags = Inr (a\<lparr>ta_bars_analyzed := m\<rparr>)"
  using assms by (auto simp: analysis_of_def bind_res_Inr_iff)

section \<open>The composite is a mean of the signals\<close>

lemma weight_of_bounds:
  assumes "k \<in> set indicator_names"
  shows "99 / 1000 \<le> weight_of k" "weight_of k \<le> 26 / 100"
proof -
  have "99 / 1000 \<le> weight_of k \<and> weight_of k \<le> 26 / 100"
    using assms f64_near[of "20 / 100"] f64_near[of "25 / 100"] f64_near[of "15 / 100"] f64_near[of "10 / 100"]
    by (auto simp: indicator_names_eq weight_of_def TECH_WEIGHTS_def dict_get_def)
  then show "99 / 1000 \<le> weight_of k" "weight_of k \<le> 26 / 100" by simp_all
qed


lemma weighted_signals:
  assumes "\<forall>(k, v) \<in> set items. k \<in> set indicator_names \<and> lo \<le> v \<and> v \<le> hi" and "-1 \<le> lo" "hi \<le> (1 :: rat)"
  shows "lo * sum_list (map (\<lambda>(k, v). weight_of k) items) \<le> sum_list (map (\<lambda>(k, v). v * weight_of k) items)"
    "sum_list (map (\<lambda>(k, v). v * weight_of k) items) \<le> hi * sum_list (map (\<lambda>(k, v). weight_of k) items)"
    "\<bar>sum_list (map (\<lambda>(k, v). fmul v (weight_of k)) items) - sum_list (map (\<lambda>(k, v). v * weight_of k) items)\<bar>
       \<le> of_nat (length items) / 2 ^ 46"
    "sum_list (map (\<lambda>(k, v). \<bar>fmul v (weight_of k)\<bar>) items) \<le> of_nat (length items)"
    "sum_list (map (\<lambda>(k, v). weight_of k) items) \<le> of_nat (length items)"
    "99 / 1000 * of_nat (length items) \<le> sum_list (map (\<lambda>(k, v). weight_of k) items)"
proof -
  have one: "lo * weight_of k \<le> v * weight_of k \<and> v * weight_of k \<le> hi * weight_of k \<and> \<bar>v * weight_of k\<bar> \<le> 26 / 100 \<and>
      \<bar>fmul v (weight_of k) - v * weight_of k\<bar> \<le> 1 / 2 ^ 46 \<and> \<bar>fmul v (weight_of k)\<bar> \<le> 1 \<and> weight_of k \<le> 1 \<and> 99 / 1000 \<le> weight_of k"
    if "(k, v) \<in> set items" for k v
  proof -
    have k: "k \<in> set indicator_names" "lo \<le> v" "v \<le> hi" using assms(1) that by auto
    have w: "0 \<le> weight_of k" "weight_of k \<le> 26 / 100" "99 / 1000 \<le> weight_of k" using weight_of_bounds[OF k(1)] by linarith+
    have "\<bar>v * weight_of k\<bar> \<le> 1 * weight_of k"
      unfolding abs_mult using k assms(2,3) w(1) by (intro mult_mono) auto
    then have v: "\<bar>v * weight_of k\<bar> \<le> 26 / 100" using w(2) by linarith
    then have f: "\<bar>fmul v (weight_of k) - v * weight_of k\<bar> \<le> 1 / 2 ^ 46" unfolding fmul_def by (intro f64_close) linarith
    have "(1 :: rat) / 2 ^ 46 \<le> 1 / 2" by simp
    then have "\<bar>fmul v (weight_of k)\<bar> \<le> 1" using f v by linarith
    then show ?thesis using k w v f by (simp add: mult_right_mono)
  qed
  have "lo * sum_list (map (\<lambda>(k, v). weight_of k) xs) \<le> sum_list (map (\<lambda>(k, v). v * weight_of k) xs) \<and>
    sum_list (map (\<lambda>(k, v). v * weight_of k) xs) \<le> hi * sum_list (map (\<lambda>(k, v). weight_of k) xs) \<and>
    \<bar>sum_list (map (\<lambda>(k, v). fmul v (weight_of k)) xs) - sum_list (map (\<lambda>(k, v). v * weight_of k) xs)\<bar>
       \<le> of_nat (length xs) / 2 ^ 46 \<and>
    sum_list (map (\<lambda>(k, v). \<bar>fmul v (weight_of k)\<bar>) xs) \<le> of_nat (length xs) \<and>
    sum_list (map (\<lambda>(k, v). weight_of k) xs) \<le> of_nat (length xs) \<and>
    99 / 1000 * of_nat (length xs) \<le> sum_list (map (\<lambda>(k, v). weight_of k) xs)" if "set xs \<subseteq> set items" for xs
    using that
  proof (induction xs)
    case (Cons x xs)
    obtain k v where x: "x = (k, v)" by (cases x)
    have IH: "set xs \<subseteq> set items" and kv: "(k, v) \<in> set items" using Cons.prems x by auto
    note i = Cons.IH[OF IH] and o1 = one[OF kv]
    show ?case unfolding x list.map prod.case sum_list.Cons length_Cons of_nat_Suc distrib_left add_divide_distrib
      using i o1 by (intro conjI) linarith+
  qed simp
  then show "lo * sum_list (map (\<lambda>(k, v). weight_of k) items) \<le> sum_list (map (\<lambda>(k, v). v * weight_of k) items)"
    "sum_list (map (\<lambda>(k, v). v * weight_of k) items) \<le> hi * sum_list (map (\<lambda>(k, v). weight_of k) items)"
    "\<bar>sum_list (map (\<lambda>(k, v). fmul v (weight_of k)) items) - sum_list (map (\<lambda>(k, v). v * weight_of k) items)\<bar>
       \<le> of_nat (length items) / 2 ^ 46"
    "sum_list (map (\<lambda>(k, v). \<bar>fmul v (weight_of k)\<bar>) items) \<le> of_nat (length items)"
    "sum_list (map (\<lambda>(k, v). weight_of k) items) \<le> of_nat (length items)"
    "99 / 1000 * of_nat (length items) \<le> sum_list (map (\<lambda>(k, v). weight_of k) items)" by blast+
qed

lemma ratio_near:
  assumes "S' \<le> hi * W + e" "\<bar>T - W\<bar> \<le> e" "9 / 100 \<le> T" "-1 \<le> hi" "hi \<le> (1 :: rat)" "0 \<le> e"
  shows "S' / T \<le> hi + 24 * e"
proof -
  have "hi * (W - T) \<le> \<bar>hi\<bar> * \<bar>W - T\<bar>" by (metis abs_ge_self abs_mult)
  also have "\<dots> \<le> 1 * e" using assms by (intro mult_mono) auto
  finally have "S' \<le> hi * T + 2 * e" using assms(1) by (simp add: algebra_simps)
  also have "\<dots> \<le> (hi + 24 * e) * T"
    using mult_left_mono[OF assms(3), of "24 * e"] assms(6) by (simp add: algebra_simps)
  finally show ?thesis using assms(3) by (simp add: divide_le_eq)
qed

lemma mean_near:
  assumes "\<forall>(k, v) \<in> set items. k \<in> set indicator_names \<and> lo \<le> v \<and> v \<le> hi" "-1 \<le> lo" "hi \<le> (1 :: rat)"
    "items \<noteq> []" "length items \<le> 6"
  defines "T \<equiv> py_fsum (map (\<lambda>(k, v). weight_of k) items)" and "S \<equiv> py_fsum (map (\<lambda>(k, v). fmul v (weight_of k)) items)"
  shows "0 < T" "lo - 1 / 10 ^ 9 \<le> fdiv S T" "fdiv S T \<le> hi + 1 / 10 ^ 9"
proof -
  define n :: rat where "n = of_nat (length items)"
  define W where "W = sum_list (map (\<lambda>(k, v). weight_of k) items)"
  define e :: rat where "e = 50 / 2 ^ 46"
  note w = weighted_signals[OF assms(1-3), folded W_def n_def]
  have n: "1 \<le> n" "n \<le> 6" using assms(4,5) by (cases items; simp add: n_def)+
  have e: "(5 * n + 1) / 2 ^ 46 \<le> 31 / 2 ^ 46" "n / 2 ^ 46 \<le> 6 / 2 ^ 46" using n by (simp_all add: divide_right_mono)
  obtain k v where kv: "(k, v) \<in> set items" using assms(4) by (cases items) auto
  then have lohi: "lo \<le> v" "v \<le> hi" using assms(1) by auto
  have pos: "map abs (map (\<lambda>(k, v). weight_of k) items) = map (\<lambda>(k, v). weight_of k) items"
  proof (rule map_idI)
    fix x assume "x \<in> set (map (\<lambda>(k, v). weight_of k) items)"
    then obtain k v where "(k, v) \<in> set items" "x = weight_of k" by auto
    then show "\<bar>x\<bar> = x" using assms(1) weight_of_bounds(1)[of k] by fastforce
  qed
  have six: "(6 :: rat) / 2 ^ 46 \<le> 1" by simp
  have "sum_list (map abs (map (\<lambda>(k, v). weight_of k) items)) + of_nat (length items) / 2 ^ 46 \<le> 101"
    unfolding pos n_def[symmetric] W_def[symmetric] using w(5) n e(2) six by linarith
  from py_fsum_close[of "map (\<lambda>(k, v). weight_of k) items", unfolded length_map, OF this] have "\<bar>T - W\<bar> \<le> (5 * n + 1) / 2 ^ 46"
    using assms(5) by (simp add: T_def W_def n_def)
  then have T: "\<bar>T - W\<bar> \<le> e" using e(1) by (simp add: e_def)
  moreover have "9 / 100 + e \<le> W" using w(6) n(1) by (simp add: e_def)
  ultimately have T9: "9 / 100 \<le> T" by linarith
  then show "0 < T" by linarith
  have abs_map: "map abs (map (\<lambda>(k, v). fmul v (weight_of k)) items) = map (\<lambda>(k, v). \<bar>fmul v (weight_of k)\<bar>) items"
    by (simp add: o_def case_prod_beta)
  have "sum_list (map abs (map (\<lambda>(k, v). fmul v (weight_of k)) items)) + of_nat (length items) / 2 ^ 46 \<le> 101"
    unfolding abs_map n_def[symmetric] using w(4) n e(2) six by linarith
  from py_fsum_close[of "map (\<lambda>(k, v). fmul v (weight_of k)) items", unfolded length_map, OF this]
  have "\<bar>S - sum_list (map (\<lambda>(k, v). fmul v (weight_of k)) items)\<bar> \<le> (5 * n + 1) / 2 ^ 46"
    using assms(5) by (simp add: S_def n_def)
  then have S: "\<bar>S - sum_list (map (\<lambda>(k, v). v * weight_of k) items)\<bar> \<le> e"
    unfolding e_def using w(3) e by linarith
  have e0: "0 \<le> e" by (simp add: e_def)
  have "S \<le> hi * W + e" "- S \<le> - lo * W + e" using S w(1,2) by (simp_all only: mult_minus_left)
  note b = this
  have up: "S / T \<le> hi + 24 * e" by (rule ratio_near[OF b(1) T T9]) (use lohi assms(2,3) e0 in linarith)+
  have "- S / T \<le> - lo + 24 * e" by (rule ratio_near[OF b(2) T T9]) (use lohi assms(2,3) e0 in linarith)+
  then have down: "lo - 24 * e \<le> S / T" by simp
  have e24: "24 * e + 1 / 2 ^ 46 \<le> 1 / 10 ^ 9" by (simp add: e_def)
  then have "\<bar>S / T\<bar> \<le> 127" using up down lohi assms(2,3) by (simp add: abs_le_iff)
  then have "\<bar>fdiv S T - S / T\<bar> \<le> 1 / 2 ^ 46" unfolding fdiv_def by (rule f64_close)
  then show "lo - 1 / 10 ^ 9 \<le> fdiv S T" "fdiv S T \<le> hi + 1 / 10 ^ 9" using up down e24 by linarith+
qed


section \<open>The analysis and its cache\<close>

lemma tech_composite_ok:
  assumes "map fst rs = indicator_names" "list_all (indicator_ok \<circ> snd) rs"
    and "\<forall>r \<in> snd ` set rs. \<forall>v. \<not> ir_insufficient r \<longrightarrow> ir_value r = JFloat v \<longrightarrow> lo \<le> v \<and> v \<le> hi" "-1 \<le> lo" "hi \<le> (1 :: rat)"
  shows "if list_all (ir_insufficient \<circ> snd) rs then tech_composite rs = Inr None
    else \<exists>c. tech_composite rs = Inr (Some c) \<and> - 1 \<le> c \<and> c \<le> 1 \<and> lo - 1 / 10 ^ 9 \<le> c \<and> c \<le> hi + 1 / 10 ^ 9"
proof -
  define num where "num = (\<lambda>(k :: string, v). (k, the (j_number v)))"
  have item: "\<exists>x. v = JFloat x \<and> k \<in> set indicator_names \<and> lo \<le> x \<and> x \<le> hi" if kv: "(k, v) \<in> set (scored_results rs)" for k v
  proof -
    obtain r where r: "(k, r) \<in> set rs" "v = ir_value r" "\<not> ir_insufficient r" using kv by (auto simp: scored_results_def)
    then have "indicator_ok r" using assms(2) by (auto simp: list_all_iff)
    then obtain x where x: "v = JFloat x" using r by (auto simp: indicator_ok_def split: json.splits)
    have "k \<in> fst ` set rs" using r(1) by force
    then have "k \<in> set indicator_names" unfolding assms(1)[symmetric] by simp
    then show ?thesis using assms(3) r x by force
  qed
  have empty: "scored_results rs = [] \<longleftrightarrow> list_all (ir_insufficient \<circ> snd) rs"
    using assms(2) by (fastforce simp: scored_results_def filter_empty_conv list_all_iff indicator_ok_def split: json.splits)
  show ?thesis
  proof (cases "scored_results rs = []")
    case True
    then show ?thesis using empty by (simp add: tech_composite_def)
  next
    case False
    let ?items = "map num (scored_results rs)"
    have len: "length ?items \<le> 6"
      using arg_cong[OF assms(1), of length] length_filter_le[of "\<lambda>(k, r). \<not> ir_insufficient r \<and> ir_value r \<noteq> JNull" rs]
      by (simp add: scored_results_def indicator_names_eq)
    have all: "\<forall>(k, v) \<in> set ?items. k \<in> set indicator_names \<and> lo \<le> v \<and> v \<le> hi"
      using item by (fastforce simp: num_def)
    have nums: "\<not> list_ex (\<lambda>(k, v). j_number v = None) (scored_results rs)" using item by (fastforce simp: list_ex_iff)
    have T: "map (\<lambda>(k, v). weight_of k) ?items = map (\<lambda>(k, v). weight_of k) (scored_results rs)"
      "map (\<lambda>(k, v). fmul v (weight_of k)) ?items = map (\<lambda>(k, v). fmul (the (j_number v)) (weight_of k)) (scored_results rs)"
      by (simp_all add: num_def case_prod_beta)
    note near = mean_near[OF all assms(4,5) _ len, unfolded T]
    define c where "c = fdiv (py_fsum (map (\<lambda>(k, v). fmul (the (j_number v)) (weight_of k)) (scored_results rs)))
      (py_fsum (map (\<lambda>(k, v). weight_of k) (scored_results rs)))"
    have c: "lo - 1 / 10 ^ 9 \<le> c" "c \<le> hi + 1 / 10 ^ 9" "tech_composite rs = Inr (Some (clamp (-1) 1 c))"
      using near False nums by (simp_all add: c_def tech_composite_def Let_def)
    have "lo \<le> hi" using False item by (cases "scored_results rs") fastforce+
    then show ?thesis using False empty c assms(4,5) by (auto simp: clamp_def)
  qed
qed

lemma analyze_technical_cases:
  assumes "analyze_technical P ohlcv = Inr a"
  obtains bars rs where "ensure_ohlcv P ohlcv = Inr bars" "map fst rs = indicator_names" "list_all (indicator_ok \<circ> snd) rs"
    "analysis_of rs (length bars) (flags_of rs) = Inr a"
    "\<forall>(k, r) \<in> set rs. length bars < max MIN_BARS_FOR_ANY_ANALYSIS (dict_get MIN_BARS k 0) \<longrightarrow> r = insufficient"
proof -
  obtain bars where bars: "ensure_ohlcv P ohlcv = Inr bars"
    using assms by (auto simp: analyze_technical_def bind_res_Inr_iff)
  show ?thesis
  proof (cases "length bars < MIN_BARS_FOR_ANY_ANALYSIS")
    case True
    let ?rs = "map (\<lambda>(k :: string, m :: nat). (k, insufficient)) MIN_BARS"
    have "map fst ?rs = indicator_names" "list_all (indicator_ok \<circ> snd) ?rs" "flags_of ?rs = map fst MIN_BARS"
      "\<forall>(k, r) \<in> set ?rs. r = insufficient"
      by (simp_all add: MIN_BARS_def indicator_names_eq indicator_ok_def insufficient_def flags_of_def)
    then show ?thesis using assms bars True
      by (intro that[of bars ?rs]) (auto simp: analyze_technical_def)
  next
    case False
    have "\<forall>(k, r) \<in> set (indicators P bars). length bars < dict_get MIN_BARS k 0 \<longrightarrow> r = insufficient"
      by (auto simp: indicators_def Let_def calc_def)
    then show ?thesis using assms bars False indicators_ok[of P bars]
      by (intro that[of bars "indicators P bars"]) (auto simp: analyze_technical_def Let_def)
  qed
qed


text \<open>The texts of the cached indicators are read back as they were: JSON keeps a float.\<close>

definition json_exact :: "technical_analysis \<Rightarrow> bool" where
  "json_exact a \<longleftrightarrow>
     list_all (\<lambda>k. deserialize_indicator (serialize_indicator (indicator_of a k)) = Inr (indicator_of a k)) indicator_names"

lemma tech_cache_key_inj [simp]: "tech_cache_key i k = tech_cache_key i l \<longleftrightarrow> k = l"
  by (simp add: tech_cache_key_def)

lemma cached_get:
  assumes "redis_kv R"
  shows "rd_get R (fold (\<lambda>name r. if ir_insufficient (indicator_of a name) then r
      else rd_set R r (tech_cache_key i name) (serialize_indicator (indicator_of a name)) (Some ttl)) names r) (tech_cache_key i k) =
    (if k \<in> set names \<and> \<not> ir_insufficient (indicator_of a k) then Some (serialize_indicator (indicator_of a k))
     else rd_get R r (tech_cache_key i k))"
  by (induction names arbitrary: r) (auto simp: redis_get_set[OF assms])

lemma load_after_cache:
  assumes "redis_kv R" "json_exact a" "list_all (\<lambda>k. \<not> ir_insufficient (indicator_of a k)) indicator_names"
    and names: "set names \<subseteq> set indicator_names"
  shows "load_cached R i (cache_indicators R i a ttl r) names = Inr (map (\<lambda>k. (k, indicator_of a k)) names)"
  using names
proof (induction names)
  case (Cons k names)
  then have k: "k \<in> set indicator_names" by simp
  have "rd_get R (cache_indicators R i a ttl r) (tech_cache_key i k) = Some (serialize_indicator (indicator_of a k))"
    unfolding cache_indicators_def cached_get[OF assms(1)] using k assms(3) by (simp add: list_all_iff)
  moreover have "deserialize_indicator (serialize_indicator (indicator_of a k)) = Inr (indicator_of a k)"
    using k assms(2) by (simp add: json_exact_def list_all_iff)
  ultimately show ?case using Cons by simp
qed simp

lemma flags_names: "map fst rs = indicator_names \<Longrightarrow> flags_of rs = [] \<longleftrightarrow> list_all (\<lambda>x. \<not> ir_insufficient (snd x)) rs"
  by (auto simp: flags_of_def filter_empty_conv list_all_iff)

section \<open>Properties\<close>

text \<open>C24. Whatever pandas computes, an analysis is well formed: each of the six indicators is empty and flagged
  as insufficient, or a signal of the range -1 to 1; the flags are exactly the empty ones; an indicator with
  fewer rows than it needs is empty; there is a composite exactly when some indicator is not empty, it lies in
  the range and, up to a billionth, between the bounds of the signals it is the mean of; and the action is the
  one its thresholds give.\<close>

theorem technical_bounded:
  assumes "analyze_technical P ohlcv = Inr a"
    and "\<forall>k \<in> set indicator_names. \<forall>v. ir_value (indicator_of a k) = JFloat v \<longrightarrow> lo \<le> v \<and> v \<le> hi" "-1 \<le> lo" "hi \<le> (1 :: rat)"
  shows "(\<forall>k \<in> set indicator_names. indicator_ok (indicator_of a k) \<and>
      (ta_bars_analyzed a < max MIN_BARS_FOR_ANY_ANALYSIS (dict_get MIN_BARS k 0) \<longrightarrow> indicator_of a k = insufficient)) \<and>
    ta_insufficient_data_flags a = filter (\<lambda>k. ir_insufficient (indicator_of a k)) indicator_names \<and>
    (case ta_composite_score a of
       None \<Rightarrow> ta_insufficient_data_flags a = indicator_names \<and> ta_action a = None
     | Some c \<Rightarrow> ta_insufficient_data_flags a \<noteq> indicator_names \<and> - 1 \<le> c \<and> c \<le> 1 \<and>
         lo - 1 / 10 ^ 9 \<le> c \<and> c \<le> hi + 1 / 10 ^ 9 \<and> ta_action a = Some (action_for c))"
proof -
  obtain bars rs where "ensure_ohlcv P ohlcv = Inr bars" and rs: "map fst rs = indicator_names" "list_all (indicator_ok \<circ> snd) rs"
    "analysis_of rs (length bars) (flags_of rs) = Inr a"
    "\<forall>(k, r) \<in> set rs. length bars < max MIN_BARS_FOR_ANY_ANALYSIS (dict_get MIN_BARS k 0) \<longrightarrow> r = insufficient"
    using assms(1) by (rule analyze_technical_cases) blast
  note a = analysis_of_fields[OF rs(1,3)]
  have fl: "ta_insufficient_data_flags a = filter (\<lambda>k. ir_insufficient (indicator_of a k)) indicator_names"
    unfolding a(5) flags_of_def a(1)[symmetric] by (simp add: filter_map o_def)
  have all: "list_all (ir_insufficient \<circ> snd) rs \<longleftrightarrow> ta_insufficient_data_flags a = indicator_names"
    unfolding fl filter_id_conv a(1)[symmetric] by (auto simp: list_all_iff)
  have six: "\<forall>k \<in> set indicator_names. indicator_ok (indicator_of a k) \<and>
      (ta_bars_analyzed a < max MIN_BARS_FOR_ANY_ANALYSIS (dict_get MIN_BARS k 0) \<longrightarrow> indicator_of a k = insufficient)"
    using rs(2,4) unfolding a(4) a(1)[symmetric] by (auto simp: list_all_iff)
  have "\<forall>r \<in> snd ` set rs. \<forall>v. \<not> ir_insufficient r \<longrightarrow> ir_value r = JFloat v \<longrightarrow> lo \<le> v \<and> v \<le> hi"
    using assms(2) unfolding a(1)[symmetric] by auto
  from tech_composite_ok[OF rs(1,2) this assms(3,4)] show ?thesis
    using fl all six a(2,3) by (auto split: if_splits option.splits)
qed

text \<open>A complete analysis is reused: after a call that found the cache incomplete and flagged nothing, a call
  with any frame answers with the signals, the composite and the action of the first, and only the count of
  rows is the new frame's. So within the five minutes neither newer prices nor another number of rows asked for
  changes the answer.\<close>

theorem cached_analysis_reused:
  assumes kv: "redis_kv R" and first: "analyze_with_cache R P i ohlcv ttl r = (Inr a, r1)"
    and miss: "\<forall>cached. load_cached_indicators R i r = Inr cached \<longrightarrow> length cached < 6"
    and full: "ta_insufficient_data_flags a = []" and exact: "json_exact a"
  shows "analyze_with_cache R P' i ohlcv' ttl' r1 =
    (bind_res (ensure_ohlcv P' ohlcv') (\<lambda>bars. Inr (a\<lparr>ta_bars_analyzed := length bars\<rparr>)), r1)"
proof -
  have W: "length TECH_WEIGHTS = 6" by (simp add: TECH_WEIGHTS_def)
  have a: "analyze_technical P ohlcv = Inr a" "r1 = cache_indicators R i a ttl r"
    using first miss by (auto simp: analyze_with_cache_def W split: sum.splits if_splits)
  obtain bars rs where "ensure_ohlcv P ohlcv = Inr bars" and rs: "map fst rs = indicator_names" "analysis_of rs (length bars) (flags_of rs) = Inr a"
    using a(1) by (rule analyze_technical_cases) blast
  note f = analysis_of_fields[OF rs]
  have ok: "list_all (\<lambda>k. \<not> ir_insufficient (indicator_of a k)) indicator_names"
    using full flags_names[OF rs(1)] unfolding f(5) f(1)[symmetric] by (simp add: list_all_iff)
  have six: "length rs = 6" using arg_cong[OF rs(1), of length] by (simp add: indicator_names_eq)
  have "load_cached_indicators R i r1 = Inr rs"
    unfolding load_cached_indicators_def a(2) using load_after_cache[OF kv exact ok order_refl] f(1) by simp
  then show ?thesis
    using six analysis_of_same[OF rs] by (simp add: analyze_with_cache_def assemble_from_cache_def W)
qed


section \<open>A flat price\<close>

text \<open>On a series of equal values a mean is that value and the deviation is zero.\<close>

definition flat_pandas :: "fl pandas" where
  "flat_pandas = \<lparr>pd_to_numeric = (\<lambda>c. c), pd_ewm_alpha = (\<lambda>a m xs. xs), pd_ewm_span = (\<lambda>s xs. xs),
     pd_rolling_mean = (\<lambda>n xs. xs), pd_rolling_std = (\<lambda>n xs. map (\<lambda>x. Some 0) xs)\<rparr>"

definition flat_frame :: "nat \<Rightarrow> fl frame" where
  "flat_frame n = \<lparr>fr_columns = [''Open'', ''High'', ''Low'', ''Close'', ''Volume''],
     fr_rows = map (\<lambda>i. (int i, replicate 5 (Some 20))) [0..<n]\<rparr>"

definition flat_bar :: bar where "flat_bar = \<lparr>b_open = 20, b_high = 20, b_low = 20, b_close = 20, b_volume = 20\<rparr>"

lemma flat_columns: "renamed_columns [''Open'', ''High'', ''Low'', ''Close'', ''Volume''] = REQUIRED_COLUMNS"
  by code_simp

lemma flat_ensure: "ensure_ohlcv flat_pandas (flat_frame n) = Inr (replicate n flat_bar)"
proof -
  have s: "sort_key fst (map (\<lambda>i. (int i, replicate 5 (Some (20 :: rat)))) [0..<n]) = map (\<lambda>i. (int i, replicate 5 (Some 20))) [0..<n]"
    by (rule sort_key_id_if_sorted) (simp add: o_def sorted_wrt_map)
  have b: "bar_of_cells (\<lambda>c. c) REQUIRED_COLUMNS (replicate 5 (Some 20)) = Some flat_bar" by code_simp
  have c: "set REQUIRED_COLUMNS \<subseteq> str_lower ` set [''Open'', ''High'', ''Low'', ''Close'', ''Volume'']"
    "\<not> list_ex (\<lambda>c. length (filter (\<lambda>d. d = c) REQUIRED_COLUMNS) \<noteq> 1) REQUIRED_COLUMNS"
    by code_simp+
  show ?thesis
    using b c s by (simp add: ensure_ohlcv_def flat_frame_def flat_pandas_def flat_columns o_def map_replicate_const)
qed

lemma iloc_back_1 [simp]: "iloc_back (Suc 0) xs = (if xs = [] then Inl IndexError else Inr (last xs))"
  by (auto simp: iloc_back_def last_conv_nth)

lemma iloc_replicate [simp]: "0 < k \<Longrightarrow> k \<le> n \<Longrightarrow> iloc_back k (replicate n x) = Inr x"
  by (simp add: iloc_back_def)

lemma last_replicate_if [simp]: "0 < n \<Longrightarrow> last (replicate n x) = x"
  by simp

lemma series_replicate [simp]: "series_sub (replicate n x) (replicate n y) = replicate n (fl2 fsub x y)"
  by (simp add: series_sub_def)

lemma fl_simps [simp]:
  "fl2 f (Some x) (Some y) = Some (f x y)" "fl2 f None b = None" "fl2 f a None = None"
  "fl_rel P (Some x) (Some y) = P x y" "fl_max (Some x) (Some y) = Some (max x y)" "fl_max a None = a" "fl_max None b = b"
  by (auto simp: fl2_def fl_rel_def fl_max_def split: option.splits)

lemma shift_replicate [simp]: "shift1 (x # replicate n x) = None # replicate n x"
  by (induction n) (auto simp: shift1_def)

lemma diff_replicate: "series_diff (Some x # replicate n (Some x)) = None # replicate n (Some (fsub x x))"
  by (simp add: series_diff_def series_sub_def)

lemma range_replicate: "true_range (Some x # replicate n (Some x)) (Some x # replicate n (Some x)) (Some x # replicate n (Some x)) =
    Some \<bar>fsub x x\<bar> # replicate n (Some \<bar>fsub x x\<bar>)"
  by (simp add: true_range_def)

lemma flat_numbers:
  "fsub 20 20 = 0" "fsub 0 0 = 0" "fsub 50 50 = 0" "fdiv 0 20 = 0" "fdiv 0 3 = 0" "fdiv (-3) 3 = -1" "fmul 2 0 = 0" "fadd 20 0 = 20" "fsub 20 0 = 20"
  "fdiv 20 20 = 1" "fsub 1 1 = 0" "fdiv 0 2 = 0" "fmul 0 0 = 0" "fdiv 0 (fmul 20 (f64 (1 / 100))) = 0" "fmul 20 (f64 (1 / 100)) \<noteq> 0"
  "fdiv 0 (f64 (3 / 200)) = 0" "fmul 0 (f64 (3 / 10)) = 0" "fsub (f64 (3 / 10)) 0 = f64 (3 / 10)" "0 \<le> f64 (3 / 200)"
  "fl_clamp (-1) 1 (Some (f64 (3 / 10))) = Some (f64 (3 / 10))" "fl_clamp (-1) 1 (Some (-1)) = Some (-1)"
  "fl_clamp (-1) 1 (Some 0) = Some 0" "fl_clamp 0 1 (Some 0) = Some 0"
  by code_simp+

lemma flat_unfold: "replicate (Suc (Suc m)) (Some (20 :: rat)) = Some 20 # replicate (Suc m) (Some 20)" by simp

lemmas flat_eval = flat_pandas_def Let_def flat_numbers fl_div_def map_replicate_const

lemma flat_rsi: "rsi_signal flat_pandas (replicate (Suc (Suc m)) (Some 20)) = Inr (Some 0, Some 50)"
    unfolding rsi_signal_def flat_unfold diff_replicate by (simp add: flat_eval)

lemma flat_macd: "macd_signal flat_pandas (replicate (Suc (Suc m)) (Some 20)) = Inr (Some 0, Some 0)"
     by (simp add: macd_signal_def flat_eval del: replicate_Suc)

lemma flat_ma: "ma_alignment_signal flat_pandas (replicate (Suc (Suc m)) (Some 20)) = Inr (Some (-1), Some 20)"
    by (simp add: ma_alignment_signal_def flat_eval del: replicate_Suc)

lemma flat_bollinger: "bollinger_signal flat_pandas (replicate (Suc (Suc m)) (Some 20)) = Inr (Some 0, Some (1 / 2))"
     by (simp add: bollinger_signal_def flat_eval del: replicate_Suc)

lemma flat_volume: "volume_signal flat_pandas (replicate (Suc (Suc m)) (Some 20)) (replicate (Suc (Suc m)) (Some 20)) = Inr (Some 0, Some 1)"
     by (simp add: volume_signal_def flat_eval del: replicate_Suc)

lemma flat_atr: "atr_signal flat_pandas (replicate (Suc (Suc m)) (Some 20)) (replicate (Suc (Suc m)) (Some 20)) (replicate (Suc (Suc m)) (Some 20)) = Inr (Some (f64 (3 / 10)), Some 0)"
    unfolding atr_signal_def flat_unfold range_replicate by (simp add: flat_eval)


lemmas flat_signals = flat_rsi flat_macd flat_ma flat_bollinger flat_volume flat_atr

definition flat_analysis :: technical_analysis where
  "flat_analysis = (let r = (\<lambda>v raw. \<lparr>ir_value = JFloat v, ir_raw = JFloat raw, ir_insufficient = False\<rparr>)
     in \<lparr>ta_rsi = r 0 50, ta_macd = r 0 0, ta_ma_alignment = r (-1) 20, ta_bollinger = r 0 (1 / 2), ta_volume = r 0 1,
       ta_atr = r (f64 (3 / 10)) 0, ta_composite_score = Some (f64 (- (11 / 50))), ta_action = Some ''sell'',
       ta_bars_analyzed = 200, ta_insufficient_data_flags = []\<rparr>)"

definition flat_results :: results where
  "flat_results = map (\<lambda>k. (k, indicator_of flat_analysis k)) indicator_names"

lemmas flat_fields = flat_results_def indicator_names_eq indicator_of_def flat_analysis_def

lemma flat_200: "replicate 200 x = replicate (Suc (Suc 198)) x"
  by simp

lemma flat_indicators: "indicators flat_pandas (replicate 200 flat_bar) = flat_results"
proof -
  have "map (Some \<circ> g) (replicate 200 flat_bar) = replicate (Suc (Suc 198)) (Some (g flat_bar))" for g :: "bar \<Rightarrow> rat"
    unfolding map_replicate by simp
  moreover have "b_close flat_bar = 20" "b_high flat_bar = 20" "b_low flat_bar = 20" "b_volume flat_bar = 20"
    by (simp_all add: flat_bar_def)
  ultimately show ?thesis
    unfolding indicators_def Let_def length_replicate
    by (simp only: flat_signals) (simp add: calc_def MIN_BARS_def dict_get_def flat_fields)
qed

lemma flat_total: "py_fsum [f64 (1 / 5), f64 (1 / 5), f64 (1 / 4), f64 (3 / 20), f64 (1 / 10), f64 (1 / 10)] = 1"
  by code_simp

lemma flat_sum: "py_fsum [0, 0, fmul (-1) (f64 (1 / 4)), 0, 0, fmul (f64 (3 / 10)) (f64 (1 / 10))] = f64 (- (11 / 50))"
  by code_simp

lemma flat_mean: "clamp (-1) 1 (fdiv (f64 (- (11 / 50))) 1) = f64 (- (11 / 50))"
  by code_simp

lemma fmul_zero [simp]: "fmul 0 x = 0"
  by (simp add: fmul_def)

lemmas flat_sums = flat_total flat_sum flat_mean

text \<open>A price that never moves is rated a sell: equal averages count as falling.\<close>

lemma flat_items: "scored_results flat_results = [(''rsi'', JFloat 0), (''macd'', JFloat 0), (''ma_alignment'', JFloat (-1)),
      (''bollinger'', JFloat 0), (''volume'', JFloat 0), (''atr'', JFloat (f64 (3 / 10)))]"
  by (simp add: scored_results_def flat_fields)

lemma flat_weights: "weight_of ''rsi'' = f64 (20 / 100)" "weight_of ''macd'' = f64 (20 / 100)" "weight_of ''ma_alignment'' = f64 (25 / 100)"
    "weight_of ''bollinger'' = f64 (15 / 100)" "weight_of ''volume'' = f64 (10 / 100)" "weight_of ''atr'' = f64 (10 / 100)"
  by (simp_all add: weight_of_def TECH_WEIGHTS_def dict_get_def)

lemma flat_composite: "tech_composite flat_results = Inr (Some (f64 (- (11 / 50))))"
  unfolding tech_composite_def flat_items Let_def list.map prod.case flat_weights j_number.simps option.sel
  by (simp add: flat_sums del: py_fsum.simps)

lemma flat_action: "action_for (f64 (- (11 / 50))) = ''sell''"
  by code_simp

lemma flat_flags: "flags_of flat_results = []"
  by (simp add: flags_of_def flat_fields)

lemma flat_analyzed: "analyze_technical flat_pandas (flat_frame 200) = Inr flat_analysis"
proof -
  have "analysis_of flat_results 200 (flags_of flat_results) = Inr flat_analysis"
    unfolding analysis_of_def flat_composite flat_flags bind_res_simps option.map flat_action by (simp add: flat_fields dict_get_def)
  then show ?thesis
    unfolding analyze_technical_def flat_ensure bind_res_simps Let_def length_replicate flat_indicators
    by (simp add: MIN_BARS_FOR_ANY_ANALYSIS_def)
qed

lemma flat_exact: "json_exact flat_analysis"
  unfolding json_exact_def by code_simp


section \<open>Witnesses\<close>

theorem technical_bounded_witness:
  "list_all (\<lambda>k. indicator_ok (indicator_of flat_analysis k)) indicator_names \<and>
   (case ta_composite_score flat_analysis of None \<Rightarrow> False
    | Some c \<Rightarrow> - 1 - 1 / 10 ^ 9 \<le> c \<and> c \<le> 1 / 2 + 1 / 10 ^ 9 \<and> ta_action flat_analysis = Some (action_for c))"
proof -
  have "f64 (3 / 10) \<le> 1 / 2" "-1 \<le> f64 (3 / 10)" by code_simp+
  then have v: "\<forall>k \<in> set indicator_names. \<forall>v. ir_value (indicator_of flat_analysis k) = JFloat v \<longrightarrow> - 1 \<le> v \<and> v \<le> 1 / 2"
    by (simp add: flat_fields)
  have c: "ta_composite_score flat_analysis = Some (f64 (- (11 / 50)))" by (simp add: flat_analysis_def)
  show ?thesis using technical_bounded[OF flat_analyzed v] c by (simp add: list_all_iff)
qed

theorem cached_analysis_reused_witness:
  "analyze_with_cache mem_redis flat_pandas ''i'' (flat_frame 30) 300
     (cache_indicators mem_redis ''i'' flat_analysis 300 mem_empty) =
   (Inr (flat_analysis\<lparr>ta_bars_analyzed := 30\<rparr>), cache_indicators mem_redis ''i'' flat_analysis 300 mem_empty)"
proof -
  have miss: "load_cached_indicators mem_redis ''i'' mem_empty = Inr []" by code_simp
  then have first: "analyze_with_cache mem_redis flat_pandas ''i'' (flat_frame 200) 300 mem_empty =
      (Inr flat_analysis, cache_indicators mem_redis ''i'' flat_analysis 300 mem_empty)"
    by (simp add: analyze_with_cache_def flat_analyzed TECH_WEIGHTS_def)
  have "ta_insufficient_data_flags flat_analysis = []" by (simp add: flat_analysis_def)
  from cached_analysis_reused[OF mem_redis_kv first _ this flat_exact, of flat_pandas "flat_frame 30" 300] miss
  show ?thesis by (simp add: flat_ensure)
qed

end
