(* ===== verification/Risk_Series.thy ===== *)
theory Risk_Series
  imports Technical
begin

text \<open>
  The risk panel of one instrument (\<open>analysis/risk.py\<close>: cleaning the closes, log returns, value at risk,
  volatility, drawdown, score) and the correlation helpers (\<open>analysis/correlation.py\<close>). What pandas and
  numpy compute is a parameter; a result that is not finite is \<open>None\<close>.
\<close>

section \<open>The statistics\<close>

record stats =
  st_ffill :: "nat \<Rightarrow> fl list \<Rightarrow> fl list"
  st_log :: "rat \<Rightarrow> fl"
  st_percentile :: "rat \<Rightarrow> rat list \<Rightarrow> rat"
  st_std :: "rat list \<Rightarrow> fl"
  st_sqrt :: "rat \<Rightarrow> rat"
  st_variance :: "rat list \<Rightarrow> rat"
  st_corrcoef :: "rat list \<Rightarrow> rat list \<Rightarrow> fl"
  st_corr :: "fl list \<Rightarrow> fl list \<Rightarrow> fl"

text \<open>What pandas documents of \<open>ffill\<close>: a present value is kept, and a filled one is the last present one.\<close>

definition ffill_ok :: "stats \<Rightarrow> bool" where
  "ffill_ok S \<longleftrightarrow>
     (\<forall>n xs. length (st_ffill S n xs) = length xs) \<and>
     (\<forall>n xs i x. i < length xs \<longrightarrow> xs ! i = Some x \<longrightarrow> st_ffill S n xs ! i = Some x) \<and>
     (\<forall>n xs. set (st_ffill S n xs) \<subseteq> insert None (set xs))"

text \<open>Percentiles of one sample grow with the level.\<close>

definition percentile_ok :: "stats \<Rightarrow> bool" where
  "percentile_ok S \<longleftrightarrow> (\<forall>xs. st_percentile S 1 xs \<le> st_percentile S 5 xs)"

definition corr_ok :: "stats \<Rightarrow> bool" where
  "corr_ok S \<longleftrightarrow> (\<forall>xs ys. st_corr S xs ys = st_corr S ys xs) \<and> (\<forall>xs ys c. st_corr S xs ys = Some c \<longrightarrow> -1 \<le> c \<and> c \<le> 1)"

section \<open>Cleaning\<close>

definition VAR_LOOKBACK :: nat where "VAR_LOOKBACK = 252"
definition VOL_WINDOW_SHORT :: nat where "VOL_WINDOW_SHORT = 30"
definition VOL_WINDOW_LONG :: nat where "VOL_WINDOW_LONG = 90"
definition TRADING_DAYS_PER_YEAR :: rat where "TRADING_DAYS_PER_YEAR = 252"
definition FORWARD_FILL_LIMIT :: nat where "FORWARD_FILL_LIMIT = 5"

record data_quality =
  dq_observations :: int
  dq_forward_filled_days :: int
  dq_excluded :: bool
  dq_notes :: "string list"

definition dropna :: "fl list \<Rightarrow> rat list" where "dropna xs = concat (map (\<lambda>x. case x of None \<Rightarrow> [] | Some v \<Rightarrow> [v]) xs)"

definition isna_count :: "fl list \<Rightarrow> nat" where "isna_count xs = length (filter (\<lambda>x. x = None) xs)"

definition prepare_close_series :: "stats \<Rightarrow> fl list \<Rightarrow> rat list \<times> data_quality" where
  "prepare_close_series S close =
     (if close = [] then ([], \<lparr>dq_observations = 0, dq_forward_filled_days = 0, dq_excluded = False, dq_notes = [''empty'']\<rparr>)
      else (let nan_count_before = isna_count close;
                filled = st_ffill S FORWARD_FILL_LIMIT close;
                excluded = None \<in> set filled;
                cleaned = dropna filled;
                forward_filled = max 0 (int nan_count_before - (int (length close) - int (length cleaned)))
            in (cleaned, \<lparr>dq_observations = int (length cleaned), dq_forward_filled_days = forward_filled, dq_excluded = excluded,
                  dq_notes = (if excluded then [''gap exceeded forward-fill limit of 5 days''] else [])\<rparr>)))"

definition daily_log_returns :: "stats \<Rightarrow> rat list \<Rightarrow> rat list" where
  "daily_log_returns S close = (if close = [] then [] else dropna (series_diff (map (st_log S) close)))"

section \<open>The metrics\<close>

definition tail :: "nat \<Rightarrow> 'a list \<Rightarrow> 'a list" where "tail n xs = drop (length xs - n) xs"

definition var_of :: "stats \<Rightarrow> rat list \<Rightarrow> value_at_risk" where
  "var_of S returns =
     (let windowed = tail VAR_LOOKBACK returns
      in compute_var (int (length returns)) (int (length windowed)) (st_percentile S 5 windowed) (st_percentile S 1 windowed))"

record volatility =
  vo_30d :: "rat option"
  vo_90d :: "rat option"
  vo_estimated :: bool

definition annualised :: "stats \<Rightarrow> rat list \<Rightarrow> rat option" where
  "annualised S xs = map_option (\<lambda>s. fmul s (st_sqrt S TRADING_DAYS_PER_YEAR)) (st_std S xs)"

definition compute_volatility :: "stats \<Rightarrow> rat list \<Rightarrow> volatility" where
  "compute_volatility S returns =
     (let n = length returns
      in if n = 0 then \<lparr>vo_30d = None, vo_90d = None, vo_estimated = False\<rparr>
         else \<lparr>vo_30d = (if 2 \<le> n then annualised S (tail VOL_WINDOW_SHORT returns) else None),
               vo_90d = (if 2 \<le> n then annualised S (tail VOL_WINDOW_LONG returns) else None),
               vo_estimated = (n < VOL_WINDOW_SHORT)\<rparr>)"

record drawdown_panel =
  dr_drawdown :: "rat option"
  dr_peak :: "rat option"
  dr_current :: "rat option"

text \<open>\<open>cummax().iloc[-1]\<close> is the maximum.\<close>

definition drawdown_of :: "rat list \<Rightarrow> drawdown_panel" where
  "drawdown_of close =
     (if close = [] then \<lparr>dr_drawdown = None, dr_peak = None, dr_current = None\<rparr>
      else (let peak = fold max close (hd close); current = last close
            in \<lparr>dr_drawdown = risk_drawdown (Some (peak, current)), dr_peak = Some peak, dr_current = Some current\<rparr>))"

record risk_analysis =
  ra_var :: value_at_risk
  ra_volatility :: volatility
  ra_drawdown :: drawdown_panel
  ra_score :: risk_score
  ra_quality :: data_quality
  ra_bars :: int

definition analyze_risk :: "stats \<Rightarrow> fl list \<Rightarrow> string option \<Rightarrow> risk_analysis" where
  "analyze_risk S close sector =
     (case prepare_close_series S close of (cleaned, quality) \<Rightarrow>
        (let returns = daily_log_returns S cleaned; var = var_of S returns; vol = compute_volatility S returns;
             drawdown = drawdown_of cleaned;
             score = compute_risk_score (int (length returns)) (vo_30d vol) (vo_90d vol) (dr_drawdown drawdown) var sector
         in \<lparr>ra_var = var, ra_volatility = vol, ra_drawdown = drawdown, ra_score = score, ra_quality = quality,
             ra_bars = int (length cleaned)\<rparr>))"

section \<open>Correlation\<close>

definition MAX_PORTFOLIO_SIZE :: nat where "MAX_PORTFOLIO_SIZE = 50"
definition CORR_WINDOW :: nat where "CORR_WINDOW = 90"
definition MIN_OBSERVATIONS :: nat where "MIN_OBSERVATIONS = 30"

text \<open>A series is its index and its values; the index values are distinct.\<close>

type_synonym series = "(instant \<times> fl) list"

definition aligned :: "series \<Rightarrow> series \<Rightarrow> (rat \<times> rat) list" where
  "aligned a b = concat (map (\<lambda>(t, x). case (x, map_of b t) of (Some u, Some (Some v)) \<Rightarrow> [(u, v)] | _ \<Rightarrow> []) a)"

definition compute_correlation :: "stats \<Rightarrow> series \<Rightarrow> series \<Rightarrow> nat \<Rightarrow> fl" where
  "compute_correlation S returns_a returns_b window =
     (if returns_a = [] \<or> returns_b = [] then None
      else (let rows = aligned returns_a returns_b
            in if length rows < MIN_OBSERVATIONS then None
               else (let a = map fst (tail window rows); b = map snd (tail window rows)
                     in if st_variance S a = 0 \<or> st_variance S b = 0 then None else st_corrcoef S a b)))"

record correlation_matrix =
  cm_symbols :: "string list"
  cm_matrix :: "rat list list"
  cm_window_days :: nat
  cm_excluded :: "string list"

text \<open>The rows of the union of the indices, without those where every column is missing.\<close>

definition union_index :: "(string \<times> series) list \<Rightarrow> instant list" where
  "union_index cols =
     filter (\<lambda>t. list_ex (\<lambda>(k, s). \<exists>x \<in> set_option (map_of s t). x \<noteq> None) cols)
       (sorted_list_of_set (set (concat (map (\<lambda>(k, s). map fst s) cols))))"

definition column :: "instant list \<Rightarrow> series \<Rightarrow> fl list" where
  "column ts s = map (\<lambda>t. case map_of s t of Some x \<Rightarrow> x | None \<Rightarrow> None) ts"

definition compute_correlation_matrix :: "stats \<Rightarrow> (string \<times> series) list \<Rightarrow> nat \<Rightarrow> py_error + correlation_matrix" where
  "compute_correlation_matrix S cols window =
     (if cols = [] then Inr \<lparr>cm_symbols = [], cm_matrix = [], cm_window_days = window, cm_excluded = []\<rparr>
      else if MAX_PORTFOLIO_SIZE < length cols then Inl ValueError
      else (let ts = union_index cols;
                enough = (\<lambda>(k, s). \<not> length (dropna (column ts s)) < MIN_OBSERVATIONS);
                kept = filter enough cols; excluded = filter (\<lambda>x. \<not> enough x) cols;
                tails = map (\<lambda>(k, s). tail window (column ts s)) kept
            in Inr \<lparr>cm_symbols = map fst kept,
                 cm_matrix = map (\<lambda>x. map (\<lambda>y. case st_corr S x y of None \<Rightarrow> 0 | Some c \<Rightarrow> c) tails) tails,
                 cm_window_days = window, cm_excluded = map fst excluded\<rparr>))"


section \<open>Lemmas\<close>

lemma dropna_simps [simp]:
  "dropna [] = []" "dropna (None # xs) = dropna xs" "dropna (Some v # xs) = v # dropna xs" "dropna (xs @ ys) = dropna xs @ dropna ys"
  by (simp_all add: dropna_def)

lemma length_dropna: "length (dropna xs) + isna_count xs = length xs"
proof (induction xs)
  case (Cons x xs)
  then show ?case by (cases x) (simp_all add: isna_count_def)
qed (simp add: isna_count_def)

lemma set_dropna: "v \<in> set (dropna xs) \<longleftrightarrow> Some v \<in> set xs"
  by (auto simp: dropna_def split: option.splits)

lemma isna_count_0: "isna_count xs = 0 \<longleftrightarrow> None \<notin> set xs"
proof -
  have "isna_count xs = 0 \<longleftrightarrow> (\<forall>x \<in> set xs. x \<noteq> None)" by (simp add: isna_count_def filter_empty_conv)
  also have "\<dots> \<longleftrightarrow> None \<notin> set xs" by metis
  finally show ?thesis .
qed

text \<open>Filling never loses a present value.\<close>

lemma isna_le:
  "length xs = length ys \<Longrightarrow> (\<And>i. i < length xs \<Longrightarrow> xs ! i \<noteq> None \<Longrightarrow> ys ! i \<noteq> None) \<Longrightarrow> isna_count ys \<le> isna_count xs"
proof (induction xs ys rule: list_induct2)
  case (Cons x xs y ys)
  have "isna_count ys \<le> isna_count xs" using Cons.prems[of "Suc i" for i] by (intro Cons.IH) simp
  moreover have "x \<noteq> None \<Longrightarrow> y \<noteq> None" using Cons.prems[of 0] by simp
  ultimately show ?case by (cases x; cases y) (simp_all add: isna_count_def)
qed (simp add: isna_count_def)

lemma fold_max: "fold max xs a = Max (insert a (set xs))" for a :: rat
  using Max.set_eq_fold[of a xs] by simp

lemma drawdown_range:
  "case dr_drawdown (drawdown_of close) of None \<Rightarrow> close = [] \<or> Max (set close) \<le> 0 | Some d \<Rightarrow> 0 \<le> d \<and> 0 < Max (set close)"
proof (cases "close = []")
  case False
  define m where "m = Max (set close)"
  have "fold max close (hd close) = m" using False by (simp add: fold_max insert_absorb m_def)
  then show ?thesis unfolding m_def[symmetric] using False by (simp add: drawdown_of_def risk_drawdown_def Let_def)
qed (simp add: drawdown_of_def)

lemma var_ordered:
  assumes "percentile_ok S"
  shows "case (vr_95 (var_of S rs), vr_99 (var_of S rs)) of
      (Some a, Some b) \<Rightarrow> 0 \<le> a \<and> a \<le> b \<and> 30 \<le> length rs
    | (None, None) \<Rightarrow> length rs < 30 | _ \<Rightarrow> False"
  using assms by (auto simp: var_of_def compute_var_def percentile_ok_def tail_def VAR_LOOKBACK_def MIN_RETURNS_FOR_VAR_def Let_def
    intro!: max.coboundedI2)

section \<open>Properties\<close>

text \<open>The risk panel is consistent whatever the statistics: the observations are the rows analysed; the days
  reported as forward-filled are exactly those analysed beyond the present closes; the series is excluded from
  correlations exactly when a day had to be dropped (which a missing first day alone does); a value at risk is
  given from 30 returns on, is no gain, and the 99\% one is no smaller; a drawdown is no gain; the score is a
  percentage and a sector proxy exactly below 30 returns.\<close>

theorem risk_panel_consistent:
  assumes "ffill_ok S" "percentile_ok S"
  shows "let a = analyze_risk S close sector; returns = daily_log_returns S (fst (prepare_close_series S close)) in
    dq_observations (ra_quality a) = ra_bars a \<and>
    int (length (dropna close)) \<le> ra_bars a \<and> ra_bars a \<le> int (length close) \<and>
    dq_forward_filled_days (ra_quality a) = ra_bars a - int (length (dropna close)) \<and>
    (dq_excluded (ra_quality a) \<longleftrightarrow> ra_bars a < int (length close)) \<and>
    set (fst (prepare_close_series S close)) \<subseteq> set (dropna close) \<and>
    (case (vr_95 (ra_var a), vr_99 (ra_var a)) of (Some v, Some w) \<Rightarrow> 0 \<le> v \<and> v \<le> w \<and> 30 \<le> length returns
      | (None, None) \<Rightarrow> length returns < 30 | _ \<Rightarrow> False) \<and>
    (case dr_drawdown (ra_drawdown a) of None \<Rightarrow> True | Some d \<Rightarrow> 0 \<le> d) \<and>
    0 \<le> rs_score (ra_score a) \<and> rs_score (ra_score a) \<le> 100 \<and> (rs_proxy (ra_score a) \<longleftrightarrow> length returns < 30) \<and>
    (vo_estimated (ra_volatility a) \<longleftrightarrow> 0 < length returns \<and> length returns < 30)"
proof -
  define a where "a = analyze_risk S close sector"
  define returns where "returns = daily_log_returns S (fst (prepare_close_series S close))"
  define filled where "filled = st_ffill S FORWARD_FILL_LIMIT close"
  obtain cleaned quality where p: "prepare_close_series S close = (cleaned, quality)" by (cases "prepare_close_series S close")
  have ff: "length filled = length close" "\<And>i. i < length close \<Longrightarrow> close ! i \<noteq> None \<Longrightarrow> filled ! i \<noteq> None" "set filled \<subseteq> insert None (set close)"
    using assms(1) by (auto simp: ffill_ok_def filled_def)
  have le: "isna_count filled \<le> isna_count close" using ff(1,2) by (intro isna_le) auto
  note counts = length_dropna[of filled] length_dropna[of close]
  have q: "int (length (dropna close)) \<le> int (length cleaned) \<and> length cleaned \<le> length close \<and> dq_observations quality = int (length cleaned) \<and>
      dq_forward_filled_days quality = int (length cleaned) - int (length (dropna close)) \<and>
      (dq_excluded quality \<longleftrightarrow> length cleaned < length close) \<and> set cleaned \<subseteq> set (dropna close)"
  proof (cases "close = []")
    case False
    have "cleaned = dropna filled" using p False by (auto simp: prepare_close_series_def Let_def filled_def)
    moreover have "None \<in> set filled \<longleftrightarrow> length (dropna filled) < length filled"
      using counts isna_count_0[of filled] by auto
    ultimately show ?thesis
      using p False le counts ff(1,3) by (auto simp: prepare_close_series_def Let_def filled_def[symmetric] set_dropna)
  qed (use p in \<open>auto simp: prepare_close_series_def\<close>)
  have r: "returns = daily_log_returns S cleaned" by (simp add: returns_def p)
  have a: "ra_bars a = int (length cleaned)" "ra_quality a = quality" "ra_var a = var_of S returns"
    "ra_volatility a = compute_volatility S returns" "ra_drawdown a = drawdown_of cleaned"
    "\<exists>v. ra_score a = compute_risk_score (int (length returns)) (vo_30d (compute_volatility S returns))
       (vo_90d (compute_volatility S returns)) (dr_drawdown (drawdown_of cleaned)) v sector"
    by (auto simp: a_def analyze_risk_def p Let_def r)
  have d: "case dr_drawdown (drawdown_of cleaned) of None \<Rightarrow> True | Some d \<Rightarrow> 0 \<le> d"
    using drawdown_range[of cleaned] by (auto split: option.splits)
  have s: "0 \<le> rs_score (ra_score a) \<and> rs_score (ra_score a) \<le> 100 \<and> (rs_proxy (ra_score a) \<longleftrightarrow> length returns < 30)"
    using a(6) by (auto simp: risk_score_percent) (auto simp: compute_risk_score_def MIN_RETURNS_FOR_VAR_def split: if_splits)
  have e: "vo_estimated (compute_volatility S returns) \<longleftrightarrow> 0 < length returns \<and> length returns < 30"
    by (simp add: compute_volatility_def VOL_WINDOW_SHORT_def Let_def)
  show ?thesis
    unfolding Let_def unfolding a_def[symmetric] returns_def[symmetric] a(1-5)
    using q var_ordered[OF assms(2), of returns] d s e by (simp add: p)
qed


section \<open>Forward filling, concretely\<close>

fun ffill :: "nat \<Rightarrow> fl \<Rightarrow> nat \<Rightarrow> fl list \<Rightarrow> fl list" where
  "ffill limit prev run [] = []"
| "ffill limit prev run (None # xs) = (if run < limit then prev else None) # ffill limit prev (Suc run) xs"
| "ffill limit prev run (Some x # xs) = Some x # ffill limit (Some x) 0 xs"

lemma ffill_length [simp]: "length (ffill limit prev run xs) = length xs"
  by (induction limit prev run xs rule: ffill.induct) auto

lemma ffill_keeps: "i < length xs \<Longrightarrow> xs ! i = Some x \<Longrightarrow> ffill limit prev run xs ! i = Some x"
proof (induction limit prev run xs arbitrary: i rule: ffill.induct)
  case (2 limit prev run xs)
  then show ?case by (cases i) auto
next
  case (3 limit prev run y xs)
  then show ?case by (cases i) auto
qed simp

lemma ffill_set: "set (ffill limit prev run xs) \<subseteq> insert None (insert prev (set xs))"
  by (induction limit prev run xs rule: ffill.induct) auto

definition plain_stats :: stats where
  "plain_stats = \<lparr>st_ffill = (\<lambda>n xs. ffill n None 0 xs), st_log = (\<lambda>x. Some x), st_percentile = (\<lambda>p xs. 0), st_std = (\<lambda>xs. None),
     st_sqrt = (\<lambda>x. 15), st_variance = (\<lambda>xs. 0), st_corrcoef = (\<lambda>xs ys. None), st_corr = (\<lambda>xs ys. None)\<rparr>"

lemma plain_stats_ok: "ffill_ok plain_stats" "percentile_ok plain_stats"
  using ffill_keeps ffill_set by (fastforce simp: ffill_ok_def percentile_ok_def plain_stats_def)+

text \<open>A series whose only gap is before its first price is reported as a gap beyond the limit; of a run longer than
  the limit the first days are filled all the same.\<close>

lemma leading_gap:
  "snd (prepare_close_series plain_stats [None, Some 10, Some 11]) =
     \<lparr>dq_observations = 2, dq_forward_filled_days = 0, dq_excluded = True, dq_notes = [''gap exceeded forward-fill limit of 5 days'']\<rparr>"
  "dq_forward_filled_days (snd (prepare_close_series plain_stats (Some 10 # replicate 6 None @ [Some 11]))) = 5"
  by code_simp+

theorem risk_panel_consistent_witness:
  "dq_forward_filled_days (ra_quality (analyze_risk plain_stats [None, Some 10, None, Some 11] None)) =
     ra_bars (analyze_risk plain_stats [None, Some 10, None, Some 11] None) - 2 \<and>
   0 \<le> rs_score (ra_score (analyze_risk plain_stats [None, Some 10, None, Some 11] None))"
  using risk_panel_consistent[OF plain_stats_ok, of "[None, Some 10, None, Some 11]" None] by (simp add: Let_def)

section \<open>Correlation matrices\<close>

text \<open>A matrix is square over the kept symbols, symmetric, with entries from -1 to 1, and every symbol is kept or
  excluded.\<close>

lemma correlation_matrix_shape:
  assumes "corr_ok S" "compute_correlation_matrix S cols window = Inr m"
  shows "length (cm_matrix m) = length (cm_symbols m)" "\<forall>row \<in> set (cm_matrix m). length row = length (cm_symbols m)"
    "\<forall>row \<in> set (cm_matrix m). \<forall>c \<in> set row. -1 \<le> c \<and> c \<le> 1"
    "i < length (cm_symbols m) \<Longrightarrow> j < length (cm_symbols m) \<Longrightarrow> cm_matrix m ! i ! j = cm_matrix m ! j ! i"
    "mset (cm_symbols m @ cm_excluded m) = mset (map fst cols)" "length cols \<le> MAX_PORTFOLIO_SIZE"
proof -
  have parts: "mset (map fst (filter P cols)) + mset (map fst (filter (\<lambda>x. \<not> P x) cols)) = mset (map fst cols)" for P
    by (induction cols) auto
  have "\<exists>P tails. cm_symbols m = map fst (filter P cols) \<and> length tails = length (filter P cols) \<and>
      cm_matrix m = map (\<lambda>x. map (\<lambda>y. case st_corr S x y of None \<Rightarrow> 0 | Some c \<Rightarrow> c) tails) tails \<and>
      cm_excluded m = map fst (filter (\<lambda>x. \<not> P x) cols) \<and> length cols \<le> MAX_PORTFOLIO_SIZE"
  proof (cases "cols = []")
    case True
    then show ?thesis using assms(2) by (intro exI[of _ "\<lambda>x. True"] exI[of _ "[]"]) (auto simp: compute_correlation_matrix_def)
  next
    case False
    let ?P = "\<lambda>(k :: string, s). \<not> length (dropna (column (union_index cols) s)) < MIN_OBSERVATIONS"
    let ?t = "map (\<lambda>(k, s). tail window (column (union_index cols) s)) (filter ?P cols)"
    show ?thesis
      by (rule exI[of _ ?P], rule exI[of _ ?t], use assms(2) False in \<open>auto simp: compute_correlation_matrix_def Let_def split: if_splits\<close>)
  qed
  then obtain P tails where m: "cm_symbols m = map fst (filter P cols)" "length tails = length (filter P cols)"
      "cm_matrix m = map (\<lambda>x. map (\<lambda>y. case st_corr S x y of None \<Rightarrow> 0 | Some c \<Rightarrow> c) tails) tails"
      "cm_excluded m = map fst (filter (\<lambda>x. \<not> P x) cols)" "length cols \<le> MAX_PORTFOLIO_SIZE" by blast
  show "length (cm_matrix m) = length (cm_symbols m)" "\<forall>row \<in> set (cm_matrix m). length row = length (cm_symbols m)"
    "length cols \<le> MAX_PORTFOLIO_SIZE" "mset (cm_symbols m @ cm_excluded m) = mset (map fst cols)"
    using m parts[of P] by auto
  show "cm_matrix m ! i ! j = cm_matrix m ! j ! i" if "i < length (cm_symbols m)" "j < length (cm_symbols m)"
    using m that assms(1) by (simp add: corr_ok_def)
  have "-1 \<le> (case st_corr S x y of None \<Rightarrow> 0 | Some c \<Rightarrow> c) \<and> (case st_corr S x y of None \<Rightarrow> 0 | Some c \<Rightarrow> c) \<le> 1" for x y
    using assms(1) by (auto simp: corr_ok_def split: option.splits)
  then show "\<forall>row \<in> set (cm_matrix m). \<forall>c \<in> set row. -1 \<le> c \<and> c \<le> 1" unfolding m(3) by auto
qed

end
