(* ===== verification/News.thy ===== *)
theory News
  imports Http Redis Sentiment "HOL-Library.Sublist"
begin

text \<open>
  The sources of the sentiment: GNews with its daily budget (\<open>data/gnews.py\<close>), the RSS fallback
  (\<open>data/rss.py\<close>), Reddit (\<open>data/reddit.py\<close>) and FinBERT with its cache (\<open>analysis/finbert.py\<close>). HTTP
  answers, feedparser, PRAW, the FinBERT pipeline, SHA-256 and \<open>datetime.fromisoformat\<close> are arguments.
\<close>

section \<open>GNews\<close>

record news_article =
  na_title :: string
  na_source :: string
  na_url :: string
  na_published :: instant
  na_summary :: string

definition GNEWS_DAILY_BUDGET :: int where "GNEWS_DAILY_BUDGET = 100"

definition gnews_rate_key :: "day \<Rightarrow> string" where "gnews_rate_key today = ''data:gnews:rate:'' @ iso_date today"

definition current_usage :: "'r redis \<Rightarrow> day \<Rightarrow> 'r \<Rightarrow> int" where
  "current_usage R today r =
     (case rd_get R r (gnews_rate_key today) of
        None \<Rightarrow> 0
      | Some raw \<Rightarrow> (case py_int raw of None \<Rightarrow> 0 | Some n \<Rightarrow> n))"

text \<open>INCR of a value that is no integer is an error of Redis (\<open>None\<close>).\<close>

definition bump_usage :: "'r redis \<Rightarrow> day \<Rightarrow> 'r \<Rightarrow> int option \<times> 'r" where
  "bump_usage R today r =
     (case rd_incr R r (gnews_rate_key today) of
        (Some n, r1) \<Rightarrow> (Some n, if n = 1 then rd_expire R r1 (gnews_rate_key today) (60 * 60 * 25) False else r1)
      | (None, r1) \<Rightarrow> (None, r1))"

text \<open>The exceptions below \<open>GNewsUnavailable\<close>, and any other.\<close>

datatype gnews_error = Gnews_Key_Missing | Gnews_Rate_Limit string | Gnews_Unavailable string | Gnews_Escaped py_error | Gnews_Redis_Error

text \<open>A field must be a text; pydantic's refusal is a \<open>ValueError\<close>.\<close>

fun as_text :: "json \<Rightarrow> py_error + string" where
  "as_text (JStr s) = Inr s"
| "as_text _ = Inl ValueError"

text \<open>One article: \<open>None\<close> is one that is skipped, an error is one the \<open>try\<close> does not catch. A date without zone
  counts as UTC.\<close>

definition published_at :: "(string \<Rightarrow> instant option) \<Rightarrow> json \<Rightarrow> py_error + instant" where
  "published_at from_iso raw =
     (case raw of
        JStr s \<Rightarrow> (case from_iso (concat (map (\<lambda>c. if c = CHR ''Z'' then ''+00:00'' else [c]) s)) of None \<Rightarrow> Inl ValueError | Some t \<Rightarrow> Inr t)
      | _ \<Rightarrow> Inl AttributeError)"

definition read_article :: "(string \<Rightarrow> instant option) \<Rightarrow> json \<Rightarrow> py_error + news_article option" where
  "read_article from_iso raw =
     bind_res (j_get raw ''publishedAt'') (\<lambda>published_raw.
     if \<not> truthy published_raw then Inr None
     else bind_res (published_at from_iso published_raw) (\<lambda>published.
     bind_res (j_get raw ''source'') (\<lambda>src. bind_res (j_get (j_or src (JObj [])) ''name'') (\<lambda>name0.
     bind_res (j_get raw ''description'') (\<lambda>desc. bind_res (j_get raw ''content'') (\<lambda>content.
     bind_res (j_get raw ''title'') (\<lambda>title0. bind_res (j_get raw ''url'') (\<lambda>url0.
     let name = j_or name0 (JStr ''unknown''); summary = j_or (j_or desc content) (JStr []);
         title = j_or title0 (JStr []); url = j_or url0 (JStr [])
     in if \<not> truthy title \<or> \<not> truthy url then Inr None
        else bind_res (as_text title) (\<lambda>t. bind_res (as_text name) (\<lambda>n. bind_res (as_text url) (\<lambda>u. bind_res (as_text summary) (\<lambda>s.
          Inr (Some \<lparr>na_title = t, na_source = n, na_url = u, na_published = published, na_summary = s\<rparr>)))))))))))))"

fun parse_articles :: "(string \<Rightarrow> instant option) \<Rightarrow> json list \<Rightarrow> py_error + news_article list" where
  "parse_articles from_iso [] = Inr []"
| "parse_articles from_iso (raw # rest) =
     (case read_article from_iso raw of
        Inl e \<Rightarrow> if e \<in> {TypeError, ValueError} then parse_articles from_iso rest else Inl e
      | Inr None \<Rightarrow> parse_articles from_iso rest
      | Inr (Some a) \<Rightarrow> bind_res (parse_articles from_iso rest) (\<lambda>as. Inr (a # as)))"

definition gnews_params :: "string \<Rightarrow> string \<Rightarrow> int \<Rightarrow> (string \<times> string) list" where
  "gnews_params query key max_results =
     [(''q'', query), (''apikey'', key), (''lang'', ''en''), (''max'', int_str (min max_results 100)), (''sortby'', ''publishedAt'')]"

record gnews =
  gn_key :: "string option"
  gn_budget :: int

text \<open>The request comes after the check of the budget, the count after a successful answer.\<close>

definition gnews_search ::
  "'r redis \<Rightarrow> gnews \<Rightarrow> ((string \<times> string) list \<Rightarrow> http_outcome) \<Rightarrow> (string \<Rightarrow> instant option) \<Rightarrow> day \<Rightarrow> string \<Rightarrow> int \<Rightarrow> 'r
     \<Rightarrow> (gnews_error + news_article list) \<times> 'r" where
  "gnews_search R g client from_iso today query max_results r =
     (case gn_key g of
        None \<Rightarrow> (Inl Gnews_Key_Missing, r)
      | Some key \<Rightarrow>
          if key = [] then (Inl Gnews_Key_Missing, r)
          else (let used = current_usage R today r
                in if gn_budget g \<le> used
                   then (Inl (Gnews_Rate_Limit (''GNews daily budget '' @ int_str (gn_budget g) @ '' exhausted ('' @ int_str used @ '' used)'')), r)
                   else (case request_json (client (gnews_params query key max_results)) of
                           Http_Status s \<Rightarrow>
                             (Inl (if s = 429 then Gnews_Rate_Limit ''GNews returned HTTP 429'' else Gnews_Unavailable ''GNews HTTP error''), r)
                         | Http_Failed exc \<Rightarrow> (Inl (Gnews_Unavailable (''GNews HTTP error: '' @ exc)), r)
                         | Not_Json \<Rightarrow> (Inl (Gnews_Escaped ValueError), r)
                         | Body payload \<Rightarrow>
                             (case bump_usage R today r of
                                (None, r1) \<Rightarrow> (Inl Gnews_Redis_Error, r1)
                              | (Some n, r1) \<Rightarrow>
                                  ((case bind_res (j_get payload ''articles'') (\<lambda>a. bind_res (j_iter (j_or a (JArr []))) (parse_articles from_iso)) of
                                      Inl e \<Rightarrow> Inl (Gnews_Escaped e) | Inr as \<Rightarrow> Inr as), r1)))))"

fun join_or :: "string list \<Rightarrow> string" where
  "join_or [] = []"
| "join_or [s] = s"
| "join_or (s # ss) = s @ '' OR '' @ join_or ss"

definition search_for_symbols ::
  "'r redis \<Rightarrow> gnews \<Rightarrow> ((string \<times> string) list \<Rightarrow> http_outcome) \<Rightarrow> (string \<Rightarrow> instant option) \<Rightarrow> day \<Rightarrow> string list \<Rightarrow> int \<Rightarrow> 'r
     \<Rightarrow> (gnews_error + news_article list) \<times> 'r" where
  "search_for_symbols R g client from_iso today symbols max_results r =
     (if symbols = [] then (Inr [], r)
      else gnews_search R g client from_iso today
             (join_or (map (\<lambda>s. CHR 0x22 # str_upper s @ [CHR 0x22]) symbols)) max_results r)"

definition remaining_budget :: "'r redis \<Rightarrow> gnews \<Rightarrow> day \<Rightarrow> 'r \<Rightarrow> int" where
  "remaining_budget R g today r = max (gn_budget g - current_usage R today r) 0"

section \<open>RSS\<close>

definition DEFAULT_FEEDS :: "string list" where "DEFAULT_FEEDS = [''https://finance.yahoo.com/news/rssindex'']"

definition yahoo_symbol_feed :: "string \<Rightarrow> string" where
  "yahoo_symbol_feed symbol = ''https://feeds.finance.yahoo.com/rss/2.0/headline?s='' @ symbol @ ''&region=US&lang=en-US''"

text \<open>An entry of feedparser; the time is its first six fields. Texts that are missing are empty.\<close>

record rss_entry =
  re_title :: string
  re_link :: string
  re_summary :: string
  re_published :: "(int \<times> int \<times> int \<times> int \<times> int \<times> int) option"
  re_source :: string

definition struct_time :: "int \<times> int \<times> int \<times> int \<times> int \<times> int \<Rightarrow> instant option" where
  "struct_time t =
     (case t of (y, mo, d, h, mi, s) \<Rightarrow>
        if 0 \<le> h \<and> h \<le> 23 \<and> 0 \<le> mi \<and> mi \<le> 59 \<and> 0 \<le> s \<and> s \<le> 59
        then map_option (\<lambda>day. midnight day + ((h * 60 + mi) * 60 + s) * second) (valid_date y mo d) else None)"

definition entry_to_article :: "instant \<Rightarrow> rss_entry \<Rightarrow> news_article option" where
  "entry_to_article now e =
     (if re_title e = [] \<or> re_link e = [] then None
      else Some \<lparr>na_title = re_title e, na_source = (if re_source e = [] then ''rss'' else re_source e), na_url = re_link e,
        na_published = (case re_published e of None \<Rightarrow> now | Some t \<Rightarrow> (case struct_time t of None \<Rightarrow> now | Some i \<Rightarrow> i)),
        na_summary = re_summary e\<rparr>)"

text \<open>\<open>raise_for_status\<close> and a failed request skip the feed.\<close>

definition feed_articles :: "(string \<Rightarrow> http_outcome) \<Rightarrow> (string \<Rightarrow> rss_entry list) \<Rightarrow> instant \<Rightarrow> string \<Rightarrow> news_article list" where
  "feed_articles fetch parse_feed now url =
     (case fetch url of
        Response status text \<Rightarrow>
          if status < 200 \<or> 300 \<le> status then []
          else concat (map (\<lambda>e. case entry_to_article now e of None \<Rightarrow> [] | Some a \<Rightarrow> [a]) (parse_feed text))
      | _ \<Rightarrow> [])"

fun dedupe :: "int \<Rightarrow> string list \<Rightarrow> news_article list \<Rightarrow> news_article list \<Rightarrow> news_article list" where
  "dedupe max_results seen deduped [] = deduped"
| "dedupe max_results seen deduped (a # rest) =
     (if na_url a \<in> set seen then dedupe max_results seen deduped rest
      else if max_results \<le> int (length (deduped @ [a])) then deduped @ [a]
      else dedupe max_results (na_url a # seen) (deduped @ [a]) rest)"

definition fetch_for_symbol ::
  "string list \<Rightarrow> (string \<Rightarrow> http_outcome) \<Rightarrow> (string \<Rightarrow> rss_entry list) \<Rightarrow> instant \<Rightarrow> string \<Rightarrow> int \<Rightarrow> news_article list" where
  "fetch_for_symbol feeds fetch parse_feed now symbol max_results =
     dedupe max_results [] [] (concat (map (feed_articles fetch parse_feed now) (yahoo_symbol_feed (str_upper symbol) # feeds)))"


section \<open>Reddit\<close>

text \<open>An attribute of a submission is any value; a missing one is \<open>None\<close>.\<close>

record submission =
  su_title :: "json option"
  su_selftext :: "json option"
  su_score :: "json option"
  su_created_utc :: "json option"
  su_url :: "json option"

record reddit_post =
  rp_title :: string
  rp_body :: string
  rp_score :: int
  rp_created :: instant
  rp_subreddit :: string
  rp_url :: string

definition DEFAULT_SUBREDDITS :: "string list" where "DEFAULT_SUBREDDITS = [''stocks'', ''wallstreetbets'', ''IndianStreetBets'']"

text \<open>\<open>float(x)\<close> and \<open>datetime.fromtimestamp\<close>: a year outside 1 to 9999 is a \<open>ValueError\<close>, a time no C
  structure can hold another exception. The microseconds are rounded half to even.\<close>

fun j_float :: "json \<Rightarrow> py_error + rat" where
  "j_float (JInt i) = Inr (f64 (of_int i))"
| "j_float (JBool b) = Inr (if b then 1 else 0)"
| "j_float (JFloat x) = Inr x"
| "j_float (JStr s) = (case py_float s of None \<Rightarrow> Inl ValueError | Some x \<Rightarrow> Inr x)"
| "j_float _ = Inl TypeError"

definition from_timestamp :: "rat \<Rightarrow> py_error + instant" where
  "from_timestamp x =
     (let us = round_half_even (x * 10 ^ 6)
      in if \<bar>x\<bar> \<ge> 67768036191676800 then Inl ArithmeticError
         else if us < midnight (day_number 1 1 1) \<or> midnight (day_number 9999 12 31 + 1) \<le> us then Inl ValueError else Inr us)"

definition text_of :: "json option \<Rightarrow> string" where
  "text_of v = (case v of None \<Rightarrow> [] | Some x \<Rightarrow> j_str (j_or x (JStr [])))"

definition read_submission :: "submission \<Rightarrow> string \<Rightarrow> py_error + reddit_post option" where
  "read_submission s subreddit_name =
     bind_res (j_int (case su_score s of None \<Rightarrow> JInt 0 | Some v \<Rightarrow> j_or v (JInt 0))) (\<lambda>score.
     case su_created_utc s of
       None \<Rightarrow> Inr None
     | Some created_utc \<Rightarrow>
         if created_utc = JNull then Inr None
         else bind_res (j_float created_utc) (\<lambda>x. bind_res (from_timestamp x) (\<lambda>created_at.
           if text_of (su_title s) = [] then Inr None
           else Inr (Some \<lparr>rp_title = text_of (su_title s), rp_body = text_of (su_selftext s), rp_score = score, rp_created = created_at,
                  rp_subreddit = subreddit_name, rp_url = text_of (su_url s)\<rparr>))))"

text \<open>\<open>_submission_to_post\<close> answers \<open>None\<close> for the exceptions it catches.\<close>

definition submission_to_post :: "submission \<Rightarrow> string \<Rightarrow> py_error + reddit_post option" where
  "submission_to_post s subreddit_name =
     (case read_submission s subreddit_name of
        Inl e \<Rightarrow> if e \<in> {TypeError, ValueError, AttributeError} then Inr None else Inl e
      | Inr p \<Rightarrow> Inr p)"

text \<open>The posts of one subreddit up to the first exception, which ends only this subreddit. PRAW yields
  submissions and may raise after some of them.\<close>

fun posts_until_error :: "string \<Rightarrow> submission list \<Rightarrow> reddit_post list" where
  "posts_until_error sub [] = []"
| "posts_until_error sub (s # ss) =
     (case submission_to_post s sub of
        Inl e \<Rightarrow> []
      | Inr None \<Rightarrow> posts_until_error sub ss
      | Inr (Some p) \<Rightarrow> p # posts_until_error sub ss)"

definition slice_to :: "int \<Rightarrow> 'a list \<Rightarrow> 'a list" where
  "slice_to limit xs = take (if 0 \<le> limit then nat limit else nat (int (length xs) + limit)) xs"

definition search_all :: "string list \<Rightarrow> (string \<Rightarrow> string \<Rightarrow> int \<Rightarrow> submission list) \<Rightarrow> string \<Rightarrow> int \<Rightarrow> reddit_post list" where
  "search_all subreddits search symbol limit =
     (let per_sub_limit = max (limit div max (int (length subreddits)) 1) 1
      in slice_to limit (concat (map (\<lambda>sub. posts_until_error sub (search sub symbol per_sub_limit)) subreddits)))"

record reddit =
  rc_client_id :: "string option"
  rc_client_secret :: "string option"
  rc_subreddits :: "string list"

text \<open>PRAW: not installed, refusing to build a client, or the search function of the client.\<close>

datatype praw = Praw_Missing | Praw_Refuses string | Praw "string \<Rightarrow> string \<Rightarrow> int \<Rightarrow> submission list"

definition configured :: "string option \<Rightarrow> bool" where "configured s = (case s of None \<Rightarrow> False | Some t \<Rightarrow> t \<noteq> [])"

definition build_reddit :: "reddit \<Rightarrow> praw \<Rightarrow> string + (string \<Rightarrow> string \<Rightarrow> int \<Rightarrow> submission list)" where
  "build_reddit c p =
     (if \<not> configured (rc_client_id c) \<or> \<not> configured (rc_client_secret c)
      then Inl ''REDDIT_CLIENT_ID / REDDIT_CLIENT_SECRET not configured''
      else (case p of
              Praw_Missing \<Rightarrow> Inl ''praw is not installed; run `pip install praw` to enable Reddit sentiment''
            | Praw_Refuses exc \<Rightarrow> Inl (''praw auth failed: '' @ exc)
            | Praw search \<Rightarrow> Inr search))"

text \<open>An error is \<open>RedditUnavailable\<close>.\<close>

definition fetch_posts :: "reddit \<Rightarrow> praw \<Rightarrow> string \<Rightarrow> int \<Rightarrow> string + reddit_post list" where
  "fetch_posts c p symbol limit =
     bind_res (build_reddit c p) (\<lambda>search. Inr (search_all (rc_subreddits c) search symbol limit))"

section \<open>FinBERT\<close>

definition FINBERT_CACHE_TTL_SECONDS :: int where "FINBERT_CACHE_TTL_SECONDS = 24 * 60 * 60"
definition FINBERT_CACHE_PREFIX :: string where "FINBERT_CACHE_PREFIX = ''analysis:finbert:sentiment:''"

definition finbert_key :: "(string \<Rightarrow> string) \<Rightarrow> string \<Rightarrow> string" where
  "finbert_key sha256 text = FINBERT_CACHE_PREFIX @ sha256 text"

fun is_object :: "json \<Rightarrow> bool" where
  "is_object (JObj kvs) = True"
| "is_object _ = False"

text \<open>The items of a prediction are lists of objects, or objects.\<close>

definition flatten_prediction :: "json list \<Rightarrow> json list" where
  "flatten_prediction raw =
     (case raw of
        [] \<Rightarrow> []
      | JArr ds # rest \<Rightarrow> filter is_object ds
      | JObj kvs # rest \<Rightarrow> filter is_object raw
      | _ \<Rightarrow> [])"

fun labels_loop :: "rat \<Rightarrow> rat \<Rightarrow> json list \<Rightarrow> rat \<times> rat" where
  "labels_loop pos neg [] = (pos, neg)"
| "labels_loop pos neg (JObj kvs # rest) =
     (let label = str_lower (j_str (dict_get kvs ''label'' (JStr [])));
          score = (case j_float (dict_get kvs ''score'' (JFloat 0)) of Inl e \<Rightarrow> 0 | Inr x \<Rightarrow> x)
      in if label = ''positive'' then labels_loop score neg rest
         else if label = ''negative'' then labels_loop pos score rest else labels_loop pos neg rest)"
| "labels_loop pos neg (_ # rest) = labels_loop pos neg rest"

definition scalar_from_labels :: "json list \<Rightarrow> rat" where
  "scalar_from_labels labels = (case labels_loop 0 0 labels of (pos, neg) \<Rightarrow> clamp (-1) 1 (fsub pos neg))"

text \<open>The cached text of a score; infinite and NaN entries are left out.\<close>

definition cached_score :: "'r redis \<Rightarrow> (string \<Rightarrow> string) \<Rightarrow> string \<Rightarrow> 'r \<Rightarrow> rat option" where
  "cached_score R sha256 text r = Option.bind (rd_get R r (finbert_key sha256 text)) py_float"

definition put_score :: "'r redis \<Rightarrow> (string \<Rightarrow> string) \<Rightarrow> string \<Rightarrow> rat \<Rightarrow> 'r \<Rightarrow> 'r" where
  "put_score R sha256 text x r = rd_set R r (finbert_key sha256 text) (fixed_str 6 x) (Some FINBERT_CACHE_TTL_SECONDS)"

text \<open>The pipeline gives one item per text; \<open>None\<close> is \<open>FinBertUnavailable\<close> while it is loaded.\<close>

type_synonym pipeline = "(string list \<Rightarrow> json list) option"

datatype finbert_error = FinBertUnavailable | Finbert_ValueError

definition score_text :: "'r redis \<Rightarrow> (string \<Rightarrow> string) \<Rightarrow> pipeline \<Rightarrow> string \<Rightarrow> 'r \<Rightarrow> (finbert_error + rat) \<times> 'r" where
  "score_text R sha256 pipe text0 r =
     (let text = str_strip text0
      in if text = [] then (Inr 0, r)
         else (case cached_score R sha256 text r of
                 Some x \<Rightarrow> (Inr x, r)
               | None \<Rightarrow>
                   (case pipe of
                      None \<Rightarrow> (Inl FinBertUnavailable, r)
                    | Some p \<Rightarrow> (let scalar = scalar_from_labels (flatten_prediction (p [text]))
                                 in (Inr scalar, put_score R sha256 text scalar r)))))"

text \<open>The first pass fills the slots of blank and cached texts and lists the others with their slot.\<close>

definition first_slot :: "'r redis \<Rightarrow> (string \<Rightarrow> string) \<Rightarrow> 'r \<Rightarrow> string \<Rightarrow> rat option" where
  "first_slot R sha256 r raw = (let text = str_strip raw in if text = [] then Some 0 else cached_score R sha256 text r)"

definition first_pass :: "'r redis \<Rightarrow> (string \<Rightarrow> string) \<Rightarrow> 'r \<Rightarrow> string list \<Rightarrow> rat option list \<times> (nat \<times> string) list" where
  "first_pass R sha256 r texts =
     (let results = map (first_slot R sha256 r) texts
      in (results, map (\<lambda>idx. (idx, str_strip (texts ! idx))) (filter (\<lambda>idx. results ! idx = None) [0..<length texts])))"

text \<open>\<open>zip(..., strict=True)\<close> raises after the common prefix.\<close>

fun second_pass ::
  "'r redis \<Rightarrow> (string \<Rightarrow> string) \<Rightarrow> (nat \<times> string) list \<Rightarrow> json list \<Rightarrow> rat option list \<Rightarrow> 'r \<Rightarrow> (finbert_error + rat option list) \<times> 'r" where
  "second_pass R sha256 [] [] results r = (Inr results, r)"
| "second_pass R sha256 ((idx, text) # ts) (item # items) results r =
     (let scalar = scalar_from_labels (flatten_prediction [item])
      in second_pass R sha256 ts items (results[idx := Some scalar]) (put_score R sha256 text scalar r))"
| "second_pass R sha256 _ _ results r = (Inl Finbert_ValueError, r)"

definition score_batch :: "'r redis \<Rightarrow> (string \<Rightarrow> string) \<Rightarrow> pipeline \<Rightarrow> string list \<Rightarrow> 'r \<Rightarrow> (finbert_error + rat list) \<times> 'r" where
  "score_batch R sha256 pipe texts r =
     (if texts = [] then (Inr [], r)
      else (case first_pass R sha256 r texts of (results, to_score) \<Rightarrow>
        let finish = map (\<lambda>x. case x of None \<Rightarrow> 0 | Some v \<Rightarrow> v)
        in if to_score = [] then (Inr (finish results), r)
           else (case pipe of
                   None \<Rightarrow> (Inl FinBertUnavailable, r)
                 | Some p \<Rightarrow>
                     (case second_pass R sha256 to_score (p (map snd to_score)) results r of
                        (Inl e, r1) \<Rightarrow> (Inl e, r1)
                      | (Inr filled, r1) \<Rightarrow> (Inr (finish filled), r1)))))"


section \<open>Lemmas\<close>

subsection \<open>The daily budget\<close>

lemma usage_after_bump:
  assumes "redis_kv R" "bump_usage R today r = (Some n, r1)"
  shows "current_usage R today r1 = current_usage R today r + 1"
  using assms(2) redis_incr_val[OF assms(1), of r "gnews_rate_key today"] redis_get_incr[OF assms(1), of r "gnews_rate_key today"]
  by (auto simp: bump_usage_def current_usage_def counter_value_def redis_get_expire[OF assms(1)] py_int_int_str
    split: prod.splits option.splits if_splits)

lemma usage_after_failed_bump:
  assumes "redis_kv R" "bump_usage R today r = (None, r1)"
  shows "current_usage R today r1 = current_usage R today r"
  using assms(2) redis_incr_val[OF assms(1), of r "gnews_rate_key today"] redis_get_incr[OF assms(1), of r "gnews_rate_key today"]
  by (auto simp: bump_usage_def current_usage_def counter_value_def split: prod.splits option.splits if_splits)

text \<open>Two workers that both read the usage before either counts pass the check at the last request.\<close>

lemma gnews_race:
  assumes "redis_kv R" "current_usage R today r = budget - 1"
    and "bump_usage R today r = (Some n, r1)" "bump_usage R today r1 = (Some m, r2)"
  shows "current_usage R today r2 = budget + 1"
  using usage_after_bump[OF assms(1,3)] usage_after_bump[OF assms(1,4)] assms(2) by simp

text \<open>A successful answer that is no JSON, or an article whose source is a text, raises past the callers that
  catch \<open>GNewsUnavailable\<close>.\<close>

lemma gnews_escapes:
  "parse_articles (\<lambda>s. Some 0) [JObj [(''publishedAt'', JStr ''2026-02-28T00:00:00Z''), (''source'', JStr ''Reuters'')]] = Inl AttributeError"
  by code_simp

subsection \<open>Deduplication\<close>

fun first_of_url :: "string list \<Rightarrow> news_article list \<Rightarrow> news_article list" where
  "first_of_url seen [] = []"
| "first_of_url seen (a # rest) =
     (if na_url a \<in> set seen then first_of_url seen rest else a # first_of_url (na_url a # seen) rest)"

lemma dedupe_first:
  "dedupe n seen acc xs = acc @ take (if n \<le> int (length acc) + 1 then 1 else nat (n - int (length acc))) (first_of_url seen xs)"
proof (induction n seen acc xs rule: dedupe.induct)
  case (2 n seen acc a rest)
  show ?case
  proof (cases "na_url a \<in> set seen \<or> n \<le> int (length acc) + 1")
    case True
    then show ?thesis using 2(1) by auto
  next
    case False
    then have "nat (n - int (length acc)) = Suc (if n \<le> int (length (acc @ [a])) + 1 then 1 else nat (n - int (length (acc @ [a]))))"
      by (auto simp: nat_eq_iff)
    then show ?thesis using 2(2) False by auto
  qed
qed simp

lemma first_of_url_fresh: "set (map na_url (first_of_url seen xs)) \<inter> set seen = {}"
  by (induction xs arbitrary: seen) force+

lemma first_of_url_distinct: "distinct (map na_url (first_of_url seen xs))"
proof (induction xs arbitrary: seen)
  case (Cons a xs)
  then show ?case using first_of_url_fresh[of "na_url a # seen" xs] by auto
qed simp

lemma first_of_url_subseq: "subseq (first_of_url seen xs) xs"
  by (induction xs arbitrary: seen) (auto intro: subseq_Cons')

lemma first_of_url_all: "na_url ` set (first_of_url seen xs) = na_url ` set xs - set seen"
  by (induction xs arbitrary: seen) auto

subsection \<open>Texts of scores\<close>

lemma parse_digits_total: "\<forall>c \<in> set s. is_digit c \<Longrightarrow> parse_digits a s \<noteq> None"
  by (induction s arbitrary: a) (auto simp: is_digit_def)

lemma digit_chars: "is_digit c \<Longrightarrow> \<not> is_space c \<and> c \<notin> {CHR ''.'', CHR ''e'', CHR ''E'', CHR ''-'', CHR ''+''}"
proof -
  assume "is_digit c"
  then have "c \<in> set ''0123456789''" by (auto simp: is_digit_def digit_val_def split: if_splits)
  moreover have "list_all (\<lambda>c. \<not> is_space c \<and> c \<notin> {CHR ''.'', CHR ''e'', CHR ''E'', CHR ''-'', CHR ''+''}) ''0123456789''" by code_simp
  ultimately show ?thesis unfolding list_all_iff by blast
qed

lemma is_digit_zero: "is_digit (CHR ''0'')"
  by code_simp

lemma float_mantissa_digits:
  assumes "\<forall>c \<in> set a. is_digit c" "\<forall>c \<in> set b. is_digit c" "a \<noteq> []"
  shows "float_mantissa (a @ CHR ''.'' # b) \<noteq> None"
proof -
  have "takeWhile (\<lambda>c. c \<noteq> CHR ''.'') (a @ CHR ''.'' # b) = a"
    using assms(1) digit_chars by (auto simp: takeWhile_append)
  then show ?thesis
    using parse_digits_total[OF assms(1), of 0] parse_digits_total[OF assms(2), of 0] assms(3)
    by (auto simp: float_mantissa_def Let_def split: option.splits)
qed

lemma py_float_fixed: "0 < n \<Longrightarrow> py_float (fixed_str n x) \<noteq> None"
proof -
  assume n: "0 < n"
  define ds where "ds = nat_str (nat \<bar>round_half_even (x * 10 ^ n)\<bar>)"
  define p where "p = replicate (n + 1 - length ds) CHR ''0'' @ ds"
  define a where "a = take (length p - n) p"
  define b where "b = drop (length p - n) p"
  have p: "\<forall>c \<in> set p. is_digit c" "n < length p"
    using nat_str_digits is_digit_zero by (auto simp: p_def ds_def)
  then have ab: "\<forall>c \<in> set a. is_digit c" "\<forall>c \<in> set b. is_digit c" "a \<noteq> []" "b \<noteq> []"
    using n by (auto simp: a_def b_def dest: in_set_takeD in_set_dropD)
  define u where "u = a @ CHR ''.'' # b"
  have s: "fixed_str n x = (if x < 0 then ''-'' else []) @ u"
    using n by (simp add: fixed_str_def Let_def u_def a_def b_def p_def ds_def)
  have ends: "hd u = hd a" "last u = last b" using ab by (simp_all add: u_def)
  have da: "is_digit (hd a)" "is_digit (last b)" using ab hd_in_set last_in_set by blast+
  have minus: "\<not> is_space (CHR ''-'')" by code_simp
  have u: "u \<noteq> []" by (simp add: u_def)
  have "hd (fixed_str n x) \<in> {CHR ''-'', hd a}" "last (fixed_str n x) = last b" "fixed_str n x \<noteq> []"
    using u ends by (simp_all add: s)
  then have st: "str_strip (fixed_str n x) = fixed_str n x"
    using digit_chars[OF da(1)] digit_chars[OF da(2)] minus by (intro str_strip_id) auto
  have tw: "takeWhile (\<lambda>c. c \<noteq> CHR ''e'' \<and> c \<noteq> CHR ''E'') u = u"
    using ab digit_chars by (auto simp: u_def takeWhile_eq_all_conv)
  have hd: "hd u \<noteq> CHR ''-''" "hd u \<noteq> CHR ''+''" using digit_chars[OF da(1)] ends by simp_all
  obtain v where v: "float_mantissa u = Some v" using float_mantissa_digits[OF ab(1-3), folded u_def] by blast
  show ?thesis
    unfolding py_float_def st Let_def by (cases "x < 0") (simp_all add: s u hd tw v)
qed


subsection \<open>The cache of scores\<close>

lemma put_score_get:
  assumes "redis_kv R"
  shows "cached_score R h t (put_score R h u x r) = (if finbert_key h t = finbert_key h u then py_float (fixed_str 6 x) else cached_score R h t r)"
  by (simp add: cached_score_def put_score_def redis_get_set[OF assms])

text \<open>Once a text has a readable entry it keeps one, and every text of the second pass gets one.\<close>

lemma put_score_keeps:
  assumes "redis_kv R"
  shows "cached_score R h t r \<noteq> None \<Longrightarrow> cached_score R h t (put_score R h u x r) \<noteq> None"
    and "cached_score R h u (put_score R h u x r) \<noteq> None"
  using py_float_fixed[of 6 x] by (auto simp: put_score_get[OF assms])

lemma second_pass_cached:
  assumes "redis_kv R" "second_pass R h todo items results r = (Inr filled, r1)"
  shows "(\<forall>t. t \<in> snd ` set todo \<or> cached_score R h t r \<noteq> None \<longrightarrow> cached_score R h t r1 \<noteq> None) \<and> length filled = length results \<and>
    (\<forall>i x. filled ! i = Some x \<longrightarrow> i < length results \<longrightarrow> results ! i = Some x \<or> -1 \<le> x \<and> x \<le> 1)"
  using assms(2)
proof (induction todo arbitrary: items results r)
  case Nil
  then show ?case by (cases items) auto
next
  case (Cons td ts)
  obtain idx t0 where td: "td = (idx, t0)" by (cases td)
  obtain item rest where items: "items = item # rest" using Cons.prems td by (cases items) auto
  define x where "x = scalar_from_labels (flatten_prediction [item])"
  have x: "-1 \<le> x" "x \<le> 1" by (simp_all add: x_def scalar_from_labels_def clamp_bounds split: prod.splits)
  have "second_pass R h ts rest (results[idx := Some x]) (put_score R h t0 x r) = (Inr filled, r1)"
    using Cons.prems by (simp add: td items x_def Let_def)
  note IH = Cons.IH[OF this]
  have k: "cached_score R h t r1 \<noteq> None" if "t \<in> snd ` set ts \<or> cached_score R h t (put_score R h t0 x r) \<noteq> None" for t
    using conjunct1[OF IH] that by blast
  have c: "cached_score R h t r1 \<noteq> None" if "t \<in> snd ` set (td # ts) \<or> cached_score R h t r \<noteq> None" for t
  proof (cases "t = t0")
    case True
    then show ?thesis using k[of t0] put_score_keeps(2)[OF assms(1)] by blast
  next
    case False
    then have "t \<in> snd ` set ts \<or> cached_score R h t r \<noteq> None" using that td by auto
    then show ?thesis using k[of t] put_score_keeps(1)[OF assms(1), of h t r t0 x] by blast
  qed
  have len: "length filled = length results" using IH by simp
  have "results ! i = Some y \<or> -1 \<le> y \<and> y \<le> 1" if i: "filled ! i = Some y" "i < length results" for i y
  proof -
    have "(results[idx := Some x]) ! i = Some y \<or> -1 \<le> y \<and> y \<le> 1"
      using conjunct2[OF conjunct2[OF IH], THEN spec, THEN spec, THEN mp, OF i(1)] i(2) by simp
    then show ?thesis using x i(2) by (cases "i = idx") auto
  qed
  with c len show ?case by blast
qed

lemma second_pass_others:
  "second_pass R h todo items results r = (Inr filled, r1) \<Longrightarrow> \<forall>i. i \<notin> fst ` set todo \<longrightarrow> filled ! i = results ! i"
proof (induction todo arbitrary: items results r)
  case Nil
  then show ?case by (cases items) auto
next
  case (Cons td ts)
  then show ?case by (cases td; cases items) (fastforce simp: Let_def)+
qed

lemma first_pass_todo: "t \<in> snd ` set (snd (first_pass R h r texts)) \<longleftrightarrow>
    (\<exists>raw \<in> set texts. t = str_strip raw \<and> t \<noteq> [] \<and> cached_score R h t r = None)"
  by (force simp: first_pass_def Let_def first_slot_def in_set_conv_nth split: if_splits)

section \<open>Properties\<close>

text \<open>A day of searches, one after the other.\<close>

fun search_day ::
  "'r redis \<Rightarrow> gnews \<Rightarrow> (string \<Rightarrow> instant option) \<Rightarrow> day \<Rightarrow> (((string \<times> string) list \<Rightarrow> http_outcome) \<times> string \<times> int) list \<Rightarrow> 'r
     \<Rightarrow> (gnews_error + news_article list) list \<times> 'r" where
  "search_day R g from_iso today [] r = ([], r)"
| "search_day R g from_iso today ((client, query, n) # calls) r =
     (case gnews_search R g client from_iso today query n r of (x, r1) \<Rightarrow>
        (case search_day R g from_iso today calls r1 of (xs, r2) \<Rightarrow> (x # xs, r2)))"

fun answered :: "gnews_error + news_article list \<Rightarrow> bool" where
  "answered (Inr as) = True"
| "answered _ = False"

lemma gnews_search_usage:
  assumes "redis_kv R" "gnews_search R g client from_iso today query n r = (x, r1)"
  shows "current_usage R today r1 = current_usage R today r \<or>
      current_usage R today r1 = current_usage R today r + 1 \<and> current_usage R today r < gn_budget g"
    "answered x \<Longrightarrow> current_usage R today r1 = current_usage R today r + 1 \<and> current_usage R today r < gn_budget g"
proof -
  have "(current_usage R today r1 = current_usage R today r \<and> \<not> answered x) \<or>
      current_usage R today r1 = current_usage R today r + 1 \<and> current_usage R today r < gn_budget g"
  proof (cases "\<exists>key payload. gn_key g = Some key \<and> key \<noteq> [] \<and> current_usage R today r < gn_budget g \<and>
      request_json (client (gnews_params query key n)) = Body payload")
    case True
    obtain c r2 where b: "bump_usage R today r = (c, r2)" by (cases "bump_usage R today r")
    have "r2 = r1" "c = None \<Longrightarrow> \<not> answered x"
      using True assms(2) b by (auto simp: gnews_search_def Let_def split: option.splits)
    then show ?thesis
      using True b usage_after_bump[OF assms(1), of today r] usage_after_failed_bump[OF assms(1), of today r] by (cases c) auto
  next
    case False
    then show ?thesis
      using assms(2) by (cases "gn_key g"; cases "request_json (client (gnews_params query (the (gn_key g)) n))")
        (auto simp: gnews_search_def Let_def split: if_split_asm)
  qed
  then show "current_usage R today r1 = current_usage R today r \<or>
      current_usage R today r1 = current_usage R today r + 1 \<and> current_usage R today r < gn_budget g"
    "answered x \<Longrightarrow> current_usage R today r1 = current_usage R today r + 1 \<and> current_usage R today r < gn_budget g" by auto
qed

text \<open>C25. Whatever GNews answers over a day of searches made one after the other, the recorded usage never passes
  the budget (unless it already had), and no more searches are answered than the budget has left; once it is
  used up a search is refused without asking GNews.\<close>

theorem gnews_budget_kept:
  assumes "redis_kv R" "search_day R g from_iso today calls r = (xs, r1)"
  shows "current_usage R today r \<le> current_usage R today r1 \<and>
    current_usage R today r1 \<le> max (current_usage R today r) (gn_budget g) \<and>
    int (length (filter answered xs)) \<le> current_usage R today r1 - current_usage R today r \<and>
    (gn_budget g \<le> current_usage R today r1 \<longrightarrow> \<not> answered (fst (gnews_search R g client from_iso today q n r1)) \<and>
       gnews_search R g client from_iso today q n r1 = gnews_search R g client' from_iso today q n r1)"
proof -
  have "current_usage R today r \<le> current_usage R today r1 \<and>
    current_usage R today r1 \<le> max (current_usage R today r) (gn_budget g) \<and>
    int (length (filter answered xs)) \<le> current_usage R today r1 - current_usage R today r"
    using assms(2)
  proof (induction calls arbitrary: r xs)
    case (Cons c calls)
    obtain client query n where c: "c = (client, query, n)" by (cases c)
    obtain x r2 ys where x: "gnews_search R g client from_iso today query n r = (x, r2)"
      "search_day R g from_iso today calls r2 = (ys, r1)" "xs = x # ys"
      using Cons.prems unfolding c by (auto split: prod.splits)
    show ?case using Cons.IH[OF x(2)] gnews_search_usage[OF assms(1) x(1)] x(3) by (cases "answered x") auto
  qed simp
  then show ?thesis by (auto simp: gnews_search_def Let_def split: option.splits)
qed

text \<open>The RSS fallback answers articles of its feeds in their order, each address once, and all addresses unless
  the limit is reached; a limit below one still lets one article through.\<close>

theorem rss_deduped:
  "let found = concat (map (feed_articles fetch parse_feed now) (yahoo_symbol_feed (str_upper symbol) # feeds));
       out = fetch_for_symbol feeds fetch parse_feed now symbol max_results
   in subseq out found \<and> distinct (map na_url out) \<and> int (length out) \<le> max 1 max_results \<and>
      (out = [] \<longleftrightarrow> found = []) \<and> (max 1 max_results \<le> int (length out) \<or> na_url ` set out = na_url ` set found)"
proof -
  define found where "found = concat (map (feed_articles fetch parse_feed now) (yahoo_symbol_feed (str_upper symbol) # feeds))"
  define k where "k = nat (max 1 max_results)"
  have out: "fetch_for_symbol feeds fetch parse_feed now symbol max_results = take k (first_of_url [] found)"
    unfolding fetch_for_symbol_def found_def[symmetric] dedupe_first by (simp add: k_def max_def)
  have k: "0 < k" "int k = max 1 max_results" by (simp_all add: k_def)
  have "subseq (take k (first_of_url [] found)) found"
    using first_of_url_subseq subseq_order.trans list_emb_prefix[of "(=)" "take k (first_of_url [] found)" "drop k (first_of_url [] found)"]
    by (metis append_take_drop_id prefixI prefix_imp_subseq)
  moreover have "distinct (map na_url (take k (first_of_url [] found)))"
    using first_of_url_distinct[of "[]" found] by (metis distinct_take take_map)
  moreover have "take k (first_of_url [] found) = [] \<longleftrightarrow> found = []" using k(1) by (cases found) auto
  moreover have "k \<le> length (take k (first_of_url [] found)) \<or> na_url ` set (take k (first_of_url [] found)) = na_url ` set found"
    using first_of_url_all[of "[]" found] by (cases "k \<le> length (first_of_url [] found)") auto
  ultimately show ?thesis unfolding Let_def found_def[symmetric] out k(2)[symmetric] by auto
qed


text \<open>How the sentiment sees Reddit: a client that is configured, and the exception it may raise.\<close>

definition social_feed :: "reddit \<Rightarrow> praw \<Rightarrow> string \<Rightarrow> int \<Rightarrow> item list option option" where
  "social_feed c p symbol limit =
     Some (case fetch_posts c p symbol limit of
             Inl e \<Rightarrow> None
           | Inr posts \<Rightarrow> Some (map (\<lambda>p. \<lparr>it_title = rp_title p, it_text = rp_body p, it_at = rp_created p\<rparr>) posts))"

text \<open>Reddit answers at most as many posts as asked for, from its subreddits. Without credentials or PRAW the
  social leg has no weight. But when every search of a working client fails, the leg counts as available with
  a neutral score and keeps its weight, so an outage of Reddit draws the composite to zero.\<close>

theorem reddit_outage_dilutes:
  assumes "configured (rc_client_id c)" "configured (rc_client_secret c)"
    and outage: "\<forall>sub \<in> set (rc_subreddits c). \<forall>n. search sub symbol n = []"
    and run: "compute_sentiment scorer hp s gnews rss (social_feed c (Praw search) symbol limit) fred now = Inr r"
    and unset: "compute_sentiment scorer hp s gnews rss (social_feed (c\<lparr>rc_client_id := None\<rparr>) (Praw search) symbol limit) fred now = Inr r'"
  shows "fetch_posts c (Praw search) symbol limit = Inr [] \<and> sb_social_available (sr_breakdown r) \<and>
    sr_social_score r = 0 \<and> sb_social_weight (sr_breakdown r) \<noteq> 0 \<and>
    \<not> sb_social_available (sr_breakdown r') \<and> sb_social_weight (sr_breakdown r') = 0"
proof -
  have "concat (map (\<lambda>sub. posts_until_error sub (search sub symbol n)) (rc_subreddits c)) = []" for n
    using outage by simp
  then have none: "fetch_posts c (Praw search) symbol limit = Inr []"
    using assms(1,2) by (simp add: fetch_posts_def build_reddit_def search_all_def slice_to_def Let_def)
  have "fetch_posts (c\<lparr>rc_client_id := None\<rparr>) (Praw search) symbol limit =
      Inl ''REDDIT_CLIENT_ID / REDDIT_CLIENT_SECRET not configured''"
    by (simp add: fetch_posts_def build_reddit_def configured_def)
  then show ?thesis
    using run unset none
    by (auto simp: social_feed_def compute_sentiment_def Let_def bind_res_Inr_iff score_leg_def split_beta resolve_weights_available)
qed

lemma fetch_posts_limit: "0 \<le> limit \<Longrightarrow> fetch_posts c p symbol limit = Inr posts \<Longrightarrow> int (length posts) \<le> limit"
  by (auto simp: fetch_posts_def bind_res_Inr_iff search_all_def Let_def slice_to_def)

text \<open>A batch of texts is answered in order, blank texts with 0 and every fresh score on the scale; scoring the same
  texts again needs no model at all and from then on gives the same answers, whatever the model.\<close>

theorem finbert_batch_cached:
  assumes kv: "redis_kv R" and first: "score_batch R h pipe texts r = (Inr xs, r1)"
  shows "length xs = length texts \<and>
    (\<forall>i < length texts. str_strip (texts ! i) = [] \<and> xs ! i = 0 \<or>
       (case cached_score R h (str_strip (texts ! i)) r of Some x \<Rightarrow> xs ! i = x | None \<Rightarrow> -1 \<le> xs ! i \<and> xs ! i \<le> 1)) \<and>
    (\<exists>ys. \<forall>pipe'. score_batch R h pipe' texts r1 = (Inr ys, r1))"
proof (cases "texts = []")
  case True
  then show ?thesis using first by (simp add: score_batch_def)
next
  case False
  define results where "results = map (first_slot R h r) texts"
  define todo where "todo = snd (first_pass R h r texts)"
  define finish where "finish = map (\<lambda>x :: rat option. case x of None \<Rightarrow> 0 | Some v \<Rightarrow> v)"
  have fp: "first_pass R h r texts = (results, todo)" by (simp add: todo_def results_def first_pass_def Let_def)
  have "\<exists>filled. xs = finish filled \<and> length filled = length texts \<and>
      (\<forall>t. t \<in> snd ` set todo \<or> cached_score R h t r \<noteq> None \<longrightarrow> cached_score R h t r1 \<noteq> None) \<and>
      (\<forall>i x. filled ! i = Some x \<longrightarrow> i < length results \<longrightarrow> results ! i = Some x \<or> -1 \<le> x \<and> x \<le> 1) \<and>
      (\<forall>i x. i < length results \<longrightarrow> results ! i = Some x \<longrightarrow> filled ! i = Some x)"
  proof (cases "todo = []")
    case True
    then have "xs = finish results" "r1 = r" using first False fp by (auto simp: score_batch_def finish_def)
    then show ?thesis using True by (intro exI[of _ results]) (auto simp: results_def)
  next
    case ne: False
    obtain p filled where p: "pipe = Some p" "second_pass R h todo (p (map snd todo)) results r = (Inr filled, r1)" "xs = finish filled"
      using first False fp ne by (auto simp: score_batch_def finish_def Let_def split: option.splits prod.splits sum.splits)
    have keep: "filled ! i = Some x" if "i < length results" "results ! i = Some x" for i x
    proof -
      have "i \<notin> fst ` set todo" using that by (auto simp: todo_def first_pass_def Let_def results_def)
      then show ?thesis using p(2) that by (auto dest!: second_pass_others)
    qed
    show ?thesis using second_pass_cached[OF kv p(2)] p(3) keep by (auto simp: results_def)
  qed
  then obtain filled where f: "xs = finish filled" "length filled = length texts"
    "\<And>t. t \<in> snd ` set todo \<or> cached_score R h t r \<noteq> None \<Longrightarrow> cached_score R h t r1 \<noteq> None"
    "\<And>i x. filled ! i = Some x \<Longrightarrow> i < length results \<Longrightarrow> results ! i = Some x \<or> -1 \<le> x \<and> x \<le> 1"
    "\<And>i x. i < length results \<Longrightarrow> results ! i = Some x \<Longrightarrow> filled ! i = Some x" by blast
  have "cached_score R h (str_strip raw) r1 \<noteq> None" if "raw \<in> set texts" "str_strip raw \<noteq> []" for raw
    using f(3)[of "str_strip raw"] first_pass_todo[of "str_strip raw" R h r texts] that by (auto simp: todo_def)
  then have slots: "list_all (\<lambda>raw. first_slot R h r1 raw \<noteq> None) texts" by (auto simp: list_all_iff first_slot_def Let_def)
  have "snd (first_pass R h r1 texts) = []"
    using slots by (auto simp: first_pass_def Let_def filter_empty_conv list_all_length)
  then have again: "score_batch R h pipe' texts r1 = (Inr (finish (fst (first_pass R h r1 texts))), r1)" for pipe'
    using False by (simp add: score_batch_def split_beta finish_def Let_def)
  have each: "str_strip (texts ! i) = [] \<and> xs ! i = 0 \<or>
      (case cached_score R h (str_strip (texts ! i)) r of Some x \<Rightarrow> xs ! i = x | None \<Rightarrow> -1 \<le> xs ! i \<and> xs ! i \<le> 1)"
    if i: "i < length texts" for i
  proof -
    have res: "results ! i = first_slot R h r (texts ! i)" "i < length results" using i by (simp_all add: results_def)
    have xi: "xs ! i = (case filled ! i of None \<Rightarrow> 0 | Some v \<Rightarrow> v)" using f(1,2) i by (simp add: finish_def)
    show ?thesis
      using f(4)[of i] f(5)[of i] res xi by (auto simp: first_slot_def Let_def split: option.splits if_splits)
  qed
  show ?thesis using f(1,2) each again by (auto simp: finish_def)
qed


section \<open>Witnesses\<close>

definition gnews_one :: gnews where "gnews_one = \<lparr>gn_key = Some ''k'', gn_budget = 1\<rparr>"

definition empty_page :: "(string \<times> string) list \<Rightarrow> http_outcome" where "empty_page params = Response 200 ''{}''"

theorem gnews_budget_kept_witness:
  "case search_day mem_redis gnews_one (\<lambda>s. None) 20512 [(empty_page, ''a'', 5), (empty_page, ''b'', 5)] mem_empty of (xs, r1) \<Rightarrow>
     current_usage mem_redis 20512 r1 \<le> 1 \<and> int (length (filter answered xs)) \<le> 1"
proof -
  obtain xs r1 where run: "search_day mem_redis gnews_one (\<lambda>s. None) 20512 [(empty_page, ''a'', 5), (empty_page, ''b'', 5)] mem_empty = (xs, r1)"
    by (rule prod.exhaust)
  have "current_usage mem_redis 20512 mem_empty = 0" "gn_budget gnews_one = 1"
    by (simp_all add: current_usage_def mem_redis_def mem_empty_def gnews_one_def)
  then have "current_usage mem_redis 20512 r1 \<le> 1" "int (length (filter answered xs)) \<le> current_usage mem_redis 20512 r1"
    using gnews_budget_kept[OF mem_redis_kv run] by simp_all
  then show ?thesis unfolding run prod.case by simp
qed

definition reddit_app :: reddit where
  "reddit_app = \<lparr>rc_client_id = Some ''id'', rc_client_secret = Some ''secret'', rc_subreddits = DEFAULT_SUBREDDITS\<rparr>"

definition sentiment_with :: "item list option option \<Rightarrow> string + sentiment_result" where
  "sentiment_with social = compute_sentiment (\<lambda>ts. Some (map (\<lambda>t. 0) ts)) (\<lambda>x. 1) ''AAPL'' None None social None 0"

theorem reddit_outage_dilutes_witness:
  "\<exists>r r'. sentiment_with (social_feed reddit_app (Praw (\<lambda>sub s n. [])) ''AAPL'' 30) = Inr r \<and>
     sentiment_with (social_feed (reddit_app\<lparr>rc_client_id := None\<rparr>) (Praw (\<lambda>sub s n. [])) ''AAPL'' 30) = Inr r' \<and>
     sb_social_weight (sr_breakdown r) \<noteq> 0 \<and> sb_social_weight (sr_breakdown r') = 0"
proof -
  have total: "\<exists>r. sentiment_with social = Inr r" for social
    by (simp add: sentiment_with_def compute_sentiment_def compute_macro_score_def Let_def split_beta)
  obtain r r' where r: "sentiment_with (social_feed reddit_app (Praw (\<lambda>sub s n. [])) ''AAPL'' 30) = Inr r"
    "sentiment_with (social_feed (reddit_app\<lparr>rc_client_id := None\<rparr>) (Praw (\<lambda>sub s n. [])) ''AAPL'' 30) = Inr r'"
    using total by blast
  have c: "configured (rc_client_id reddit_app)" "configured (rc_client_secret reddit_app)"
    by (simp_all add: reddit_app_def configured_def)
  from reddit_outage_dilutes[OF c _ r[unfolded sentiment_with_def]] r show ?thesis by auto
qed

definition blank_model :: pipeline where "blank_model = Some (map (\<lambda>t. JArr []))"

theorem finbert_batch_cached_witness:
  "\<exists>r1. score_batch mem_redis (\<lambda>t. t) blank_model [''up'', '' ''] mem_empty = (Inr [0, 0], r1) \<and>
     (\<exists>ys. score_batch mem_redis (\<lambda>t. t) None [''up'', '' ''] r1 = (Inr ys, r1))"
proof -
  have "fst (score_batch mem_redis (\<lambda>t. t) blank_model [''up'', '' ''] mem_empty) = Inr [0, 0]" by code_simp
  then obtain r1 where r1: "score_batch mem_redis (\<lambda>t. t) blank_model [''up'', '' ''] mem_empty = (Inr [0, 0], r1)"
    by (metis prod.collapse)
  then show ?thesis using finbert_batch_cached[OF mem_redis_kv r1] by blast
qed

end
