(* ===== verification/Analysis_Api.thy ===== *)
theory Analysis_Api
  imports Edgar Risk_Series News
begin

text \<open>
  The analysis routes (\<open>api/analysis.py\<close>): choosing the provider of fundamentals by exchange and scoring
  them, the technical and the risk panel of a stored instrument, and the sentiment. The caller is already
  authenticated (theory \<open>Auth\<close>).
\<close>

section \<open>Errors\<close>

definition exchange_ok :: "string \<Rightarrow> bool" where "exchange_ok exchange \<longleftrightarrow> 2 \<le> length exchange \<and> length exchange \<le> 16"

definition price_ok :: "rat option \<Rightarrow> bool" where "price_ok price = (case price of None \<Rightarrow> True | Some p \<Rightarrow> 0 < p)"

definition API_US_EXCHANGES :: "string list" where
  "API_US_EXCHANGES = [''NYSE'', ''NASDAQ'', ''ARCA'', ''AMEX'', ''BATS'', ''NYSEARCA'']"
definition NSE_EXCHANGES :: "string list" where "NSE_EXCHANGES = [''NSE'', ''XNSE'']"
definition BSE_EXCHANGES :: "string list" where "BSE_EXCHANGES = [''BSE'', ''XBOM'']"

text \<open>\<open>except SymbolNotFoundError\<close>, then \<open>except DataProviderError\<close>.\<close>

definition provider_failure :: "string \<Rightarrow> provider_error \<Rightarrow> route_error" where
  "provider_failure label e =
     (case e of
        SymbolNotFound m \<Rightarrow> Not_Found m
      | RateLimit m t \<Rightarrow> Bad_Gateway (label @ '' upstream error: '' @ m)
      | UpstreamUnavailable m \<Rightarrow> Bad_Gateway (label @ '' upstream error: '' @ m)
      | DataProviderError m \<Rightarrow> Bad_Gateway (label @ '' upstream error: '' @ m)
      | Escaped \<Rightarrow> Server_Error)"

section \<open>Fundamentals\<close>

record fundamental_raw =
  fr_revenue_ttm :: "rat option"
  fr_earnings_ttm :: "rat option"
  fr_pe_ratio :: "rat option"
  fr_debt_to_equity :: "rat option"
  fr_free_cash_flow :: "rat option"
  fr_eps :: "rat option"

record fundamental_response =
  fa_symbol :: string
  fa_exchange :: string
  fa_provider :: string
  fa_filing_date :: "day option"
  fa_fetched_at :: instant
  fa_composite_score :: "int option"
  fa_components :: "(metric \<times> int option) list"
  fa_raw :: fundamental_raw

definition percent_or_none :: "int option \<Rightarrow> bool" where
  "percent_or_none v = (case v of None \<Rightarrow> True | Some s \<Rightarrow> 0 \<le> s \<and> s \<le> 100)"

text \<open>The response model checks the range of the scores.\<close>

definition fundamental_to_response ::
  "string \<Rightarrow> string \<Rightarrow> string \<Rightarrow> day option \<Rightarrow> instant \<Rightarrow> fundamental_raw \<Rightarrow> fundamental_score \<Rightarrow> route_error + fundamental_response" where
  "fundamental_to_response symbol exchange provider filing_date fetched_at raw score =
     (if percent_or_none (fs_composite score) \<and> list_all (percent_or_none \<circ> snd) (fs_components score)
      then Inr \<lparr>fa_symbol = symbol, fa_exchange = exchange, fa_provider = provider, fa_filing_date = filing_date,
             fa_fetched_at = fetched_at, fa_composite_score = fs_composite score, fa_components = fs_components score, fa_raw = raw\<rparr>
      else Inl Server_Error)"

definition derived_pe :: "edgar_payload \<Rightarrow> rat option \<Rightarrow> route_error + rat option" where
  "derived_pe f price =
     (case ef_pe_ratio f of
        Some pe \<Rightarrow> Inr (Some pe)
      | None \<Rightarrow>
          (case (price, ef_eps f) of
             (Some p, Some e) \<Rightarrow>
               if e = 0 then Inr None
               else (case quantize_with round_half_even 4 (ddiv p e) of None \<Rightarrow> Inl Server_Error | Some q \<Rightarrow> Inr (Some q))
           | _ \<Rightarrow> Inr None))"

definition fundamentals_via_edgar ::
  "string \<Rightarrow> string \<Rightarrow> rat option \<Rightarrow> provider_error + edgar_payload \<Rightarrow> route_error + fundamental_response" where
  "fundamentals_via_edgar symbol exchange price fetched =
     (case fetched of
        Inl e \<Rightarrow> Inl (provider_failure ''EDGAR'' e)
      | Inr f \<Rightarrow>
          bind_res (derived_pe f price) (\<lambda>pe.
            fundamental_to_response symbol exchange ''edgar'' (ep_filing_date f) (ep_fetched_at f)
              \<lparr>fr_revenue_ttm = ef_revenue f, fr_earnings_ttm = ef_earnings f, fr_pe_ratio = pe,
               fr_debt_to_equity = ef_debt_to_equity f, fr_free_cash_flow = ef_free_cash_flow f, fr_eps = ef_eps f\<rparr>
              (score_fundamentals (edgar_fundamentals.truncate f) price)))"

text \<open>Yahoo's fields, as the scoring engine reads them.\<close>

definition projected :: "fundamentals \<Rightarrow> edgar_fundamentals" where
  "projected f = \<lparr>ef_revenue = fu_revenue_ttm f, ef_revenue_prior = None, ef_earnings = None, ef_earnings_prior = None,
     ef_debt_to_equity = None, ef_pe_ratio = fu_pe_ratio f, ef_eps = fu_eps f, ef_free_cash_flow = None\<rparr>"

definition fundamentals_via_yahoo ::
  "string \<Rightarrow> string \<Rightarrow> rat option \<Rightarrow> provider_error + fundamentals \<Rightarrow> route_error + fundamental_response" where
  "fundamentals_via_yahoo symbol exchange price fetched =
     (case fetched of
        Inl e \<Rightarrow> Inl (provider_failure ''Yahoo'' e)
      | Inr f \<Rightarrow>
          fundamental_to_response symbol exchange ''yahoo'' None (fu_fetched_at f)
            \<lparr>fr_revenue_ttm = fu_revenue_ttm f, fr_earnings_ttm = None, fr_pe_ratio = fu_pe_ratio f,
             fr_debt_to_equity = None, fr_free_cash_flow = None, fr_eps = fu_eps f\<rparr>
            (score_fundamentals (projected f) price))"

definition yahoo_ticker :: "string \<Rightarrow> string \<Rightarrow> string" where
  "yahoo_ticker symbol exchange = symbol @ (if exchange \<in> set NSE_EXCHANGES then ''.NS'' else ''.BO'')"

text \<open>What the two providers answer, and the Redis both write through. The EDGAR client is new in each request,
  so it has no ticker map yet.\<close>

record sources =
  so_edgar_codec :: "edgar_payload codec"
  so_edgar_web :: edgar_web
  so_yahoo_codec :: "fundamentals codec"
  so_yahoo :: "string \<Rightarrow> yf_info yf"

definition get_fundamental_analysis ::
  "'r redis \<Rightarrow> sources \<Rightarrow> instant \<Rightarrow> string \<Rightarrow> string \<Rightarrow> rat option \<Rightarrow> 'r \<Rightarrow> (route_error + fundamental_response) \<times> 'r" where
  "get_fundamental_analysis R S now symbol exchange price r =
     (if \<not> exchange_ok exchange \<or> \<not> price_ok price then (Inl Unprocessable, r)
      else (let symbol_u = str_strip (str_upper symbol); exchange_u = str_strip (str_upper exchange)
            in if exchange_u \<in> set API_US_EXCHANGES
               then (case edgar_get_fundamentals R (so_edgar_codec S) (so_edgar_web S) now symbol_u (None, r) of
                       (fetched, tickers, r1) \<Rightarrow> (fundamentals_via_edgar symbol_u exchange_u price fetched, r1))
               else if exchange_u \<in> set NSE_EXCHANGES \<or> exchange_u \<in> set BSE_EXCHANGES
               then (case get_fundamentals R (so_yahoo_codec S) (yahoo_ticker symbol_u exchange_u) now
                            (so_yahoo S (yahoo_ticker symbol_u exchange_u)) r of
                       (fetched, r1) \<Rightarrow> (fundamentals_via_yahoo symbol_u exchange_u price fetched, r1))
               else (Inl (Bad_Request (''unsupported exchange '' @ py_repr exchange_u)), r)))"

section \<open>Technical and risk panels\<close>

text \<open>A number field accepts a number or a text of one.\<close>

definition number_field :: "json \<Rightarrow> (rat \<Rightarrow> bool) \<Rightarrow> bool" where
  "number_field v ok = (v = JNull \<or> (case j_float v of Inl e \<Rightarrow> False | Inr x \<Rightarrow> ok x))"

definition indicator_valid :: "indicator_result \<Rightarrow> bool" where
  "indicator_valid i \<longleftrightarrow> number_field (ir_value i) (\<lambda>x. -1 \<le> x \<and> x \<le> 1) \<and> number_field (ir_raw i) (\<lambda>x. True)"

record technical_response =
  tr_symbol :: string
  tr_exchange :: string
  tr_analysis :: technical_analysis

definition technical_to_response :: "string \<Rightarrow> string \<Rightarrow> technical_analysis \<Rightarrow> route_error + technical_response" where
  "technical_to_response symbol exchange a =
     (if list_all (\<lambda>k. indicator_valid (indicator_of a k)) indicator_names
      then Inr \<lparr>tr_symbol = symbol, tr_exchange = exchange, tr_analysis = a\<rparr> else Inl Server_Error)"

definition bars_ok :: "int \<Rightarrow> bool" where "bars_ok bars \<longleftrightarrow> 30 \<le> bars \<and> bars \<le> 1000"

text \<open>The instrument of a symbol and an exchange, and its price rows.\<close>

definition stored_prices ::
  "instrument_row list \<Rightarrow> price_row list \<Rightarrow> string \<Rightarrow> string \<Rightarrow> int \<Rightarrow> route_error + instrument_row \<times> rat frame" where
  "stored_prices instruments prices symbol_u exchange_u bars =
     (case scalar_one_or_none (filter (\<lambda>i. in_symbol i = symbol_u \<and> in_exchange i = exchange_u) instruments) of
        Inl e \<Rightarrow> Inl Server_Error
      | Inr None \<Rightarrow> Inl (Not_Found (''instrument not found: '' @ symbol_u @ '' on '' @ exchange_u))
      | Inr (Some instrument) \<Rightarrow>
          (let ohlcv = load_ohlcv_from_db prices (in_id instrument) (nat bars)
           in if fr_rows ohlcv = [] then Inl (Not_Found (''no price history for '' @ symbol_u @ '' on '' @ exchange_u))
              else Inr (instrument, ohlcv)))"

definition get_technical_analysis ::
  "'r redis \<Rightarrow> rat pandas \<Rightarrow> instrument_row list \<Rightarrow> price_row list \<Rightarrow> string \<Rightarrow> string \<Rightarrow> int \<Rightarrow> 'r
     \<Rightarrow> (route_error + technical_response) \<times> 'r" where
  "get_technical_analysis R P instruments prices symbol exchange bars r =
     (if \<not> exchange_ok exchange \<or> \<not> bars_ok bars then (Inl Unprocessable, r)
      else (let symbol_u = str_strip (str_upper symbol); exchange_u = str_strip (str_upper exchange)
            in case stored_prices instruments prices symbol_u exchange_u bars of
                 Inl e \<Rightarrow> (Inl e, r)
               | Inr (instrument, ohlcv) \<Rightarrow>
                   (case analyze_with_cache R P (in_id instrument) ohlcv TECH_CACHE_TTL_SECONDS r of
                      (Inl e, r1) \<Rightarrow> (Inl Server_Error, r1)
                    | (Inr a, r1) \<Rightarrow> (technical_to_response symbol_u exchange_u a, r1))))"

record risk_response =
  rr_symbol :: string
  rr_exchange :: string
  rr_analysis :: risk_analysis

definition risk_to_response :: "string \<Rightarrow> string \<Rightarrow> risk_analysis \<Rightarrow> route_error + risk_response" where
  "risk_to_response symbol exchange a =
     (if 0 \<le> rs_score (ra_score a) \<and> rs_score (ra_score a) \<le> 100
      then Inr \<lparr>rr_symbol = symbol, rr_exchange = exchange, rr_analysis = a\<rparr> else Inl Server_Error)"

text \<open>\<open>ohlcv["close"]\<close>.\<close>

definition close_column :: "rat frame \<Rightarrow> fl list" where
  "close_column df = map (\<lambda>(t, cells). Some (cells ! column_index (fr_columns df) ''close'')) (fr_rows df)"

definition get_risk_analysis ::
  "stats \<Rightarrow> instrument_row list \<Rightarrow> price_row list \<Rightarrow> string \<Rightarrow> string \<Rightarrow> int \<Rightarrow> string option \<Rightarrow> route_error + risk_response" where
  "get_risk_analysis S instruments prices symbol exchange bars sector =
     (if \<not> exchange_ok exchange \<or> \<not> bars_ok bars \<or> (case sector of None \<Rightarrow> False | Some s \<Rightarrow> 64 < length s) then Inl Unprocessable
      else (let symbol_u = str_strip (str_upper symbol); exchange_u = str_strip (str_upper exchange)
            in bind_res (stored_prices instruments prices symbol_u exchange_u bars) (\<lambda>(instrument, ohlcv).
                 risk_to_response symbol_u exchange_u (analyze_risk S (close_column ohlcv) sector))))"

section \<open>Sentiment\<close>

text \<open>A year that has no 29 February is an exception of the engine.\<close>

definition get_sentiment_analysis ::
  "(string list \<Rightarrow> rat list option) \<Rightarrow> (rat \<Rightarrow> rat) \<Rightarrow> string \<Rightarrow> item list option \<Rightarrow> item list option \<Rightarrow> item list option \<Rightarrow> instant
     \<Rightarrow> route_error + sentiment_result" where
  "get_sentiment_analysis scorer half_pow symbol gnews rss reddit now =
     (let symbol_u = str_strip (str_upper symbol)
      in if symbol_u = [] then Inl (Bad_Request ''symbol is required'')
         else (case compute_sentiment scorer half_pow symbol_u (Some gnews) (Some rss) (Some reddit) None now of
                 Inl e \<Rightarrow> Inl Server_Error | Inr s \<Rightarrow> Inr s))"


section \<open>Lemmas\<close>

lemma components_percent: "list_all (percent_or_none \<circ> snd) (fs_components (score_fundamentals f price))"
  using scored_percent by (auto simp: score_fundamentals_def Let_def percent_or_none_def split: option.splits)

lemma composite_percent: "percent_or_none (fs_composite (score_fundamentals f price))"
proof (cases "fs_composite (score_fundamentals f price)")
  case (Some c)
  define items where "items = available (fs_components (score_fundamentals f price))"
  have c: "composite_of items = Some c" using Some by (simp add: items_def score_fundamentals_def Let_def)
  then have ne: "items \<noteq> []" by (auto simp: composite_of_def)
  have "distinct (map fst (fs_components (score_fundamentals f price)))" by (simp add: score_fundamentals_def Let_def)
  then have dist: "distinct (map fst items)" unfolding items_def by (rule available_keys)
  have "\<forall>(k, s) \<in> set items. 0 \<le> s \<and> s \<le> 100"
    using components_percent[of f price] by (fastforce simp: items_def set_available list_all_iff percent_or_none_def)
  then obtain d where "composite_of items = Some d" "0 \<le> d" "d \<le> 100"
    using composite_between[OF ne dist, of 0 100] by auto
  then show ?thesis using Some c by (simp add: percent_or_none_def)
qed (simp add: percent_or_none_def)

text \<open>A score always fits the response model.\<close>

lemma response_fits:
  "fundamental_to_response s e p d t raw (score_fundamentals f price) =
     Inr \<lparr>fa_symbol = s, fa_exchange = e, fa_provider = p, fa_filing_date = d, fa_fetched_at = t,
       fa_composite_score = fs_composite (score_fundamentals f price), fa_components = fs_components (score_fundamentals f price), fa_raw = raw\<rparr>"
  by (simp add: fundamental_to_response_def components_percent composite_percent)

text \<open>Without a P/E of its own Yahoo's answer is scored with the price and the earnings per share; the raw data shows
  none.\<close>

lemma yahoo_pe_hidden:
  assumes "fu_pe_ratio f = None" "fu_eps f = Some e" "f64 p / f64 e \<noteq> 0" "0 < fdiv (f64 p) (f64 e)" "e \<noteq> 0"
    and "fundamentals_via_yahoo s x (Some p) (Inr f) = Inr a"
  shows "fr_pe_ratio (fa_raw a) = None \<and> (\<exists>v. (Pe_Valuation, Some v) \<in> set (fa_components a))"
proof -
  have "\<exists>v. (Pe_Valuation, Some v) \<in> set (fs_components (score_fundamentals (projected f) (Some p)))"
    using assms(1-5) by (auto simp: score_fundamentals_def Let_def projected_def pe_of_def scored_def)
  then show ?thesis using assms(1,6) by (auto simp: fundamentals_via_yahoo_def response_fits)
qed

text \<open>The frame loaded from the table has a row for each stored one and every number in it.\<close>

lemma required_columns: "renamed_columns REQUIRED_COLUMNS = REQUIRED_COLUMNS"
  "set REQUIRED_COLUMNS \<subseteq> str_lower ` set REQUIRED_COLUMNS"
  "\<not> list_ex (\<lambda>c. length (filter (\<lambda>d. d = c) REQUIRED_COLUMNS) \<noteq> 1) REQUIRED_COLUMNS"
  by code_simp+

lemma loaded_row: "bar_of_cells Some REQUIRED_COLUMNS [a, b, c, d, e] =
    Some \<lparr>b_open = a, b_high = b, b_low = c, b_close = d, b_volume = e\<rparr>"
  by (simp add: bar_of_cells_def column_index_def REQUIRED_COLUMNS_def Let_def)

lemma ensure_loaded:
  assumes "pd_to_numeric P = Some"
  shows "\<exists>bs. ensure_ohlcv P (load_ohlcv_from_db tab i n) = Inr bs \<and> length bs = length (newest_rows n i tab)"
proof -
  define rows where "rows = sort_key fst (fr_rows (load_ohlcv_from_db tab i n))"
  have "\<forall>(t, cells) \<in> set rows. \<exists>a b c d e. cells = [a, b, c, d, e]"
    by (auto simp: rows_def load_ohlcv_from_db_def)
  then have "length (concat (map (\<lambda>(t, cells). case bar_of_cells Some REQUIRED_COLUMNS cells of None \<Rightarrow> [] | Some b \<Rightarrow> [b]) rows)) = length rows"
    by (induction rows) (auto simp: loaded_row)
  moreover have "length rows = length (newest_rows n i tab)" by (simp add: rows_def load_ohlcv_from_db_def)
  moreover have "fr_columns (load_ohlcv_from_db tab i n) = REQUIRED_COLUMNS" by (simp add: load_ohlcv_from_db_def)
  ultimately show ?thesis
    using required_columns by (simp add: ensure_ohlcv_def assms rows_def)
qed

lemma stored_prices_some:
  assumes "stored_prices instruments prices s e bars = Inr (i, ohlcv)"
  shows "ohlcv = load_ohlcv_from_db prices (in_id i) (nat bars)" "newest_rows (nat bars) (in_id i) prices \<noteq> []"
    "0 < bars'' \<Longrightarrow> stored_prices instruments prices s e bars'' = Inr (i, load_ohlcv_from_db prices (in_id i) (nat bars''))"
proof -
  show o: "ohlcv = load_ohlcv_from_db prices (in_id i) (nat bars)" and n: "newest_rows (nat bars) (in_id i) prices \<noteq> []"
    using assms by (auto simp: stored_prices_def Let_def load_ohlcv_from_db_def split: sum.splits option.splits if_splits)
  show "stored_prices instruments prices s e bars'' = Inr (i, load_ohlcv_from_db prices (in_id i) (nat bars''))" if "0 < bars''"
    using assms n that
    by (auto simp: stored_prices_def Let_def load_ohlcv_from_db_def newest_rows_def split: sum.splits option.splits if_splits)
qed

section \<open>Properties\<close>

lemma quantize_even_None:
  assumes "quantize_with round_half_even n x = None"
  shows "(10 ^ 28 - 1 / 2) / 10 ^ n \<le> \<bar>x\<bar>"
proof -
  let ?r = "round_half_even (x * 10 ^ n)"
  have "10 ^ 28 \<le> \<bar>?r\<bar>" using assms by (simp add: quantize_with_def Let_def split: if_splits)
  then have "(10 :: rat) ^ 28 \<le> \<bar>of_int ?r\<bar>" by (simp flip: of_int_abs add: of_int_le_iff[symmetric] del: of_int_le_iff)
  then have "10 ^ 28 - 1 / 2 \<le> \<bar>x * 10 ^ n\<bar>" using round_half_even_error[of "x * 10 ^ n"] by linarith
  then show ?thesis by (simp add: divide_le_eq abs_mult)
qed

lemma derived_pe_overflow:
  assumes "derived_pe f price = Inl x"
  shows "x = Server_Error \<and> ef_pe_ratio f = None \<and>
    (\<exists>p eps. price = Some p \<and> ef_eps f = Some eps \<and> eps \<noteq> 0 \<and> (10 ^ 28 - 1 / 2) / 10 ^ 4 \<le> \<bar>ddiv p eps\<bar>)"
  using assms quantize_even_None[of 4] by (auto simp: derived_pe_def split: option.splits if_splits)

text \<open>C26. A request with a bad exchange or price is refused before any provider is asked. The fundamentals route asks EDGAR for the US exchanges, Yahoo for the Indian ones and nobody for others.
  An unknown symbol is a 404, a failing provider a 502, and any other exception a 500. An answer of the provider
  is scored by the engine and fits the response, with one exception: where EDGAR reports no P/E and the one derived from
  the price asked for and the earnings per share is too large to be quantized, the answer is a 500. Redis is left as
  the provider left it.\<close>

theorem fundamental_route:
  "let s = str_strip (str_upper symbol); e = str_strip (str_upper exchange);
      (res, r1) = get_fundamental_analysis R S now symbol exchange price r;
      failed = (\<lambda>x. case x of SymbolNotFound m \<Rightarrow> res = Inl (Not_Found m) | Escaped \<Rightarrow> res = Inl Server_Error
                 | _ \<Rightarrow> (\<exists>d. res = Inl (Bad_Gateway d)))
    in (if \<not> (exchange_ok exchange \<and> price_ok price) then res = Inl Unprocessable \<and> r1 = r
        else if e \<in> set API_US_EXCHANGES
        then \<exists>fetched tickers. edgar_get_fundamentals R (so_edgar_codec S) (so_edgar_web S) now s (None, r) = (fetched, tickers, r1) \<and>
          (case fetched of
             Inl x \<Rightarrow> failed x
           | Inr f \<Rightarrow> (case res of
               Inl x \<Rightarrow> x = Server_Error \<and> derived_pe f price = Inl Server_Error \<and> ef_pe_ratio f = None \<and>
                 (\<exists>p eps. price = Some p \<and> ef_eps f = Some eps \<and> eps \<noteq> 0 \<and> (10 ^ 28 - 1 / 2) / 10 ^ 4 \<le> \<bar>ddiv p eps\<bar>)
             | Inr a \<Rightarrow> fa_provider a = ''edgar'' \<and> fa_symbol a = s \<and> fa_filing_date a = ep_filing_date f \<and>
                 fa_composite_score a = fs_composite (score_fundamentals (edgar_fundamentals.truncate f) price) \<and>
                 derived_pe f price = Inr (fr_pe_ratio (fa_raw a))))
        else if e \<in> set NSE_EXCHANGES \<or> e \<in> set BSE_EXCHANGES
        then \<exists>fetched. get_fundamentals R (so_yahoo_codec S) (yahoo_ticker s e) now (so_yahoo S (yahoo_ticker s e)) r = (fetched, r1) \<and>
          (case fetched of
             Inl x \<Rightarrow> failed x
           | Inr f \<Rightarrow> \<exists>a. res = Inr a \<and> fa_provider a = ''yahoo'' \<and> fa_symbol a = s \<and> fr_pe_ratio (fa_raw a) = fu_pe_ratio f \<and>
               fa_composite_score a = fs_composite (score_fundamentals (projected f) price))
        else (\<exists>d. res = Inl (Bad_Request d)) \<and> r1 = r)"
proof -
  have via_edgar: "case fetched of
        Inl x \<Rightarrow> (case x of SymbolNotFound m \<Rightarrow> res = Inl (Not_Found m) | Escaped \<Rightarrow> res = Inl Server_Error | _ \<Rightarrow> (\<exists>d. res = Inl (Bad_Gateway d)))
      | Inr f \<Rightarrow> (case res of
          Inl x \<Rightarrow> x = Server_Error \<and> derived_pe f price = Inl Server_Error \<and> ef_pe_ratio f = None \<and>
            (\<exists>p eps. price = Some p \<and> ef_eps f = Some eps \<and> eps \<noteq> 0 \<and> (10 ^ 28 - 1 / 2) / 10 ^ 4 \<le> \<bar>ddiv p eps\<bar>)
        | Inr a \<Rightarrow> fa_provider a = ''edgar'' \<and> fa_symbol a = s \<and> fa_filing_date a = ep_filing_date f \<and>
            fa_composite_score a = fs_composite (score_fundamentals (edgar_fundamentals.truncate f) price) \<and>
            derived_pe f price = Inr (fr_pe_ratio (fa_raw a)))"
    if "res = fundamentals_via_edgar s e price fetched" for res s e fetched
  proof (cases fetched)
    case (Inl y)
    then show ?thesis by (simp add: that fundamentals_via_edgar_def provider_failure_def split: provider_error.split)
  next
    case (Inr f)
    show ?thesis
    proof (cases "derived_pe f price")
      case x: (Inl x)
      then show ?thesis using derived_pe_overflow[OF x] by (simp add: that Inr fundamentals_via_edgar_def)
    next
      case (Inr pe)
      then show ?thesis by (simp add: that \<open>fetched = Inr f\<close> fundamentals_via_edgar_def response_fits)
    qed
  qed
  have via_yahoo: "case fetched of
        Inl x \<Rightarrow> (case x of SymbolNotFound m \<Rightarrow> res = Inl (Not_Found m) | Escaped \<Rightarrow> res = Inl Server_Error | _ \<Rightarrow> (\<exists>d. res = Inl (Bad_Gateway d)))
      | Inr f \<Rightarrow> \<exists>a. res = Inr a \<and> fa_provider a = ''yahoo'' \<and> fa_symbol a = s \<and> fr_pe_ratio (fa_raw a) = fu_pe_ratio f \<and>
               fa_composite_score a = fs_composite (score_fundamentals (projected f) price)"
    if "res = fundamentals_via_yahoo s e price fetched" for res s e fetched
    unfolding that
    by (auto simp: fundamentals_via_yahoo_def provider_failure_def response_fits split: sum.splits provider_error.splits)
  show ?thesis
    unfolding get_fundamental_analysis_def Let_def
    using via_edgar[OF refl] via_yahoo[OF refl]
    by (simp split: prod.split)
qed


text \<open>Once the technical panel of an instrument has been computed with all six signals, a request within the
  life of the cache gets the same signals, composite and action, whatever number of rows it asks for and however
  the prices changed meanwhile; only the reported number of rows is that of the new request.\<close>

theorem technical_route_ignores_bars:
  assumes kv: "redis_kv R" and num: "pd_to_numeric P = Some"
    and first: "get_technical_analysis R P instruments prices symbol exchange bars r = (Inr t, r1)"
    and miss: "\<forall>i \<in> set instruments. load_cached_indicators R (in_id i) r = Inr []"
    and full: "ta_insufficient_data_flags (tr_analysis t) = []" and exact: "json_exact (tr_analysis t)"
    and again: "stored_prices instruments prices' (tr_symbol t) (tr_exchange t) bars' = Inr (i, frame')" "bars_ok bars'"
  shows "get_technical_analysis R P instruments prices' symbol exchange bars' r1 =
    (Inr (t\<lparr>tr_analysis := (tr_analysis t)\<lparr>ta_bars_analyzed := length (newest_rows (nat bars') (in_id i) prices')\<rparr>\<rparr>), r1)"
proof -
  define s where "s = str_strip (str_upper symbol)"
  define e where "e = str_strip (str_upper exchange)"
  have ok: "exchange_ok exchange" "bars_ok bars" using first by (auto simp: get_technical_analysis_def split: if_splits)
  obtain j ohlcv where j: "stored_prices instruments prices s e bars = Inr (j, ohlcv)"
    using first ok by (auto simp: get_technical_analysis_def s_def e_def Let_def split: sum.splits)
  obtain a where a: "analyze_with_cache R P (in_id j) ohlcv TECH_CACHE_TTL_SECONDS r = (Inr a, r1)"
    "technical_to_response s e a = Inr t"
    using first ok j by (auto simp: get_technical_analysis_def s_def e_def Let_def split: sum.splits prod.splits)
  have t: "t = \<lparr>tr_symbol = s, tr_exchange = e, tr_analysis = a\<rparr>" "list_all (\<lambda>k. indicator_valid (indicator_of a k)) indicator_names"
    using a(2) by (auto simp: technical_to_response_def split: if_splits)
  have same: "i = j" using again(1) j t(1)
    by (auto simp: stored_prices_def Let_def split: sum.splits option.splits if_splits)
  have "filter (\<lambda>i. in_symbol i = s \<and> in_exchange i = e) instruments = [j]"
    using j by (auto simp: stored_prices_def scalar_one_or_none_iff Let_def split: sum.splits option.splits if_splits)
  then have "j \<in> set (filter (\<lambda>i. in_symbol i = s \<and> in_exchange i = e) instruments)" by simp
  then have "j \<in> set instruments" by simp
  then have m: "\<forall>cached. load_cached_indicators R (in_id j) r = Inr cached \<longrightarrow> length cached < 6" using miss by simp
  obtain bs where bs: "ensure_ohlcv P (load_ohlcv_from_db prices' (in_id j) (nat bars')) = Inr bs"
    "length bs = length (newest_rows (nat bars') (in_id j) prices')"
    using ensure_loaded[OF num] by blast
  have frame': "frame' = load_ohlcv_from_db prices' (in_id j) (nat bars')" using stored_prices_some(1)[OF again(1)] same by simp
  have "analyze_with_cache R P (in_id j) frame' TECH_CACHE_TTL_SECONDS r1 = (Inr (a\<lparr>ta_bars_analyzed := length bs\<rparr>), r1)"
    using cached_analysis_reused[OF kv a(1) m, of P frame' TECH_CACHE_TTL_SECONDS] full exact bs(1) by (simp add: t(1) frame')
  moreover have "indicator_of (a\<lparr>ta_bars_analyzed := n\<rparr>) k = indicator_of a k" for n k by (simp add: indicator_of_def)
  ultimately show ?thesis
    using ok(1) again t bs(2) same by (simp add: get_technical_analysis_def s_def[symmetric] e_def[symmetric] technical_to_response_def Let_def)
qed


text \<open>The sentiment route refuses a blank symbol and otherwise always answers: whatever the feeds and FinBERT do, the
  composite is on its scale and the macro leg, which this route never feeds, has no weight.\<close>

theorem sentiment_route_answers:
  "case get_sentiment_analysis scorer half_pow symbol gnews rss reddit now of
     Inl e \<Rightarrow> str_strip symbol = [] \<and> e = Bad_Request ''symbol is required''
   | Inr s \<Rightarrow> str_strip symbol \<noteq> [] \<and> sr_symbol s = str_upper (str_strip symbol) \<and> - 1 \<le> sr_composite s \<and> sr_composite s \<le> 1 \<and>
       sb_macro_weight (sr_breakdown s) = 0 \<and> \<not> sb_macro_available (sr_breakdown s)"
proof -
  have total: "\<exists>r. compute_sentiment scorer half_pow sym (Some gnews) (Some rss) (Some reddit) None now = Inr r \<and>
      sr_symbol r = str_strip (str_upper sym) \<and> sb_macro_weight (sr_breakdown r) = 0 \<and> \<not> sb_macro_available (sr_breakdown r)" for sym
    by (auto simp: compute_sentiment_def compute_macro_score_def Let_def split_beta resolve_weights_available)
  show ?thesis
    using total[of "str_strip (str_upper symbol)"] compute_sentiment_range
    by (auto simp: get_sentiment_analysis_def str_strip_upper Let_def)
qed

section \<open>Witnesses\<close>

definition apple :: instrument_row where "apple = \<lparr>in_id = ''i'', in_symbol = ''AAPL'', in_exchange = ''NASDAQ''\<rparr>"

definition flat_rows :: "price_row list" where
  "flat_rows = map (\<lambda>i. \<lparr>ph_instrument = ''i'', ph_timestamp = int i, ph_open = 20, ph_high = 20, ph_low = 20, ph_close = 20, ph_volume = 20\<rparr>) [0..<200]"

definition stored_pandas :: "rat pandas" where
  "stored_pandas = \<lparr>pd_to_numeric = Some, pd_ewm_alpha = (\<lambda>a m xs. xs), pd_ewm_span = (\<lambda>s xs. xs),
     pd_rolling_mean = (\<lambda>n xs. xs), pd_rolling_std = (\<lambda>n xs. map (\<lambda>x. Some 0) xs)\<rparr>"

lemma stored_indicators: "indicators stored_pandas bars = indicators flat_pandas bars"
  by (simp add: indicators_def rsi_signal_def macd_signal_def ma_alignment_signal_def bollinger_signal_def volume_signal_def
    atr_signal_def stored_pandas_def flat_pandas_def)

lemma f64_20: "f64 20 = 20"
  by code_simp

lemma flat_newest: "length (newest_rows n ''i'' flat_rows) = min 200 n" "p \<in> set (newest_rows n ''i'' flat_rows) \<Longrightarrow>
    [ph_open p, ph_high p, ph_low p, ph_close p, of_int (ph_volume p)] = [20, 20, 20, 20, 20]"
  by (auto simp: newest_rows_def flat_rows_def filter_map o_def dest!: in_set_takeD)

lemma flat_loaded: "ensure_ohlcv stored_pandas (load_ohlcv_from_db flat_rows ''i'' n) = Inr (replicate (min 200 n) flat_bar)"
proof -
  define rows where "rows = sort_key fst (fr_rows (load_ohlcv_from_db flat_rows ''i'' n))"
  have c: "\<forall>(t, cells) \<in> set rows. cells = [20, 20, 20, 20, 20]"
    using flat_newest(2)[of _ n] by (auto simp: rows_def load_ohlcv_from_db_def f64_20)
  have "concat (map (\<lambda>(t, cells). case bar_of_cells Some REQUIRED_COLUMNS cells of None \<Rightarrow> [] | Some b \<Rightarrow> [b]) rows) = replicate (length rows) flat_bar"
    using c by (induction rows) (auto simp: loaded_row flat_bar_def)
  moreover have "length rows = min 200 n" by (simp add: rows_def load_ohlcv_from_db_def flat_newest(1))
  moreover have "fr_columns (load_ohlcv_from_db flat_rows ''i'' n) = REQUIRED_COLUMNS" by (simp add: load_ohlcv_from_db_def)
  ultimately show ?thesis
    using required_columns by (simp add: ensure_ohlcv_def rows_def stored_pandas_def)
qed

lemma flat_stored: "30 \<le> bars \<Longrightarrow> stored_prices [apple] flat_rows ''AAPL'' ''NASDAQ'' bars = Inr (apple, load_ohlcv_from_db flat_rows ''i'' (nat bars))"
proof -
  assume "30 \<le> bars"
  then have "newest_rows (nat bars) ''i'' flat_rows \<noteq> []" using flat_newest(1)[of "nat bars"] by (metis length_0_conv min_def nat_0_iff not_numeral_le_zero order_trans verit_la_disequality zero_neq_numeral)
  then show ?thesis by (simp add: stored_prices_def apple_def load_ohlcv_from_db_def Let_def)
qed

lemma flat_first: "get_technical_analysis mem_redis stored_pandas [apple] flat_rows ''aapl'' ''NASDAQ'' 252 mem_empty =
    (Inr \<lparr>tr_symbol = ''AAPL'', tr_exchange = ''NASDAQ'', tr_analysis = flat_analysis\<rparr>, cache_indicators mem_redis ''i'' flat_analysis 300 mem_empty)"
proof -
  have up: "str_strip (str_upper ''aapl'') = ''AAPL''" "str_strip (str_upper ''NASDAQ'') = ''NASDAQ''" by code_simp+
  have miss: "load_cached_indicators mem_redis ''i'' mem_empty = Inr []" by code_simp
  have "analyze_technical stored_pandas (load_ohlcv_from_db flat_rows ''i'' 252) = Inr flat_analysis"
    using flat_analyzed unfolding analyze_technical_def flat_loaded flat_ensure stored_indicators by simp
  then have "analyze_with_cache mem_redis stored_pandas ''i'' (load_ohlcv_from_db flat_rows ''i'' 252) 300 mem_empty =
      (Inr flat_analysis, cache_indicators mem_redis ''i'' flat_analysis 300 mem_empty)"
    using miss by (simp add: analyze_with_cache_def TECH_WEIGHTS_def)
  moreover have "list_all (\<lambda>k. indicator_valid (indicator_of flat_analysis k)) indicator_names"
    by (simp add: indicator_valid_def number_field_def flat_fields) code_simp
  moreover have "exchange_ok ''NASDAQ''" "bars_ok 252" by (simp_all add: exchange_ok_def bars_ok_def)
  moreover have "in_id apple = ''i''" by (simp add: apple_def)
  ultimately show ?thesis
    using flat_stored[of 252] by (simp add: get_technical_analysis_def up Let_def technical_to_response_def TECH_CACHE_TTL_SECONDS_def)
qed

theorem technical_route_ignores_bars_witness:
  "\<exists>t r1. get_technical_analysis mem_redis stored_pandas [apple] flat_rows ''aapl'' ''NASDAQ'' 252 mem_empty = (Inr t, r1) \<and>
     get_technical_analysis mem_redis stored_pandas [apple] flat_rows ''aapl'' ''NASDAQ'' 30 r1 =
       (Inr (t\<lparr>tr_analysis := (tr_analysis t)\<lparr>ta_bars_analyzed := 30\<rparr>\<rparr>), r1)"
proof -
  have miss: "\<forall>i \<in> set [apple]. load_cached_indicators mem_redis (in_id i) mem_empty = Inr []"
    by (simp add: apple_def) code_simp
  have n: "pd_to_numeric stored_pandas = Some" "bars_ok 30" by (simp_all add: stored_pandas_def bars_ok_def)
  have full: "ta_insufficient_data_flags flat_analysis = []" by (simp add: flat_analysis_def)
  have len: "length (newest_rows 30 (in_id apple) flat_rows) = 30" by (simp add: apple_def flat_newest(1))
  note th = technical_route_ignores_bars[OF mem_redis_kv n(1) flat_first miss]
  have "get_technical_analysis mem_redis stored_pandas [apple] flat_rows ''aapl'' ''NASDAQ'' 30 (cache_indicators mem_redis ''i'' flat_analysis 300 mem_empty) =
      (Inr (\<lparr>tr_symbol = ''AAPL'', tr_exchange = ''NASDAQ'', tr_analysis = flat_analysis\<lparr>ta_bars_analyzed := 30\<rparr>\<rparr>),
       cache_indicators mem_redis ''i'' flat_analysis 300 mem_empty)"
    using th[of flat_rows 30 apple "load_ohlcv_from_db flat_rows ''i'' 30"] full flat_exact flat_stored[of 30] n(2) len by simp
  then show ?thesis using flat_first by auto
qed

end
