(* ===== verification/Health_Api.thy ===== *)
theory Health_Api
  imports Scores Risk_Series
begin

text \<open>
  The health score route (\<open>api/health_score.py\<close>): the weights of the holdings, the weighted price index, the
  score of \<open>analysis/health_score.py\<close> (theory \<open>Scores\<close>), the staleness, and the answer cached for a day. Of the
  details of the components only the number of portfolio returns is kept. Redis may be out of reach for the read or
  the write. How pandas sums a row of floats and how the response is printed are parameters.
\<close>

section \<open>The response\<close>

record health_response =
  hr_overall :: rat
  hr_components :: "component list"
  hr_observations :: nat
  hr_staleness :: string
  hr_warning :: "string option"
  hr_computed_at :: instant

definition HEALTH_PRICE_BARS :: nat where "HEALTH_PRICE_BARS = 252"
definition HEALTH_CACHE_TTL :: int where "HEALTH_CACHE_TTL = 24 * 60 * 60"
definition HEALTH_VERY_STALE :: int where "HEALTH_VERY_STALE = 24 * hour"
definition HEALTH_STALE :: int where "HEALTH_STALE = 4 * hour"

definition STALE_WARNING :: string where
  "STALE_WARNING = ''Data outdated '' @ [CHR 0xE2, CHR 0x80, CHR 0x94] @ '' score may not reflect current conditions''"

definition health_cache_key :: "uuid \<Rightarrow> string" where "health_cache_key user_id = ''portfolio:health_score:'' @ user_id"

definition health_staleness :: "instant option \<Rightarrow> instant \<Rightarrow> string \<times> string option" where
  "health_staleness oldest now =
     (case oldest of
        None \<Rightarrow> (''fresh'', None)
      | Some t \<Rightarrow>
          if now - t > HEALTH_VERY_STALE then (''very_stale'', Some STALE_WARNING)
          else if now - t > HEALTH_STALE then (''stale'', None) else (''fresh'', None))"

section \<open>The price index\<close>

text \<open>A series scaled to start at the weight; none when there are no closes or the first is not positive.\<close>

definition normalised_series :: "rat \<Rightarrow> (instant \<times> rat) list option \<Rightarrow> (instant \<times> rat) list option" where
  "normalised_series weight closes =
     (case closes of
        None \<Rightarrow> None
      | Some [] \<Rightarrow> None
      | Some ((t, base) # s) \<Rightarrow> if base \<le> 0 then None else Some (map (\<lambda>(t, x). (t, fmul (fdiv x base) weight)) ((t, base) # s)))"

text \<open>The last value at or before an instant, which is what the union of the indices filled forward holds.\<close>

definition last_known :: "(instant \<times> rat) list \<Rightarrow> instant \<Rightarrow> rat option" where
  "last_known s t = (case filter (\<lambda>(u, x). u \<le> t) s of [] \<Rightarrow> None | us \<Rightarrow> Some (snd (last us)))"

definition portfolio_values :: "(rat list \<Rightarrow> rat) \<Rightarrow> (instant \<times> rat) list list \<Rightarrow> rat list" where
  "portfolio_values row_sum ss =
     map (\<lambda>t. row_sum (concat (map (\<lambda>s. case last_known s t of None \<Rightarrow> [] | Some x \<Rightarrow> [x]) ss)))
       (sorted_list_of_set (set (concat (map (map fst) ss))))"

text \<open>\<open>pct_change().dropna()\<close>: the change from 0 to 0 is a NaN, from 0 to another value infinite, which is kept.\<close>

definition return_count :: "rat list \<Rightarrow> nat" where
  "return_count vs = length (filter (\<lambda>(a, b). \<not> (a = 0 \<and> b = 0)) (zip vs (tl vs)))"

section \<open>Computation and route\<close>

text \<open>The loop over the open positions: their values and the oldest of their dates.\<close>

definition health_holdings :: "holdings_db \<Rightarrow> uuid \<Rightarrow> (instrument_row \<times> rat) list \<times> instant option" where
  "health_holdings db user_id =
     (let rows = filter (\<lambda>(p, i). po_quantity p \<noteq> 0) (user_positions db user_id)
      in (map (\<lambda>(p, i). (i, dmul (po_quantity p) (po_avg_cost p))) rows,
          if rows = [] then None else Some (Min (set (map (\<lambda>(p, i). po_as_of p) rows)))))"

definition compute_health_response ::
  "(rat list \<Rightarrow> rat) \<Rightarrow> (rat list \<Rightarrow> rat) \<Rightarrow> rat \<Rightarrow> price_row list \<Rightarrow> holdings_db \<Rightarrow> uuid \<Rightarrow> instant \<Rightarrow> health_response" where
  "compute_health_response row_sum np_mean sqrt_252 prices db user_id now =
     (let raw = fst (health_holdings db user_id); oldest = snd (health_holdings db user_id);
          total_value = dsum (map snd raw);
          weighted = (if total_value > 0 then map (\<lambda>(i, v). (i, f64 (ddiv v total_value))) raw else []);
          closes = load_close_series_bulk prices (map (\<lambda>(i, v). in_id i) raw) HEALTH_PRICE_BARS;
          series = concat (map (\<lambda>(i, w). case normalised_series w (closes (in_id i)) of None \<Rightarrow> [] | Some s \<Rightarrow> [s]) weighted);
          observations = (if series = [] then 0 else return_count (portfolio_values row_sum series));
          scores = replicate (length raw) None;
          result = compute_health_score np_mean sqrt_252 (map snd weighted) scores scores None;
          stale = health_staleness oldest now
      in \<lparr>hr_overall = fst result, hr_components = snd result, hr_observations = observations,
          hr_staleness = fst stale, hr_warning = snd stale, hr_computed_at = now\<rparr>)"

text \<open>Whether Redis answers the read and the write of this request.\<close>

definition get_health_score ::
  "'r redis \<Rightarrow> (health_response \<Rightarrow> string) \<Rightarrow> (string \<Rightarrow> health_response option) \<Rightarrow> bool \<times> bool \<Rightarrow> uuid \<Rightarrow> health_response \<Rightarrow> 'r
     \<Rightarrow> health_response \<times> 'r" where
  "get_health_score R dump load up user_id live r =
     (let key = health_cache_key user_id
      in case (if fst up then rd_get R r key else None) of
           Some cached \<Rightarrow>
             (case load cached of
                Some response \<Rightarrow> (response, r)
              | None \<Rightarrow> (live, if snd up then rd_set R r key (dump live) (Some HEALTH_CACHE_TTL) else r))
         | None \<Rightarrow> (live, if snd up then rd_set R r key (dump live) (Some HEALTH_CACHE_TTL) else r))"

section \<open>Lemmas\<close>

text \<open>The weights are those of the risk meter.\<close>

lemma same_weights:
  "hr_components (compute_health_response row_sum np_mean sqrt_252 prices db user_id now) =
     snd (compute_health_score np_mean sqrt_252 (mc_weights (load_portfolio_context db user_id)) [] [] None)"
  "hr_overall (compute_health_response row_sum np_mean sqrt_252 prices db user_id now) =
     fst (compute_health_score np_mean sqrt_252 (mc_weights (load_portfolio_context db user_id)) [] [] None)"
  by (auto simp: compute_health_response_def health_holdings_def load_portfolio_context_def meter_weight_def Let_def o_def case_prod_beta
    compute_health_score_def compute_fundamental_def compute_technical_def present_def
    intro!: arg_cong[of _ _ blend] arg_cong[of _ _ compute_diversification])

lemma bracketed_alone:
  assumes b: "bracketed x cs" and cs: "map cp_score cs = [d, None, None, None]"
  shows "case d of None \<Rightarrow> x = 0 | Some s \<Rightarrow> \<bar>x - s\<bar> \<le> 51 / 1000"
proof (cases d)
  case None
  then show ?thesis using b unfolding bracketed_def cs by (simp add: present_def)
next
  case (Some s)
  then have "s - 51 / 1000 \<le> x" "x \<le> s + 51 / 1000" using b unfolding bracketed_def cs by (simp_all add: present_def)
  then have "\<bar>x - s\<bar> \<le> 51 / 1000" by (simp only: abs_le_iff) linarith
  then show ?thesis using Some by simp
qed

definition with_currency :: "string \<Rightarrow> holdings_db \<Rightarrow> holdings_db" where
  "with_currency c db = db\<lparr>hd_positions := map (\<lambda>p. p\<lparr>po_currency := c\<rparr>) (hd_positions db)\<rparr>"

lemma with_currency_positions:
  "user_positions (with_currency c db) u = map (\<lambda>(p, i). (p\<lparr>po_currency := c\<rparr>, i)) (user_positions db u)"
proof -
  have m: "(if b then map (Pair (p\<lparr>po_currency := c\<rparr>)) xs else []) = map (\<lambda>(p, i). (p\<lparr>po_currency := c\<rparr>, i)) (if b then map (Pair p) xs else [])"
    for b p and xs :: "instrument_row list" by (simp add: o_def)
  show ?thesis by (simp add: user_positions_def with_currency_def map_concat o_def m[symmetric] del: if_split cong: if_cong)
qed

lemma with_currency_rows:
  "health_holdings (with_currency c db) u = health_holdings db u"
proof -
  have rows:
  "filter (\<lambda>(p, i). po_quantity p \<noteq> 0) (user_positions (with_currency c db) u) =
     map (\<lambda>(p, i). (p\<lparr>po_currency := c\<rparr>, i)) (filter (\<lambda>(p, i). po_quantity p \<noteq> 0) (user_positions db u))"
    unfolding with_currency_positions filter_map by (auto simp: o_def intro!: arg_cong2[where f = map] filter_cong)
  show ?thesis unfolding health_holdings_def rows Let_def by (simp add: o_def case_prod_beta)
qed

section \<open>Properties\<close>

text \<open>A live health score is the diversification score alone, over the same weights as the risk meter: the other three
  components are never scored, so it is 0 without a portfolio of positive value, and prices change nothing in it.
  The weights add quantities times costs of different currencies: a portfolio whose amounts are all in one currency
  scores the same.\<close>

theorem health_score_is_diversification:
  "let h = compute_health_response row_sum np_mean sqrt_252 prices db user_id now;
       d = cp_score (compute_diversification (mc_weights (load_portfolio_context db user_id)))
   in map cp_score (hr_components h) = [d, None, None, None] \<and>
     (case d of None \<Rightarrow> hr_overall h = 0 | Some s \<Rightarrow> \<bar>hr_overall h - s\<bar> \<le> 51 / 1000) \<and>
     hr_overall (compute_health_response row_sum np_mean sqrt_252 prices' db user_id now) = hr_overall h \<and>
     compute_health_response row_sum np_mean sqrt_252 prices (with_currency c db) user_id now = h"
proof -
  let ?ws = "mc_weights (load_portfolio_context db user_id)"
  let ?r = "compute_health_score np_mean sqrt_252 ?ws [] [] None"
  have cs: "map cp_score (snd ?r) = [cp_score (compute_diversification ?ws), None, None, None]"
    by (simp add: compute_health_score_def Let_def compute_fundamental_def compute_technical_def present_def compute_risk_adjusted_def)
  have "bracketed (fst ?r) (snd ?r)"
    by (simp add: compute_health_score_def Let_def blend_bracketed components_in_scale)
  then have "case cp_score (compute_diversification ?ws) of None \<Rightarrow> fst ?r = 0 | Some s \<Rightarrow> \<bar>fst ?r - s\<bar> \<le> 51 / 1000"
    by (rule bracketed_alone[OF _ cs])
  moreover have "compute_health_response row_sum np_mean sqrt_252 prices (with_currency c db) user_id now =
      compute_health_response row_sum np_mean sqrt_252 prices db user_id now"
    by (simp only: compute_health_response_def with_currency_rows)
  ultimately show ?thesis unfolding Let_def same_weights cs by blast
qed

text \<open>C27. The first answer of the day is frozen: while its entry lives, every request of the user that reaches Redis
  gets it unchanged, with its staleness and its time, whatever the portfolio is by then; other users are not
  affected, and without Redis the answer is live.\<close>

theorem health_score_frozen:
  assumes "redis_kv R" "load (dump live) = Some live"
    and "get_health_score R dump load (True, True) user_id live r = (h, r1)"
  shows "get_health_score R dump load (True, up) user_id live' r1 = (h, r1) \<and>
    get_health_score R dump load (False, up) user_id live' r1 =
      (live', if up then rd_set R r1 (health_cache_key user_id) (dump live') (Some HEALTH_CACHE_TTL) else r1) \<and>
    (other = user_id \<or> rd_get R r1 (health_cache_key other) = rd_get R r (health_cache_key other))"
  using assms
  by (auto simp: get_health_score_def Let_def redis_get_set health_cache_key_def split: option.splits if_splits)

section \<open>Witnesses\<close>

definition empty_health :: health_response where
  "empty_health = compute_health_response sum_list (\<lambda>xs. 0) 0 []
     \<lparr>hd_positions = [], hd_instruments = [], hd_connections = [], hd_rates = []\<rparr> ''u'' 0"

definition later_health :: health_response where "later_health = empty_health\<lparr>hr_overall := 50, hr_computed_at := 7200\<rparr>"

theorem health_score_frozen_witness:
  "\<exists>r1. get_health_score mem_redis (\<lambda>h. ''{}'') (\<lambda>s. Some empty_health) (True, True) ''u'' empty_health mem_empty = (empty_health, r1) \<and>
     get_health_score mem_redis (\<lambda>h. ''{}'') (\<lambda>s. Some empty_health) (True, True) ''u'' later_health r1 = (empty_health, r1) \<and>
     hr_computed_at later_health \<noteq> hr_computed_at empty_health"
proof -
  have "rd_get mem_redis mem_empty (health_cache_key ''u'') = None" by (simp add: mem_redis_def mem_empty_def)
  then have first: "get_health_score mem_redis (\<lambda>h. ''{}'') (\<lambda>s. Some empty_health) (True, True) ''u'' empty_health mem_empty =
      (empty_health, rd_set mem_redis mem_empty (health_cache_key ''u'') ''{}'' (Some HEALTH_CACHE_TTL))"
    by (simp add: get_health_score_def Let_def)
  have "hr_computed_at later_health \<noteq> hr_computed_at empty_health"
    by (simp add: later_health_def empty_health_def compute_health_response_def Let_def)
  then show ?thesis
    using health_score_frozen[OF mem_redis_kv refl first, of True later_health "''u''"] first by blast
qed

end
