(* ===== verification/Instruments_Api.thy ===== *)
theory Instruments_Api
  imports Symbols Http
begin

text \<open>
  The instruments routes (\<open>api/instruments.py\<close>) over the session of a request (\<open>db.py\<close>), and the loader of the
  seed (\<open>seeds/instruments.py\<close>). A request works on its own view of the tables; what it leaves in the database is
  what it committed. The ids PostgreSQL generates are an argument.
\<close>

section \<open>The session of a request\<close>

text \<open>A handler answers with its view of the tables and with the committed ones. Closing the session drops the rest,
  and an exception rolls it back; nothing commits on success.\<close>

definition with_session :: "('d \<Rightarrow> ('e + 'a) \<times> 'd \<times> 'd) \<Rightarrow> 'd \<Rightarrow> ('e + 'a) \<times> 'd" where
  "with_session handler committed = (case handler committed of (answer, working, kept) \<Rightarrow> (answer, kept))"

section \<open>Routes\<close>

record resolve_request =
  iq_symbol :: string
  iq_exchange :: string
  iq_name :: "string option"
  iq_currency :: "string option"
  iq_asset_class :: "string option"
  iq_isin :: "string option"

definition length_between :: "nat \<Rightarrow> nat \<Rightarrow> string option \<Rightarrow> bool" where
  "length_between lo hi v = (case v of None \<Rightarrow> True | Some s \<Rightarrow> lo \<le> length s \<and> length s \<le> hi)"

definition resolve_request_valid :: "resolve_request \<Rightarrow> bool" where
  "resolve_request_valid q \<longleftrightarrow>
     length_between 1 32 (Some (iq_symbol q)) \<and> length_between 1 16 (Some (iq_exchange q)) \<and> length_between 0 255 (iq_name q) \<and>
     length_between 3 3 (iq_currency q) \<and> length_between 0 32 (iq_asset_class q) \<and> length_between 12 12 (iq_isin q)"

text \<open>\<open>others\<close> is what other transactions commit meanwhile.\<close>

definition resolve_instrument ::
  "(instrument list \<Rightarrow> instrument list) \<Rightarrow> uuid \<Rightarrow> resolve_request \<Rightarrow> instrument list
     \<Rightarrow> (route_error + instrument) \<times> instrument list \<times> instrument list" where
  "resolve_instrument others fresh q rows =
     (if \<not> resolve_request_valid q then (Inl Unprocessable, rows, others rows)
      else (let asset_class = (case iq_asset_class q of Some (c # cs) \<Rightarrow> c # cs | _ \<Rightarrow> ''equity'')
            in case resolve others fresh (iq_symbol q) (iq_exchange q) (iq_name q) (iq_currency q) asset_class (iq_isin q) True rows of
                 Inl (LookupError m) \<Rightarrow> (Inl (Bad_Request m), rows, others rows)
               | Inl e \<Rightarrow> (Inl Server_Error, rows, others rows)
               | Inr (i, working) \<Rightarrow> (Inr i, working, others rows)))"

definition search_route ::
  "(string \<Rightarrow> string \<Rightarrow> bool) \<Rightarrow> (instrument list \<Rightarrow> instrument list) \<Rightarrow> string \<Rightarrow> int \<Rightarrow> instrument list \<Rightarrow> route_error + instrument list" where
  "search_route ilike order_by_symbol q limit rows =
     (if \<not> length_between 1 64 (Some q) \<or> limit < 1 \<or> 100 < limit then Inl Unprocessable
      else Inr (search_instruments ilike order_by_symbol q (nat limit) rows))"

definition get_instrument :: "uuid \<Rightarrow> symbol_db \<Rightarrow> route_error + instrument \<times> mapping_row list" where
  "get_instrument instrument_id db =
     (case get_detail instrument_id db of None \<Rightarrow> Inl (Not_Found ''instrument not found'') | Some d \<Rightarrow> Inr d)"

definition get_data_symbol :: "uuid \<Rightarrow> string \<Rightarrow> symbol_db \<Rightarrow> route_error + string \<times> string" where
  "get_data_symbol instrument_id provider db =
     (case get_by_id instrument_id (sb_instruments db) of
        None \<Rightarrow> Inl (Not_Found ''instrument not found'')
      | Some i \<Rightarrow> (case data_symbol i provider of Inl m \<Rightarrow> Inl (Bad_Request m) | Inr s \<Rightarrow> Inr (provider, s)))"

section \<open>Seeding\<close>

text \<open>A row of the fixture; the US rows name their exchange and have no ISIN.\<close>

record seed_row =
  sd_symbol :: string
  sd_exchange :: string
  sd_name :: string
  sd_isin :: "string option"
  sd_broker_symbol :: string
  sd_broker_exchange :: "string option"

definition seed_instrument ::
  "(instrument list \<Rightarrow> uuid) \<Rightarrow> string \<Rightarrow> seed_row \<Rightarrow> instrument list \<Rightarrow> query_error + uuid \<times> instrument list \<times> nat" where
  "seed_instrument fresh currency row rows =
     (let same = filter (\<lambda>i. in_symbol i = sd_symbol row \<and> in_exchange i = sd_exchange row) rows
      in if same = []
         then (let i = \<lparr>in_id = fresh rows, in_symbol = sd_symbol row, in_exchange = sd_exchange row, in_name = sd_name row,
                    in_currency = currency, in_asset_class = ''equity'', in_isin = sd_isin row, in_active = True\<rparr>
               in Inr (in_id i, rows @ [i], 1))
         else (case scalar_one_or_none same of
                 Inr (Some i) \<Rightarrow> Inr (in_id i, rows, 0) | _ \<Rightarrow> Inl MultipleResultsFound))"

definition seed_mapping :: "string \<Rightarrow> uuid \<Rightarrow> seed_row \<Rightarrow> mapping_row list \<Rightarrow> mapping_row list \<times> nat" where
  "seed_mapping broker instrument_id row maps =
     (let m = \<lparr>mp_instrument = instrument_id, mp_broker = broker, mp_symbol = sd_broker_symbol row,
            mp_exchange = Some (case sd_broker_exchange row of None \<Rightarrow> sd_exchange row | Some e \<Rightarrow> e)\<rparr>
      in if list_ex (mapping_matches broker (mp_symbol m) (mp_exchange m)) maps then (maps, 0) else (maps @ [m], 1))"

definition seed_step ::
  "(instrument list \<Rightarrow> uuid) \<Rightarrow> string \<Rightarrow> string \<Rightarrow> seed_row \<Rightarrow> symbol_db \<times> nat \<times> nat \<Rightarrow> query_error + symbol_db \<times> nat \<times> nat" where
  "seed_step fresh currency broker row st =
     (case st of (db, n, k) \<Rightarrow>
        bind_res (seed_instrument fresh currency row (sb_instruments db)) (\<lambda>(i, rows, dn).
          case seed_mapping broker i row (sb_mappings db) of
            (maps, dk) \<Rightarrow> Inr (db\<lparr>sb_instruments := rows, sb_mappings := maps\<rparr>, n + dn, k + dk)))"

fun seed_loop ::
  "(instrument list \<Rightarrow> uuid) \<Rightarrow> string \<Rightarrow> string \<Rightarrow> seed_row list \<Rightarrow> symbol_db \<times> nat \<times> nat \<Rightarrow> query_error + symbol_db \<times> nat \<times> nat" where
  "seed_loop fresh currency broker [] st = Inr st"
| "seed_loop fresh currency broker (row # rows) st = bind_res (seed_step fresh currency broker row st) (seed_loop fresh currency broker rows)"

text \<open>The Indian rows are all of the NSE. The counts are of inserted instruments and mappings; an exception leaves
  the database as it was.\<close>

definition seed_instruments ::
  "(instrument list \<Rightarrow> uuid) \<Rightarrow> seed_row list \<Rightarrow> seed_row list \<Rightarrow> symbol_db \<Rightarrow> (query_error + nat \<times> nat) \<times> symbol_db \<times> symbol_db" where
  "seed_instruments fresh nse us db =
     (case bind_res (seed_loop fresh ''INR'' ''zerodha'' (map (\<lambda>r. r\<lparr>sd_exchange := ''NSE''\<rparr>) nse) (db, 0, 0))
             (seed_loop fresh ''USD'' ''alpaca'' (map (\<lambda>r. r\<lparr>sd_isin := None\<rparr>) us)) of
        Inl e \<Rightarrow> (Inl e, db, db)
      | Inr (db', n, k) \<Rightarrow> (Inr (n, k), db', db'))"


section \<open>Lemmas\<close>

definition mapping_of :: "string \<Rightarrow> seed_row \<Rightarrow> string \<times> string \<times> string option" where
  "mapping_of broker row = (broker, sd_broker_symbol row, Some (case sd_broker_exchange row of None \<Rightarrow> sd_exchange row | Some e \<Rightarrow> e))"

definition seeded :: "string \<Rightarrow> symbol_db \<Rightarrow> seed_row \<Rightarrow> bool" where
  "seeded broker db row \<longleftrightarrow>
     (sd_symbol row, sd_exchange row) \<in> instrument_key ` set (sb_instruments db) \<and> mapping_of broker row \<in> mapping_key ` set (sb_mappings db)"

text \<open>\<open>n\<close> instruments and \<open>k\<close> mappings were added at the end of the tables, which stayed sound.\<close>

definition extended :: "symbol_db \<Rightarrow> symbol_db \<Rightarrow> nat \<Rightarrow> nat \<Rightarrow> bool" where
  "extended db db' n k \<longleftrightarrow> symbols_ok db' \<and>
     (\<exists>new ms. sb_instruments db' = sb_instruments db @ new \<and> length new = n \<and> sb_mappings db' = sb_mappings db @ ms \<and> length ms = k)"

lemma extended_refl: "symbols_ok db \<Longrightarrow> extended db db 0 0"
  by (simp add: extended_def)

lemma extended_trans: "extended db db1 n k \<Longrightarrow> extended db1 db2 m l \<Longrightarrow> extended db db2 (n + m) (k + l)"
  unfolding extended_def by auto

lemma seeded_extended: "seeded broker db row \<Longrightarrow> extended db db' n k \<Longrightarrow> seeded broker db' row"
  by (auto simp: seeded_def extended_def)

lemma same_instrument_key:
  "filter (\<lambda>i. in_symbol i = s \<and> in_exchange i = e) rows = filter (\<lambda>i. instrument_key i = (s, e)) rows"
  by (simp add: instrument_key_def)

lemma key_lookup:
  "list_ex (\<lambda>x. f x = k) xs \<longleftrightarrow> k \<in> f ` set xs" "filter (\<lambda>x. f x = k) xs = [] \<longleftrightarrow> k \<notin> f ` set xs"
  by (induction xs) auto

lemma seed_instrument_works:
  assumes ok: "symbols_ok db" and fresh: "\<And>rows. fresh rows \<notin> in_id ` set rows"
  shows "\<exists>i rows dn. seed_instrument fresh currency row (sb_instruments db) = Inr (i, rows, dn) \<and>
      extended db (db\<lparr>sb_instruments := rows\<rparr>) dn 0 \<and> i \<in> in_id ` set rows \<and>
      (sd_symbol row, sd_exchange row) \<in> instrument_key ` set rows \<and>
      ((sd_symbol row, sd_exchange row) \<in> instrument_key ` set (sb_instruments db) \<longrightarrow> rows = sb_instruments db \<and> dn = 0)"
proof (cases "(sd_symbol row, sd_exchange row) \<in> instrument_key ` set (sb_instruments db)")
  case True
  then obtain i where i: "i \<in> set (sb_instruments db)" "instrument_key i = (sd_symbol row, sd_exchange row)" by auto
  have "distinct (map instrument_key (sb_instruments db))" using ok by (simp add: symbols_ok_def)
  then have "filter (\<lambda>j. instrument_key j = (sd_symbol row, sd_exchange row)) (sb_instruments db) = [i]"
    using filter_key_distinct[of instrument_key "sb_instruments db" i] i by simp
  then have "seed_instrument fresh currency row (sb_instruments db) = Inr (in_id i, sb_instruments db, 0)"
    by (simp add: seed_instrument_def same_instrument_key)
  then show ?thesis using i True extended_refl[OF ok] by simp
next
  case False
  define new where "new = \<lparr>in_id = fresh (sb_instruments db), in_symbol = sd_symbol row, in_exchange = sd_exchange row, in_name = sd_name row,
      in_currency = currency, in_asset_class = ''equity'', in_isin = sd_isin row, in_active = True\<rparr>"
  have k: "instrument_key new = (sd_symbol row, sd_exchange row)" "in_id new = fresh (sb_instruments db)"
    by (simp_all add: new_def instrument_key_def)
  have "filter (\<lambda>j. instrument_key j = (sd_symbol row, sd_exchange row)) (sb_instruments db) = []"
    using False by (simp only: key_lookup not_False_eq_True)
  then have "seed_instrument fresh currency row (sb_instruments db) = Inr (in_id new, sb_instruments db @ [new], 1)"
    by (simp add: seed_instrument_def same_instrument_key new_def)
  moreover have "extended db (db\<lparr>sb_instruments := sb_instruments db @ [new]\<rparr>) 1 0"
    using ok False k fresh[of "sb_instruments db"] by (simp add: extended_def symbols_ok_def)
  ultimately show ?thesis using k False
    by (intro exI[of _ "in_id new"] exI[of _ "sb_instruments db @ [new]"] exI[of _ 1]) simp
qed

lemma seed_mapping_cases:
  "seed_mapping broker i row maps = (if mapping_of broker row \<in> mapping_key ` set maps then (maps, 0)
     else (maps @ [\<lparr>mp_instrument = i, mp_broker = broker, mp_symbol = sd_broker_symbol row,
        mp_exchange = Some (case sd_broker_exchange row of None \<Rightarrow> sd_exchange row | Some e \<Rightarrow> e)\<rparr>], 1))"
  by (simp add: seed_mapping_def mapping_matches_key mapping_of_def key_lookup(1) Let_def)

lemma extended_mapping:
  assumes "extended db (db\<lparr>sb_instruments := rows\<rparr>) n 0" "mp_instrument m \<in> in_id ` set rows" "mapping_key m \<notin> mapping_key ` set (sb_mappings db)"
  shows "extended db (db\<lparr>sb_instruments := rows, sb_mappings := sb_mappings db @ [m]\<rparr>) n 1"
proof -
  have "symbols_ok (db\<lparr>sb_instruments := rows, sb_mappings := sb_mappings db @ [m]\<rparr>)"
    using assms unfolding extended_def symbols_ok_def by simp
  moreover obtain new where "rows = sb_instruments db @ new" "length new = n"
    using assms(1) by (auto simp: extended_def)
  ultimately show ?thesis unfolding extended_def by (intro conjI exI[of _ new] exI[of _ "[m]"]) simp_all
qed

lemma seed_step_works:
  assumes ok: "symbols_ok db" and fresh: "\<And>rows. fresh rows \<notin> in_id ` set rows"
  shows "\<exists>db' dn dk. seed_step fresh currency broker row (db, n, k) = Inr (db', n + dn, k + dk) \<and>
    extended db db' dn dk \<and> seeded broker db' row \<and> (seeded broker db row \<longrightarrow> db' = db \<and> dn = 0 \<and> dk = 0)"
proof -
  obtain i rows dn where i: "seed_instrument fresh currency row (sb_instruments db) = Inr (i, rows, dn)"
    "extended db (db\<lparr>sb_instruments := rows\<rparr>) dn 0" "i \<in> in_id ` set rows" "(sd_symbol row, sd_exchange row) \<in> instrument_key ` set rows"
    "(sd_symbol row, sd_exchange row) \<in> instrument_key ` set (sb_instruments db) \<longrightarrow> rows = sb_instruments db \<and> dn = 0"
    using seed_instrument_works[OF ok fresh, of currency row] by (elim exE conjE) (rule that)
  define m where "m = \<lparr>mp_instrument = i, mp_broker = broker, mp_symbol = sd_broker_symbol row,
      mp_exchange = Some (case sd_broker_exchange row of None \<Rightarrow> sd_exchange row | Some e \<Rightarrow> e)\<rparr>"
  have key: "mapping_key m = mapping_of broker row" "mp_instrument m = i" by (simp_all add: m_def mapping_key_def mapping_of_def)
  show ?thesis
  proof (cases "mapping_of broker row \<in> mapping_key ` set (sb_mappings db)")
    case True
    then have "seed_step fresh currency broker row (db, n, k) = Inr (db\<lparr>sb_instruments := rows\<rparr>, n + dn, k + 0)"
      using i(1) by (simp add: seed_step_def seed_mapping_cases)
    moreover have "seeded broker (db\<lparr>sb_instruments := rows\<rparr>) row" using True i(4) by (simp add: seeded_def)
    moreover have "seeded broker db row \<longrightarrow> db\<lparr>sb_instruments := rows\<rparr> = db \<and> dn = 0 \<and> (0 :: nat) = 0"
      using i(5) by (simp add: seeded_def)
    ultimately show ?thesis using i(2) by (intro exI[of _ "db\<lparr>sb_instruments := rows\<rparr>"] exI[of _ dn] exI[of _ 0] conjI) simp_all
  next
    case False
    let ?db = "db\<lparr>sb_instruments := rows, sb_mappings := sb_mappings db @ [m]\<rparr>"
    have "seed_step fresh currency broker row (db, n, k) = Inr (?db, n + dn, k + 1)"
      using i(1) False by (simp add: seed_step_def seed_mapping_cases m_def)
    moreover have "extended db ?db dn 1" using extended_mapping[OF i(2)] i(3) False key by simp
    moreover have "seeded broker ?db row" using i(4) key by (simp add: seeded_def)
    moreover have "\<not> seeded broker db row" using False by (simp add: seeded_def)
    ultimately show ?thesis by (intro exI[of _ ?db] exI[of _ dn] exI[of _ 1] conjI) simp_all
  qed
qed

lemma seed_loop_works:
  assumes fresh: "\<And>rows. fresh rows \<notin> in_id ` set rows"
  shows "symbols_ok db \<Longrightarrow> \<exists>db' dn dk. seed_loop fresh currency broker rows (db, n, k) = Inr (db', n + dn, k + dk) \<and>
    extended db db' dn dk \<and> list_all (seeded broker db') rows \<and> (list_all (seeded broker db) rows \<longrightarrow> db' = db \<and> dn = 0 \<and> dk = 0)"
proof (induction rows arbitrary: db n k)
  case Nil
  then show ?case using extended_refl by auto
next
  case (Cons row rows)
  obtain db1 dn dk where 1: "seed_step fresh currency broker row (db, n, k) = Inr (db1, n + dn, k + dk)" "extended db db1 dn dk"
    "seeded broker db1 row" "seeded broker db row \<longrightarrow> db1 = db \<and> dn = 0 \<and> dk = 0"
    using seed_step_works[OF Cons.prems fresh] by blast
  then have "symbols_ok db1" by (simp add: extended_def)
  then obtain db2 dm dl where 2: "seed_loop fresh currency broker rows (db1, n + dn, k + dk) = Inr (db2, n + dn + dm, k + dk + dl)"
    "extended db1 db2 dm dl" "list_all (seeded broker db2) rows" "list_all (seeded broker db1) rows \<longrightarrow> db2 = db1 \<and> dm = 0 \<and> dl = 0"
    using Cons.IH by blast
  have "extended db db2 (dn + dm) (dk + dl)" using extended_trans[OF 1(2) 2(2)] .
  moreover have "seeded broker db2 row" using seeded_extended[OF 1(3) 2(2)] .
  ultimately show ?case using 1(1,4) 2(1,3,4)
    by (intro exI[of _ db2] exI[of _ "dn + dm"] exI[of _ "dk + dl"]) (auto simp: add.assoc)
qed


section \<open>Properties\<close>

text \<open>Seeding always succeeds on sound tables and keeps them sound: it only adds rows, exactly the counted ones, and
  afterwards every row of the fixture has its instrument and its mapping. Seeding again, whatever ids are generated
  then, adds nothing.\<close>

theorem seed_idempotent:
  assumes ok: "symbols_ok db" and fresh: "\<And>rows. fresh rows \<notin> in_id ` set rows" "\<And>rows. fresh2 rows \<notin> in_id ` set rows"
  shows "\<exists>n k db'. seed_instruments fresh nse us db = (Inr (n, k), db', db') \<and> symbols_ok db' \<and>
    take (length (sb_instruments db)) (sb_instruments db') = sb_instruments db \<and> length (sb_instruments db') = length (sb_instruments db) + n \<and>
    take (length (sb_mappings db)) (sb_mappings db') = sb_mappings db \<and> length (sb_mappings db') = length (sb_mappings db) + k \<and>
    list_all (\<lambda>r. seeded ''zerodha'' db' (r\<lparr>sd_exchange := ''NSE''\<rparr>)) nse \<and> list_all (seeded ''alpaca'' db') us \<and>
    seed_instruments fresh2 nse us db' = (Inr (0, 0), db', db')"
proof -
  let ?nse = "map (\<lambda>r. r\<lparr>sd_exchange := ''NSE''\<rparr>) nse" and ?us = "map (\<lambda>r. r\<lparr>sd_isin := None\<rparr>) us"
  have us: "list_all (seeded b d) ?us \<longleftrightarrow> list_all (seeded b d) us" for b d
    by (simp add: list_all_iff seeded_def mapping_of_def cong: option.case_cong)
  obtain db1 n1 k1 where 1: "seed_loop fresh ''INR'' ''zerodha'' ?nse (db, 0, 0) = Inr (db1, n1, k1)"
    "extended db db1 n1 k1" "list_all (seeded ''zerodha'' db1) ?nse"
    using seed_loop_works[OF fresh(1) ok, of "''INR''" "''zerodha''" ?nse 0 0] by auto
  then have ok1: "symbols_ok db1" by (simp add: extended_def)
  obtain db2 n2 k2 where 2: "seed_loop fresh ''USD'' ''alpaca'' ?us (db1, n1, k1) = Inr (db2, n1 + n2, k1 + k2)"
    "extended db1 db2 n2 k2" "list_all (seeded ''alpaca'' db2) ?us"
    using seed_loop_works[OF fresh(1) ok1, of "''USD''" "''alpaca''" ?us n1 k1] by auto
  then have ok2: "symbols_ok db2" by (simp add: extended_def)
  have n: "list_all (seeded ''zerodha'' db2) ?nse"
    using 1(3) seeded_extended[OF _ 2(2)] by (auto simp: list_all_iff)
  have ext: "extended db db2 (n1 + n2) (k1 + k2)" using extended_trans[OF 1(2) 2(2)] .
  have "seed_loop fresh2 ''INR'' ''zerodha'' ?nse (db2, 0, 0) = Inr (db2, 0, 0)"
    using seed_loop_works[OF fresh(2) ok2, of "''INR''" "''zerodha''" ?nse 0 0] n by auto
  moreover have "seed_loop fresh2 ''USD'' ''alpaca'' ?us (db2, 0, 0) = Inr (db2, 0, 0)"
    using seed_loop_works[OF fresh(2) ok2, of "''USD''" "''alpaca''" ?us 0 0] 2(3) by auto
  ultimately have "seed_instruments fresh2 nse us db2 = (Inr (0, 0), db2, db2)" by (simp add: seed_instruments_def)
  moreover have "seed_instruments fresh nse us db = (Inr (n1 + n2, k1 + k2), db2, db2)"
    using 1(1) 2(1) by (simp add: seed_instruments_def)
  ultimately show ?thesis
    using ext 2(3) n us by (auto simp: extended_def list.pred_map o_def intro!: exI[of _ "n1 + n2"])
qed

text \<open>C29. An instrument that the resolve route creates is answered with its id but not stored: the session is closed
  without a commit, so the table stays what the other requests made of it and asking for the id is a 404.\<close>

theorem resolved_instrument_lost:
  assumes "with_session (resolve_instrument others fresh q) rows = (Inr i, rows')"
    and "fresh \<notin> in_id ` set (others rows)"
  shows "rows' = others rows \<and>
    (i \<in> set rows \<or> i \<in> set (others rows) \<or>
      (in_id i = fresh \<and> i \<notin> set rows' \<and>
       get_instrument (in_id i) \<lparr>sb_instruments = rows', sb_mappings = maps\<rparr> = Inl (Not_Found ''instrument not found'')))"
proof -
  obtain ac work where r: "resolve others fresh (iq_symbol q) (iq_exchange q) (iq_name q) (iq_currency q) ac (iq_isin q) True rows = Inr (i, work)"
    and rows': "rows' = others rows"
    using assms(1) by (auto simp: with_session_def resolve_instrument_def Let_def split: if_splits sum.splits resolve_error.splits)
  have found: "get_by_symbol_exchange x y zs = Inr (Some j) \<Longrightarrow> j \<in> set zs" for x y zs j
    by (auto simp: get_by_symbol_exchange_def scalar_one_or_none_iff filter_eq_Cons_iff)
  have "i \<in> set rows \<or> i \<in> set (others rows) \<or> in_id i = fresh"
    using r by (auto simp: resolve_def Let_def dest: found split: sum.splits option.splits if_splits)
  moreover have "in_id i = fresh \<Longrightarrow> i \<notin> set rows'" using assms(2) rows' by auto
  moreover have "in_id i = fresh \<Longrightarrow> find (\<lambda>j. in_id j = in_id i) rows' = None"
    using assms(2) rows' unfolding find_None_iff by (metis image_eqI)
  ultimately show ?thesis using rows' by (auto simp: get_instrument_def get_detail_def get_by_id_def)
qed


section \<open>Witnesses\<close>

text \<open>An id longer than all the others.\<close>

definition longer_id :: "instrument list \<Rightarrow> uuid" where "longer_id rows = ''x'' @ concat (map in_id rows)"

lemma longer_id_fresh: "longer_id rows \<notin> in_id ` set rows"
proof
  assume "longer_id rows \<in> in_id ` set rows"
  then obtain i where "i \<in> set rows" "in_id i = longer_id rows" by auto
  moreover have "i \<in> set rows \<Longrightarrow> length (in_id i) \<le> length (concat (map in_id rows))" for i
    by (induction rows) auto
  ultimately show False by (fastforce simp: longer_id_def)
qed

definition reliance_seed :: seed_row where
  "reliance_seed = \<lparr>sd_symbol = ''RELIANCE'', sd_exchange = ''NSE'', sd_name = ''Reliance'', sd_isin = Some ''INE002A01018'',
     sd_broker_symbol = ''RELIANCE'', sd_broker_exchange = Some ''NSE''\<rparr>"

definition no_symbols :: symbol_db where "no_symbols = \<lparr>sb_instruments = [], sb_mappings = []\<rparr>"

theorem seed_idempotent_witness:
  "\<exists>db'. seed_instruments longer_id [reliance_seed] [] no_symbols = (Inr (1, 1), db', db') \<and>
     seed_instruments longer_id [reliance_seed] [] db' = (Inr (0, 0), db', db')"
proof -
  have ok: "symbols_ok no_symbols" by (simp add: symbols_ok_def no_symbols_def)
  have "fst (seed_instruments longer_id [reliance_seed] [] no_symbols) = Inr (1, 1)" by code_simp
  then show ?thesis
    using seed_idempotent[OF ok longer_id_fresh longer_id_fresh, of "[reliance_seed]" "[]"] by fastforce
qed

definition tesla_request :: resolve_request where
  "tesla_request = \<lparr>iq_symbol = ''tsla'', iq_exchange = ''XNAS'', iq_name = Some ''Tesla'', iq_currency = None,
     iq_asset_class = None, iq_isin = None\<rparr>"

theorem resolved_instrument_lost_witness:
  "\<exists>i. with_session (resolve_instrument (\<lambda>rows. rows) ''id'' tesla_request) [] = (Inr i, []) \<and> in_symbol i = ''TSLA'' \<and>
     get_instrument (in_id i) no_symbols = Inl (Not_Found ''instrument not found'')"
proof -
  have "\<exists>i. with_session (resolve_instrument (\<lambda>rows. rows) ''id'' tesla_request) [] = (Inr i, []) \<and> in_symbol i = ''TSLA''"
    by (intro exI[of _ "case fst (with_session (resolve_instrument (\<lambda>rows. rows) ''id'' tesla_request) []) of Inr i \<Rightarrow> i"]) code_simp
  then obtain i where i: "with_session (resolve_instrument (\<lambda>rows. rows) ''id'' tesla_request) [] = (Inr i, [])" "in_symbol i = ''TSLA''"
    by blast
  show ?thesis using resolved_instrument_lost[OF i(1), of "[]"] i by (auto simp: no_symbols_def)
qed

end
