(* ===== verification/Safety_Api.thy ===== *)
theory Safety_Api
  imports Safety Http "HOL-Library.Sublist"
begin

text \<open>
  The safety routes (\<open>api/safety.py\<close>) and the query of the audit log behind them (\<open>safety/audit_query.py\<close>). A row of
  the log carries the id and the time PostgreSQL gave it: the time of its transaction, so rows written together have
  the same. ORDER BY leaves the order of such rows open, which is why sorting is a parameter.
\<close>

section \<open>The query\<close>

record stamped_row = audit_row +
  st_id :: uuid
  st_occurred_at :: instant

type_synonym sorting = "stamped_row list \<Rightarrow> stamped_row list"

text \<open>Newest first, in any order among equals.\<close>

definition newest_first :: "sorting \<Rightarrow> bool" where
  "newest_first order \<longleftrightarrow> (\<forall>rows. mset (order rows) = mset rows \<and> sorted (map (\<lambda>r. - st_occurred_at r) (order rows)))"

definition recent_safety_events :: "sorting \<Rightarrow> uuid \<Rightarrow> nat \<Rightarrow> stamped_row list \<Rightarrow> stamped_row list" where
  "recent_safety_events order user_id limit rows =
     take limit (order (filter (\<lambda>r. au_user r = Some user_id \<and> prefix ''safety.'' (au_event r)) rows))"

record audit_page =
  ap_items :: "stamped_row list"
  ap_page :: nat
  ap_per_page :: nat
  ap_total :: nat

definition audit_filter :: "uuid \<Rightarrow> string option \<Rightarrow> stamped_row \<Rightarrow> bool" where
  "audit_filter user_id event_type r \<longleftrightarrow> au_user r = Some user_id \<and> (case event_type of None \<Rightarrow> True | Some e \<Rightarrow> au_event r = e)"

definition audit_page_of :: "sorting \<Rightarrow> uuid \<Rightarrow> nat \<Rightarrow> nat \<Rightarrow> string option \<Rightarrow> stamped_row list \<Rightarrow> audit_page" where
  "audit_page_of order user_id page per_page event_type rows =
     (let found = filter (audit_filter user_id event_type) rows; offset = (page - 1) * per_page
      in \<lparr>ap_items = take per_page (drop offset (order found)), ap_page = page, ap_per_page = per_page, ap_total = length found\<rparr>)"

section \<open>Routes\<close>

definition get_audit_log :: "sorting \<Rightarrow> uuid \<Rightarrow> int \<Rightarrow> int \<Rightarrow> string option \<Rightarrow> stamped_row list \<Rightarrow> route_error + audit_page" where
  "get_audit_log order user_id page per_page event_type rows =
     (if page < 1 \<or> per_page < 1 \<or> 100 < per_page then Inl Unprocessable
      else Inr (audit_page_of order user_id (nat page) (nat per_page) event_type rows))"

record kill_switch_response =
  kr_active :: bool
  kr_toggled_at :: instant
  kr_latency_ms :: rat

text \<open>Redis is written at once, the audit row with the commit, which may fail.\<close>

definition activate_kill_switch ::
  "'r redis \<Rightarrow> bool \<Rightarrow> instant \<Rightarrow> rat \<Rightarrow> uuid \<Rightarrow> 'r world \<Rightarrow> (route_error + kill_switch_response) \<times> 'r world" where
  "activate_kill_switch R commits now latency_ms user_id w =
     (let w1 = snd (kill_switch_activate R user_id w)
      in if commits then (Inr \<lparr>kr_active = True, kr_toggled_at = now, kr_latency_ms = latency_ms\<rparr>, w1)
         else (Inl Server_Error, w1\<lparr>w_audit := w_audit w\<rparr>))"

definition deactivate_kill_switch ::
  "'r redis \<Rightarrow> bool \<Rightarrow> instant \<Rightarrow> rat \<Rightarrow> uuid \<Rightarrow> 'r world \<Rightarrow> (route_error + kill_switch_response) \<times> 'r world" where
  "deactivate_kill_switch R commits now latency_ms user_id w =
     (let w1 = kill_switch_deactivate R user_id w
      in if commits then (Inr \<lparr>kr_active = False, kr_toggled_at = now, kr_latency_ms = latency_ms\<rparr>, w1)
         else (Inl Server_Error, w1\<lparr>w_audit := w_audit w\<rparr>))"

record safety_status =
  ss_kill_switch_active :: bool
  ss_limits :: safety_limits
  ss_recent_violations :: "stamped_row list"

definition get_status :: "'r redis \<Rightarrow> sorting \<Rightarrow> uuid \<Rightarrow> stamped_row list \<Rightarrow> 'r world \<Rightarrow> safety_status" where
  "get_status R order user_id rows w =
     \<lparr>ss_kill_switch_active = kill_switch_is_active R user_id w, ss_limits = default_limits,
      ss_recent_violations = recent_safety_events order user_id 10 rows\<rparr>"


section \<open>Lemmas\<close>

text \<open>Consecutive slices of a list make it up.\<close>

lemma concat_slices: "concat (map (\<lambda>k. take n (drop (k * n) xs)) [0..<m]) = take (m * n) xs"
proof (induction m)
  case (Suc m)
  have "take (Suc m * n) xs = take (m * n) xs @ take n (drop (m * n) xs)"
    using take_add[of "m * n" n xs] by (simp add: add.commute)
  then show ?case using Suc.IH by simp
qed simp

lemma pages_cover: "0 < n \<Longrightarrow> k \<le> (k + n - 1) div n * n" for n :: nat
proof -
  assume "0 < n"
  then have "(k + n - 1) mod n < n" by simp
  moreover have "(k + n - 1) div n * n + (k + n - 1) mod n = k + n - 1" by (rule div_mult_mod_eq)
  ultimately show ?thesis using \<open>0 < n\<close> by linarith
qed

text \<open>Rows of one transaction have the same time, and two queries may order them differently: a row shows on both pages.\<close>

definition sort_newest :: sorting where "sort_newest = sort_key (\<lambda>r. - st_occurred_at r)"
definition sort_newest_last_written :: sorting where "sort_newest_last_written rows = rev (sort_key st_occurred_at rows)"

lemma sort_newest_ok: "newest_first sort_newest"
  by (simp add: newest_first_def sort_newest_def)

lemma sort_newest_last_written_ok: "newest_first sort_newest_last_written"
proof -
  have "sorted (map f xs) \<Longrightarrow> sorted (map (\<lambda>r. - f r) (rev xs))" for f :: "stamped_row \<Rightarrow> instant" and xs
    by (induction xs) (auto simp: sorted_append)
  then show ?thesis by (simp add: newest_first_def sort_newest_last_written_def)
qed

lemma ties_repeat:
  assumes "au_user a = Some u" "au_user b = Some u" "st_occurred_at a = st_occurred_at b"
  shows "ap_items (audit_page_of sort_newest u 1 1 None [a, b]) = [a] \<and>
    ap_items (audit_page_of sort_newest_last_written u 2 1 None [a, b]) = [a]"
  using assms by (simp add: audit_page_of_def audit_filter_def sort_newest_def sort_newest_last_written_def)

section \<open>Properties\<close>

text \<open>For one order of the rows the pages of the audit log make up the log of the user: put together they are all
  matching rows once, newest first, none is longer than asked for, and the total is their number; a page beyond the
  last is empty, and a page or a size out of range is refused.\<close>

theorem audit_pages_partition:
  assumes order: "newest_first order" and size: "1 \<le> n" "n \<le> 100"
  shows "let found = filter (audit_filter u e) rows; pages = (length found + n - 1) div n;
      page = (\<lambda>k. get_audit_log order u (int k) (int n) e rows)
    in concat (map (\<lambda>k. case page k of Inl x \<Rightarrow> [] | Inr p \<Rightarrow> ap_items p) [1..<Suc pages]) = order found \<and>
      mset (order found) = mset found \<and> sorted (map (\<lambda>r. - st_occurred_at r) (order found)) \<and>
      (\<forall>k. case page (Suc k) of
         Inl x \<Rightarrow> False
       | Inr p \<Rightarrow> ap_total p = length found \<and> length (ap_items p) \<le> n \<and> (pages \<le> k \<longrightarrow> ap_items p = [])) \<and>
      page 0 = Inl Unprocessable \<and> get_audit_log order u 1 101 e rows = Inl Unprocessable"
proof -
  define found where "found = filter (audit_filter u e) rows"
  define pages where "pages = (length found + n - 1) div n"
  have o: "mset (order found) = mset found" "sorted (map (\<lambda>r. - st_occurred_at r) (order found))"
    using order by (simp_all add: newest_first_def)
  have len: "length (order found) = length found" using o(1) by (rule mset_eq_length)
  have page: "get_audit_log order u (int (Suc k)) (int n) e rows =
      Inr \<lparr>ap_items = take n (drop (k * n) (order found)), ap_page = Suc k, ap_per_page = n, ap_total = length found\<rparr>" for k
    using size by (simp add: get_audit_log_def audit_page_of_def found_def nat_add_distrib Let_def)
  have cover: "length found \<le> pages * n" unfolding pages_def using size(1) by (intro pages_cover) simp
  have "[1..<Suc pages] = map Suc [0..<pages]" by (simp add: map_Suc_upt)
  then have "concat (map (\<lambda>k. case get_audit_log order u (int k) (int n) e rows of Inl x \<Rightarrow> [] | Inr p \<Rightarrow> ap_items p) [1..<Suc pages]) =
      concat (map (\<lambda>k. take n (drop (k * n) (order found))) [0..<pages])"
    by (simp only: map_map o_def page sum.case audit_page.simps)
  also have "\<dots> = order found" using cover len by (simp add: concat_slices)
  finally have all: "concat (map (\<lambda>k. case get_audit_log order u (int k) (int n) e rows of Inl x \<Rightarrow> [] | Inr p \<Rightarrow> ap_items p) [1..<Suc pages]) = order found" .
  have late: "take n (drop (k * n) (order found)) = []" if "pages \<le> k" for k
    using order_trans[OF cover mult_le_mono1[OF that, of n]] len by simp
  have refused: "get_audit_log order u (int 0) (int n) e rows = Inl Unprocessable" "get_audit_log order u 1 101 e rows = Inl Unprocessable"
    by (simp_all add: get_audit_log_def)
  show ?thesis
    unfolding Let_def found_def[symmetric] pages_def[symmetric] all page using o late refused by simp
qed

text \<open>The kill switch takes effect at once, but the audit row of a toggle is only kept when the commit succeeds: if it
  fails the route answers with an error although the switch is already set or cleared and nothing records it. The
  switches of other users stay.\<close>

theorem kill_switch_toggled:
  assumes "redis_kv R"
  shows "let (res, w1) = activate_kill_switch R commits now latency u w; (res2, w2) = deactivate_kill_switch R commits now latency u w
    in kill_switch_is_active R u w1 \<and> \<not> kill_switch_is_active R u w2 \<and>
      (v = u \<or> kill_switch_is_active R v w1 = kill_switch_is_active R v w \<and> kill_switch_is_active R v w2 = kill_switch_is_active R v w) \<and>
      (if commits
       then (case (res, res2) of (Inr a, Inr b) \<Rightarrow> kr_active a \<and> \<not> kr_active b | _ \<Rightarrow> False) \<and>
         w_audit w1 = w_audit w @ [audit_entry EVENT_KILL_SWITCH_ACTIVATED (Some u) [(''active'', JBool True)]] \<and>
         w_audit w2 = w_audit w @ [audit_entry EVENT_KILL_SWITCH_DEACTIVATED (Some u) [(''active'', JBool False)]]
       else res = Inl Server_Error \<and> res2 = Inl Server_Error \<and> w_audit w1 = w_audit w \<and> w_audit w2 = w_audit w)"
  using assms
  by (auto simp: activate_kill_switch_def deactivate_kill_switch_def Let_def kill_switch_defs redis_kv_simps audit_event_append)

section \<open>Witnesses\<close>

definition two_events :: "stamped_row list" where
  "two_events = map (\<lambda>i. \<lparr>au_user = Some ''u'', au_event = ''safety.violation'', au_data = None, au_ip = None, au_agent = None,
     st_id = nat_str i, st_occurred_at = 5\<rparr>) [1, 2]"

theorem audit_pages_partition_witness:
  "concat (map (\<lambda>k. case get_audit_log sort_newest ''u'' (int k) (int 1) None two_events of Inl x \<Rightarrow> [] | Inr p \<Rightarrow> ap_items p) [1..<3]) =
     two_events"
proof -
  have f: "filter (audit_filter ''u'' None) two_events = two_events" "length two_events = 2" "sort_newest two_events = two_events"
    by (simp_all add: two_events_def audit_filter_def sort_newest_def)
  show ?thesis
    using audit_pages_partition[OF sort_newest_ok, of 1 "''u''" None two_events] f by (simp add: Let_def numeral_eq_Suc)
qed

theorem kill_switch_toggled_witness:
  "kill_switch_is_active mem_redis ''u'' (snd (activate_kill_switch mem_redis False 0 0 ''u'' \<lparr>w_redis = mem_empty, w_audit = []\<rparr>)) \<and>
   w_audit (snd (activate_kill_switch mem_redis False 0 0 ''u'' \<lparr>w_redis = mem_empty, w_audit = []\<rparr>)) = []"
  using kill_switch_toggled[OF mem_redis_kv, of False 0 0 "''u''" "\<lparr>w_redis = mem_empty, w_audit = []\<rparr>" "''u''"]
  by (simp add: Let_def case_prod_beta)

end
