(* ===== verification/Auth_Api.thy ===== *)
theory Auth_Api
  imports Sessions
begin

text \<open>
  The routes of \<open>api/auth.py\<close> with the bodies of \<open>schemas/auth.py\<close> in front of the authentication service (theory
  \<open>Auth\<close>). Some bodies strip their texts and some do not. The normalisation of an email address is the library's and
  a parameter; texts are ASCII, where a character is a byte. A refused body is \<open>Http 422 []\<close>.
\<close>

section \<open>Bodies\<close>

text \<open>The blanks pydantic strips, which are fewer than those of Python.\<close>

definition is_blank :: "char \<Rightarrow> bool" where "is_blank c \<longleftrightarrow> of_char c \<in> {9, 10, 11, 12, 13, 32 :: nat}"

definition body_strip :: "string \<Rightarrow> string" where
  "body_strip s = rev (dropWhile is_blank (rev (dropWhile is_blank s)))"

definition body_length :: "nat \<Rightarrow> nat \<Rightarrow> string \<Rightarrow> bool" where "body_length lo hi s \<longleftrightarrow> lo \<le> length s \<and> length s \<le> hi"

definition optional_length :: "nat \<Rightarrow> string option \<Rightarrow> bool" where
  "optional_length hi v = (case v of None \<Rightarrow> True | Some s \<Rightarrow> length s \<le> hi)"

type_synonym mail_norm = "string \<Rightarrow> string option"

definition register_body ::
  "mail_norm \<Rightarrow> string \<Rightarrow> string \<Rightarrow> string option \<Rightarrow> string option \<Rightarrow> (string \<times> string \<times> string option \<times> string option) option" where
  "register_body nm email password full_name locale =
     (let p = body_strip password; f = map_option body_strip full_name; l = map_option body_strip locale
      in case nm (body_strip email) of
           None \<Rightarrow> None
         | Some e \<Rightarrow> if body_length 8 128 p \<and> optional_length 255 f \<and> optional_length 10 l then Some (e, p, f, l) else None)"

definition login_body :: "mail_norm \<Rightarrow> string \<Rightarrow> string \<Rightarrow> (string \<times> string) option" where
  "login_body nm email password =
     (let p = body_strip password
      in case nm (body_strip email) of None \<Rightarrow> None | Some e \<Rightarrow> if body_length 1 128 p then Some (e, p) else None)"

definition password_change_body :: "string \<Rightarrow> string \<Rightarrow> bool" where
  "password_change_body current_password new_password \<longleftrightarrow> body_length 1 128 current_password \<and> body_length 8 128 new_password"

definition forgot_body :: "mail_norm \<Rightarrow> string \<Rightarrow> string option" where "forgot_body nm email = nm (body_strip email)"

definition reset_body :: "string \<Rightarrow> string \<Rightarrow> bool" where
  "reset_body tok new_password \<longleftrightarrow> tok \<noteq> [] \<and> body_length 8 128 new_password"

section \<open>Routes\<close>

definition register_route ::
  "auth_lib \<Rightarrow> 'r redis \<Rightarrow> settings \<Rightarrow> mail_norm \<Rightarrow> instant \<Rightarrow> uuid \<Rightarrow> string \<Rightarrow> string \<Rightarrow> string \<Rightarrow> string
     \<Rightarrow> string option \<Rightarrow> string option \<Rightarrow> 'r auth_state \<Rightarrow> (failure + token_pair) \<times> 'r auth_state" where
  "register_route L R cfg nm now new_id salt rnd email password full_name locale s =
     (case register_body nm email password full_name locale of
        None \<Rightarrow> (Inl (Http 422 []), s)
      | Some (e, p, f, l) \<Rightarrow> register L R cfg now new_id salt rnd e p f l s)"

definition login_route ::
  "auth_lib \<Rightarrow> 'r redis \<Rightarrow> settings \<Rightarrow> mail_norm \<Rightarrow> instant \<Rightarrow> string \<Rightarrow> string \<Rightarrow> string \<Rightarrow> string \<Rightarrow> 'r auth_state
     \<Rightarrow> (failure + token_pair) \<times> 'r auth_state" where
  "login_route L R cfg nm now salt rnd email password s =
     (case login_body nm email password of None \<Rightarrow> (Inl (Http 422 []), s) | Some (e, p) \<Rightarrow> login L R cfg now salt rnd e p s)"

definition refresh_route ::
  "auth_lib \<Rightarrow> 'r redis \<Rightarrow> settings \<Rightarrow> instant \<Rightarrow> string \<Rightarrow> string \<Rightarrow> 'r auth_state \<Rightarrow> (failure + token_pair) \<times> 'r auth_state" where
  "refresh_route L R cfg now rnd tok s = (if tok = [] then (Inl (Http 422 []), s) else refresh L R cfg now rnd tok s)"

definition logout_route :: "'r redis \<Rightarrow> string \<Rightarrow> 'r auth_state \<Rightarrow> (failure + string) \<times> 'r auth_state" where
  "logout_route R tok s = (if tok = [] then (Inl (Http 422 []), s) else (Inr ''ok'', logout R tok s))"

definition change_password_route ::
  "auth_lib \<Rightarrow> 'r redis \<Rightarrow> settings \<Rightarrow> instant \<Rightarrow> string \<Rightarrow> string option \<Rightarrow> string \<Rightarrow> string \<Rightarrow> 'r auth_state
     \<Rightarrow> (failure + string) \<times> 'r auth_state" where
  "change_password_route L R cfg now salt credentials current_password new_password s =
     (case get_current_user L cfg now credentials s of
        (Inl e, s1) \<Rightarrow> (Inl e, s1)
      | (Inr user, s1) \<Rightarrow>
          if \<not> password_change_body current_password new_password then (Inl (Http 422 []), s1)
          else (case change_password L R salt user current_password new_password s1 of
                  (Inl e, s2) \<Rightarrow> (Inl e, s2) | (Inr _, s2) \<Rightarrow> (Inr ''password changed'', s2)))"

definition forgot_password_route ::
  "auth_lib \<Rightarrow> 'r redis \<Rightarrow> settings \<Rightarrow> mail_norm \<Rightarrow> string \<Rightarrow> string \<Rightarrow> string option \<Rightarrow> 'r auth_state
     \<Rightarrow> (failure + string) \<times> 'r auth_state" where
  "forgot_password_route L R cfg nm rnd email client_host s =
     (case forgot_body nm email of
        None \<Rightarrow> (Inl (Http 422 []), s)
      | Some e \<Rightarrow> (case request_password_reset L R cfg rnd e client_host True s of
                    (Inl x, s1) \<Rightarrow> (Inl x, s1) | (Inr _, s1) \<Rightarrow> (Inr ''If that email exists, a reset link has been sent.'', s1)))"

definition reset_password_route ::
  "auth_lib \<Rightarrow> 'r redis \<Rightarrow> string \<Rightarrow> string \<Rightarrow> string \<Rightarrow> 'r auth_state \<Rightarrow> (failure + string) \<times> 'r auth_state" where
  "reset_password_route L R salt tok new_password s =
     (if \<not> reset_body tok new_password then (Inl (Http 422 []), s)
      else (case reset_password L R salt tok new_password s of
              (Inl e, s1) \<Rightarrow> (Inl e, s1) | (Inr _, s1) \<Rightarrow> (Inr ''Password has been reset.'', s1)))"

definition me_route :: "auth_lib \<Rightarrow> settings \<Rightarrow> instant \<Rightarrow> string option \<Rightarrow> 'r auth_state \<Rightarrow> (failure + user_row) \<times> 'r auth_state" where
  "me_route L cfg now credentials s = get_current_user L cfg now credentials s"

section \<open>Lemmas\<close>

lemma body_strip_idem: "body_strip (body_strip s) = body_strip s"
proof -
  let ?d = "\<lambda>xs. dropWhile is_blank xs"
  have idem: "?d (?d xs) = ?d xs" for xs by (induction xs) auto
  have keep: "?d (rev (?d (rev xs))) = rev (?d (rev xs))" if "xs = [] \<or> \<not> is_blank (hd xs)" for xs
  proof (cases "?d (rev xs) = []")
    case False
    have "rev xs = takeWhile is_blank (rev xs) @ ?d (rev xs)" by simp
    then have "xs = rev (?d (rev xs)) @ rev (takeWhile is_blank (rev xs))" by (metis rev_append rev_rev_ident)
    then have "hd (rev (?d (rev xs))) = hd xs" using False by (metis hd_append2 rev_is_Nil_conv)
    then show ?thesis using that False by (cases "rev (?d (rev xs))") auto
  next
    case True
    then show ?thesis by (simp only: True rev.simps dropWhile.simps)
  qed
  have "?d s = [] \<or> \<not> is_blank (hd (?d s))" using hd_dropWhile by blast
  then show ?thesis by (simp only: body_strip_def keep[of "?d s"] rev_rev_ident idem)
qed

lemma find_email_changed:
  "distinct (map us_email us) \<Longrightarrow> u \<in> set us \<Longrightarrow>
     find_email (us_email u) (set_password (us_id u) h us) = Some (u\<lparr>us_password_hash := h\<rparr>)"
  by (induction us) (auto simp: find_email_def set_password_def)

lemma change_password_route_Inr:
  assumes "change_password_route L R cfg now salt credentials current new s = (Inr m, s2)"
  shows "\<exists>u s1. get_current_user L cfg now credentials s = (Inr u, s1) \<and> u \<in> set (ac_users s) \<and> us_active u \<and>
    ac_users s2 = set_password (us_id u) (lib_hash L new salt) (ac_users s)"
proof -
  obtain u s1 where u: "get_current_user L cfg now credentials s = (Inr u, s1)"
    using assms by (auto simp: change_password_route_def split: prod.splits sum.splits)
  have s1: "ac_users s1 = ac_users s" "u \<in> set (ac_users s)" "us_active u"
    using u by (auto simp: get_current_user_def Let_def dest!: find_user_mem split: prod.splits sum.splits option.splits if_splits token_error.splits)
  have "\<exists>x. change_password L R salt u current new s1 = (Inr x, s2)"
    using assms u by (auto simp: change_password_route_def split: prod.splits sum.splits if_splits)
  then have "ac_users s2 = set_password (us_id u) (lib_hash L new salt) (ac_users s1)"
    using bump_users[of R "us_id u" "s1\<lparr>ac_users := set_password (us_id u) (lib_hash L new salt) (ac_users s1)\<rparr>"]
    by (auto simp: change_password_def Let_def simp del: bump_users split: prod.splits sum.splits verify_result.splits)
  then show ?thesis using u s1 by auto
qed

text \<open>What argon2 promises.\<close>

definition hash_exact :: "auth_lib \<Rightarrow> bool" where
  "hash_exact L \<longleftrightarrow> (\<forall>p q salt. lib_verify L (lib_hash L p salt) q = (if p = q then Verified else Mismatch))"

section \<open>Properties\<close>

text \<open>C30. A password changed to one that begins or ends with a blank locks the account out: the change is accepted as
  typed, but the login strips the password it is given, so no login of the user succeeds, with that password or
  any other, although the account holds exactly that password.\<close>

theorem blank_password_locks_out:
  assumes exact: "hash_exact L" and change: "change_password_route L R cfg now salt credentials current new s = (Inr m, s2)"
    and user: "get_current_user L cfg now credentials s = (Inr u, s1)"
    and unique: "distinct (map us_email (ac_users s))"
    and blank: "body_strip new \<noteq> new" and mail: "nm (body_strip email) = Some e" "str_lower e = us_email u"
  shows "(case login_route L R cfg nm now2 salt2 rnd email p s2 of
      (Inl x, s3) \<Rightarrow> x \<in> {Http 422 [], unauthorized ''Invalid credentials''} \<and> s3 = s2 | (Inr t, s3) \<Rightarrow> False) \<and>
    (case find_email (us_email u) (ac_users s2) of
       None \<Rightarrow> False | Some v \<Rightarrow> us_id v = us_id u \<and> lib_verify L (us_password_hash v) new = Verified)"
proof -
  have u: "u \<in> set (ac_users s)" "us_active u" "ac_users s2 = set_password (us_id u) (lib_hash L new salt) (ac_users s)"
    using change_password_route_Inr[OF change] user by auto
  have f: "find_email (us_email u) (ac_users s2) = Some (u\<lparr>us_password_hash := lib_hash L new salt\<rparr>)"
    using find_email_changed[OF unique u(1)] u(3) by simp
  have ne: "new \<noteq> body_strip p" using blank body_strip_idem[of p] by metis
  have "login L R cfg now2 salt2 rnd e (body_strip p) s2 = (Inl (unauthorized ''Invalid credentials''), s2)"
    using f u(2) ne exact mail(2) by (simp add: login_def hash_exact_def Let_def)
  then show ?thesis
    using f exact mail(1) by (simp add: login_route_def login_body_def hash_exact_def Let_def)
qed

lemma get_current_user_Inr:
  "get_current_user L cfg now credentials s = (Inr u, s1) \<Longrightarrow>
     u \<in> set (ac_users s) \<and> ac_users s1 = ac_users s \<and> ac_redis s1 = ac_redis s"
  by (auto simp: get_current_user_def Let_def dest!: find_user_mem split: prod.splits sum.splits option.splits if_splits token_error.splits)

lemma current_1: "\<exists>s1. get_current_user lib_1 cfg_1 5 (Some ''token'') logged_in = (Inr user_1, s1) \<and>
    ac_redis s1 = ac_redis logged_in"
proof -
  obtain u s1 where u: "get_current_user lib_1 cfg_1 5 (Some ''token'') logged_in = (Inr u, s1)"
    using login_starts_session_witness by (metis prod.collapse)
  then have "u \<in> {user_1}" "ac_redis s1 = ac_redis logged_in"
    using get_current_user_Inr[OF u] by (auto simp: login_1(2) state_1_def)
  then show ?thesis using u by blast
qed

lemma change_password_1:
  assumes "get_pw_version mem_redis uuid_1 (ac_redis s) = Inr 0"
  shows "\<exists>s2. change_password lib_1 mem_redis ''s'' user_1 ''old'' new s = (Inr (), s2)"
proof -
  have "counter_value (rd_get mem_redis (ac_redis s) (pwv_key uuid_1)) = Some 0"
    using assms by (simp add: version_alt split: option.splits)
  then have "fst (rd_incr mem_redis (ac_redis s) (pwv_key uuid_1)) = Some 1"
    by (simp add: redis_incr_val[OF mem_redis_kv])
  then show ?thesis
    by (simp add: change_password_def lib_1_def user_1_def bump_pw_version_def case_prod_beta Let_def)
qed

lemma blank_password_locks_out_witness:
  "\<exists>s2. change_password_route lib_1 mem_redis cfg_1 5 ''s'' (Some ''token'') ''old'' '' passphrase'' logged_in =
      (Inr ''password changed'', s2) \<and>
    (case login_route lib_1 mem_redis cfg_1 Some 9 ''s'' ''r'' ''a@b.c'' '' passphrase'' s2 of
      (Inl x, s3) \<Rightarrow> x \<in> {Http 422 [], unauthorized ''Invalid credentials''} \<and> s3 = s2 | (Inr t, s3) \<Rightarrow> False)"
proof -
  obtain s1 where u: "get_current_user lib_1 cfg_1 5 (Some ''token'') logged_in = (Inr user_1, s1)"
    and r: "ac_redis s1 = ac_redis logged_in" using current_1 by blast
  obtain s2 where c: "change_password lib_1 mem_redis ''s'' user_1 ''old'' '' passphrase'' s1 = (Inr (), s2)"
    using change_password_1[of s1 "'' passphrase''"] version_logged_in r by auto
  have b: "password_change_body ''old'' '' passphrase''" by code_simp
  have ch: "change_password_route lib_1 mem_redis cfg_1 5 ''s'' (Some ''token'') ''old'' '' passphrase'' logged_in =
      (Inr ''password changed'', s2)"
    by (simp add: change_password_route_def u b c)
  have ex: "hash_exact lib_1" by (simp add: hash_exact_def lib_1_def)
  have d: "distinct (map us_email (ac_users logged_in))" by (simp add: login_1(2) state_1_def)
  have st: "body_strip '' passphrase'' \<noteq> '' passphrase''" by code_simp
  have e: "Some (body_strip ''a@b.c'') = Some ''a@b.c''" by code_simp
  have l: "str_lower ''a@b.c'' = us_email user_1" by (simp add: user_1_def) code_simp
  note r = blank_password_locks_out[where nm = Some and email = "''a@b.c''" and p = "'' passphrase''",
      OF ex ch u d st e l, of 9 "''s''" "''r''", THEN conjunct1]
  show ?thesis by (rule exI[of _ s2], rule conjI, rule ch, rule r)
qed

end
