(* ===== verification/Tasks.thy ===== *)
theory Tasks
  imports Scheduler Fx Broker_Auth
begin

text \<open>
  The Celery application (\<open>celery_app.py\<close>) and its periodic tasks (\<open>tasks/in_session.py\<close>,
  \<open>tasks/post_close.py\<close>, \<open>tasks/always.py\<close>, the entry point of \<open>tasks/calendar_verify.py\<close>): which modules
  a worker loads and so which tasks it knows, which messages beat sends and what a worker does with one. The
  plant is the broker queue with the state the tasks share; beat and workers are interleaved steps. When a
  crontab entry is due and how a worker treats a message are Celery's, two parameters; \<open>worker_ok\<close> states
  that a message of a task the worker does not know is discarded.
\<close>

section \<open>The application\<close>

datatype cron_field = Every | Every_nth int | Exactly int | Weekday string

record crontab =
  cr_minute :: cron_field
  cr_hour :: cron_field
  cr_day_of_week :: cron_field

definition CELERY_INCLUDE :: "string list" where
  "CELERY_INCLUDE = [''backend.app.tasks.in_session'', ''backend.app.tasks.post_close'', ''backend.app.tasks.always'',
     ''backend.app.tasks.calendar_verify'', ''backend.app.tasks.ai_analysis'']"

definition SCHEDULER_MODULE :: string where "SCHEDULER_MODULE = ''backend.app.scheduling.scheduler''"

definition BEAT_SCHEDULE :: "(string \<times> crontab) list" where
  "BEAT_SCHEDULE =
     [(''tasks.always.refresh_news_sentiment'', \<lparr>cr_minute = Every_nth 15, cr_hour = Every, cr_day_of_week = Every\<rparr>),
      (''tasks.always.refresh_fx'', \<lparr>cr_minute = Exactly 0, cr_hour = Exactly 6, cr_day_of_week = Every\<rparr>),
      (''calendar.verify_weekly'', \<lparr>cr_minute = Exactly 0, cr_hour = Exactly 3, cr_day_of_week = Weekday ''sun''\<rparr>),
      (''tasks.scheduler.tick'', \<lparr>cr_minute = Every, cr_hour = Every, cr_day_of_week = Every\<rparr>)]"

text \<open>The names a module registers when it is imported.\<close>

definition module_tasks :: "string \<Rightarrow> string list" where
  "module_tasks m =
     (if m = ''backend.app.tasks.in_session'' then [''tasks.in_session.recalc_indicators'', ''tasks.in_session.sync_portfolios'']
      else if m = ''backend.app.tasks.post_close'' then
        [''tasks.post_close.fetch_ohlcv'', ''tasks.post_close.refresh_fundamentals'', ''tasks.post_close.recalc_risk'',
         ''tasks.post_close.snapshot_portfolios'', ''tasks.post_close.run_post_close_batch'']
      else if m = ''backend.app.tasks.always'' then
        [''tasks.always.refresh_news_sentiment'', ''tasks.always.refresh_fx'', ''tasks.always.check_corporate_actions'']
      else if m = ''backend.app.tasks.calendar_verify'' then [''calendar.verify_weekly'']
      else if m = ''backend.app.tasks.ai_analysis'' then [''tasks.ai_analysis.run'']
      else if m = SCHEDULER_MODULE then [''tasks.scheduler.tick'']
      else [])"

definition known_tasks :: "string list \<Rightarrow> string list" where "known_tasks modules = concat (map module_tasks modules)"

section \<open>Messages and the plant\<close>

text \<open>A message carries the rest of its chain. Arguments are by name.\<close>

record message =
  mg_task :: string
  mg_kwargs :: "(string \<times> json) list"
  mg_chain :: "(string \<times> (string \<times> json) list) list"

record 'r plant =
  pl_sched :: "'r sched_state"
  pl_fx :: fx_table
  pl_queue :: "message list"
  pl_results :: "(string \<times> (string + json)) list"

record 'r site =
  si_redis :: "'r redis"
  si_lib :: xcal
  si_overrides :: "override_row list"
  si_exchanges :: "string list"
  si_fred :: "day option \<Rightarrow> string + fx_observation"
  si_ecb :: "day option \<Rightarrow> string + fx_observation"
  si_repr :: "fx_observation \<Rightarrow> string"
  si_cal_repr :: "cal_error \<Rightarrow> string"
  si_instruments :: "instrument_row list"
  si_connections :: "broker_link list"
  si_chain_id :: string

definition kwarg :: "string \<Rightarrow> (string \<times> json) list \<Rightarrow> string" where
  "kwarg k kw = (case map_of kw k of Some (JStr s) \<Rightarrow> s | _ \<Rightarrow> [])"

definition kwflag :: "string \<Rightarrow> (string \<times> json) list \<Rightarrow> bool" where
  "kwflag k kw = (case map_of kw k of Some (JBool b) \<Rightarrow> b | _ \<Rightarrow> False)"

section \<open>In session\<close>

definition recalc_indicators :: "instrument_row list \<Rightarrow> string \<Rightarrow> json" where
  "recalc_indicators instruments exchange =
     JObj [(''exchange'', JStr exchange),
           (''instruments_attempted'', JInt (int (length (filter (\<lambda>i. in_exchange i = exchange) instruments)))),
           (''instruments_recalculated'', JInt 0), (''errors'', JInt 0)]"

definition broker_filter :: "string \<Rightarrow> string list" where
  "broker_filter exchange =
     (case map_of [(''XNYS'', [''alpaca'']), (''XNAS'', [''alpaca'']), (''XBOM'', [''zerodha''])] exchange of
        Some bs \<Rightarrow> bs | None \<Rightarrow> [])"

definition sync_portfolios :: "broker_link list \<Rightarrow> string \<Rightarrow> json" where
  "sync_portfolios connections exchange =
     JObj [(''exchange'', JStr exchange),
           (''connections_attempted'', JInt (int (length
              (filter (\<lambda>c. cn_broker c \<in> set (broker_filter exchange) \<and> bc_status c = ''active'') connections)))),
           (''connections_synced'', JInt 0), (''errors'', JInt 0)]"

section \<open>Post close\<close>

definition post_close_step :: "string \<Rightarrow> string \<Rightarrow> string \<Rightarrow> json" where
  "post_close_step step exchange session_date =
     JObj [(''step'', JStr step), (''exchange'', JStr exchange), (''session_date'', JStr session_date)]"

definition fetch_ohlcv :: "string \<Rightarrow> string \<Rightarrow> json" where "fetch_ohlcv = post_close_step ''fetch_ohlcv''"
definition refresh_fundamentals :: "string \<Rightarrow> string \<Rightarrow> json" where
  "refresh_fundamentals = post_close_step ''refresh_fundamentals''"
definition recalc_risk :: "string \<Rightarrow> string \<Rightarrow> json" where "recalc_risk = post_close_step ''recalc_risk''"
definition snapshot_portfolios :: "string \<Rightarrow> string \<Rightarrow> json" where
  "snapshot_portfolios = post_close_step ''snapshot_portfolios''"

text \<open>The first step of the chain is sent, the others wait in it. The flag of a half day goes into the answer only.\<close>

definition run_post_close_batch :: "string \<Rightarrow> string \<Rightarrow> string \<Rightarrow> bool \<Rightarrow> json \<times> message" where
  "run_post_close_batch chain_id exchange session_date is_half_day =
     (let kw = [(''exchange'', JStr exchange), (''session_date'', JStr session_date)]
      in (JObj [(''exchange'', JStr exchange), (''session_date'', JStr session_date), (''is_half_day'', JBool is_half_day),
                (''chain_id'', JStr chain_id)],
          \<lparr>mg_task = ''tasks.post_close.fetch_ohlcv'', mg_kwargs = kw,
           mg_chain = [(''tasks.post_close.refresh_fundamentals'', kw), (''tasks.post_close.recalc_risk'', kw),
                       (''tasks.post_close.snapshot_portfolios'', kw)]\<rparr>))"

section \<open>Always\<close>

definition refresh_news_sentiment :: json where
  "refresh_news_sentiment = JObj [(''task'', JStr ''refresh_news_sentiment''), (''ran'', JBool True)]"

definition check_corporate_actions :: "string \<Rightarrow> json" where
  "check_corporate_actions exchange =
     JObj [(''task'', JStr ''check_corporate_actions''), (''exchange'', JStr exchange), (''ran'', JBool True)]"

text \<open>The rate is committed when a feed answered and the rate fits its column, else nothing is
  written and the failure is raised.\<close>

definition refresh_fx :: "'r site \<Rightarrow> fx_table \<Rightarrow> 'r \<Rightarrow> (string + json) \<times> fx_table \<times> 'r" where
  "refresh_fx site tab r =
     (case refresh_usd_inr (si_redis site) (si_fred site) (si_ecb site) None tab r of
        (Inl e, tab1, r1) \<Rightarrow> (Inl e, tab, r1)
      | (Inr ob, tab1, r1) \<Rightarrow>
          (Inr (JObj [(''task'', JStr ''refresh_fx''), (''ran'', JBool True), (''result'', JStr (si_repr site ob))]), tab1, r1))"

definition DEFAULT_HORIZON_DAYS :: nat where "DEFAULT_HORIZON_DAYS = 14"

definition drift_json :: "drift \<Rightarrow> json" where
  "drift_json d =
     JObj [(''exchange'', JStr (dr_exchange d)), (''date'', JStr (iso_date (dr_on d))),
           (''library_says_open'', JBool (dr_library_open d)), (''override_says_open'', JBool (dr_override_open d)),
           (''reason'', JStr (dr_reason d))]"

definition verify_weekly :: "'r site \<Rightarrow> instant \<Rightarrow> string + json" where
  "verify_weekly site now =
     (case verify_calendars (si_lib site) (si_overrides site) (date_of now) DEFAULT_HORIZON_DAYS SUPPORTED_EXCHANGES of
        Inl e \<Rightarrow> Inl (si_cal_repr site e)
      | Inr drifts \<Rightarrow>
          Inr (JObj [(''run_at'', JStr (iso_instant now)), (''exchanges_checked'', JArr (map JStr SUPPORTED_EXCHANGES)),
                     (''horizon_days'', JInt (int DEFAULT_HORIZON_DAYS)), (''drifts'', JArr (map drift_json drifts)),
                     (''has_drift'', JBool (drifts \<noteq> []))]))"

section \<open>The tick\<close>

definition state_value :: "market_state \<Rightarrow> string" where
  "state_value st = (case st of HOLIDAY \<Rightarrow> ''holiday'' | CLOSED \<Rightarrow> ''closed'' | OPEN \<Rightarrow> ''open'' | JUST_CLOSED \<Rightarrow> ''just_closed'')"

definition snapshot_json :: "market_snapshot \<Rightarrow> json" where
  "snapshot_json s =
     JObj [(''exchange'', JStr (ms_exchange s)), (''state'', JStr (state_value (ms_state s))), (''is_half_day'', JBool (ms_half_day s))]"

definition dispatched_json :: "dispatch_plan \<Rightarrow> json" where
  "dispatched_json p = JObj [(''task'', JStr (dp_task p)), (''kwargs'', JObj (dp_kwargs p))]"

definition plan_message :: "dispatch_plan \<Rightarrow> message" where
  "plan_message p = \<lparr>mg_task = dp_task p, mg_kwargs = dp_kwargs p, mg_chain = []\<rparr>"

text \<open>What a tick sends is what it adds to the list of tasks sent.\<close>

definition tick_async :: "'r site \<Rightarrow> instant \<Rightarrow> 'r sched_state \<Rightarrow> (string + json) \<times> message list \<times> 'r sched_state" where
  "tick_async site now s =
     (let local_date = xc_local_date (si_lib site); hours_for = get_session_hours (si_lib site) (si_overrides site)
      in case tick_step local_date hours_for (Some (si_redis site)) (si_exchanges site) now s of
           (Inl e, s1) \<Rightarrow> (Inl (si_cal_repr site e), [], s1)
         | (Inr skipped, s1) \<Rightarrow>
             (let dispatched = drop (length (ss_sent s)) (ss_sent s1);
                  snaps = (case plan_tick local_date hours_for now (si_exchanges site) of Inl _ \<Rightarrow> [] | Inr t \<Rightarrow> st_snapshots t)
              in (Inr (JObj [(''now_utc'', JStr (iso_instant (minute_floor now))), (''snapshots'', JArr (map snapshot_json snaps)),
                             (''dispatched'', JArr (map dispatched_json dispatched)), (''skipped'', JInt (int skipped))]),
                  map plan_message dispatched, s1)))"

section \<open>Beat and the workers\<close>

text \<open>The body of the known tasks that beat, the tick and the batch send.\<close>

definition task_body :: "'r site \<Rightarrow> instant \<Rightarrow> string \<Rightarrow> (string \<times> json) list \<Rightarrow> 'r plant \<Rightarrow> (string + json) \<times> message list \<times> 'r plant" where
  "task_body site now name kw p =
     (let ex = kwarg ''exchange'' kw; d = kwarg ''session_date'' kw in
      if name = ''tasks.scheduler.tick'' then
        (case tick_async site now (pl_sched p) of (res, sent, s) \<Rightarrow> (res, sent, p\<lparr>pl_sched := s\<rparr>))
      else if name = ''tasks.always.refresh_fx'' then
        (case refresh_fx site (pl_fx p) (ss_redis (pl_sched p)) of
           (res, tab, r) \<Rightarrow> (res, [], p\<lparr>pl_fx := tab, pl_sched := (pl_sched p)\<lparr>ss_redis := r\<rparr>\<rparr>))
      else if name = ''tasks.post_close.run_post_close_batch'' then
        (case run_post_close_batch (si_chain_id site) ex d (kwflag ''is_half_day'' kw) of (j, m) \<Rightarrow> (Inr j, [m], p))
      else (if name = ''tasks.always.refresh_news_sentiment'' then Inr refresh_news_sentiment
            else if name = ''tasks.always.check_corporate_actions'' then Inr (check_corporate_actions ex)
            else if name = ''calendar.verify_weekly'' then verify_weekly site now
            else if name = ''tasks.in_session.recalc_indicators'' then Inr (recalc_indicators (si_instruments site) ex)
            else if name = ''tasks.in_session.sync_portfolios'' then Inr (sync_portfolios (si_connections site) ex)
            else if name = ''tasks.post_close.fetch_ohlcv'' then Inr (fetch_ohlcv ex d)
            else if name = ''tasks.post_close.refresh_fundamentals'' then Inr (refresh_fundamentals ex d)
            else if name = ''tasks.post_close.recalc_risk'' then Inr (recalc_risk ex d)
            else if name = ''tasks.post_close.snapshot_portfolios'' then Inr (snapshot_portfolios ex d)
            else Inl ''not modelled'', [], p))"

text \<open>A task that succeeds sends the next of its chain; its answer goes to the result backend.\<close>

definition run_message :: "'r site \<Rightarrow> instant \<Rightarrow> message \<Rightarrow> 'r plant \<Rightarrow> 'r plant" where
  "run_message site now m p =
     (case task_body site now (mg_task m) (mg_kwargs m) p of
        (res, sent, p1) \<Rightarrow>
          p1\<lparr>pl_queue := pl_queue p1 @ sent @
               (case (res, mg_chain m) of
                  (Inr _, (name, kw) # rest) \<Rightarrow> [\<lparr>mg_task = name, mg_kwargs = kw, mg_chain = rest\<rparr>] | _ \<Rightarrow> []),
             pl_results := pl_results p1 @ [(mg_task m, res)]\<rparr>)"

text \<open>How a worker that knows some tasks treats a message of a task with some effect.\<close>

type_synonym 'r worker = "string list \<Rightarrow> string \<Rightarrow> ('r plant \<Rightarrow> 'r plant) \<Rightarrow> 'r plant \<Rightarrow> 'r plant"

definition worker_ok :: "'r worker \<Rightarrow> bool" where
  "worker_ok W \<longleftrightarrow> (\<forall>known name run p. W known name run p = (if name \<in> set known then run p else p))"

datatype event = Beat instant | Work instant

definition beat_messages :: "(crontab \<Rightarrow> instant \<Rightarrow> bool) \<Rightarrow> instant \<Rightarrow> message list" where
  "beat_messages due t =
     map (\<lambda>(name, c). \<lparr>mg_task = name, mg_kwargs = [], mg_chain = []\<rparr>) (filter (\<lambda>(name, c). due c t) BEAT_SCHEDULE)"

fun plant_step ::
  "'r worker \<Rightarrow> (crontab \<Rightarrow> instant \<Rightarrow> bool) \<Rightarrow> string list \<Rightarrow> 'r site \<Rightarrow> 'r plant \<Rightarrow> event \<Rightarrow> 'r plant" where
  "plant_step W due modules site p (Beat t) = p\<lparr>pl_queue := pl_queue p @ beat_messages due t\<rparr>"
| "plant_step W due modules site p (Work t) =
     (case pl_queue p of
        [] \<Rightarrow> p
      | m # q \<Rightarrow> W (known_tasks modules) (mg_task m) (run_message site t m) (p\<lparr>pl_queue := q\<rparr>))"

definition plant_run ::
  "'r worker \<Rightarrow> (crontab \<Rightarrow> instant \<Rightarrow> bool) \<Rightarrow> string list \<Rightarrow> 'r site \<Rightarrow> event list \<Rightarrow> 'r plant \<Rightarrow> 'r plant" where
  "plant_run W due modules site es p = foldl (plant_step W due modules site) p es"

section \<open>Lemmas\<close>

definition BEAT_TASKS :: "string list" where "BEAT_TASKS = map fst BEAT_SCHEDULE"

lemma known_include: "set (known_tasks CELERY_INCLUDE) \<inter> set BEAT_TASKS =
    {''tasks.always.refresh_news_sentiment'', ''tasks.always.refresh_fx'', ''calendar.verify_weekly''}"
  by code_simp

lemma refresh_fx_sched: "task_body site now ''tasks.always.refresh_fx'' kw p = (res, sent, p1) \<Longrightarrow>
    sent = [] \<and> ss_sent (pl_sched p1) = ss_sent (pl_sched p) \<and> pl_results p1 = pl_results p \<and> pl_queue p1 = pl_queue p"
  by (auto simp: task_body_def Let_def split: prod.splits)

text \<open>The tasks of beat that the workers know send nothing.\<close>

lemma quiet_task:
  assumes "name \<in> set (known_tasks CELERY_INCLUDE) \<inter> set BEAT_TASKS" and "task_body site now name kw p = (res, sent, p1)"
  shows "sent = [] \<and> ss_sent (pl_sched p1) = ss_sent (pl_sched p) \<and> pl_results p1 = pl_results p \<and> pl_queue p1 = pl_queue p"
proof (cases "name = ''tasks.always.refresh_fx''")
  case True
  then show ?thesis using refresh_fx_sched assms(2) by blast
next
  case False
  then have "name = ''tasks.always.refresh_news_sentiment'' \<or> name = ''calendar.verify_weekly''"
    using assms(1) unfolding known_include by auto
  then show ?thesis using assms(2) by (auto simp: task_body_def Let_def)
qed

definition beat_message :: "message \<Rightarrow> bool" where
  "beat_message m \<longleftrightarrow> mg_task m \<in> set BEAT_TASKS \<and> mg_chain m = []"

lemma beat_messages_ok: "\<forall>m \<in> set (beat_messages due t). beat_message m"
  by (auto simp: beat_messages_def beat_message_def BEAT_TASKS_def intro: rev_image_eqI)

text \<open>What a plant keeps as long as only the modules of the code are loaded.\<close>

definition idle :: "dispatch_plan list \<Rightarrow> 'r plant \<Rightarrow> bool" where
  "idle sent p \<longleftrightarrow> (\<forall>m \<in> set (pl_queue p). beat_message m) \<and> ss_sent (pl_sched p) = sent \<and>
     (\<forall>x \<in> set (pl_results p). fst x \<in> set (known_tasks CELERY_INCLUDE) \<inter> set BEAT_TASKS)"

lemma idle_step:
  assumes W: "worker_ok W" and "idle sent p"
  shows "idle sent (plant_step W due CELERY_INCLUDE site p e)"
proof (cases e)
  case (Beat t)
  then show ?thesis using assms(2) beat_messages_ok[of due t] by (auto simp: idle_def)
next
  case (Work t)
  show ?thesis
  proof (cases "pl_queue p")
    case Nil
    then show ?thesis using Work assms(2) by simp
  next
    case (Cons m q)
    let ?p = "p\<lparr>pl_queue := q\<rparr>"
    have m: "beat_message m" and p: "idle sent ?p" using assms(2) Cons by (auto simp: idle_def)
    show ?thesis
    proof (cases "mg_task m \<in> set (known_tasks CELERY_INCLUDE)")
      case False
      then show ?thesis using Work Cons W p by (simp add: worker_ok_def)
    next
      case True
      then have known: "mg_task m \<in> set (known_tasks CELERY_INCLUDE) \<inter> set BEAT_TASKS" using m by (simp add: beat_message_def)
      obtain res sent' p1 where b: "task_body site t (mg_task m) (mg_kwargs m) ?p = (res, sent', p1)"
        by (cases "task_body site t (mg_task m) (mg_kwargs m) ?p") auto
      show ?thesis
        using quiet_task[OF known b] known True Work Cons W p m b
        by (auto simp: worker_ok_def run_message_def idle_def beat_message_def split: sum.split)
    qed
  qed
qed

lemma idle_run: "worker_ok W \<Longrightarrow> idle sent p \<Longrightarrow> idle sent (plant_run W due CELERY_INCLUDE site es p)"
  by (induction es arbitrary: p) (simp_all add: plant_run_def idle_step)

lemma tick_known: "''tasks.scheduler.tick'' \<in> set (known_tasks (CELERY_INCLUDE @ [SCHEDULER_MODULE]))"
  by code_simp

lemma work_known:
  assumes "worker_ok W" and "pl_queue p = m # q" and "mg_task m \<in> set (known_tasks modules)"
  shows "plant_step W due modules site p (Work t) = run_message site t m (p\<lparr>pl_queue := q\<rparr>)"
  using assms by (simp add: worker_ok_def)

lemma sent_by_tick:
  "snd (tick_step ld hf redis ex now s) = s1 \<Longrightarrow> ss_sent s1 = ss_sent s @ drop (length (ss_sent s)) (ss_sent s1)"
  by (auto simp: tick_step_def split: sum.splits prod.splits)

text \<open>A worker that knows the tick runs it and queues what it dispatched.\<close>

lemma tick_runs:
  assumes W: "worker_ok W" and q: "pl_queue p = \<lparr>mg_task = ''tasks.scheduler.tick'', mg_kwargs = [], mg_chain = []\<rparr> # q"
    and known: "''tasks.scheduler.tick'' \<in> set (known_tasks modules)"
    and t: "tick_step (xc_local_date (si_lib site)) (get_session_hours (si_lib site) (si_overrides site)) (Some (si_redis site))
      (si_exchanges site) now (pl_sched p) = (Inr n, s1)"
  shows "let p1 = plant_step W due modules site p (Work now)
    in pl_sched p1 = s1 \<and> pl_queue p1 = q @ map plan_message (drop (length (ss_sent (pl_sched p))) (ss_sent s1)) \<and>
       pl_fx p1 = pl_fx p"
  using work_known[OF W q] known t by (simp add: run_message_def task_body_def tick_async_def Let_def)

text \<open>The steps of the batch.\<close>

definition POST_CLOSE_STEPS :: "(string \<times> string) list" where
  "POST_CLOSE_STEPS =
     [(''tasks.post_close.fetch_ohlcv'', ''fetch_ohlcv''), (''tasks.post_close.refresh_fundamentals'', ''refresh_fundamentals''),
      (''tasks.post_close.recalc_risk'', ''recalc_risk''), (''tasks.post_close.snapshot_portfolios'', ''snapshot_portfolios'')]"

lemma step_bodies:
  "task_body site t ''tasks.post_close.fetch_ohlcv'' kw p = (Inr (fetch_ohlcv (kwarg ''exchange'' kw) (kwarg ''session_date'' kw)), [], p)"
  "task_body site t ''tasks.post_close.refresh_fundamentals'' kw p =
     (Inr (refresh_fundamentals (kwarg ''exchange'' kw) (kwarg ''session_date'' kw)), [], p)"
  "task_body site t ''tasks.post_close.recalc_risk'' kw p = (Inr (recalc_risk (kwarg ''exchange'' kw) (kwarg ''session_date'' kw)), [], p)"
  "task_body site t ''tasks.post_close.snapshot_portfolios'' kw p =
     (Inr (snapshot_portfolios (kwarg ''exchange'' kw) (kwarg ''session_date'' kw)), [], p)"
  by (simp_all add: task_body_def)

lemma batch_body:
  "task_body site t ''tasks.post_close.run_post_close_batch'' kw p =
     (case run_post_close_batch (si_chain_id site) (kwarg ''exchange'' kw) (kwarg ''session_date'' kw) (kwflag ''is_half_day'' kw) of
        (j, m) \<Rightarrow> (Inr j, [m], p))"
  by (simp add: task_body_def)

lemma post_close_known:
  "''tasks.post_close.run_post_close_batch'' \<in> set (module_tasks ''backend.app.tasks.post_close'')"
  "(n, s) \<in> set POST_CLOSE_STEPS \<Longrightarrow> n \<in> set (module_tasks ''backend.app.tasks.post_close'')"
proof -
  have "list_all (\<lambda>(n, s). n \<in> set (module_tasks ''backend.app.tasks.post_close'')) POST_CLOSE_STEPS" by code_simp
  then show "(n, s) \<in> set POST_CLOSE_STEPS \<Longrightarrow> n \<in> set (module_tasks ''backend.app.tasks.post_close'')"
    by (auto simp: list_all_iff)
qed code_simp

definition session_args :: "string \<Rightarrow> string \<Rightarrow> (string \<times> json) list" where
  "session_args ex d = [(''exchange'', JStr ex), (''session_date'', JStr d)]"

lemma step_body:
  assumes "(n, s) \<in> set POST_CLOSE_STEPS"
  shows "task_body site t n (session_args ex d) p = (Inr (post_close_step s ex d), [], p)"
proof -
  have "kwarg ''exchange'' (session_args ex d) = ex" "kwarg ''session_date'' (session_args ex d) = d"
    by (simp_all add: kwarg_def session_args_def)
  moreover have "n = ''tasks.post_close.fetch_ohlcv'' \<and> s = ''fetch_ohlcv'' \<or>
      n = ''tasks.post_close.refresh_fundamentals'' \<and> s = ''refresh_fundamentals'' \<or>
      n = ''tasks.post_close.recalc_risk'' \<and> s = ''recalc_risk'' \<or>
      n = ''tasks.post_close.snapshot_portfolios'' \<and> s = ''snapshot_portfolios''"
    using assms unfolding POST_CLOSE_STEPS_def by (simp only: list.set insert_iff empty_iff prod.inject simp_thms)
  ultimately show ?thesis
    by (elim disjE conjE) (simp_all only: step_bodies fetch_ohlcv_def refresh_fundamentals_def recalc_risk_def snapshot_portfolios_def)
qed

text \<open>A step of the chain answers and sends the next.\<close>

lemma chain_step:
  assumes W: "worker_ok W" and m: "set (module_tasks ''backend.app.tasks.post_close'') \<subseteq> set (known_tasks modules)"
    and ns: "(n, s) \<in> set POST_CLOSE_STEPS"
    and q: "pl_queue p = [\<lparr>mg_task = n, mg_kwargs = session_args ex d, mg_chain = c\<rparr>]"
  shows "plant_step W due modules site p (Work t) =
    p\<lparr>pl_queue := (case c of [] \<Rightarrow> [] | (n', kw) # c' \<Rightarrow> [\<lparr>mg_task = n', mg_kwargs = kw, mg_chain = c'\<rparr>]),
      pl_results := pl_results p @ [(n, Inr (post_close_step s ex d))]\<rparr>"
proof -
  have "n \<in> set (known_tasks modules)" using post_close_known(2)[OF ns] m by blast
  then show ?thesis
    using work_known[OF W q, of modules due site t] by (simp add: run_message_def step_body[OF ns])
qed

text \<open>The batch runs its four steps in order when nothing else is queued.\<close>

lemma post_close_chain:
  assumes W: "worker_ok W" and m: "set (module_tasks ''backend.app.tasks.post_close'') \<subseteq> set (known_tasks modules)"
    and q: "pl_queue p = [\<lparr>mg_task = ''tasks.post_close.run_post_close_batch'',
      mg_kwargs = session_args ex d @ [(''is_half_day'', JBool h)], mg_chain = []\<rparr>]"
  shows "plant_run W due modules site [Work t1, Work t2, Work t3, Work t4, Work t5] p =
    p\<lparr>pl_queue := [], pl_results := pl_results p @
      (''tasks.post_close.run_post_close_batch'', Inr (fst (run_post_close_batch (si_chain_id site) ex d h))) #
      map (\<lambda>(n, s). (n, Inr (post_close_step s ex d))) POST_CLOSE_STEPS\<rparr>"
proof -
  have k: "kwarg ''exchange'' (session_args ex d @ [(''is_half_day'', JBool h)]) = ex"
    "kwarg ''session_date'' (session_args ex d @ [(''is_half_day'', JBool h)]) = d"
    "kwflag ''is_half_day'' (session_args ex d @ [(''is_half_day'', JBool h)]) = h"
    by (simp_all add: kwarg_def kwflag_def session_args_def)
  have known: "''tasks.post_close.run_post_close_batch'' \<in> set (known_tasks modules)" using post_close_known(1) m by blast
  define c where "c = map (\<lambda>(n, s). (n, session_args ex d)) (tl POST_CLOSE_STEPS)"
  have batch: "snd (run_post_close_batch (si_chain_id site) ex d h) =
      \<lparr>mg_task = fst (POST_CLOSE_STEPS ! 0), mg_kwargs = session_args ex d, mg_chain = c\<rparr>"
    by (simp add: run_post_close_batch_def Let_def c_def POST_CLOSE_STEPS_def session_args_def)
  define rs where "rs = pl_results p @ [(''tasks.post_close.run_post_close_batch'', Inr (fst (run_post_close_batch (si_chain_id site) ex d h)))]"
  have 1: "plant_step W due modules site p (Work t1) =
      p\<lparr>pl_queue := [\<lparr>mg_task = fst (POST_CLOSE_STEPS ! 0), mg_kwargs = session_args ex d, mg_chain = c\<rparr>], pl_results := rs\<rparr>"
    using work_known[OF W q, of modules due site t1] known
    by (simp add: run_message_def batch_body k case_prod_beta batch rs_def)
  obtain n1 s1 n2 s2 n3 s3 n4 s4 where S: "POST_CLOSE_STEPS = [(n1, s1), (n2, s2), (n3, s3), (n4, s4)]"
    unfolding POST_CLOSE_STEPS_def by blast
  note st = chain_step[OF W m, unfolded S]
  show ?thesis
    unfolding plant_run_def 1 c_def S foldl.simps
    by (simp add: st[of n1 s1] st[of n2 s2] st[of n3 s3] st[of n4 s4] rs_def del: plant_step.simps)
qed

section \<open>Properties\<close>

text \<open>C31. The jobs of the trading session never run. The module of the tick is not among those a worker loads, so its
  message is discarded every minute: however beat and the workers interleave, no task is ever dispatched and the only
  tasks that run are the three on a plain clock. With the module loaded the same message runs the tick and
  queues every task it dispatched.\<close>

theorem session_jobs_never_run:
  assumes W: "worker_ok W" and empty: "pl_queue p = []" "pl_results p = []"
  shows "ss_sent (pl_sched (plant_run W due CELERY_INCLUDE site es p)) = ss_sent (pl_sched p) \<and>
    set (map fst (pl_results (plant_run W due CELERY_INCLUDE site es p))) \<subseteq>
      {''tasks.always.refresh_news_sentiment'', ''tasks.always.refresh_fx'', ''calendar.verify_weekly''} \<and>
    (case tick_step (xc_local_date (si_lib site)) (get_session_hours (si_lib site) (si_overrides site)) (Some (si_redis site))
        (si_exchanges site) now (pl_sched p) of
       (Inl e, s1) \<Rightarrow> True
     | (Inr skipped, s1) \<Rightarrow>
         (let p1 = plant_run W (\<lambda>c t. cr_minute c = Every) (CELERY_INCLUDE @ [SCHEDULER_MODULE]) site [Beat t, Work now] p
          in pl_sched p1 = s1 \<and> pl_queue p1 = map plan_message (drop (length (ss_sent (pl_sched p))) (ss_sent s1))))"
proof -
  have "idle (ss_sent (pl_sched p)) p" using empty by (simp add: idle_def)
  note i = idle_run[OF W this, of due site es, unfolded idle_def known_include]
  have b: "beat_messages (\<lambda>c t. cr_minute c = Every) t = [\<lparr>mg_task = ''tasks.scheduler.tick'', mg_kwargs = [], mg_chain = []\<rparr>]"
    by (simp add: beat_messages_def BEAT_SCHEDULE_def)
  show ?thesis
    using i tick_runs[OF W _ tick_known, of "p\<lparr>pl_queue := [\<lparr>mg_task = ''tasks.scheduler.tick'', mg_kwargs = [], mg_chain = []\<rparr>]\<rparr>" "[]" site now]
    by (auto simp: plant_run_def b empty(1) Let_def simp del: plant_step.simps(2) split: prod.split sum.split)
qed

definition plain_worker :: "'r worker" where
  "plain_worker known name run p = (if name \<in> set known then run p else p)"

lemma plain_worker_ok: "worker_ok plain_worker" by (simp add: worker_ok_def plain_worker_def)

definition plant_1 :: "mem plant" where
  "plant_1 = \<lparr>pl_sched = sched_1, pl_fx = [], pl_queue = [], pl_results = []\<rparr>"

definition site_1 :: "mem site" where
  "site_1 = \<lparr>si_redis = mem_redis, si_lib = lib_2, si_overrides = [], si_exchanges = [''XNYS''], si_fred = (\<lambda>_. Inl ''down''),
     si_ecb = (\<lambda>_. Inl ''down''), si_repr = (\<lambda>_. ''obs''), si_cal_repr = (\<lambda>_. ''error''), si_instruments = [],
     si_connections = [], si_chain_id = ''c''\<rparr>"

text \<open>Three minutes around the close of a session: nothing is dispatched.\<close>

lemma session_jobs_never_run_witness:
  "ss_sent (pl_sched (plant_run plain_worker (\<lambda>c t. True) CELERY_INCLUDE site_1
     (concat (map (\<lambda>t. [Beat t, Work t, Work t, Work t, Work t]) ticks_1)) plant_1)) = []"
  using session_jobs_never_run[OF plain_worker_ok, of plant_1 "\<lambda>c t. True" site_1
      "concat (map (\<lambda>t. [Beat t, Work t, Work t, Work t, Work t]) ticks_1)"]
  by (simp add: plant_1_def sched_1_def)

end
