(* ===== verification/Schema.thy ===== *)
theory Schema
  imports Symbols Http
begin

text \<open>
  The database the services write to, as the migrations of \<open>alembic/versions\<close> make it: the tables of
  \<open>001_initial\<close> with their columns, keys, references and monthly partitions, the append-only rules of
  \<open>002_audit_immutability\<close> and the changes of \<open>003\<close>. The statements are those of SQL on these
  tables: a value is its text and NULL is its absence, a statement that fails changes nothing. Values are
  checked for the labels of an enum and for the length of a text; indexes, the time zone of the server
  (UTC), \<open>TRUNCATE ... CASCADE\<close> and statements that change the schema are left out.
\<close>

section \<open>Tables as data\<close>

datatype on_delete = CASCADE | RESTRICT | SET_NULL

datatype sql_type = Uuid | Varchar nat | Text_type | Boolean_type | Timestamptz | Date_type | Numeric nat nat | Bigint
  | Integer_type | Bytea | Jsonb | Inet | Enum_type string

record column =
  cl_name :: string
  cl_type :: sql_type
  cl_nullable :: bool
  cl_default :: "string option"
  cl_references :: "(string \<times> on_delete) option"

text \<open>The first key is the primary key.\<close>

record table =
  tb_name :: string
  tb_columns :: "column list"
  tb_keys :: "string list list"

definition required :: "string \<Rightarrow> sql_type \<Rightarrow> column" where
  "required n ty = \<lparr>cl_name = n, cl_type = ty, cl_nullable = False, cl_default = None, cl_references = None\<rparr>"

definition optional :: "string \<Rightarrow> sql_type \<Rightarrow> column" where "optional n ty = (required n ty)\<lparr>cl_nullable := True\<rparr>"

definition defaulted :: "string \<Rightarrow> sql_type \<Rightarrow> string \<Rightarrow> column" where
  "defaulted n ty v = (required n ty)\<lparr>cl_default := Some v\<rparr>"

definition reference :: "string \<Rightarrow> string \<Rightarrow> on_delete \<Rightarrow> column" where
  "reference n t act = (required n Uuid)\<lparr>cl_references := Some (t, act)\<rparr>"

definition stamp :: "string \<Rightarrow> column" where "stamp n = defaulted n Timestamptz ''now()''"

section \<open>001_initial\<close>

definition ALL_ENUMS :: "(string \<times> string list) list" where
  "ALL_ENUMS =
     [(''broker_enum'', [''alpaca'', ''zerodha'']), (''broker_conn_status_enum'', [''active'', ''expired'', ''revoked'']),
      (''platform_enum'', [''ios'', ''android'']), (''order_side_enum'', [''buy'', ''sell'']),
      (''order_type_enum'', [''market'', ''limit'']),
      (''order_status_enum'', [''pending'', ''submitted'', ''filled'', ''partial'', ''cancelled'', ''rejected'']),
      (''corp_action_type_enum'', [''split'', ''dividend'', ''merger'']),
      (''recommendation_type_enum'', [''buy'', ''sell'', ''hold'']),
      (''recommendation_status_enum'', [''pending'', ''accepted'', ''rejected'', ''expired'', ''executed'']),
      (''notification_type_enum'', [''recommendation'', ''order_fill'', ''price_alert'', ''system'']),
      (''ai_analysis_status_enum'', [''success'', ''error'', ''timeout''])]"

definition users_table :: table where
  "users_table = \<lparr>tb_name = ''users'', tb_columns =
     [required ''id'' Uuid, required ''email'' (Varchar 320), required ''password_hash'' (Varchar 255),
      optional ''full_name'' (Varchar 255), defaulted ''locale'' (Varchar 10) ''en-IN'', defaulted ''is_active'' Boolean_type ''true'',
      stamp ''created_at'', stamp ''updated_at''], tb_keys = [[''id''], [''email'']]\<rparr>"

definition instruments_table :: table where
  "instruments_table = \<lparr>tb_name = ''instruments'', tb_columns =
     [required ''id'' Uuid, required ''symbol'' (Varchar 32), required ''exchange'' (Varchar 16), required ''name'' (Varchar 255),
      required ''currency'' (Varchar 3), defaulted ''asset_class'' (Varchar 32) ''equity'', optional ''isin'' (Varchar 12),
      defaulted ''is_active'' Boolean_type ''true'', stamp ''created_at''],
     tb_keys = [[''id''], [''symbol'', ''exchange'']]\<rparr>"

definition symbol_mappings_table :: table where
  "symbol_mappings_table = \<lparr>tb_name = ''symbol_mappings'', tb_columns =
     [required ''id'' Uuid, reference ''instrument_id'' ''instruments'' CASCADE, required ''broker'' (Enum_type ''broker_enum''),
      required ''broker_symbol'' (Varchar 64), optional ''broker_exchange'' (Varchar 16)],
     tb_keys = [[''id''], [''broker'', ''broker_symbol'', ''broker_exchange'']]\<rparr>"

definition broker_connections_table :: table where
  "broker_connections_table = \<lparr>tb_name = ''broker_connections'', tb_columns =
     [required ''id'' Uuid, reference ''user_id'' ''users'' CASCADE, required ''broker'' (Enum_type ''broker_enum''),
      required ''account_id'' (Varchar 128), required ''access_token_encrypted'' Bytea, optional ''refresh_token_encrypted'' Bytea,
      optional ''token_expires_at'' Timestamptz, defaulted ''status'' (Enum_type ''broker_conn_status_enum'') ''active'',
      stamp ''created_at'', stamp ''updated_at''], tb_keys = [[''id'']]\<rparr>"

definition device_tokens_table :: table where
  "device_tokens_table = \<lparr>tb_name = ''device_tokens'', tb_columns =
     [required ''id'' Uuid, reference ''user_id'' ''users'' CASCADE, required ''expo_push_token'' (Varchar 255),
      required ''platform'' (Enum_type ''platform_enum''), defaulted ''is_active'' Boolean_type ''true'', stamp ''created_at'',
      stamp ''last_seen_at''], tb_keys = [[''id''], [''expo_push_token'']]\<rparr>"

definition positions_table :: table where
  "positions_table = \<lparr>tb_name = ''positions'', tb_columns =
     [required ''id'' Uuid, reference ''broker_connection_id'' ''broker_connections'' CASCADE,
      reference ''instrument_id'' ''instruments'' RESTRICT, required ''quantity'' (Numeric 20 8), required ''avg_cost'' (Numeric 20 8),
      required ''currency'' (Varchar 3), required ''as_of'' Timestamptz],
     tb_keys = [[''id''], [''broker_connection_id'', ''instrument_id'']]\<rparr>"

definition orders_table :: table where
  "orders_table = \<lparr>tb_name = ''orders'', tb_columns =
     [required ''id'' Uuid, reference ''broker_connection_id'' ''broker_connections'' RESTRICT,
      reference ''instrument_id'' ''instruments'' RESTRICT, required ''side'' (Enum_type ''order_side_enum''),
      required ''order_type'' (Enum_type ''order_type_enum''), required ''quantity'' (Numeric 20 8),
      optional ''limit_price'' (Numeric 20 8), defaulted ''status'' (Enum_type ''order_status_enum'') ''pending'',
      optional ''broker_order_id'' (Varchar 128), required ''idempotency_key'' (Varchar 255), stamp ''created_at'', stamp ''updated_at''],
     tb_keys = [[''id''], [''idempotency_key'']]\<rparr>"

definition fx_rates_table :: table where
  "fx_rates_table = \<lparr>tb_name = ''fx_rates'', tb_columns =
     [required ''id'' Uuid, required ''base_currency'' (Varchar 3), required ''quote_currency'' (Varchar 3),
      required ''rate'' (Numeric 20 10), required ''as_of'' Timestamptz],
     tb_keys = [[''id''], [''base_currency'', ''quote_currency'', ''as_of'']]\<rparr>"

definition corporate_actions_table :: table where
  "corporate_actions_table = \<lparr>tb_name = ''corporate_actions'', tb_columns =
     [required ''id'' Uuid, reference ''instrument_id'' ''instruments'' CASCADE, required ''action_type'' (Enum_type ''corp_action_type_enum''),
      required ''ex_date'' Date_type, required ''ratio_or_amount'' (Numeric 20 8), optional ''currency'' (Varchar 3),
      optional ''notes'' Text_type, stamp ''created_at''], tb_keys = [[''id'']]\<rparr>"

definition price_history_table :: table where
  "price_history_table = \<lparr>tb_name = ''price_history'', tb_columns =
     [reference ''instrument_id'' ''instruments'' CASCADE, required ''timestamp'' Timestamptz, required ''open'' (Numeric 20 8),
      required ''high'' (Numeric 20 8), required ''low'' (Numeric 20 8), required ''close'' (Numeric 20 8), required ''volume'' Bigint],
     tb_keys = [[''instrument_id'', ''timestamp'']]\<rparr>"

definition recommendations_table :: table where
  "recommendations_table = \<lparr>tb_name = ''recommendations'', tb_columns =
     [required ''id'' Uuid, reference ''user_id'' ''users'' CASCADE, reference ''instrument_id'' ''instruments'' RESTRICT,
      required ''recommendation_type'' (Enum_type ''recommendation_type_enum''), required ''rationale'' Text_type,
      required ''confidence_score'' (Numeric 5 2), required ''expires_at'' Timestamptz,
      defaulted ''status'' (Enum_type ''recommendation_status_enum'') ''pending'', stamp ''created_at'', stamp ''updated_at''],
     tb_keys = [[''id'']]\<rparr>"

definition notifications_table :: table where
  "notifications_table = \<lparr>tb_name = ''notifications'', tb_columns =
     [required ''id'' Uuid, reference ''user_id'' ''users'' CASCADE, required ''notification_type'' (Enum_type ''notification_type_enum''),
      required ''title'' (Varchar 255), required ''body'' Text_type, optional ''payload'' Jsonb, optional ''sent_at'' Timestamptz,
      optional ''read_at'' Timestamptz, stamp ''created_at''], tb_keys = [[''id'']]\<rparr>"

definition calendar_overrides_table :: table where
  "calendar_overrides_table = \<lparr>tb_name = ''calendar_overrides'', tb_columns =
     [required ''id'' Uuid, required ''exchange'' (Varchar 16), required ''date'' Date_type, required ''is_open'' Boolean_type,
      optional ''reason'' Text_type], tb_keys = [[''id''], [''exchange'', ''date'']]\<rparr>"

definition audit_log_table :: table where
  "audit_log_table = \<lparr>tb_name = ''audit_log'', tb_columns =
     [required ''id'' Uuid, (reference ''user_id'' ''users'' SET_NULL)\<lparr>cl_nullable := True\<rparr>, required ''event_type'' (Varchar 64),
      optional ''event_data'' Jsonb, optional ''ip_address'' Inet, optional ''user_agent'' Text_type, stamp ''occurred_at''],
     tb_keys = [[''id'']]\<rparr>"

definition ai_analysis_log_table :: table where
  "ai_analysis_log_table = \<lparr>tb_name = ''ai_analysis_log'', tb_columns =
     [required ''id'' Uuid, required ''request_type'' (Varchar 64), required ''model_name'' (Varchar 128),
      defaulted ''prompt_tokens'' Integer_type ''0'', defaulted ''completion_tokens'' Integer_type ''0'', required ''latency_ms'' Integer_type,
      required ''status'' (Enum_type ''ai_analysis_status_enum''), optional ''error_message'' Text_type, stamp ''created_at''],
     tb_keys = [[''id'']]\<rparr>"

text \<open>In the order of their creation.\<close>

definition INITIAL_TABLES :: "table list" where
  "INITIAL_TABLES =
     [users_table, instruments_table, symbol_mappings_table, broker_connections_table, device_tokens_table, positions_table,
      orders_table, fx_rates_table, corporate_actions_table, price_history_table, recommendations_table, notifications_table,
      calendar_overrides_table, audit_log_table, ai_analysis_log_table]"

section \<open>003: five actions and the shadow log\<close>

definition add_columns :: "string \<Rightarrow> column list \<Rightarrow> table list \<Rightarrow> table list" where
  "add_columns t cs tabs = map (\<lambda>tb. if tb_name tb = t then tb\<lparr>tb_columns := tb_columns tb @ cs\<rparr> else tb) tabs"

definition add_values :: "string \<Rightarrow> string list \<Rightarrow> (string \<times> string list) list \<Rightarrow> (string \<times> string list) list" where
  "add_values e vs enums = map (\<lambda>(n, ls). if n = e then (n, ls @ filter (\<lambda>v. v \<notin> set ls) vs) else (n, ls)) enums"

definition upgrade_003 :: "(string \<times> string list) list \<times> table list \<Rightarrow> (string \<times> string list) list \<times> table list" where
  "upgrade_003 db = (case db of (enums, tabs) \<Rightarrow>
     (add_values ''recommendation_type_enum'' [''strong_buy'', ''strong_sell''] enums,
      add_columns ''ai_analysis_log''
        [defaulted ''shadow_mode'' Boolean_type ''false'',
         (reference ''instrument_id'' ''instruments'' SET_NULL)\<lparr>cl_nullable := True\<rparr>,
         optional ''result_json'' Jsonb, optional ''ai_score'' (Numeric 5 4)] tabs))"

definition SCHEMA :: "(string \<times> string list) list \<times> table list" where "SCHEMA = upgrade_003 (ALL_ENUMS, INITIAL_TABLES)"

section \<open>Downgrades\<close>

definition drop_columns :: "string \<Rightarrow> string list \<Rightarrow> table list \<Rightarrow> table list" where
  "drop_columns t ns tabs =
     map (\<lambda>tb. if tb_name tb = t then tb\<lparr>tb_columns := filter (\<lambda>c. cl_name c \<notin> set ns) (tb_columns tb)\<rparr> else tb) tabs"

text \<open>The values of an enum stay.\<close>

definition downgrade_003 :: "(string \<times> string list) list \<times> table list \<Rightarrow> (string \<times> string list) list \<times> table list" where
  "downgrade_003 db = (case db of (enums, tabs) \<Rightarrow>
     (enums, drop_columns ''ai_analysis_log'' [''ai_score'', ''result_json'', ''instrument_id'', ''shadow_mode''] tabs))"

text \<open>A table that another references cannot be dropped.\<close>

definition references_to :: "table list \<Rightarrow> string \<Rightarrow> (string \<times> string \<times> on_delete) list" where
  "references_to tabs t =
     concat (map (\<lambda>tb. concat (map (\<lambda>c. case cl_references c of
         Some (u, act) \<Rightarrow> if u = t then [(tb_name tb, cl_name c, act)] else [] | None \<Rightarrow> []) (tb_columns tb))) tabs)"

fun drop_tables :: "string list \<Rightarrow> table list \<Rightarrow> table list option" where
  "drop_tables [] tabs = Some tabs"
| "drop_tables (t # ts) tabs =
     (let rest = filter (\<lambda>tb. tb_name tb \<noteq> t) tabs
      in if references_to rest t = [] \<and> list_ex (\<lambda>tb. tb_name tb = t) tabs then drop_tables ts rest else None)"

definition downgrade_001 :: "table list \<Rightarrow> table list option" where
  "downgrade_001 = drop_tables
     [''ai_analysis_log'', ''audit_log'', ''calendar_overrides'', ''notifications'', ''recommendations'', ''price_history'',
      ''corporate_actions'', ''fx_rates'', ''orders'', ''positions'', ''device_tokens'', ''broker_connections'',
      ''symbol_mappings'', ''instruments'', ''users'']"

section \<open>Partitions of the prices\<close>

text \<open>Made once, when the migration runs: the month of that moment and the two that follow.\<close>

definition month_partition :: "int \<Rightarrow> int \<Rightarrow> int \<Rightarrow> string \<times> instant \<times> instant" where
  "month_partition now_year now_month i =
     (let year = now_year + (now_month - 1 + i) div 12;
          month = (now_month - 1 + i) mod 12 + 1;
          next_year = year + (if month = 12 then 1 else 0);
          next_month = (if month = 12 then 1 else month + 1)
      in (''price_history_'' @ pad 4 year @ ''_'' @ pad 2 month, midnight (day_number year month 1),
          midnight (day_number next_year next_month 1)))"

definition price_partitions :: "instant \<Rightarrow> (string \<times> instant \<times> instant) list" where
  "price_partitions now = (case civil (date_of now) of (y, m, d) \<Rightarrow> map (month_partition y m) [0, 1, 2])"

definition partition_of :: "(string \<times> instant \<times> instant) list \<Rightarrow> instant \<Rightarrow> string option" where
  "partition_of parts t = map_option fst (find (\<lambda>(n, a, b). a \<le> t \<and> t < b) parts)"

section \<open>Statements\<close>

type_synonym db_row = "(string \<times> string) list"
type_synonym database = "string \<Rightarrow> db_row list"

datatype role = App_role | Owner

datatype statement = Insert string db_row | Update string "db_row \<Rightarrow> bool" "db_row \<Rightarrow> db_row" | Delete string "db_row \<Rightarrow> bool"
  | Truncate string

datatype sql_error = Denied | Append_only | Restricted | Violated | Too_deep

definition schema_table :: "string \<Rightarrow> table" where "schema_table t = the (find (\<lambda>tb. tb_name tb = t) (snd SCHEMA))"

definition has_table :: "string \<Rightarrow> bool" where "has_table t \<longleftrightarrow> list_ex (\<lambda>tb. tb_name tb = t) (snd SCHEMA)"

definition value_ok :: "sql_type \<Rightarrow> string \<Rightarrow> bool" where
  "value_ok ty v = (case ty of Varchar n \<Rightarrow> length v \<le> n | Enum_type e \<Rightarrow> v \<in> set (dict_get (fst SCHEMA) e []) | _ \<Rightarrow> True)"

definition column_ok :: "database \<Rightarrow> db_row \<Rightarrow> column \<Rightarrow> bool" where
  "column_ok db r c =
     (case map_of r (cl_name c) of
        None \<Rightarrow> cl_nullable c
      | Some v \<Rightarrow> value_ok (cl_type c) v \<and>
          (case cl_references c of None \<Rightarrow> True | Some (t, _) \<Rightarrow> list_ex (\<lambda>s. map_of s ''id'' = Some v) (db t)))"

text \<open>Two rows share a key when all its columns are present in both and equal.\<close>

definition same_key_values :: "string list \<Rightarrow> db_row \<Rightarrow> db_row \<Rightarrow> bool" where
  "same_key_values key r s \<longleftrightarrow> list_all (\<lambda>c. map_of r c \<noteq> None \<and> map_of r c = map_of s c) key"

fun keys_ok :: "string list \<Rightarrow> db_row list \<Rightarrow> bool" where
  "keys_ok key [] = True"
| "keys_ok key (r # rs) = (list_all (\<lambda>s. \<not> same_key_values key r s) rs \<and> keys_ok key rs)"

definition table_ok :: "database \<Rightarrow> table \<Rightarrow> bool" where
  "table_ok db tb \<longleftrightarrow> list_all (\<lambda>r. list_all (column_ok db r) (tb_columns tb)) (db (tb_name tb)) \<and>
     list_all (\<lambda>k. keys_ok k (db (tb_name tb))) (tb_keys tb)"

definition database_ok :: "database \<Rightarrow> bool" where "database_ok db \<longleftrightarrow> list_all (table_ok db) (snd SCHEMA)"

definition checked :: "database \<Rightarrow> sql_error + database" where
  "checked db = (if database_ok db then Inr db else Inl Violated)"

definition with_defaults :: "string \<Rightarrow> db_row \<Rightarrow> db_row" where
  "with_defaults t r =
     r @ concat (map (\<lambda>c. case cl_default c of Some v \<Rightarrow> if map_of r (cl_name c) = None then [(cl_name c, v)] else [] | None \<Rightarrow> [])
           (tb_columns (schema_table t)))"

definition set_null :: "string \<Rightarrow> db_row \<Rightarrow> db_row" where "set_null c r = filter (\<lambda>(k, v). k \<noteq> c) r"

text \<open>The row triggers of \<open>002\<close> fire for every role, also on behalf of a reference.\<close>

definition blocked :: "string \<Rightarrow> db_row list \<Rightarrow> bool" where "blocked t rs \<longleftrightarrow> t = ''audit_log'' \<and> rs \<noteq> []"

definition refers :: "string \<Rightarrow> string list \<Rightarrow> db_row \<Rightarrow> bool" where
  "refers c ids r = (case map_of r c of None \<Rightarrow> False | Some v \<Rightarrow> v \<in> set ids)"

definition row_ids :: "db_row list \<Rightarrow> string list" where "row_ids rs = List.map_filter (\<lambda>r. map_of r ''id'') rs"

function delete_rows :: "nat \<Rightarrow> string \<Rightarrow> (db_row \<Rightarrow> bool) \<Rightarrow> database \<Rightarrow> sql_error + database"
  and on_deleted :: "nat \<Rightarrow> (string \<times> string \<times> on_delete) list \<Rightarrow> string list \<Rightarrow> database \<Rightarrow> sql_error + database" where
  "delete_rows 0 t P db = Inl Too_deep"
| "delete_rows (Suc n) t P db =
     (let gone = filter P (db t)
      in if blocked t gone then Inl Append_only
         else on_deleted n (references_to (snd SCHEMA) t) (row_ids gone) (db(t := filter (\<lambda>r. \<not> P r) (db t))))"
| "on_deleted n [] ids db = Inr db"
| "on_deleted n ((t, c, act) # refs) ids db =
     (let hit = filter (refers c ids) (db t)
      in case act of
           RESTRICT \<Rightarrow> if hit \<noteq> [] then Inl Restricted else on_deleted n refs ids db
         | CASCADE \<Rightarrow> bind_res (delete_rows n t (refers c ids) db) (on_deleted n refs ids)
         | SET_NULL \<Rightarrow>
             if blocked t hit then Inl Append_only
             else on_deleted n refs ids (db(t := map (\<lambda>r. if refers c ids r then set_null c r else r) (db t))))"
  by pat_completeness auto
termination
  by (relation "measures [\<lambda>x. case x of Inl (n, _) \<Rightarrow> n | Inr (n, _) \<Rightarrow> n,
       \<lambda>x. case x of Inl _ \<Rightarrow> 0 | Inr (n, refs, _) \<Rightarrow> Suc (length refs)]") auto

text \<open>No chain of references is longer than three.\<close>

definition DEPTH :: nat where "DEPTH = 3"

definition permitted :: "role \<Rightarrow> statement \<Rightarrow> bool" where
  "permitted role st \<longleftrightarrow> role = Owner \<or>
     (case st of Insert t r \<Rightarrow> True | Update t P f \<Rightarrow> t \<noteq> ''audit_log'' | Delete t P \<Rightarrow> t \<noteq> ''audit_log'' | Truncate t \<Rightarrow> False)"

definition sql_exec :: "role \<Rightarrow> statement \<Rightarrow> database \<Rightarrow> sql_error + database" where
  "sql_exec role st db =
     (if \<not> permitted role st then Inl Denied
      else case st of
        Insert t r \<Rightarrow> if has_table t then checked (db(t := db t @ [with_defaults t r])) else Inl Violated
      | Update t P f \<Rightarrow>
          if blocked t (filter P (db t)) then Inl Append_only
          else checked (db(t := map (\<lambda>r. if P r then f r else r) (db t)))
      | Delete t P \<Rightarrow> delete_rows DEPTH t P db
      | Truncate t \<Rightarrow> if references_to (snd SCHEMA) t = [] then Inr (db(t := [])) else Inl Restricted)"

text \<open>Several statements of several roles; one that fails changes nothing.\<close>

fun sql_run :: "(role \<times> statement) list \<Rightarrow> database \<Rightarrow> database" where
  "sql_run [] db = db"
| "sql_run ((role, st) # sts) db = sql_run sts (case sql_exec role st db of Inl e \<Rightarrow> db | Inr db1 \<Rightarrow> db1)"

section \<open>Lemmas\<close>

lemma users_references:
  "references_to (snd SCHEMA) ''users'' =
     [(''broker_connections'', ''user_id'', CASCADE), (''device_tokens'', ''user_id'', CASCADE),
      (''recommendations'', ''user_id'', CASCADE), (''notifications'', ''user_id'', CASCADE), (''audit_log'', ''user_id'', SET_NULL)]"
  "references_to (snd SCHEMA) ''broker_connections'' =
     [(''positions'', ''broker_connection_id'', CASCADE), (''orders'', ''broker_connection_id'', RESTRICT)]"
  by code_simp+

lemma leaf_tables:
  "references_to (snd SCHEMA) ''positions'' = []" "references_to (snd SCHEMA) ''device_tokens'' = []"
  "references_to (snd SCHEMA) ''recommendations'' = []" "references_to (snd SCHEMA) ''notifications'' = []"
  "references_to (snd SCHEMA) ''audit_log'' = []"
  by code_simp+

lemma unblocked_filter: "\<not> blocked t (filter P (db t)) \<Longrightarrow> (db(t := filter (\<lambda>r. \<not> P r) (db t))) ''audit_log'' = db ''audit_log''"
  by (cases "t = ''audit_log''") (auto simp: blocked_def filter_empty_conv intro: filter_True)

lemma unblocked_map:
  "\<not> blocked t (filter P (db t)) \<Longrightarrow> (db(t := map (\<lambda>r. if P r then f r else r) (db t))) ''audit_log'' = db ''audit_log''"
  by (cases "t = ''audit_log''") (auto simp: blocked_def filter_empty_conv intro!: map_idI)

text \<open>No deletion reaches the audit log.\<close>

lemma delete_keeps_audit:
  "delete_rows n t P db = Inr db' \<Longrightarrow> db' ''audit_log'' = db ''audit_log''"
  "on_deleted n refs ids db = Inr db' \<Longrightarrow> db' ''audit_log'' = db ''audit_log''"
proof (induction n t P db and n refs ids db arbitrary: db' and db' rule: delete_rows_on_deleted.induct)
  case (2 n t P db)
  have nb: "\<not> blocked t (filter P (db t))" using 2(2) by (auto simp: Let_def split: if_splits)
  show ?case using 2(1)[OF refl nb] 2(2) nb unblocked_filter[of t P db, OF nb]
    by (simp add: Let_def del: fun_upd_apply)
next
  case (4 n t c act refs ids db)
  show ?case
  proof (cases act)
    case CASCADE
    then show ?thesis using 4 by (auto simp: Let_def bind_res_Inr_iff)
  next
    case RESTRICT
    then show ?thesis using 4 by (auto simp: Let_def split: if_splits)
  next
    case SET_NULL
    have nb: "\<not> blocked t (filter (refers c ids) (db t))" using 4(5) SET_NULL by (auto simp: Let_def split: if_splits)
    show ?thesis using 4(4)[OF refl SET_NULL nb] 4(5) SET_NULL nb unblocked_map[of t "refers c ids" db, OF nb, of "set_null c"]
      by (simp add: Let_def del: fun_upd_apply)
  qed
qed auto

definition keeps_log :: "role \<times> statement \<Rightarrow> bool" where
  "keeps_log x \<longleftrightarrow> (case x of (role, st) \<Rightarrow> role = App_role \<or> (case st of Truncate t \<Rightarrow> t \<noteq> ''audit_log'' | _ \<Rightarrow> True))"

lemma exec_appends:
  assumes "sql_exec role st db = Inr db'" and "keeps_log (role, st)"
  shows "\<exists>new. db' ''audit_log'' = db ''audit_log'' @ new"
proof (cases st)
  case (Delete t P)
  then show ?thesis using assms delete_keeps_audit(1)[of DEPTH t P db db'] by (auto simp: sql_exec_def split: if_splits)
next
  case (Update t P f)
  have nb: "\<not> blocked t (filter P (db t))" using assms(1) Update by (auto simp: sql_exec_def split: if_splits)
  show ?thesis using unblocked_map[of t P db, OF nb, of f] assms(1) Update nb by (auto simp: sql_exec_def checked_def split: if_splits)
qed (use assms in \<open>auto simp: sql_exec_def checked_def permitted_def keeps_log_def split: if_splits\<close>)

lemma leaf_delete:
  "references_to (snd SCHEMA) t = [] \<Longrightarrow> t \<noteq> ''audit_log'' \<Longrightarrow>
     delete_rows (Suc n) t P db = Inr (db(t := filter (\<lambda>r. \<not> P r) (db t)))"
  by (simp add: Let_def blocked_def)

lemma delete_connections:
  "delete_rows 2 ''broker_connections'' P db =
     (let ids = row_ids (filter P (db ''broker_connections''))
      in if filter (refers ''broker_connection_id'' ids) (db ''orders'') \<noteq> [] then Inl Restricted
         else Inr (db(''broker_connections'' := filter (\<lambda>r. \<not> P r) (db ''broker_connections''),
                      ''positions'' := filter (\<lambda>r. \<not> refers ''broker_connection_id'' ids r) (db ''positions''))))"
proof -
  show ?thesis
    by (simp add: numeral_2_eq_2 Let_def blocked_def users_references(2) leaf_tables)
qed

section \<open>Properties\<close>

text \<open>C32. The audit log only grows: whatever INSERT, UPDATE, DELETE and TRUNCATE (without CASCADE) statements the application and the
  owner run, short of an owner's TRUNCATE of the log itself, its rows keep their places and contents, also when users are deleted; a TRUNCATE
  by the owner, which fires no row trigger, empties it.\<close>

theorem audit_append_only:
  assumes "list_all keeps_log sts"
  shows "(\<exists>new. sql_run sts db ''audit_log'' = db ''audit_log'' @ new) \<and>
    sql_run [(Owner, Truncate ''audit_log'')] db ''audit_log'' = [] \<and>
    sql_run [(App_role, Truncate ''audit_log'')] db = db"
proof -
  have "\<exists>new. sql_run sts db ''audit_log'' = db ''audit_log'' @ new"
    using assms
  proof (induction sts arbitrary: db)
    case (Cons x sts)
    obtain role st where x: "x = (role, st)" by (cases x)
    show ?case
    proof (cases "sql_exec role st db")
      case (Inl e)
      then show ?thesis using Cons x by simp
    next
      case (Inr db1)
      obtain new where "db1 ''audit_log'' = db ''audit_log'' @ new" using exec_appends[OF Inr] Cons.prems x by auto
      then show ?thesis using Cons.IH[of db1] Cons.prems x Inr by auto
    qed
  qed simp
  then show ?thesis by (simp add: sql_exec_def permitted_def leaf_tables)
qed

text \<open>Users with a past.\<close>

definition has_audit :: "string \<Rightarrow> database \<Rightarrow> bool" where
  "has_audit u db \<longleftrightarrow> (\<exists>r \<in> set (db ''audit_log''). map_of r ''user_id'' = Some u)"

definition has_orders :: "string \<Rightarrow> database \<Rightarrow> bool" where
  "has_orders u db \<longleftrightarrow> (\<exists>c \<in> set (db ''broker_connections''). \<exists>ord \<in> set (db ''orders'').
     map_of c ''user_id'' = Some u \<and> map_of c ''id'' \<noteq> None \<and> map_of ord ''broker_connection_id'' = map_of c ''id'')"

lemma refers_one: "set ids = {u} \<Longrightarrow> refers c ids r \<longleftrightarrow> map_of r c = Some u"
  by (auto simp: refers_def split: option.split)

lemma row_ids_iff: "i \<in> set (row_ids rs) \<longleftrightarrow> (\<exists>r \<in> set rs. map_of r ''id'' = Some i)"
  by (auto simp: row_ids_def List.map_filter_def image_iff)

lemma orders_referred:
  "filter (refers ''broker_connection_id'' (row_ids (filter P (db ''broker_connections'')))) (db ''orders'') \<noteq> [] \<longleftrightarrow>
   (\<exists>c \<in> set (db ''broker_connections''). \<exists>ord \<in> set (db ''orders'').
      P c \<and> map_of c ''id'' \<noteq> None \<and> map_of ord ''broker_connection_id'' = map_of c ''id'')"
  by (auto simp: filter_empty_conv refers_def row_ids_iff split: option.splits) (metis option.distinct(1) option.exhaust)+

text \<open>C33. Deleting a user fails exactly when the user has an order or a row in the audit log: the reference of the log
  is declared to be set to NULL, but that update meets the trigger, which raises for the owner as well. A user
  who ever synchronised a portfolio can therefore not be deleted.\<close>

theorem user_with_history_stays:
  assumes "u \<in> set (row_ids (db ''users''))"
  shows "(case sql_exec role (Delete ''users'' (\<lambda>r. map_of r ''id'' = Some u)) db of
      Inl e \<Rightarrow> e = Restricted \<and> has_orders u db \<or> e = Append_only \<and> has_audit u db
    | Inr db' \<Rightarrow> \<not> (has_orders u db \<or> has_audit u db) \<and> u \<notin> set (row_ids (db' ''users'')) \<and>
        \<not> list_ex (\<lambda>(t, c, act). list_ex (\<lambda>r. map_of r c = Some u) (db' t)) (references_to (snd SCHEMA) ''users''))"
proof -
  let ?P = "\<lambda>r. map_of r ''id'' = Some u"
  have ids: "set (row_ids (filter ?P (db ''users''))) = {u}" using assms by (auto simp: row_ids_iff)
  note one = refers_one[OF ids]
  have two: "refers ''user_id'' (row_ids (filter ?P (db ''users''))) = (\<lambda>r. map_of r ''user_id'' = Some u)"
    by (simp add: one fun_eq_iff)
  have orders: "filter (refers ''broker_connection_id'' (row_ids (filter (\<lambda>r. map_of r ''user_id'' = Some u)
      (db ''broker_connections'')))) (db ''orders'') \<noteq> [] \<longleftrightarrow> has_orders u db"
    unfolding orders_referred has_orders_def by blast
  have d: "delete_rows DEPTH ''users'' ?P db = on_deleted 2 (references_to (snd SCHEMA) ''users'')
      (row_ids (filter ?P (db ''users''))) (db(''users'' := filter (\<lambda>r. \<not> ?P r) (db ''users'')))"
    by (simp add: DEPTH_def numeral_3_eq_3 numeral_2_eq_2 Let_def blocked_def)
  let ?Q = "\<lambda>r. map_of r ''user_id'' = Some u"
  let ?keep = "\<lambda>t d. d(t := filter (\<lambda>r. \<not> ?Q r) (d t))"
  let ?ids = "row_ids (filter ?P (db ''users''))"
  let ?d1 = "(db(''users'' := filter (\<lambda>r. \<not> ?P r) (db ''users'')))(''broker_connections'' := filter (\<lambda>r. \<not> ?Q r) (db ''broker_connections''),
      ''positions'' := filter (\<lambda>r. \<not> refers ''broker_connection_id'' (row_ids (filter ?Q (db ''broker_connections''))) r) (db ''positions''))"
  let ?d2 = "?keep ''notifications'' (?keep ''recommendations'' (?keep ''device_tokens'' ?d1))"
  have leaf: "delete_rows 2 t R d = Inr (d(t := filter (\<lambda>r. \<not> R r) (d t)))"
    if "t \<in> {''device_tokens'', ''recommendations'', ''notifications''}" for t R d
    using leaf_delete[of t 1 R d] leaf_tables that by (auto simp: numeral_2_eq_2)
  have cascade: "on_deleted 2 ((t, ''user_id'', CASCADE) # refs) ?ids d = on_deleted 2 refs ?ids (?keep t d)"
    if "t \<in> {''device_tokens'', ''recommendations'', ''notifications''}" for t refs d
    by (simp add: two leaf[OF that])
  have log: "on_deleted 2 [(''audit_log'', ''user_id'', SET_NULL)] ?ids d =
      (if has_audit u d then Inl Append_only
       else Inr (d(''audit_log'' := map (\<lambda>r. if ?Q r then set_null ''user_id'' r else r) (d ''audit_log''))))" for d
    by (simp add: two blocked_def has_audit_def filter_empty_conv)
  have connections: "delete_rows 2 ''broker_connections'' ?Q (db(''users'' := filter (\<lambda>r. \<not> ?P r) (db ''users''))) =
      (if has_orders u db then Inl Restricted else Inr ?d1)"
    unfolding delete_connections using orders by (simp add: Let_def)
  have "on_deleted 2 (references_to (snd SCHEMA) ''users'') ?ids (db(''users'' := filter (\<lambda>r. \<not> ?P r) (db ''users''))) =
      (if has_orders u db then Inl Restricted
       else on_deleted 2 [(''device_tokens'', ''user_id'', CASCADE), (''recommendations'', ''user_id'', CASCADE),
         (''notifications'', ''user_id'', CASCADE), (''audit_log'', ''user_id'', SET_NULL)] ?ids ?d1)"
    unfolding users_references on_deleted.simps two Let_def on_delete.case connections by simp
  also have "\<dots> = (if has_orders u db then Inl Restricted else if has_audit u db then Inl Append_only
      else Inr (?d2(''audit_log'' := map (\<lambda>r. if ?Q r then set_null ''user_id'' r else r) (?d2 ''audit_log''))))"
    by (simp only: cascade[OF insertI1] cascade[OF insertI2[OF insertI1]] cascade[OF insertI2[OF insertI2[OF insertI1]]] log)
      (simp add: has_audit_def)
  finally have res: "delete_rows DEPTH ''users'' ?P db = (if has_orders u db then Inl Restricted else if has_audit u db then Inl Append_only
      else Inr (?d2(''audit_log'' := map (\<lambda>r. if ?Q r then set_null ''user_id'' r else r) (?d2 ''audit_log''))))"
    unfolding d .
  have ex: "sql_exec role (Delete ''users'' ?P) db = delete_rows DEPTH ''users'' ?P db"
    by (simp add: sql_exec_def permitted_def)
  have gone: "u \<notin> set (row_ids (filter (\<lambda>r. \<not> ?P r) (db ''users'')))" by (auto simp: row_ids_iff)
  show ?thesis
    unfolding ex res using gone by (auto simp: users_references list_ex_iff has_audit_def set_null_def)
qed

text \<open>The references have no cycle, so the depth is enough for every table.\<close>

definition rank :: "string \<Rightarrow> nat" where
  "rank t = (if t = ''users'' then 2 else if t \<in> {''instruments'', ''broker_connections''} then 1 else 0)"

lemma in_references:
  "(t', c, act) \<in> set (references_to tabs t) \<Longrightarrow>
     \<exists>tb \<in> set tabs. tb_name tb = t' \<and> (\<exists>k \<in> set (tb_columns tb). cl_references k = Some (t, act))"
  by (auto simp: references_to_def split: option.splits if_splits) metis

lemma references_descend: "(t', c, act) \<in> set (references_to (snd SCHEMA) t) \<Longrightarrow> rank t' < rank t"
proof -
  have "list_all (\<lambda>tb. list_all (\<lambda>c. case cl_references c of None \<Rightarrow> True | Some (u, a) \<Rightarrow> rank (tb_name tb) < rank u)
      (tb_columns tb)) (snd SCHEMA)" by code_simp
  then show "(t', c, act) \<in> set (references_to (snd SCHEMA) t) \<Longrightarrow> rank t' < rank t"
    using in_references[of t' c act "snd SCHEMA" t] by (fastforce simp: list_all_iff)
qed

lemma never_too_deep:
  "rank t < n \<Longrightarrow> delete_rows n t P db \<noteq> Inl Too_deep"
  "list_all (\<lambda>(t, c, act). rank t < n) refs \<Longrightarrow> on_deleted n refs ids db \<noteq> Inl Too_deep"
proof (induction n t P db and n refs ids db rule: delete_rows_on_deleted.induct)
  case (2 n t P db)
  have "list_all (\<lambda>(t, c, act). rank t < n) (references_to (snd SCHEMA) t)"
    using 2(2) references_descend by (fastforce simp: list_all_iff)
  note l = this
  show ?case
  proof (cases "blocked t (filter P (db t))")
    case False
    then show ?thesis using 2(1)[OF refl False l] by (simp add: Let_def del: fun_upd_apply)
  qed simp
next
  case (4 n t c act refs ids db)
  show ?case
  proof (cases act)
    case CASCADE
    show ?thesis
    proof (cases "delete_rows n t (refers c ids) db")
      case (Inl e)
      then show ?thesis using 4 CASCADE by simp
    next
      case (Inr d)
      then show ?thesis using 4(2)[OF refl CASCADE, of d] 4(5) CASCADE by simp
    qed
  qed (use 4 in \<open>auto simp: Let_def simp del: fun_upd_apply\<close>)
qed auto

lemma delete_decided: "delete_rows DEPTH t P db \<noteq> Inl Too_deep"
  by (rule never_too_deep) (simp add: rank_def DEPTH_def)

text \<open>The migrations in both directions: 003 and its downgrade restore the tables, but the two actions stay in the
  enum; dropping the tables in the order of the downgrade of 001 never meets a reference.\<close>

lemma migrations_round_trip:
  "snd (downgrade_003 SCHEMA) = INITIAL_TABLES" "downgrade_001 INITIAL_TABLES = Some []"
  "dict_get (fst (downgrade_003 SCHEMA)) ''recommendation_type_enum'' [] = [''buy'', ''sell'', ''hold'', ''strong_buy'', ''strong_sell'']"
  "upgrade_003 (downgrade_003 SCHEMA) = SCHEMA"
  by code_simp+

section \<open>The months of the partitions\<close>

definition month_start :: "int \<Rightarrow> instant" where "month_start k = midnight (day_number (k div 12) (k mod 12 + 1) 1)"

lemma div12_aux:
  assumes "0 \<le> m" "m < (12 :: int)"
  shows "(m + q * 12 + 1) div 12 = q + (if m = 11 then 1 else 0)" "(m + q * 12 + 1) mod 12 = (if m = 11 then 0 else m + 1)"
proof -
  have e: "m + q * 12 + 1 = (m + 1) + q * 12" by simp
  have "(m + 1) div 12 = (if m = 11 then 1 else 0)" "(m + 1) mod 12 = (if m = 11 then 0 else m + 1)"
    using assms by (simp_all add: div_pos_pos_trivial mod_pos_pos_trivial)
  then show "(m + q * 12 + 1) div 12 = q + (if m = 11 then 1 else 0)" "(m + q * 12 + 1) mod 12 = (if m = 11 then 0 else m + 1)"
    unfolding e by simp_all
qed
lemma div12: "(k + 1) div 12 = k div 12 + (if k mod 12 = 11 then 1 else 0)" "(k + 1) mod 12 = (if k mod 12 = 11 then 0 else k mod 12 + 1)"
  for k :: int
  using div12_aux[of "k mod 12" "k div 12"] by simp_all

definition year_days :: "int \<Rightarrow> int" where "year_days y = 365 * y + y div 4 - y div 100 + y div 400"

lemma day_number_alt:
  "day_number y m d = year_days (if m \<le> 2 then y - 1 else y) +
     (153 * (if m > 2 then m - 3 else m + 9) + 2) div 5 + d - 1 - 719468"
proof -
  have "z div 400 * 146097 + ((z - z div 400 * 400) * 365 + (z - z div 400 * 400) div 4 - (z - z div 400 * 400) div 100) =
      365 * z + z div 4 - z div 100 + z div 400" for z :: int
  proof -
    let ?q = "z div 400" and ?r = "z - z div 400 * 400"
    have "(r + q * 400) div 4 = 100 * q + r div 4" "(r + q * 400) div 100 = 4 * q + r div 100" for q r :: int
      using div_mult_self1[of 4 r "100 * q"] div_mult_self1[of 100 r "4 * q"] by (simp_all add: mult.commute)
    from this[of ?r ?q] have "z div 4 = 100 * ?q + ?r div 4" "z div 100 = 4 * ?q + ?r div 100"
      by (simp_all only: diff_add_cancel)
    then show ?thesis by (simp add: algebra_simps)
  qed
  then show ?thesis by (simp add: day_number_def year_days_def Let_def)
qed

lemma leap_year: "year_days (y - 1) + 340 < year_days y"
proof -
  have "(y - 1) div 4 \<le> y div 4" "(y - 1) div 400 \<le> y div 400" by (simp_all add: zdiv_mono1)
  moreover have "y div 100 \<le> (y - 1 + 100) div 100" by (simp add: zdiv_mono1)
  then have "y div 100 \<le> (y - 1) div 100 + 1" by (simp only: div_add_self2)
  moreover have "365 * (y - 1) + a' - b' + c' + 340 < 365 * y + a - b + c"
    if "a' \<le> a" "c' \<le> c" "b \<le> b' + 1" for a a' b b' c c' :: int
    using that by arith
  ultimately show ?thesis unfolding year_days_def by blast
qed

lemma month_start_less: "month_start k < month_start (k + 1)"
proof -
  have "m \<in> {0, 1, 2, 3, 4, 5, 6, 7, 8, 9, 10, 11}" if "0 \<le> m" "m < 12" for m :: int
  proof -
    have "[0..11] = [0, 1, 2, 3, 4, 5, 6, 7, 8, 9, 10, 11 :: int]" by code_simp
    moreover have "m \<in> set [0..11]" using that by simp
    ultimately show ?thesis by simp
  qed
  then have "k mod 12 \<in> {0, 1, 2, 3, 4, 5, 6, 7, 8, 9, 10, 11}" by simp
  then have "day_number (k div 12) (k mod 12 + 1) 1 < day_number ((k + 1) div 12) ((k + 1) mod 12 + 1) 1"
    unfolding div12 day_number_alt using leap_year[of "k div 12"] by (elim insertE emptyE) simp_all
  then show ?thesis by (simp add: month_start_def midnight_def day_us_def)
qed

lemma month_partition_bounds:
  "snd (month_partition y m i) = (month_start (12 * y + m - 1 + i), month_start (12 * y + m - 1 + i + 1))"
proof -
  have k: "12 * y + m - 1 + i = (m - 1 + i) + y * 12" by simp
  have a: "(12 * y + m - 1 + i) div 12 = y + (m - 1 + i) div 12" "(12 * y + m - 1 + i) mod 12 = (m - 1 + i) mod 12"
    unfolding k by simp_all
  show ?thesis unfolding month_partition_def Let_def month_start_def div12 a by simp
qed

text \<open>A bar can be stored exactly in the month in which the migration ran and the two months after it: no other
  partition exists and no task makes one.\<close>

lemma partition_of_iff: "partition_of parts t \<noteq> None \<longleftrightarrow> list_ex (\<lambda>x. fst (snd x) \<le> t \<and> t < snd (snd x)) parts"
  by (induction parts) (auto simp: partition_of_def)

lemma price_storable:
  assumes "civil (date_of now) = (y, m, d)"
  shows "partition_of (price_partitions now) t \<noteq> None \<longleftrightarrow>
    month_start (12 * y + m - 1) \<le> t \<and> t < month_start (12 * y + m + 2)"
proof -
  have e: "12 * y + m - 1 + 0 = 12 * y + m - 1" "12 * y + m - 1 + 1 = 12 * y + m" "12 * y + m - 1 + 2 = 12 * y + m + 1"
    "12 * y + m - 1 + 1 = 12 * y + m" "12 * y + m + 1 + 1 = 12 * y + m + 2"
    by simp_all
  have p: "partition_of (price_partitions now) t \<noteq> None \<longleftrightarrow>
      month_start (12 * y + m - 1) \<le> t \<and> t < month_start (12 * y + m) \<or>
      month_start (12 * y + m) \<le> t \<and> t < month_start (12 * y + m + 1) \<or>
      month_start (12 * y + m + 1) \<le> t \<and> t < month_start (12 * y + m + 2)"
    unfolding partition_of_iff price_partitions_def assms prod.case list.map list_ex_iff list.set bex_simps month_partition_bounds fst_conv snd_conv e
    by simp
  have "month_start (12 * y + m - 1) < month_start (12 * y + m)" "month_start (12 * y + m) < month_start (12 * y + m + 1)"
    "month_start (12 * y + m + 1) < month_start (12 * y + m + 2)"
    using month_start_less[of "12 * y + m - 1"] month_start_less[of "12 * y + m"] month_start_less[of "12 * y + m + 1"] by (simp_all only: e)
  then show ?thesis unfolding p by linarith
qed

text \<open>Two sessions that meet a symbol without an exchange.\<close>

definition mapping_values :: "uuid \<Rightarrow> mapping_row \<Rightarrow> db_row" where
  "mapping_values i m = [(''id'', i), (''instrument_id'', mp_instrument m), (''broker'', mp_broker m), (''broker_symbol'', mp_symbol m)] @
     (case mp_exchange m of None \<Rightarrow> [] | Some e \<Rightarrow> [(''broker_exchange'', e)])"

text \<open>C34. The unique key of the mappings does not hold where the exchange is NULL: of two sessions that infer the same
  symbol from the same tables both insert their row, since the insertion conflicts with nothing and the key
  admits the two rows; from then on every lookup of the symbol fails.\<close>

theorem null_exchange_locks_symbol:
  assumes ok: "symbols_ok db" and none: "mapped_to db b s e = None" and be: "broker_exchange_key e = None"
    and first: "normalize_symbol constraints b s e db = Inr (i, db1)"
  shows "\<exists>db2 m. create_mapping (\<lambda>_. True) (in_id i) b (broker_symbol_key s) (broker_exchange_key e) db1 = Inr db2 \<and>
    sb_mappings db2 = sb_mappings db @ [m, m] \<and>
    \<not> same_key_values (tb_keys symbol_mappings_table ! 1) (mapping_values i1 m) (mapping_values i2 m) \<and>
    normalize_symbol constraints2 b s e db2 = Inl MultipleResultsFound"
proof -
  let ?m = "\<lparr>mp_instrument = in_id i, mp_broker = b, mp_symbol = broker_symbol_key s, mp_exchange = None\<rparr>"
  let ?db2 = "db\<lparr>sb_mappings := sb_mappings db @ [?m, ?m]\<rparr>"
  have 1: "create_mapping constraints (in_id i) b (broker_symbol_key s) (broker_exchange_key e) db = Inr db1"
    using first none by (auto simp: normalize_symbol_cases[OF ok] split: sum.splits option.splits)
  have db1: "db1 = db\<lparr>sb_mappings := sb_mappings db @ [?m]\<rparr>"
    using create_mapping_new(2)[OF ok none 1] be by simp
  have 2: "create_mapping (\<lambda>_. True) (in_id i) b (broker_symbol_key s) (broker_exchange_key e) db1 = Inr ?db2"
    by (simp add: create_mapping_def be db1 Let_def)
  have "filter (mapping_matches b (broker_symbol_key s) (broker_exchange_key e)) (sb_mappings db) = []"
    using none unfolding mapped_to_None[OF ok] by (auto simp: filter_empty_conv mapping_matches_key) (metis image_eqI)
  then have "filter (mapping_matches b (broker_symbol_key s) (broker_exchange_key e)) (sb_mappings ?db2) = [?m, ?m]"
    by (simp add: be mapping_matches_def)
  then have "normalize_symbol constraints2 b s e ?db2 = Inl MultipleResultsFound"
    by (simp add: normalize_symbol_def Let_def scalar_one_or_none_def)
  then show ?thesis
    using 2 by (intro exI[of _ ?db2] exI[of _ ?m]) (simp add: symbol_mappings_table_def same_key_values_def mapping_values_def)
qed

section \<open>Witnesses\<close>

definition db_1 :: database where
  "db_1 t = (if t = ''users'' then [[(''id'', ''u1''), (''email'', ''a@b.c''), (''password_hash'', ''x''), (''locale'', ''en-IN''),
       (''is_active'', ''true''), (''created_at'', ''now()''), (''updated_at'', ''now()'')]] else [])"

definition sync_event :: db_row where
  "sync_event = [(''id'', ''a1''), (''user_id'', ''u1''), (''event_type'', ''portfolio.sync''), (''occurred_at'', ''now()'')]"

lemma audit_append_only_witness:
  "\<exists>new. sql_run [(App_role, Insert ''audit_log'' sync_event), (Owner, Delete ''audit_log'' (\<lambda>r. True)),
     (App_role, Update ''audit_log'' (\<lambda>r. True) (\<lambda>r. []))] db_1 ''audit_log'' = db_1 ''audit_log'' @ new"
  by (rule audit_append_only[THEN conjunct1]) (simp add: keeps_log_def)

definition db_2 :: database where "db_2 = db_1(''audit_log'' := [sync_event])"

lemma user_with_history_stays_witness:
  "case sql_exec Owner (Delete ''users'' (\<lambda>r. map_of r ''id'' = Some ''u1'')) db_2 of Inl e \<Rightarrow> True | Inr db' \<Rightarrow> False"
proof -
  have r: "list_ex (\<lambda>r. map_of r ''user_id'' = Some ''u1'') (db_2 ''audit_log'')" "''u1'' \<in> set (row_ids (db_2 ''users''))"
    by code_simp+
  then have "has_audit ''u1'' db_2" by (simp add: has_audit_def list_ex_iff)
  then show ?thesis using user_with_history_stays[where db = db_2, OF r(2), of Owner] by (simp split: sum.splits)
qed

definition one_listed :: symbol_db where "one_listed = \<lparr>sb_instruments = [reliance], sb_mappings = []\<rparr>"

lemma null_exchange_locks_symbol_witness:
  "\<exists>db2. create_mapping (\<lambda>_. True) ''i1'' ''zerodha'' ''RELIANCE'' None (snd (projr (normalize_symbol (\<lambda>_. True) ''zerodha'' ''RELIANCE'' None one_listed))) =
      Inr db2 \<and> normalize_symbol (\<lambda>_. True) ''zerodha'' ''RELIANCE'' None db2 = Inl MultipleResultsFound"
proof -
  have ok: "symbols_ok one_listed" by (simp add: one_listed_def symbols_ok_def)
  have n: "mapped_to one_listed ''zerodha'' ''RELIANCE'' None = None" "broker_exchange_key None = None"
    "broker_symbol_key ''RELIANCE'' = ''RELIANCE''" "in_id reliance = ''i1''" by code_simp+
  obtain db1 where d: "normalize_symbol (\<lambda>_. True) ''zerodha'' ''RELIANCE'' None one_listed = Inr (reliance, db1)"
    by (rule that, code_simp)
  show ?thesis
    using null_exchange_locks_symbol[OF ok n(1,2) d, of i1 i2 "\<lambda>_. True"] d n by auto
qed

end
