(* ===== verification/Portfolio_Api.thy ===== *)
theory Portfolio_Api
  imports Portfolio Fx_Attribution Scores
begin

text \<open>
  The routes that read the portfolio: summary and positions (\<open>api/portfolio.py\<close>) with the attribution attached to
  cross-currency positions, the intelligence (\<open>api/portfolio_intelligence.py\<close>) and the risk meter with its
  drill-down (\<open>api/risk_meter.py\<close>), each behind the ranges of its response schema: a response outside them is the
  answer 500, here \<open>Inl ()\<close>. The user is authenticated in theory \<open>Auth\<close>.
\<close>

section \<open>Summary and positions\<close>

definition get_summary :: "string \<Rightarrow> holdings_db \<Rightarrow> instant \<Rightarrow> uuid \<Rightarrow> portfolio_summary" where
  "get_summary default_base_currency db now user_id = portfolio_summary_of db now user_id (str_upper default_base_currency)"

text \<open>A resolver raises, has nothing, or knows the current price and the rate at the opening.\<close>

type_synonym resolver = "position_out \<Rightarrow> unit + (rat \<times> rat) option"

definition default_fx_attribution_resolver :: resolver where "default_fx_attribution_resolver p = Inr None"

record attributed_position = position_out +
  px_attribution :: "fx_attribution option"

definition plain_position :: "position_out \<Rightarrow> attributed_position" where
  "plain_position p = position_out.extend p \<lparr>px_attribution = None\<rparr>"

fun attach_loop :: "resolver \<Rightarrow> string \<Rightarrow> position_out list \<Rightarrow> unit + attributed_position list" where
  "attach_loop resolver base [] = Inr []"
| "attach_loop resolver base (p # ps) =
     bind_res
       (if str_upper (pt_currency p) = base then Inr (plain_position p)
        else case resolver p of
          Inl _ \<Rightarrow> Inr (plain_position p)
        | Inr None \<Rightarrow> Inr (plain_position p)
        | Inr (Some (current_price_native, fx_at_open)) \<Rightarrow>
            (case compute_fx_attribution (pt_avg_cost p) current_price_native (pt_currency p) base fx_at_open (pt_fx_rate p)
                    (Some (pt_symbol p)) of
               Inl (Non_positive name) \<Rightarrow> Inr (plain_position p)
             | Inl Too_large \<Rightarrow> Inl ()
             | Inr attribution \<Rightarrow> Inr ((plain_position p)\<lparr>px_attribution := attribution\<rparr>)))
       (\<lambda>q. bind_res (attach_loop resolver base ps) (\<lambda>qs. Inr (q # qs)))"

definition attach_fx_attribution :: "resolver \<Rightarrow> string \<Rightarrow> position_out list \<Rightarrow> unit + attributed_position list" where
  "attach_fx_attribution resolver base_currency positions =
     (let base = str_upper base_currency in attach_loop resolver base positions)"

record positions_response =
  pr_positions :: "attributed_position list"
  pr_base_currency :: string
  pr_as_of :: instant
  pr_is_stale :: bool

definition get_positions :: "resolver \<Rightarrow> string \<Rightarrow> holdings_db \<Rightarrow> instant \<Rightarrow> uuid \<Rightarrow> unit + positions_response" where
  "get_positions resolver default_base_currency db now user_id =
     (let base = str_upper default_base_currency; result = list_positions db now user_id base
      in bind_res (attach_fx_attribution resolver base (pl_positions result)) (\<lambda>qs.
           Inr \<lparr>pr_positions = qs, pr_base_currency = pl_base_currency result, pr_as_of = pl_as_of result,
                pr_is_stale = pl_is_stale result\<rparr>))"

section \<open>Intelligence\<close>

definition unit_range :: "rat \<Rightarrow> bool" where "unit_range x \<longleftrightarrow> 0 \<le> x \<and> x \<le> 1"

text \<open>The bounds of the schema: shares of sectors and the concentration index.\<close>

definition sector_entry_ok :: "string \<times> rat \<Rightarrow> bool" where "sector_entry_ok e \<longleftrightarrow> unit_range (snd e)"

definition diversification_ok :: "diversification \<Rightarrow> bool" where "diversification_ok d \<longleftrightarrow> unit_range (dv_hhi d)"

definition intelligence_ok :: "intelligence \<Rightarrow> bool" where
  "intelligence_ok x \<longleftrightarrow> list_all (\<lambda>(m, es). list_all sector_entry_ok es) (pi_sector_allocation x) \<and> diversification_ok (pi_diversification x)"

definition get_portfolio_intelligence ::
  "benchmark_lib \<Rightarrow> 'r redis \<Rightarrow> string \<Rightarrow> instant \<Rightarrow> holdings_db \<Rightarrow> uuid \<Rightarrow> int \<Rightarrow> 'r \<Rightarrow> (unit + intelligence) \<times> 'r" where
  "get_portfolio_intelligence B R default_base_currency now db user_id period_days r =
     (case intelligence_compute B R now db user_id (str_upper default_base_currency) period_days r of
        (x, r1) \<Rightarrow> (if intelligence_ok x then Inr x else Inl (), r1))"

section \<open>Risk meter\<close>

record meter_response =
  mr_overall_score :: rat
  mr_color :: string
  mr_staleness :: string
  mr_stale_reason :: "string option"

record drilldown_response = meter_response +
  mr_components :: "component list"

definition percent_range :: "rat \<Rightarrow> bool" where "percent_range x \<longleftrightarrow> 0 \<le> x \<and> x \<le> 100"

definition component_ok :: "component \<Rightarrow> bool" where
  "component_ok c \<longleftrightarrow> (case cp_score c of None \<Rightarrow> True | Some s \<Rightarrow> percent_range s) \<and> unit_range (cp_weight c)"

type_synonym meter_stats = "(string, rat) dict \<Rightarrow> (int \<times> rat) \<times> (rat \<times> rat) option"

definition get_risk_meter :: "meter_stats \<Rightarrow> holdings_db \<Rightarrow> instant \<Rightarrow> day \<Rightarrow> uuid \<Rightarrow> unit + meter_response" where
  "get_risk_meter stats db now today user_id =
     (case compute_for_user stats db now today user_id of
        (result, staleness, reason) \<Rightarrow>
          if percent_range (rm_overall result)
          then Inr \<lparr>mr_overall_score = rm_overall result, mr_color = rm_color result, mr_staleness = staleness, mr_stale_reason = reason\<rparr>
          else Inl ())"

definition get_risk_meter_drilldown :: "meter_stats \<Rightarrow> holdings_db \<Rightarrow> instant \<Rightarrow> day \<Rightarrow> uuid \<Rightarrow> unit + drilldown_response" where
  "get_risk_meter_drilldown stats db now today user_id =
     (case compute_for_user stats db now today user_id of
        (result, staleness, reason) \<Rightarrow>
          if percent_range (rm_overall result) \<and> list_all component_ok (rm_components result)
          then Inr \<lparr>mr_overall_score = rm_overall result, mr_color = rm_color result, mr_staleness = staleness, mr_stale_reason = reason,
                    mr_components = rm_components result\<rparr>
          else Inl ())"

section \<open>Lemmas\<close>

lemma plain_simps [simp]: "position_out.truncate (plain_position p) = p" "px_attribution (plain_position p) = None"
  "position_out.truncate ((plain_position p)\<lparr>px_attribution := a\<rparr>) = p"
  by (simp_all add: plain_position_def position_out.defs)

text \<open>The three percentages of a position: stock, currency and both together.\<close>

definition percentages :: "position_out \<Rightarrow> rat \<Rightarrow> rat \<Rightarrow> rat list" where
  "percentages p price fx0 =
     (let stock = ddiv price (pt_avg_cost p); fx = ddiv (pt_fx_rate p) fx0
      in map (\<lambda>ratio. dmul (dsub ratio 1) 100) [stock, fx, dmul stock fx])"

text \<open>Which positions are attributable, and with what price and opening rate.\<close>

definition attributable :: "resolver \<Rightarrow> string \<Rightarrow> position_out \<Rightarrow> rat \<Rightarrow> rat \<Rightarrow> bool" where
  "attributable resolver base_currency p price fx0 \<longleftrightarrow>
     str_upper (pt_currency p) \<noteq> str_upper base_currency \<and> resolver p = Inr (Some (price, fx0)) \<and>
     0 < pt_avg_cost p \<and> 0 < price \<and> 0 < fx0 \<and> 0 < pt_fx_rate p"

definition rightly_attributed :: "resolver \<Rightarrow> string \<Rightarrow> position_out \<Rightarrow> fx_attribution option \<Rightarrow> bool" where
  "rightly_attributed resolver base_currency p x \<longleftrightarrow>
     (case x of
        None \<Rightarrow> (\<nexists>price fx0. attributable resolver base_currency p price fx0)
      | Some a \<Rightarrow> (\<exists>price fx0. attributable resolver base_currency p price fx0 \<and>
          map quantize_tenth (percentages p price fx0) =
            map Some [fa_stock_return_pct a, fa_fx_impact_pct a, fa_base_return_pct a]))"

definition unprintable :: "resolver \<Rightarrow> string \<Rightarrow> position_out \<Rightarrow> bool" where
  "unprintable resolver base_currency p \<longleftrightarrow>
     (\<exists>price fx0. attributable resolver base_currency p price fx0 \<and> None \<in> set (map quantize_tenth (percentages p price fx0)))"

lemma compute_for_position:
  assumes cur: "str_upper (pt_currency p) \<noteq> str_upper base"
    and x: "compute_fx_attribution (pt_avg_cost p) price (pt_currency p) base fx0 (pt_fx_rate p) sy = x"
    and ok: "ok \<longleftrightarrow> 0 < pt_avg_cost p \<and> 0 < price \<and> 0 < fx0 \<and> 0 < pt_fx_rate p"
  shows "x \<noteq> Inr None" and "x = Inl (Non_positive n) \<Longrightarrow> \<not> ok"
    and "x = Inl Too_large \<Longrightarrow> ok \<and> None \<in> set (map quantize_tenth (percentages p price fx0))"
    and "x = Inr (Some a) \<Longrightarrow> ok \<and> map quantize_tenth (percentages p price fx0) =
        map Some [fa_stock_return_pct a, fa_fx_impact_pct a, fa_base_return_pct a]"
  using cur unfolding x[symmetric] ok compute_fx_attribution_def
  by (auto simp: Let_def bind_res_def quantized_def check_positive_def percentages_def
      split: sum.splits option.splits if_splits)

lemma attach_one:
  assumes "str_upper base = base"
  shows "attach_loop resolver base [p] = Inl () \<and> unprintable resolver base p \<or>
    (\<exists>a. attach_loop resolver base [p] = Inr [(plain_position p)\<lparr>px_attribution := a\<rparr>] \<and>
       rightly_attributed resolver base p a)"
proof (cases "str_upper (pt_currency p) \<noteq> base \<and> (\<exists>price fx0. resolver p = Inr (Some (price, fx0)))")
  case False
  then have "rightly_attributed resolver base p None"
    unfolding rightly_attributed_def attributable_def assms by auto
  moreover have "(plain_position p)\<lparr>px_attribution := None\<rparr> = plain_position p"
    by (simp add: plain_position_def position_out.defs)
  moreover have "attach_loop resolver base [p] = Inr [plain_position p]"
    using False by (auto split: sum.split option.split)
  ultimately show ?thesis by metis
next
  case True
  then obtain price fx0 where r: "str_upper (pt_currency p) \<noteq> str_upper base" "resolver p = Inr (Some (price, fx0))"
    using assms by auto
  define x where "x = compute_fx_attribution (pt_avg_cost p) price (pt_currency p) base fx0 (pt_fx_rate p) (Some (pt_symbol p))"
  note c = compute_for_position[OF r(1) x_def[symmetric] refl]
  have n: "(plain_position p)\<lparr>px_attribution := None\<rparr> = plain_position p"
    by (simp add: plain_position_def position_out.defs)
  have cur: "str_upper (pt_currency p) \<noteq> base" using r(1) unfolding assms .
  have l: "attach_loop resolver base [p] = (case x of
      Inl (Non_positive name) \<Rightarrow> Inr [plain_position p] | Inl Too_large \<Rightarrow> Inl ()
    | Inr a \<Rightarrow> Inr [(plain_position p)\<lparr>px_attribution := a\<rparr>])"
    by (simp add: cur r(2) x_def[symmetric] split: sum.split attribution_error.split)
  show ?thesis
  proof (cases x)
    case (Inl e)
    show ?thesis
    proof (cases e)
      case (Non_positive nm)
      have "attach_loop resolver base [p] = Inr [(plain_position p)\<lparr>px_attribution := None\<rparr>]"
        unfolding l n by (simp add: Inl Non_positive)
      moreover have "rightly_attributed resolver base p None"
        using c(2)[of nm] Inl Non_positive r(2) by (auto simp: rightly_attributed_def attributable_def)
      ultimately show ?thesis by blast
    next
      case Too_large
      have "attach_loop resolver base [p] = Inl ()" unfolding l by (simp add: Inl Too_large)
      moreover have "attributable resolver base p price fx0" "None \<in> set (map quantize_tenth (percentages p price fx0))"
        using c(3) Inl Too_large r by (simp_all add: attributable_def)
      ultimately show ?thesis unfolding unprintable_def by blast
    qed
  next
    case (Inr oa)
    then obtain a where a: "x = Inr (Some a)" using c(1) by (cases oa) auto
    have att: "attach_loop resolver base [p] = Inr [(plain_position p)\<lparr>px_attribution := Some a\<rparr>]" unfolding l by (simp add: a)
    have "attributable resolver base p price fx0" "map quantize_tenth (percentages p price fx0) =
        map Some [fa_stock_return_pct a, fa_fx_impact_pct a, fa_base_return_pct a]"
      using c(4)[OF a] r by (simp_all add: attributable_def)
    then have "rightly_attributed resolver base p (Some a)" unfolding rightly_attributed_def option.case by blast
    then show ?thesis using att by blast
  qed
qed

lemma attach_Cons:
  "attach_loop resolver base (p # ps) =
     bind_res (attach_loop resolver base [p]) (\<lambda>q. bind_res (attach_loop resolver base ps) (\<lambda>qs. Inr (q @ qs)))"
  by (simp add: bind_res_def split: sum.split)

lemma attach_all:
  assumes "str_upper base = base"
  shows "case attach_loop resolver base ps of
      Inl x \<Rightarrow> list_ex (unprintable resolver base) ps
    | Inr qs \<Rightarrow> map position_out.truncate qs = ps \<and>
        list_all (\<lambda>q. rightly_attributed resolver base (position_out.truncate q) (px_attribution q)) qs"
proof (induction ps)
  case (Cons p ps)
  show ?case
    using attach_one[OF assms, of resolver p]
  proof
    assume "attach_loop resolver base [p] = Inl () \<and> unprintable resolver base p"
    then show ?thesis unfolding attach_Cons[of resolver base p ps] by (auto simp del: attach_loop.simps)
  next
    assume "\<exists>a. attach_loop resolver base [p] = Inr [(plain_position p)\<lparr>px_attribution := a\<rparr>] \<and> rightly_attributed resolver base p a"
    then obtain a where a: "attach_loop resolver base [p] = Inr [(plain_position p)\<lparr>px_attribution := a\<rparr>]"
      "rightly_attributed resolver base p a" by blast
    show ?thesis using Cons.IH a(2) unfolding attach_Cons[of resolver base p ps] a(1)
      by (cases "attach_loop resolver base ps") (simp_all del: attach_loop.simps)
  qed
qed simp

lemma truncated:
  "pt_currency (position_out.truncate q) = pt_currency q" "pt_avg_cost (position_out.truncate q) = pt_avg_cost q"
  "pt_fx_rate (position_out.truncate q) = pt_fx_rate q"
  by (simp_all add: position_out.defs)

lemma unknown_weights:
  assumes "ps \<noteq> []" "\<forall>p \<in> set ps. ep_sector p = ''Unknown''"
  shows "weights ep_sector ps = [(''Unknown'', total_base_of ps)]"
proof -
  have "ep_sector ` set ps = {''Unknown''}" using assms by (cases ps) auto
  then have "map fst (weights ep_sector ps) = [''Unknown'']"
    using distinct_singleton[OF weights_distinct[of ep_sector ps]] by (simp add: weights_keys)
  then obtain v where v: "weights ep_sector ps = [(''Unknown'', v)]" by (auto simp: map_eq_Cons_conv)
  have "filter (\<lambda>p. ep_sector p = ''Unknown'') ps = ps" using assms(2) by simp
  then show ?thesis using weights_mem[of "''Unknown''" v ep_sector ps] v by (simp add: total_base_of_def)
qed

lemma whole_share: "0 < t \<Longrightarrow> f64 (ddiv t t) = 1"
  by (simp add: ddiv_def)

lemma allocation_ok:
  assumes "\<forall>p \<in> set ps. ep_sector p = ''Unknown''"
  shows "list_all (\<lambda>(m, es). list_all sector_entry_ok es) (sector_allocation ps)"
proof -
  have "list_all sector_entry_ok (map (\<lambda>(sector, v). (sector, f64 (ddiv v tot))) (sort_desc snd (market_sectors market ps)))"
    if "(market, tot) \<in> set (weights ep_market ps)" "0 < tot" for market tot
  proof -
    let ?qs = "filter (\<lambda>p. ep_market p = market) ps"
    have q: "?qs \<noteq> []" "tot = total_base_of ?qs"
      using weights_mem[OF that(1)] by (auto simp: filter_empty_conv total_base_of_def)
    have "market_sectors market ps = [(''Unknown'', tot)]"
      unfolding market_sectors_def using unknown_weights[OF q(1)] assms q(2) by simp
    then show ?thesis using whole_share[OF that(2)] by (simp add: sort_desc_def sector_entry_ok_def unit_range_def)
  qed
  then show ?thesis by (fastforce simp: sector_allocation_def Let_def list_all_iff)
qed

lemma diversification_in_range:
  assumes "\<forall>p \<in> set ps. ep_sector p = ''Unknown''"
  shows "diversification_ok (diversification_of ps (total_base_of ps))"
proof (cases "total_base_of ps \<le> 0")
  case False
  then have "ps \<noteq> []" by (auto simp: total_base_of_def)
  then show ?thesis
    using False whole_share[of "total_base_of ps"] unknown_weights[OF _ assms]
    by (simp add: diversification_ok_def diversification_of_def unit_range_def float_ops)
qed (simp add: diversification_ok_def diversification_of_def unit_range_def)

lemma intelligence_in_schema: "intelligence_ok (fst (intelligence_compute B R now db u base days r))"
proof -
  let ?ps = "load_positions db u (str_upper base)"
  have "\<forall>p \<in> set ?ps. ep_sector p = ''Unknown''" using load_rows_sector by (simp add: load_positions_def)
  then show ?thesis
    using allocation_ok diversification_in_range
    by (simp add: intelligence_ok_def intelligence_compute_def Let_def case_prod_beta diversification_ok_def unit_range_def)
qed

lemma in_scale_ok: "in_scale c \<Longrightarrow> component_ok c"
  by (auto simp: component_ok_def in_scale_def percent_range_def unit_range_def weight_ok_def split: option.splits)

lemma meter_facts:
  "list_all component_ok (rm_components (compute_risk_meter ws returns index evs today))"
  "map cp_name (rm_components (compute_risk_meter ws returns index evs today)) = [''concentration'', ''volatility_var'', ''drawdown'', ''events'']"
  "percent_range (rm_overall (compute_risk_meter ws returns index evs today))"
  "rm_color (compute_risk_meter ws returns index evs today) = classify_score (rm_overall (compute_risk_meter ws returns index evs today))"
  by (simp_all add: compute_risk_meter_def Let_def in_scale_ok components_in_scale percent_range_def blend_percent)
    (simp add: compute_concentration_def compute_volatility_var_def compute_drawdown_def compute_events_def)

section \<open>Properties\<close>

text \<open>C36. The attached attribution: the answer keeps the positions in their order. A position gets an attribution
  exactly when its currency is not the base currency, the resolver knows price and opening rate, and cost, price and
  both rates are positive; its percentages are then those of stock, currency and both together, rounded to a tenth. The
  list fails as a whole only for such a position with a percentage of more than 28 digits, although the helper is
  documented never to raise on a single position; with the resolver of production nothing is attached.\<close>

theorem positions_attributed:
  "(case attach_fx_attribution resolver base ps of
      Inl x \<Rightarrow> list_ex (\<lambda>p. \<exists>price fx0. str_upper (pt_currency p) \<noteq> str_upper base \<and> resolver p = Inr (Some (price, fx0)) \<and>
          0 < pt_avg_cost p \<and> 0 < price \<and> 0 < fx0 \<and> 0 < pt_fx_rate p \<and>
          None \<in> set (map quantize_tenth (percentages p price fx0))) ps
    | Inr qs \<Rightarrow> map position_out.truncate qs = ps \<and>
        list_all (\<lambda>q. case px_attribution q of
            None \<Rightarrow> (\<nexists>price fx0. str_upper (pt_currency q) \<noteq> str_upper base \<and>
              resolver (position_out.truncate q) = Inr (Some (price, fx0)) \<and>
              0 < pt_avg_cost q \<and> 0 < price \<and> 0 < fx0 \<and> 0 < pt_fx_rate q)
          | Some a \<Rightarrow> (\<exists>price fx0. str_upper (pt_currency q) \<noteq> str_upper base \<and>
              resolver (position_out.truncate q) = Inr (Some (price, fx0)) \<and>
              0 < pt_avg_cost q \<and> 0 < price \<and> 0 < fx0 \<and> 0 < pt_fx_rate q \<and>
              map quantize_tenth (percentages (position_out.truncate q) price fx0) =
                map Some [fa_stock_return_pct a, fa_fx_impact_pct a, fa_base_return_pct a])) qs) \<and>
   attach_fx_attribution default_fx_attribution_resolver base ps = Inr (map plain_position ps)"
proof
  show "attach_fx_attribution default_fx_attribution_resolver base ps = Inr (map plain_position ps)"
    unfolding attach_fx_attribution_def Let_def by (induction ps) (simp_all add: default_fx_attribution_resolver_def)
  note a = attach_all[of "str_upper base" resolver ps, OF str_upper_idem,
      unfolded unprintable_def rightly_attributed_def attributable_def truncated str_upper_idem conj_assoc]
  show "case attach_fx_attribution resolver base ps of
      Inl x \<Rightarrow> list_ex (\<lambda>p. \<exists>price fx0. str_upper (pt_currency p) \<noteq> str_upper base \<and> resolver p = Inr (Some (price, fx0)) \<and>
          0 < pt_avg_cost p \<and> 0 < price \<and> 0 < fx0 \<and> 0 < pt_fx_rate p \<and>
          None \<in> set (map quantize_tenth (percentages p price fx0))) ps
    | Inr qs \<Rightarrow> map position_out.truncate qs = ps \<and>
        list_all (\<lambda>q. case px_attribution q of
            None \<Rightarrow> (\<nexists>price fx0. str_upper (pt_currency q) \<noteq> str_upper base \<and>
              resolver (position_out.truncate q) = Inr (Some (price, fx0)) \<and>
              0 < pt_avg_cost q \<and> 0 < price \<and> 0 < fx0 \<and> 0 < pt_fx_rate q)
          | Some a \<Rightarrow> (\<exists>price fx0. str_upper (pt_currency q) \<noteq> str_upper base \<and>
              resolver (position_out.truncate q) = Inr (Some (price, fx0)) \<and>
              0 < pt_avg_cost q \<and> 0 < price \<and> 0 < fx0 \<and> 0 < pt_fx_rate q \<and>
              map quantize_tenth (percentages (position_out.truncate q) price fx0) =
                map Some [fa_stock_return_pct a, fa_fx_impact_pct a, fa_base_return_pct a])) qs"
    unfolding attach_fx_attribution_def Let_def by (rule a)
qed

text \<open>C37. No response of the three panels ever leaves the ranges of its schema: shares, index, scores and weights are within their
  bounds, whatever positions, prices and benchmarks there are, short positions and missing rates included. (The
  free-form \<open>detail\<close> of a component, which the schema gives no range, is not part of the model.)\<close>

theorem panels_within_schema:
  "fst (get_portfolio_intelligence B R base now db u days r) =
     Inr (fst (intelligence_compute B R now db u (str_upper base) days r)) \<and>
   (case get_risk_meter_drilldown stats db now today u of
      Inl x \<Rightarrow> False
    | Inr d \<Rightarrow> get_risk_meter stats db now today u = Inr (meter_response.truncate d) \<and>
        map cp_name (mr_components d) = [''concentration'', ''volatility_var'', ''drawdown'', ''events''] \<and>
        mr_color d = classify_score (mr_overall_score d))"
  using intelligence_in_schema[of B R now db u "str_upper base" days r]
  by (simp add: get_portfolio_intelligence_def get_risk_meter_drilldown_def get_risk_meter_def compute_for_user_def Let_def
      case_prod_beta meter_response.defs meter_facts)

end
