(* ===== verification/Alert_Stream.thy ===== *)
theory Alert_Stream
  imports Notifications
begin

text \<open>
  The alert stream of one user (\<open>api/ws_alerts.py\<close>): publishing an event on the user's channel and the loop of the
  socket after the handshake of theory \<open>Notifications\<close>, which forwards what the subscription yields and pings. The
  subscription is the list of its polls, each with the time of the loop after it; a send fails when the client is
  gone. How JSON prints an event is a parameter.
\<close>

definition CHANNEL_PREFIX :: string where "CHANNEL_PREFIX = ''ws:alerts:user:''"
definition PING_INTERVAL :: int where "PING_INTERVAL = 30 * second"
definition PUBSUB_POLL_TIMEOUT :: int where "PUBSUB_POLL_TIMEOUT = 1 * second"

definition channel_for :: "uuid \<Rightarrow> string" where "channel_for user_id = CHANNEL_PREFIX @ user_id"

text \<open>\<open>publish\<close> delivers a payload on a channel and answers the number of subscribers.\<close>

definition publish_alert :: "(string \<Rightarrow> string \<Rightarrow> 's \<Rightarrow> int \<times> 's) \<Rightarrow> ('e \<Rightarrow> string) \<Rightarrow> uuid \<Rightarrow> 'e \<Rightarrow> 's \<Rightarrow> int \<times> 's" where
  "publish_alert publish dumps user_id event s = publish (channel_for user_id) (dumps event) s"

section \<open>The loop\<close>

text \<open>The data of a message: bytes (ASCII), a text, or something else, which is not forwarded.\<close>

datatype message_data = Bytes_data string | Text_data string | Other_data

datatype frame = Alert string | Ping

type_synonym poll = "message_data option \<times> instant"

definition message_text :: "message_data option \<Rightarrow> string option" where
  "message_text m = (case m of Some (Bytes_data s) \<Rightarrow> Some s | Some (Text_data s) \<Rightarrow> Some s | _ \<Rightarrow> None)"

text \<open>Each pass sends the message, if any, and then a ping when one is due. \<open>alive\<close> tells whether the send of a frame at
  a time reaches the client; the first that does not ends the stream, within a pass too. The result is the frames
  sent, with their times, and whether the client was found gone.\<close>

fun stream_loop :: "(instant \<times> frame \<Rightarrow> bool) \<Rightarrow> instant \<Rightarrow> poll list \<Rightarrow> (instant \<times> frame) list \<times> bool" where
  "stream_loop alive last_ping [] = ([], False)"
| "stream_loop alive last_ping ((m, now) # polls) =
     (let due = PING_INTERVAL \<le> now - last_ping;
          frames = (case message_text m of Some s \<Rightarrow> [(now, Alert s)] | None \<Rightarrow> []) @ (if due then [(now, Ping)] else []);
          reached = takeWhile alive frames
      in if reached \<noteq> frames then (reached, True)
         else (case stream_loop alive (if due then now else last_ping) polls of (sent, gone) \<Rightarrow> (frames @ sent, gone)))"

text \<open>What the finally block does when the stream ends, however it ends.\<close>

datatype cleanup = Unsubscribe string | Close_pubsub | Close_socket

definition alert_stream :: "(instant \<times> frame \<Rightarrow> bool) \<Rightarrow> uuid \<Rightarrow> instant \<Rightarrow> poll list \<Rightarrow> (instant \<times> frame) list \<times> cleanup list" where
  "alert_stream alive user_id start polls =
     (case stream_loop alive start polls of
        (sent, gone) \<Rightarrow> (sent, if gone then [Unsubscribe (channel_for user_id), Close_pubsub, Close_socket] else []))"

section \<open>Lemmas\<close>

definition alerts_of :: "(instant \<times> frame) list \<Rightarrow> string list" where
  "alerts_of fs = List.map_filter (\<lambda>(t, f). case f of Alert s \<Rightarrow> Some s | Ping \<Rightarrow> None) fs"

definition ping_times :: "(instant \<times> frame) list \<Rightarrow> instant list" where
  "ping_times fs = List.map_filter (\<lambda>(t, f). case f of Alert s \<Rightarrow> None | Ping \<Rightarrow> Some t) fs"

definition texts_of :: "poll list \<Rightarrow> string list" where "texts_of ps = List.map_filter (\<lambda>(m, t). message_text m) ps"

lemma frames_simps [simp]:
  "alerts_of [] = []" "alerts_of ((t, Alert s) # fs) = s # alerts_of fs" "alerts_of ((t, Ping) # fs) = alerts_of fs"
  "alerts_of (fs @ gs) = alerts_of fs @ alerts_of gs"
  "ping_times [] = []" "ping_times ((t, Alert s) # fs) = ping_times fs" "ping_times ((t, Ping) # fs) = t # ping_times fs"
  "ping_times (fs @ gs) = ping_times fs @ ping_times gs"
  "texts_of [] = []" "texts_of ((m, t) # ps) = (case message_text m of None \<Rightarrow> [] | Some s \<Rightarrow> [s]) @ texts_of ps"
  by (simp_all add: alerts_of_def ping_times_def texts_of_def List.map_filter_def split: option.split)

definition steady :: "int \<Rightarrow> instant list \<Rightarrow> bool" where
  "steady d ts \<longleftrightarrow> successively (\<lambda>a b. a \<le> b \<and> b - a \<le> d) ts"

definition paced :: "int \<Rightarrow> instant list \<Rightarrow> bool" where
  "paced d ts \<longleftrightarrow> successively (\<lambda>a b. a + PING_INTERVAL \<le> b \<and> b < a + PING_INTERVAL + d) ts"

text \<open>One pass.\<close>

definition pass_frames :: "instant \<Rightarrow> message_data option \<Rightarrow> instant \<Rightarrow> (instant \<times> frame) list" where
  "pass_frames last_ping m now =
     (case message_text m of Some s \<Rightarrow> [(now, Alert s)] | None \<Rightarrow> []) @ (if PING_INTERVAL \<le> now - last_ping then [(now, Ping)] else [])"

lemma stream_step:
  "fst (stream_loop alive last_ping ((m, now) # polls)) =
     (if takeWhile alive (pass_frames last_ping m now) \<noteq> pass_frames last_ping m now then takeWhile alive (pass_frames last_ping m now)
      else pass_frames last_ping m now @
        fst (stream_loop alive (if PING_INTERVAL \<le> now - last_ping then now else last_ping) polls))"
  unfolding stream_loop.simps Let_def pass_frames_def[symmetric] case_prod_beta by (simp only: if_distrib[of fst] fst_conv)

lemma all_reached: "takeWhile (\<lambda>f. True) fs = fs"
  by (induction fs) simp_all

lemma stream_step_all:
  "stream_loop (\<lambda>f. True) last_ping ((m, now) # polls) =
     (case stream_loop (\<lambda>f. True) (if PING_INTERVAL \<le> now - last_ping then now else last_ping) polls of
        (sent, gone) \<Rightarrow> (pass_frames last_ping m now @ sent, gone))"
  unfolding stream_loop.simps Let_def pass_frames_def[symmetric] all_reached by simp

lemma stream_all:
  assumes "steady d (before # map snd polls)" and "last_ping \<le> before" "before < last_ping + PING_INTERVAL"
  shows "let (sent, gone) = stream_loop (\<lambda>f. True) last_ping polls
    in \<not> gone \<and> alerts_of sent = texts_of polls \<and> paced d (last_ping # ping_times sent) \<and>
       last (before # map snd polls) < last (last_ping # ping_times sent) + PING_INTERVAL"
  using assms
proof (induction polls arbitrary: before last_ping)
  case Nil
  then show ?case by (simp add: paced_def)
next
  case (Cons p polls)
  obtain m now where p: "p = (m, now)" by (cases p)
  have st: "steady d (now # map snd polls)" "before \<le> now" "now - before \<le> d"
    using Cons.prems(1) p by (simp_all add: steady_def)
  let ?due = "PING_INTERVAL \<le> now - last_ping"
  let ?next = "if ?due then now else last_ping"
  have later: "?next \<le> now" "now < ?next + PING_INTERVAL"
    using Cons.prems(2) st(2) by (auto simp: PING_INTERVAL_def)
  obtain sent gone where l: "stream_loop (\<lambda>f. True) ?next polls = (sent, gone)" by fastforce
  note IH = Cons.IH[OF st(1) later, unfolded l Let_def prod.case]
  have step: "stream_loop (\<lambda>f. True) last_ping (p # polls) = (pass_frames last_ping m now @ sent, gone)"
    unfolding p stream_step_all l by simp
  have fr: "alerts_of (pass_frames last_ping m now) = (case message_text m of None \<Rightarrow> [] | Some s \<Rightarrow> [s])"
    "ping_times (pass_frames last_ping m now) = (if ?due then [now] else [])"
    by (simp_all add: pass_frames_def split: option.split)
  have gap: "paced d (last_ping # now # ts)" if "?due" "paced d (now # ts)" for ts
    using that Cons.prems(3) st(3) by (simp add: paced_def)
  show ?case
    using IH gap[of "ping_times sent"] unfolding step Let_def prod.case by (cases "?due") (simp_all add: fr p)
qed

text \<open>A client that leaves has received a beginning of the frames.\<close>

lemma stream_prefix: "\<exists>rest. fst (stream_loop (\<lambda>f. True) last_ping polls) = fst (stream_loop alive last_ping polls) @ rest"
proof (induction alive last_ping polls rule: stream_loop.induct)
  case (2 alive last_ping m now polls)
  let ?fs = "pass_frames last_ping m now"
  let ?next = "if PING_INTERVAL \<le> now - last_ping then now else last_ping"
  show ?case
  proof (cases "takeWhile alive ?fs \<noteq> ?fs")
    case True
    then show ?thesis unfolding stream_step all_reached by simp (metis append_assoc takeWhile_dropWhile_id)
  next
    case False
    then have "\<exists>rest. fst (stream_loop (\<lambda>f. True) ?next polls) = fst (stream_loop alive ?next polls) @ rest"
      using 2 by (simp add: pass_frames_def)
    then show ?thesis using False unfolding stream_step all_reached by auto
  qed
qed simp

section \<open>Property\<close>

text \<open>C38. While the client is connected every text of the subscription is forwarded, in order and once, and pings come:
  when the polls are at most \<open>d\<close> apart two pings are at least 30 and less than 30 seconds plus \<open>d\<close> apart, the first
  counted from the start, and at the last poll the last ping (or the start) is less than 30 seconds ago. A client
  that leaves has received a beginning of those frames.\<close>

theorem stream_forwards_and_pings:
  assumes "steady d (start # map snd polls)"
  shows "let sent = fst (alert_stream (\<lambda>f. True) u start polls)
    in alerts_of sent = texts_of polls \<and> paced d (start # ping_times sent) \<and>
       last (start # map snd polls) < last (start # ping_times sent) + PING_INTERVAL \<and>
       (\<exists>rest. sent = fst (alert_stream alive u start polls) @ rest)"
  using stream_all[OF assms, of start] stream_prefix[of start polls alive]
  by (simp add: alert_stream_def case_prod_beta Let_def PING_INTERVAL_def)

lemma stream_forwards_and_pings_witness:
  "let sent = fst (alert_stream (\<lambda>f. True) ''u'' 0 [(Some (Text_data ''a''), 20 * second), (None, 31 * second), (Some (Bytes_data ''b''), 50 * second)])
   in alerts_of sent = [''a'', ''b''] \<and> paced (20 * second) (0 # ping_times sent) \<and>
      50 * second < last (0 # ping_times sent) + 30 * second"
  using stream_forwards_and_pings[of "20 * second" 0 "[(Some (Text_data ''a''), 20 * second), (None, 31 * second), (Some (Bytes_data ''b''), 50 * second)]" "''u''"]
  by (simp add: steady_def Let_def message_text_def PING_INTERVAL_def)

end
