(* ===== verification/Mailer.thy ===== *)
theory Mailer
  imports Notifications
begin

text \<open>
  The mail of a password reset (\<open>notifications/transactional.py\<close>) over the SMTP session it shares with the email channel
  (\<open>notifications/email.py\<close>): the configuration, the message, the commands of the session and the log records. How the
  server answers a session is a parameter; addresses hold no line breaks.
\<close>

section \<open>Configuration and message\<close>

record mail_settings =
  mail_environment :: string
  mail_smtp_host :: "string option"
  mail_smtp_port :: int
  mail_smtp_username :: "string option"
  mail_smtp_password :: "string option"
  mail_smtp_from_email :: "string option"
  mail_smtp_use_tls :: bool
  mail_reset_expires_minutes :: int

record smtp_config =
  smtp_host :: string
  smtp_port :: int
  smtp_username :: string
  smtp_password :: string
  smtp_from_email :: string
  smtp_use_tls :: bool

definition text_or_empty :: "string option \<Rightarrow> string" where
  "text_or_empty s = (case s of None \<Rightarrow> [] | Some t \<Rightarrow> t)"

definition build_smtp_config :: "mail_settings \<Rightarrow> smtp_config option" where
  "build_smtp_config cfg =
     (if text_or_empty (mail_smtp_host cfg) = [] \<or> text_or_empty (mail_smtp_from_email cfg) = [] then None
      else Some \<lparr>smtp_host = text_or_empty (mail_smtp_host cfg), smtp_port = mail_smtp_port cfg,
        smtp_username = text_or_empty (mail_smtp_username cfg), smtp_password = text_or_empty (mail_smtp_password cfg),
        smtp_from_email = text_or_empty (mail_smtp_from_email cfg), smtp_use_tls = mail_smtp_use_tls cfg\<rparr>)"

record mail_message =
  mm_subject :: string
  mm_from :: string
  mm_to :: string
  mm_body :: string

definition newline :: string where "newline = [CHR 10]"

definition build_reset_message :: "smtp_config \<Rightarrow> string \<Rightarrow> string \<Rightarrow> int \<Rightarrow> mail_message" where
  "build_reset_message cfg to_email code expires_minutes =
     \<lparr>mm_subject = ''Your InvestIQ password reset code'', mm_from = smtp_from_email cfg, mm_to = to_email,
      mm_body = ''You (or someone using your email) requested a password reset for your InvestIQ account.'' @ newline @ newline @
        ''Your password reset code is: '' @ code @ newline @ newline @
        ''Open the InvestIQ app, go to the Reset Password screen, and enter this code. It expires in '' @
        int_str expires_minutes @ '' minutes.'' @ newline @ newline @
        ''If you did not request a reset, you can safely ignore this email.''\<rparr>"

section \<open>The session\<close>

datatype smtp_command = Connect string int | Ehlo | Starttls | Login string string | Send_message mail_message

definition send_sync :: "smtp_config \<Rightarrow> mail_message \<Rightarrow> smtp_command list" where
  "send_sync cfg msg =
     [Connect (smtp_host cfg) (smtp_port cfg), Ehlo] @ (if smtp_use_tls cfg then [Starttls, Ehlo] else []) @
     (if smtp_username cfg \<noteq> [] then [Login (smtp_username cfg) (smtp_password cfg)] else []) @ [Send_message msg]"

text \<open>Per-user settings are not stored yet: the channel of a user is never there.\<close>

definition email_from_user :: "bool \<Rightarrow> smtp_config option" where "email_from_user user_exists = None"

section \<open>Sending\<close>

text \<open>A log record is its template and its arguments. \<open>smtp\<close> answers the name of the class of the exception a
  session raises, \<open>True\<close> with it for those of SMTP and of the operating system.\<close>

type_synonym log_record = "string \<times> string list"

definition send_password_reset_email ::
  "mail_settings \<Rightarrow> (smtp_command list \<Rightarrow> (bool \<times> string) option) \<Rightarrow> string \<Rightarrow> string \<Rightarrow> smtp_command list \<times> log_record list" where
  "send_password_reset_email cfg smtp to_email code =
     (case build_smtp_config cfg of
        None \<Rightarrow>
          ([], [if mail_environment cfg = ''development''
                then (''Transactional email: SMTP not configured; password reset for %s NOT emailed. DEV-ONLY reset code=%s'', [to_email, code])
                else (''Transactional email: SMTP not configured; password reset email for %s was not sent.'', [to_email])])
      | Some transport \<Rightarrow>
          (let msg = build_reset_message transport to_email code (mail_reset_expires_minutes cfg);
               session = send_sync transport msg
           in (session,
               (case smtp session of
                  None \<Rightarrow> []
                | Some (True, name) \<Rightarrow> [(''Transactional email: SMTP error %s sending password reset to %s'', [name, to_email])]
                | Some (False, name) \<Rightarrow> [(''Transactional email: unexpected %s sending password reset to %s (verify SMTP credentials contain no stray/non-ASCII characters)'',
                     [name, to_email])]))))"

section \<open>Lemmas\<close>

text \<open>The code is logged in development only, and there only when no transport is configured. It never meets the
  server in the clear when TLS is asked for: the credentials and the message follow the upgrade.\<close>

lemma reset_code_secret:
  assumes "(t, args) \<in> set (snd (send_password_reset_email cfg smtp to_email code))" "code \<in> set args" "code \<noteq> to_email"
    and "\<forall>cs b n. smtp cs = Some (b, n) \<longrightarrow> n \<noteq> code"
  shows "mail_environment cfg = ''development'' \<and> build_smtp_config cfg = None"
  using assms by (auto simp: send_password_reset_email_def Let_def split: option.splits if_splits bool.splits) metis+

lemma secrets_after_tls:
  assumes "smtp_use_tls cfg" "i < length (send_sync cfg msg)" "send_sync cfg msg ! i \<in> {Login u p, Send_message msg}"
  shows "Starttls \<in> set (take i (send_sync cfg msg))"
proof -
  have "i < 2 \<or> 3 \<le> i \<or> i = 2" by auto
  then show ?thesis using assms by (auto simp: send_sync_def nth_Cons' take_Cons' numeral_eq_Suc split: if_splits)
qed

end
