(* ===== verification/Recommendations_Api.thy ===== *)
theory Recommendations_Api
  imports Synthesizer Analysis_Api
begin

text \<open>
  The recommendation routes (\<open>api/recommendations.py\<close>) around the synthesizer: the technical engine run on the stored
  prices, the route that generates and stores, and the list of the recommendations still valid. A stored row has the
  id and the creation time the database gave it; how rows of one creation time are ordered is a parameter.
\<close>

section \<open>The technical engine of a recommendation\<close>

definition RECOMMENDATION_BARS :: nat where "RECOMMENDATION_BARS = 252"

text \<open>Whatever goes wrong, the engine is only left out. The time is that of the computation.\<close>

definition load_technical :: "rat pandas \<Rightarrow> price_row list \<Rightarrow> uuid \<Rightarrow> instant \<Rightarrow> (technical_analysis \<times> instant) option" where
  "load_technical P prices instrument_id now =
     (let ohlcv = load_ohlcv_from_db prices instrument_id RECOMMENDATION_BARS
      in if fr_rows ohlcv = [] then None
         else case analyze_technical P ohlcv of Inl e \<Rightarrow> None | Inr a \<Rightarrow> Some (a, now))"

definition generate_route ::
  "rat pandas \<Rightarrow> price_row list \<Rightarrow> staleness_hours \<Rightarrow> rec_settings \<Rightarrow> instrument list \<Rightarrow> uuid \<Rightarrow> uuid \<Rightarrow> instant \<Rightarrow> rec_db
     \<Rightarrow> recommendation option \<times> rec_db" where
  "generate_route P prices th st instruments user_id instrument_id now db =
     (let found = find (\<lambda>i. in_id i = instrument_id) instruments
      in generate_recommendation th st user_id (map_option (\<lambda>i. (in_id i, in_symbol i)) found)
           (map_option (\<lambda>(a, t). (ta_composite_score a, t)) (load_technical P prices instrument_id now)) now db)"

section \<open>The list\<close>

record stored_recommendation = rec_row +
  sr_id :: uuid
  sr_created_at :: instant

definition recommendation_json :: "'a stored_recommendation_scheme \<Rightarrow> json" where
  "recommendation_json r =
     JObj [(''id'', JStr (sr_id r)), (''instrument_id'', JStr (rw_instrument r)), (''recommendation_type'', JStr (rw_type r)),
           (''rationale'', JStr (rw_rationale r)), (''confidence_score'', JFloat (f64 (rw_confidence r))),
           (''expires_at'', JStr (iso_instant (rw_expires_at r))), (''status'', JStr (rw_status r))]"

definition list_recommendations ::
  "(stored_recommendation list \<Rightarrow> stored_recommendation list) \<Rightarrow> instant \<Rightarrow> uuid \<Rightarrow> stored_recommendation list \<Rightarrow> json list" where
  "list_recommendations by_created_desc now user_id rows =
     map recommendation_json (by_created_desc (filter (\<lambda>r. rw_user r = user_id \<and> rw_expires_at r > now) rows))"

section \<open>Lemmas\<close>

lemma composite_float:
  assumes "analyze_technical P ohlcv = Inr a" "ta_composite_score a = Some v"
  shows "f64 v = v"
proof -
  have "f64 (clamp (-1) 1 (fdiv x y)) = clamp (-1) 1 (fdiv x y)" for x y
    using fl.rnd_of_int[of "-1"] by (simp add: clamp_def fdiv_def min_def max_def)
  moreover obtain rs n flags where "analysis_of rs n flags = Inr a"
    using assms(1) by (auto simp: analyze_technical_def bind_res_Inr_iff Let_def split: if_splits)
  then have "tech_composite rs = Inr (Some v)"
    using assms(2) by (auto simp: analysis_of_def bind_res_Inr_iff Let_def)
  then have "\<exists>x y. v = clamp (-1) 1 (fdiv x y)"
    by (auto simp: tech_composite_def Let_def simp del: py_fsum.simps split: if_splits)
  ultimately show ?thesis by metis
qed

lemma fresh_now: "0 < sh_fresh th \<Longrightarrow> classify_staleness th now now = FRESH"
  by (simp add: classify_staleness_def age_hours_def fdiv_def Let_def)

text \<open>What is stored for one score.\<close>

lemma single_stored:
  assumes "f64 v = v" "classify_staleness th t now = level" "level \<noteq> SUPPRESSED"
    and "generate_recommendation th st u (Some (iid, symbol)) (Some (Some v, t)) now db = (resp, db')"
  shows "\<exists>r row. resp = Some r \<and> rr_confidence r = Some (100 - staleness_reduction level) \<and> rd_rows db' = rd_rows db @ [row] \<and>
    rw_confidence row = 100 - staleness_reduction level \<and> rw_user row = u \<and> rw_expires_at row = now + RECOMMENDATION_TTL"
proof -
  let ?ca = "\<lambda>k. if k = Technical then map_option snd (Some (Some v, t)) else None"
  have "?ca Technical = Some t" by simp
  note R = synthesize_single[where ca = ?ca, OF assms(1-3) this]
  have "two_decimals (100 - staleness_reduction level) = 100 - staleness_reduction level"
    using assms(3) by (cases level) (simp_all add: two_decimals_def round_half_even_def)
  then show ?thesis
    using assms(4) R by (auto simp: generate_recommendation_def Let_def store_recommendation_def)
qed

text \<open>An example: 200 equal bars at the beginning of the epoch, asked for ten years later.\<close>

definition apple_full :: instrument where
  "apple_full = \<lparr>in_id = ''i'', in_symbol = ''AAPL'', in_exchange = ''NASDAQ'', in_name = ''Apple'', in_currency = ''USD'', in_asset_class = ''stock'', in_isin = None, in_active = True\<rparr>"

lemma apple_full_id [simp]: "in_id apple_full = ''i''"
  by (simp add: apple_full_def)

section \<open>Property\<close>

text \<open>C35. The age of the prices does not count: the technical engine is stamped with the time of its computation, so for
  any stored prices the analysis can score, however long ago the last of them is, the recommendation generated from
  them is stored with full confidence and listed for the user until it expires.\<close>

theorem old_prices_full_confidence:
  assumes "find (\<lambda>i. in_id i = iid) instruments = Some i" and "0 < sh_fresh th"
    and "load_ohlcv_from_db prices iid RECOMMENDATION_BARS = ohlcv" "fr_rows ohlcv \<noteq> []"
    and "analyze_technical P ohlcv = Inr a" "ta_composite_score a = Some v"
    and "generate_route P prices th st instruments u iid now db = (resp, db')"
  shows "\<exists>r row. resp = Some r \<and> rr_confidence r = Some 100 \<and> rd_rows db' = rd_rows db @ [row] \<and> rw_confidence row = 100 \<and>
    list_recommendations order later u [rec_row.extend row \<lparr>sr_id = new_id, sr_created_at = now\<rparr>] =
      map recommendation_json (order (if later < now + RECOMMENDATION_TTL
        then [rec_row.extend row \<lparr>sr_id = new_id, sr_created_at = now\<rparr>] else []))"
proof -
  have i: "in_id i = iid" using find_SomeD[OF assms(1)] by simp
  have g: "generate_recommendation th st u (Some (iid, in_symbol i)) (Some (Some v, now)) now db = (resp, db')"
    using assms i by (simp add: generate_route_def load_technical_def Let_def)
  obtain r row where r: "resp = Some r" "rr_confidence r = Some (100 - staleness_reduction FRESH)"
    "rd_rows db' = rd_rows db @ [row]" "rw_confidence row = 100 - staleness_reduction FRESH" "rw_user row = u"
    "rw_expires_at row = now + RECOMMENDATION_TTL"
    using single_stored[OF composite_float[OF assms(5,6)] fresh_now[OF assms(2)] _ g] by auto
  then show ?thesis using r by (simp add: list_recommendations_def rec_row.defs)
qed

lemma old_prices_full_confidence_witness:
  "\<exists>r row. fst (generate_route stored_pandas flat_rows default_hours \<lparr>rs_environment = ''production'', rs_shadow_mode = True,
        rs_legal_review = False, rs_ai_enabled = False, rs_ai_weight = 0\<rparr> [apple_full] ''u'' ''i'' (10 * 365 * 24 * hour)
        \<lparr>rd_rows = [], rd_audit = [], rd_ai_tasks = []\<rparr>) = Some r \<and> rr_confidence r = Some 100 \<and> rw_confidence row = 100 \<and>
     list_recommendations rev (10 * 365 * 24 * hour) ''u'' [rec_row.extend row \<lparr>sr_id = ''r'', sr_created_at = 10 * 365 * 24 * hour\<rparr>] =
       [recommendation_json (rec_row.extend row \<lparr>sr_id = ''r'', sr_created_at = 10 * 365 * 24 * hour\<rparr>)]"
proof -
  have "load_ohlcv_from_db flat_rows ''i'' RECOMMENDATION_BARS = load_ohlcv_from_db flat_rows ''i'' 252"
    by (simp add: RECOMMENDATION_BARS_def)
  moreover have "analyze_technical stored_pandas (load_ohlcv_from_db flat_rows ''i'' 252) = Inr flat_analysis"
    using flat_analyzed unfolding analyze_technical_def flat_loaded flat_ensure stored_indicators by simp
  moreover have "fr_rows (load_ohlcv_from_db flat_rows ''i'' 252) \<noteq> []"
    using flat_newest(1)[of 252] by (auto simp: load_ohlcv_from_db_def)
  moreover have "ta_composite_score flat_analysis = Some (f64 (- (11 / 50)))" by (simp add: flat_analysis_def)
  moreover have "find (\<lambda>i. in_id i = ''i'') [apple_full] = Some apple_full" by simp
  moreover have "0 < sh_fresh default_hours" by code_simp
  ultimately show ?thesis
    using old_prices_full_confidence[of "''i''" "[apple_full]" apple_full default_hours flat_rows "load_ohlcv_from_db flat_rows ''i'' 252"
        stored_pandas flat_analysis "f64 (- (11 / 50))", OF _ _ _ _ _ _ prod.collapse[symmetric],
        of "\<lparr>rs_environment = ''production'', rs_shadow_mode = True, rs_legal_review = False, rs_ai_enabled = False, rs_ai_weight = 0\<rparr>"
          "''u''" "10 * 365 * 24 * hour" "\<lparr>rd_rows = [], rd_audit = [], rd_ai_tasks = []\<rparr>" rev "10 * 365 * 24 * hour" "''r''"]
    by (auto simp: RECOMMENDATION_TTL_def)
qed

end
