(* ===== verification/Meter_Series.thy ===== *)
theory Meter_Series
  imports Health_Api
begin

text \<open>
  The price series behind the risk meter (\<open>analysis/risk_meter.py\<close>, \<open>api/risk_meter.py\<close>): the weights and closes of the
  holdings by symbol, the weighted returns with their value at risk, and the weighted index with its drawdown; theory
  \<open>Scores\<close> makes components and score of them. How pandas sums a row of floats and the percentile of numpy are parameters.
\<close>

section \<open>Series by symbol\<close>

definition METER_PRICE_BARS :: nat where "METER_PRICE_BARS = 252"

type_synonym series_dict = "(string, (instant \<times> rat) list) dict"

definition meter_holdings :: "holdings_db \<Rightarrow> uuid \<Rightarrow> instrument_row list" where
  "meter_holdings db user_id = map snd (filter (\<lambda>(p, i). po_quantity p \<noteq> 0) (user_positions db user_id))"

text \<open>Two holdings of one symbol share its entry: the closes of the later one that has any.\<close>

definition meter_price_series :: "price_row list \<Rightarrow> holdings_db \<Rightarrow> uuid \<Rightarrow> series_dict" where
  "meter_price_series prices db user_id =
     (let held = meter_holdings db user_id; closes = load_close_series_bulk prices (map in_id held) METER_PRICE_BARS
      in foldl (\<lambda>d i. case closes (in_id i) of None \<Rightarrow> d | Some [] \<Rightarrow> d | Some s \<Rightarrow> dict_set (in_symbol i) s d) [] held)"

section \<open>Weighted returns\<close>

text \<open>A cell of a frame of changes: NaN, an infinity with its sign, or a finite change.\<close>

datatype change = Undefined | Infinite bool | Change rat

fun pct_change :: "rat option \<Rightarrow> rat option \<Rightarrow> change" where
  "pct_change (Some a) (Some b) =
     (if a = 0 then (if b = 0 then Undefined else Infinite (0 < b)) else Change (fsub (fdiv b a) 1))"
| "pct_change _ _ = Undefined"

text \<open>\<open>fillna(0.0)\<close> and the product with the weight of the column, which is not negative.\<close>

fun weighted_change :: "rat \<Rightarrow> change \<Rightarrow> change" where
  "weighted_change w Undefined = Change 0"
| "weighted_change w (Infinite positive) = (if w = 0 then Undefined else Infinite positive)"
| "weighted_change w (Change x) = Change (fmul x w)"

text \<open>The sum of a row skips NaN; infinities of both signs make one.\<close>

definition sum_changes :: "(rat list \<Rightarrow> rat) \<Rightarrow> change list \<Rightarrow> change" where
  "sum_changes row_sum row =
     (if Infinite True \<in> set row \<and> Infinite False \<in> set row then Undefined
      else if Infinite True \<in> set row then Infinite True
      else if Infinite False \<in> set row then Infinite False
      else Change (row_sum (concat (map (\<lambda>c. case c of Change x \<Rightarrow> [x] | _ \<Rightarrow> []) row))))"

definition aligned_series :: "(string, rat) dict \<Rightarrow> series_dict \<Rightarrow> (rat \<times> (instant \<times> rat) list) list" where
  "aligned_series ws series =
     concat (map (\<lambda>(symbol, w). case map_of series symbol of None \<Rightarrow> [] | Some [] \<Rightarrow> [] | Some s \<Rightarrow> [(\<bar>w\<bar>, s)]) ws)"

definition index_union :: "(instant \<times> rat) list list \<Rightarrow> instant list" where
  "index_union ss = sorted_list_of_set (set (concat (map (map fst) ss)))"

definition portfolio_returns :: "(rat list \<Rightarrow> rat) \<Rightarrow> (string, rat) dict \<Rightarrow> series_dict \<Rightarrow> change list" where
  "portfolio_returns row_sum ws series =
     (let aligned = aligned_series ws series; total_weight = foldl fadd 0 (map fst aligned)
      in if aligned = [] \<or> total_weight \<le> 0 then []
         else (let times = index_union (map snd aligned);
                   rows = map (\<lambda>(t, u). map (\<lambda>(w, s). (fdiv w total_weight, pct_change (last_known s t) (last_known s u))) aligned)
                     (zip times (tl times));
                   returns = filter (\<lambda>row. \<exists>c \<in> set row. snd c \<noteq> Undefined) rows
               in filter (\<lambda>c. c \<noteq> Undefined) (map (\<lambda>row. sum_changes row_sum (map (\<lambda>(w, c). weighted_change w c) row)) returns)))"

text \<open>\<open>max(0.0, -pct)\<close> of a NaN or of an infinite gain is 0, an infinite loss saturates the score as a loss of everything
  does.\<close>

fun percentile_value :: "change \<Rightarrow> rat" where
  "percentile_value Undefined = 0"
| "percentile_value (Infinite positive) = (if positive then 0 else -1)"
| "percentile_value (Change x) = x"

section \<open>Weighted index\<close>

text \<open>Peak and last value of the index; \<open>None\<close> when there is none.\<close>

definition value_index :: "(rat list \<Rightarrow> rat) \<Rightarrow> (string, rat) dict \<Rightarrow> series_dict \<Rightarrow> (rat \<times> rat) option" where
  "value_index row_sum ws series =
     (let total_weight = py_fsum (map (\<lambda>(symbol, w). \<bar>w\<bar>) ws);
          frames = concat (map (\<lambda>(symbol, s). let w = \<bar>dict_get ws symbol 0\<bar>
            in if w \<le> 0 then [] else case normalised_series (fdiv w total_weight) (Some s) of None \<Rightarrow> [] | Some f \<Rightarrow> [f]) series)
      in if series = [] \<or> total_weight \<le> 0 \<or> frames = [] then None
         else (let portfolio_value = portfolio_values row_sum frames
               in if portfolio_value = [] then None else Some (Max (set portfolio_value), last portfolio_value)))"

section \<open>The risk meter of a user\<close>

definition meter_statistics ::
  "(rat list \<Rightarrow> rat) \<Rightarrow> (change list \<Rightarrow> change) \<Rightarrow> series_dict \<Rightarrow> (string, rat) dict \<Rightarrow> (int \<times> rat) \<times> (rat \<times> rat) option" where
  "meter_statistics row_sum np_percentile_5 series ws =
     (let returns = portfolio_returns row_sum ws series
      in ((int (length returns), percentile_value (np_percentile_5 returns)), value_index row_sum ws series))"

definition risk_meter_for_user ::
  "(rat list \<Rightarrow> rat) \<Rightarrow> (change list \<Rightarrow> change) \<Rightarrow> price_row list \<Rightarrow> holdings_db \<Rightarrow> instant \<Rightarrow> day \<Rightarrow> uuid
     \<Rightarrow> risk_meter \<times> string \<times> string option" where
  "risk_meter_for_user row_sum np_percentile_5 prices db now today user_id =
     compute_for_user (meter_statistics row_sum np_percentile_5 (meter_price_series prices db user_id)) db now today user_id"

section \<open>Lemmas\<close>

text \<open>Of several positions in one symbol the last gives the weight: the others count for nothing in the returns and in
  the index.\<close>

lemma weight_of_last:
  assumes "rows = filter (\<lambda>(p, i). po_quantity p \<noteq> 0) (user_positions db u)"
    and "rows = xs @ (p, i) # ys" "in_symbol i \<notin> (\<lambda>(q, j). in_symbol j) ` set ys"
    and "tot = dsum (map (\<lambda>(q, j). dmul (po_quantity q) (po_avg_cost q)) rows)" "0 < tot"
  shows "map_of (mc_by_symbol (load_portfolio_context db u)) (in_symbol i) = Some (meter_weight (dmul (po_quantity p) (po_avg_cost p)) tot)"
proof -
  let ?f = "\<lambda>d (j, v). dict_set (in_symbol j) (meter_weight v tot) d"
  have keep: "map_of (foldl ?f d vs) s = map_of d s" if "s \<notin> in_symbol ` fst ` set vs" for d vs and s :: string
    using that by (induction vs arbitrary: d) auto
  have s: "map snd (map (\<lambda>(q, j). (j, dmul (po_quantity q) (po_avg_cost q))) rows) = map (\<lambda>(q, j). dmul (po_quantity q) (po_avg_cost q)) rows"
    by (simp add: case_prod_beta)
  have "mc_by_symbol (load_portfolio_context db u) = foldl ?f [] (map (\<lambda>(q, j). (j, dmul (po_quantity q) (po_avg_cost q))) rows)"
    using assms(4,5) unfolding load_portfolio_context_def assms(1)[symmetric] Let_def s by simp
  moreover have "in_symbol i \<notin> in_symbol ` fst ` set (map (\<lambda>(q, j). (j, dmul (po_quantity q) (po_avg_cost q))) ys)"
    using assms(3) by force
  ultimately have "map_of (mc_by_symbol (load_portfolio_context db u)) (in_symbol i) = map_of (foldl ?f []
      (map (\<lambda>(q, j). (j, dmul (po_quantity q) (po_avg_cost q))) xs @ [(i, dmul (po_quantity p) (po_avg_cost p))])) (in_symbol i)"
    unfolding assms(2) by (subst keep[symmetric, of _ "map (\<lambda>(q, j). (j, dmul (po_quantity q) (po_avg_cost q))) ys"]) auto
  then show ?thesis by simp
qed

lemma returns_bounded: "length (portfolio_returns row_sum ws series) \<le> length (index_union (map snd (aligned_series ws series))) - 1"
  unfolding portfolio_returns_def Let_def by (auto intro!: order_trans[OF length_filter_le])

text \<open>A blend grows with its scores.\<close>

definition below :: "component \<Rightarrow> component \<Rightarrow> bool" where
  "below c d \<longleftrightarrow> cp_weight c = cp_weight d \<and> 0 \<le> cp_weight c \<and> rel_option (\<le>) (cp_score c) (cp_score d)"

lemma blend_loop_mono:
  assumes "list_all2 below cs ds" "W \<le> V" "0 \<le> S"
  shows "fst (blend_loop W S cs) \<le> fst (blend_loop V S ds) \<and> snd (blend_loop W S cs) = snd (blend_loop V S ds) \<and> 0 \<le> snd (blend_loop V S ds)"
  using assms
proof (induction arbitrary: W V S rule: list_all2_induct)
  case (Cons c cs d ds)
  show ?case
  proof (cases "cp_score c")
    case None
    then show ?thesis using Cons by (auto simp: below_def)
  next
    case (Some s)
    then obtain t where t: "cp_score d = Some t" "s \<le> t" "cp_weight c = cp_weight d" "0 \<le> cp_weight d"
      using Cons.hyps by (auto simp: below_def rel_option_iff split: option.splits)
    have "fmul s (cp_weight d) \<le> fmul t (cp_weight d)"
      unfolding fmul_def using t by (intro fl.rnd_mono mult_right_mono)
    then have "fadd W (fmul s (cp_weight d)) \<le> fadd V (fmul t (cp_weight d))"
      unfolding fadd_def using Cons.prems(1) by (intro fl.rnd_mono) simp
    moreover have "0 \<le> fadd S (cp_weight d)" unfolding fadd_def using Cons.prems t by (simp add: fl.rnd_nonneg)
    ultimately show ?thesis using Cons.IH[of "fadd W (fmul s (cp_weight d))" "fadd V (fmul t (cp_weight d))"] Some t by simp
  qed
qed simp

lemma blend_mono:
  assumes "list_all2 below cs ds"
  shows "blend cs \<le> blend ds"
proof -
  obtain W S V T where l: "blend_loop 0 0 cs = (W, S)" "blend_loop 0 0 ds = (V, T)" by (cases "blend_loop 0 0 cs", cases "blend_loop 0 0 ds")
  then have m: "W \<le> V" "S = T" "0 \<le> T" using blend_loop_mono[OF assms, of 0 0 0] by auto
  have "fdiv W T \<le> fdiv V T" unfolding fdiv_def using m by (intro fl.rnd_mono divide_right_mono)
  then have "(if S = 0 then 0 else fdiv W S) \<le> (if T = 0 then 0 else fdiv V T)" using m(2) by simp
  then have "clamp 0 100 (if S = 0 then 0 else fdiv W S) \<le> clamp 0 100 (if T = 0 then 0 else fdiv V T)"
    unfolding clamp_def by (simp only: max.mono min.mono order_refl)
  then show ?thesis unfolding blend_def l prod.case Let_def by (rule py_round_mono)
qed

text \<open>The components at their worst, of which \<open>ps\<close> are there, and no events.\<close>

definition worst :: "bool \<Rightarrow> bool \<Rightarrow> bool \<Rightarrow> component list" where
  "worst a b c =
     [\<lparr>cp_name = [], cp_score = (if a then Some 100 else None), cp_weight = WEIGHT_CONCENTRATION\<rparr>,
      \<lparr>cp_name = [], cp_score = (if b then Some 100 else None), cp_weight = WEIGHT_VOL_VAR\<rparr>,
      \<lparr>cp_name = [], cp_score = (if c then Some 100 else None), cp_weight = WEIGHT_DRAWDOWN\<rparr>,
      \<lparr>cp_name = [], cp_score = Some 0, cp_weight = WEIGHT_EVENTS\<rparr>]"

lemma worst_products: "fmul 100 WEIGHT_CONCENTRATION = 30" "fmul 100 WEIGHT_VOL_VAR = 30" "fmul 100 WEIGHT_DRAWDOWN = 20" "fmul 0 WEIGHT_EVENTS = 0"
  by code_simp+
lemma worst_sums: "fadd 0 30 = 30" "fadd 0 20 = 20" "fadd 30 30 = 60" "fadd 30 20 = 50" "fadd 60 20 = 80" "fadd 80 0 = 80" "fadd 60 0 = 60" "fadd 50 0 = 50"
  "fadd 30 0 = 30" "fadd 20 0 = 20" "fadd 0 0 = 0"
  by code_simp+
lemma worst_weights: "WEIGHT_CONCENTRATION = f64 (3 / 10)" "WEIGHT_VOL_VAR = f64 (3 / 10)" "WEIGHT_DRAWDOWN = f64 (1 / 5)" "WEIGHT_EVENTS = f64 (1 / 5)"
  "fadd 0 (f64 (3 / 10)) = f64 (3 / 10)" "fadd 0 (f64 (1 / 5)) = f64 (1 / 5)" "fadd (f64 (3 / 10)) (f64 (3 / 10)) = f64 (3 / 5)"
  "fadd (f64 (3 / 10)) (f64 (1 / 5)) = 1 / 2" "fadd (f64 (3 / 5)) (f64 (1 / 5)) = f64 (4 / 5)" "fadd (f64 (4 / 5)) (f64 (1 / 5)) = 1"
  "fadd (1 / 2) (f64 (1 / 5)) = f64 (7 / 10)" "fadd (f64 (1 / 5)) (f64 (1 / 5)) = f64 (2 / 5)" 
  by code_simp+
lemma worst_quotients: "fdiv 80 1 = 80" "fdiv 60 (f64 (4 / 5)) \<le> 80" "fdiv 50 (f64 (7 / 10)) \<le> 80" "fdiv 30 (1 / 2) = 60" "fdiv 20 (f64 (2 / 5)) \<le> 80" "fdiv 0 (f64 (1 / 5)) = 0" 
  by code_simp+

lemma rounded_below: "x \<le> of_int n \<Longrightarrow> 0 \<le> n \<Longrightarrow> n \<le> 100 \<Longrightarrow> py_round 1 (clamp 0 100 (if S = 0 then 0 else x)) \<le> of_int n"
  using py_round_mono[of "clamp 0 100 (if S = 0 then 0 else x)" "of_int n" 1] py_round_of_int[of n 1]
  by (auto simp: clamp_def)

lemma worst_loop:
  "blend_loop 0 0 (worst a b c) =
     (if a \<and> b then if c then (80, 1) else (60, f64 (4 / 5))
      else if a \<or> b then if c then (50, f64 (7 / 10)) else (30, 1 / 2)
      else if c then (20, f64 (2 / 5)) else (0, f64 (1 / 5)))"
  by (cases a; cases b; cases c) (simp_all add: worst_def worst_products[unfolded worst_weights] worst_sums worst_weights)

lemma worst_blend: "blend (worst a b c) \<le> (if b \<or> c then 80 else 60)"
proof -
  have r: "x \<le> 80 \<Longrightarrow> py_round 1 (clamp 0 100 (if S = 0 then 0 else x)) \<le> 80"
    "x \<le> 60 \<Longrightarrow> py_round 1 (clamp 0 100 (if S = 0 then 0 else x)) \<le> 60" for x S
    using rounded_below[of x 80 S] rounded_below[of x 60 S] by simp_all
  have q: "fdiv 80 1 \<le> 80" "fdiv 30 (1 / 2) \<le> 80" "fdiv 30 (1 / 2) \<le> 60" "fdiv 0 (f64 (1 / 5)) \<le> 60"
    using worst_quotients by simp_all
  show ?thesis
    unfolding blend_def worst_loop
    by (cases a; cases b; cases c) (simp_all only: if_True if_False simp_thms prod.case Let_def r worst_quotients q)
qed

lemma below_worst:
  "in_scale c \<Longrightarrow> cp_weight c = w \<Longrightarrow> below c \<lparr>cp_name = [], cp_score = (if cp_score c \<noteq> None then Some 100 else None), cp_weight = w\<rparr>"
  by (auto simp: below_def in_scale_def weight_ok_def split: option.splits)

lemma meter_worst:
  "rm_overall (compute_risk_meter ws returns index None today) \<le> (if MIN_RETURNS_FOR_VAR \<le> fst returns \<or> index \<noteq> None then 80 else 60)"
proof -
  let ?c = "compute_concentration ws" and ?v = "compute_volatility_var (fst returns) (snd returns)" and ?d = "compute_drawdown index"
  have "below (compute_events None today) \<lparr>cp_name = [], cp_score = Some 0, cp_weight = WEIGHT_EVENTS\<rparr>"
    using score_weights(4) by (simp add: below_def compute_events_def weight_ok_def)
  then have "list_all2 below [?c, ?v, ?d, compute_events None today] (worst (cp_score ?c \<noteq> None) (cp_score ?v \<noteq> None) (cp_score ?d \<noteq> None))"
    unfolding worst_def
    using below_worst[OF components_in_scale(1)[of ws]] below_worst[OF components_in_scale(2)[of "fst returns" "snd returns"]]
      below_worst[OF components_in_scale(3)[of index]]
    by (simp add: compute_concentration_def compute_volatility_var_def compute_drawdown_def)
  from blend_mono[OF this] have "rm_overall (compute_risk_meter ws returns index None today) \<le>
      (if cp_score ?v \<noteq> None \<or> cp_score ?d \<noteq> None then 80 else 60)"
    using worst_blend order_trans by (fastforce simp: compute_risk_meter_def Let_def)
  moreover have "cp_score ?v \<noteq> None \<longleftrightarrow> MIN_RETURNS_FOR_VAR \<le> fst returns" "cp_score ?d \<noteq> None \<longleftrightarrow> index \<noteq> None"
    by (auto simp: compute_volatility_var_def compute_drawdown_def Let_def split: option.splits)
  ultimately show ?thesis by simp
qed

lemma meter_closes:
  assumes "list_all (\<lambda>p. ph_instrument p \<notin> set ids) prices"
  shows "load_close_series_bulk prices ids n i = None"
proof -
  have "newest_rows n i prices = []" if "i \<in> set ids"
  proof -
    have "filter (\<lambda>p. ph_instrument p = i) prices = []" using assms that by (auto simp: list_all_iff filter_empty_conv)
    then show ?thesis by (simp add: newest_rows_def)
  qed
  then show ?thesis by (simp add: load_close_series_bulk_def)
qed

lemma unpriced:
  assumes "list_all (\<lambda>p. ph_instrument p \<notin> set (map in_id (meter_holdings db u))) prices"
  shows "meter_price_series prices db u = []"
proof -
  have "foldl (\<lambda>d i. d) d held = d" for d :: series_dict and held :: "instrument_row list" by (induction held) auto
  then show ?thesis by (simp add: meter_price_series_def meter_closes[OF assms] Let_def)
qed

lemma no_statistics: "meter_statistics row_sum pct [] ws = ((0, percentile_value (pct [])), None)"
proof -
  have "aligned_series ws [] = []" by (induction ws) (auto simp: aligned_series_def)
  then show ?thesis by (simp add: meter_statistics_def portfolio_returns_def value_index_def)
qed

section \<open>Property\<close>

text \<open>C39. The meter never shows more than 80: the events it does not know count as none, with their full weight. Without
  stored closes of the holdings it never shows more than 60, so that not even a single holding is red.\<close>

theorem risk_meter_capped:
  "let meter = fst (risk_meter_for_user row_sum np_percentile_5 prices db now today u)
   in if list_all (\<lambda>p. ph_instrument p \<notin> set (map in_id (meter_holdings db u))) prices
      then rm_overall meter \<le> 60 \<and> rm_color meter \<noteq> ''red'' else rm_overall meter \<le> 80"
proof -
  have c: "rm_color (compute_risk_meter ws r i e t) = classify_score (rm_overall (compute_risk_meter ws r i e t))" for ws r i e t
    by (simp add: compute_risk_meter_def Let_def)
  have "rm_overall (compute_risk_meter ws r i None t) \<le> 80" for ws r i t
    using meter_worst[of ws r i t] by (auto split: if_splits)
  moreover have "rm_overall (compute_risk_meter ws (0, x) None None t) \<le> 60" for ws x t
    using meter_worst[of ws "(0, x)" None t] by (simp add: MIN_RETURNS_FOR_VAR_def)
  ultimately show ?thesis
    by (auto simp: risk_meter_for_user_def compute_for_user_def Let_def unpriced no_statistics c classify_score_def)
qed

end
