(* ===== verification/Orm.thy ===== *)
theory Orm
  imports Schema
begin

text \<open>
  The object-relational mapping (\<open>models\<close>): every model as its attributes with their types, defaults, keys and
  references, and the row an instance is stored as. A default of a model is applied by the mapper when the row is
  written, a server default by the database. The lemmas compare the models with the tables the migrations of theory
  \<open>Schema\<close> make. Indexes and the partitioning clause are left out.
\<close>

section \<open>Models as data\<close>

text \<open>What the mapper fills in for an absent value: a constant, or a uuid drawn for the row (\<open>default=uuid4\<close>).\<close>

datatype client_default = Constant string | Fresh_uuid

record attribute =
  at_name :: string
  at_type :: sql_type
  at_nullable :: bool
  at_primary :: bool
  at_unique :: bool
  at_default :: "client_default option"
  at_server_default :: "string option"
  at_onupdate :: bool
  at_references :: "(string \<times> on_delete) option"

record model =
  md_table :: string
  md_attributes :: "attribute list"
  md_uniques :: "string list list"

definition mapped :: "string \<Rightarrow> sql_type \<Rightarrow> attribute" where
  "mapped n ty = \<lparr>at_name = n, at_type = ty, at_nullable = False, at_primary = False, at_unique = False, at_default = None,
     at_server_default = None, at_onupdate = False, at_references = None\<rparr>"

definition maybe :: "string \<Rightarrow> sql_type \<Rightarrow> attribute" where "maybe n ty = (mapped n ty)\<lparr>at_nullable := True\<rparr>"

definition with_default :: "string \<Rightarrow> sql_type \<Rightarrow> string \<Rightarrow> attribute" where
  "with_default n ty v = (mapped n ty)\<lparr>at_default := Some (Constant v)\<rparr>"

definition foreign_key :: "string \<Rightarrow> string \<Rightarrow> on_delete \<Rightarrow> attribute" where
  "foreign_key n t act = (mapped n Uuid)\<lparr>at_references := Some (t, act)\<rparr>"

definition stamped :: "string \<Rightarrow> attribute" where "stamped n = (mapped n Timestamptz)\<lparr>at_server_default := Some ''now()''\<rparr>"

text \<open>The primary key, which the mapper draws.\<close>

definition key_attribute :: attribute where
  "key_attribute = (mapped ''id'' Uuid)\<lparr>at_primary := True, at_default := Some Fresh_uuid\<rparr>"

definition TimestampMixin :: "attribute list" where
  "TimestampMixin = [stamped ''created_at'', (stamped ''updated_at'')\<lparr>at_onupdate := True\<rparr>]"

section \<open>The models\<close>

definition MODEL_ENUMS :: "(string \<times> string list) list" where
  "MODEL_ENUMS =
     [(''broker_enum'', [''alpaca'', ''zerodha'']), (''broker_conn_status_enum'', [''active'', ''expired'', ''revoked'']),
      (''platform_enum'', [''ios'', ''android'']), (''order_side_enum'', [''buy'', ''sell'']), (''order_type_enum'', [''market'', ''limit'']),
      (''order_status_enum'', [''pending'', ''submitted'', ''filled'', ''partial'', ''cancelled'', ''rejected'']),
      (''corp_action_type_enum'', [''split'', ''dividend'', ''merger'']),
      (''recommendation_type_enum'', [''strong_buy'', ''buy'', ''hold'', ''sell'', ''strong_sell'']),
      (''recommendation_status_enum'', [''pending'', ''accepted'', ''rejected'', ''expired'', ''executed'']),
      (''notification_type_enum'', [''recommendation'', ''order_fill'', ''price_alert'', ''system'']),
      (''ai_analysis_status_enum'', [''success'', ''error'', ''timeout''])]"

definition User_model :: model where
  "User_model = \<lparr>md_table = ''users'', md_attributes =
     [key_attribute, (mapped ''email'' (Varchar 320))\<lparr>at_unique := True\<rparr>, mapped ''password_hash'' (Varchar 255),
      maybe ''full_name'' (Varchar 255), with_default ''locale'' (Varchar 10) ''en-IN'', with_default ''is_active'' Boolean_type ''true''] @
     TimestampMixin, md_uniques = []\<rparr>"

definition Instrument_model :: model where
  "Instrument_model = \<lparr>md_table = ''instruments'', md_attributes =
     [key_attribute, mapped ''symbol'' (Varchar 32), mapped ''exchange'' (Varchar 16), mapped ''name'' (Varchar 255),
      mapped ''currency'' (Varchar 3), with_default ''asset_class'' (Varchar 32) ''equity'', maybe ''isin'' (Varchar 12),
      with_default ''is_active'' Boolean_type ''true'', stamped ''created_at''], md_uniques = [[''symbol'', ''exchange'']]\<rparr>"

definition SymbolMapping_model :: model where
  "SymbolMapping_model = \<lparr>md_table = ''symbol_mappings'', md_attributes =
     [key_attribute, foreign_key ''instrument_id'' ''instruments'' CASCADE, mapped ''broker'' (Enum_type ''broker_enum''),
      mapped ''broker_symbol'' (Varchar 64), maybe ''broker_exchange'' (Varchar 16)],
     md_uniques = [[''broker'', ''broker_symbol'', ''broker_exchange'']]\<rparr>"

definition BrokerConnection_model :: model where
  "BrokerConnection_model = \<lparr>md_table = ''broker_connections'', md_attributes =
     [key_attribute, foreign_key ''user_id'' ''users'' CASCADE, mapped ''broker'' (Enum_type ''broker_enum''),
      mapped ''account_id'' (Varchar 128), mapped ''access_token_encrypted'' Bytea, maybe ''refresh_token_encrypted'' Bytea,
      maybe ''token_expires_at'' Timestamptz, with_default ''status'' (Enum_type ''broker_conn_status_enum'') ''active''] @
     TimestampMixin, md_uniques = []\<rparr>"

definition DeviceToken_model :: model where
  "DeviceToken_model = \<lparr>md_table = ''device_tokens'', md_attributes =
     [key_attribute, foreign_key ''user_id'' ''users'' CASCADE, (mapped ''expo_push_token'' (Varchar 255))\<lparr>at_unique := True\<rparr>,
      mapped ''platform'' (Enum_type ''platform_enum''), with_default ''is_active'' Boolean_type ''true'', stamped ''created_at'',
      stamped ''last_seen_at''], md_uniques = []\<rparr>"

definition Position_model :: model where
  "Position_model = \<lparr>md_table = ''positions'', md_attributes =
     [key_attribute, foreign_key ''broker_connection_id'' ''broker_connections'' CASCADE,
      foreign_key ''instrument_id'' ''instruments'' RESTRICT, mapped ''quantity'' (Numeric 20 8), mapped ''avg_cost'' (Numeric 20 8),
      mapped ''currency'' (Varchar 3), mapped ''as_of'' Timestamptz],
     md_uniques = [[''broker_connection_id'', ''instrument_id'']]\<rparr>"

definition Order_model :: model where
  "Order_model = \<lparr>md_table = ''orders'', md_attributes =
     [key_attribute, foreign_key ''broker_connection_id'' ''broker_connections'' RESTRICT,
      foreign_key ''instrument_id'' ''instruments'' RESTRICT, mapped ''side'' (Enum_type ''order_side_enum''),
      mapped ''order_type'' (Enum_type ''order_type_enum''), mapped ''quantity'' (Numeric 20 8), maybe ''limit_price'' (Numeric 20 8),
      with_default ''status'' (Enum_type ''order_status_enum'') ''pending'', maybe ''broker_order_id'' (Varchar 128),
      (mapped ''idempotency_key'' (Varchar 255))\<lparr>at_unique := True\<rparr>] @ TimestampMixin, md_uniques = []\<rparr>"

definition FxRate_model :: model where
  "FxRate_model = \<lparr>md_table = ''fx_rates'', md_attributes =
     [key_attribute, mapped ''base_currency'' (Varchar 3), mapped ''quote_currency'' (Varchar 3), mapped ''rate'' (Numeric 20 10),
      mapped ''as_of'' Timestamptz], md_uniques = [[''base_currency'', ''quote_currency'', ''as_of'']]\<rparr>"

definition CorporateAction_model :: model where
  "CorporateAction_model = \<lparr>md_table = ''corporate_actions'', md_attributes =
     [key_attribute, foreign_key ''instrument_id'' ''instruments'' CASCADE, mapped ''action_type'' (Enum_type ''corp_action_type_enum''),
      mapped ''ex_date'' Date_type, mapped ''ratio_or_amount'' (Numeric 20 8), maybe ''currency'' (Varchar 3), maybe ''notes'' Text_type,
      stamped ''created_at''], md_uniques = []\<rparr>"

definition PriceHistory_model :: model where
  "PriceHistory_model = \<lparr>md_table = ''price_history'', md_attributes =
     [(foreign_key ''instrument_id'' ''instruments'' CASCADE)\<lparr>at_primary := True\<rparr>, (mapped ''timestamp'' Timestamptz)\<lparr>at_primary := True\<rparr>,
      mapped ''open'' (Numeric 20 8), mapped ''high'' (Numeric 20 8), mapped ''low'' (Numeric 20 8), mapped ''close'' (Numeric 20 8),
      mapped ''volume'' Bigint], md_uniques = []\<rparr>"

definition Recommendation_model :: model where
  "Recommendation_model = \<lparr>md_table = ''recommendations'', md_attributes =
     [key_attribute, foreign_key ''user_id'' ''users'' CASCADE, foreign_key ''instrument_id'' ''instruments'' RESTRICT,
      mapped ''recommendation_type'' (Enum_type ''recommendation_type_enum''), mapped ''rationale'' Text_type,
      mapped ''confidence_score'' (Numeric 5 2), mapped ''expires_at'' Timestamptz,
      with_default ''status'' (Enum_type ''recommendation_status_enum'') ''pending''] @ TimestampMixin, md_uniques = []\<rparr>"

definition Notification_model :: model where
  "Notification_model = \<lparr>md_table = ''notifications'', md_attributes =
     [key_attribute, foreign_key ''user_id'' ''users'' CASCADE, mapped ''notification_type'' (Enum_type ''notification_type_enum''),
      mapped ''title'' (Varchar 255), mapped ''body'' Text_type, maybe ''payload'' Jsonb, maybe ''sent_at'' Timestamptz,
      maybe ''read_at'' Timestamptz, stamped ''created_at''], md_uniques = []\<rparr>"

definition CalendarOverride_model :: model where
  "CalendarOverride_model = \<lparr>md_table = ''calendar_overrides'', md_attributes =
     [key_attribute, mapped ''exchange'' (Varchar 16), mapped ''date'' Date_type, mapped ''is_open'' Boolean_type,
      maybe ''reason'' Text_type], md_uniques = [[''exchange'', ''date'']]\<rparr>"

definition AuditLog_model :: model where
  "AuditLog_model = \<lparr>md_table = ''audit_log'', md_attributes =
     [key_attribute, (foreign_key ''user_id'' ''users'' SET_NULL)\<lparr>at_nullable := True\<rparr>, mapped ''event_type'' (Varchar 64),
      maybe ''event_data'' Jsonb, maybe ''ip_address'' Inet, maybe ''user_agent'' Text_type, stamped ''occurred_at''], md_uniques = []\<rparr>"

definition AiAnalysisLog_model :: model where
  "AiAnalysisLog_model = \<lparr>md_table = ''ai_analysis_log'', md_attributes =
     [key_attribute, mapped ''request_type'' (Varchar 64), mapped ''model_name'' (Varchar 128), with_default ''prompt_tokens'' Integer_type ''0'',
      with_default ''completion_tokens'' Integer_type ''0'', mapped ''latency_ms'' Integer_type,
      mapped ''status'' (Enum_type ''ai_analysis_status_enum''), maybe ''error_message'' Text_type,
      (with_default ''shadow_mode'' Boolean_type ''false'')\<lparr>at_server_default := Some ''false''\<rparr>,
      (foreign_key ''instrument_id'' ''instruments'' SET_NULL)\<lparr>at_nullable := True\<rparr>, maybe ''result_json'' Jsonb,
      maybe ''ai_score'' (Numeric 5 4), stamped ''created_at''], md_uniques = []\<rparr>"

definition MODELS :: "model list" where
  "MODELS =
     [AiAnalysisLog_model, AuditLog_model, BrokerConnection_model, CalendarOverride_model, CorporateAction_model, DeviceToken_model,
      FxRate_model, Instrument_model, Notification_model, Order_model, Position_model, PriceHistory_model, Recommendation_model,
      SymbolMapping_model, User_model]"

section \<open>Tables and rows of a model\<close>

text \<open>The column of an attribute. A constant for an absent value is the default of the model, else that of the database;
  a drawn value has no column default to stand for it.\<close>

definition attribute_column :: "attribute \<Rightarrow> column" where
  "attribute_column a = \<lparr>cl_name = at_name a, cl_type = at_type a, cl_nullable = at_nullable a,
     cl_default = (case at_default a of Some (Constant v) \<Rightarrow> Some v | _ \<Rightarrow> at_server_default a), cl_references = at_references a\<rparr>"

definition model_keys :: "model \<Rightarrow> string list list" where
  "model_keys m =
     map at_name (filter at_primary (md_attributes m)) # map (\<lambda>a. [at_name a]) (filter at_unique (md_attributes m)) @ md_uniques m"

definition default_value :: "string \<Rightarrow> client_default \<Rightarrow> string" where
  "default_value fresh d = (case d of Constant v \<Rightarrow> v | Fresh_uuid \<Rightarrow> fresh)"

text \<open>The row the mapper sends for the attributes an instance has: its values and the defaults of the model, with the
  uuid drawn for this row.\<close>

definition mapper_row :: "model \<Rightarrow> string \<Rightarrow> db_row \<Rightarrow> db_row" where
  "mapper_row m fresh vals =
     concat (map (\<lambda>a. case map_of vals (at_name a) of
         Some v \<Rightarrow> [(at_name a, v)]
       | None \<Rightarrow> (case at_default a of Some d \<Rightarrow> [(at_name a, default_value fresh d)] | None \<Rightarrow> [])) (md_attributes m))"

definition complete :: "model \<Rightarrow> db_row \<Rightarrow> bool" where
  "complete m vals \<longleftrightarrow> list_all (\<lambda>a. at_nullable a \<or> at_default a \<noteq> None \<or> at_server_default a \<noteq> None \<or>
     map_of vals (at_name a) \<noteq> None) (md_attributes m)"

section \<open>Lemmas\<close>

text \<open>Both sides are data, so each comparison is a computation.\<close>

lemma model_columns:
  "list_all (\<lambda>m. set (map attribute_column (md_attributes m)) = set (tb_columns (schema_table (md_table m)))) MODELS"
  by code_simp

lemma model_keys_match: "list_all (\<lambda>m. set (model_keys m) = set (tb_keys (schema_table (md_table m)))) MODELS"
  by code_simp

lemma model_names: "list_all (\<lambda>m. distinct (map at_name (md_attributes m))) MODELS"
  by code_simp

lemma model_tables: "set (map md_table MODELS) = set (map tb_name (snd SCHEMA))"
  by code_simp

lemma model_enums: "list_all (\<lambda>(e, vs). set vs = set (dict_get (fst SCHEMA) e [])) MODEL_ENUMS"
  "map fst MODEL_ENUMS = map fst (fst SCHEMA)"
  by code_simp+

lemma mapper_row_names:
  "n \<in> fst ` set (mapper_row m fresh vals) \<longleftrightarrow>
     (\<exists>a \<in> set (md_attributes m). at_name a = n \<and> (map_of vals n \<noteq> None \<or> at_default a \<noteq> None))"
proof -
  have "fst ` set (case map_of vals (at_name a) of Some v \<Rightarrow> [(at_name a, v)]
      | None \<Rightarrow> (case at_default a of Some d \<Rightarrow> [(at_name a, default_value fresh d)] | None \<Rightarrow> [])) =
    (if map_of vals (at_name a) \<noteq> None \<or> at_default a \<noteq> None then {at_name a} else {})" for a :: attribute
    by (cases "map_of vals (at_name a)"; cases "at_default a") simp_all
  then have "fst ` set (mapper_row m fresh vals) =
      (\<Union>a \<in> set (md_attributes m). if map_of vals (at_name a) \<noteq> None \<or> at_default a \<noteq> None then {at_name a} else {})"
    by (simp only: mapper_row_def set_concat set_map image_Union image_image)
  then show ?thesis by auto
qed

lemma mapper_row_value:
  assumes "distinct (map at_name (md_attributes m))" "a \<in> set (md_attributes m)" "map_of vals (at_name a) = None"
    "at_default a = Some d"
  shows "map_of (mapper_row m fresh vals) (at_name a) = Some (default_value fresh d)"
proof -
  let ?f = "\<lambda>a. case map_of vals (at_name a) of Some v \<Rightarrow> [(at_name a, v)]
       | None \<Rightarrow> (case at_default a of Some d \<Rightarrow> [(at_name a, default_value fresh d)] | None \<Rightarrow> [])"
  have other: "map_of (?f b) (at_name a) = None" if "at_name b \<noteq> at_name a" for b :: attribute
    using that by (simp split: option.split)
  have "map_of (concat (map ?f as)) (at_name a) = Some (default_value fresh d)"
    if "distinct (map at_name as)" "a \<in> set as" for as
    using that
  proof (induction as)
    case (Cons b bs)
    show ?case
    proof (cases "b = a")
      case True
      then show ?thesis using assms(3,4) by (simp add: map_add_Some_iff)
    next
      case False
      then have "at_name b \<noteq> at_name a" "a \<in> set bs" using Cons.prems by (auto simp: rev_image_eqI)
      then show ?thesis using Cons other[of b] by (simp only: list.map concat.simps map_of_append map_add_Some_iff) simp
    qed
  qed simp
  then show ?thesis using assms(1,2) by (simp add: mapper_row_def)
qed

lemma key_drawn:
  "list_all (\<lambda>m. if md_table m = ''price_history'' then key_attribute \<notin> set (md_attributes m) \<and> ''id'' \<notin> at_name ` set (md_attributes m)
     else key_attribute \<in> set (md_attributes m)) MODELS"
  by code_simp

lemma with_defaults_names:
  "n \<in> fst ` set (with_defaults t r) \<longleftrightarrow>
     n \<in> fst ` set r \<or> (\<exists>c \<in> set (tb_columns (schema_table t)). cl_name c = n \<and> cl_default c \<noteq> None)"
proof -
  have "fst ` set (case cl_default c of Some v \<Rightarrow> if map_of r (cl_name c) = None then [(cl_name c, v)] else [] | None \<Rightarrow> []) =
    (if cl_default c \<noteq> None \<and> cl_name c \<notin> fst ` set r then {cl_name c} else {})" for c :: column
    by (cases "cl_default c") (simp_all add: map_of_eq_None_iff)
  then have "fst ` set (with_defaults t r) = fst ` set r \<union>
      (\<Union>c \<in> set (tb_columns (schema_table t)). if cl_default c \<noteq> None \<and> cl_name c \<notin> fst ` set r then {cl_name c} else {})"
    by (simp only: with_defaults_def set_append image_Un set_concat set_map image_Union image_image)
  then show ?thesis by auto
qed

text \<open>No column that must not be NULL is NULL.\<close>

definition nulls_ok :: "table \<Rightarrow> db_row \<Rightarrow> bool" where
  "nulls_ok tb r \<longleftrightarrow> list_all (\<lambda>c. cl_nullable c \<or> map_of r (cl_name c) \<noteq> None) (tb_columns tb)"

lemma nulls_complete:
  assumes cols: "set (tb_columns (schema_table (md_table m))) = set (map attribute_column (md_attributes m))"
    and names: "distinct (map at_name (md_attributes m))"
  shows "nulls_ok (schema_table (md_table m)) (with_defaults (md_table m) (mapper_row m fresh vals)) \<longleftrightarrow> complete m vals"
proof -
  let ?row = "with_defaults (md_table m) (mapper_row m fresh vals)"
  have same: "a = b" if "a \<in> set (md_attributes m)" "b \<in> set (md_attributes m)" "at_name a = at_name b" for a b
    using names that by (auto simp: distinct_map dest: inj_onD)
  have "at_name a \<in> fst ` set ?row \<longleftrightarrow> at_default a \<noteq> None \<or> at_server_default a \<noteq> None \<or> map_of vals (at_name a) \<noteq> None"
    if a: "a \<in> set (md_attributes m)" for a
    using a same[OF a] unfolding with_defaults_names mapper_row_names cols
    by (fastforce simp: attribute_column_def split: option.splits client_default.splits)
  moreover have "map_of ?row n \<noteq> None \<longleftrightarrow> n \<in> fst ` set ?row" for n by (simp add: map_of_eq_None_iff)
  ultimately show ?thesis
    unfolding nulls_ok_def complete_def list_all_iff cols by (auto simp: attribute_column_def)
qed

section \<open>Property\<close>

text \<open>C40. Every model is the table the migrations make: the same columns with their types, nullability, references and
  constant defaults, whether the mapper or the database applies these, and the same keys. The key of every table but the
  price history is drawn by the mapper for an instance without one, as no default of the database stands behind it.
  So an instance violates no NOT NULL rule when it is stored exactly if it has a value wherever its model asks for one,
  and no model with an \<open>id\<close> asks for it.\<close>

theorem models_match_migrations:
  assumes "m \<in> set MODELS"
  shows "set (map attribute_column (md_attributes m)) = set (tb_columns (schema_table (md_table m))) \<and>
    set (model_keys m) = set (tb_keys (schema_table (md_table m))) \<and>
    (nulls_ok (schema_table (md_table m)) (with_defaults (md_table m) (mapper_row m fresh vals)) \<longleftrightarrow> complete m vals) \<and>
    (md_table m \<noteq> ''price_history'' \<longrightarrow> map_of vals ''id'' = None \<longrightarrow> map_of (mapper_row m fresh vals) ''id'' = Some fresh)"
proof -
  have names: "distinct (map at_name (md_attributes m))" using assms model_names by (simp add: list_all_iff)
  have "map_of (mapper_row m fresh vals) ''id'' = Some fresh" if "md_table m \<noteq> ''price_history''" "map_of vals ''id'' = None"
  proof -
    have k: "key_attribute \<in> set (md_attributes m)" using assms key_drawn that(1) by (auto simp: list_all_iff)
    show ?thesis
      using mapper_row_value[OF names k, of vals Fresh_uuid fresh] that(2)
      by (simp add: key_attribute_def mapped_def default_value_def)
  qed
  then show ?thesis
    using assms model_columns model_keys_match model_names nulls_complete[of m fresh vals]
    by (auto simp only: list_all_iff simp_thms)
qed

text \<open>A user without an id is stored, with the drawn one; without a password it is not.\<close>

lemma models_match_migrations_witness:
  "nulls_ok (schema_table ''users'') (with_defaults ''users'' (mapper_row User_model ''f'' [(''email'', ''a@b.c''), (''password_hash'', ''h'')])) \<and>
   map_of (mapper_row User_model ''f'' [(''email'', ''a@b.c''), (''password_hash'', ''h'')]) ''id'' = Some ''f'' \<and>
   \<not> nulls_ok (schema_table ''users'') (with_defaults ''users'' (mapper_row User_model ''f'' [(''email'', ''a@b.c'')]))"
proof -
  have "User_model \<in> set MODELS" by (simp add: MODELS_def)
  note th = models_match_migrations[OF this, where fresh = "''f''"]
  have "complete User_model [(''email'', ''a@b.c''), (''password_hash'', ''h'')]"
    "\<not> complete User_model [(''email'', ''a@b.c'')]" by code_simp+
  moreover have "md_table User_model = ''users''" by (simp add: User_model_def)
  ultimately show ?thesis
    using th[of "[(''email'', ''a@b.c''), (''password_hash'', ''h'')]"] th[of "[(''email'', ''a@b.c'')]"] by simp
qed

end
