(* ===== verification/Spec2Isabelle.thy ===== *)
theory Spec2Isabelle
  imports Guardian Sessions Portfolio Fx_Attribution Rate_Limiter Sync Synthesizer Scores Corporate Encryption Scheduler Risk_Guardian Sentiment Broker_Auth Edgar Fx_Feeds Risk_Series News Analysis_Api Health_Api Ai_Analysis Instruments_Api Safety_Api Auth_Api Tasks Schema Portfolio_Api Alert_Stream Mailer Recommendations_Api Meter_Series Orm
begin

text \<open>
  A model of the InvestIQ backend: the Python service under \<open>src/backend/app\<close> that connects brokers, mirrors portfolios, values
  and analyses them, guards orders and notifies its users, with the database schema of \<open>src/backend/alembic\<close>. Paths below are
  relative to \<open>src/backend/app\<close>. A definition has the name of the function, constant or class it models (without the leading
  underscore; where two modules use one name it has a prefix); a record is a class or a row, an error datatype lists the exceptions,
  and a raise or an early return is a branch. Calls that change state take the state and return it.

  \<^bold>\<open>The program.\<close> Routes (\<open>api\<close>) authenticate a user, open a database session and call services. Services keep their state in
  PostgreSQL and Redis: sessions of users, broker connections, positions and orders, symbols, prices, exchange rates, corporate
  actions, the audit log. A Celery beat sends the scheduler and the background tasks (\<open>celery_app.py\<close>, \<open>scheduling\<close>, \<open>tasks\<close>);
  analysis engines (\<open>analysis\<close>, \<open>intelligence\<close>) turn stored prices, filings and news into scores, which the synthesizer blends into
  recommendations; the safety layer decides on orders, the risk guardian watches positions, and the notification layer delivers.

  \<^bold>\<open>Foundations.\<close>
  \<^item> \<open>Prelude\<close>: Python's text functions on ASCII, dictionaries, results (\<open>bind_res\<close>), instants in microseconds. \<open>PyNum\<close>: floats as the
    rationals of binary64 rounded after each operation (\<open>f64\<close>, \<open>fadd\<close>, the compensated \<open>sum\<close>, \<open>round\<close>) and decimals of 28 digits
    (\<open>d28\<close>, \<open>dadd\<close>), both instances of the locale \<open>rounding\<close>. NaN is \<open>None\<close> where the code meets it; overflow to an infinity is
    modelled only where stated. \<open>PyText\<close>, \<open>PyFloat\<close>, \<open>PyDate\<close>: reading and printing of numbers, the reader of JSON, whose fuel is the length of
    the text (every nested value starts at a later character), and the proleptic calendar.
  \<^item> \<open>Redis\<close>: the commands as a record of functions over an abstract store, with the laws \<open>redis_kv\<close> (keys with an expiry), \<open>redis_zset\<close>
    (sorted sets) and \<open>redis_time\<close> (times to live as time passes) that theorems name as hypotheses; a concrete store \<open>mem_redis\<close>, with
    times to live \<open>with_ttl mem_redis\<close>, satisfies them and serves the witnesses.
  \<^item> \<open>Http\<close>: answers of HTTP libraries and the exceptions of a document of the wrong shape. \<open>Models\<close>: rows shared by services.
  \<^item> \<open>Audit_Log\<close>: \<open>services/audit.py\<close> and the locale \<open>append_only\<close> for everything that writes to the log.

  \<^bold>\<open>Users and safety.\<close>
  \<^item> \<open>Jwt\<close>, \<open>Auth\<close>, \<open>Sessions\<close>, \<open>Auth_Api\<close>: tokens, \<open>services/auth.py\<close>, \<open>auth/dependencies.py\<close> and the routes. Over all runs of the service a
    refresh token works once and a password change revokes what was issued before.
  \<^item> \<open>Mailer\<close>: \<open>notifications/transactional.py\<close>; a reset code is logged in development only and never sent before TLS.
  \<^item> \<open>Safety\<close>, \<open>Guardian\<close>, \<open>Safety_Api\<close>: kill switch, sizer, guardian and log pages of \<open>safety\<close>; a decision is characterised by its rules, and
    over runs against the clock, in which the sets of recent orders expire, no order is accepted twice within the window.
  \<^item> \<open>Encryption\<close>: \<open>services/encryption.py\<close>; a token survives the rotation of the master keys.

  \<^bold>\<open>Brokers and portfolio.\<close>
  \<^item> \<open>Rate_Limiter\<close>: \<open>brokers/rate_limiter.py\<close>. One pass of \<open>acquire\<close> is a function, with what other workers do between its
    commands as an argument; the loop has fuel and threads the elapsed time. The cap on the waiting time gives the number of passes
    that is enough, 256 for each second and one for each retry, and the time by which the call is over (\<open>acquire_terminates\<close>).
  \<^item> \<open>Brokers\<close>: both adapters (\<open>brokers/zerodha.py\<close>, \<open>brokers/alpaca.py\<close>), interpretations of \<open>broker_adapter\<close>. \<open>Broker_Auth\<close>: connecting, the
    callback, and the credentials a sync uses.
  \<^item> \<open>Symbols\<close>: \<open>services/symbol_mapping.py\<close>, \<open>services/instruments.py\<close>; the locale \<open>symbol_resolver\<close> states what resolving promises. \<open>Sync\<close>:
    \<open>services/portfolio_sync.py\<close>, proved once over that contract (\<open>sync_laws\<close>): it refines the specification that the positions mirror
    the broker. \<open>Instruments_Api\<close>: the routes, the session of a request, and the seed.
  \<^item> \<open>Fx\<close>, \<open>Fx_Feeds\<close>, \<open>Fx_Attribution\<close>, \<open>Benchmark\<close>: exchange rates, rounded as their column rounds them, with the locale
    \<open>rate_source\<close> for their clients, FRED and ECB, the decomposition of a return, index returns.
  \<^item> \<open>Portfolio\<close>, \<open>Scores\<close>, \<open>Meter_Series\<close>, \<open>Health_Api\<close>, \<open>Portfolio_Api\<close>: valuation (\<open>services/portfolio_summary.py\<close>), intelligence
    (\<open>intelligence/portfolio.py\<close>), risk meter and health score with their series, and their routes within the ranges of the schemas.
  \<^item> \<open>Corporate\<close>: \<open>services/corporate_actions.py\<close>; a split is applied to the stored prices once.

  \<^bold>\<open>Analysis and recommendations.\<close>
  \<^item> \<open>Market_Data\<close>, \<open>Edgar\<close>, \<open>News\<close>: caches, Yahoo, price storage, EDGAR filings, GNews with its budget, RSS, Reddit and FinBERT (\<open>data\<close>,
    \<open>analysis/finbert.py\<close>).
  \<^item> \<open>Engine_Scores\<close>, \<open>Technical\<close>, \<open>Risk_Series\<close>, \<open>Sentiment\<close>, \<open>Analysis_Api\<close>: the four engines of \<open>analysis\<close>, correlation, and their routes.
    Scores are bounded although they are computed in floats, and missing inputs renormalise the weights.
  \<^item> \<open>Ai_Analysis\<close>: \<open>intelligence/ai_analysis\<close>, sanitizer to shadow log. \<open>Synthesizer\<close>, \<open>Recommendations_Api\<close>: \<open>intelligence/synthesizer.py\<close>, staleness,
    explainer, and the routes that generate and list.

  \<^bold>\<open>Time, tasks, alerts, schema.\<close>
  \<^item> \<open>Calendar\<close>, \<open>Scheduler\<close>, \<open>Tasks\<close>: \<open>services/calendar.py\<close> over the calendar library, searched for 20 days as the code does; the
    scheduler as steps over what a session source promises (locale \<open>session_source\<close>); the application with the messages of beat.
  \<^item> \<open>Notifications\<close>, \<open>Alert_Stream\<close>, \<open>Risk_Guardian\<close>: dispatcher, channels, inbox, devices, tickets, the loop of the socket, the monitoring run.
  \<^item> \<open>Schema\<close>, \<open>Orm\<close>: tables, enums, partitions, privileges and triggers of the migrations as data with the meaning of the SQL statements
    on them (INSERT, UPDATE, DELETE, TRUNCATE; neither \<open>TRUNCATE ... CASCADE\<close> nor DDL), and the models of \<open>models\<close> with the values the
    mapper fills in, drawn keys included, compared with them. A cascade is followed three references deep, which is enough for
    every table (\<open>never_too_deep\<close>).

  \<^bold>\<open>Interfaces.\<close> Each locale is interpreted on the model: \<open>rounding\<close> by \<open>f64\<close> and \<open>d28\<close>; \<open>append_only\<close> by the guardian, the corporate actions
  and the recommendations; \<open>rate_source\<close> by \<open>get_rate\<close>; \<open>symbol_resolver\<close> by \<open>normalize_symbol\<close> and \<open>sync_laws\<close>, which extends it, by
  the resolver of the sync; \<open>session_source\<close> by \<open>get_session_hours\<close>; \<open>broker_adapter\<close> by both adapters.

  \<^bold>\<open>Parameters.\<close> Code outside the repository is an argument: Redis, what HTTP servers, broker SDKs, yfinance, PRAW and the mail server
  answer, argon2, SHA-256, HKDF and AES-GCM, the signing of JWTs, \<open>exchange_calendars\<close>, the moving and order statistics of pandas
  and numpy, the FinBERT pipeline, the printing of pydantic, clocks and fresh identifiers, and the order in which PostgreSQL
  returns rows that compare equal. What a theorem needs of them is a named hypothesis (\<open>redis_kv\<close>, \<open>redis_zset\<close>, \<open>redis_time\<close>, \<open>aead_ok\<close>, \<open>hash_exact\<close>,
  \<open>codec_ok\<close>, \<open>json_exact\<close>, \<open>ffill_ok\<close>, \<open>percentile_ok\<close>, \<open>corr_ok\<close>, \<open>scan_ok\<close>, \<open>worker_ok\<close>) that its witness meets with a concrete function.

  \<^bold>\<open>What the properties show.\<close> Beside correctness, several characterise behaviour that contradicts the documentation: a failed fetch
  of positions closes them all, a post-close batch runs only if a tick falls into the first minute, the tasks of the session are
  never dispatched because beat sends a task no worker loads, a health score is frozen for a day, old prices give full confidence,
  an instrument resolved over HTTP is not stored, a password with an outer blank locks its user out, a user with an audit row
  cannot be deleted, and the risk meter ends at 80.

  \<^bold>\<open>Not modelled.\<close> The wiring (\<open>main.py\<close>, \<open>redis_client.py\<close>, \<open>manage.py\<close>, \<open>alembic/env.py\<close>) and the settings (\<open>config.py\<close>), which reach the
  model as arguments, have no logic of their own; the order routes do not exist yet (both adapters only raise on \<open>place_order\<close>);
  loggers, HTTP connection handling, semaphores and thread pools only bound concurrency or report; database indexes, roles and
  transaction isolation beyond the commit of a session are left to PostgreSQL; non-ASCII text is opaque. The mobile application is
  a client in another language. Every command and every call of the safety layer takes no time of its own; the \<open>detail\<close> of a component of
  the risk meter is left out.
\<close>

end
